(* ===== verification/Floria_Prelude.thy ===== *)
theory Floria_Prelude
  imports Main "HOL-Library.AList" "HOL-Library.Multiset" "HOL-Library.Char_ord"
    "HOL-Library.List_Lexorder" "HOL-Library.Product_Lexorder" "HOL-Library.Option_ord"
begin

text \<open>
  Shared vocabulary of the development: Rust's \<open>Result\<close> as a sum with its combinators, checked,
  saturating and wrapping machine arithmetic written out on \<open>nat\<close> and \<open>int\<close>, hash maps as
  association lists (the list order stands for the unspecified iteration order), and the generic
  lemmas on lists, stable sorting and association lists the component theories rely on.
\<close>

named_theorems result_simps \<open>unfolding of Result and Option combinators\<close>
named_theorems arith_defs \<open>definitions of the machine arithmetic\<close>

section \<open>Results\<close>

type_synonym ('e, 'a) result = "'e + 'a"
type_synonym bytes = "nat list"

abbreviation Err :: "'e \<Rightarrow> 'e + 'a" where "Err \<equiv> Inl"
abbreviation Ok :: "'a \<Rightarrow> 'e + 'a" where "Ok \<equiv> Inr"

definition and_then :: "'e + 'a \<Rightarrow> ('a \<Rightarrow> 'e + 'b) \<Rightarrow> 'e + 'b" where
  "and_then r f = (case r of Inl e \<Rightarrow> Inl e | Inr x \<Rightarrow> f x)"

definition ok_or :: "'a option \<Rightarrow> 'e \<Rightarrow> 'e + 'a" where
  "ok_or x e = (case x of None \<Rightarrow> Inl e | Some a \<Rightarrow> Inr a)"

definition map_err :: "('e \<Rightarrow> 'f) \<Rightarrow> 'e + 'a \<Rightarrow> 'f + 'a" where
  "map_err g r = (case r of Inl e \<Rightarrow> Inl (g e) | Inr x \<Rightarrow> Inr x)"

definition unwrap_or :: "'a option \<Rightarrow> 'a \<Rightarrow> 'a" where
  "unwrap_or x d = (case x of None \<Rightarrow> d | Some a \<Rightarrow> a)"

fun is_ok :: "'e + 'a \<Rightarrow> bool" where
  "is_ok (Inl e) = False"
| "is_ok (Inr x) = True"

text \<open>Loops that stop at the first error.\<close>

fun try_fold :: "('s \<Rightarrow> 'a \<Rightarrow> 'e + 's) \<Rightarrow> 's \<Rightarrow> 'a list \<Rightarrow> 'e + 's" where
  "try_fold f s [] = Inr s"
| "try_fold f s (x # xs) = (case f s x of Inl e \<Rightarrow> Inl e | Inr s' \<Rightarrow> try_fold f s' xs)"

fun try_each :: "('a \<Rightarrow> 'e + unit) \<Rightarrow> 'a list \<Rightarrow> 'e + unit" where
  "try_each f [] = Inr ()"
| "try_each f (x # xs) = (case f x of Inl e \<Rightarrow> Inl e | Inr _ \<Rightarrow> try_each f xs)"

fun try_map :: "('a \<Rightarrow> 'e + 'b) \<Rightarrow> 'a list \<Rightarrow> 'e + 'b list" where
  "try_map f [] = Inr []"
| "try_map f (x # xs) = (case f x of Inl e \<Rightarrow> Inl e
     | Inr y \<Rightarrow> (case try_map f xs of Inl e \<Rightarrow> Inl e | Inr ys \<Rightarrow> Inr (y # ys)))"

section \<open>Machine integers\<close>

text \<open>Unsigned values are \<open>nat\<close>, signed ones \<open>int\<close>; every operation whose width matters says
  what it does at the bound.\<close>

definition wrapping_add_u64 :: "nat \<Rightarrow> nat \<Rightarrow> nat" where
  [arith_defs]: "wrapping_add_u64 a b = (a + b) mod 2 ^ 64"

definition saturating_add_u64 :: "nat \<Rightarrow> nat \<Rightarrow> nat" where
  [arith_defs]: "saturating_add_u64 a b = min (a + b) (2 ^ 64 - 1)"

definition checked_add_u64 :: "nat \<Rightarrow> nat \<Rightarrow> nat option" where
  [arith_defs]: "checked_add_u64 a b = (if a + b < 2 ^ 64 then Some (a + b) else None)"

definition checked_add_i64 :: "int \<Rightarrow> int \<Rightarrow> int option" where
  [arith_defs]: "checked_add_i64 a b =
     (if - (2 ^ 63) \<le> a + b \<and> a + b < 2 ^ 63 then Some (a + b) else None)"

definition i64_try_from_u64 :: "nat \<Rightarrow> int option" where
  [arith_defs]: "i64_try_from_u64 n = (if n < 2 ^ 63 then Some (int n) else None)"

definition as_u32 :: "nat \<Rightarrow> nat" where
  [arith_defs]: "as_u32 n = n mod 2 ^ 32"

text \<open>\<open>now_unix\<close> of both state-keeping modules: the wall clock in whole seconds, clamped to the
  non-negative part of \<open>i64\<close>. Every operation that reads a clock takes the reading as an argument.\<close>

definition now_unix :: "int \<Rightarrow> int" where
  [arith_defs]: "now_unix clock = (if clock < 0 then 0 else min clock (2 ^ 63 - 1))"

text \<open>Lower-case hexadecimal rendering of a digest.\<close>

definition hex_digit :: "nat \<Rightarrow> char" where
  "hex_digit n = (if n < 10 then char_of (48 + n) else char_of (87 + n))"

definition to_hex :: "bytes \<Rightarrow> string" where
  "to_hex bs = concat (map (\<lambda>b. [hex_digit (b div 16), hex_digit (b mod 16)]) bs)"

section \<open>Hash maps as association lists\<close>

type_synonym ('k, 'v) hash_map = "('k \<times> 'v) list"

definition hm_wf :: "('k, 'v) hash_map \<Rightarrow> bool" where
  "hm_wf m \<longleftrightarrow> distinct (map fst m)"

definition hm_get :: "('k, 'v) hash_map \<Rightarrow> 'k \<Rightarrow> 'v option" where
  "hm_get m k = map_of m k"

definition hm_insert :: "'k \<Rightarrow> 'v \<Rightarrow> ('k, 'v) hash_map \<Rightarrow> ('k, 'v) hash_map" where
  "hm_insert k v m = AList.update k v m"

definition hm_remove :: "'k \<Rightarrow> ('k, 'v) hash_map \<Rightarrow> ('k, 'v) hash_map" where
  "hm_remove k m = AList.delete k m"

definition hm_retain :: "('k \<Rightarrow> 'v \<Rightarrow> bool) \<Rightarrow> ('k, 'v) hash_map \<Rightarrow> ('k, 'v) hash_map" where
  "hm_retain p m = filter (\<lambda>(k, v). p k v) m"

section \<open>Lemmas on results\<close>

lemma and_then_simps [simp, result_simps]:
  "and_then (Inl e) f = Inl e"
  "and_then (Inr x) f = f x"
  by (simp_all add: and_then_def)

lemma ok_or_simps [simp, result_simps]:
  "ok_or None e = Inl e"
  "ok_or (Some a) e = Inr a"
  by (simp_all add: ok_or_def)

lemma map_err_simps [simp, result_simps]:
  "map_err g (Inl e) = Inl (g e)"
  "map_err g (Inr x) = Inr x"
  by (simp_all add: map_err_def)

lemma unwrap_or_simps [simp, result_simps]:
  "unwrap_or None d = d"
  "unwrap_or (Some a) d = a"
  by (simp_all add: unwrap_or_def)

lemma and_then_eq_Inr: "and_then r f = Inr y \<longleftrightarrow> (\<exists>x. r = Inr x \<and> f x = Inr y)"
  by (cases r) simp_all

lemma and_then_eq_Inl:
  "and_then r f = Inl e \<longleftrightarrow> r = Inl e \<or> (\<exists>x. r = Inr x \<and> f x = Inl e)"
  by (cases r) simp_all

lemma ok_or_eq_Inr [simp]: "ok_or x e = Inr a \<longleftrightarrow> x = Some a"
  by (cases x) simp_all

lemma ok_or_eq_Inl [simp]: "ok_or x e = Inl e' \<longleftrightarrow> x = None \<and> e' = e"
  by (cases x) auto

lemma map_err_eq_Inr [simp]: "map_err g r = Inr x \<longleftrightarrow> r = Inr x"
  by (cases r) simp_all

lemma is_ok_iff: "is_ok r \<longleftrightarrow> (\<exists>x. r = Inr x)"
  by (cases r) simp_all

lemma try_fold_append:
  "try_fold f s (xs @ ys) = (case try_fold f s xs of Inl e \<Rightarrow> Inl e | Inr s' \<Rightarrow> try_fold f s' ys)"
  by (induction xs arbitrary: s) (auto split: sum.splits)

lemma try_each_Inr: "try_each f xs = Inr () \<longleftrightarrow> (\<forall>x \<in> set xs. f x = Inr ())"
  by (induction xs) (auto split: sum.splits)

lemma try_each_Inl: "try_each f xs = Inl e \<Longrightarrow> \<exists>x \<in> set xs. f x = Inl e"
  by (induction xs) (auto split: sum.splits)

lemma try_map_Inr: "try_map f xs = Inr ys \<longleftrightarrow> list_all2 (\<lambda>x y. f x = Inr y) xs ys"
proof (induction xs arbitrary: ys)
  case (Cons x xs)
  show ?case
    by (cases "f x"; cases "try_map f xs") (auto simp: list_all2_Cons1 Cons.IH [symmetric])
qed auto

lemma try_map_Inl: "try_map f xs = Inl e \<Longrightarrow> \<exists>x \<in> set xs. f x = Inl e"
  by (induction xs) (auto split: sum.splits)

section \<open>Lemmas on hash maps\<close>

lemma hm_wf_Nil [simp]: "hm_wf []"
  by (simp add: hm_wf_def)

lemma hm_wf_insert [simp]: "hm_wf m \<Longrightarrow> hm_wf (hm_insert k v m)"
  by (simp add: hm_wf_def hm_insert_def distinct_update)

lemma hm_wf_remove [simp]: "hm_wf m \<Longrightarrow> hm_wf (hm_remove k m)"
  by (simp add: hm_wf_def hm_remove_def distinct_delete)

lemma distinct_map_fst_filter: "distinct (map fst m) \<Longrightarrow> distinct (map fst (filter q m))"
  by (induction m) auto

lemma hm_wf_retain [simp]: "hm_wf m \<Longrightarrow> hm_wf (hm_retain p m)"
  by (simp add: hm_wf_def hm_retain_def distinct_map_fst_filter)

lemma hm_get_Nil [simp]: "hm_get [] k = None"
  by (simp add: hm_get_def)

lemma hm_get_insert [simp]: "hm_get (hm_insert k v m) k' = (if k' = k then Some v else hm_get m k')"
  by (simp add: hm_get_def hm_insert_def update_conv')

lemma hm_get_remove [simp]: "hm_get (hm_remove k m) k' = (if k' = k then None else hm_get m k')"
  by (simp add: hm_get_def hm_remove_def delete_conv')

lemma hm_get_retain [simp]:
  assumes "hm_wf m"
  shows "hm_get (hm_retain p m) k =
    (case hm_get m k of None \<Rightarrow> None | Some v \<Rightarrow> if p k v then Some v else None)"
  using assms
proof (induction m)
  case Nil
  then show ?case by (simp add: hm_retain_def)
next
  case (Cons kv m)
  obtain k0 v0 where kv: "kv = (k0, v0)" by (cases kv)
  from Cons.prems have wf: "hm_wf m" and fresh: "k0 \<notin> fst ` set m"
    by (auto simp: hm_wf_def kv)
  from fresh have "hm_get m k0 = None"
    by (simp add: hm_get_def map_of_eq_None_iff)
  with Cons.IH [OF wf] show ?case
    by (auto simp: kv hm_get_def hm_retain_def split: option.splits)
qed

lemma hm_get_SomeD: "hm_get m k = Some v \<Longrightarrow> (k, v) \<in> set m"
  by (simp add: hm_get_def map_of_SomeD)

lemma hm_get_iff_mem: "hm_wf m \<Longrightarrow> hm_get m k = Some v \<longleftrightarrow> (k, v) \<in> set m"
  by (simp add: hm_get_def hm_wf_def)

lemma hm_remove_absent: "hm_get m k = None \<Longrightarrow> hm_remove k m = m"
  by (simp add: hm_remove_def hm_get_def map_of_eq_None_iff)

lemma set_hm_retain [simp]: "set (hm_retain p m) = {(k, v) \<in> set m. p k v}"
  by (auto simp: hm_retain_def)

text \<open>Inserting a list of bindings that agree with each other.\<close>

definition hm_insert_all :: "('k, 'v) hash_map \<Rightarrow> ('k \<times> 'v) list \<Rightarrow> ('k, 'v) hash_map" where
  "hm_insert_all m kvs = foldl (\<lambda>m (k, v). hm_insert k v m) m kvs"

lemma hm_insert_all_simps [simp]:
  "hm_insert_all m [] = m"
  "hm_insert_all m ((k, v) # kvs) = hm_insert_all (hm_insert k v m) kvs"
  by (simp_all add: hm_insert_all_def)

lemma hm_wf_insert_all [simp]: "hm_wf m \<Longrightarrow> hm_wf (hm_insert_all m kvs)"
  by (induction kvs arbitrary: m) (auto simp: hm_insert_all_def)

lemma hm_get_insert_all:
  assumes "\<And>k v v'. (k, v) \<in> set kvs \<Longrightarrow> (k, v') \<in> set kvs \<Longrightarrow> v = v'"
  shows "hm_get (hm_insert_all [] kvs) k = Some v \<longleftrightarrow> (k, v) \<in> set kvs"
  using assms
proof (induction kvs rule: rev_induct)
  case (snoc kv kvs)
  obtain k0 v0 where kv: "kv = (k0, v0)" by (cases kv)
  have ih: "hm_get (hm_insert_all [] kvs) k = Some v \<longleftrightarrow> (k, v) \<in> set kvs"
    using snoc.prems by (intro snoc.IH) (auto simp: kv)
  have same: "(k0, v') \<in> set kvs \<Longrightarrow> v' = v0" for v'
    using snoc.prems [of k0 v' v0] by (simp add: kv)
  show ?case using ih same by (auto simp: hm_insert_all_def kv)
qed simp

section \<open>Lemmas on lists and stable sorting\<close>

lemma find_append: "find p (xs @ ys) = (case find p xs of None \<Rightarrow> find p ys | Some x \<Rightarrow> Some x)"
  by (induction xs) auto

lemma find_eq_hd_filter:
  "find p xs = (case filter p xs of [] \<Rightarrow> None | x # _ \<Rightarrow> Some x)"
  by (induction xs) auto

lemma find_None_filter: "find p xs = None \<longleftrightarrow> filter p xs = []"
  by (auto simp: find_eq_hd_filter split: list.splits)

lemma length_filter_eq: "length (filter p xs) = length xs \<longleftrightarrow> (\<forall>x \<in> set xs. p x)"
proof (induction xs)
  case (Cons x xs)
  have "length (filter p xs) \<noteq> Suc (length xs)"
    using length_filter_le [of p xs] by linarith
  with Cons show ?case by auto
qed simp

text \<open>Stable sorting commutes with filtering, so the first match in a sorted list is the head of
  the sorted list of matches.\<close>

lemma find_sort_key: "find p (sort_key f xs) = find (\<lambda>_. True) (sort_key f (filter p xs))"
  by (simp add: find_eq_hd_filter filter_sort)

lemma list_all2_left: "list_all2 P xs ys \<Longrightarrow> x \<in> set xs \<Longrightarrow> \<exists>y \<in> set ys. P x y"
  by (induction rule: list_all2_induct) auto

lemma list_all2_right: "list_all2 P xs ys \<Longrightarrow> y \<in> set ys \<Longrightarrow> \<exists>x \<in> set xs. P x y"
  by (induction rule: list_all2_induct) auto

end
