(* ===== verification/Rust_Path.thy ===== *)
theory Rust_Path
  imports Floria_Prelude
begin

text \<open>
  The part of \<open>std::path\<close> the program uses, on paths as byte strings (UTF-8, as the platform
  guarantees, so \<open>to_string_lossy\<close> is the identity): \<open>parent\<close>, \<open>file_name\<close>, \<open>join\<close>,
  \<open>starts_with\<close> by components, \<open>with_extension\<close>. \<open>parent\<close> strictly shortens a path, which makes the upward
  walks of the program terminate.
\<close>

section \<open>Segments\<close>

fun split_slash :: "string \<Rightarrow> string list" where
  "split_slash [] = [[]]"
| "split_slash (c # cs) =
     (if c = CHR ''/'' then [] # split_slash cs
      else (case split_slash cs of [] \<Rightarrow> [[c]] | s # ss \<Rightarrow> (c # s) # ss))"

fun join_slash :: "string list \<Rightarrow> string" where
  "join_slash [] = []"
| "join_slash [s] = s"
| "join_slash (s # t # ss) = s @ CHR ''/'' # join_slash (t # ss)"

definition has_root :: "string \<Rightarrow> bool" where
  "has_root p \<longleftrightarrow> p \<noteq> [] \<and> hd p = CHR ''/''"

text \<open>The segments after the root, with redundant ones (empty or a dot) still in place.\<close>

definition path_body :: "string \<Rightarrow> string list" where
  "path_body p = (if has_root p then split_slash (tl p) else split_slash p)"

definition redundant :: "string \<Rightarrow> bool" where
  "redundant s \<longleftrightarrow> s = [] \<or> s = ''.''"

text \<open>A leading dot of a relative path is a component of its own (\<open>CurDir\<close>) and is kept.\<close>

definition keep_head :: "bool \<Rightarrow> string list \<Rightarrow> bool" where
  "keep_head rooted ss \<longleftrightarrow> \<not> rooted \<and> ss = [''.'']"

fun trim_back_rev :: "bool \<Rightarrow> string list \<Rightarrow> string list" where
  "trim_back_rev rooted [] = []"
| "trim_back_rev rooted (s # ss) =
     (if redundant s \<and> \<not> keep_head rooted (s # ss) then trim_back_rev rooted ss else s # ss)"

definition trim_back :: "bool \<Rightarrow> string list \<Rightarrow> string list" where
  "trim_back rooted ss = rev (trim_back_rev rooted (rev ss))"

definition body_string :: "bool \<Rightarrow> string list \<Rightarrow> string" where
  "body_string rooted ss = (if rooted then CHR ''/'' # join_slash ss else join_slash ss)"

section \<open>Operations\<close>

definition path_parent :: "string \<Rightarrow> string option" where
  "path_parent p =
     (let r = has_root p; b = trim_back r (path_body p)
      in if b = [] then None else Some (body_string r (trim_back r (butlast b))))"

datatype component = RootDir | CurDir | ParentDir | Normal string

definition component_of :: "string \<Rightarrow> component" where
  "component_of s = (if s = ''..'' then ParentDir else Normal s)"

definition components :: "string \<Rightarrow> component list" where
  "components p =
     (let r = has_root p; b = path_body p;
          front = (if r then [RootDir] else if b \<noteq> [] \<and> hd b = ''.'' then [CurDir] else [])
      in front @ map component_of (filter (\<lambda>s. \<not> redundant s) b))"

definition file_name :: "string \<Rightarrow> string option" where
  "file_name p =
     (let cs = components p
      in if cs = [] then None else (case last cs of Normal s \<Rightarrow> Some s | _ \<Rightarrow> None))"

definition path_starts_with :: "string \<Rightarrow> string \<Rightarrow> bool" where
  "path_starts_with p q \<longleftrightarrow> take (length (components q)) (components p) = components q"

text \<open>\<open>join\<close> with a relative name, which is how the program calls it.\<close>

definition path_join :: "string \<Rightarrow> string \<Rightarrow> string" where
  "path_join p name =
     (if p = [] \<or> last p = CHR ''/'' then p @ name else p @ CHR ''/'' # name)"

text \<open>\<open>with_extension\<close>: the extension starts at the last dot of the file name, unless that dot is its
  first character.\<close>

definition name_stem :: "string \<Rightarrow> string" where
  "name_stem n =
     (let before = rev (drop 1 (dropWhile (\<lambda>c. c \<noteq> CHR ''.'') (rev n)))
      in if CHR ''.'' \<notin> set n \<or> before = [] then n else before)"

definition with_extension :: "string \<Rightarrow> string \<Rightarrow> string" where
  "with_extension p ext =
     (case file_name p of
        None \<Rightarrow> p
      | Some n \<Rightarrow>
          (let r = has_root p; b = trim_back r (path_body p)
           in body_string r (butlast b @ [name_stem n @ (if ext = [] then [] else CHR ''.'' # ext)])))"

section \<open>Parents are shorter\<close>

lemma split_slash_nonempty [simp]: "split_slash s \<noteq> []"
  by (cases s) (auto split: list.splits)

lemma join_split_slash: "join_slash (split_slash s) = s"
proof (induction s)
  case Nil
  then show ?case by simp
next
  case (Cons c cs)
  obtain t ts where "split_slash cs = t # ts"
    by (cases "split_slash cs") auto
  with Cons show ?case
    by (cases ts) auto
qed

lemma length_join_slash_butlast:
  "ss \<noteq> [] \<Longrightarrow> length (join_slash (butlast ss)) \<le> length (join_slash ss)"
  by (induction ss rule: join_slash.induct) auto

lemma length_join_slash_append: "length (join_slash xs) \<le> length (join_slash (xs @ ys))"
proof (induction xs rule: join_slash.induct)
  case (2 s)
  show ?case by (cases ys) auto
qed auto

lemma trim_back_rev_suffix: "\<exists>ys. ss = ys @ trim_back_rev r ss"
  by (induction r ss rule: trim_back_rev.induct) (auto intro: exI [of _ "[]"], metis append_Cons)

lemma trim_back_prefix: "\<exists>ys. ss = trim_back r ss @ ys"
  using trim_back_rev_suffix [of "rev ss" r]
  by (metis rev_append rev_rev_ident trim_back_def)

lemma length_join_trim_back: "length (join_slash (trim_back r ss)) \<le> length (join_slash ss)"
  using trim_back_prefix [of ss r] length_join_slash_append by metis

lemma trim_back_last: "trim_back r ss \<noteq> [] \<Longrightarrow> last (trim_back r ss) \<noteq> []"
proof -
  have "trim_back_rev r zs \<noteq> [] \<Longrightarrow> hd (trim_back_rev r zs) \<noteq> []" for zs
    by (induction r zs rule: trim_back_rev.induct) (auto simp: redundant_def keep_head_def)
  then show "trim_back r ss \<noteq> [] \<Longrightarrow> last (trim_back r ss) \<noteq> []"
    by (simp add: trim_back_def last_rev)
qed

lemma length_join_butlast_less:
  "ss \<noteq> [] \<Longrightarrow> last ss \<noteq> [] \<Longrightarrow> length (join_slash (butlast ss)) < length (join_slash ss)"
proof (induction ss rule: join_slash.induct)
  case (3 s t ss)
  then show ?case by (cases ss) auto
qed auto

lemma length_body_string: "length (body_string r ss) = (if r then 1 else 0) + length (join_slash ss)"
  by (simp add: body_string_def)

lemma path_body_length:
  "length (join_slash (path_body p)) + (if has_root p then 1 else 0) = length p"
  by (cases p) (simp_all add: path_body_def has_root_def join_split_slash del: split_slash.simps)

lemma path_parent_shorter: "path_parent p = Some q \<Longrightarrow> length q < length p"
proof -
  assume "path_parent p = Some q"
  then obtain b where b: "b = trim_back (has_root p) (path_body p)" and "b \<noteq> []"
    and q: "q = body_string (has_root p) (trim_back (has_root p) (butlast b))"
    by (auto simp: path_parent_def Let_def split: if_splits)
  have "length (join_slash (trim_back (has_root p) (butlast b))) \<le> length (join_slash (butlast b))"
    by (rule length_join_trim_back)
  also have "\<dots> < length (join_slash b)"
    using \<open>b \<noteq> []\<close> trim_back_last [of "has_root p" "path_body p"]
    by (intro length_join_butlast_less) (auto simp: b)
  also have "\<dots> \<le> length (join_slash (path_body p))"
    unfolding b by (rule length_join_trim_back)
  finally show "length q < length p"
    using path_body_length [of p] by (auto simp: q length_body_string)
qed

end
