(* ===== verification/Rules.thy ===== *)
theory Rules
  imports Rust_Path
begin

text \<open>
  The policy vocabulary and the rule engine of \<open>floria-core\<close>: \<open>identity.rs\<close>, \<open>authz.rs\<close> and
  \<open>rules.rs\<close>. Rules are stably sorted by descending priority and the first enabled rule whose
  operation, path, subject and object facets all match decides; with no match the engine denies.
  Glob matching (the \<open>globset\<close> package) is a parameter, a record of its three functions.
\<close>

section \<open>Identities (identity.rs)\<close>

record process_instance =
  inst_pid :: int
  inst_started_at_micros :: "nat option"

record proc_summary =
  ps_pid :: int
  ps_ppid :: int
  ps_name :: string
  ps_exe_path :: "string option"

record process_identity =
  id_pid :: int
  id_started_at_micros :: "nat option"
  id_uid :: nat
  id_gid :: nat
  id_exe_path :: "string option"
  id_cmdline :: "string list option"
  id_cwd :: "string option"
  id_parent_chain :: "proc_summary list"
  id_bundle_id :: "string option"
  id_team_id :: "string option"

definition bare :: "int \<Rightarrow> nat \<Rightarrow> nat \<Rightarrow> process_identity" where
  "bare p u g = \<lparr>id_pid = p, id_started_at_micros = None, id_uid = u, id_gid = g, id_exe_path = None,
     id_cmdline = None, id_cwd = None, id_parent_chain = [], id_bundle_id = None, id_team_id = None\<rparr>"

definition instance_of :: "process_identity \<Rightarrow> process_instance" where
  "instance_of i = \<lparr>inst_pid = id_pid i, inst_started_at_micros = id_started_at_micros i\<rparr>"

section \<open>The authorization vocabulary (authz.rs)\<close>

datatype operation = Read | Write | Sign

fun operation_as_str :: "operation \<Rightarrow> string" where
  "operation_as_str Read = ''read''"
| "operation_as_str Write = ''write''"
| "operation_as_str Sign = ''sign''"

datatype enforcement = Allow | Deny | Prompt | TouchId

definition enforcement_parse :: "string \<Rightarrow> enforcement option" where
  "enforcement_parse s =
     (if s = ''allow'' then Some Allow
      else if s = ''deny'' then Some Deny
      else if s = ''prompt'' then Some Prompt
      else if s = ''touchid'' then Some TouchId
      else None)"

fun enforcement_as_str :: "enforcement \<Rightarrow> string" where
  "enforcement_as_str Allow = ''allow''"
| "enforcement_as_str Deny = ''deny''"
| "enforcement_as_str Prompt = ''prompt''"
| "enforcement_as_str TouchId = ''touchid''"

datatype policy_mode = NormalMode | AuditOnly

record policy_mode_status =
  pm_mode :: policy_mode
  pm_expires_at :: "int option"

definition policy_mode_status_default :: policy_mode_status where
  "policy_mode_status_default = \<lparr>pm_mode = NormalMode, pm_expires_at = None\<rparr>"

record policy_evaluation =
  configured_enforcement :: enforcement
  effective_enforcement :: enforcement
  eval_mode :: policy_mode

datatype outcome = Allowed | Denied

record decision =
  d_outcome :: outcome
  d_reason :: string
  d_rule_id :: "string option"
  d_policy :: "policy_evaluation option"

definition decision_allow :: "string \<Rightarrow> decision" where
  "decision_allow r = \<lparr>d_outcome = Allowed, d_reason = r, d_rule_id = None, d_policy = None\<rparr>"

definition decision_deny :: "string \<Rightarrow> decision" where
  "decision_deny r = \<lparr>d_outcome = Denied, d_reason = r, d_rule_id = None, d_policy = None\<rparr>"

definition with_rule :: "decision \<Rightarrow> string \<Rightarrow> decision" where
  "with_rule d r = d\<lparr>d_rule_id := Some r\<rparr>"

definition with_policy :: "decision \<Rightarrow> policy_evaluation \<Rightarrow> decision" where
  "with_policy d p = d\<lparr>d_policy := Some p\<rparr>"

definition is_allowed :: "decision \<Rightarrow> bool" where
  "is_allowed d \<longleftrightarrow> d_outcome d = Allowed"

definition decision_str :: "decision \<Rightarrow> string" where
  "decision_str d = (case d_outcome d of Allowed \<Rightarrow> ''allowed'' | Denied \<Rightarrow> ''denied'')"

record ssh_sign_context =
  ctx_surface_id :: string
  ctx_surface_name :: string
  ctx_resource_id :: string
  ctx_key_fingerprint :: string
  ctx_key_label :: string
  ctx_identity_source :: "string option"
  ctx_requested_destination :: "string option"
  ctx_verified_host_key_fingerprint :: "string option"
  ctx_ssh_user :: "string option"
  ctx_forwarding_hops :: nat

datatype access_context = SshSign ssh_sign_context

record auth_request =
  req_path :: string
  req_display :: "string option"
  req_object_revision :: "string option"
  req_operation :: operation
  req_context :: "access_context option"
  req_identity :: process_identity

section \<open>Rules (rules.rs)\<close>

definition i32_min :: int where "i32_min = - (2 ^ 31)"
definition MANAGED_RESOURCE_PRIORITY :: int where "MANAGED_RESOURCE_PRIORITY = i32_min + 3"
definition MANAGED_ITEM_PRIORITY :: int where "MANAGED_ITEM_PRIORITY = i32_min + 2"
definition BUILTIN_DEFAULT_PRIORITY :: int where "BUILTIN_DEFAULT_PRIORITY = i32_min + 1"
definition CATCH_ALL_PRIORITY :: int where "CATCH_ALL_PRIORITY = i32_min"

record rule_ops =
  ops_read :: bool
  ops_write :: bool
  ops_sign :: bool

definition READ :: rule_ops where "READ = \<lparr>ops_read = True, ops_write = False, ops_sign = False\<rparr>"
definition WRITE :: rule_ops where "WRITE = \<lparr>ops_read = False, ops_write = True, ops_sign = False\<rparr>"
definition SIGN :: rule_ops where "SIGN = \<lparr>ops_read = False, ops_write = False, ops_sign = True\<rparr>"
definition READ_WRITE :: rule_ops where
  "READ_WRITE = \<lparr>ops_read = True, ops_write = True, ops_sign = False\<rparr>"
definition READ_WRITE_SIGN :: rule_ops where
  "READ_WRITE_SIGN = \<lparr>ops_read = True, ops_write = True, ops_sign = True\<rparr>"

definition rule_ops_parse :: "string \<Rightarrow> rule_ops option" where
  "rule_ops_parse s =
     (if s = ''read'' then Some READ
      else if s = ''write'' then Some WRITE
      else if s = ''readwrite'' then Some READ_WRITE
      else if s = ''sign'' then Some SIGN
      else None)"

fun ops_matches :: "rule_ops \<Rightarrow> operation \<Rightarrow> bool" where
  "ops_matches ro Read = ops_read ro"
| "ops_matches ro Write = ops_write ro"
| "ops_matches ro Sign = ops_sign ro"

text \<open>The \<open>globset\<close> package: which patterns compile, whether a compiled pattern matches a path, and
  the escaping of metacharacters. A compiled matcher is its pattern.\<close>

record globset =
  glob_valid :: "string \<Rightarrow> bool"
  glob_is_match :: "string \<Rightarrow> string \<Rightarrow> bool"
  glob_escape :: "string \<Rightarrow> string"

datatype glob_matcher = GlobMatcher string

fun is_match :: "globset \<Rightarrow> glob_matcher \<Rightarrow> string \<Rightarrow> bool" where
  "is_match gs (GlobMatcher pat) p = glob_is_match gs pat p"

record subject_match =
  sm_team_id :: "string option"
  sm_bundle_id :: "string option"
  sm_exe_glob :: "glob_matcher option"
  sm_repo :: "string option"
  sm_cwd_prefix :: "string option"

definition subject_match_default :: subject_match where
  "subject_match_default = \<lparr>sm_team_id = None, sm_bundle_id = None, sm_exe_glob = None,
     sm_repo = None, sm_cwd_prefix = None\<rparr>"

definition subject_matches ::
    "globset \<Rightarrow> subject_match \<Rightarrow> process_identity \<Rightarrow> string option \<Rightarrow> bool" where
  "subject_matches gs s i repo \<longleftrightarrow>
     (case sm_team_id s of None \<Rightarrow> True | Some t \<Rightarrow> id_team_id i = Some t) \<and>
     (case sm_bundle_id s of None \<Rightarrow> True | Some b \<Rightarrow> id_bundle_id i = Some b) \<and>
     (case sm_exe_glob s of None \<Rightarrow> True
      | Some g \<Rightarrow> (case id_exe_path i of None \<Rightarrow> False | Some p \<Rightarrow> is_match gs g p)) \<and>
     (case sm_repo s of None \<Rightarrow> True | Some r \<Rightarrow> repo = Some r) \<and>
     (case sm_cwd_prefix s of None \<Rightarrow> True
      | Some pre \<Rightarrow> (case id_cwd i of None \<Rightarrow> False | Some d \<Rightarrow> path_starts_with d pre))"

record rule_object =
  ro_resource_id :: "string option"

definition rule_object_default :: rule_object where
  "rule_object_default = \<lparr>ro_resource_id = None\<rparr>"

record object_match =
  om_resource_id :: "string option"

definition object_match_default :: object_match where
  "object_match_default = \<lparr>om_resource_id = None\<rparr>"

definition object_matches :: "object_match \<Rightarrow> rule_object \<Rightarrow> bool" where
  "object_matches m ob \<longleftrightarrow>
     (case om_resource_id m of None \<Rightarrow> True | Some r \<Rightarrow> ro_resource_id ob = Some r)"

record rule_request =
  rq_identity :: process_identity
  rq_path :: string
  rq_repo :: "string option"
  rq_operation :: operation
  rq_object :: rule_object

record rule =
  r_id :: string
  r_priority :: int
  r_subject :: subject_match
  r_object :: object_match
  r_path_glob :: glob_matcher
  r_ops :: rule_ops
  r_enforcement :: enforcement
  r_enabled :: bool

record rule_set =
  rs_rules :: "rule list"

definition rule_set_new :: "rule list \<Rightarrow> rule_set" where
  "rule_set_new rules = \<lparr>rs_rules = sort_key (\<lambda>r. - r_priority r) rules\<rparr>"

definition rule_applies :: "globset \<Rightarrow> rule \<Rightarrow> rule_request \<Rightarrow> bool" where
  "rule_applies gs r q \<longleftrightarrow>
     r_enabled r \<and>
     ops_matches (r_ops r) (rq_operation q) \<and>
     is_match gs (r_path_glob r) (rq_path q) \<and>
     subject_matches gs (r_subject r) (rq_identity q) (rq_repo q) \<and>
     object_matches (r_object r) (rq_object q)"

fun decide_rules ::
    "globset \<Rightarrow> rule list \<Rightarrow> rule_request \<Rightarrow> enforcement \<times> string option" where
  "decide_rules gs [] q = (Deny, Some ''default-deny'')"
| "decide_rules gs (r # rs) q =
     (if rule_applies gs r q then (r_enforcement r, Some (r_id r)) else decide_rules gs rs q)"

definition decide :: "globset \<Rightarrow> rule_set \<Rightarrow> rule_request \<Rightarrow> enforcement \<times> string option" where
  "decide gs s q = decide_rules gs (rs_rules s) q"

definition rule_set_len :: "rule_set \<Rightarrow> nat" where
  "rule_set_len s = length (rs_rules s)"

definition rule_set_is_empty :: "rule_set \<Rightarrow> bool" where
  "rule_set_is_empty s \<longleftrightarrow> rs_rules s = []"

definition with_additional :: "rule_set \<Rightarrow> rule list \<Rightarrow> rule_set" where
  "with_additional s additional = rule_set_new (rs_rules s @ additional)"

definition compile_glob :: "globset \<Rightarrow> string \<Rightarrow> string + glob_matcher" where
  "compile_glob gs pat = (if glob_valid gs pat then Inr (GlobMatcher pat) else Inl pat)"

text \<open>The two fixed matchers panic if their pattern does not compile; the panic is \<open>Inl\<close> of its
  message.\<close>

definition exact_path_glob :: "globset \<Rightarrow> string \<Rightarrow> string + glob_matcher" where
  "exact_path_glob gs p =
     map_err (\<lambda>_. ''an escaped literal is always a valid glob'') (compile_glob gs (glob_escape gs p))"

definition any_path_glob :: "globset \<Rightarrow> string + glob_matcher" where
  "any_path_glob gs = map_err (\<lambda>_. ''`**` is a valid glob'') (compile_glob gs ''**'')"

text \<open>The upward walk to the nearest checkout; \<open>ex\<close> is the file system's existence test.\<close>

function repo_root :: "(string \<Rightarrow> bool) \<Rightarrow> string \<Rightarrow> string option" where
  "repo_root ex dir =
     (if ex (path_join dir ''.git'') then Some dir
      else (case path_parent dir of None \<Rightarrow> None | Some up \<Rightarrow> repo_root ex up))"
  by pat_completeness auto
termination
  by (relation "measure (\<lambda>(ex, dir). length dir)") (auto dest: path_parent_shorter)

declare repo_root.simps [simp del]

section \<open>The declarative reading\<close>

text \<open>Position \<open>i\<close> wins among the rules as they were inserted: it applies, and every other rule that
  applies has a lower priority or the same priority and a later position.\<close>

definition wins :: "globset \<Rightarrow> rule list \<Rightarrow> rule_request \<Rightarrow> nat \<Rightarrow> bool" where
  "wins gs rs q i \<longleftrightarrow>
     i < length rs \<and> rule_applies gs (rs ! i) q \<and>
     (\<forall>j < length rs. rule_applies gs (rs ! j) q \<longrightarrow>
        r_priority (rs ! j) < r_priority (rs ! i) \<or>
        r_priority (rs ! j) = r_priority (rs ! i) \<and> i \<le> j)"

definition verdict :: "rule \<Rightarrow> enforcement \<times> string option" where
  "verdict r = (r_enforcement r, Some (r_id r))"

text \<open>The directories a walk visits: the start and its parents, nearest first.\<close>

function ancestors :: "string \<Rightarrow> string list" where
  "ancestors dir = dir # (case path_parent dir of None \<Rightarrow> [] | Some up \<Rightarrow> ancestors up)"
  by pat_completeness auto
termination
  by (relation "measure length") (auto dest: path_parent_shorter)

declare ancestors.simps [simp del]

section \<open>Lemmas\<close>

lemma decide_rules_find:
  "decide_rules gs rs q =
     (case find (\<lambda>r. rule_applies gs r q) rs of
        None \<Rightarrow> (Deny, Some ''default-deny'') | Some r \<Rightarrow> verdict r)"
  by (induction rs) (auto simp: verdict_def)

lemma insort_key_hd:
  "insort_key f x xs \<noteq> [] \<and>
   hd (insort_key f x xs) = (if xs = [] \<or> f x \<le> f (hd xs) then x else hd xs)"
  by (cases xs) auto

text \<open>The head of a stable sort is the first element of least key.\<close>

lemma hd_sort_key:
  assumes "xs \<noteq> []"
  shows "\<exists>i < length xs. hd (sort_key f xs) = xs ! i \<and>
     (\<forall>j < length xs. f (xs ! i) < f (xs ! j) \<or> f (xs ! i) = f (xs ! j) \<and> i \<le> j)"
  using assms
proof (induction xs)
  case Nil
  then show ?case by simp
next
  case (Cons x xs)
  show ?case
  proof (cases "xs = []")
    case True
    then show ?thesis by simp
  next
    case False
    with Cons.IH obtain i where i: "i < length xs" "hd (sort_key f xs) = xs ! i"
      and least: "\<forall>j < length xs. f (xs ! i) < f (xs ! j) \<or> f (xs ! i) = f (xs ! j) \<and> i \<le> j"
      by blast
    from False have ne: "sort_key f xs \<noteq> []"
      by (metis length_0_conv length_sort)
    show ?thesis
    proof (cases "f x \<le> f (xs ! i)")
      case True
      with least have "\<forall>j < length xs. f x \<le> f (xs ! j)" by force
      with True i ne show ?thesis
        by (intro exI [of _ 0]) (auto simp: insort_key_hd All_less_Suc2 order.order_iff_strict)
    next
      case False
      with least i ne show ?thesis
        by (intro exI [of _ "Suc i"]) (auto simp: insort_key_hd All_less_Suc2)
    qed
  qed
qed

lemma wins_unique: "wins gs rs q i \<Longrightarrow> wins gs rs q j \<Longrightarrow> i = j"
proof -
  assume i: "wins gs rs q i" and j: "wins gs rs q j"
  from i j have "r_priority (rs ! j) < r_priority (rs ! i) \<or>
      r_priority (rs ! j) = r_priority (rs ! i) \<and> i \<le> j"
    by (simp add: wins_def)
  moreover from i j have "r_priority (rs ! i) < r_priority (rs ! j) \<or>
      r_priority (rs ! i) = r_priority (rs ! j) \<and> j \<le> i"
    by (simp add: wins_def)
  ultimately show "i = j" by linarith
qed

text \<open>Filtering keeps the relative order, so positions in the filtered list can be traced back.\<close>

lemma filter_nth_increasing:
  "i < length (filter p xs) \<Longrightarrow>
   \<exists>i'. i' < length xs \<and> xs ! i' = filter p xs ! i \<and> length (filter p (take i' xs)) = i"
proof (induction xs arbitrary: i)
  case Nil
  then show ?case by simp
next
  case (Cons x xs)
  show ?case
  proof (cases "p x \<and> i = 0")
    case True
    then show ?thesis by (intro exI [of _ 0]) simp
  next
    case False
    define k where "k = (if p x then i - 1 else i)"
    from Cons.prems False have "k < length (filter p xs)" by (auto simp: k_def)
    from Cons.IH [OF this] obtain i' where "i' < length xs" "xs ! i' = filter p xs ! k"
      "length (filter p (take i' xs)) = k" by blast
    with False show ?thesis by (intro exI [of _ "Suc i'"]) (auto simp: k_def nth_Cons')
  qed
qed

lemma filter_take_mono: "i \<le> j \<Longrightarrow> length (filter p (take i xs)) \<le> length (filter p (take j xs))"
  by (metis filter_append length_append le_add1 le_add_diff_inverse take_add)

lemma nth_filter_take: "i < length xs \<Longrightarrow> p (xs ! i) \<Longrightarrow>
   length (filter p (take i xs)) < length (filter p xs) \<and>
   filter p xs ! length (filter p (take i xs)) = xs ! i"
proof -
  assume "i < length xs" "p (xs ! i)"
  then have "filter p xs = filter p (take i xs) @ xs ! i # filter p (drop (Suc i) xs)"
    by (metis filter.simps(2) filter_append id_take_nth_drop)
  then show ?thesis by simp
qed

lemma filter_take_Suc: "i < length xs \<Longrightarrow> p (xs ! i) \<Longrightarrow>
   length (filter p (take (Suc i) xs)) = Suc (length (filter p (take i xs)))"
  by (simp add: take_Suc_conv_app_nth)

text \<open>The engine's choice, in terms of the insertion order.\<close>

lemma first_match_wins:
  assumes "\<exists>r \<in> set rs. rule_applies gs r q"
  shows "\<exists>i. wins gs rs q i \<and> decide gs (rule_set_new rs) q = verdict (rs ! i)"
proof -
  let ?p = "\<lambda>r. rule_applies gs r q" and ?f = "\<lambda>r. - r_priority r"
  from assms have ne: "filter ?p rs \<noteq> []" by (auto simp: filter_empty_conv)
  then have sne: "sort_key ?f (filter ?p rs) \<noteq> []" by (metis length_0_conv length_sort)
  from hd_sort_key [OF ne, of ?f] obtain i where i: "i < length (filter ?p rs)"
    "hd (sort_key ?f (filter ?p rs)) = filter ?p rs ! i"
    and least: "\<And>j. j < length (filter ?p rs) \<Longrightarrow>
      ?f (filter ?p rs ! i) < ?f (filter ?p rs ! j) \<or>
      ?f (filter ?p rs ! i) = ?f (filter ?p rs ! j) \<and> i \<le> j" by blast
  obtain i' where i': "i' < length rs" "rs ! i' = filter ?p rs ! i"
    "length (filter ?p (take i' rs)) = i" using filter_nth_increasing [OF i(1)] by blast
  have app: "?p (rs ! i')" using i(1) i'(2) nth_mem [OF i(1)] by simp
  have "wins gs rs q i'"
    unfolding wins_def
  proof (intro conjI allI impI)
    fix j assume j: "j < length rs" "?p (rs ! j)"
    let ?k = "length (filter ?p (take j rs))"
    have k: "?k < length (filter ?p rs)" "filter ?p rs ! ?k = rs ! j"
      using nth_filter_take [OF j(1), of ?p] j(2) by auto
    have "i' \<le> j" if "i \<le> ?k"
    proof (rule ccontr)
      assume "\<not> i' \<le> j"
      then have "length (filter ?p (take (Suc j) rs)) \<le> length (filter ?p (take i' rs))"
        by (intro filter_take_mono) simp
      with that i'(3) filter_take_Suc [OF j(1), of ?p] j(2) show False by simp
    qed
    with least [OF k(1)] k(2) i'(2)
    show "r_priority (rs ! j) < r_priority (rs ! i') \<or>
      r_priority (rs ! j) = r_priority (rs ! i') \<and> i' \<le> j" by auto
  qed (use i'(1) app in auto)
  moreover have "decide gs (rule_set_new rs) q = verdict (rs ! i')"
    using i(2) i'(2) sne
    by (cases "sort_key ?f (filter ?p rs)")
      (auto simp: decide_def rule_set_new_def decide_rules_find find_sort_key)
  ultimately show ?thesis by blast
qed

lemma no_match_denies:
  assumes "\<not> (\<exists>r \<in> set rs. rule_applies gs r q)"
  shows "decide gs (rule_set_new rs) q = (Deny, Some ''default-deny'')"
  using assms
  by (auto simp: decide_def rule_set_new_def decide_rules_find find_None_iff split: option.splits)
    (metis find_Some_iff nth_mem set_sort)

lemma wins_applies: "wins gs rs q i \<Longrightarrow> \<exists>r \<in> set rs. rule_applies gs r q"
  by (auto simp: wins_def)

lemma decide_wins:
  assumes "wins gs rs q i"
  shows "decide gs (rule_set_new rs) q = verdict (rs ! i)"
  using first_match_wins [OF wins_applies [OF assms]] wins_unique [OF assms] by auto

lemma decide_sorted: "decide gs (rule_set_new (rs_rules (rule_set_new rs))) q = decide gs (rule_set_new rs) q"
  by (simp add: rule_set_new_def sort_key_id_if_sorted)

lemma wins_append:
  assumes "wins gs rs q i"
    and "\<forall>r \<in> set additional. rule_applies gs r q \<longrightarrow> r_priority r \<le> r_priority (rs ! i)"
  shows "wins gs (rs @ additional) q i"
  unfolding wins_def
proof (intro conjI allI impI)
  fix j assume j: "j < length (rs @ additional)" "rule_applies gs ((rs @ additional) ! j) q"
  show "r_priority ((rs @ additional) ! j) < r_priority ((rs @ additional) ! i) \<or>
    r_priority ((rs @ additional) ! j) = r_priority ((rs @ additional) ! i) \<and> i \<le> j"
  proof (cases "j < length rs")
    case True
    with j assms(1) show ?thesis by (auto simp: wins_def nth_append)
  next
    case False
    with j have "(rs @ additional) ! j \<in> set additional" by (auto simp: nth_append)
    with assms j False show ?thesis by (force simp: wins_def nth_append)
  qed
qed (use assms(1) in \<open>auto simp: wins_def nth_append\<close>)

section \<open>Properties\<close>

text \<open>(C4) First match by priority, fail closed: the decision of a rule set built from a list of rules
  is the verdict of the rule that applies to the request with the highest priority and, among
  those, the earliest insertion position; when no rule applies the request is denied by
  \<open>default-deny\<close>, and there is no other outcome.\<close>

theorem decide_first_match:
  "decide gs (rule_set_new rs) q = v \<longleftrightarrow>
     (\<exists>i. wins gs rs q i \<and> v = verdict (rs ! i)) \<or>
     (\<not> (\<exists>r \<in> set rs. rule_applies gs r q) \<and> v = (Deny, Some ''default-deny''))"
proof (cases "\<exists>r \<in> set rs. rule_applies gs r q")
  case True
  then obtain i where "wins gs rs q i" using first_match_wins by blast
  with True show ?thesis using decide_wins wins_unique by metis
next
  case False
  with no_match_denies [OF False] show ?thesis by (auto dest: wins_applies)
qed

definition example_globs :: globset where
  "example_globs = \<lparr>glob_valid = (\<lambda>_. True), glob_is_match = (\<lambda>pat p. pat = ''**'' \<or> pat = p),
     glob_escape = (\<lambda>p. p)\<rparr>"

definition example_rule :: "string \<Rightarrow> int \<Rightarrow> string \<Rightarrow> rule_ops \<Rightarrow> enforcement \<Rightarrow> rule" where
  "example_rule i p pat ro e = \<lparr>r_id = i, r_priority = p, r_subject = subject_match_default,
     r_object = object_match_default, r_path_glob = GlobMatcher pat, r_ops = ro,
     r_enforcement = e, r_enabled = True\<rparr>"

definition example_request :: "string \<Rightarrow> operation \<Rightarrow> rule_request" where
  "example_request p op = \<lparr>rq_identity = bare 42 501 20, rq_path = p, rq_repo = None,
     rq_operation = op, rq_object = rule_object_default\<rparr>"

lemmas example_rule_defs = example_globs_def example_rule_def example_request_def
  subject_match_default_def object_match_default_def rule_object_default_def bare_def
  READ_def WRITE_def SIGN_def READ_WRITE_def READ_WRITE_SIGN_def

theorem decide_first_match_witness:
  "decide example_globs (rule_set_new [example_rule ''low'' 0 ''**'' READ Allow,
       example_rule ''high'' 100 ''env/x'' READ Deny]) (example_request ''env/x'' Read) =
     (Deny, Some ''high'')"
proof -
  let ?rs = "[example_rule ''low'' 0 ''**'' READ Allow, example_rule ''high'' 100 ''env/x'' READ Deny]"
  have "wins example_globs ?rs (example_request ''env/x'' Read) 1"
    by (simp add: wins_def rule_applies_def subject_matches_def object_matches_def
        example_rule_defs All_less_Suc2)
  then have "\<exists>i. wins example_globs ?rs (example_request ''env/x'' Read) i \<and>
      (Deny, Some ''high'') = verdict (?rs ! i)"
    by (intro exI [of _ 1]) (simp add: verdict_def example_rule_def)
  then show ?thesis using decide_first_match by blast
qed

text \<open>Precedence of configured rules: rules added later at run time never override a configured
  rule that decides a request, as long as no added rule that applies has a higher priority; on equal
  priority the configured rule still wins.\<close>

theorem with_additional_precedence:
  assumes "wins gs (rs_rules (rule_set_new base)) q i"
    and "\<forall>r \<in> set additional. rule_applies gs r q \<longrightarrow>
           r_priority r \<le> r_priority (rs_rules (rule_set_new base) ! i)"
  shows "decide gs (with_additional (rule_set_new base) additional) q = decide gs (rule_set_new base) q"
proof -
  let ?b = "rs_rules (rule_set_new base)"
  from assms(1) have "i < length ?b" by (simp add: wins_def)
  with decide_wins [OF wins_append [OF assms]] have
    "decide gs (with_additional (rule_set_new base) additional) q = verdict (?b ! i)"
    by (simp add: with_additional_def nth_append)
  also have "\<dots> = decide gs (rule_set_new base) q"
    using decide_wins [OF assms(1)] decide_sorted by simp
  finally show ?thesis .
qed

theorem with_additional_precedence_witness:
  "decide example_globs (with_additional (rule_set_new [example_rule ''cfg'' 5 ''**'' READ Deny])
     [example_rule ''added'' 5 ''**'' READ Allow]) (example_request ''env/x'' Read) =
   decide example_globs (rule_set_new [example_rule ''cfg'' 5 ''**'' READ Deny])
     (example_request ''env/x'' Read)"
  by (rule with_additional_precedence [of _ _ _ 0])
    (simp_all add: wins_def rule_set_new_def rule_applies_def subject_matches_def
      object_matches_def example_rule_defs)

text \<open>An operation no rule opted into is denied: when no rule of the set covers the operation of the
  request, in particular when every rule is a read rule and the request is a write or a signature,
  the decision is \<open>default-deny\<close> whatever the paths and subjects.\<close>

theorem uncovered_operation_denied:
  assumes "\<forall>r \<in> set rs. \<not> ops_matches (r_ops r) (rq_operation q)"
  shows "decide gs (rule_set_new rs) q = (Deny, Some ''default-deny'')"
  using assms by (intro no_match_denies) (auto simp: rule_applies_def)

theorem uncovered_operation_denied_witness:
  "decide example_globs (rule_set_new [example_rule ''all'' 0 ''**'' READ Allow])
     (example_request ''env/x'' Write) = (Deny, Some ''default-deny'')"
  by (rule uncovered_operation_denied) (simp add: example_rule_defs)

text \<open>The checkout of a reader: \<open>repo_root\<close> terminates on every path and returns the nearest directory,
  starting with the working directory itself, that holds a \<open>.git\<close> entry.\<close>

theorem repo_root_nearest:
  "repo_root ex dir = find (\<lambda>d. ex (path_join d ''.git'')) (ancestors dir)"
proof (induction ex dir rule: repo_root.induct)
  case (1 ex dir)
  show ?case
  proof (cases "path_parent dir")
    case None
    then show ?thesis by (simp add: repo_root.simps [of ex dir] ancestors.simps [of dir])
  next
    case (Some up)
    with 1 show ?thesis by (simp add: repo_root.simps [of ex dir] ancestors.simps [of dir])
  qed
qed

text \<open>Parsing inverts printing of enforcement levels.\<close>

lemma enforcement_text_roundtrip:
  "enforcement_parse s = Some e \<longleftrightarrow> s = enforcement_as_str e"
  by (cases e) (auto simp: enforcement_parse_def)

end
