(* ===== verification/Managed_Policy.thy ===== *)
theory Managed_Policy
  imports Rules
begin

text \<open>
  \<open>managed_rules.rs\<close> of \<open>floria-agent\<close>: normalization of the catalog's policy items (sorted by
  object, duplicates merged to the strictest enforcement) and the rules synthesized from them. The
  derived order of \<open>ManagedObject\<close> is a \<open>linorder\<close> instance.
\<close>

definition ITEMS_DIR :: string where "ITEMS_DIR = ''items''"
definition SECRETS_DIR :: string where "SECRETS_DIR = ''secrets''"
definition SURFACES_DIR :: string where "SURFACES_DIR = ''surfaces''"

datatype managed_object =
    Secret string
  | Surface string string
  | SshResource string

record managed_policy_item =
  mp_object :: managed_object
  mp_enforcement :: enforcement

text \<open>The derived \<open>Ord\<close>: variants in declaration order, then their fields lexicographically.\<close>

fun object_rank :: "managed_object \<Rightarrow> nat \<times> string \<times> string" where
  "object_rank (Secret i) = (0, i, [])"
| "object_rank (Surface s i) = (1, s, i)"
| "object_rank (SshResource r) = (2, r, [])"

lemma object_rank_inject: "object_rank a = object_rank b \<Longrightarrow> a = b"
  by (cases a; cases b) auto

instantiation managed_object :: linorder
begin

definition less_eq_managed_object :: "managed_object \<Rightarrow> managed_object \<Rightarrow> bool" where
  "less_eq_managed_object a b \<longleftrightarrow> object_rank a \<le> object_rank b"

definition less_managed_object :: "managed_object \<Rightarrow> managed_object \<Rightarrow> bool" where
  "less_managed_object a b \<longleftrightarrow> object_rank a < object_rank b"

instance
  by standard
    (auto simp: less_eq_managed_object_def less_managed_object_def intro: object_rank_inject)

end

section \<open>Normalization\<close>

fun strictness :: "enforcement \<Rightarrow> nat" where
  "strictness Allow = 0"
| "strictness Prompt = 1"
| "strictness TouchId = 2"
| "strictness Deny = 3"

definition stricter :: "enforcement \<Rightarrow> enforcement \<Rightarrow> enforcement" where
  "stricter left right = (if strictness right \<le> strictness left then left else right)"

text \<open>One iteration of the merging loop: \<open>normalized\<close> is the vector built so far.\<close>

definition merge_item ::
    "managed_policy_item list \<Rightarrow> managed_policy_item \<Rightarrow> managed_policy_item list" where
  "merge_item normalized item =
     (if normalized \<noteq> [] \<and> mp_object (last normalized) = mp_object item
      then butlast normalized @
        [(last normalized)\<lparr>mp_enforcement :=
            stricter (mp_enforcement (last normalized)) (mp_enforcement item)\<rparr>]
      else normalized @ [item])"

definition normalize_managed_policy :: "managed_policy_item list \<Rightarrow> managed_policy_item list" where
  "normalize_managed_policy items = foldl merge_item [] (sort_key mp_object items)"

section \<open>Rule synthesis\<close>

definition item_rule :: "globset \<Rightarrow> managed_policy_item \<Rightarrow> string + rule" where
  "item_rule gs item =
     (case mp_object item of
        Secret secret_id \<Rightarrow>
          and_then (exact_path_glob gs (SECRETS_DIR @ ''/'' @ secret_id)) (\<lambda>g.
            Inr \<lparr>r_id = ''managed:secret:'' @ secret_id, r_priority = MANAGED_ITEM_PRIORITY,
              r_subject = subject_match_default, r_object = object_match_default,
              r_path_glob = g, r_ops = READ_WRITE, r_enforcement = mp_enforcement item,
              r_enabled = True\<rparr>)
      | Surface surface_id _ \<Rightarrow>
          and_then (exact_path_glob gs (SURFACES_DIR @ ''/'' @ surface_id)) (\<lambda>g.
            Inr \<lparr>r_id = ''managed:surface:'' @ surface_id, r_priority = MANAGED_ITEM_PRIORITY,
              r_subject = subject_match_default, r_object = object_match_default,
              r_path_glob = g, r_ops = READ_WRITE_SIGN, r_enforcement = mp_enforcement item,
              r_enabled = True\<rparr>)
      | SshResource resource_id \<Rightarrow>
          and_then (map_err (\<lambda>_. ''`surfaces/**` is a valid glob'')
              (compile_glob gs (SURFACES_DIR @ ''/**''))) (\<lambda>g.
            Inr \<lparr>r_id = ''managed:ssh-resource:'' @ resource_id,
              r_priority = MANAGED_RESOURCE_PRIORITY, r_subject = subject_match_default,
              r_object = \<lparr>om_resource_id = Some resource_id\<rparr>, r_path_glob = g, r_ops = SIGN,
              r_enforcement = mp_enforcement item, r_enabled = True\<rparr>))"

fun public_item_id :: "managed_object \<Rightarrow> string option" where
  "public_item_id (Secret secret_id) = Some secret_id"
| "public_item_id (Surface surface_id item_id) = Some item_id"
| "public_item_id (SshResource resource_id) = None"

text \<open>The \<open>BTreeMap\<close> from item ids to the strictest enforcement seen, as a sorted association list.\<close>

fun btree_modify ::
    "'k::linorder \<Rightarrow> ('v \<Rightarrow> 'v) \<Rightarrow> 'v \<Rightarrow> ('k \<times> 'v) list \<Rightarrow> ('k \<times> 'v) list" where
  "btree_modify k f d [] = [(k, d)]"
| "btree_modify k f d ((k', v) # m) =
     (if k = k' then (k', f v) # m
      else if k < k' then (k, d) # (k', v) # m
      else (k', v) # btree_modify k f d m)"

definition note_item ::
    "(string \<times> enforcement) list \<Rightarrow> managed_policy_item \<Rightarrow> (string \<times> enforcement) list" where
  "note_item m item =
     (case public_item_id (mp_object item) of
        None \<Rightarrow> m
      | Some i \<Rightarrow> btree_modify i (\<lambda>current. stricter current (mp_enforcement item))
                   (mp_enforcement item) m)"

definition namespace_rule :: "globset \<Rightarrow> string \<times> enforcement \<Rightarrow> string + rule" where
  "namespace_rule gs ie =
     and_then (map_err (\<lambda>_. ''managed item ids produce a valid path glob'')
         (compile_glob gs (ITEMS_DIR @ ''/'' @ fst ie @ ''/**''))) (\<lambda>g.
       Inr \<lparr>r_id = ''managed:item:'' @ fst ie, r_priority = MANAGED_ITEM_PRIORITY,
         r_subject = subject_match_default, r_object = object_match_default, r_path_glob = g,
         r_ops = READ_WRITE_SIGN, r_enforcement = snd ie, r_enabled = True\<rparr>)"

fun collect_rules :: "('a \<Rightarrow> string + rule) \<Rightarrow> 'a list \<Rightarrow> string + rule list" where
  "collect_rules f [] = Inr []"
| "collect_rules f (x # xs) =
     and_then (f x) (\<lambda>r. and_then (collect_rules f xs) (\<lambda>rs. Inr (r # rs)))"

definition managed_rules :: "globset \<Rightarrow> managed_policy_item list \<Rightarrow> string + rule list" where
  "managed_rules gs items =
     and_then (collect_rules (item_rule gs) items) (\<lambda>rules.
     and_then (collect_rules (namespace_rule gs) (foldl note_item [] items)) (\<lambda>items_rules.
       Inr (rules @ items_rules)))"

section \<open>Strictness\<close>

lemma strictness_inject: "strictness a = strictness b \<Longrightarrow> a = b"
  by (cases a; cases b) auto

lemma strictness_stricter [simp]: "strictness (stricter a b) = max (strictness a) (strictness b)"
  by (simp add: stricter_def max_def)

lemma stricter_comm: "stricter a b = stricter b a"
  by (rule strictness_inject) (simp add: max.commute)

lemma stricter_assoc: "stricter (stricter a b) c = stricter a (stricter b c)"
  by (rule strictness_inject) (simp add: max.assoc)

lemma stricter_idem [simp]: "stricter a a = a"
  by (simp add: stricter_def)

lemma stricter_Allow [simp]: "stricter Allow e = e" "stricter e Allow = e"
  by (rule strictness_inject, simp)+

section \<open>What normalization computes\<close>

text \<open>The strictest enforcement a list of items gives to an object.\<close>

fun strictest :: "enforcement list \<Rightarrow> enforcement" where
  "strictest [] = Allow"
| "strictest (e # es) = stricter e (strictest es)"

definition levels_of :: "managed_object \<Rightarrow> managed_policy_item list \<Rightarrow> enforcement list" where
  "levels_of ob items = map mp_enforcement (filter (\<lambda>i. mp_object i = ob) items)"

definition objects_of :: "managed_policy_item list \<Rightarrow> managed_object list" where
  "objects_of items = map mp_object items"

definition required_level :: "managed_object \<Rightarrow> managed_policy_item list \<Rightarrow> enforcement" where
  "required_level ob items = strictest (levels_of ob items)"

lemma strictness_strictest: "strictness (strictest es) = Max (insert 0 (strictness ` set es))"
proof (induction es)
  case (Cons e es)
  then show ?case by (cases "es = []") auto
qed simp

lemma strictest_eq: "strictness ` set es = strictness ` set es' \<Longrightarrow> strictest es = strictest es'"
  by (rule strictness_inject) (simp add: strictness_strictest)

lemma strictest_append: "strictest (xs @ ys) = stricter (strictest xs) (strictest ys)"
  by (induction xs) (simp_all add: stricter_assoc)

text \<open>The reference definition: one item per object, in object order, at the required level.\<close>

definition policy_table :: "managed_policy_item list \<Rightarrow> managed_policy_item list" where
  "policy_table items =
     map (\<lambda>ob. \<lparr>mp_object = ob, mp_enforcement = required_level ob items\<rparr>)
       (sorted_list_of_set (set (objects_of items)))"

lemma required_level_snoc:
  "required_level ob (items @ [i]) =
     (if mp_object i = ob then stricter (required_level ob items) (mp_enforcement i)
      else required_level ob items)"
  by (simp add: required_level_def levels_of_def strictest_append)

lemma sorted_snoc_max:
  fixes items :: "managed_policy_item list"
  assumes "sorted (objects_of (items @ [i]))" and "ob \<in> set (objects_of items)"
  shows "ob \<le> mp_object i"
  using assms by (auto simp: objects_of_def sorted_append)

lemma sorted_list_of_set_snoc:
  fixes x :: "'a::linorder"
  assumes "finite A" and "\<forall>y \<in> A. y < x"
  shows "sorted_list_of_set (insert x A) = sorted_list_of_set A @ [x]"
proof -
  from assms(2) have "x \<notin> A" by blast
  with assms show ?thesis by (simp add: sorted_insort_is_snoc order.strict_implies_order)
qed

text \<open>The merging loop over a sorted list builds exactly the table of what it has read.\<close>

lemma foldl_merge_item:
  "sorted (objects_of items) \<Longrightarrow> foldl merge_item [] items = policy_table items"
proof (induction items rule: rev_induct)
  case Nil
  then show ?case by (simp add: policy_table_def objects_of_def)
next
  case (snoc i items)
  let ?A = "set (objects_of items)" and ?o = "mp_object i"
  have le: "\<And>ob. ob \<in> ?A \<Longrightarrow> ob \<le> ?o" using sorted_snoc_max [OF snoc.prems] .
  from snoc.prems have "sorted (objects_of items)" by (simp add: objects_of_def sorted_append)
  with snoc.IH have IH: "foldl merge_item [] items = policy_table items" .
  have objs: "set (objects_of (items @ [i])) = insert ?o ?A" by (simp add: objects_of_def)
  show ?case
  proof (cases "?o \<in> ?A")
    case True
    then have split: "sorted_list_of_set ?A = sorted_list_of_set (?A - {?o}) @ [?o]"
      using sorted_list_of_set_snoc [of "?A - {?o}" ?o] le by (auto simp: insert_absorb less_le)
    have lower: "map (\<lambda>ob. \<lparr>mp_object = ob, mp_enforcement = required_level ob (items @ [i])\<rparr>)
          (sorted_list_of_set (?A - {?o})) =
        map (\<lambda>ob. \<lparr>mp_object = ob, mp_enforcement = required_level ob items\<rparr>)
          (sorted_list_of_set (?A - {?o}))"
      by (rule map_cong) (auto simp: required_level_snoc)
    have table: "policy_table items =
        map (\<lambda>ob. \<lparr>mp_object = ob, mp_enforcement = required_level ob items\<rparr>)
          (sorted_list_of_set (?A - {?o})) @
        [\<lparr>mp_object = ?o, mp_enforcement = required_level ?o items\<rparr>]"
      unfolding policy_table_def split by simp
    have table': "policy_table (items @ [i]) =
        map (\<lambda>ob. \<lparr>mp_object = ob, mp_enforcement = required_level ob items\<rparr>)
          (sorted_list_of_set (?A - {?o})) @
        [\<lparr>mp_object = ?o, mp_enforcement = stricter (required_level ?o items) (mp_enforcement i)\<rparr>]"
      unfolding policy_table_def objs insert_absorb [OF True] split map_append lower
      by (simp add: required_level_snoc)
    show ?thesis
      unfolding foldl_append IH table table' by (simp add: merge_item_def)
  next
    case False
    with le have lt: "\<forall>ob \<in> ?A. ob < ?o" by (auto simp: less_le)
    have split: "sorted_list_of_set (insert ?o ?A) = sorted_list_of_set ?A @ [?o]"
      by (rule sorted_list_of_set_snoc) (use lt in auto)
    have lower: "map (\<lambda>ob. \<lparr>mp_object = ob, mp_enforcement = required_level ob (items @ [i])\<rparr>)
          (sorted_list_of_set ?A) =
        map (\<lambda>ob. \<lparr>mp_object = ob, mp_enforcement = required_level ob items\<rparr>) (sorted_list_of_set ?A)"
      by (rule map_cong) (use False in \<open>auto simp: required_level_snoc\<close>)
    have new: "required_level ?o (items @ [i]) = mp_enforcement i"
    proof -
      have "levels_of ?o items = []"
        using False by (auto simp: levels_of_def objects_of_def filter_empty_conv)
          (metis image_eqI)
      then show ?thesis by (simp add: required_level_snoc) (simp add: required_level_def)
    qed
    have "mp_object ` set (policy_table items) = ?A"
      by (simp add: policy_table_def image_image)
    then have "policy_table items \<noteq> [] \<Longrightarrow> mp_object (last (policy_table items)) \<in> ?A"
      by (metis imageI last_in_set)
    with False have "merge_item (policy_table items) i = policy_table items @ [i]"
      by (auto simp: merge_item_def)
    moreover have "policy_table (items @ [i]) = policy_table items @ [i]"
      unfolding policy_table_def objs split map_append lower using new by simp
    ultimately show ?thesis by (simp add: IH)
  qed
qed

lemma required_level_perm: "mset items = mset items' \<Longrightarrow> required_level ob items = required_level ob items'"
  unfolding required_level_def levels_of_def
  by (rule strictest_eq) (metis mset_eq_setD mset_filter mset_map)

lemma policy_table_perm: "mset items = mset items' \<Longrightarrow> policy_table items = policy_table items'"
proof -
  assume perm: "mset items = mset items'"
  have "required_level ob items = required_level ob items'" for ob
    using perm by (rule required_level_perm)
  moreover have "set (objects_of items) = set (objects_of items')"
    using mset_eq_setD [OF perm] by (simp add: objects_of_def)
  ultimately show ?thesis by (simp add: policy_table_def)
qed

lemma normalize_eq_table: "normalize_managed_policy items = policy_table items"
proof -
  have "sorted (objects_of (sort_key mp_object items))" by (simp add: objects_of_def)
  then have "normalize_managed_policy items = policy_table (sort_key mp_object items)"
    by (simp add: normalize_managed_policy_def foldl_merge_item)
  also have "\<dots> = policy_table items" by (rule policy_table_perm) simp
  finally show ?thesis .
qed

lemma mem_policy_table:
  "i \<in> set (policy_table items) \<longleftrightarrow>
     mp_object i \<in> set (objects_of items) \<and> mp_enforcement i = required_level (mp_object i) items"
  by (auto simp: policy_table_def) (metis (mono_tags, lifting) image_eqI managed_policy_item.equality
      managed_policy_item.select_convs old.unit.exhaust)

section \<open>The table of public items\<close>

definition item_levels :: "string \<Rightarrow> managed_policy_item list \<Rightarrow> enforcement list" where
  "item_levels i items =
     map mp_enforcement (filter (\<lambda>x. public_item_id (mp_object x) = Some i) items)"

lemma map_of_btree_modify:
  "sorted_wrt (<) (map fst m) \<Longrightarrow>
   map_of (btree_modify k f d m) k' =
     (if k' = k then Some (case map_of m k of None \<Rightarrow> d | Some v \<Rightarrow> f v) else map_of m k')"
proof (induction m)
  case (Cons kv m)
  have "map_of m k = None" if "k < fst kv"
    using Cons.prems that by (force simp: map_of_eq_None_iff)
  with Cons show ?case by (cases kv) auto
qed simp

lemma keys_btree_modify: "set (map fst (btree_modify k f d m)) = insert k (set (map fst m))"
  by (induction k f d m rule: btree_modify.induct) (simp_all add: insert_commute)

lemma sorted_btree_modify:
  "sorted_wrt (<) (map fst m) \<Longrightarrow> sorted_wrt (<) (map fst (btree_modify k f d m))"
proof (induction m)
  case (Cons kv m)
  obtain k' v where kv: "kv = (k', v)" by (cases kv)
  from Cons.prems have below: "\<forall>x \<in> set (map fst m). k' < x" and "sorted_wrt (<) (map fst m)"
    by (auto simp: kv)
  with Cons.IH have IH: "sorted_wrt (<) (map fst (btree_modify k f d m))" by blast
  consider "k = k'" | "k < k'" | "k' < k" by fastforce
  then show ?case
  proof cases
    case 3
    then have "\<forall>x \<in> set (map fst (btree_modify k f d m)). k' < x"
      unfolding keys_btree_modify using below by blast
    with 3 IH show ?thesis by (auto simp: kv)
  qed (use Cons.prems kv below in auto)
qed simp

lemma foldl_note_item:
  "sorted_wrt (<) (map fst (foldl note_item [] items)) \<and>
   map_of (foldl note_item [] items) i =
     (if item_levels i items = [] then None else Some (strictest (item_levels i items)))"
proof (induction items arbitrary: i rule: rev_induct)
  case Nil
  then show ?case by (simp add: item_levels_def)
next
  case (snoc x items)
  then have sorted: "sorted_wrt (<) (map fst (foldl note_item [] items))" by blast
  show ?case
  proof (cases "public_item_id (mp_object x)")
    case None
    with snoc show ?thesis by (simp add: note_item_def item_levels_def)
  next
    case (Some k)
    with snoc.IH sorted show ?thesis
      by (auto simp: note_item_def item_levels_def map_of_btree_modify sorted_btree_modify
          strictest_append split: option.splits)
  qed
qed

section \<open>Decisions under managed rules\<close>

text \<open>What the rule synthesis relies on of the \<open>globset\<close> package: an escaped literal compiles and matches
  exactly itself; a plain directory name followed by \<open>/**\<close> compiles, matches everything below the
  directory and nothing outside it.\<close>

definition plain_id :: "string \<Rightarrow> bool" where
  "plain_id s \<longleftrightarrow> set s \<inter> set (CHR 0x5C # ''*?[]{}!/'') = {}"

definition plain_dir :: "string \<Rightarrow> bool" where
  "plain_dir s \<longleftrightarrow> set s \<inter> set (CHR 0x5C # ''*?[]{}!'') = {}"

definition globset_ok :: "globset \<Rightarrow> bool" where
  "globset_ok gs \<longleftrightarrow>
     (\<forall>p. glob_valid gs (glob_escape gs p)) \<and>
     (\<forall>p x. glob_is_match gs (glob_escape gs p) x \<longleftrightarrow> x = p) \<and>
     (\<forall>d. plain_dir d \<longrightarrow> glob_valid gs (d @ ''/**'')) \<and>
     (\<forall>d x. plain_dir d \<longrightarrow> glob_is_match gs (d @ ''/**'') x \<longrightarrow> (\<exists>rest. x = d @ ''/'' @ rest)) \<and>
     (\<forall>d rest. plain_dir d \<longrightarrow> rest \<noteq> [] \<longrightarrow> glob_is_match gs (d @ ''/**'') (d @ ''/'' @ rest))"

definition plain_items :: "managed_policy_item list \<Rightarrow> bool" where
  "plain_items items \<longleftrightarrow>
     (\<forall>x \<in> set items. case public_item_id (mp_object x) of None \<Rightarrow> True | Some i \<Rightarrow> plain_id i)"

lemmas dir_defs = ITEMS_DIR_def SECRETS_DIR_def SURFACES_DIR_def

lemma collect_rules_map:
  "(\<And>x. x \<in> set xs \<Longrightarrow> f x = Inr (g x)) \<Longrightarrow> collect_rules f xs = Inr (map g xs)"
  by (induction xs) auto

definition item_rule_of :: "globset \<Rightarrow> managed_policy_item \<Rightarrow> rule" where
  "item_rule_of gs x = (case item_rule gs x of Inl _ \<Rightarrow> undefined | Inr r \<Rightarrow> r)"

definition namespace_rule_of :: "globset \<Rightarrow> string \<times> enforcement \<Rightarrow> rule" where
  "namespace_rule_of gs x = (case namespace_rule gs x of Inl _ \<Rightarrow> undefined | Inr r \<Rightarrow> r)"

lemma globset_okD:
  assumes "globset_ok gs"
  shows "glob_valid gs (glob_escape gs p)"
    and "glob_is_match gs (glob_escape gs p) x \<longleftrightarrow> x = p"
    and "plain_dir d \<Longrightarrow> glob_valid gs (d @ ''/**'')"
    and "plain_dir d \<Longrightarrow> glob_is_match gs (d @ ''/**'') x \<Longrightarrow> \<exists>rest. x = d @ ''/'' @ rest"
    and "plain_dir d \<Longrightarrow> rest \<noteq> [] \<Longrightarrow> glob_is_match gs (d @ ''/**'') (d @ ''/'' @ rest)"
  using assms by (auto simp only: globset_ok_def)

lemma plain_surfaces: "plain_dir SURFACES_DIR"
  by (simp add: plain_dir_def SURFACES_DIR_def)

lemma plain_item_dir: "plain_id i \<Longrightarrow> plain_dir (ITEMS_DIR @ ''/'' @ i)"
  by (simp add: plain_dir_def plain_id_def ITEMS_DIR_def)

lemma item_rule_total: "globset_ok gs \<Longrightarrow> item_rule gs x = Inr (item_rule_of gs x)"
  by (simp add: item_rule_of_def item_rule_def exact_path_glob_def compile_glob_def globset_okD
      plain_surfaces split: managed_object.splits)

lemma namespace_rule_total:
  "globset_ok gs \<Longrightarrow> plain_id (fst x) \<Longrightarrow> namespace_rule gs x = Inr (namespace_rule_of gs x)"
proof -
  assume gs: "globset_ok gs" and "plain_id (fst x)"
  then have "glob_valid gs ((ITEMS_DIR @ ''/'' @ fst x) @ ''/**'')"
    by (intro globset_okD(3) plain_item_dir)
  then show ?thesis
    by (simp add: namespace_rule_of_def namespace_rule_def compile_glob_def)
qed

lemma plain_noted:
  assumes "plain_items items" and "x \<in> set (foldl note_item [] items)"
  shows "plain_id (fst x)"
proof -
  from assms(2) have "fst x \<in> fst ` set (foldl note_item [] items)" by (rule imageI)
  then have "map_of (foldl note_item [] items) (fst x) \<noteq> None"
    by (metis map_of_eq_None_iff)
  then have "item_levels (fst x) items \<noteq> []" using foldl_note_item by metis
  then obtain y where "y \<in> set items" "public_item_id (mp_object y) = Some (fst x)"
    by (auto simp: item_levels_def filter_empty_conv)
  with assms(1) show ?thesis by (force simp: plain_items_def)
qed

lemma managed_rules_total:
  assumes "globset_ok gs" and "plain_items items"
  shows "managed_rules gs items =
    Inr (map (item_rule_of gs) items @ map (namespace_rule_of gs) (foldl note_item [] items))"
  using assms
  by (simp add: managed_rules_def collect_rules_map [where g = "item_rule_of gs"]
      collect_rules_map [where g = "namespace_rule_of gs"] item_rule_total namespace_rule_total
      plain_noted)

text \<open>When every added rule that applies gives the same verdict and outranks the base rules that apply,
  that verdict is the decision.\<close>

lemma decide_unanimous:
  assumes "\<exists>r \<in> set additional. rule_applies gs r q"
    and "\<And>r. r \<in> set additional \<Longrightarrow> rule_applies gs r q \<Longrightarrow> verdict r = v \<and> p \<le> r_priority r"
    and "\<And>r. r \<in> set (rs_rules base) \<Longrightarrow> rule_applies gs r q \<Longrightarrow> r_priority r < p"
  shows "decide gs (with_additional base additional) q = v"
proof -
  let ?rs = "rs_rules base @ additional"
  from assms(1) obtain i where i: "wins gs ?rs q i" "decide gs (rule_set_new ?rs) q = verdict (?rs ! i)"
    using first_match_wins [of ?rs gs q] by auto
  from assms(1) obtain r where r: "r \<in> set additional" "rule_applies gs r q" by blast
  then obtain j where j: "j < length ?rs" "?rs ! j = r"
    by (metis in_set_conv_nth set_append UnCI)
  with i(1) r(2) have "r_priority r \<le> r_priority (?rs ! i)" by (force simp: wins_def)
  with assms(2) r have p: "p \<le> r_priority (?rs ! i)" by force
  from i(1) have mem: "?rs ! i \<in> set ?rs" and app: "rule_applies gs (?rs ! i) q"
    by (auto simp: wins_def simp del: set_append intro: nth_mem)
  from p assms(3) [OF _ app] have "?rs ! i \<notin> set (rs_rules base)" by force
  with mem assms(2) app have "verdict (?rs ! i) = v" by auto
  with i(2) show ?thesis by (simp add: with_additional_def)
qed

lemmas rule_app_defs = rule_applies_def subject_matches_def subject_match_default_def
  object_matches_def object_match_default_def READ_WRITE_def READ_WRITE_SIGN_def SIGN_def

lemma item_rule_of_eq:
  assumes "globset_ok gs"
  shows "item_rule_of gs x =
    (case mp_object x of
       Secret i \<Rightarrow> \<lparr>r_id = ''managed:secret:'' @ i, r_priority = MANAGED_ITEM_PRIORITY,
         r_subject = subject_match_default, r_object = object_match_default,
         r_path_glob = GlobMatcher (glob_escape gs (SECRETS_DIR @ ''/'' @ i)), r_ops = READ_WRITE,
         r_enforcement = mp_enforcement x, r_enabled = True\<rparr>
     | Surface i _ \<Rightarrow> \<lparr>r_id = ''managed:surface:'' @ i, r_priority = MANAGED_ITEM_PRIORITY,
         r_subject = subject_match_default, r_object = object_match_default,
         r_path_glob = GlobMatcher (glob_escape gs (SURFACES_DIR @ ''/'' @ i)),
         r_ops = READ_WRITE_SIGN, r_enforcement = mp_enforcement x, r_enabled = True\<rparr>
     | SshResource i \<Rightarrow> \<lparr>r_id = ''managed:ssh-resource:'' @ i,
         r_priority = MANAGED_RESOURCE_PRIORITY, r_subject = subject_match_default,
         r_object = \<lparr>om_resource_id = Some i\<rparr>,
         r_path_glob = GlobMatcher (SURFACES_DIR @ ''/**''), r_ops = SIGN,
         r_enforcement = mp_enforcement x, r_enabled = True\<rparr>)"
  using globset_okD [OF assms] plain_surfaces
  by (auto simp: item_rule_of_def item_rule_def exact_path_glob_def compile_glob_def
      split: managed_object.splits)

lemma item_rule_applies:
  assumes "globset_ok gs"
  shows "rule_applies gs (item_rule_of gs x) q \<longleftrightarrow>
    (case mp_object x of
       Secret i \<Rightarrow> rq_operation q \<noteq> Sign \<and> rq_path q = SECRETS_DIR @ ''/'' @ i
     | Surface i _ \<Rightarrow> rq_path q = SURFACES_DIR @ ''/'' @ i
     | SshResource i \<Rightarrow> rq_operation q = Sign \<and> ro_resource_id (rq_object q) = Some i \<and>
         glob_is_match gs (SURFACES_DIR @ ''/**'') (rq_path q))"
  using globset_okD(2) [OF assms]
  by (cases "rq_operation q") (auto simp: item_rule_of_eq [OF assms] rule_app_defs
      split: managed_object.splits)

lemma namespace_rule_of_eq:
  assumes "globset_ok gs" and "plain_id (fst x)"
  shows "namespace_rule_of gs x = \<lparr>r_id = ''managed:item:'' @ fst x,
     r_priority = MANAGED_ITEM_PRIORITY, r_subject = subject_match_default,
     r_object = object_match_default, r_path_glob = GlobMatcher ((ITEMS_DIR @ ''/'' @ fst x) @ ''/**''),
     r_ops = READ_WRITE_SIGN, r_enforcement = snd x, r_enabled = True\<rparr>"
  using globset_okD(3) [OF assms(1) plain_item_dir [OF assms(2)]]
  by (simp add: namespace_rule_of_def namespace_rule_def compile_glob_def)

lemma namespace_rule_applies:
  assumes "globset_ok gs" and "plain_id (fst x)"
  shows "rule_applies gs (namespace_rule_of gs x) q \<longleftrightarrow>
    glob_is_match gs ((ITEMS_DIR @ ''/'' @ fst x) @ ''/**'') (rq_path q)"
  by (cases "rq_operation q") (simp_all add: namespace_rule_of_eq [OF assms] rule_app_defs)

text \<open>The three namespaces do not overlap.\<close>

lemma namespaces_disjoint:
  "SECRETS_DIR @ ''/'' @ a \<noteq> SURFACES_DIR @ ''/'' @ b"
  "SECRETS_DIR @ ''/'' @ a \<noteq> (ITEMS_DIR @ ''/'' @ i) @ ''/'' @ b"
  "(ITEMS_DIR @ ''/'' @ i) @ ''/'' @ b \<noteq> SURFACES_DIR @ ''/'' @ a"
  by (simp_all add: dir_defs)

lemma split_at_slash:
  "CHR ''/'' \<notin> set i \<Longrightarrow> CHR ''/'' \<notin> set j \<Longrightarrow> i @ CHR ''/'' # a = j @ CHR ''/'' # b \<Longrightarrow> i = j"
proof (induction i arbitrary: j)
  case Nil
  then show ?case by (cases j) auto
next
  case (Cons c i)
  then show ?case by (cases j) auto
qed

section \<open>Properties\<close>

text \<open>Normalization of the managed policy computes one item per managed object, in the order of the
  objects, at the strictest enforcement any item of the input asks for that object; hence neither the
  order nor the repetition of items in a refresh matters.\<close>

theorem normalize_managed_policy_spec:
  "normalize_managed_policy items = policy_table items \<and>
   (mset items = mset items' \<longrightarrow> normalize_managed_policy items = normalize_managed_policy items')"
  using policy_table_perm [of items items'] by (simp add: normalize_eq_table)

theorem normalize_managed_policy_spec_witness:
  "normalize_managed_policy [\<lparr>mp_object = Secret ''a'', mp_enforcement = Allow\<rparr>,
      \<lparr>mp_object = Secret ''a'', mp_enforcement = TouchId\<rparr>] =
   normalize_managed_policy [\<lparr>mp_object = Secret ''a'', mp_enforcement = TouchId\<rparr>,
      \<lparr>mp_object = Secret ''a'', mp_enforcement = Allow\<rparr>]"
  by (rule normalize_managed_policy_spec [THEN conjunct2, THEN mp]) (simp add: add_mset_commute)

text \<open>The synthesised rules that apply to a managed secret all give its level, at the managed priority.\<close>

lemma managed_secret_applicable:
  assumes gs: "globset_ok gs" and plain: "plain_items items"
    and mem: "Secret sid \<in> set (objects_of items)"
    and path: "rq_path q = SECRETS_DIR @ ''/'' @ sid" and op: "rq_operation q \<noteq> Sign"
  shows "\<exists>rules. managed_rules gs (normalize_managed_policy items) = Inr rules \<and>
     (\<exists>r \<in> set rules. rule_applies gs r q) \<and>
     (\<forall>r \<in> set rules. rule_applies gs r q \<longrightarrow> r_priority r = MANAGED_ITEM_PRIORITY \<and>
       verdict r = (required_level (Secret sid) items, Some (''managed:secret:'' @ sid)))"
proof -
  let ?n = "policy_table items"
  let ?rules = "map (item_rule_of gs) ?n @ map (namespace_rule_of gs) (foldl note_item [] ?n)"
  let ?v = "(required_level (Secret sid) items, Some (''managed:secret:'' @ sid))"
  have plain': "plain_items ?n"
    using plain by (force simp: plain_items_def mem_policy_table objects_of_def)
  let ?x = "\<lparr>mp_object = Secret sid, mp_enforcement = required_level (Secret sid) items\<rparr>"
  have "?x \<in> set ?n" using mem by (simp add: mem_policy_table)
  moreover have "rule_applies gs (item_rule_of gs ?x) q"
    using op path by (simp add: item_rule_applies [OF gs])
  ultimately have some: "\<exists>r \<in> set ?rules. rule_applies gs r q"
    by (metis UnCI image_eqI set_append set_map)
  have all: "r_priority r = MANAGED_ITEM_PRIORITY \<and> verdict r = ?v"
    if r: "r \<in> set ?rules" and app: "rule_applies gs r q" for r
  proof -
    from r consider x where "x \<in> set ?n" "r = item_rule_of gs x"
      | x where "x \<in> set (foldl note_item [] ?n)" "r = namespace_rule_of gs x" by auto
    then show ?thesis
    proof cases
      case (1 x)
      with app op path have "mp_object x = Secret sid"
        by (auto simp: item_rule_applies [OF gs] dir_defs split: managed_object.splits)
      with 1 show ?thesis by (simp add: mem_policy_table item_rule_of_eq [OF gs] verdict_def)
    next
      case (2 x)
      then have "plain_id (fst x)" using plain_noted [OF plain'] by blast
      with app 2 path have "\<exists>b. SECRETS_DIR @ ''/'' @ sid = (ITEMS_DIR @ ''/'' @ fst x) @ ''/'' @ b"
        using globset_okD(4) [OF gs plain_item_dir] by (simp add: namespace_rule_applies [OF gs])
      with namespaces_disjoint(2) show ?thesis by blast
    qed
  qed
  have "managed_rules gs (normalize_managed_policy items) = Inr ?rules"
    using managed_rules_total [OF gs plain'] by (simp add: normalize_eq_table)
  with some all show ?thesis by blast
qed

lemma managed_secret_rule:
  assumes gs: "globset_ok gs" and plain: "plain_items items"
    and mem: "Secret sid \<in> set (objects_of items)"
    and path: "rq_path q = SECRETS_DIR @ ''/'' @ sid" and op: "rq_operation q \<noteq> Sign"
    and base: "\<And>r. r \<in> set (rs_rules base) \<Longrightarrow> rule_applies gs r q \<Longrightarrow>
                r_priority r < MANAGED_ITEM_PRIORITY"
  shows "\<exists>rules. managed_rules gs (normalize_managed_policy items) = Inr rules \<and>
     decide gs (with_additional base rules) q =
       (required_level (Secret sid) items, Some (''managed:secret:'' @ sid))"
proof -
  obtain rules where m: "managed_rules gs (normalize_managed_policy items) = Inr rules"
    and some: "\<exists>r \<in> set rules. rule_applies gs r q"
    and all: "\<forall>r \<in> set rules. rule_applies gs r q \<longrightarrow> r_priority r = MANAGED_ITEM_PRIORITY \<and>
       verdict r = (required_level (Secret sid) items, Some (''managed:secret:'' @ sid))"
    using managed_secret_applicable [OF gs plain mem path op] by blast
  have "decide gs (with_additional base rules) q =
      (required_level (Secret sid) items, Some (''managed:secret:'' @ sid))"
    by (rule decide_unanimous [OF some, where p = MANAGED_ITEM_PRIORITY]) (use all base in auto)
  with m show ?thesis by blast
qed

text \<open>The level of a managed secret under any configured rules: a configured rule of at least the
  managed priority that applies keeps the configured decision, otherwise the catalog's level holds.\<close>

definition outranked :: "globset \<Rightarrow> rule list \<Rightarrow> rule_request \<Rightarrow> bool" where
  "outranked gs base q \<longleftrightarrow>
     (\<exists>r \<in> set base. rule_applies gs r q \<and> MANAGED_ITEM_PRIORITY \<le> r_priority r)"

definition secret_level :: "globset \<Rightarrow> rule list \<Rightarrow> managed_policy_item list \<Rightarrow> string \<Rightarrow> rule_request \<Rightarrow> enforcement" where
  "secret_level gs base items sid q =
     (if outranked gs base q then fst (decide gs (rule_set_new base) q) else required_level (Secret sid) items)"

lemma managed_secret_level:
  assumes gs: "globset_ok gs" and plain: "plain_items items"
    and mem: "Secret sid \<in> set (objects_of items)"
    and path: "rq_path q = SECRETS_DIR @ ''/'' @ sid" and op: "rq_operation q \<noteq> Sign"
  shows "\<exists>rules. managed_rules gs (normalize_managed_policy items) = Inr rules \<and>
     fst (decide gs (with_additional (rule_set_new base) rules) q) = secret_level gs base items sid q"
proof (cases "outranked gs base q")
  case True
  obtain rules where m: "managed_rules gs (normalize_managed_policy items) = Inr rules"
    and all: "\<forall>r \<in> set rules. rule_applies gs r q \<longrightarrow> r_priority r = MANAGED_ITEM_PRIORITY \<and>
       verdict r = (required_level (Secret sid) items, Some (''managed:secret:'' @ sid))"
    using managed_secret_applicable [OF gs plain mem path op] by blast
  let ?b = "rs_rules (rule_set_new base)"
  have set: "set ?b = set base" by (simp add: rule_set_new_def)
  from True obtain r where r: "r \<in> set ?b" "rule_applies gs r q" "MANAGED_ITEM_PRIORITY \<le> r_priority r"
    by (auto simp: outranked_def set)
  then obtain i where i: "wins gs ?b q i" using first_match_wins [of ?b gs q] by blast
  from r obtain j where "j < length ?b" "?b ! j = r" by (metis in_set_conv_nth)
  with i r have "MANAGED_ITEM_PRIORITY \<le> r_priority (?b ! i)" by (force simp: wins_def)
  with all have "decide gs (with_additional (rule_set_new base) rules) q = decide gs (rule_set_new base) q"
    by (intro with_additional_precedence [OF i]) auto
  with m True show ?thesis by (simp add: secret_level_def)
next
  case False
  then have "\<exists>rules. managed_rules gs (normalize_managed_policy items) = Inr rules \<and>
      decide gs (with_additional (rule_set_new base) rules) q =
        (required_level (Secret sid) items, Some (''managed:secret:'' @ sid))"
    by (intro managed_secret_rule [OF gs plain mem path op]) (auto simp: outranked_def rule_set_new_def not_le)
  with False show ?thesis by (auto simp: secret_level_def)
qed

text \<open>A managed secret is governed by its own policy: whenever no configured rule of at least the
  managed priority applies, reading or writing \<open>secrets/<id>\<close> is decided by the strictest level the
  catalog asks for that secret, and the synthesis of the rules never panics.\<close>

theorem managed_secret_decides:
  assumes gs: "globset_ok gs" and plain: "plain_items items"
    and mem: "Secret sid \<in> set (objects_of items)"
    and path: "rq_path q = SECRETS_DIR @ ''/'' @ sid" and op: "rq_operation q \<noteq> Sign"
    and base: "\<And>r. r \<in> set (rs_rules base) \<Longrightarrow> rule_applies gs r q \<Longrightarrow>
                r_priority r < MANAGED_ITEM_PRIORITY"
  shows "\<exists>rules. managed_rules gs (normalize_managed_policy items) = Inr rules \<and>
     decide gs (with_additional base rules) q =
       (required_level (Secret sid) items, Some (''managed:secret:'' @ sid))"
  by (rule managed_secret_rule [OF gs plain mem path op base])

definition witness_globs :: globset where
  "witness_globs = \<lparr>glob_valid = (\<lambda>_. True),
     glob_is_match = (\<lambda>pat p. case pat of [] \<Rightarrow> False
       | c # lit \<Rightarrow> if c = CHR 0x5C then p = lit
           else \<exists>d \<in> {take n p |n. n \<le> length p}. pat = d @ ''/**'' \<and> take (length d + 1) p = d @ ''/''),
     glob_escape = (\<lambda>p. CHR 0x5C # p)\<rparr>"

lemma witness_globs_dir:
  "plain_dir d \<Longrightarrow> glob_is_match witness_globs (d @ ''/**'') x \<longleftrightarrow> (\<exists>rest. x = d @ ''/'' @ rest)"
proof -
  assume plain: "plain_dir d"
  have "(\<exists>d' \<in> {take n x |n. n \<le> length x}. d @ ''/**'' = d' @ ''/**'' \<and>
      take (length d' + 1) x = d' @ ''/'') \<longleftrightarrow> (\<exists>rest. x = d @ ''/'' @ rest)"
  proof
    assume "\<exists>rest. x = d @ ''/'' @ rest"
    then obtain rest where "x = d @ ''/'' @ rest" by blast
    then show "\<exists>d' \<in> {take n x |n. n \<le> length x}. d @ ''/**'' = d' @ ''/**'' \<and>
        take (length d' + 1) x = d' @ ''/''"
      by (intro bexI [of _ d]) (auto intro!: exI [of _ "length d"])
  qed (metis append_assoc append_same_eq append_take_drop_id)
  with plain show ?thesis
    by (cases d) (auto simp: witness_globs_def plain_dir_def)
qed

lemma witness_globs_ok: "globset_ok witness_globs"
  unfolding globset_ok_def
  by (intro conjI allI impI) (simp_all add: witness_globs_dir, simp_all add: witness_globs_def)

theorem managed_secret_decides_witness:
  "\<exists>rules. managed_rules witness_globs (normalize_managed_policy
       [\<lparr>mp_object = Secret ''k1'', mp_enforcement = TouchId\<rparr>]) = Inr rules \<and>
     decide witness_globs (with_additional (rule_set_new []) rules)
       (example_request (SECRETS_DIR @ ''/'' @ ''k1'') Read) =
       (required_level (Secret ''k1'') [\<lparr>mp_object = Secret ''k1'', mp_enforcement = TouchId\<rparr>],
        Some (''managed:secret:'' @ ''k1''))"
  by (rule managed_secret_decides [OF witness_globs_ok])
    (auto simp: plain_items_def plain_id_def objects_of_def example_request_def rule_set_new_def)

text \<open>The public path of a managed item carries the strictest policy of everything published under that
  item: a file below \<open>items/<id>/\<close> is decided by the strictest level among the secret and the surfaces
  with that item id, whenever no configured rule of at least the managed priority applies.\<close>

theorem managed_item_path_strictest:
  assumes gs: "globset_ok gs" and plain: "plain_items items"
    and mem: "item_levels i (normalize_managed_policy items) \<noteq> []"
    and path: "rq_path q = (ITEMS_DIR @ ''/'' @ i) @ ''/'' @ name" "name \<noteq> []"
    and base: "\<And>r. r \<in> set (rs_rules base) \<Longrightarrow> rule_applies gs r q \<Longrightarrow>
                r_priority r < MANAGED_ITEM_PRIORITY"
  shows "\<exists>rules. managed_rules gs (normalize_managed_policy items) = Inr rules \<and>
     decide gs (with_additional base rules) q =
       (strictest (item_levels i (normalize_managed_policy items)), Some (''managed:item:'' @ i))"
proof -
  let ?n = "policy_table items" and ?t = "foldl note_item [] (policy_table items)"
  let ?rules = "map (item_rule_of gs) ?n @ map (namespace_rule_of gs) ?t"
  let ?v = "(strictest (item_levels i ?n), Some (''managed:item:'' @ i))"
  have plain': "plain_items ?n"
    using plain by (force simp: plain_items_def mem_policy_table objects_of_def)
  have look: "map_of ?t i = Some (strictest (item_levels i ?n))"
    using foldl_note_item [of ?n i] mem by (simp add: normalize_eq_table)
  then have entry: "(i, strictest (item_levels i ?n)) \<in> set ?t" by (rule map_of_SomeD)
  then have plain_i: "plain_id i" using plain_noted [OF plain'] by fastforce
  have "rule_applies gs (namespace_rule_of gs (i, strictest (item_levels i ?n))) q"
    using globset_okD(5) [OF gs plain_item_dir [OF plain_i] path(2)] plain_i path(1)
    by (simp add: namespace_rule_applies [OF gs])
  with entry have some: "\<exists>r \<in> set ?rules. rule_applies gs r q"
    by (metis UnCI image_eqI set_append set_map)
  have all: "verdict r = ?v \<and> MANAGED_ITEM_PRIORITY \<le> r_priority r"
    if r: "r \<in> set ?rules" and app: "rule_applies gs r q" for r
  proof -
    from r consider x where "x \<in> set ?n" "r = item_rule_of gs x"
      | x where "x \<in> set ?t" "r = namespace_rule_of gs x" by auto
    then show ?thesis
    proof cases
      case (1 x)
      have "\<not> glob_is_match gs (SURFACES_DIR @ ''/**'') (rq_path q)"
        using globset_okD(4) [OF gs plain_surfaces] path(1) by (force simp: dir_defs)
      with 1 app path(1) show ?thesis
        by (auto simp: item_rule_applies [OF gs] dir_defs split: managed_object.splits)
    next
      case (2 x)
      then have plain_x: "plain_id (fst x)" using plain_noted [OF plain'] by blast
      from app have "glob_is_match gs ((ITEMS_DIR @ ''/'' @ fst x) @ ''/**'') (rq_path q)"
        unfolding 2(2) namespace_rule_applies [OF gs plain_x] .
      from globset_okD(4) [OF gs plain_item_dir [OF plain_x] this]
      obtain b where "i @ CHR ''/'' # name = fst x @ CHR ''/'' # b"
        unfolding path(1) by auto
      then have "fst x = i"
        using split_at_slash [of i "fst x"] plain_x plain_i by (auto simp: plain_id_def)
      moreover have "distinct (map fst ?t)"
        using foldl_note_item [of ?n i] strict_sorted_iff by blast
      then have "map_of ?t (fst x) = Some (snd x)"
        using 2(1) map_of_is_SomeI by (metis prod.collapse)
      ultimately show ?thesis
        using look 2(2) plain_x by (simp add: namespace_rule_of_eq [OF gs] verdict_def)
    qed
  qed
  have "decide gs (with_additional base ?rules) q = ?v"
    using some all base by (rule decide_unanimous)
  then show ?thesis
    using managed_rules_total [OF gs plain'] by (simp add: normalize_eq_table)
qed

theorem managed_item_path_strictest_witness:
  "\<exists>rules. managed_rules witness_globs (normalize_managed_policy
       [\<lparr>mp_object = Secret ''k1'', mp_enforcement = TouchId\<rparr>]) = Inr rules \<and>
     decide witness_globs (with_additional (rule_set_new []) rules)
       (example_request ((ITEMS_DIR @ ''/'' @ ''k1'') @ ''/'' @ ''.env'') Read) =
       (strictest (item_levels ''k1'' (normalize_managed_policy
          [\<lparr>mp_object = Secret ''k1'', mp_enforcement = TouchId\<rparr>])), Some (''managed:item:'' @ ''k1''))"
  by (rule managed_item_path_strictest [OF witness_globs_ok, of _ _ _ "''.env''"])
    (auto simp: plain_items_def plain_id_def example_request_def rule_set_new_def item_levels_def
      normalize_eq_table policy_table_def objects_of_def)

end
