(* ===== verification/Integrity.thy ===== *)
theory Integrity
  imports Rust_Path
begin

text \<open>
  \<open>floria-integrity\<close>: authentication and anti-rollback of daemon-owned state files
  (\<open>StateAuthenticator\<close>). A persisted document is accepted only when its HMAC verifies and its
  generation and tag equal the checkpoint kept outside the file system. The packages used (HMAC,
  Base64, the JSON encoding of envelopes and documents) are parameters of the world; every call
  draws the outcome of its input and output operations from a script of faults, so a failure can
  strike between any two effects.
\<close>

section \<open>Data\<close>

record checkpoint =
  ck_generation :: nat
  ck_mac :: string

record envelope =
  env_format :: nat
  env_generation :: nat
  env_payload :: string
  env_mac :: string

datatype integrity_error =
    Io string
  | Encoding
  | Keychain string
  | Invalid string string
  | Rollback string nat nat
  | AheadOfCheckpoint string nat nat

record 'doc loaded_state =
  ls_value :: "'doc option"
  ls_generation :: nat

text \<open>The packages the module calls.\<close>

record packages =
  hmac_sha256 :: "bytes \<Rightarrow> bytes \<Rightarrow> bytes"
  b64url_encode :: "bytes \<Rightarrow> string"
  b64url_decode :: "string \<Rightarrow> bytes option"
  b64_encode :: "bytes \<Rightarrow> string"
  b64_decode :: "string \<Rightarrow> bytes option"
  envelope_to_json :: "envelope \<Rightarrow> bytes"
  envelope_from_json :: "bytes \<Rightarrow> envelope option"

record state_file =
  sf_bytes :: bytes
  sf_regular :: bool
  sf_mode :: nat

text \<open>How the environment treats one call: an effect may fail before or after it took place.\<close>

datatype effect = Done | FailedBefore | FailedAfter

record call_fault =
  cf_checkpoint_load_fails :: bool
  cf_read_fails :: bool
  cf_write :: effect
  cf_checkpoint_store :: effect

definition no_fault :: call_fault where
  "no_fault = \<lparr>cf_checkpoint_load_fails = False, cf_read_fails = False, cf_write = Done,
     cf_checkpoint_store = Done\<rparr>"

record 'doc auth_world =
  aw_packages :: packages
  aw_key :: bytes
  aw_ser :: "'doc \<Rightarrow> bytes option"
  aw_de :: "bytes \<Rightarrow> 'doc option"
  aw_files :: "string \<Rightarrow> state_file option"
  aw_checkpoints :: "string \<Rightarrow> checkpoint option"
  aw_faults :: "call_fault list"

definition next_fault :: "'doc auth_world \<Rightarrow> call_fault" where
  "next_fault w = (case aw_faults w of [] \<Rightarrow> no_fault | f # _ \<Rightarrow> f)"

definition pop_fault :: "'doc auth_world \<Rightarrow> 'doc auth_world" where
  "pop_fault w = w\<lparr>aw_faults := tl (aw_faults w)\<rparr>"

definition ENVELOPE_FORMAT :: nat where "ENVELOPE_FORMAT = 1"

section \<open>Authentication tags\<close>

definition str_bytes :: "string \<Rightarrow> bytes" where
  "str_bytes s = map of_char s"

text \<open>\<open>u64::to_be_bytes\<close>.\<close>

definition be_bytes :: "nat \<Rightarrow> bytes" where
  "be_bytes n = map (\<lambda>i. n div 256 ^ i mod 256) [7, 6, 5, 4, 3, 2, 1, 0]"

definition mac_message :: "string \<Rightarrow> nat \<Rightarrow> bytes \<Rightarrow> bytes" where
  "mac_message domain generation payload =
     be_bytes (length domain) @ str_bytes domain @ be_bytes generation @
     be_bytes (length payload) @ payload"

definition mac :: "packages \<Rightarrow> bytes \<Rightarrow> string \<Rightarrow> nat \<Rightarrow> bytes \<Rightarrow> string" where
  "mac pk key domain generation payload =
     b64url_encode pk (hmac_sha256 pk key (mac_message domain generation payload))"

definition verify_mac ::
    "packages \<Rightarrow> bytes \<Rightarrow> string \<Rightarrow> nat \<Rightarrow> bytes \<Rightarrow> string \<Rightarrow> integrity_error + unit" where
  "verify_mac pk key domain generation payload encoded =
     and_then (ok_or (b64url_decode pk encoded) (Invalid domain ''MAC is not Base64'')) (\<lambda>expected.
       if expected = hmac_sha256 pk key (mac_message domain generation payload) then Inr ()
       else Inl (Invalid domain ''HMAC verification failed''))"

definition detached_message :: "string \<Rightarrow> bytes \<Rightarrow> bytes" where
  "detached_message domain payload =
     str_bytes ''floria-detached-v1'' @ be_bytes (length domain) @ str_bytes domain @
     be_bytes (length payload) @ payload"

definition authenticate_detached :: "packages \<Rightarrow> bytes \<Rightarrow> string \<Rightarrow> bytes \<Rightarrow> string" where
  "authenticate_detached pk key domain payload =
     b64url_encode pk (hmac_sha256 pk key (detached_message domain payload))"

definition verify_detached ::
    "packages \<Rightarrow> bytes \<Rightarrow> string \<Rightarrow> bytes \<Rightarrow> string \<Rightarrow> integrity_error + unit" where
  "verify_detached pk key domain payload encoded =
     and_then (ok_or (b64url_decode pk encoded) (Invalid domain ''detached MAC is not Base64'')) (\<lambda>expected.
       if expected = hmac_sha256 pk key (detached_message domain payload) then Inr ()
       else Inl (Invalid domain ''detached HMAC verification failed''))"

section \<open>Files\<close>

definition validate_private_regular_file :: "state_file \<Rightarrow> integrity_error + unit" where
  "validate_private_regular_file f =
     (if \<not> sf_regular f then Inl (Invalid ''file'' ''must be a regular file'')
      else if sf_mode f mod 64 \<noteq> 0
      then Inl (Invalid ''file'' ''must not be accessible by group or other users'')
      else Inr ())"

text \<open>The atomic replacement: until the rename the old file is in place, after it the new one, with
  mode 0600; a failure is reported on either side of the rename.\<close>

definition write_private_atomic ::
    "'doc auth_world \<Rightarrow> effect \<Rightarrow> string \<Rightarrow> bytes \<Rightarrow> 'doc auth_world \<times> (integrity_error + unit)" where
  "write_private_atomic w fault path data =
     (case path_parent path of
        None \<Rightarrow> (w, Inl (Invalid ''file'' ''state path has no parent''))
      | Some _ \<Rightarrow>
          (let w' = w\<lparr>aw_files := (aw_files w)(path \<mapsto>
                 \<lparr>sf_bytes = data, sf_regular = True, sf_mode = 0x180\<rparr>)\<rparr>
           in case fault of
                Done \<Rightarrow> (w', Inr ())
              | FailedBefore \<Rightarrow> (w, Inl (Io path))
              | FailedAfter \<Rightarrow> (w', Inl (Io path))))"

section \<open>The checkpoint store\<close>

definition checkpoint_load ::
    "'doc auth_world \<Rightarrow> bool \<Rightarrow> string \<Rightarrow> integrity_error + checkpoint option" where
  "checkpoint_load w fails domain =
     (if fails then Inl (Keychain domain) else Inr (aw_checkpoints w domain))"

definition checkpoint_store ::
    "'doc auth_world \<Rightarrow> effect \<Rightarrow> string \<Rightarrow> checkpoint \<Rightarrow> 'doc auth_world \<times> (integrity_error + unit)" where
  "checkpoint_store w fault domain c =
     (let w' = w\<lparr>aw_checkpoints := (aw_checkpoints w)(domain \<mapsto> c)\<rparr>
      in case fault of
           Done \<Rightarrow> (w', Inr ())
         | FailedBefore \<Rightarrow> (w, Inl (Keychain domain))
         | FailedAfter \<Rightarrow> (w', Inl (Keychain domain)))"

section \<open>StateAuthenticator\<close>

definition check_against :: "string \<Rightarrow> envelope \<Rightarrow> checkpoint option \<Rightarrow> integrity_error + unit" where
  "check_against domain e c =
     (case c of
        None \<Rightarrow> Inl (Invalid domain ''state file exists without its Keychain checkpoint'')
      | Some ck \<Rightarrow>
          if env_generation e < ck_generation ck
          then Inl (Rollback domain (ck_generation ck) (env_generation e))
          else if ck_generation ck < env_generation e
          then Inl (AheadOfCheckpoint domain (ck_generation ck) (env_generation e))
          else if env_mac e \<noteq> ck_mac ck
          then Inl (Invalid domain ''checkpoint MAC does not match the state file'')
          else Inr ())"

definition load_envelope ::
    "'doc auth_world \<Rightarrow> string \<Rightarrow> checkpoint option \<Rightarrow> state_file \<Rightarrow> integrity_error + 'doc loaded_state" where
  "load_envelope w domain c f =
     and_then (validate_private_regular_file f) (\<lambda>_.
     and_then (ok_or (envelope_from_json (aw_packages w) (sf_bytes f)) Encoding) (\<lambda>e.
     if env_format e \<noteq> ENVELOPE_FORMAT
     then Inl (Invalid domain ''unsupported envelope format'')
     else
       and_then (ok_or (b64_decode (aw_packages w) (env_payload e))
           (Invalid domain ''payload is not Base64'')) (\<lambda>payload.
       and_then (verify_mac (aw_packages w) (aw_key w) domain (env_generation e) payload (env_mac e)) (\<lambda>_.
       and_then (check_against domain e c) (\<lambda>_.
       and_then (ok_or (aw_de w payload) Encoding) (\<lambda>v.
         Inr \<lparr>ls_value = Some v, ls_generation = env_generation e\<rparr>))))))"

definition state_load ::
    "'doc auth_world \<Rightarrow> string \<Rightarrow> string \<Rightarrow> 'doc auth_world \<times> (integrity_error + 'doc loaded_state)" where
  "state_load w path domain =
     (let fault = next_fault w; w = pop_fault w
      in (w,
          and_then (checkpoint_load w (cf_checkpoint_load_fails fault) domain) (\<lambda>c.
          if cf_read_fails fault then Inl (Io path)
          else (case aw_files w path of
                  None \<Rightarrow> Inr \<lparr>ls_value = None,
                            ls_generation = (case c of None \<Rightarrow> 0 | Some ck \<Rightarrow> ck_generation ck)\<rparr>
                | Some f \<Rightarrow> load_envelope w domain c f))))"

text \<open>The writing half of \<open>persist\<close>: the file first, the checkpoint second.\<close>

definition persist_next ::
    "'doc auth_world \<Rightarrow> call_fault \<Rightarrow> string \<Rightarrow> string \<Rightarrow> nat \<Rightarrow> 'doc \<Rightarrow>
      'doc auth_world \<times> (integrity_error + nat)" where
  "persist_next w fault path domain current v =
     (case checked_add_u64 current 1 of
        None \<Rightarrow> (w, Inl (Invalid domain ''generation overflow''))
      | Some generation \<Rightarrow>
     (case aw_ser w v of
        None \<Rightarrow> (w, Inl Encoding)
      | Some payload \<Rightarrow>
     (let tag = mac (aw_packages w) (aw_key w) domain generation payload;
          e = \<lparr>env_format = ENVELOPE_FORMAT, env_generation = generation,
               env_payload = b64_encode (aw_packages w) payload, env_mac = tag\<rparr>
      in case write_private_atomic w (cf_write fault) path (envelope_to_json (aw_packages w) e) of
           (w1, Inl err) \<Rightarrow> (w1, Inl err)
         | (w1, Inr _) \<Rightarrow>
       (case checkpoint_store w1 (cf_checkpoint_store fault) domain
               \<lparr>ck_generation = generation, ck_mac = tag\<rparr> of
          (w2, Inl err) \<Rightarrow> (w2, Inl err)
        | (w2, Inr _) \<Rightarrow> (w2, Inr generation)))))"

definition state_persist ::
    "'doc auth_world \<Rightarrow> string \<Rightarrow> string \<Rightarrow> nat \<Rightarrow> 'doc \<Rightarrow> 'doc auth_world \<times> (integrity_error + nat)" where
  "state_persist w path domain current v =
     (let fault = next_fault w; w = pop_fault w
      in case checkpoint_load w (cf_checkpoint_load_fails fault) domain of
           Inl e \<Rightarrow> (w, Inl e)
         | Inr None \<Rightarrow> persist_next w fault path domain current v
         | Inr (Some ck) \<Rightarrow>
             if current < ck_generation ck
             then (w, Inl (Rollback domain (ck_generation ck) current))
             else persist_next w fault path domain current v)"

definition checkpoint_generation ::
    "'doc auth_world \<Rightarrow> string \<Rightarrow> 'doc auth_world \<times> (integrity_error + nat)" where
  "checkpoint_generation w domain =
     (let fault = next_fault w; w = pop_fault w
      in (w, and_then (checkpoint_load w (cf_checkpoint_load_fails fault) domain) (\<lambda>c.
            Inr (case c of None \<Rightarrow> 0 | Some ck \<Rightarrow> ck_generation ck))))"

text \<open>Recovery: the first candidate whose bytes carry the trusted tag, re-wrapped; nothing else is
  accepted and the checkpoint is not moved.\<close>

fun reconstruct_from ::
    "'doc auth_world \<Rightarrow> string \<Rightarrow> checkpoint \<Rightarrow> 'doc list \<Rightarrow> integrity_error + bytes" where
  "reconstruct_from w domain c [] =
     Inl (Invalid domain ''no candidate matches the trusted checkpoint'')"
| "reconstruct_from w domain c (v # vs) =
     and_then (ok_or (aw_ser w v) Encoding) (\<lambda>payload.
       if is_ok (verify_mac (aw_packages w) (aw_key w) domain (ck_generation c) payload (ck_mac c))
       then Inr (envelope_to_json (aw_packages w)
              \<lparr>env_format = ENVELOPE_FORMAT, env_generation = ck_generation c,
                env_payload = b64_encode (aw_packages w) payload, env_mac = ck_mac c\<rparr>)
       else reconstruct_from w domain c vs)"

definition reconstruct_checkpointed_state ::
    "'doc auth_world \<Rightarrow> string \<Rightarrow> 'doc list \<Rightarrow> integrity_error + bytes" where
  "reconstruct_checkpointed_state w domain candidates =
     and_then (checkpoint_load w (cf_checkpoint_load_fails (next_fault w)) domain) (\<lambda>c.
     and_then (ok_or c (Invalid domain ''trusted checkpoint is missing'')) (\<lambda>ck.
       reconstruct_from w domain ck candidates))"

definition restore_checkpointed_state ::
    "'doc auth_world \<Rightarrow> string \<Rightarrow> string \<Rightarrow> 'doc list \<Rightarrow> 'doc auth_world \<times> (integrity_error + unit)" where
  "restore_checkpointed_state w path domain candidates =
     (case reconstruct_checkpointed_state w domain candidates of
        Inl e \<Rightarrow> (pop_fault w, Inl e)
      | Inr encoded \<Rightarrow> write_private_atomic (pop_fault w) (cf_write (next_fault w)) path encoded)"

section \<open>What the packages promise\<close>

text \<open>Decoding inverts encoding.\<close>

definition packages_ok :: "packages \<Rightarrow> bool" where
  "packages_ok pk \<longleftrightarrow>
     (\<forall>b. b64url_decode pk (b64url_encode pk b) = Some b) \<and>
     (\<forall>b. b64_decode pk (b64_encode pk b) = Some b) \<and>
     (\<forall>e. envelope_from_json pk (envelope_to_json pk e) = Some e)"

definition codec_ok :: "'doc auth_world \<Rightarrow> bool" where
  "codec_ok w \<longleftrightarrow>
     packages_ok (aw_packages w) \<and> (\<forall>v b. aw_ser w v = Some b \<longrightarrow> aw_de w b = Some v)"

section \<open>The message framing is unambiguous\<close>

lemma length_be_bytes [simp]: "length (be_bytes n) = 8"
  by (simp add: be_bytes_def)

lemma digits_inject:
  fixes m n :: nat
  assumes "m < 256 ^ k" "n < 256 ^ k" "\<And>i. i < k \<Longrightarrow> m div 256 ^ i mod 256 = n div 256 ^ i mod 256"
  shows "m = n"
  using assms
proof (induction k arbitrary: m n)
  case 0
  then show ?case by simp
next
  case (Suc k)
  have "m div 256 = n div 256"
  proof (rule Suc.IH)
    show "m div 256 < 256 ^ k" "n div 256 < 256 ^ k"
      using Suc.prems(1,2) by (simp_all add: less_mult_imp_div_less mult.commute)
    show "m div 256 div 256 ^ i mod 256 = n div 256 div 256 ^ i mod 256" if "i < k" for i
      using Suc.prems(3) [of "Suc i"] that by (simp add: div_mult2_eq)
  qed
  moreover have "m mod 256 = n mod 256"
    using Suc.prems(3) [of 0] by simp
  ultimately show ?case by (metis div_mult_mod_eq)
qed

lemma be_bytes_inject:
  assumes "m < 2 ^ 64" "n < 2 ^ 64"
  shows "be_bytes m = be_bytes n \<longleftrightarrow> m = n"
proof
  assume eq: "be_bytes m = be_bytes n"
  show "m = n"
  proof (rule digits_inject [where k = 8])
    show "m < 256 ^ 8" "n < 256 ^ 8" using assms by simp_all
    show "m div 256 ^ i mod 256 = n div 256 ^ i mod 256" if "i < 8" for i
    proof -
      from that have "i \<in> set [7, 6, 5, 4, 3, 2, 1, 0]" by auto
      then show ?thesis using eq unfolding be_bytes_def map_eq_conv by blast
    qed
  qed
qed simp

lemma str_bytes_inject: "str_bytes s = str_bytes t \<longleftrightarrow> s = t"
  by (simp add: str_bytes_def inj_map_eq_map inj_of_char)

lemma length_str_bytes [simp]: "length (str_bytes s) = length s"
  by (simp add: str_bytes_def)

lemma mac_message_inject:
  assumes "length d < 2 ^ 64" "length d' < 2 ^ 64" "g < 2 ^ 64" "g' < 2 ^ 64"
    and eq: "mac_message d g p = mac_message d' g' p'"
  shows "d = d' \<and> g = g' \<and> p = p'"
proof -
  from eq have "be_bytes (length d) = be_bytes (length d')"
    by (auto simp: mac_message_def append_eq_append_conv)
  with assms have len: "length d = length d'" by (simp add: be_bytes_inject)
  with eq have "str_bytes d = str_bytes d'" and "be_bytes g = be_bytes g'" and "p = p'"
    by (auto simp: mac_message_def append_eq_append_conv)
  with assms show ?thesis by (simp add: be_bytes_inject str_bytes_inject)
qed


section \<open>What the checkpoint commits to\<close>

definition commits :: "'doc auth_world \<Rightarrow> string \<Rightarrow> nat \<Rightarrow> 'doc \<Rightarrow> bool" where
  "commits w domain g v \<longleftrightarrow>
     g < 2 ^ 64 \<and>
     (\<exists>payload. aw_ser w v = Some payload \<and>
        aw_checkpoints w domain =
          Some \<lparr>ck_generation = g, ck_mac = mac (aw_packages w) (aw_key w) domain g payload\<rparr>)"

definition sealed_file :: "'doc auth_world \<Rightarrow> string \<Rightarrow> nat \<Rightarrow> bytes \<Rightarrow> state_file" where
  "sealed_file w domain g payload =
     \<lparr>sf_bytes = envelope_to_json (aw_packages w)
        \<lparr>env_format = ENVELOPE_FORMAT, env_generation = g,
          env_payload = b64_encode (aw_packages w) payload,
          env_mac = mac (aw_packages w) (aw_key w) domain g payload\<rparr>,
      sf_regular = True, sf_mode = 0x180\<rparr>"

definition holds_state :: "'doc auth_world \<Rightarrow> string \<Rightarrow> string \<Rightarrow> nat \<Rightarrow> 'doc \<Rightarrow> bool" where
  "holds_state w path domain g v \<longleftrightarrow>
     commits w domain g v \<and>
     (\<forall>payload. aw_ser w v = Some payload \<longrightarrow> aw_files w path = Some (sealed_file w domain g payload))"

text \<open>HMAC as the authenticator relies on it: the message in the state file, if it claims the
  checkpoint's generation and differs from the one the checkpoint was computed over, has a different tag.\<close>

definition unforged :: "'doc auth_world \<Rightarrow> string \<Rightarrow> string \<Rightarrow> nat \<Rightarrow> bytes \<Rightarrow> bool" where
  "unforged w path domain g payload \<longleftrightarrow>
     (\<forall>f e p. aw_files w path = Some f \<longrightarrow>
        envelope_from_json (aw_packages w) (sf_bytes f) = Some e \<longrightarrow>
        b64_decode (aw_packages w) (env_payload e) = Some p \<longrightarrow> env_generation e = g \<longrightarrow>
        hmac_sha256 (aw_packages w) (aw_key w) (mac_message domain (env_generation e) p) =
          hmac_sha256 (aw_packages w) (aw_key w) (mac_message domain g payload) \<longrightarrow>
        mac_message domain (env_generation e) p = mac_message domain g payload)"

text \<open>The two worlds trust the same authority: same packages, key and document codec.\<close>

definition same_authority :: "'doc auth_world \<Rightarrow> 'doc auth_world \<Rightarrow> bool" where
  "same_authority w w' \<longleftrightarrow>
     aw_packages w' = aw_packages w \<and> aw_key w' = aw_key w \<and> aw_ser w' = aw_ser w \<and> aw_de w' = aw_de w"

named_theorems world_simps \<open>projections of the world through the authenticator's operations\<close>

lemma pop_fault_simps [simp, world_simps]:
  "aw_packages (pop_fault w) = aw_packages w" "aw_key (pop_fault w) = aw_key w"
  "aw_ser (pop_fault w) = aw_ser w" "aw_de (pop_fault w) = aw_de w"
  "aw_files (pop_fault w) = aw_files w" "aw_checkpoints (pop_fault w) = aw_checkpoints w"
  by (simp_all add: pop_fault_def)

lemma same_authority_refl [simp]: "same_authority w w" "same_authority w (pop_fault w)"
  by (simp_all add: same_authority_def)

lemma same_authority_trans: "same_authority w w' \<Longrightarrow> same_authority w' w'' \<Longrightarrow> same_authority w w''"
  by (simp add: same_authority_def)

lemma codec_ok_same: "same_authority w w' \<Longrightarrow> codec_ok w \<Longrightarrow> codec_ok w'"
  by (simp add: codec_ok_def same_authority_def)

lemma verify_mac_self: "packages_ok pk \<Longrightarrow> verify_mac pk key d g p (mac pk key d g p) = Inr ()"
  by (simp add: verify_mac_def mac_def packages_ok_def)

lemma write_private_atomic_Ok:
  "write_private_atomic w f path data = (w', Inr u) \<Longrightarrow>
   w' = w\<lparr>aw_files := (aw_files w)(path \<mapsto> \<lparr>sf_bytes = data, sf_regular = True, sf_mode = 0x180\<rparr>)\<rparr>"
  by (auto simp: write_private_atomic_def Let_def split: option.splits effect.splits)

lemma checkpoint_store_Ok:
  "checkpoint_store w f d c = (w', Inr u) \<Longrightarrow> w' = w\<lparr>aw_checkpoints := (aw_checkpoints w)(d \<mapsto> c)\<rparr>"
  by (auto simp: checkpoint_store_def Let_def split: effect.splits)

lemma persist_next_Ok:
  assumes "persist_next w f path d g v = (w', Inr g')"
  shows "g' = g + 1 \<and> g + 1 < 2 ^ 64 \<and> (\<exists>payload. aw_ser w v = Some payload \<and>
     w' = w\<lparr>aw_files := (aw_files w)(path \<mapsto> sealed_file w d g' payload),
            aw_checkpoints := (aw_checkpoints w)(d \<mapsto>
              \<lparr>ck_generation = g', ck_mac = mac (aw_packages w) (aw_key w) d g' payload\<rparr>)\<rparr>)"
  using assms
  by (auto simp: persist_next_def Let_def checked_add_u64_def sealed_file_def
      split: option.splits sum.splits prod.splits if_splits
      dest!: write_private_atomic_Ok checkpoint_store_Ok)

lemma state_persist_Ok:
  assumes "state_persist w path d g v = (w', Inr g')"
  shows "persist_next (pop_fault w) (next_fault w) path d g v = (w', Inr g') \<and>
    (\<forall>ck. aw_checkpoints w d = Some ck \<longrightarrow> ck_generation ck \<le> g)"
  using assms
  by (auto simp: state_persist_def Let_def checkpoint_load_def
      split: option.splits sum.splits prod.splits if_splits)

lemma state_persist_holds:
  assumes "state_persist w path d g v = (w', Inr g')"
  shows "holds_state w' path d g' v \<and> g' = g + 1 \<and> same_authority w w'"
  using persist_next_Ok [OF state_persist_Ok [OF assms, THEN conjunct1]]
  by (auto simp: holds_state_def commits_def sealed_file_def same_authority_def)

text \<open>Whatever the file system holds, a load answers at the generation of the checkpoint.\<close>

lemma state_load_generation:
  assumes "state_load w path d = (w', Inr r)"
  shows "ls_generation r = (case aw_checkpoints w d of None \<Rightarrow> 0 | Some ck \<Rightarrow> ck_generation ck)"
  using assms
  by (auto simp: state_load_def Let_def checkpoint_load_def load_envelope_def and_then_eq_Inr check_against_def
      split: if_splits option.splits)

lemma state_load_world: "fst (state_load w path d) = pop_fault w"
  by (simp add: state_load_def Let_def)

lemma holds_state_pop [simp]: "holds_state (pop_fault w) path d g v = holds_state w path d g v"
  by (simp add: holds_state_def commits_def sealed_file_def)

lemma codec_ok_pop [simp]: "codec_ok (pop_fault w) = codec_ok w"
  by (simp add: codec_ok_def)

text \<open>The value is the one committed to.\<close>

lemma load_only_committed:
  assumes ok: "codec_ok w" and s: "aw_ser w v = Some payload" and g64: "g < 2 ^ 64"
    and ck: "aw_checkpoints w d = Some \<lparr>ck_generation = g, ck_mac = mac (aw_packages w) (aw_key w) d g payload\<rparr>"
    and d: "length d < 2 ^ 64" and u: "unforged w path d g payload"
    and load: "state_load w path d = (w', Inr r)"
  shows "ls_value r = None \<and> aw_files w path = None \<or> ls_value r = Some v"
proof (cases "aw_files w path")
  case None
  with load ck show ?thesis
    by (auto simp: state_load_def Let_def checkpoint_load_def split: if_splits)
next
  case (Some f)
  with load ck have le: "load_envelope (pop_fault w) d (aw_checkpoints w d) f = Inr r"
    by (auto simp: state_load_def Let_def checkpoint_load_def split: if_splits)
  then obtain e p v' where e: "envelope_from_json (aw_packages w) (sf_bytes f) = Some e"
    and p: "b64_decode (aw_packages w) (env_payload e) = Some p"
    and ver: "verify_mac (aw_packages w) (aw_key w) d (env_generation e) p (env_mac e) = Inr ()"
    and chk: "check_against d e (aw_checkpoints w d) = Inr ()"
    and de: "aw_de w p = Some v'" and r: "r = \<lparr>ls_value = Some v', ls_generation = env_generation e\<rparr>"
    by (auto simp: load_envelope_def and_then_eq_Inr split: if_splits)
  from chk ck have eg: "env_generation e = g" and em: "env_mac e = mac (aw_packages w) (aw_key w) d g payload"
    by (auto simp: check_against_def split: if_splits)
  from ok have "b64url_decode (aw_packages w) (b64url_encode (aw_packages w) b) = Some b" for b
    by (simp add: codec_ok_def packages_ok_def)
  with ver have "hmac_sha256 (aw_packages w) (aw_key w) (mac_message d (env_generation e) p) =
      hmac_sha256 (aw_packages w) (aw_key w) (mac_message d g payload)"
    by (simp add: verify_mac_def em mac_def split: if_splits)
  with u Some e p have "mac_message d g p = mac_message d g payload"
    unfolding unforged_def using eg by blast
  then have "p = payload"
    using mac_message_inject [OF d d g64 g64] by blast
  with de s ok r show ?thesis
    by (auto simp: codec_ok_def)
qed

lemma holds_state_load:
  assumes "codec_ok w" and h: "holds_state w path d g v"
  shows "state_load w path d =
    (pop_fault w,
     if cf_checkpoint_load_fails (next_fault w) then Inl (Keychain d)
     else if cf_read_fails (next_fault w) then Inl (Io path)
     else Inr \<lparr>ls_value = Some v, ls_generation = g\<rparr>)"
proof -
  from h obtain payload where p: "aw_ser w v = Some payload" and
    ck: "aw_checkpoints w d = Some \<lparr>ck_generation = g, ck_mac = mac (aw_packages w) (aw_key w) d g payload\<rparr>"
    and f: "aw_files w path = Some (sealed_file w d g payload)"
    by (auto simp: holds_state_def commits_def)
  from assms(1) have pk: "packages_ok (aw_packages w)" and de: "aw_de w payload = Some v"
    using p by (auto simp: codec_ok_def)
  from pk have b: "b64_decode (aw_packages w) (b64_encode (aw_packages w) x) = Some x"
    and j: "envelope_from_json (aw_packages w) (envelope_to_json (aw_packages w) e) = Some e" for x e
    by (simp_all add: packages_ok_def)
  have "load_envelope (pop_fault w) d (aw_checkpoints w d) (sealed_file w d g payload) =
      Inr \<lparr>ls_value = Some v, ls_generation = g\<rparr>"
    by (simp add: load_envelope_def sealed_file_def validate_private_regular_file_def ck b j de
        check_against_def verify_mac_self [OF pk] ENVELOPE_FORMAT_def)
  then show ?thesis
    by (simp add: state_load_def Let_def checkpoint_load_def f ck)
qed

section \<open>The contract with the modules that keep state\<close>

text \<open>What the policy mode and the grant cache rely on: a persisted document is the one loaded
  back, loading disturbs nothing, a stale generation is refused without effect.\<close>

locale state_port =
  fixes load :: "'w \<Rightarrow> string \<Rightarrow> string \<Rightarrow> 'w \<times> (integrity_error + 'doc loaded_state)"
    and persist :: "'w \<Rightarrow> string \<Rightarrow> string \<Rightarrow> nat \<Rightarrow> 'doc \<Rightarrow> 'w \<times> (integrity_error + nat)"
    and trusted :: "'w \<Rightarrow> bool"
    and holds :: "'w \<Rightarrow> string \<Rightarrow> string \<Rightarrow> nat \<Rightarrow> 'doc \<Rightarrow> bool"
  assumes persist_holds: "persist w p d g v = (w', Inr g') \<Longrightarrow> holds w' p d g' v \<and> g' = g + 1"
    and persist_trusted: "trusted w \<Longrightarrow> trusted (fst (persist w p d g v))"
    and load_trusted: "trusted w \<Longrightarrow> trusted (fst (load w p d))"
    and load_holds: "trusted w \<Longrightarrow> holds w p d g v \<Longrightarrow> load w p d = (w', Inr r) \<Longrightarrow>
      r = \<lparr>ls_value = Some v, ls_generation = g\<rparr>"
    and load_keeps: "holds w p d g v \<Longrightarrow> holds (fst (load w p d)) p d g v"
    and stale_refused: "holds w p d g v \<Longrightarrow> g0 < g \<Longrightarrow>
      \<not> is_ok (snd (persist w p d g0 u)) \<and> holds (fst (persist w p d g0 u)) p d g v"
begin

lemma persist_load:
  assumes "trusted w" "persist w p d g v = (w', Inr g')" "load w' p d = (w'', Inr r)"
  shows "ls_value r = Some v \<and> ls_generation r = g + 1"
  using assms load_holds persist_holds persist_trusted [OF assms(1), of p d g v] by fastforce

text \<open>Two writers at the same generation: the second loses and the first document stays.\<close>

lemma second_writer_refused:
  assumes "trusted w" "persist w p d g v = (w', Inr g')" "load (fst (persist w' p d g u)) p d = (w'', Inr r)"
  shows "\<not> is_ok (snd (persist w' p d g u)) \<and> ls_value r = Some v"
proof -
  have h: "holds w' p d g' v" and g: "g < g'" using persist_holds [OF assms(2)] by auto
  have t: "trusted (fst (persist w' p d g u))"
    using persist_trusted [OF assms(1), of p d g v] assms(2) by (auto intro: persist_trusted)
  from stale_refused [OF h g] load_holds [OF t _ assms(3)] show ?thesis by fastforce
qed

end

lemma persist_next_same: "same_authority w (fst (persist_next w f path d g v))"
  by (auto simp: persist_next_def same_authority_def Let_def write_private_atomic_def checkpoint_store_def
      split: option.splits sum.splits prod.splits effect.splits)

lemma state_persist_same: "same_authority w (fst (state_persist w path d g v))"
  using persist_next_same [of "pop_fault w"]
  by (auto simp: state_persist_def Let_def same_authority_def split: option.splits sum.splits)

lemma state_persist_stale:
  assumes "aw_checkpoints w d = Some ck" "g < ck_generation ck"
  shows "state_persist w path d g v = (pop_fault w,
    if cf_checkpoint_load_fails (next_fault w) then Inl (Keychain d)
    else Inl (Rollback d (ck_generation ck) g))"
  using assms by (simp add: state_persist_def Let_def checkpoint_load_def)

interpretation authenticator: state_port state_load state_persist codec_ok holds_state
proof
  show "holds_state w' p d g' v \<and> g' = g + 1" if "state_persist w p d g v = (w', Inr g')"
    for w w' :: "'doc auth_world" and p d g g' v
    using state_persist_holds [OF that] by auto
  show "codec_ok (fst (state_persist w p d g v))" if "codec_ok w"
    for w :: "'doc auth_world" and p d g v
    by (rule codec_ok_same [OF state_persist_same that])
  show "codec_ok (fst (state_load w p d))" if "codec_ok w" for w :: "'doc auth_world" and p d
    using that by (simp add: state_load_world)
  show "r = \<lparr>ls_value = Some v, ls_generation = g\<rparr>"
    if "codec_ok w" "holds_state w p d g v" "state_load w p d = (w', Inr r)"
    for w w' :: "'doc auth_world" and p d g v r
    using holds_state_load [OF that(1,2)] that(3) by (auto split: if_splits)
  show "holds_state (fst (state_load w p d)) p d g v" if "holds_state w p d g v"
    for w :: "'doc auth_world" and p d g v
    using that by (simp add: state_load_world)
  show "\<not> is_ok (snd (state_persist w p d g0 u)) \<and> holds_state (fst (state_persist w p d g0 u)) p d g v"
    if "holds_state w p d g v" "g0 < g" for w :: "'doc auth_world" and p d g g0 v u
  proof -
    from that(1) obtain ck where "aw_checkpoints w d = Some ck" "ck_generation ck = g"
      by (auto simp: holds_state_def commits_def)
    with that show ?thesis by (simp add: state_persist_stale)
  qed
qed

section \<open>The life of a checkpoint\<close>

text \<open>Everything that can happen to a world: calls of the authenticator, and anyone rewriting or
  deleting any file.\<close>

inductive auth_step :: "'doc auth_world \<Rightarrow> 'doc auth_world \<Rightarrow> bool" where
  load: "auth_step w (fst (state_load w path d))"
| persist: "auth_step w (fst (state_persist w path d g v))"
| restore: "auth_step w (fst (restore_checkpointed_state w path d vs))"
| tamper: "auth_step w (w\<lparr>aw_files := files\<rparr>)"

inductive auth_steps :: "'doc auth_world \<Rightarrow> 'doc auth_world \<Rightarrow> bool" where
  refl: "auth_steps w w"
| step: "auth_steps w w' \<Longrightarrow> auth_step w' w'' \<Longrightarrow> auth_steps w w''"

definition trusted_generation :: "'doc auth_world \<Rightarrow> string \<Rightarrow> nat" where
  "trusted_generation w d = (case aw_checkpoints w d of None \<Rightarrow> 0 | Some ck \<Rightarrow> ck_generation ck)"

lemma persist_next_checkpoint:
  "aw_checkpoints (fst (persist_next w f path d g v)) = aw_checkpoints w \<or>
   (\<exists>ck. aw_checkpoints (fst (persist_next w f path d g v)) = (aw_checkpoints w)(d \<mapsto> ck) \<and>
      ck_generation ck = g + 1)"
  by (auto simp: persist_next_def Let_def write_private_atomic_def checkpoint_store_def checked_add_u64_def
      split: option.splits sum.splits prod.splits effect.splits)

lemma state_persist_monotone: "trusted_generation w e \<le> trusted_generation (fst (state_persist w path d g v)) e"
proof -
  have "state_persist w path d g v = persist_next (pop_fault w) (next_fault w) path d g v \<and>
      trusted_generation w d \<le> g \<or> fst (state_persist w path d g v) = pop_fault w"
    by (auto simp: state_persist_def Let_def checkpoint_load_def trusted_generation_def split: option.splits sum.splits)
  then show ?thesis
    using persist_next_checkpoint [of "pop_fault w" "next_fault w" path d g v]
    by (auto simp: trusted_generation_def split: option.splits if_splits)
qed

lemma restore_checkpoints: "aw_checkpoints (fst (restore_checkpointed_state w path d vs)) = aw_checkpoints w"
  by (auto simp: restore_checkpointed_state_def write_private_atomic_def Let_def
      split: sum.splits option.splits effect.splits)

lemma auth_step_monotone: "auth_step w w' \<Longrightarrow> trusted_generation w d \<le> trusted_generation w' d"
  by (induction rule: auth_step.induct)
    (simp_all add: state_persist_monotone, simp_all add: trusted_generation_def state_load_world restore_checkpoints)

lemma auth_steps_monotone: "auth_steps w w' \<Longrightarrow> trusted_generation w d \<le> trusted_generation w' d"
  by (induction rule: auth_steps.induct) (auto intro: le_trans auth_step_monotone)

section \<open>Worlds confined to acceptable documents\<close>

text \<open>The checkpoint of \<open>d\<close>, if there is one, commits to a document satisfying \<open>Q\<close>, and the file at
  \<open>path\<close> is no forgery against it. Calls that persist only acceptable documents keep a world
  confined, whatever fails, and a load from a confined world yields an acceptable document or none.\<close>

definition confined :: "'doc auth_world \<Rightarrow> string \<Rightarrow> string \<Rightarrow> ('doc \<Rightarrow> bool) \<Rightarrow> bool" where
  "confined w path d Q \<longleftrightarrow> codec_ok w \<and>
     (\<forall>ck. aw_checkpoints w d = Some ck \<longrightarrow>
        (\<exists>v payload g. Q v \<and> aw_ser w v = Some payload \<and> g < 2 ^ 64 \<and>
           ck = \<lparr>ck_generation = g, ck_mac = mac (aw_packages w) (aw_key w) d g payload\<rparr> \<and>
           unforged w path d g payload))"

text \<open>What an adversary can write: anything that is not a forgery against the current checkpoint.\<close>

definition adversary_files :: "'doc auth_world \<Rightarrow> string \<Rightarrow> string \<Rightarrow> (string \<Rightarrow> state_file option) \<Rightarrow> bool" where
  "adversary_files w path d files \<longleftrightarrow>
     (\<forall>v payload g. aw_ser w v = Some payload \<longrightarrow>
        aw_checkpoints w d =
          Some \<lparr>ck_generation = g, ck_mac = mac (aw_packages w) (aw_key w) d g payload\<rparr> \<longrightarrow>
        unforged (w\<lparr>aw_files := files\<rparr>) path d g payload)"

lemma unforged_sealed:
  assumes "packages_ok (aw_packages w)" "aw_files w path = Some (sealed_file w d g' p')"
    and "g' \<noteq> g \<or> p' = payload"
  shows "unforged w path d g payload"
  using assms by (auto simp: unforged_def sealed_file_def packages_ok_def)

lemma confined_pop [simp]: "confined (pop_fault w) path d Q = confined w path d Q"
  by (simp add: confined_def unforged_def)

lemma confined_codec: "confined w path d Q \<Longrightarrow> codec_ok w"
  by (simp add: confined_def)

lemma confined_tamper:
  assumes c: "confined w path d Q" and a: "adversary_files w path d files"
  shows "confined (w\<lparr>aw_files := files\<rparr>) path d Q"
  unfolding confined_def
proof (intro conjI allI impI)
  show "codec_ok (w\<lparr>aw_files := files\<rparr>)"
    using confined_codec [OF c] by (simp add: codec_ok_def)
  fix ck assume "aw_checkpoints (w\<lparr>aw_files := files\<rparr>) d = Some ck"
  then have ck: "aw_checkpoints w d = Some ck" by simp
  then obtain v payload g where "Q v" "aw_ser w v = Some payload" "g < 2 ^ 64"
    "ck = \<lparr>ck_generation = g, ck_mac = mac (aw_packages w) (aw_key w) d g payload\<rparr>"
    using c by (auto simp: confined_def)
  moreover from this ck a have "unforged (w\<lparr>aw_files := files\<rparr>) path d g payload"
    unfolding adversary_files_def by blast
  ultimately show "\<exists>v payload g. Q v \<and> aw_ser (w\<lparr>aw_files := files\<rparr>) v = Some payload \<and> g < 2 ^ 64 \<and>
      ck = \<lparr>ck_generation = g, ck_mac = mac (aw_packages (w\<lparr>aw_files := files\<rparr>))
        (aw_key (w\<lparr>aw_files := files\<rparr>)) d g payload\<rparr> \<and> unforged (w\<lparr>aw_files := files\<rparr>) path d g payload"
    by auto
qed

lemma confined_load:
  assumes c: "confined w path d Q" and d: "length d < 2 ^ 64" and l: "state_load w path d = (w', Inr r)"
    and v: "ls_value r = Some v"
  shows "Q v"
proof (cases "aw_checkpoints w d")
  case None
  with l v show ?thesis
    by (auto simp: state_load_def Let_def checkpoint_load_def load_envelope_def and_then_eq_Inr check_against_def
        split: if_splits option.splits)
next
  case (Some ck)
  with c obtain v0 payload g where q: "Q v0" "aw_ser w v0 = Some payload" "g < 2 ^ 64"
    "ck = \<lparr>ck_generation = g, ck_mac = mac (aw_packages w) (aw_key w) d g payload\<rparr>"
    "unforged w path d g payload"
    by (auto simp: confined_def)
  from load_only_committed [OF confined_codec [OF c] q(2,3) _ d q(5) l] Some q(4) v q(1) show ?thesis
    by auto
qed

lemma persist_next_effects:
  "let w' = fst (persist_next w f path d g v) in
     w' = w \<or>
     (\<exists>payload. aw_ser w v = Some payload \<and> g + 1 < 2 ^ 64 \<and>
       (w' = w\<lparr>aw_files := (aw_files w)(path \<mapsto> sealed_file w d (g + 1) payload)\<rparr> \<or>
        w' = w\<lparr>aw_files := (aw_files w)(path \<mapsto> sealed_file w d (g + 1) payload),
               aw_checkpoints := (aw_checkpoints w)(d \<mapsto>
                 \<lparr>ck_generation = g + 1, ck_mac = mac (aw_packages w) (aw_key w) d (g + 1) payload\<rparr>)\<rparr>))"
  by (cases "aw_ser w v"; cases "path_parent path"; cases "cf_write f"; cases "cf_checkpoint_store f")
    (simp_all add: persist_next_def Let_def write_private_atomic_def checkpoint_store_def checked_add_u64_def
      sealed_file_def)

lemma confined_persist_next:
  assumes c: "confined w path d Q" and q: "Q v"
    and le: "\<And>ck. aw_checkpoints w d = Some ck \<Longrightarrow> ck_generation ck \<le> g"
  shows "confined (fst (persist_next w f path d g v)) path d Q"
proof -
  let ?w = "fst (persist_next w f path d g v)"
  have cod: "codec_ok ?w" by (rule codec_ok_same [OF persist_next_same confined_codec [OF c]])
  then have pk: "packages_ok (aw_packages ?w)" by (simp add: codec_ok_def)
  consider "?w = w"
    | payload where "aw_ser w v = Some payload" "g + 1 < 2 ^ 64"
        "?w = w\<lparr>aw_files := (aw_files w)(path \<mapsto> sealed_file w d (g + 1) payload)\<rparr>"
    | payload where "aw_ser w v = Some payload" "g + 1 < 2 ^ 64"
        "?w = w\<lparr>aw_files := (aw_files w)(path \<mapsto> sealed_file w d (g + 1) payload),
           aw_checkpoints := (aw_checkpoints w)(d \<mapsto>
             \<lparr>ck_generation = g + 1, ck_mac = mac (aw_packages w) (aw_key w) d (g + 1) payload\<rparr>)\<rparr>"
    using persist_next_effects [of w f path d g v] unfolding Let_def by blast
  then show ?thesis
  proof cases
    case 1
    with c show ?thesis by simp
  next
    case 2
    have "unforged ?w path d g0 p0" if "g0 \<le> g" for g0 p0
      by (rule unforged_sealed [OF pk, of _ _ "g + 1" payload]) (use that 2 in \<open>auto simp: sealed_file_def\<close>)
    with c cod le show ?thesis unfolding confined_def 2(3) by fastforce
  next
    case 3
    have "unforged ?w path d (g + 1) payload"
      by (rule unforged_sealed [OF pk, of _ _ "g + 1" payload]) (use 3 in \<open>auto simp: sealed_file_def\<close>)
    with cod q 3(1,2) show ?thesis unfolding confined_def 3(3) by auto
  qed
qed

lemma state_persist_cases:
  "state_persist w path d g v = persist_next (pop_fault w) (next_fault w) path d g v \<and>
     (\<forall>ck. aw_checkpoints w d = Some ck \<longrightarrow> ck_generation ck \<le> g) \<or>
   fst (state_persist w path d g v) = pop_fault w"
  by (cases "aw_checkpoints w d") (auto simp: state_persist_def Let_def checkpoint_load_def)

lemma confined_persist:
  assumes "confined w path d Q" "Q v"
  shows "confined (fst (state_persist w path d g v)) path d Q"
  using state_persist_cases [of w path d g v]
    confined_persist_next [of "pop_fault w" path d Q v g "next_fault w"] assms by auto

lemma confined_checkpoint_generation:
  "confined w path d Q \<Longrightarrow> confined (fst (checkpoint_generation w e)) path d Q"
  by (simp add: checkpoint_generation_def Let_def)

lemma confined_state_load: "confined w path d Q \<Longrightarrow> confined (fst (state_load w path' e)) path d Q"
  by (simp add: state_load_world)

lemma confined_after_persist:
  assumes "codec_ok w" "state_persist w path d g v = (w', Inr g')" "Q v"
  shows "confined w' path d Q"
proof -
  have c: "codec_ok w'" using authenticator.persist_trusted [OF assms(1), of path d g v] assms(2) by simp
  from state_persist_holds [OF assms(2)] have h: "holds_state w' path d g' v" by (rule conjunct1)
  then obtain payload where p: "aw_ser w' v = Some payload" "g' < 2 ^ 64"
    "aw_checkpoints w' d = Some \<lparr>ck_generation = g', ck_mac = mac (aw_packages w') (aw_key w') d g' payload\<rparr>"
    "aw_files w' path = Some (sealed_file w' d g' payload)"
    by (auto simp: holds_state_def commits_def)
  from c have "unforged w' path d g' payload"
    by (intro unforged_sealed [OF _ p(4)]) (simp_all add: codec_ok_def)
  with c p assms(3) show ?thesis by (auto simp: confined_def)
qed

section \<open>Properties\<close>

text \<open>A concrete world for the witnesses: documents are numbers, the encodings are unary.\<close>

definition unary_encode :: "bytes \<Rightarrow> string" where
  "unary_encode b = concat (map (\<lambda>n. replicate n (CHR ''i'') @ '','') b)"

fun unary_decode_from :: "nat \<Rightarrow> string \<Rightarrow> bytes option" where
  "unary_decode_from n [] = (if n = 0 then Some [] else None)"
| "unary_decode_from n (c # cs) =
     (if c = CHR '','' then map_option ((#) n) (unary_decode_from 0 cs) else unary_decode_from (Suc n) cs)"

definition example_packages :: packages where
  "example_packages =
     \<lparr>hmac_sha256 = (\<lambda>key m. key @ m),
      b64url_encode = unary_encode, b64url_decode = unary_decode_from 0,
      b64_encode = unary_encode, b64_decode = unary_decode_from 0,
      envelope_to_json = (\<lambda>e. env_format e # env_generation e # length (env_payload e) #
         map of_char (env_payload e) @ map of_char (env_mac e)),
      envelope_from_json = (\<lambda>b. case b of
         f # g # n # cs \<Rightarrow> Some \<lparr>env_format = f, env_generation = g,
            env_payload = map char_of (take n cs), env_mac = map char_of (drop n cs)\<rparr>
       | _ \<Rightarrow> None)\<rparr>"

definition example_world :: "call_fault list \<Rightarrow> nat auth_world" where
  "example_world faults =
     \<lparr>aw_packages = example_packages, aw_key = [7], aw_ser = (\<lambda>v. Some [v]),
      aw_de = (\<lambda>b. case b of [v] \<Rightarrow> Some v | _ \<Rightarrow> None), aw_files = (\<lambda>_. None),
      aw_checkpoints = (\<lambda>_. None), aw_faults = faults\<rparr>"

lemma unary_decode_replicate:
  "unary_decode_from k (replicate n (CHR ''i'') @ CHR '','' # cs) =
   map_option ((#) (k + n)) (unary_decode_from 0 cs)"
  by (induction n arbitrary: k) simp_all

lemma unary_roundtrip [simp]: "unary_decode_from 0 (unary_encode b) = Some b"
  by (induction b) (simp_all add: unary_encode_def unary_decode_replicate)

lemma example_codec_ok [simp]: "codec_ok (example_world fs)"
  by (simp add: codec_ok_def packages_ok_def example_world_def example_packages_def comp_def)

text \<open>A document persisted successfully is the document the next undisturbed load returns, at
  the generation the call reported; persisting counts the generation up by one.\<close>

theorem persist_load_roundtrip:
  assumes "codec_ok w" "state_persist w path d g v = (w', Inr g')"
    and "\<not> cf_checkpoint_load_fails (next_fault w')" "\<not> cf_read_fails (next_fault w')"
  shows "g' = g + 1 \<and> snd (state_load w' path d) = Inr \<lparr>ls_value = Some v, ls_generation = g'\<rparr>"
proof -
  have "codec_ok w'" using authenticator.persist_trusted [OF assms(1), of path d g v] assms(2) by simp
  from holds_state_load [OF this] authenticator.persist_holds [OF assms(2)] assms(3,4) show ?thesis
    by auto
qed

lemma example_persist:
  "snd (state_persist (example_world []) ''/s/f'' ''d'' 0 5) = Inr 1"
  "aw_faults (fst (state_persist (example_world []) ''/s/f'' ''d'' 0 5)) = []"
  by (simp_all add: state_persist_def persist_next_def example_world_def Let_def next_fault_def pop_fault_def
      no_fault_def checkpoint_load_def checked_add_u64_def write_private_atomic_def checkpoint_store_def
      path_parent_def path_body_def trim_back_def has_root_def body_string_def keep_head_def redundant_def)

theorem persist_load_roundtrip_witness:
  "snd (state_load (fst (state_persist (example_world []) ''/s/f'' ''d'' 0 5)) ''/s/f'' ''d'') =
     Inr \<lparr>ls_value = Some 5, ls_generation = 1\<rparr>"
  using persist_load_roundtrip [of "example_world []" "''/s/f''" "''d''" 0 5
      "fst (state_persist (example_world []) ''/s/f'' ''d'' 0 5)" 1] example_persist
  by (simp add: prod_eq_iff next_fault_def no_fault_def)

text \<open>(C5) Anti-rollback. After a successful persist, whatever calls are made with whatever
  failures, and whatever is written over or deleted from the state files, no later load is answered
  with an older generation: old copies of the file are refused.\<close>

theorem no_rollback_after_persist:
  assumes "state_persist w path d g v = (w1, Inr g')"
    and "auth_steps w1 w2" "state_load w2 path d = (w3, Inr r)"
  shows "g' \<le> ls_generation r"
proof -
  have "trusted_generation w1 d = g'"
    using state_persist_holds [OF assms(1)] by (auto simp: holds_state_def commits_def trusted_generation_def)
  then show ?thesis
    using auth_steps_monotone [OF assms(2), of d] state_load_generation [OF assms(3)]
    by (simp add: trusted_generation_def)
qed

theorem no_rollback_after_persist_witness:
  "1 \<le> ls_generation (projr (snd (state_load
     ((fst (state_persist (example_world []) ''/s/f'' ''d'' 0 5))\<lparr>aw_files := (\<lambda>_. None)\<rparr>) ''/s/f'' ''d'')))"
proof -
  let ?w1 = "fst (state_persist (example_world []) ''/s/f'' ''d'' 0 5)"
  let ?w2 = "?w1\<lparr>aw_files := (\<lambda>_. None)\<rparr>"
  have p: "state_persist (example_world []) ''/s/f'' ''d'' 0 5 = (?w1, Inr 1)"
    by (simp add: prod_eq_iff example_persist)
  have s: "auth_steps ?w1 ?w2" by (rule auth_steps.step [OF auth_steps.refl auth_step.tamper])
  have "is_ok (snd (state_load ?w2 ''/s/f'' ''d''))"
    by (simp add: state_load_def Let_def next_fault_def pop_fault_def example_persist no_fault_def checkpoint_load_def)
  then obtain r where "snd (state_load ?w2 ''/s/f'' ''d'') = Inr r" by (auto simp: is_ok_iff)
  then have l: "state_load ?w2 ''/s/f'' ''d'' = (fst (state_load ?w2 ''/s/f'' ''d''), Inr r)"
    by (simp add: prod_eq_iff)
  from no_rollback_after_persist [OF p s l] l show ?thesis by (metis snd_conv sum.sel(2))
qed

text \<open>(C6) Authenticity. While the checkpoint commits to document \<open>v\<close> at generation \<open>g\<close>, a load that
  succeeds reports generation \<open>g\<close> and returns \<open>v\<close>, or no value when the file was deleted; the
  contents of the file cannot make it return anything else, as long as HMAC separates the message in
  the file from the committed one.\<close>

theorem load_returns_committed_document:
  assumes "codec_ok w" "aw_ser w v = Some payload" "g < 2 ^ 64" "length d < 2 ^ 64"
    and "aw_checkpoints w d = Some \<lparr>ck_generation = g, ck_mac = mac (aw_packages w) (aw_key w) d g payload\<rparr>"
    and "unforged w path d g payload" "state_load w path d = (w', Inr r)"
  shows "ls_generation r = g \<and>
    (ls_value r = Some v \<or> ls_value r = None \<and> aw_files w path = None)"
  using load_only_committed [OF assms(1-3) assms(5) assms(4) assms(6,7)]
    state_load_generation [OF assms(7)] assms(5) by auto

definition example_sealed_world :: "nat auth_world" where
  "example_sealed_world = (example_world [])
     \<lparr>aw_files := [''/s/f'' \<mapsto> sealed_file (example_world []) ''d'' 3 [5]],
      aw_checkpoints := [''d'' \<mapsto>
        \<lparr>ck_generation = 3, ck_mac = mac example_packages [7] ''d'' 3 [5]\<rparr>]\<rparr>"

lemma example_sealed_holds: "holds_state example_sealed_world ''/s/f'' ''d'' 3 5"
  by (simp add: holds_state_def commits_def example_sealed_world_def example_world_def sealed_file_def)

lemma example_sealed_codec: "codec_ok example_sealed_world"
  by (rule codec_ok_same [OF _ example_codec_ok [of "[]"]])
    (simp add: same_authority_def example_sealed_world_def)

theorem load_returns_committed_document_witness:
  "(let r = projr (snd (state_load example_sealed_world ''/s/f'' ''d'')) in
     ls_generation r = 3 \<and> ls_value r = Some 5)"
proof -
  let ?w = example_sealed_world and ?r = "\<lparr>ls_value = Some (5::nat), ls_generation = 3\<rparr>"
  have l: "state_load ?w ''/s/f'' ''d'' = (pop_fault ?w, Inr ?r)"
    using holds_state_load [OF example_sealed_codec example_sealed_holds]
    by (simp add: next_fault_def example_sealed_world_def example_world_def no_fault_def)
  have u: "unforged ?w ''/s/f'' ''d'' 3 [5]"
    by (auto simp: unforged_def example_sealed_world_def example_world_def example_packages_def)
  have "ls_generation ?r = 3 \<and> (ls_value ?r = Some 5 \<or> ls_value ?r = None \<and> aw_files ?w ''/s/f'' = None)"
    by (rule load_returns_committed_document [OF example_sealed_codec _ _ _ _ u l])
      (simp_all add: example_sealed_world_def example_world_def)
  then show ?thesis by (simp add: l)
qed

text \<open>A crash between the two effects of \<open>persist\<close>: the file is ahead of the checkpoint.\<close>

lemma persist_next_torn:
  assumes "cf_write f = Done" "cf_checkpoint_store f = FailedBefore" "path_parent path \<noteq> None"
    "g + 1 < 2 ^ 64" "aw_ser w v = Some payload"
  shows "persist_next w f path d g v =
    (w\<lparr>aw_files := (aw_files w)(path \<mapsto> sealed_file w d (g + 1) payload)\<rparr>, Inl (Keychain d))"
  using assms
  by (auto simp: persist_next_def checked_add_u64_def Let_def write_private_atomic_def checkpoint_store_def
      sealed_file_def)

lemma persist_next_quiet:
  assumes "cf_write f = Done" "cf_checkpoint_store f = Done" "path_parent path \<noteq> None"
    "g + 1 < 2 ^ 64" "aw_ser w v = Some payload"
  shows "snd (persist_next w f path d g v) = Inr (g + 1)"
  using assms
  by (auto simp: persist_next_def checked_add_u64_def Let_def write_private_atomic_def checkpoint_store_def)

lemma load_ahead:
  assumes "packages_ok (aw_packages w)" "aw_checkpoints w d = Some ck" "ck_generation ck < g"
    and "aw_files w path = Some (sealed_file w d g payload)"
    and "\<not> cf_checkpoint_load_fails (next_fault w)" "\<not> cf_read_fails (next_fault w)"
  shows "snd (state_load w path d) = Inl (AheadOfCheckpoint d (ck_generation ck) g)"
proof -
  from assms(1) have b: "b64_decode (aw_packages w) (b64_encode (aw_packages w) x) = Some x"
    and j: "envelope_from_json (aw_packages w) (envelope_to_json (aw_packages w) e) = Some e" for x e
    by (simp_all add: packages_ok_def)
  show ?thesis using assms(2-)
    by (simp add: state_load_def Let_def checkpoint_load_def load_envelope_def sealed_file_def b j
        validate_private_regular_file_def verify_mac_self [OF assms(1)] check_against_def ENVELOPE_FORMAT_def)
qed

lemma state_persist_quiet:
  assumes "aw_faults w = []" "path_parent path \<noteq> None" "trusted_generation w d \<le> g" "g + 1 < 2 ^ 64"
    and "aw_ser w v = Some payload"
  shows "snd (state_persist w path d g v) = Inr (g + 1) \<and> aw_faults (fst (state_persist w path d g v)) = []"
proof -
  have q: "next_fault w = no_fault" "aw_faults (pop_fault w) = []"
    using assms(1) by (simp_all add: next_fault_def pop_fault_def)
  have e: "state_persist w path d g v = persist_next (pop_fault w) no_fault path d g v"
    using assms(3) q by (auto simp: state_persist_def Let_def checkpoint_load_def no_fault_def trusted_generation_def
        split: option.splits)
  have r: "snd (persist_next (pop_fault w) no_fault path d g v) = Inr (g + 1)"
    by (rule persist_next_quiet) (use assms in \<open>simp_all add: no_fault_def\<close>)
  then have "persist_next (pop_fault w) no_fault path d g v =
      (fst (persist_next (pop_fault w) no_fault path d g v), Inr (g + 1))" by (simp add: prod_eq_iff)
  from persist_next_Ok [OF this] q(2) have "aw_faults (fst (persist_next (pop_fault w) no_fault path d g v)) = []"
    by auto
  with r e show ?thesis by simp
qed

lemma checkpoint_generation_quiet:
  assumes "aw_faults w = []"
  shows "checkpoint_generation w d = (pop_fault w, Inr (trusted_generation w d))"
  using assms by (simp add: checkpoint_generation_def Let_def next_fault_def no_fault_def checkpoint_load_def
      trusted_generation_def)

lemma trusted_generation_pop [simp]: "trusted_generation (pop_fault w) d = trusted_generation w d"
  by (simp add: trusted_generation_def)

text \<open>The crash window of \<open>persist\<close>. When the file was replaced but the checkpoint could not be
  written, the call reports the failure, the next load refuses the unconfirmed file as being ahead
  of its checkpoint, and a retry at the same generation repairs the state: it succeeds and the
  retried document is the one then loaded.\<close>

theorem torn_persist_detected_and_repaired:
  assumes ok: "codec_ok w" and h: "holds_state w path d g old"
    and fault: "aw_faults w = [torn]" "\<not> cf_checkpoint_load_fails torn" "cf_write torn = Done"
      "cf_checkpoint_store torn = FailedBefore"
    and path: "path_parent path \<noteq> None" and g: "g + 1 < 2 ^ 64"
    and ser: "aw_ser w v = Some payload"
    and call: "state_persist w path d g v = (w1, res)"
  shows "res = Inl (Keychain d) \<and>
    snd (state_load w1 path d) = Inl (AheadOfCheckpoint d g (g + 1)) \<and>
    snd (state_persist w1 path d g v) = Inr (g + 1) \<and>
    snd (state_load (fst (state_persist w1 path d g v)) path d) =
      Inr \<lparr>ls_value = Some v, ls_generation = g + 1\<rparr>"
proof -
  from h obtain m where ck: "aw_checkpoints w d = Some \<lparr>ck_generation = g, ck_mac = m\<rparr>"
    by (auto simp: holds_state_def commits_def)
  have n: "next_fault w = torn" "next_fault (pop_fault w) = no_fault" "aw_faults (pop_fault w) = []"
    using fault by (simp_all add: next_fault_def pop_fault_def)
  have w1: "w1 = (pop_fault w)\<lparr>aw_files := (aw_files w)(path \<mapsto> sealed_file w d (g + 1) payload)\<rparr>"
    and res: "res = Inl (Keychain d)"
    using call persist_next_torn [OF fault(3,4) path g, of "pop_fault w" v payload d] ser fault(2) ck n
    by (simp_all add: state_persist_def Let_def checkpoint_load_def sealed_file_def)
  have same: "same_authority w w1" using state_persist_same [of w path d g v] call by simp
  have ok1: "codec_ok w1" by (rule codec_ok_same [OF same ok])
  have q: "next_fault w1 = no_fault" "next_fault (pop_fault w1) = no_fault" "aw_faults (pop_fault w1) = []"
    using n by (simp_all add: w1 next_fault_def pop_fault_def)
  have ahead: "snd (state_load w1 path d) = Inl (AheadOfCheckpoint d g (g + 1))"
    using load_ahead [of w1 d "\<lparr>ck_generation = g, ck_mac = m\<rparr>" "g + 1" path payload] ok1 ck q
    by (simp add: w1 codec_ok_def sealed_file_def no_fault_def)
  have retry: "state_persist w1 path d g v = (fst (state_persist w1 path d g v), Inr (g + 1))"
    using persist_next_quiet [of no_fault path g "pop_fault w1" v payload d] path g ser ck q
    by (simp add: prod_eq_iff state_persist_def Let_def checkpoint_load_def w1 no_fault_def)
  have q2: "next_fault (fst (state_persist w1 path d g v)) = no_fault"
    using persist_next_Ok [OF state_persist_Ok [OF retry, THEN conjunct1]] q by (auto simp: next_fault_def)
  have "snd (state_load (fst (state_persist w1 path d g v)) path d) =
      Inr \<lparr>ls_value = Some v, ls_generation = g + 1\<rparr>"
    using holds_state_load [OF authenticator.persist_trusted [OF ok1]
        authenticator.persist_holds [OF retry, THEN conjunct1]]
    by (simp add: q2 no_fault_def)
  with res ahead retry show ?thesis by (metis snd_conv)
qed

definition torn_fault :: call_fault where
  "torn_fault = no_fault\<lparr>cf_checkpoint_store := FailedBefore\<rparr>"

theorem torn_persist_detected_and_repaired_witness:
  "snd (state_load (fst (state_persist (example_sealed_world\<lparr>aw_faults := [torn_fault]\<rparr>) ''/s/f'' ''d'' 3 6))
     ''/s/f'' ''d'') = Inl (AheadOfCheckpoint ''d'' 3 4)"
proof -
  let ?w = "example_sealed_world\<lparr>aw_faults := [torn_fault]\<rparr>"
  have "codec_ok ?w" by (rule codec_ok_same [OF _ example_sealed_codec]) (simp add: same_authority_def)
  moreover have "holds_state ?w ''/s/f'' ''d'' 3 5"
    using example_sealed_holds by (simp add: holds_state_def commits_def sealed_file_def)
  moreover have "path_parent ''/s/f'' \<noteq> None"
    by (simp add: path_parent_def path_body_def trim_back_def has_root_def body_string_def keep_head_def redundant_def)
  ultimately show ?thesis
    using torn_persist_detected_and_repaired [of ?w "''/s/f''" "''d''" 3 5 torn_fault 6 "[6]",
        OF _ _ _ _ _ _ _ _ _ surjective_pairing]
    by (simp add: torn_fault_def no_fault_def example_sealed_world_def example_world_def)
qed

lemma reconstruct_from_Ok:
  assumes "reconstruct_from w d ck vs = Inr encoded"
  shows "\<exists>v payload. v \<in> set vs \<and> aw_ser w v = Some payload \<and>
    verify_mac (aw_packages w) (aw_key w) d (ck_generation ck) payload (ck_mac ck) = Inr () \<and>
    encoded = envelope_to_json (aw_packages w)
      \<lparr>env_format = ENVELOPE_FORMAT, env_generation = ck_generation ck,
       env_payload = b64_encode (aw_packages w) payload, env_mac = ck_mac ck\<rparr>"
  using assms
  by (induction vs) (auto simp: and_then_eq_Inr is_ok_iff split: if_splits)

text \<open>Recovery of a lost or damaged state file: when \<open>restore_checkpointed_state\<close> succeeds, the
  next undisturbed load returns one of the offered candidates, at exactly the generation of the
  trusted checkpoint, and no checkpoint was changed.\<close>

theorem restore_recovers_trusted_state:
  assumes "codec_ok w" "aw_checkpoints w d = Some ck"
    and "restore_checkpointed_state w path d candidates = (w', Inr ())"
    and "\<not> cf_checkpoint_load_fails (next_fault w')" "\<not> cf_read_fails (next_fault w')"
  shows "aw_checkpoints w' = aw_checkpoints w \<and>
    (\<exists>v \<in> set candidates. snd (state_load w' path d) =
       Inr \<lparr>ls_value = Some v, ls_generation = ck_generation ck\<rparr>)"
proof -
  from assms(2,3) obtain encoded where rc: "reconstruct_from w d ck candidates = Inr encoded"
    and wr: "write_private_atomic (pop_fault w) (cf_write (next_fault w)) path encoded = (w', Inr ())"
    by (auto simp: restore_checkpointed_state_def reconstruct_checkpointed_state_def checkpoint_load_def
        split: sum.splits if_splits)
  from reconstruct_from_Ok [OF rc] obtain v payload where v: "v \<in> set candidates"
    and s: "aw_ser w v = Some payload"
    and ver: "verify_mac (aw_packages w) (aw_key w) d (ck_generation ck) payload (ck_mac ck) = Inr ()"
    and enc: "encoded = envelope_to_json (aw_packages w)
      \<lparr>env_format = ENVELOPE_FORMAT, env_generation = ck_generation ck,
       env_payload = b64_encode (aw_packages w) payload, env_mac = ck_mac ck\<rparr>" by blast
  from assms(1) s have b: "b64_decode (aw_packages w) (b64_encode (aw_packages w) x) = Some x"
    and j: "envelope_from_json (aw_packages w) (envelope_to_json (aw_packages w) e) = Some e"
    and de: "aw_de w payload = Some v" for x e
    by (auto simp: codec_ok_def packages_ok_def)
  have "snd (state_load w' path d) = Inr \<lparr>ls_value = Some v, ls_generation = ck_generation ck\<rparr>"
    using assms(2,4,5) ver
    by (simp add: write_private_atomic_Ok [OF wr] state_load_def Let_def checkpoint_load_def load_envelope_def
        enc b j de validate_private_regular_file_def check_against_def ENVELOPE_FORMAT_def)
  with v write_private_atomic_Ok [OF wr] show ?thesis by auto
qed

theorem restore_recovers_trusted_state_witness:
  "(let w = example_sealed_world\<lparr>aw_files := (\<lambda>_. None)\<rparr>;
        w' = fst (restore_checkpointed_state w ''/s/f'' ''d'' [5])
    in snd (state_load w' ''/s/f'' ''d'') = Inr \<lparr>ls_value = Some 5, ls_generation = 3\<rparr>)"
proof -
  let ?w = "example_sealed_world\<lparr>aw_files := (\<lambda>_. None)\<rparr>"
  let ?w' = "fst (restore_checkpointed_state ?w ''/s/f'' ''d'' [5])"
  have c: "codec_ok ?w" by (rule codec_ok_same [OF _ example_sealed_codec]) (simp add: same_authority_def)
  have v: "verify_mac example_packages [7] ''d'' 3 [5] (mac example_packages [7] ''d'' 3 [5]) = Inr ()"
    by (rule verify_mac_self) (simp add: packages_ok_def example_packages_def comp_def)
  have "path_parent ''/s/f'' \<noteq> None"
    by (simp add: path_parent_def path_body_def trim_back_def has_root_def body_string_def keep_head_def redundant_def)
  then have r: "restore_checkpointed_state ?w ''/s/f'' ''d'' [5] = (?w', Inr ())" and f: "aw_faults ?w' = []"
    using v
    by (auto simp: prod_eq_iff restore_checkpointed_state_def reconstruct_checkpointed_state_def checkpoint_load_def
        next_fault_def pop_fault_def no_fault_def example_sealed_world_def example_world_def write_private_atomic_def)
  have "aw_checkpoints ?w ''d'' = Some \<lparr>ck_generation = 3, ck_mac = mac example_packages [7] ''d'' 3 [5]\<rparr>"
    by (simp add: example_sealed_world_def)
  from restore_recovers_trusted_state [OF c this r] f show ?thesis
    by (simp add: next_fault_def no_fault_def)
qed

end
