(* ===== verification/Policy_Mode.thy ===== *)
theory Policy_Mode
  imports Rules Integrity
begin

text \<open>
  \<open>floria-agent/src/policy_mode.rs\<close>: the daemon-wide policy mode, normal or audit-only, with an
  optional expiry, persisted through the state authenticator. The operations thread the world of
  the authenticator and the module's own state; the wall clock is an argument.
\<close>

section \<open>State and operations\<close>

definition POLICY_DOMAIN :: string where "POLICY_DOMAIN = ''global-policy-mode''"

type_synonym mode_world = "policy_mode_status auth_world"

record mode_state =
  ms_path :: string
  ms_generation :: nat
  ms_status :: policy_mode_status

datatype mode_error = InvalidInput string | InvalidData integrity_error

definition is_expired :: "int \<Rightarrow> policy_mode_status \<Rightarrow> bool" where
  "is_expired clock status =
     (case pm_expires_at status of None \<Rightarrow> False | Some expiry \<Rightarrow> expiry \<le> now_unix clock)"

definition mode_persist ::
    "mode_world \<Rightarrow> mode_state \<Rightarrow> policy_mode_status \<Rightarrow> mode_world \<times> mode_state \<times> (mode_error + unit)" where
  "mode_persist w st status =
     (case state_persist w (ms_path st) POLICY_DOMAIN (ms_generation st) status of
        (w', Inl e) \<Rightarrow> (w', st, Inl (InvalidData e))
      | (w', Inr generation) \<Rightarrow> (w', st\<lparr>ms_generation := generation\<rparr>, Inr ()))"

definition mode_status ::
    "mode_world \<Rightarrow> mode_state \<Rightarrow> int \<Rightarrow> mode_world \<times> mode_state \<times> policy_mode_status" where
  "mode_status w st clock =
     (if is_expired clock (ms_status st)
      then (case mode_persist w (st\<lparr>ms_status := policy_mode_status_default\<rparr>) policy_mode_status_default of
              (w', st', _) \<Rightarrow> (w', st', ms_status st'))
      else (w, st, ms_status st))"

definition mode_open :: "mode_world \<Rightarrow> string \<Rightarrow> int \<Rightarrow> mode_world \<times> mode_state" where
  "mode_open w path clock =
     (case state_load w path POLICY_DOMAIN of
        (w1, Inr loaded) \<Rightarrow>
          (case mode_status w1 \<lparr>ms_path = path, ms_generation = ls_generation loaded,
               ms_status = unwrap_or (ls_value loaded) policy_mode_status_default\<rparr> clock of
             (w2, st, _) \<Rightarrow> (w2, st))
      | (w1, Inl _) \<Rightarrow>
          (case checkpoint_generation w1 POLICY_DOMAIN of
             (w2, r) \<Rightarrow>
               (case mode_status w2 \<lparr>ms_path = path,
                    ms_generation = (case r of Inl _ \<Rightarrow> 0 | Inr g \<Rightarrow> g),
                    ms_status = policy_mode_status_default\<rparr> clock of
                  (w3, st, _) \<Rightarrow> (w3, st))))"

definition mode_expiry :: "policy_mode \<Rightarrow> nat option \<Rightarrow> int \<Rightarrow> mode_error + int option" where
  "mode_expiry mode duration_secs clock =
     (case (mode, duration_secs) of
        (NormalMode, None) \<Rightarrow> Inr None
      | (NormalMode, Some _) \<Rightarrow> Inl (InvalidInput ''normal mode cannot have a duration'')
      | (AuditOnly, Some seconds) \<Rightarrow>
          if seconds = 0 then Inl (InvalidInput ''audit-only duration must be greater than zero'')
          else and_then (ok_or (i64_try_from_u64 seconds) (InvalidInput ''duration is too large'')) (\<lambda>s.
               and_then (ok_or (checked_add_i64 (now_unix clock) s)
                   (InvalidInput ''expiry overflows timestamp'')) (\<lambda>expiry. Inr (Some expiry)))
      | (AuditOnly, None) \<Rightarrow> Inr None)"

definition mode_set ::
    "mode_world \<Rightarrow> mode_state \<Rightarrow> policy_mode \<Rightarrow> nat option \<Rightarrow> int \<Rightarrow>
      mode_world \<times> mode_state \<times> (mode_error + policy_mode_status)" where
  "mode_set w st mode duration_secs clock =
     (case mode_expiry mode duration_secs clock of
        Inl e \<Rightarrow> (w, st, Inl e)
      | Inr expires_at \<Rightarrow>
          (let next = \<lparr>pm_mode = mode, pm_expires_at = expires_at\<rparr>
           in case mode_persist w st next of
                (w', st', Inl e) \<Rightarrow> (w', st', Inl e)
              | (w', st', Inr _) \<Rightarrow> (w', st'\<lparr>ms_status := next\<rparr>, Inr next)))"

definition project_enforcement :: "policy_mode \<Rightarrow> enforcement \<Rightarrow> enforcement" where
  "project_enforcement mode configured =
     (case (mode, configured) of
        (AuditOnly, Prompt) \<Rightarrow> Allow
      | (AuditOnly, TouchId) \<Rightarrow> Allow
      | _ \<Rightarrow> configured)"

definition mode_evaluate ::
    "mode_world \<Rightarrow> mode_state \<Rightarrow> int \<Rightarrow> enforcement \<Rightarrow> mode_world \<times> mode_state \<times> policy_evaluation" where
  "mode_evaluate w st clock configured =
     (case mode_status w st clock of
        (w', st', status) \<Rightarrow>
          (w', st', \<lparr>configured_enforcement = configured,
             effective_enforcement = project_enforcement (pm_mode status) configured,
             eval_mode = pm_mode status\<rparr>))"

section \<open>Lemmas\<close>

lemma mode_persist_status [simp]: "ms_status (fst (snd (mode_persist w st s))) = ms_status st"
  and mode_persist_path [simp]: "ms_path (fst (snd (mode_persist w st s))) = ms_path st"
  and mode_persist_world: "fst (mode_persist w st s) =
    fst (state_persist w (ms_path st) POLICY_DOMAIN (ms_generation st) s)"
  by (auto simp: mode_persist_def split: prod.splits sum.splits)

lemma mode_status_value:
  "snd (snd (mode_status w st clock)) =
     (if is_expired clock (ms_status st) then policy_mode_status_default else ms_status st)"
  "ms_status (fst (snd (mode_status w st clock))) = snd (snd (mode_status w st clock))"
  "ms_path (fst (snd (mode_status w st clock))) = ms_path st"
  by (auto simp: mode_status_def case_prod_beta)

lemma mode_evaluate_effective:
  "effective_enforcement (snd (snd (mode_evaluate w st clock e))) =
     project_enforcement (pm_mode (snd (snd (mode_status w st clock)))) e"
  by (simp add: mode_evaluate_def split: prod.splits)

lemma mode_evaluate_state: "fst (mode_evaluate w st clock e) = fst (mode_status w st clock)"
  "fst (snd (mode_evaluate w st clock e)) = fst (snd (mode_status w st clock))"
  by (simp_all add: mode_evaluate_def split: prod.splits)

text \<open>Audit-only mode turns prompts and Touch ID into Allow and touches nothing else: an
  explicit Deny stays a Deny, and in normal mode nothing is changed.\<close>

theorem audit_only_relaxes_only_interaction:
  "(let ev = snd (snd (mode_evaluate w st clock e)) in
      configured_enforcement ev = e \<and>
      (effective_enforcement ev = e \<or>
       e \<in> {Prompt, TouchId} \<and> effective_enforcement ev = Allow \<and> eval_mode ev = AuditOnly))"
  by (auto simp: mode_evaluate_def project_enforcement_def Let_def
      split: prod.splits enforcement.splits policy_mode.splits)

text \<open>A mode that could not be set leaves the mode in force untouched: whatever the error, every
  later query answers as if the call had not been made.\<close>

theorem failed_set_keeps_mode:
  assumes "mode_set w st mode secs clock = (w', st', Inl err)"
  shows "ms_status st' = ms_status st \<and>
    snd (snd (mode_evaluate w' st' clock' e)) = snd (snd (mode_evaluate w st clock' e))"
proof -
  from assms have "ms_status st' = ms_status st"
    by (auto simp: mode_set_def Let_def mode_persist_def split: sum.splits prod.splits)
  then show ?thesis
    by (simp add: mode_evaluate_def case_prod_beta mode_status_value)
qed

definition example_mode_world :: "call_fault list \<Rightarrow> mode_world" where
  "example_mode_world faults =
     \<lparr>aw_packages = example_packages, aw_key = [7],
      aw_ser = (\<lambda>s. Some ((case pm_mode s of NormalMode \<Rightarrow> 0 | AuditOnly \<Rightarrow> 1) #
         (case pm_expires_at s of None \<Rightarrow> [] | Some t \<Rightarrow> [if t < 0 then 0 else 1, nat \<bar>t\<bar>]))),
      aw_de = (\<lambda>b. case b of
         m # ts \<Rightarrow> Some \<lparr>pm_mode = (if m = 0 then NormalMode else AuditOnly),
           pm_expires_at = (case ts of [s, t] \<Rightarrow> Some (if s = 0 then - int t else int t) | _ \<Rightarrow> None)\<rparr>
       | [] \<Rightarrow> None),
      aw_files = (\<lambda>_. None), aw_checkpoints = (\<lambda>_. None), aw_faults = faults\<rparr>"

definition example_mode_state :: mode_state where
  "example_mode_state = \<lparr>ms_path = ''/s/m'', ms_generation = 0, ms_status = policy_mode_status_default\<rparr>"

lemma example_mode_codec: "codec_ok (example_mode_world fs)"
  by (auto simp: codec_ok_def packages_ok_def example_mode_world_def example_packages_def comp_def
      split: policy_mode.splits option.splits intro!: policy_mode_status.equality)

theorem failed_set_keeps_mode_witness:
  "ms_status (fst (snd (mode_set (example_mode_world []) example_mode_state NormalMode (Some 5) 0))) =
     policy_mode_status_default"
  using failed_set_keeps_mode [of "example_mode_world []" example_mode_state NormalMode "Some 5" 0]
  by (simp add: mode_set_def mode_expiry_def example_mode_state_def)

section \<open>The life of an override\<close>

text \<open>Everything that can happen between two changes of the mode: queries at any time, restarts of
  the daemon with any failures, and anyone rewriting the state file short of forging a tag.\<close>

inductive mode_step :: "mode_world \<times> mode_state \<Rightarrow> mode_world \<times> mode_state \<Rightarrow> bool" where
  status: "mode_step (w, st) (fst (mode_status w st clock), fst (snd (mode_status w st clock)))"
| evaluate: "mode_step (w, st) (fst (mode_evaluate w st clock e), fst (snd (mode_evaluate w st clock e)))"
| reopen: "mode_step (w, st) (mode_open w (ms_path st) clock)"
| tamper: "adversary_files w (ms_path st) POLICY_DOMAIN files \<Longrightarrow>
    mode_step (w, st) (w\<lparr>aw_files := files\<rparr>, st)"

inductive mode_steps :: "mode_world \<times> mode_state \<Rightarrow> mode_world \<times> mode_state \<Rightarrow> bool" where
  refl: "mode_steps c c"
| step: "mode_steps c c' \<Longrightarrow> mode_step c' c'' \<Longrightarrow> mode_steps c c''"

text \<open>Nothing but acceptable modes, in memory and on disk.\<close>

definition mode_confined :: "(policy_mode_status \<Rightarrow> bool) \<Rightarrow> mode_world \<times> mode_state \<Rightarrow> bool" where
  "mode_confined Q c \<longleftrightarrow>
     Q policy_mode_status_default \<and> Q (ms_status (snd c)) \<and>
     confined (fst c) (ms_path (snd c)) POLICY_DOMAIN Q"

lemma length_POLICY_DOMAIN: "length POLICY_DOMAIN < 2 ^ 64"
  by (simp add: POLICY_DOMAIN_def)

lemma mode_status_confined:
  assumes "mode_confined Q (w, st)"
  shows "mode_confined Q (fst (mode_status w st clock), fst (snd (mode_status w st clock)))"
  using assms confined_persist [of w "ms_path st" POLICY_DOMAIN Q policy_mode_status_default]
  by (auto simp: mode_confined_def mode_status_value)
    (auto simp: mode_status_def case_prod_beta mode_persist_world)

lemma mode_open_confined:
  assumes "mode_confined Q (w, st)"
  shows "mode_confined Q (mode_open w (ms_path st) clock)"
proof -
  let ?p = "ms_path st"
  have c: "confined w ?p POLICY_DOMAIN Q" and d: "Q policy_mode_status_default"
    using assms by (simp_all add: mode_confined_def)
  obtain w1 r where l: "state_load w ?p POLICY_DOMAIN = (w1, r)" by (cases "state_load w ?p POLICY_DOMAIN")
  then have c1: "confined w1 ?p POLICY_DOMAIN Q" using confined_state_load [OF c, of ?p POLICY_DOMAIN] by simp
  show ?thesis
  proof (cases r)
    case (Inl e)
    have "confined (fst (checkpoint_generation w1 POLICY_DOMAIN)) ?p POLICY_DOMAIN Q"
      by (rule confined_checkpoint_generation [OF c1])
    then show ?thesis using mode_status_confined [of Q] d l Inl
      by (simp add: mode_open_def case_prod_beta mode_confined_def)
  next
    case (Inr loaded)
    have "Q (unwrap_or (ls_value loaded) policy_mode_status_default)"
      using confined_load [OF c length_POLICY_DOMAIN l [unfolded Inr]] d by (cases "ls_value loaded") auto
    then show ?thesis using mode_status_confined [of Q] d l Inr c1
      by (simp add: mode_open_def case_prod_beta mode_confined_def)
  qed
qed

lemma mode_step_confined: "mode_step c c' \<Longrightarrow> mode_confined Q c \<Longrightarrow> mode_confined Q c'"
proof (induction rule: mode_step.induct)
  case (tamper w st files)
  then show ?case using confined_tamper by (auto simp: mode_confined_def)
qed (simp_all add: mode_status_confined mode_open_confined mode_evaluate_state)

lemma mode_steps_confined: "mode_steps c c' \<Longrightarrow> mode_confined Q c \<Longrightarrow> mode_confined Q c'"
  by (induction rule: mode_steps.induct) (auto intro: mode_step_confined)

lemma mode_set_Ok:
  assumes "mode_set w st mode secs clock = (w', st', Inr s)"
  shows "\<exists>expiry. mode_expiry mode secs clock = Inr expiry \<and> s = \<lparr>pm_mode = mode, pm_expires_at = expiry\<rparr> \<and>
    ms_status st' = s \<and> ms_path st' = ms_path st \<and>
    state_persist w (ms_path st) POLICY_DOMAIN (ms_generation st) s = (w', Inr (ms_generation st'))"
  using assms
  by (auto simp: mode_set_def Let_def mode_persist_def split: sum.splits prod.splits)

lemma mode_set_confined:
  assumes "codec_ok w" "mode_set w st mode secs clock = (w', st', Inr s)" "Q policy_mode_status_default" "Q s"
  shows "mode_confined Q (w', st')"
proof -
  from mode_set_Ok [OF assms(2)] have st: "ms_status st' = s" "ms_path st' = ms_path st"
    and p: "state_persist w (ms_path st) POLICY_DOMAIN (ms_generation st) s = (w', Inr (ms_generation st'))"
    by auto
  from confined_after_persist [where Q = Q, OF assms(1) p assms(4)] st assms(3,4) show ?thesis
    by (simp add: mode_confined_def)
qed

lemma mode_expiry_timed:
  "mode_expiry AuditOnly (Some secs) clock = Inr expiry \<Longrightarrow> expiry = Some (now_unix clock + int secs)"
  by (auto simp: mode_expiry_def and_then_eq_Inr i64_try_from_u64_def checked_add_i64_def split: if_splits)

text \<open>(C27) A timed audit-only override ends on time. Once it was set for \<open>secs\<close> seconds, then whatever
  queries, daemon restarts, input and output failures and rewrites of the state file follow (short
  of another call that sets the mode, and of forging an HMAC), every decision evaluated at or after
  the deadline is the configured one.\<close>

theorem timed_override_expires:
  assumes "codec_ok w" "mode_set w st AuditOnly (Some secs) clock = (w1, st1, Inr s)"
    and "mode_steps (w1, st1) (w2, st2)" "now_unix clock + int secs \<le> now_unix clock2"
  shows "effective_enforcement (snd (snd (mode_evaluate w2 st2 clock2 e))) = e"
proof -
  define Q where "Q = (\<lambda>m. m = policy_mode_status_default \<or> m = s)"
  have s: "s = \<lparr>pm_mode = AuditOnly, pm_expires_at = Some (now_unix clock + int secs)\<rparr>"
    using mode_set_Ok [OF assms(2)] mode_expiry_timed by blast
  have "mode_confined Q (w1, st1)"
    by (rule mode_set_confined [OF assms(1,2)]) (simp_all add: Q_def)
  from mode_steps_confined [OF assms(3) this] have "ms_status st2 = policy_mode_status_default \<or> ms_status st2 = s"
    by (simp add: mode_confined_def Q_def)
  then have "pm_mode (snd (snd (mode_status w2 st2 clock2))) = NormalMode"
    using assms(4) s by (auto simp: mode_status_value is_expired_def policy_mode_status_default_def)
  then show ?thesis
    by (simp add: mode_evaluate_effective project_enforcement_def)
qed

lemma example_path_parent: "path_parent ''/s/m'' = Some ''/s''"
  by (simp add: path_parent_def path_body_def trim_back_def has_root_def body_string_def keep_head_def redundant_def)

lemma example_mode_set:
  "mode_set (example_mode_world []) example_mode_state AuditOnly (Some 10) 100 =
     (fst (mode_set (example_mode_world []) example_mode_state AuditOnly (Some 10) 100),
      fst (snd (mode_set (example_mode_world []) example_mode_state AuditOnly (Some 10) 100)),
      Inr \<lparr>pm_mode = AuditOnly, pm_expires_at = Some 110\<rparr>)"
  by (simp add: prod_eq_iff mode_set_def mode_expiry_def arith_defs mode_persist_def example_mode_state_def
      example_mode_world_def state_persist_def persist_next_def Let_def next_fault_def pop_fault_def no_fault_def
      checkpoint_load_def write_private_atomic_def checkpoint_store_def example_path_parent)

theorem timed_override_expires_witness:
  "(let (w1, st1, r) = mode_set (example_mode_world []) example_mode_state AuditOnly (Some 10) 100;
        (w2, st2) = mode_open w1 ''/s/m'' 105
    in effective_enforcement (snd (snd (mode_evaluate w2 st2 110 TouchId))) = TouchId)"
proof -
  let ?w1 = "fst (mode_set (example_mode_world []) example_mode_state AuditOnly (Some 10) 100)"
  let ?st1 = "fst (snd (mode_set (example_mode_world []) example_mode_state AuditOnly (Some 10) 100))"
  let ?c2 = "mode_open ?w1 ''/s/m'' 105"
  have "ms_path ?st1 = ''/s/m''"
    using mode_set_Ok [OF example_mode_set] by (auto simp: example_mode_state_def)
  then have "mode_steps (?w1, ?st1) (fst ?c2, snd ?c2)"
    using mode_steps.step [OF mode_steps.refl mode_step.reopen [of ?w1 ?st1 105]] by simp
  from timed_override_expires [OF example_mode_codec example_mode_set this, of 110 TouchId] show ?thesis
    by (simp add: now_unix_def case_prod_beta Let_def)
qed

text \<open>A mode that was set survives a restart of the daemon: reopening the state, with no failure
  of the load, before the mode expires yields exactly the mode that was set.\<close>

theorem set_mode_survives_restart:
  assumes "codec_ok w" "mode_set w st mode secs clock = (w1, st1, Inr s)"
    and "\<not> cf_checkpoint_load_fails (next_fault w1)" "\<not> cf_read_fails (next_fault w1)"
    and "\<not> is_expired clock2 s"
  shows "ms_status (snd (mode_open w1 (ms_path st) clock2)) = s \<and>
    ms_generation (snd (mode_open w1 (ms_path st) clock2)) = ms_generation st1"
proof -
  from mode_set_Ok [OF assms(2)]
  have p: "state_persist w (ms_path st) POLICY_DOMAIN (ms_generation st) s = (w1, Inr (ms_generation st1))" by auto
  have "codec_ok w1" using authenticator.persist_trusted [OF assms(1)] p by (metis fst_conv)
  from holds_state_load [OF this] authenticator.persist_holds [OF p] assms(3,4)
  have "state_load w1 (ms_path st) POLICY_DOMAIN =
      (pop_fault w1, Inr \<lparr>ls_value = Some s, ls_generation = ms_generation st1\<rparr>)" by auto
  with assms(5) show ?thesis
    by (simp add: mode_open_def mode_status_def)
qed

theorem set_mode_survives_restart_witness:
  "ms_status (snd (mode_open (fst (mode_set (example_mode_world []) example_mode_state AuditOnly (Some 10) 100))
     ''/s/m'' 105)) = \<lparr>pm_mode = AuditOnly, pm_expires_at = Some 110\<rparr>"
proof -
  let ?w1 = "fst (mode_set (example_mode_world []) example_mode_state AuditOnly (Some 10) 100)"
  have "aw_faults ?w1 = []"
    by (simp add: mode_set_def mode_expiry_def arith_defs mode_persist_def example_mode_state_def
      example_mode_world_def state_persist_def persist_next_def Let_def next_fault_def pop_fault_def no_fault_def
      checkpoint_load_def write_private_atomic_def checkpoint_store_def example_path_parent)
  then have "next_fault ?w1 = no_fault" by (simp add: next_fault_def)
  from set_mode_survives_restart [OF example_mode_codec example_mode_set, of 105] this show ?thesis
    by (simp add: no_fault_def is_expired_def now_unix_def example_mode_state_def)
qed

end
