(* ===== verification/Grant_Cache.thy ===== *)
theory Grant_Cache
  imports Rules Integrity
begin

text \<open>
  \<open>floria-agent/src/grant_cache.rs\<close>: remembered user decisions. Entries are keyed by subject,
  object, operation and enforcement; timed entries expire on the monotonic clock and are written to
  the authenticated state file with their wall-clock expiry, entries bounded by the login session
  stay in memory. Every operation takes a reading of both clocks; durations and instants are in
  nanoseconds.
\<close>

section \<open>Data\<close>

definition SCHEMA_VERSION :: nat where "SCHEMA_VERSION = 4"
definition GRANT_DOMAIN :: string where "GRANT_DOMAIN = ''authorization-grants''"
definition NANOS :: nat where "NANOS = 1000000000"
definition MAXIMUM_TTL :: nat where "MAXIMUM_TTL = 26 * 60 * 60 * NANOS"

record clocks =
  cl_unix :: int
  cl_instant :: nat

datatype grant_scope = ScopeTimed | ScopeToday | ScopeUntilLock

fun grant_scope_as_str :: "grant_scope \<Rightarrow> string" where
  "grant_scope_as_str ScopeTimed = ''timed''"
| "grant_scope_as_str ScopeToday = ''today''"
| "grant_scope_as_str ScopeUntilLock = ''until_lock''"

datatype grant_lifetime = TimedFor nat grant_scope | WhileUnlocked

record grant_key =
  gk_subject :: string
  gk_object :: string
  gk_operation :: operation
  gk_enforcement :: enforcement

record grant_metadata =
  gm_client :: string
  gm_executable :: "string option"
  gm_bundle_id :: "string option"
  gm_target :: string

record active_grant =
  ag_allowed :: bool
  ag_id :: string
  ag_subject :: string
  ag_object :: string
  ag_operation :: operation
  ag_enforcement :: enforcement
  ag_scope :: grant_scope
  ag_expires_at :: "int option"
  ag_metadata :: grant_metadata

datatype record_lifetime = Deadline nat int grant_scope | UntilLock

record grant_record =
  gr_allowed :: bool
  gr_lifetime :: record_lifetime
  gr_metadata :: grant_metadata

record persisted_grant =
  pg_allowed :: bool
  pg_subject :: string
  pg_object :: string
  pg_operation :: string
  pg_enforcement :: enforcement
  pg_scope :: grant_scope
  pg_expires_at :: int
  pg_client :: string
  pg_executable :: "string option"
  pg_bundle_id :: "string option"
  pg_target :: string

record grant_document =
  gd_version :: nat
  gd_grants :: "persisted_grant list"

type_synonym grant_world = "grant_document auth_world"
type_synonym grant_entries = "(grant_key, grant_record) hash_map"

datatype grant_error =
    GrantInput string
  | GrantData string
  | GrantIntegrity integrity_error

datatype degraded_reason =
    DocumentInvalid grant_error
  | FileMissingAt nat
  | LoadFailed integrity_error
  | LoadAndCheckpointFailed integrity_error integrity_error
  | PersistFailed grant_error

record grant_cache =
  gc_path :: string
  gc_generation :: "nat option"
  gc_degraded :: "degraded_reason option"
  gc_entries :: grant_entries

section \<open>Documents\<close>

text \<open>\<open>Instant::checked_add\<close>: the seconds are an \<open>i64\<close>.\<close>

definition instant_checked_add :: "nat \<Rightarrow> nat \<Rightarrow> nat option" where
  "instant_checked_add t d = (if (t + d) div NANOS < 2 ^ 63 then Some (t + d) else None)"

definition parse_operation :: "string \<Rightarrow> grant_error + operation" where
  "parse_operation v =
     (if v = ''read'' then Inr Read
      else if v = ''write'' then Inr Write
      else if v = ''sign'' then Inr Sign
      else Inl (GrantData ''invalid persisted grant operation''))"

definition persisted_key :: "persisted_grant \<Rightarrow> operation \<Rightarrow> grant_key" where
  "persisted_key p operation = \<lparr>gk_subject = pg_subject p, gk_object = pg_object p,
     gk_operation = operation, gk_enforcement = pg_enforcement p\<rparr>"

definition persisted_record :: "persisted_grant \<Rightarrow> nat \<Rightarrow> grant_record" where
  "persisted_record p monotonic =
     \<lparr>gr_allowed = pg_allowed p, gr_lifetime = Deadline monotonic (pg_expires_at p) (pg_scope p),
      gr_metadata = \<lparr>gm_client = pg_client p, gm_executable = pg_executable p,
        gm_bundle_id = pg_bundle_id p, gm_target = pg_target p\<rparr>\<rparr>"

fun load_grants :: "clocks \<Rightarrow> grant_entries \<Rightarrow> persisted_grant list \<Rightarrow> grant_error + grant_entries" where
  "load_grants c entries [] = Inr entries"
| "load_grants c entries (p # ps) =
     (if pg_expires_at p \<le> now_unix (cl_unix c) then load_grants c entries ps
      else
        let remaining = nat (pg_expires_at p - now_unix (cl_unix c)) * NANOS
        in if MAXIMUM_TTL < remaining
           then Inl (GrantData ''persisted grant expiry exceeds the 24-hour daemon limit'')
           else
             and_then (ok_or (instant_checked_add (cl_instant c) remaining)
                 (GrantData ''grant expiry is too large'')) (\<lambda>monotonic.
             and_then (parse_operation (pg_operation p)) (\<lambda>operation.
               load_grants c (hm_insert (persisted_key p operation) (persisted_record p monotonic) entries) ps)))"

definition load_document :: "clocks \<Rightarrow> grant_document \<Rightarrow> grant_error + grant_entries" where
  "load_document c doc =
     (if gd_version doc \<noteq> SCHEMA_VERSION \<and> gd_version doc \<noteq> 3
      then Inl (GrantData ''unsupported grant store schema'')
      else load_grants c [] (gd_grants doc))"

definition persisted_grant_of :: "grant_key \<times> grant_record \<Rightarrow> persisted_grant option" where
  "persisted_grant_of kr =
     (case gr_lifetime (snd kr) of
        UntilLock \<Rightarrow> None
      | Deadline _ unix scope \<Rightarrow>
          Some \<lparr>pg_allowed = gr_allowed (snd kr), pg_subject = gk_subject (fst kr),
            pg_object = gk_object (fst kr), pg_operation = operation_as_str (gk_operation (fst kr)),
            pg_enforcement = gk_enforcement (fst kr), pg_scope = scope, pg_expires_at = unix,
            pg_client = gm_client (gr_metadata (snd kr)),
            pg_executable = gm_executable (gr_metadata (snd kr)),
            pg_bundle_id = gm_bundle_id (gr_metadata (snd kr)),
            pg_target = gm_target (gr_metadata (snd kr))\<rparr>)"

definition persisted_order :: "persisted_grant \<Rightarrow> string \<times> string \<times> string \<times> string" where
  "persisted_order p =
     (pg_subject p, pg_object p, pg_operation p, enforcement_as_str (pg_enforcement p))"

definition persisted_document :: "grant_entries \<Rightarrow> grant_document" where
  "persisted_document entries =
     \<lparr>gd_version = SCHEMA_VERSION,
      gd_grants = sort_key persisted_order (List.map_filter persisted_grant_of entries)\<rparr>"

section \<open>Persistence\<close>

text \<open>The two attempts of \<open>persist_authenticated\<close>: after a failure the generation is refreshed
  from the checkpoint. The result is the generation left behind and the outcome.\<close>

fun persist_attempts ::
    "nat \<Rightarrow> grant_world \<Rightarrow> string \<Rightarrow> nat \<Rightarrow> grant_document \<Rightarrow> integrity_error option \<Rightarrow>
      grant_world \<times> nat \<times> (integrity_error option + nat)" where
  "persist_attempts 0 w path generation doc first_error = (w, generation, Inl first_error)"
| "persist_attempts (Suc n) w path generation doc first_error =
     (case state_persist w path GRANT_DOMAIN generation doc of
        (w1, Inr next) \<Rightarrow> (w1, generation, Inr next)
      | (w1, Inl e) \<Rightarrow>
          (let first_error = Some (unwrap_or first_error e)
           in case checkpoint_generation w1 GRANT_DOMAIN of
                (w2, Inr current) \<Rightarrow> persist_attempts n w2 path current doc first_error
              | (w2, Inl _) \<Rightarrow> (w2, generation, Inl first_error)))"

definition persist_authenticated ::
    "grant_world \<Rightarrow> grant_cache \<Rightarrow> grant_world \<times> grant_cache \<times> (grant_error + unit)" where
  "persist_authenticated w gc =
     (case (case gc_generation gc of
              Some generation \<Rightarrow> (w, Inr generation)
            | None \<Rightarrow> checkpoint_generation w GRANT_DOMAIN) of
        (w1, Inl e) \<Rightarrow> (w1, gc, Inl (GrantIntegrity e))
      | (w1, Inr generation) \<Rightarrow>
          (case persist_attempts 2 w1 (gc_path gc) generation (persisted_document (gc_entries gc)) None of
             (w2, _, Inr next) \<Rightarrow> (w2, gc\<lparr>gc_generation := Some next, gc_degraded := None\<rparr>, Inr ())
           | (w2, generation', Inl first_error) \<Rightarrow>
               (w2, gc\<lparr>gc_generation := Some generation'\<rparr>,
                Inl (case first_error of
                       Some e \<Rightarrow> GrantIntegrity e
                     | None \<Rightarrow> GrantData ''grant persistence failed''))))"

definition persist_best_effort :: "grant_world \<Rightarrow> grant_cache \<Rightarrow> grant_world \<times> grant_cache" where
  "persist_best_effort w gc =
     (case persist_authenticated w gc of
        (w', gc', Inl e) \<Rightarrow> (w', gc'\<lparr>gc_degraded := Some (PersistFailed e)\<rparr>)
      | (w', gc', Inr _) \<Rightarrow> (w', gc'))"

text \<open>Quarantine of a rejected file: renamed beside the original under a fresh name. How far it got
  is decided by the environment; a failure is only logged.\<close>

definition quarantine_rejected_state :: "grant_world \<Rightarrow> string \<Rightarrow> string \<Rightarrow> effect \<Rightarrow> grant_world" where
  "quarantine_rejected_state w path uuid fault =
     (case aw_files w path of
        None \<Rightarrow> w
      | Some f \<Rightarrow>
     (case path_parent path of
        None \<Rightarrow> w
      | Some parent \<Rightarrow>
          (let target = path_join parent (unwrap_or (file_name path) ''grants.json'' @ ''.rejected-'' @ uuid);
               moved = (aw_files w)(path := None)
           in case fault of
                FailedBefore \<Rightarrow> w
              | FailedAfter \<Rightarrow> w\<lparr>aw_files := moved(target \<mapsto> f)\<rparr>
              | Done \<Rightarrow> w\<lparr>aw_files := moved(target \<mapsto> (if sf_regular f then f\<lparr>sf_mode := 0x180\<rparr> else f))\<rparr>)))"

definition reject_persisted_state ::
    "grant_world \<Rightarrow> grant_cache \<Rightarrow> string \<Rightarrow> effect \<Rightarrow> grant_world \<times> grant_cache" where
  "reject_persisted_state w gc uuid fault =
     persist_best_effort (quarantine_rejected_state w (gc_path gc) uuid fault) gc"

definition loaded_grants ::
    "grant_world \<Rightarrow> string \<Rightarrow> clocks \<Rightarrow> grant_world \<times> grant_entries \<times> nat option \<times> degraded_reason option" where
  "loaded_grants w path c =
     (case state_load w path GRANT_DOMAIN of
        (w1, Inr loaded) \<Rightarrow>
          (case ls_value loaded of
             Some doc \<Rightarrow>
               (case load_document c doc of
                  Inr entries \<Rightarrow> (w1, entries, Some (ls_generation loaded), None)
                | Inl e \<Rightarrow> (w1, [], Some (ls_generation loaded), Some (DocumentInvalid e)))
           | None \<Rightarrow>
               if ls_generation loaded = 0 then (w1, [], Some 0, None)
               else (w1, [], Some (ls_generation loaded), Some (FileMissingAt (ls_generation loaded))))
      | (w1, Inl e) \<Rightarrow>
          (case checkpoint_generation w1 GRANT_DOMAIN of
             (w2, Inr generation) \<Rightarrow> (w2, [], Some generation, Some (LoadFailed e))
           | (w2, Inl ce) \<Rightarrow> (w2, [], None, Some (LoadAndCheckpointFailed e ce))))"

definition grant_cache_open ::
    "grant_world \<Rightarrow> string \<Rightarrow> clocks \<Rightarrow> string \<Rightarrow> effect \<Rightarrow> grant_world \<times> grant_cache" where
  "grant_cache_open w path c uuid fault =
     (case loaded_grants w path c of
        (w', entries, generation, rejected) \<Rightarrow>
          (let gc = \<lparr>gc_path = path, gc_generation = generation, gc_degraded = rejected, gc_entries = entries\<rparr>
           in case rejected of
                None \<Rightarrow> (w', gc)
              | Some _ \<Rightarrow> reject_persisted_state w' gc uuid fault))"

section \<open>Operations\<close>

definition grant_decision ::
    "grant_world \<Rightarrow> grant_cache \<Rightarrow> clocks \<Rightarrow> grant_key \<Rightarrow> grant_world \<times> grant_cache \<times> bool option" where
  "grant_decision w gc c key =
     (case hm_get (gc_entries gc) key of
        None \<Rightarrow> (w, gc, None)
      | Some r \<Rightarrow>
          (case gr_lifetime r of
             UntilLock \<Rightarrow> (w, gc, Some (gr_allowed r))
           | Deadline monotonic _ _ \<Rightarrow>
               if cl_instant c < monotonic then (w, gc, Some (gr_allowed r))
               else (case persist_best_effort w (gc\<lparr>gc_entries := hm_remove key (gc_entries gc)\<rparr>) of
                       (w', gc') \<Rightarrow> (w', gc', None))))"

definition record_lifetime_of :: "clocks \<Rightarrow> grant_lifetime \<Rightarrow> grant_error + record_lifetime" where
  "record_lifetime_of c lifetime =
     (case lifetime of
        WhileUnlocked \<Rightarrow> Inr UntilLock
      | TimedFor ttl scope \<Rightarrow>
          if MAXIMUM_TTL < ttl then Inl (GrantInput ''grant TTL exceeds the 26-hour daemon limit'')
          else
            and_then (ok_or (i64_try_from_u64 (ttl div NANOS)) (GrantInput ''grant TTL is too large'')) (\<lambda>secs.
            and_then (ok_or (checked_add_i64 (now_unix (cl_unix c)) secs)
                (GrantInput ''grant expiry overflow'')) (\<lambda>expires_at.
            and_then (ok_or (instant_checked_add (cl_instant c) ttl)
                (GrantInput ''grant TTL is too large'')) (\<lambda>monotonic.
              Inr (Deadline monotonic expires_at scope)))))"

definition insert_decision ::
    "grant_world \<Rightarrow> grant_cache \<Rightarrow> clocks \<Rightarrow> grant_key \<Rightarrow> grant_lifetime \<Rightarrow> grant_metadata \<Rightarrow> bool \<Rightarrow>
      grant_world \<times> grant_cache \<times> (grant_error + unit)" where
  "insert_decision w gc c key lifetime metadata allowed =
     (case record_lifetime_of c lifetime of
        Inl e \<Rightarrow> (w, gc, Inl e)
      | Inr l \<Rightarrow>
          (case persist_best_effort w (gc\<lparr>gc_entries := hm_insert key
                  \<lparr>gr_allowed = allowed, gr_lifetime = l, gr_metadata = metadata\<rparr> (gc_entries gc)\<rparr>) of
             (w', gc') \<Rightarrow> (w', gc', Inr ())))"

text \<open>\<open>retain\<close> followed by a save when something was removed.\<close>

definition retain_grants ::
    "grant_world \<Rightarrow> grant_cache \<Rightarrow> (grant_key \<Rightarrow> grant_record \<Rightarrow> bool) \<Rightarrow> grant_world \<times> grant_cache \<times> bool" where
  "retain_grants w gc keep =
     (let entries = hm_retain keep (gc_entries gc); gc' = gc\<lparr>gc_entries := entries\<rparr>
      in if length entries \<noteq> length (gc_entries gc)
         then (case persist_best_effort w gc' of (w', gc'') \<Rightarrow> (w', gc'', True))
         else (w, gc', False))"

definition grant_message :: "grant_key \<Rightarrow> bytes" where
  "grant_message key = concat (map (\<lambda>field. be_bytes (length field) @ str_bytes field)
     [gk_subject key, gk_object key, operation_as_str (gk_operation key),
      enforcement_as_str (gk_enforcement key)])"

definition grant_id :: "(bytes \<Rightarrow> bytes) \<Rightarrow> packages \<Rightarrow> grant_key \<Rightarrow> string" where
  "grant_id sha256 pk key = b64url_encode pk (sha256 (grant_message key))"

definition active_grant_of :: "(bytes \<Rightarrow> bytes) \<Rightarrow> packages \<Rightarrow> grant_key \<times> grant_record \<Rightarrow> active_grant" where
  "active_grant_of sha256 pk kr =
     (let (scope, expires_at) =
            (case gr_lifetime (snd kr) of
               Deadline _ unix scope \<Rightarrow> (scope, Some unix)
             | UntilLock \<Rightarrow> (ScopeUntilLock, None))
      in \<lparr>ag_allowed = gr_allowed (snd kr), ag_id = grant_id sha256 pk (fst kr),
          ag_subject = gk_subject (fst kr), ag_object = gk_object (fst kr),
          ag_operation = gk_operation (fst kr), ag_enforcement = gk_enforcement (fst kr),
          ag_scope = scope, ag_expires_at = expires_at, ag_metadata = gr_metadata (snd kr)\<rparr>)"

definition unexpired :: "clocks \<Rightarrow> grant_record \<Rightarrow> bool" where
  "unexpired c r = (case gr_lifetime r of Deadline monotonic _ _ \<Rightarrow> cl_instant c < monotonic | UntilLock \<Rightarrow> True)"

definition grants_active ::
    "(bytes \<Rightarrow> bytes) \<Rightarrow> grant_world \<Rightarrow> grant_cache \<Rightarrow> clocks \<Rightarrow> grant_world \<times> grant_cache \<times> active_grant list" where
  "grants_active sha256 w gc c =
     (case retain_grants w gc (\<lambda>_ r. unexpired c r) of
        (w', gc', _) \<Rightarrow>
          (w', gc',
           sort_key (\<lambda>a. (ag_expires_at a, gm_client (ag_metadata a), gm_target (ag_metadata a)))
             (map (active_grant_of sha256 (aw_packages w)) (gc_entries gc'))))"

definition clear_until_lock :: "grant_world \<Rightarrow> grant_cache \<Rightarrow> grant_world \<times> grant_cache \<times> bool" where
  "clear_until_lock w gc = retain_grants w gc (\<lambda>_ r. gr_lifetime r \<noteq> UntilLock)"

definition grant_revoke ::
    "(bytes \<Rightarrow> bytes) \<Rightarrow> grant_world \<Rightarrow> grant_cache \<Rightarrow> string \<Rightarrow> grant_world \<times> grant_cache \<times> bool" where
  "grant_revoke sha256 w gc i = retain_grants w gc (\<lambda>key _. grant_id sha256 (aw_packages w) key \<noteq> i)"

definition grants_clear :: "grant_world \<Rightarrow> grant_cache \<Rightarrow> grant_world \<times> grant_cache" where
  "grants_clear w gc = persist_best_effort w (gc\<lparr>gc_entries := []\<rparr>)"

section \<open>What a cache answers\<close>

named_theorems grant_entries_simps \<open>effect of the operations on the entries\<close>

definition grant_answer :: "grant_entries \<Rightarrow> clocks \<Rightarrow> grant_key \<Rightarrow> bool option" where
  "grant_answer entries c key =
     (case hm_get entries key of None \<Rightarrow> None | Some r \<Rightarrow> if unexpired c r then Some (gr_allowed r) else None)"

lemma persist_authenticated_entries:
  "gc_entries (fst (snd (persist_authenticated w gc))) = gc_entries gc"
  "gc_path (fst (snd (persist_authenticated w gc))) = gc_path gc"
  by (auto simp: persist_authenticated_def split: sum.splits prod.splits)

lemma persist_best_effort_entries [simp, grant_entries_simps]:
  "gc_entries (snd (persist_best_effort w gc)) = gc_entries gc"
  "gc_path (snd (persist_best_effort w gc)) = gc_path gc"
  using persist_authenticated_entries [of w gc]
  by (auto simp: persist_best_effort_def split: sum.splits prod.splits)

lemma grant_decision_answer: "snd (snd (grant_decision w gc c key)) = grant_answer (gc_entries gc) c key"
  by (auto simp: grant_decision_def grant_answer_def unexpired_def case_prod_beta
      split: option.splits record_lifetime.splits)

lemma grant_decision_entries [grant_entries_simps]:
  "gc_entries (fst (snd (grant_decision w gc c key))) =
     (case hm_get (gc_entries gc) key of
        None \<Rightarrow> gc_entries gc
      | Some r \<Rightarrow> if unexpired c r then gc_entries gc else hm_remove key (gc_entries gc))"
  by (auto simp: grant_decision_def unexpired_def case_prod_beta split: option.splits record_lifetime.splits)

lemma retain_grants_entries [grant_entries_simps]:
  "gc_entries (fst (snd (retain_grants w gc keep))) = hm_retain keep (gc_entries gc)"
  by (simp add: retain_grants_def Let_def case_prod_beta)

lemma retain_grants_removed:
  "snd (snd (retain_grants w gc keep)) \<longleftrightarrow> (\<exists>(k, r) \<in> set (gc_entries gc). \<not> keep k r)"
  by (auto simp: retain_grants_def Let_def case_prod_beta hm_retain_def length_filter_eq)

lemma clear_until_lock_entries [grant_entries_simps]:
  "gc_entries (fst (snd (clear_until_lock w gc))) = hm_retain (\<lambda>_ r. gr_lifetime r \<noteq> UntilLock) (gc_entries gc)"
  by (simp add: clear_until_lock_def retain_grants_entries)

lemma grant_revoke_entries [grant_entries_simps]:
  "gc_entries (fst (snd (grant_revoke sha w gc i))) =
     hm_retain (\<lambda>k _. grant_id sha (aw_packages w) k \<noteq> i) (gc_entries gc)"
  by (simp add: grant_revoke_def retain_grants_entries)

lemma grants_clear_entries [grant_entries_simps]: "gc_entries (snd (grants_clear w gc)) = []"
  by (simp add: grants_clear_def)

lemma grants_active_entries [grant_entries_simps]:
  "gc_entries (fst (snd (grants_active sha w gc c))) = hm_retain (\<lambda>_ r. unexpired c r) (gc_entries gc)"
  by (simp add: grants_active_def case_prod_beta retain_grants_entries)

lemma insert_decision_Ok:
  assumes "insert_decision w gc c key l m a = (w', gc', Inr u)"
  obtains rl where "record_lifetime_of c l = Inr rl"
    "gc_entries gc' = hm_insert key \<lparr>gr_allowed = a, gr_lifetime = rl, gr_metadata = m\<rparr> (gc_entries gc)"
proof -
  from assms obtain rl where rl: "record_lifetime_of c l = Inr rl"
    and p: "persist_best_effort w (gc\<lparr>gc_entries := hm_insert key
        \<lparr>gr_allowed = a, gr_lifetime = rl, gr_metadata = m\<rparr> (gc_entries gc)\<rparr>) = (w', gc')"
    by (auto simp: insert_decision_def split: sum.splits prod.splits)
  from persist_best_effort_entries(1) [of w "gc\<lparr>gc_entries := hm_insert key
        \<lparr>gr_allowed = a, gr_lifetime = rl, gr_metadata = m\<rparr> (gc_entries gc)\<rparr>"] p
  have "gc_entries gc' = hm_insert key \<lparr>gr_allowed = a, gr_lifetime = rl, gr_metadata = m\<rparr> (gc_entries gc)"
    by simp
  with rl show thesis by (rule that)
qed

lemma insert_decision_Err: "insert_decision w gc c key l m a = (w', gc', Inl e) \<Longrightarrow> w' = w \<and> gc' = gc"
  by (auto simp: insert_decision_def split: sum.splits prod.splits)

lemma record_lifetime_of_Timed:
  "record_lifetime_of c (TimedFor ttl scope) = Inr rl \<Longrightarrow>
   ttl \<le> MAXIMUM_TTL \<and> rl = Deadline (cl_instant c + ttl) (now_unix (cl_unix c) + int (ttl div NANOS)) scope"
  by (auto simp: record_lifetime_of_def and_then_eq_Inr arith_defs instant_checked_add_def split: if_splits)

lemma record_lifetime_of_WhileUnlocked [simp]: "record_lifetime_of c WhileUnlocked = Inr UntilLock"
  by (simp add: record_lifetime_of_def)

section \<open>The contract of a decision cache\<close>

text \<open>How long a lifetime granted at one time is good for.\<close>

fun good_until :: "clocks \<Rightarrow> grant_lifetime \<Rightarrow> clocks \<Rightarrow> bool" where
  "good_until c (TimedFor ttl scope) c' \<longleftrightarrow> cl_instant c' < cl_instant c + ttl"
| "good_until c WhileUnlocked c' \<longleftrightarrow> True"

locale decision_cache =
  fixes query :: "'s \<Rightarrow> 't \<Rightarrow> 'k \<Rightarrow> 's \<times> bool option"
    and insert :: "'s \<Rightarrow> 't \<Rightarrow> 'k \<Rightarrow> 'l \<Rightarrow> 'm \<Rightarrow> bool \<Rightarrow> 's \<times> ('e + unit)"
    and clear :: "'s \<Rightarrow> 's"
    and good :: "'t \<Rightarrow> 'l \<Rightarrow> 't \<Rightarrow> bool"
    and later :: "'t \<Rightarrow> 't \<Rightarrow> bool"
  assumes query_inserted: "insert s t k l m a = (s', Inr u) \<Longrightarrow>
      snd (query s' t' k) = (if good t l t' then Some a else None)"
    and query_other: "insert s t k l m a = (s', r) \<Longrightarrow> k' \<noteq> k \<Longrightarrow> snd (query s' t' k') = snd (query s t' k')"
    and refused_insert: "insert s t k l m a = (s', Inl e) \<Longrightarrow> s' = s"
    and query_cleared: "snd (query (clear s) t k) = None"
    and query_stable: "later t t' \<Longrightarrow> snd (query (fst (query s t k)) t' k') = snd (query s t' k')"
begin

text \<open>A miss is not turned into a hit by anything but an insert under the same key.\<close>

lemma miss_persists:
  assumes "snd (query s t' k) = None" "later t t'"
  shows "snd (query (fst (query s t k')) t' k) = None"
    and "insert s t k' l m a = (s', r) \<Longrightarrow> k' \<noteq> k \<Longrightarrow> snd (query s' t' k) = None"
    and "snd (query (clear s) t' k) = None"
  using assms query_stable query_other query_cleared by metis+

text \<open>The answer given is the last decision the user gave under that key.\<close>

lemma last_insert_wins:
  assumes "insert s t k l m a = (s1, Inr u)" "insert s1 t1 k l1 m1 b = (s2, Inr u')" "good t1 l1 t'"
  shows "snd (query s2 t' k) = Some b"
  using assms query_inserted by metis

end

definition query_grant where
  "query_grant s c k = (case grant_decision (fst s) (snd s) c k of (w, gc, r) \<Rightarrow> ((w, gc), r))"

definition insert_grant where
  "insert_grant s c k l m a = (case insert_decision (fst s) (snd s) c k l m a of (w, gc, r) \<Rightarrow> ((w, gc), r))"

definition clear_all where
  "clear_all s = grants_clear (fst s) (snd s)"

definition not_before :: "clocks \<Rightarrow> clocks \<Rightarrow> bool" where
  "not_before c c' \<longleftrightarrow> cl_instant c \<le> cl_instant c'"

lemma query_grant_answer: "snd (query_grant s c k) = grant_answer (gc_entries (snd s)) c k"
  using grant_decision_answer by (simp add: query_grant_def case_prod_beta)

lemma unexpired_later: "not_before c c' \<Longrightarrow> unexpired c' r \<Longrightarrow> unexpired c r"
  by (auto simp: unexpired_def not_before_def split: record_lifetime.splits)

interpretation grants: decision_cache query_grant insert_grant clear_all good_until not_before
proof
  fix s s' :: "grant_world \<times> grant_cache" and t t' k k' l m a u r e
  show "snd (query_grant s' t' k) = (if good_until t l t' then Some a else None)"
    if "insert_grant s t k l m a = (s', Inr u)"
  proof -
    from that have i: "insert_decision (fst s) (snd s) t k l m a = (fst s', snd s', Inr u)"
      by (auto simp: insert_grant_def split: prod.splits)
    show ?thesis
      by (rule insert_decision_Ok [OF i], cases l)
        (auto simp: query_grant_answer grant_answer_def unexpired_def dest: record_lifetime_of_Timed)
  qed
  show "snd (query_grant s' t' k') = snd (query_grant s t' k')"
    if "insert_grant s t k l m a = (s', r)" "k' \<noteq> k"
  proof -
    from that have i: "insert_decision (fst s) (snd s) t k l m a = (fst s', snd s', r)"
      by (auto simp: insert_grant_def split: prod.splits)
    show ?thesis
    proof (cases r)
      case (Inl e')
      then show ?thesis using insert_decision_Err [OF i [unfolded Inl]] by (simp add: query_grant_answer)
    next
      case (Inr u')
      show ?thesis
        by (rule insert_decision_Ok [OF i [unfolded Inr]]) (use that in \<open>simp add: query_grant_answer grant_answer_def\<close>)
    qed
  qed
  show "s' = s" if "insert_grant s t k l m a = (s', Inl e)"
  proof -
    from that have "insert_decision (fst s) (snd s) t k l m a = (fst s', snd s', Inl e)"
      by (auto simp: insert_grant_def split: prod.splits)
    from insert_decision_Err [OF this] show ?thesis by (simp add: prod_eq_iff)
  qed
  show "snd (query_grant (clear_all s) t k) = None"
    by (simp add: query_grant_answer clear_all_def grants_clear_entries grant_answer_def)
  show "snd (query_grant (fst (query_grant s t k)) t' k') = snd (query_grant s t' k')" if "not_before t t'"
  proof -
    have "gc_entries (snd (fst (query_grant s t k))) = gc_entries (fst (snd (grant_decision (fst s) (snd s) t k)))"
      by (simp add: query_grant_def case_prod_beta)
    then show ?thesis using unexpired_later [OF that]
      by (auto simp: query_grant_answer grant_decision_entries grant_answer_def split: option.splits)
  qed
qed

section \<open>Documents and entries\<close>

text \<open>The entry a persisted grant stands for at a given time, when it is still alive.\<close>

definition revived :: "clocks \<Rightarrow> grant_record \<Rightarrow> grant_record option" where
  "revived c r =
     (case gr_lifetime r of
        UntilLock \<Rightarrow> None
      | Deadline _ unix scope \<Rightarrow>
          if unix \<le> now_unix (cl_unix c) then None
          else Some (r\<lparr>gr_lifetime := Deadline
                 (cl_instant c + nat (unix - now_unix (cl_unix c)) * NANOS) unix scope\<rparr>))"

definition loadable :: "clocks \<Rightarrow> grant_record \<Rightarrow> bool" where
  "loadable c r =
     (case gr_lifetime r of
        UntilLock \<Rightarrow> True
      | Deadline _ unix _ \<Rightarrow>
          unix \<le> now_unix (cl_unix c) + int (MAXIMUM_TTL div NANOS))"

lemma parse_operation_as_str [simp]: "parse_operation (operation_as_str op) = Inr op"
  by (cases op) (simp_all add: parse_operation_def)

lemma instant_checked_add_small:
  assumes "t div NANOS + MAXIMUM_TTL div NANOS + 1 < 2 ^ 63" "d \<le> MAXIMUM_TTL"
  shows "instant_checked_add t d = Some (t + d)"
proof -
  have "(t + d) div NANOS \<le> (t + MAXIMUM_TTL) div NANOS" using assms(2) by (intro div_le_mono) simp
  also have "\<dots> = t div NANOS + MAXIMUM_TTL div NANOS"
    by (simp add: MAXIMUM_TTL_def NANOS_def)
  finally show ?thesis using assms(1) by (simp add: instant_checked_add_def)
qed

lemma remaining_bound:
  assumes "unix \<le> now + int (MAXIMUM_TTL div NANOS)"
  shows "nat (unix - now) * NANOS \<le> MAXIMUM_TTL"
proof -
  have "nat (unix - now) \<le> MAXIMUM_TTL div NANOS" using assms by linarith
  then have "nat (unix - now) * NANOS \<le> MAXIMUM_TTL div NANOS * NANOS" by (rule mult_le_mono1)
  then show ?thesis by (simp add: MAXIMUM_TTL_def)
qed

definition revive_persisted :: "clocks \<Rightarrow> persisted_grant \<Rightarrow> (grant_key \<times> grant_record) option" where
  "revive_persisted c p =
     (if pg_expires_at p \<le> now_unix (cl_unix c) then None
      else Some (persisted_key p (projr (parse_operation (pg_operation p))),
        persisted_record p (cl_instant c + nat (pg_expires_at p - now_unix (cl_unix c)) * NANOS)))"

lemma set_map_filter: "y \<in> set (List.map_filter f xs) \<longleftrightarrow> (\<exists>x \<in> set xs. f x = Some y)"
  by (induction xs) (auto simp: List.map_filter_simps split: option.splits)

lemma load_grants_Ok:
  assumes "cl_instant c div NANOS + MAXIMUM_TTL div NANOS + 1 < 2 ^ 63"
    and "\<And>p. p \<in> set ps \<Longrightarrow> pg_expires_at p \<le> now_unix (cl_unix c) + int (MAXIMUM_TTL div NANOS) \<and>
      is_ok (parse_operation (pg_operation p))"
  shows "load_grants c acc ps = Inr (hm_insert_all acc (List.map_filter (revive_persisted c) ps))"
  using assms(2)
proof (induction ps arbitrary: acc)
  case (Cons p ps)
  let ?rem = "nat (pg_expires_at p - now_unix (cl_unix c)) * NANOS"
  have rem: "?rem \<le> MAXIMUM_TTL" using Cons.prems [of p] by (intro remaining_bound) simp
  obtain op where op: "parse_operation (pg_operation p) = Inr op"
    using Cons.prems [of p] by (auto simp: is_ok_iff)
  show ?case using Cons.IH Cons.prems rem instant_checked_add_small [OF assms(1) rem]
    by (simp add: List.map_filter_simps revive_persisted_def op Let_def not_less)
qed (simp add: List.map_filter_simps)

lemma persisted_grant_of_facts:
  assumes "persisted_grant_of (k, r) = Some p"
  shows "revive_persisted c p = map_option (Pair k) (revived c r)"
    "loadable c r \<Longrightarrow> pg_expires_at p \<le> now_unix (cl_unix c) + int (MAXIMUM_TTL div NANOS)"
    "is_ok (parse_operation (pg_operation p))"
  using assms
  by (auto simp: persisted_grant_of_def revive_persisted_def revived_def loadable_def persisted_key_def
      persisted_record_def split: record_lifetime.splits)

lemma persisted_grants_set:
  "p \<in> set (gd_grants (persisted_document entries)) \<longleftrightarrow>
   (\<exists>k r. (k, r) \<in> set entries \<and> persisted_grant_of (k, r) = Some p)"
  by (auto simp: persisted_document_def set_map_filter)

lemma revived_grants_set:
  "(k, r') \<in> set (List.map_filter (revive_persisted c) (gd_grants (persisted_document entries))) \<longleftrightarrow>
   (\<exists>r. (k, r) \<in> set entries \<and> revived c r = Some r')" (is "?l \<longleftrightarrow> ?r")
proof
  assume ?l
  then obtain p k0 r where "revive_persisted c p = Some (k, r')" "(k0, r) \<in> set entries"
    "persisted_grant_of (k0, r) = Some p"
    by (auto simp: set_map_filter persisted_grants_set)
  with persisted_grant_of_facts(1) [of k0 r p c] show ?r by (cases "revived c r") auto
next
  assume ?r
  then obtain r where r: "(k, r) \<in> set entries" "revived c r = Some r'" by blast
  then obtain p where p: "persisted_grant_of (k, r) = Some p"
    by (auto simp: revived_def persisted_grant_of_def split: record_lifetime.splits)
  then have "p \<in> set (gd_grants (persisted_document entries))"
    using r(1) persisted_grants_set by blast
  moreover have "revive_persisted c p = Some (k, r')"
    using persisted_grant_of_facts(1) [OF p, of c] r(2) by simp
  ultimately show ?l unfolding set_map_filter by blast
qed

text \<open>The persisted document keeps exactly the timed decisions: read back later, with the clock
  not more than 26 hours before any expiry, every timed entry that has not expired comes back with
  its verdict, scope and wall-clock expiry and a deadline of the remaining time; expired entries and
  those bounded by the login session do not.\<close>

theorem grant_document_roundtrip:
  assumes wf: "hm_wf entries" and inst: "cl_instant c div NANOS + MAXIMUM_TTL div NANOS + 1 < 2 ^ 63"
    and ok: "\<forall>(k, r) \<in> set entries. loadable c r"
  shows "\<exists>m. load_document c (persisted_document entries) = Inr m \<and> hm_wf m \<and>
    (\<forall>k. hm_get m k = Option.bind (hm_get entries k) (revived c))"
proof (intro exI conjI allI)
  let ?kvs = "List.map_filter (revive_persisted c) (gd_grants (persisted_document entries))"
  note mem = revived_grants_set [of _ _ c entries]
  show "load_document c (persisted_document entries) = Inr (hm_insert_all [] ?kvs)"
  proof -
    have "load_grants c [] (gd_grants (persisted_document entries)) = Inr (hm_insert_all [] ?kvs)"
      by (rule load_grants_Ok [OF inst]) (use ok persisted_grant_of_facts in \<open>fastforce simp: persisted_grants_set\<close>)
    then show ?thesis by (simp add: load_document_def persisted_document_def)
  qed
  show "hm_wf (hm_insert_all [] ?kvs)" by simp
  fix k
  have fn: "(k, r) \<in> set entries \<Longrightarrow> (k, r') \<in> set entries \<Longrightarrow> r = r'" for k r r'
    using wf by (metis hm_get_iff_mem option.inject)
  have "hm_get (hm_insert_all [] ?kvs) k = Some r' \<longleftrightarrow> (k, r') \<in> set ?kvs" for r'
    by (rule hm_get_insert_all) (use fn in \<open>fastforce simp: mem\<close>)
  then have "hm_get (hm_insert_all [] ?kvs) k = Some r' \<longleftrightarrow> Option.bind (hm_get entries k) (revived c) = Some r'" for r'
    by (auto simp: mem bind_eq_Some_conv hm_get_iff_mem [OF wf])
  then show "hm_get (hm_insert_all [] ?kvs) k = Option.bind (hm_get entries k) (revived c)"
    by (metis not_None_eq)
qed

definition example_key :: "operation \<Rightarrow> grant_key" where
  "example_key op = \<lparr>gk_subject = ''team:T'', gk_object = ''secrets/a'', gk_operation = op,
     gk_enforcement = Prompt\<rparr>"

definition example_metadata :: grant_metadata where
  "example_metadata = \<lparr>gm_client = ''git'', gm_executable = None, gm_bundle_id = None, gm_target = ''a''\<rparr>"

definition example_entries :: grant_entries where
  "example_entries =
     [(example_key Write, \<lparr>gr_allowed = False, gr_lifetime = UntilLock, gr_metadata = example_metadata\<rparr>),
      (example_key Read, \<lparr>gr_allowed = True, gr_lifetime = Deadline (60 * NANOS) 160 ScopeTimed,
         gr_metadata = example_metadata\<rparr>)]"

theorem grant_document_roundtrip_witness:
  "\<exists>m. load_document \<lparr>cl_unix = 130, cl_instant = 30 * NANOS\<rparr> (persisted_document example_entries) = Inr m \<and>
     hm_get m (example_key Read) = Some \<lparr>gr_allowed = True, gr_lifetime = Deadline (60 * NANOS) 160 ScopeTimed,
       gr_metadata = example_metadata\<rparr> \<and>
     hm_get m (example_key Write) = None"
proof -
  let ?c = "\<lparr>cl_unix = 130, cl_instant = 30 * NANOS\<rparr>"
  have "hm_wf example_entries" by (simp add: hm_wf_def example_entries_def example_key_def)
  moreover have "cl_instant ?c div NANOS + MAXIMUM_TTL div NANOS + 1 < 2 ^ 63"
    by (simp add: MAXIMUM_TTL_def NANOS_def)
  moreover have "\<forall>(k, r) \<in> set example_entries. loadable ?c r"
    by (simp add: example_entries_def loadable_def MAXIMUM_TTL_def NANOS_def now_unix_def)
  ultimately obtain m where m: "load_document ?c (persisted_document example_entries) = Inr m"
    "\<And>k. hm_get m k = Option.bind (hm_get example_entries k) (revived ?c)"
    using grant_document_roundtrip [of example_entries ?c] by blast
  show ?thesis
    by (rule exI [of _ m], simp add: m)
      (simp add: hm_get_def example_entries_def example_key_def revived_def now_unix_def NANOS_def)
qed

text \<open>A remembered decision is valid exactly for its lifetime and for exactly its key: after the
  user's decision was recorded, a query for the same subject, object, operation and enforcement is
  answered with it until the lifetime ends and not after, and the answer for every other key (the
  same object with another operation included) is what it was, whether or not the decision could
  also be written to disk.\<close>

theorem remembered_decision_exact:
  assumes "insert_decision w gc c key lifetime metadata allowed = (w', gc', Inr ())"
  shows "snd (snd (grant_decision w'' gc' c' key')) =
    (if key' = key then if good_until c lifetime c' then Some allowed else None
     else snd (snd (grant_decision w gc c' key')))"
proof -
  from assms have i: "insert_grant (w, gc) c key lifetime metadata allowed = ((w', gc'), Inr ())"
    by (simp add: insert_grant_def)
  from grants.query_inserted [OF i, of c'] grants.query_other [OF i, of key' c'] show ?thesis
    by (auto simp: query_grant_answer grant_decision_answer)
qed

definition example_grant_world :: grant_world where
  "example_grant_world = \<lparr>aw_packages = example_packages, aw_key = [7], aw_ser = (\<lambda>_. None),
     aw_de = (\<lambda>_. None), aw_files = (\<lambda>_. None), aw_checkpoints = (\<lambda>_. None), aw_faults = []\<rparr>"

definition example_cache :: grant_cache where
  "example_cache = \<lparr>gc_path = ''/s/g'', gc_generation = Some 0, gc_degraded = None, gc_entries = []\<rparr>"

lemma insert_decision_surj:
  "record_lifetime_of c l = Inr rl \<Longrightarrow> insert_decision w gc c k l m a =
    (fst (insert_decision w gc c k l m a), fst (snd (insert_decision w gc c k l m a)), Inr ())"
  by (simp add: insert_decision_def case_prod_beta)

theorem remembered_decision_exact_witness:
  "(let gc = fst (snd (insert_decision example_grant_world example_cache \<lparr>cl_unix = 0, cl_instant = 5\<rparr>
        (example_key Read) (TimedFor (60 * NANOS) ScopeTimed) example_metadata True))
    in snd (snd (grant_decision example_grant_world gc \<lparr>cl_unix = 0, cl_instant = 4 + 60 * NANOS\<rparr> (example_key Read))) =
         Some True \<and>
       snd (snd (grant_decision example_grant_world gc \<lparr>cl_unix = 0, cl_instant = 5 + 60 * NANOS\<rparr> (example_key Read))) =
         None \<and>
       snd (snd (grant_decision example_grant_world gc \<lparr>cl_unix = 0, cl_instant = 6\<rparr> (example_key Write))) = None)"
proof -
  have "record_lifetime_of \<lparr>cl_unix = 0, cl_instant = 5\<rparr> (TimedFor (60 * NANOS) ScopeTimed) =
      Inr (Deadline (5 + 60 * NANOS) 60 ScopeTimed)"
    by (simp add: record_lifetime_of_def MAXIMUM_TTL_def NANOS_def arith_defs instant_checked_add_def)
  from remembered_decision_exact [OF insert_decision_surj [OF this]] show ?thesis
    by (simp add: Let_def example_key_def grant_decision_answer grant_answer_def example_cache_def)
qed

section \<open>Deadlines\<close>

text \<open>Everything that can happen to the cache, at any sequence of clock readings in which the
  monotonic clock does not run backwards: the operations, a restart (the entries are whatever the
  state file yields), and any change of the world, a forged state file included.\<close>

inductive cache_step :: "grant_world \<times> grant_cache \<times> clocks \<Rightarrow> grant_world \<times> grant_cache \<times> clocks \<Rightarrow> bool" where
  tick: "not_before c c' \<Longrightarrow> cache_step (w, gc, c) (w', gc, c')"
| query: "grant_decision w gc c key = (w', gc', r) \<Longrightarrow> cache_step (w, gc, c) (w', gc', c)"
| insert: "insert_decision w gc c key l m a = (w', gc', r') \<Longrightarrow> cache_step (w, gc, c) (w', gc', c)"
| active: "grants_active sha w gc c = (w', gc', gs) \<Longrightarrow> cache_step (w, gc, c) (w', gc', c)"
| lock: "clear_until_lock w gc = (w', gc', b) \<Longrightarrow> cache_step (w, gc, c) (w', gc', c)"
| revoke: "grant_revoke sha w gc i = (w', gc', b) \<Longrightarrow> cache_step (w, gc, c) (w', gc', c)"
| clear: "grants_clear w gc = (w', gc') \<Longrightarrow> cache_step (w, gc, c) (w', gc', c)"
| reopen: "grant_cache_open w path c uuid fault = (w', gc') \<Longrightarrow> cache_step (w, gc, c) (w', gc', c)"

inductive cache_steps :: "grant_world \<times> grant_cache \<times> clocks \<Rightarrow> grant_world \<times> grant_cache \<times> clocks \<Rightarrow> bool" where
  refl: "cache_steps s s"
| step: "cache_steps s s' \<Longrightarrow> cache_step s' s'' \<Longrightarrow> cache_steps s s''"

definition deadline_within :: "clocks \<Rightarrow> grant_record \<Rightarrow> bool" where
  "deadline_within c r =
     (case gr_lifetime r of Deadline m _ _ \<Rightarrow> m \<le> cl_instant c + MAXIMUM_TTL | UntilLock \<Rightarrow> True)"

definition entries_ok :: "clocks \<Rightarrow> grant_entries \<Rightarrow> bool" where
  "entries_ok c m \<longleftrightarrow> hm_wf m \<and> (\<forall>(k, r) \<in> set m. deadline_within c r)"

lemma entries_ok_Nil [simp]: "entries_ok c []"
  by (simp add: entries_ok_def)

lemma set_hm_insert: "set (hm_insert k v m) \<subseteq> insert (k, v) (set m)"
  unfolding hm_insert_def by (induction m) auto

lemma set_hm_remove: "set (hm_remove k m) \<subseteq> set m"
  by (auto simp: hm_remove_def AList.delete_eq)

lemma entries_ok_insert: "entries_ok c m \<Longrightarrow> deadline_within c r \<Longrightarrow> entries_ok c (hm_insert k r m)"
  using set_hm_insert [of k r m] by (fastforce simp: entries_ok_def)

lemma entries_ok_remove: "entries_ok c m \<Longrightarrow> entries_ok c (hm_remove k m)"
  using set_hm_remove [of k m] by (fastforce simp: entries_ok_def)

lemma entries_ok_retain: "entries_ok c m \<Longrightarrow> entries_ok c (hm_retain p m)"
  by (auto simp: entries_ok_def)

lemma entries_ok_later: "entries_ok c m \<Longrightarrow> not_before c c' \<Longrightarrow> entries_ok c' m"
  by (fastforce simp: entries_ok_def not_before_def deadline_within_def split: record_lifetime.splits)

lemma deadline_within_persisted:
  "instant_checked_add (cl_instant c) d = Some t \<Longrightarrow> d \<le> MAXIMUM_TTL \<Longrightarrow> deadline_within c (persisted_record p t)"
  by (auto simp: instant_checked_add_def deadline_within_def persisted_record_def split: if_splits)

lemma load_grants_entries_ok:
  "load_grants c acc ps = Inr m \<Longrightarrow> entries_ok c acc \<Longrightarrow> entries_ok c m"
proof (induction ps arbitrary: acc)
  case (Cons p ps)
  show ?case
  proof (cases "pg_expires_at p \<le> now_unix (cl_unix c)")
    case True
    with Cons show ?thesis by simp
  next
    case False
    let ?rem = "nat (pg_expires_at p - now_unix (cl_unix c)) * NANOS"
    from False Cons.prems(1) obtain t op where "?rem \<le> MAXIMUM_TTL"
      "instant_checked_add (cl_instant c) ?rem = Some t"
      and rest: "load_grants c (hm_insert (persisted_key p op) (persisted_record p t) acc) ps = Inr m"
      by (auto simp: Let_def and_then_eq_Inr split: if_splits)
    then have "deadline_within c (persisted_record p t)" by (intro deadline_within_persisted)
    with Cons.prems(2) show ?thesis by (intro Cons.IH [OF rest] entries_ok_insert)
  qed
qed simp

lemma loaded_grants_entries_ok: "entries_ok c (fst (snd (loaded_grants w path c)))"
  by (auto simp: loaded_grants_def load_document_def split: prod.splits sum.splits option.splits if_splits
      intro: load_grants_entries_ok)

lemma grant_cache_open_entries:
  "gc_entries (snd (grant_cache_open w path c uuid fault)) = fst (snd (loaded_grants w path c))"
  by (simp add: grant_cache_open_def reject_persisted_state_def case_prod_beta Let_def split: option.splits)

lemma insert_decision_entries_ok:
  assumes "entries_ok c (gc_entries gc)" "insert_decision w gc c key l m a = (w', gc', r)"
  shows "entries_ok c (gc_entries gc')"
proof (cases r)
  case (Inl e)
  with assms insert_decision_Err show ?thesis by blast
next
  case (Inr u)
  show ?thesis
  proof (rule insert_decision_Ok [OF assms(2) [unfolded Inr]])
    fix rl assume rl: "record_lifetime_of c l = Inr rl"
      and e: "gc_entries gc' = hm_insert key \<lparr>gr_allowed = a, gr_lifetime = rl, gr_metadata = m\<rparr> (gc_entries gc)"
    have "deadline_within c \<lparr>gr_allowed = a, gr_lifetime = rl, gr_metadata = m\<rparr>"
      using rl by (cases l) (auto simp: deadline_within_def dest: record_lifetime_of_Timed)
    with assms(1) e show ?thesis by (simp add: entries_ok_insert)
  qed
qed

lemma cache_step_entries_ok:
  "cache_step s s' \<Longrightarrow> entries_ok (snd (snd s)) (gc_entries (fst (snd s))) \<Longrightarrow>
   entries_ok (snd (snd s')) (gc_entries (fst (snd s')))"
proof (induction rule: cache_step.induct)
  case (query w gc c key w' gc' r)
  then have "gc' = fst (snd (grant_decision w gc c key))" by simp
  with query.prems show ?case
    by (auto simp: grant_decision_entries entries_ok_remove split: option.splits)
next
  case (insert w gc c key l m a w' gc' r')
  then show ?case using insert_decision_entries_ok by simp
next
  case (active sha w gc c w' gc' gs)
  then have "gc' = fst (snd (grants_active sha w gc c))" by simp
  with active.prems show ?case by (simp add: grants_active_entries entries_ok_retain)
next
  case (lock w gc w' gc' b c)
  then have "gc' = fst (snd (clear_until_lock w gc))" by simp
  with lock.prems show ?case by (simp add: clear_until_lock_entries entries_ok_retain)
next
  case (revoke sha w gc i w' gc' b c)
  then have "gc' = fst (snd (grant_revoke sha w gc i))" by simp
  with revoke.prems show ?case by (simp add: grant_revoke_entries entries_ok_retain)
next
  case (clear w gc w' gc' c)
  then have "gc' = snd (grants_clear w gc)" by simp
  then show ?case by (simp add: grants_clear_entries)
next
  case (reopen w path c uuid fault w' gc' gc)
  then have "gc' = snd (grant_cache_open w path c uuid fault)" by simp
  then show ?case by (simp add: grant_cache_open_entries loaded_grants_entries_ok)
qed (simp add: entries_ok_later)

lemma cache_steps_entries_ok:
  "cache_steps s s' \<Longrightarrow> entries_ok (snd (snd s)) (gc_entries (fst (snd s))) \<Longrightarrow>
   entries_ok (snd (snd s')) (gc_entries (fst (snd s')))"
  by (induction rule: cache_steps.induct) (auto intro: cache_step_entries_ok)

text \<open>Everything that may happen to the cache of a running daemon while the decision of one key is not renewed.\<close>

inductive held_step ::
    "grant_key \<Rightarrow> grant_world \<times> grant_cache \<times> clocks \<Rightarrow> grant_world \<times> grant_cache \<times> clocks \<Rightarrow> bool" for key where
  tick: "not_before c c' \<Longrightarrow> held_step key (w, gc, c) (w', gc, c')"
| query: "grant_decision w gc c k = (w', gc', r) \<Longrightarrow> held_step key (w, gc, c) (w', gc', c)"
| insert: "k \<noteq> key \<Longrightarrow> insert_decision w gc c k l m a = (w', gc', r') \<Longrightarrow> held_step key (w, gc, c) (w', gc', c)"
| active: "grants_active sha w gc c = (w', gc', gs) \<Longrightarrow> held_step key (w, gc, c) (w', gc', c)"
| lock: "clear_until_lock w gc = (w', gc', b) \<Longrightarrow> held_step key (w, gc, c) (w', gc', c)"
| revoke: "grant_revoke sha w gc i = (w', gc', b) \<Longrightarrow> held_step key (w, gc, c) (w', gc', c)"
| clear: "grants_clear w gc = (w', gc') \<Longrightarrow> held_step key (w, gc, c) (w', gc', c)"

inductive held_steps ::
    "grant_key \<Rightarrow> grant_world \<times> grant_cache \<times> clocks \<Rightarrow> grant_world \<times> grant_cache \<times> clocks \<Rightarrow> bool" for key where
  refl: "held_steps key s s"
| step: "held_steps key s s' \<Longrightarrow> held_step key s' s'' \<Longrightarrow> held_steps key s s''"

definition at_most :: "grant_key \<Rightarrow> grant_record \<Rightarrow> grant_entries \<Rightarrow> bool" where
  "at_most key r m \<longleftrightarrow> hm_wf m \<and> (hm_get m key = None \<or> hm_get m key = Some r)"

lemma at_most_retain: "at_most key r m \<Longrightarrow> at_most key r (hm_retain p m)"
  by (auto simp: at_most_def split: option.splits)

lemma held_step_at_most:
  "held_step key s s' \<Longrightarrow> at_most key r (gc_entries (fst (snd s))) \<Longrightarrow> at_most key r (gc_entries (fst (snd s')))"
proof (induction rule: held_step.induct)
  case (query w gc c k w' gc' res)
  then have "gc' = fst (snd (grant_decision w gc c k))" by simp
  with query.prems show ?case by (auto simp: at_most_def grant_decision_entries split: option.splits)
next
  case (insert k w gc c l m a w' gc' res)
  then show ?case
    by (cases res) (auto simp: at_most_def dest: insert_decision_Err elim!: insert_decision_Ok)
next
  case (active sha w gc c w' gc' gs)
  then have "gc' = fst (snd (grants_active sha w gc c))" by simp
  with active.prems show ?case by (simp add: grants_active_entries at_most_retain)
next
  case (lock w gc w' gc' b c)
  then have "gc' = fst (snd (clear_until_lock w gc))" by simp
  with lock.prems show ?case by (simp add: clear_until_lock_entries at_most_retain)
next
  case (revoke sha w gc i w' gc' b c)
  then have "gc' = fst (snd (grant_revoke sha w gc i))" by simp
  with revoke.prems show ?case by (simp add: grant_revoke_entries at_most_retain)
next
  case (clear w gc w' gc' c)
  then have "gc' = snd (grants_clear w gc)" by simp
  then show ?case by (simp add: grants_clear_entries at_most_def)
qed simp

lemma held_steps_at_most:
  "held_steps key s s' \<Longrightarrow> at_most key r (gc_entries (fst (snd s))) \<Longrightarrow> at_most key r (gc_entries (fst (snd s')))"
  by (induction rule: held_steps.induct) (auto intro: held_step_at_most)

text \<open>(C28) Timed decisions are bounded by 26 hours. From any opened cache, after any sequence of operations,
  restarts, clock changes that keep the monotonic clock monotonic, and any contents of the state file, each
  key has at most one entry and the deadline of a timed entry is at most 26 hours ahead on the monotonic
  clock. While the daemon keeps running and the decision is not renewed, whatever else happens to the cache
  and to the wall clock, the entry is no longer answered once the monotonic clock has advanced by that much.
  (A restart derives the deadline of a stored decision from the wall clock, again at most 26 hours ahead of
  the restart.)\<close>

theorem timed_grants_end_within_limit:
  assumes "grant_cache_open w0 path c0 uuid fault = (w1, gc1)"
    and "cache_steps (w1, gc1, c0) (w, gc, c)"
    and "hm_get (gc_entries gc) key = Some r" "gr_lifetime r \<noteq> UntilLock"
    and "held_steps key (w, gc, c) (w', gc', c')" "cl_instant c + MAXIMUM_TTL \<le> cl_instant c'"
  shows "hm_wf (gc_entries gc) \<and> deadline_within c r \<and> snd (snd (grant_decision w' gc' c' key)) = None"
proof -
  have "entries_ok c0 (gc_entries gc1)"
    using loaded_grants_entries_ok grant_cache_open_entries assms(1) by (metis snd_conv)
  from cache_steps_entries_ok [OF assms(2)] this have ok: "entries_ok c (gc_entries gc)" by simp
  then have wf: "hm_wf (gc_entries gc)" by (simp add: entries_ok_def)
  from ok assms(3) have within: "deadline_within c r"
    using hm_get_SomeD by (fastforce simp: entries_ok_def)
  have "at_most key r (gc_entries gc')"
    using held_steps_at_most [OF assms(5), of r] wf assms(3) by (simp add: at_most_def)
  with within assms(4,6) have "snd (snd (grant_decision w' gc' c' key)) = None"
    by (auto simp: at_most_def grant_decision_answer grant_answer_def unexpired_def deadline_within_def
        split: record_lifetime.splits)
  with wf within show ?thesis by blast
qed

lemma example_open:
  "grant_cache_open example_grant_world ''/s/g'' c u f = (example_grant_world, example_cache)"
  by (simp add: grant_cache_open_def loaded_grants_def state_load_def example_grant_world_def next_fault_def
      pop_fault_def no_fault_def checkpoint_load_def example_cache_def)

theorem timed_grants_end_within_limit_witness:
  "(let c = \<lparr>cl_unix = 0, cl_instant = 5\<rparr>;
        gc = fst (snd (insert_decision example_grant_world example_cache c (example_key Read)
               (TimedFor MAXIMUM_TTL ScopeToday) example_metadata True))
    in snd (snd (grant_decision example_grant_world gc \<lparr>cl_unix = 0, cl_instant = 4 + MAXIMUM_TTL\<rparr> (example_key Read))) =
         Some True \<and>
       snd (snd (grant_decision example_grant_world gc \<lparr>cl_unix = 0, cl_instant = 5 + MAXIMUM_TTL\<rparr> (example_key Read))) =
         None)"
proof -
  let ?c = "\<lparr>cl_unix = 0, cl_instant = 5\<rparr>"
  let ?i = "insert_decision example_grant_world example_cache ?c (example_key Read)
    (TimedFor MAXIMUM_TTL ScopeToday) example_metadata True"
  have rl: "record_lifetime_of ?c (TimedFor MAXIMUM_TTL ScopeToday) = Inr (Deadline (5 + MAXIMUM_TTL) 93600 ScopeToday)"
    by (simp add: record_lifetime_of_def MAXIMUM_TTL_def NANOS_def arith_defs instant_checked_add_def)
  note i = insert_decision_surj [OF rl, of example_grant_world example_cache "example_key Read" example_metadata True]
  have st: "cache_steps (example_grant_world, example_cache, ?c) (fst ?i, fst (snd ?i), ?c)"
    by (rule cache_steps.step [OF cache_steps.refl cache_step.insert [OF i]])
  have e: "hm_get (gc_entries (fst (snd ?i))) (example_key Read) =
      Some \<lparr>gr_allowed = True, gr_lifetime = Deadline (5 + MAXIMUM_TTL) 93600 ScopeToday, gr_metadata = example_metadata\<rparr>"
    by (rule insert_decision_Ok [OF i]) (simp add: rl)
  have h: "held_steps (example_key Read) (fst ?i, fst (snd ?i), ?c)
      (example_grant_world, fst (snd ?i), \<lparr>cl_unix = 0, cl_instant = 5 + MAXIMUM_TTL\<rparr>)"
    by (rule held_steps.step [OF held_steps.refl held_step.tick]) (simp add: not_before_def)
  show ?thesis
    using timed_grants_end_within_limit [OF example_open st e _ h] e
    by (simp add: Let_def grant_decision_answer grant_answer_def unexpired_def)
qed

text \<open>Locking the session ends every session-bound decision and no other: after
  \<open>clear_until_lock\<close> no entry bounded by the session is left, a timed decision is answered as
  before, and the reported flag says whether anything was removed.\<close>

theorem lock_ends_session_grants:
  assumes "hm_wf (gc_entries gc)" "clear_until_lock w gc = (w', gc', removed)"
  shows "removed = (\<exists>(k, r) \<in> set (gc_entries gc). gr_lifetime r = UntilLock) \<and>
    snd (snd (grant_decision w' gc' c key)) =
      (case hm_get (gc_entries gc) key of
         None \<Rightarrow> None
       | Some r \<Rightarrow> if gr_lifetime r = UntilLock then None else snd (snd (grant_decision w gc c key)))"
proof -
  have "removed = snd (snd (clear_until_lock w gc))" and gc': "gc' = fst (snd (clear_until_lock w gc))"
    using assms(2) by simp_all
  then have "removed = (\<exists>(k, r) \<in> set (gc_entries gc). gr_lifetime r = UntilLock)"
    by (simp add: clear_until_lock_def retain_grants_removed)
  with assms(1) gc' show ?thesis
    by (auto simp: grant_decision_answer grant_answer_def clear_until_lock_entries split: option.splits)
qed

theorem lock_ends_session_grants_witness:
  "(let gc = example_cache\<lparr>gc_entries := example_entries\<rparr>;
        gc' = fst (snd (clear_until_lock example_grant_world gc)); c = \<lparr>cl_unix = 0, cl_instant = 0\<rparr>
    in snd (snd (grant_decision example_grant_world gc' c (example_key Write))) = None \<and>
       snd (snd (grant_decision example_grant_world gc' c (example_key Read))) = Some True)"
proof -
  let ?gc = "example_cache\<lparr>gc_entries := example_entries\<rparr>"
  have "hm_wf (gc_entries ?gc)" by (simp add: hm_wf_def example_entries_def example_key_def)
  have "clear_until_lock example_grant_world ?gc =
      (fst (clear_until_lock example_grant_world ?gc), fst (snd (clear_until_lock example_grant_world ?gc)),
       snd (snd (clear_until_lock example_grant_world ?gc)))" by simp
  from lock_ends_session_grants [OF \<open>hm_wf (gc_entries ?gc)\<close> this] show ?thesis
    by (simp add: Let_def grant_decision_answer grant_answer_def hm_get_def example_entries_def example_key_def
        unexpired_def NANOS_def)
qed

section \<open>Revocation\<close>

lemma framed_inject:
  assumes "be_bytes (length a) @ str_bytes a @ x = be_bytes (length b) @ str_bytes b @ y"
    and "length a < 2 ^ 64" "length b < 2 ^ 64"
  shows "a = b \<and> x = y"
proof -
  from assms(1) have "be_bytes (length a) = be_bytes (length b)" by (auto simp: append_eq_append_conv)
  with assms(2,3) have "length a = length b" by (simp add: be_bytes_inject)
  with assms(1) show ?thesis by (auto simp: append_eq_append_conv str_bytes_inject)
qed

lemma operation_as_str_inject: "operation_as_str a = operation_as_str b \<longleftrightarrow> a = b"
  by (cases a; cases b) simp_all

lemma enforcement_as_str_inject: "enforcement_as_str a = enforcement_as_str b \<longleftrightarrow> a = b"
  by (cases a; cases b) simp_all

definition key_fits :: "grant_key \<Rightarrow> bool" where
  "key_fits k \<longleftrightarrow> length (gk_subject k) < 2 ^ 64 \<and> length (gk_object k) < 2 ^ 64"

lemma frames_inject:
  assumes "length fs = length gs" "\<forall>f \<in> set fs \<union> set gs. length f < 2 ^ 64"
    and "concat (map (\<lambda>f. be_bytes (length f) @ str_bytes f) fs) = concat (map (\<lambda>f. be_bytes (length f) @ str_bytes f) gs)"
  shows "fs = gs"
  using assms
proof (induction fs gs rule: list_induct2)
  case (Cons f fs g gs)
  have "f = g \<and> concat (map (\<lambda>f. be_bytes (length f) @ str_bytes f) fs) =
      concat (map (\<lambda>f. be_bytes (length f) @ str_bytes f) gs)"
    by (rule framed_inject) (use Cons.prems in \<open>simp_all only: list.map concat.simps append_assoc, simp_all\<close>)
  with Cons show ?case by simp
qed simp

lemma grant_message_inject:
  assumes "grant_message k = grant_message k'" "key_fits k" "key_fits k'"
  shows "k = k'"
proof -
  have "length (operation_as_str op) < 2 ^ 64" "length (enforcement_as_str e) < 2 ^ 64" for op e
    by (cases op; simp) (cases e; simp)
  then have "[gk_subject k, gk_object k, operation_as_str (gk_operation k), enforcement_as_str (gk_enforcement k)] =
      [gk_subject k', gk_object k', operation_as_str (gk_operation k'), enforcement_as_str (gk_enforcement k')]"
    using assms by (intro frames_inject) (simp_all only: grant_message_def, simp_all add: key_fits_def)
  then show ?thesis by (simp add: operation_as_str_inject enforcement_as_str_inject)
qed

text \<open>SHA-256 separates the messages of the keys in the cache.\<close>

definition digests_distinct :: "(bytes \<Rightarrow> bytes) \<Rightarrow> grant_key set \<Rightarrow> bool" where
  "digests_distinct sha keys \<longleftrightarrow> (\<forall>k \<in> keys. \<forall>k' \<in> keys. sha (grant_message k) = sha (grant_message k') \<longrightarrow>
     grant_message k = grant_message k')"

lemma grant_id_inject:
  assumes "packages_ok pk" "digests_distinct sha keys" "k \<in> keys" "k' \<in> keys" "key_fits k" "key_fits k'"
  shows "grant_id sha pk k = grant_id sha pk k' \<longleftrightarrow> k = k'"
proof
  assume "grant_id sha pk k = grant_id sha pk k'"
  then have "sha (grant_message k) = sha (grant_message k')"
    using assms(1) unfolding grant_id_def packages_ok_def by (metis option.inject)
  with assms show "k = k'" by (auto simp: digests_distinct_def intro: grant_message_inject)
qed simp

text \<open>Revoking a listed grant by its identifier removes that grant and no other: the identifier
  shown for an entry is specific to its subject, object, operation and enforcement.\<close>

theorem revoke_removes_exactly:
  assumes "packages_ok (aw_packages w)" "hm_wf (gc_entries gc)"
    and "digests_distinct sha (fst ` set (gc_entries gc))" "\<forall>(k, r) \<in> set (gc_entries gc). key_fits k"
    and "hm_get (gc_entries gc) key = Some r"
    and "grant_revoke sha w gc (ag_id (active_grant_of sha (aw_packages w) (key, r))) = (w', gc', removed)"
  shows "removed \<and> (\<forall>k. hm_get (gc_entries gc') k = (if k = key then None else hm_get (gc_entries gc) k))"
proof -
  have i: "ag_id (active_grant_of sha (aw_packages w) (key, r)) = grant_id sha (aw_packages w) key"
    by (simp add: active_grant_of_def case_prod_beta)
  have m: "(key, r) \<in> set (gc_entries gc)" using assms(5) by (rule hm_get_SomeD)
  have gid: "grant_id sha (aw_packages w) k = grant_id sha (aw_packages w) key \<longleftrightarrow> k = key"
    if "(k, r') \<in> set (gc_entries gc)" for k r'
    using grant_id_inject [OF assms(1,3), of k key] assms(4) m that by force
  have e: "gc_entries gc' = hm_retain (\<lambda>k _. grant_id sha (aw_packages w) k \<noteq> grant_id sha (aw_packages w) key)
      (gc_entries gc)"
    using grant_revoke_entries [of sha w gc] assms(6) i by (metis fst_conv snd_conv)
  have "removed = snd (snd (grant_revoke sha w gc (grant_id sha (aw_packages w) key)))" using assms(6) i by simp
  then have removed using m by (auto simp: grant_revoke_def retain_grants_removed)
  moreover have "hm_get (gc_entries gc') k = (if k = key then None else hm_get (gc_entries gc) k)" for k
    using assms(2) gid by (auto simp: e split: option.splits dest: hm_get_SomeD)
  ultimately show ?thesis by blast
qed

theorem revoke_removes_exactly_witness:
  "(let gc = example_cache\<lparr>gc_entries := example_entries\<rparr>;
        r = \<lparr>gr_allowed = True, gr_lifetime = Deadline (60 * NANOS) 160 ScopeTimed, gr_metadata = example_metadata\<rparr>;
        gc' = fst (snd (grant_revoke id example_grant_world gc
                (ag_id (active_grant_of id example_packages (example_key Read, r)))))
    in hm_get (gc_entries gc') (example_key Read) = None \<and> hm_get (gc_entries gc') (example_key Write) \<noteq> None)"
proof -
  let ?gc = "example_cache\<lparr>gc_entries := example_entries\<rparr>" and ?w = example_grant_world
  let ?r = "\<lparr>gr_allowed = True, gr_lifetime = Deadline (60 * NANOS) 160 ScopeTimed, gr_metadata = example_metadata\<rparr>"
  let ?i = "grant_revoke id ?w ?gc (ag_id (active_grant_of id (aw_packages ?w) (example_key Read, ?r)))"
  have pk: "packages_ok (aw_packages ?w)"
    using example_codec_ok [of "[]"] by (simp add: codec_ok_def example_world_def example_grant_world_def)
  have wf: "hm_wf (gc_entries ?gc)" by (simp add: hm_wf_def example_entries_def example_key_def)
  have dd: "digests_distinct id (fst ` set (gc_entries ?gc))" by (simp add: digests_distinct_def)
  have kf: "\<forall>(k, r) \<in> set (gc_entries ?gc). key_fits k"
    by (simp add: example_entries_def key_fits_def example_key_def)
  have g: "hm_get (gc_entries ?gc) (example_key Read) = Some ?r"
    by (simp add: hm_get_def example_entries_def example_key_def)
  have "?i = (fst ?i, fst (snd ?i), snd (snd ?i))" by simp
  from revoke_removes_exactly [OF pk wf dd kf g this] show ?thesis
    by (simp add: Let_def example_grant_world_def) (simp add: hm_get_def example_entries_def example_key_def)
qed

section \<open>Recovery of persistence\<close>

lemma persist_attempts_quiet:
  assumes q: "aw_faults w = []" and path: "path_parent path \<noteq> None" and ser: "aw_ser w doc = Some payload"
    and g: "g + 1 < 2 ^ 64" and t: "trusted_generation w GRANT_DOMAIN + 1 < 2 ^ 64"
  shows "\<exists>w' g0. persist_attempts 2 w path g doc None =
    (w', g0, Inr (max g (trusted_generation w GRANT_DOMAIN) + 1)) \<and>
    holds_state w' path GRANT_DOMAIN (max g (trusted_generation w GRANT_DOMAIN) + 1) doc"
proof (cases "trusted_generation w GRANT_DOMAIN \<le> g")
  case True
  obtain w1 where p: "state_persist w path GRANT_DOMAIN g doc = (w1, Inr (g + 1))"
    using state_persist_quiet [OF q path True g ser] by (metis prod.collapse)
  then show ?thesis
    using authenticator.persist_holds [OF p] True by (simp add: numeral_2_eq_2 max_def)
next
  case False
  let ?t = "trusted_generation w GRANT_DOMAIN"
  from False obtain ck where ck: "aw_checkpoints w GRANT_DOMAIN = Some ck" "ck_generation ck = ?t"
    by (auto simp: trusted_generation_def split: option.splits)
  have nf: "next_fault w = no_fault" using q by (simp add: next_fault_def)
  have first: "state_persist w path GRANT_DOMAIN g doc = (pop_fault w, Inl (Rollback GRANT_DOMAIN ?t g))"
    using state_persist_stale [OF ck(1), of g path doc] False ck(2) by (simp add: nf no_fault_def)
  let ?w2 = "pop_fault (pop_fault w)"
  have q2: "aw_faults ?w2 = []" using q by (simp add: pop_fault_def)
  have cg: "checkpoint_generation (pop_fault w) GRANT_DOMAIN = (?w2, Inr ?t)"
  proof -
    have "aw_faults (pop_fault w) = []" using q by (simp add: pop_fault_def)
    from checkpoint_generation_quiet [OF this] show ?thesis by simp
  qed
  obtain w3 where p: "state_persist ?w2 path GRANT_DOMAIN ?t doc = (w3, Inr (?t + 1))"
    using state_persist_quiet [OF q2 path, of GRANT_DOMAIN ?t doc payload] t ser by (auto simp: prod_eq_iff)
  then show ?thesis
    using authenticator.persist_holds [OF p] False first cg by (simp add: numeral_2_eq_2 max_def)
qed

text \<open>Persistence recovers by itself: once the environment works again, the next save of the
  cache succeeds whatever generation the cache believed it was at (a stale one is refreshed from
  the checkpoint within the call), leaves the degraded state, and the authenticated file then holds
  exactly the document of the current entries.\<close>

theorem degraded_persistence_recovers:
  assumes "aw_faults w = []" "path_parent (gc_path gc) \<noteq> None"
    and "aw_ser w (persisted_document (gc_entries gc)) = Some payload"
    and "\<forall>g. gc_generation gc = Some g \<longrightarrow> g + 1 < 2 ^ 64" "trusted_generation w GRANT_DOMAIN + 1 < 2 ^ 64"
    and "persist_best_effort w gc = (w', gc')"
  shows "gc_degraded gc' = None \<and> gc_entries gc' = gc_entries gc \<and>
    (\<exists>g. gc_generation gc' = Some g \<and> trusted_generation w GRANT_DOMAIN < g \<and>
       holds_state w' (gc_path gc) GRANT_DOMAIN g (persisted_document (gc_entries gc)))"
proof (cases "gc_generation gc")
  case None
  have pop: "aw_faults (pop_fault w) = []" using assms(1) by (simp add: pop_fault_def)
  have ser: "aw_ser (pop_fault w) (persisted_document (gc_entries gc)) = Some payload" using assms(3) by simp
  from None assms(6) persist_attempts_quiet [OF pop assms(2) ser, of "trusted_generation w GRANT_DOMAIN"] assms(5)
  show ?thesis
    by (auto simp: persist_best_effort_def persist_authenticated_def checkpoint_generation_quiet [OF assms(1)])
next
  case (Some g)
  from Some assms(4,6) persist_attempts_quiet [OF assms(1-3) _ assms(5), of g] show ?thesis
    by (auto simp: persist_best_effort_def persist_authenticated_def max_def)
qed

theorem degraded_persistence_recovers_witness:
  "gc_degraded (snd (persist_best_effort (example_grant_world\<lparr>aw_ser := (\<lambda>_. Some [1])\<rparr>)
     (example_cache\<lparr>gc_generation := None, gc_degraded := Some (FileMissingAt 3)\<rparr>))) = None"
proof -
  let ?w = "example_grant_world\<lparr>aw_ser := (\<lambda>_. Some [1])\<rparr>"
  let ?gc = "example_cache\<lparr>gc_generation := None, gc_degraded := Some (FileMissingAt 3)\<rparr>"
  have "path_parent (gc_path ?gc) \<noteq> None"
    by (simp add: example_cache_def path_parent_def path_body_def trim_back_def has_root_def body_string_def
        keep_head_def redundant_def)
  moreover have "aw_faults ?w = []" "aw_ser ?w (persisted_document (gc_entries ?gc)) = Some [1]"
    "trusted_generation ?w GRANT_DOMAIN + 1 < 2 ^ 64"
    by (simp_all add: example_grant_world_def trusted_generation_def)
  ultimately show ?thesis
    using degraded_persistence_recovers [of ?w ?gc "[1]", OF _ _ _ _ _ surjective_pairing] by simp
qed

end
