(* ===== verification/Agent_Socket.thy ===== *)
theory Agent_Socket
  imports Rules Integrity
begin

text \<open>
  The daemon's side of the menu-bar connection: the framing of \<open>floria-agent/src/protocol.rs\<close> and
  the server of \<open>floria-agent/src/socket.rs\<close>. Every lock-protected section of the server is one
  operation, so a sequence of operations is an interleaving of its threads: the reader of each
  connection, the workers that prompt, and whoever streams an event.
\<close>

section \<open>Framing (protocol.rs)\<close>

definition MAX_MSG :: nat where "MAX_MSG = 2 ^ 20"
definition AGENT_PROTOCOL_VERSION :: nat where "AGENT_PROTOCOL_VERSION = 2"

datatype frame_error = MessageTooLarge | FrameTooLarge | UnexpectedEof | BadBody

definition u32_be_bytes :: "nat \<Rightarrow> bytes" where
  "u32_be_bytes n = [n div 2 ^ 24 mod 256, n div 2 ^ 16 mod 256, n div 2 ^ 8 mod 256, n mod 256]"

definition u32_from_be_bytes :: "bytes \<Rightarrow> nat" where
  "u32_from_be_bytes b = foldl (\<lambda>a d. a * 256 + d) 0 b"

definition write_msg :: "('m \<Rightarrow> bytes) \<Rightarrow> 'm \<Rightarrow> frame_error + bytes" where
  "write_msg to_vec msg =
     (let body = to_vec msg
      in if length body < 2 ^ 32 then Inr (u32_be_bytes (length body) @ body) else Inl MessageTooLarge)"

text \<open>Reading from the bytes the peer sent before closing its end: the message and the bytes left.\<close>

definition read_msg :: "(bytes \<Rightarrow> 'm option) \<Rightarrow> bytes \<Rightarrow> frame_error + 'm \<times> bytes" where
  "read_msg from_slice input =
     (if length input < 4 then Inl UnexpectedEof
      else
        let len = u32_from_be_bytes (take 4 input); rest = drop 4 input
        in if MAX_MSG < len then Inl FrameTooLarge
           else if length rest < len then Inl UnexpectedEof
           else and_then (ok_or (from_slice (take len rest)) BadBody) (\<lambda>m. Inr (m, drop len rest)))"

section \<open>Messages\<close>

datatype client_msg =
    Hello nat
  | SessionInactive
  | Decision nat string "string option" "nat option"

record client_decision =
  cd_allow :: bool
  cd_scope :: "string option"
  cd_ttl_secs :: "nat option"

datatype prompt_result = PromptDecision client_decision | NoApp | Timeout

section \<open>The server (socket.rs)\<close>

text \<open>\<open>sv_conn\<close> is the generation of the connection prompts go to; \<open>sv_channels\<close> holds the decision
  sent to a waiting prompt and not yet received; \<open>sv_invalidations\<close> counts the calls of the session
  invalidator.\<close>

record server =
  sv_conn :: "nat option"
  sv_pending :: "nat set"
  sv_channels :: "nat \<Rightarrow> client_decision option"
  sv_next_req :: nat
  sv_conn_gen :: nat
  sv_invalidations :: nat

definition server_start :: server where
  "server_start = \<lparr>sv_conn = None, sv_pending = {}, sv_channels = (\<lambda>_. None), sv_next_req = 1,
     sv_conn_gen = 1, sv_invalidations = 0\<rparr>"

definition handshake :: "client_msg \<Rightarrow> bool" where
  "handshake m =
     ((case m of Hello version \<Rightarrow> Some version | _ \<Rightarrow> None) = Some AGENT_PROTOCOL_VERSION)"

text \<open>After the handshake: the connection takes a generation, then becomes the current one.\<close>

definition claim_generation :: "server \<Rightarrow> server \<times> nat" where
  "claim_generation s = (s\<lparr>sv_conn_gen := wrapping_add_u64 (sv_conn_gen s) 1\<rparr>, sv_conn_gen s)"

definition publish_connection :: "server \<Rightarrow> nat \<Rightarrow> server" where
  "publish_connection s gen = s\<lparr>sv_conn := Some gen\<rparr>"

definition invalidate_session :: "server \<Rightarrow> server" where
  "invalidate_session s = s\<lparr>sv_invalidations := sv_invalidations s + 1\<rparr>"

definition read_client_msg :: "server \<Rightarrow> client_msg \<Rightarrow> server" where
  "read_client_msg s m =
     (case m of
        Hello _ \<Rightarrow> s
      | SessionInactive \<Rightarrow> invalidate_session s
      | Decision req_id outcome scope ttl_secs \<Rightarrow>
          if req_id \<in> sv_pending s
          then s\<lparr>sv_pending := sv_pending s - {req_id},
                 sv_channels := (sv_channels s)(req_id \<mapsto>
                   \<lparr>cd_allow = (outcome = ''allow''), cd_scope = scope, cd_ttl_secs = ttl_secs\<rparr>)\<rparr>
          else s)"

text \<open>The end of a reader thread.\<close>

definition reader_exit :: "server \<Rightarrow> nat \<Rightarrow> server" where
  "reader_exit s gen =
     (if sv_conn s = Some gen then invalidate_session (s\<lparr>sv_conn := None\<rparr>) else s)"

definition server_send :: "server \<Rightarrow> bool \<Rightarrow> server \<times> bool" where
  "server_send s write_ok =
     (case sv_conn s of
        None \<Rightarrow> (s, False)
      | Some _ \<Rightarrow> if write_ok then (s, True) else (s\<lparr>sv_conn := None\<rparr>, False))"

text \<open>\<open>prompt_and_wait\<close> up to the blocking receive, and from its return.\<close>

definition prompt_begin :: "server \<Rightarrow> bool \<Rightarrow> server \<times> nat \<times> bool" where
  "prompt_begin s write_ok =
     (let req_id = sv_next_req s;
          s1 = s\<lparr>sv_next_req := wrapping_add_u64 (sv_next_req s) 1, sv_pending := insert req_id (sv_pending s),
                 sv_channels := (sv_channels s)(req_id := None)\<rparr>
      in case server_send s1 write_ok of
           (s2, True) \<Rightarrow> (s2, req_id, True)
         | (s2, False) \<Rightarrow> (s2\<lparr>sv_pending := sv_pending s2 - {req_id}\<rparr>, req_id, False))"

definition prompt_end :: "server \<Rightarrow> nat \<Rightarrow> server \<times> prompt_result" where
  "prompt_end s req_id =
     (case sv_channels s req_id of
        Some d \<Rightarrow> (s\<lparr>sv_channels := (sv_channels s)(req_id := None)\<rparr>, PromptDecision d)
      | None \<Rightarrow> (s\<lparr>sv_pending := sv_pending s - {req_id}\<rparr>, Timeout))"

section \<open>Framing properties\<close>

lemma u32_roundtrip:
  assumes "n < 2 ^ 32"
  shows "u32_from_be_bytes (u32_be_bytes n) = n"
proof -
  have d: "n div 65536 = n div 256 div 256" "n div 16777216 = n div 65536 div 256"
    by (simp_all add: div_mult2_eq [symmetric])
  have "n = n div 256 * 256 + n mod 256" by simp
  moreover have "n div 256 = n div 65536 * 256 + n div 256 mod 256" unfolding d(1) by simp
  moreover have "n div 65536 = n div 16777216 * 256 + n div 65536 mod 256" unfolding d(2) by simp
  moreover have "n div 16777216 mod 256 = n div 16777216" using assms by (intro mod_less) simp
  ultimately show ?thesis by (simp add: u32_from_be_bytes_def u32_be_bytes_def)
qed

text \<open>The framing is lossless up to the reader's limit: a message of at most \<open>MAX_MSG\<close> bytes is
  read back from the wire, leaving exactly the bytes that follow it; a longer one that the writer
  still accepts is refused by the reader from its length prefix alone.\<close>

theorem frame_roundtrip:
  assumes "\<And>m. from_slice (to_vec m) = Some m" "write_msg to_vec msg = Inr frame"
  shows "read_msg from_slice (frame @ following) =
    (if length (to_vec msg) \<le> MAX_MSG then Inr (msg, following) else Inl FrameTooLarge)"
proof -
  let ?b = "to_vec msg"
  from assms(2) have l: "length ?b < 2 ^ 32" and f: "frame = u32_be_bytes (length ?b) @ ?b"
    by (auto simp: write_msg_def Let_def split: if_splits)
  have four: "length (u32_be_bytes n) = 4" for n by (simp add: u32_be_bytes_def)
  show ?thesis
    by (simp add: read_msg_def f four u32_roundtrip [OF l] Let_def assms(1))
qed

theorem frame_roundtrip_witness:
  "read_msg Some ([0, 0, 0, 2, 10, 11] @ [9]) = Inr ([10, 11], [9])"
  using frame_roundtrip [of Some id "[10, 11]" "[0, 0, 0, 2, 10, 11]" "[9]"]
  by (simp add: write_msg_def u32_be_bytes_def MAX_MSG_def)

section \<open>Interleavings of the server's threads\<close>

text \<open>A configuration: the server, the connections between handshake and publication, those being
  read, the prompts that are blocked, and the decisions read for each request since its prompt was
  sent.\<close>

record socket_config =
  so_server :: server
  so_claimed :: "nat set"
  so_reading :: "nat set"
  so_waiting :: "nat set"
  so_said :: "(nat \<times> client_decision) set"

definition decisions_in :: "client_msg \<Rightarrow> (nat \<times> client_decision) set" where
  "decisions_in m =
     (case m of
        Decision req_id outcome scope ttl_secs \<Rightarrow>
          {(req_id, \<lparr>cd_allow = (outcome = ''allow''), cd_scope = scope, cd_ttl_secs = ttl_secs\<rparr>)}
      | _ \<Rightarrow> {})"

inductive socket_step :: "socket_config \<Rightarrow> socket_config \<Rightarrow> bool" where
  connect: "handshake m \<Longrightarrow> claim_generation (so_server c) = (s', g) \<Longrightarrow> g \<notin> so_claimed c \<union> so_reading c \<Longrightarrow>
    socket_step c (c\<lparr>so_server := s', so_claimed := insert g (so_claimed c)\<rparr>)"
| publish: "g \<in> so_claimed c \<Longrightarrow>
    socket_step c (c\<lparr>so_server := publish_connection (so_server c) g,
      so_claimed := so_claimed c - {g}, so_reading := insert g (so_reading c)\<rparr>)"
| message: "g \<in> so_reading c \<Longrightarrow>
    socket_step c (c\<lparr>so_server := read_client_msg (so_server c) m, so_said := so_said c \<union> decisions_in m\<rparr>)"
| hangup: "g \<in> so_reading c \<Longrightarrow>
    socket_step c (c\<lparr>so_server := reader_exit (so_server c) g, so_reading := so_reading c - {g}\<rparr>)"
| event: "server_send (so_server c) ok = (s', sent) \<Longrightarrow> socket_step c (c\<lparr>so_server := s'\<rparr>)"
| prompt: "prompt_begin (so_server c) ok = (s', r, True) \<Longrightarrow> r \<notin> so_waiting c \<Longrightarrow>
    socket_step c (c\<lparr>so_server := s', so_waiting := insert r (so_waiting c),
      so_said := {(q, d) \<in> so_said c. q \<noteq> r}\<rparr>)"
| prompt_no_app: "prompt_begin (so_server c) ok = (s', r, False) \<Longrightarrow> r \<notin> so_waiting c \<Longrightarrow>
    socket_step c (c\<lparr>so_server := s'\<rparr>)"
| finish: "r \<in> so_waiting c \<Longrightarrow> prompt_end (so_server c) r = (s', res) \<Longrightarrow>
    socket_step c (c\<lparr>so_server := s', so_waiting := so_waiting c - {r}\<rparr>)"

inductive socket_reachable :: "socket_config \<Rightarrow> bool" where
  start: "socket_reachable \<lparr>so_server = server_start, so_claimed = {}, so_reading = {}, so_waiting = {}, so_said = {}\<rparr>"
| step: "socket_reachable c \<Longrightarrow> socket_step c c' \<Longrightarrow> socket_reachable c'"

text \<open>Prompts go to a connection that is being read; whoever is pending is blocked and has no
  decision yet; whoever has a decision is blocked and was sent it.\<close>

definition socket_ok :: "socket_config \<Rightarrow> bool" where
  "socket_ok c \<longleftrightarrow>
     so_claimed c \<inter> so_reading c = {} \<and>
     (\<forall>g. sv_conn (so_server c) = Some g \<longrightarrow> g \<in> so_reading c) \<and>
     sv_pending (so_server c) \<subseteq> so_waiting c \<and>
     (\<forall>r d. sv_channels (so_server c) r = Some d \<longrightarrow>
        r \<in> so_waiting c \<and> r \<notin> sv_pending (so_server c) \<and> (r, d) \<in> so_said c)"

lemma server_send_fields:
  assumes "server_send s ok = (s', sent)"
  shows "s' = s\<lparr>sv_conn := sv_conn s'\<rparr> \<and> (sv_conn s' = sv_conn s \<or> sv_conn s' = None) \<and>
    (sent \<longrightarrow> sv_conn s' \<noteq> None)"
  using assms by (auto simp: server_send_def split: option.splits if_splits)

lemma prompt_begin_fields:
  assumes "prompt_begin s ok = (s', r, sent)"
  shows "r = sv_next_req s \<and> (sv_conn s' = sv_conn s \<or> sv_conn s' = None) \<and>
    sv_channels s' = (sv_channels s)(r := None) \<and>
    sv_pending s' = (if sent then insert r (sv_pending s) else sv_pending s - {r})"
  using assms
  by (auto simp: prompt_begin_def Let_def server_send_def split: option.splits if_splits)

lemma socket_step_ok: "socket_step c c' \<Longrightarrow> socket_ok c \<Longrightarrow> socket_ok c'"
proof (induction rule: socket_step.induct)
  case (message g c m)
  then show ?case
    by (cases m) (auto simp: socket_ok_def read_client_msg_def decisions_in_def invalidate_session_def)
next
  case (hangup g c)
  then show ?case
    by (auto simp: socket_ok_def reader_exit_def invalidate_session_def)
next
  case (event c ok s' sent)
  then show ?case
    by (auto simp: socket_ok_def server_send_def split: option.splits if_splits)
next
  case (prompt c ok s' r)
  then show ?case
    using prompt_begin_fields [OF prompt.hyps(1)] by (auto simp: socket_ok_def)
next
  case (prompt_no_app c ok s' r)
  then show ?case
    using prompt_begin_fields [OF prompt_no_app.hyps(1)] by (auto simp: socket_ok_def)
next
  case (finish r c s' res)
  then show ?case
    by (auto simp: socket_ok_def prompt_end_def split: option.splits if_splits)
qed (auto simp: socket_ok_def claim_generation_def publish_connection_def)

lemma socket_reachable_ok: "socket_reachable c \<Longrightarrow> socket_ok c"
proof (induction rule: socket_reachable.induct)
  case start
  show ?case by (simp add: socket_ok_def server_start_def)
next
  case (step c c')
  show ?case by (rule socket_step_ok [OF step.hyps(2) step.IH])
qed

text \<open>(C30) A prompt is answered only by its own answer: under every interleaving of connections,
  messages, hang-ups and prompts, a blocked prompt that ends with a decision ends with one the app
  sent for exactly this request after the prompt was issued; without one it ends in a timeout, which
  leaves nothing pending. Prompts go only to a connection that is still being read.\<close>

theorem prompt_gets_its_own_answer:
  assumes "socket_reachable c" "r \<in> so_waiting c" "prompt_end (so_server c) r = (s', res)"
  shows "(res = Timeout \<or> (\<exists>d. res = PromptDecision d \<and> (r, d) \<in> so_said c)) \<and>
    r \<notin> sv_pending s' \<and>
    (\<forall>g. sv_conn s' = Some g \<longrightarrow> g \<in> so_reading c)"
  using socket_reachable_ok [OF assms(1)] assms(2,3)
  by (auto simp: socket_ok_def prompt_end_def split: option.splits)

definition example_decision :: client_decision where
  "example_decision = \<lparr>cd_allow = True, cd_scope = None, cd_ttl_secs = None\<rparr>"

text \<open>The app connects, a prompt is sent, the app answers it.\<close>

definition example_config :: "nat \<Rightarrow> socket_config" where
  "example_config n =
     (let c0 = \<lparr>so_server = server_start, so_claimed = {}, so_reading = {}, so_waiting = {}, so_said = {}\<rparr>;
          c1 = c0\<lparr>so_server := fst (claim_generation server_start), so_claimed := {1}\<rparr>;
          c2 = c1\<lparr>so_server := publish_connection (so_server c1) 1, so_claimed := {}, so_reading := {1}\<rparr>;
          c3 = c2\<lparr>so_server := fst (prompt_begin (so_server c2) True), so_waiting := {1}\<rparr>;
          c4 = c3\<lparr>so_server := read_client_msg (so_server c3) (Decision 1 ''allow'' None None),
                  so_said := {(1, example_decision)}\<rparr>
      in [c0, c1, c2, c3, c4] ! n)"

lemma example_reachable: "socket_reachable (example_config 4)"
proof -
  have 0: "socket_reachable (example_config 0)"
    using socket_reachable.start by (simp add: example_config_def)
  have 1: "socket_step (example_config 0) (example_config 1)"
    using socket_step.connect [of "Hello 2" "example_config 0" "fst (claim_generation server_start)" 1]
    by (simp add: example_config_def claim_generation_def server_start_def handshake_def AGENT_PROTOCOL_VERSION_def)
  have 2: "socket_step (example_config 1) (example_config 2)"
    using socket_step.publish [of 1 "example_config 1"] by (simp add: example_config_def)
  have 3: "socket_step (example_config 2) (example_config 3)"
    using socket_step.prompt [of "example_config 2" True "so_server (example_config 3)" 1]
    by (simp add: example_config_def prompt_begin_def server_send_def claim_generation_def publish_connection_def
        server_start_def)
  have 4: "socket_step (example_config 3) (example_config 4)"
    using socket_step.message [of 1 "example_config 3" "Decision 1 ''allow'' None None"]
    by (simp add: example_config_def decisions_in_def example_decision_def)
  from 0 1 2 3 4 show ?thesis by (meson socket_reachable.step)
qed

theorem prompt_gets_its_own_answer_witness:
  "snd (prompt_end (so_server (example_config 4)) 1) = PromptDecision example_decision \<and>
   1 \<notin> sv_pending (fst (prompt_end (so_server (example_config 4)) 1))"
proof -
  have w: "1 \<in> so_waiting (example_config 4)" by (simp add: example_config_def)
  have e: "snd (prompt_end (so_server (example_config 4)) 1) = PromptDecision example_decision"
    by (simp add: example_config_def prompt_end_def read_client_msg_def prompt_begin_def server_send_def
        claim_generation_def publish_connection_def server_start_def example_decision_def)
  from prompt_gets_its_own_answer [OF example_reachable w surjective_pairing] e show ?thesis by simp
qed

text \<open>The end of the current connection's reader invalidates the session; but when a write to the
  same connection failed first, the connection was already dropped and the reader's end goes
  unnoticed: the session is not invalidated although the app is gone.\<close>

lemma hangup_invalidates: "sv_conn s = Some g \<Longrightarrow> sv_invalidations (reader_exit s g) = sv_invalidations s + 1"
  by (simp add: reader_exit_def invalidate_session_def)

lemma hangup_after_failed_write_not_invalidated:
  "sv_invalidations (reader_exit (fst (server_send s False)) g) = sv_invalidations s"
  by (simp add: reader_exit_def server_send_def split: option.splits)

end
