(* ===== verification/Agent.thy ===== *)
theory Agent
  imports Managed_Policy Policy_Mode Grant_Cache Agent_Socket
begin

text \<open>
  \<open>floria-agent/src/agent.rs\<close>: the policy agent. It decides each access by the rules and the policy
  mode; interactive verdicts go to the grant cache and, on a miss, to a prompt shared by concurrent
  requests for the same grant. The first half models the operations as they run undisturbed, the
  second half the interleavings of the threads inside \<open>handle_prompt\<close>. Paths and names are UTF-8,
  so lossy conversions are the identity.
\<close>

section \<open>Projections of a request\<close>

fun digit :: "nat \<Rightarrow> char" where
  "digit n = char_of (48 + n mod 10)"

fun show_nat :: "nat \<Rightarrow> string" where
  "show_nat n = (if n < 10 then [digit n] else show_nat (n div 10) @ [digit n])"

definition show_int :: "int \<Rightarrow> string" where
  "show_int i = (if i < 0 then CHR ''-'' # show_nat (nat (- i)) else show_nat (nat i))"

definition INTERPRETERS :: "string list" where
  "INTERPRETERS = [''node'', ''python'', ''python2'', ''python3'', ''ruby'', ''bun'', ''deno'',
     ''perl'', ''php'', ''java'', ''bash'', ''sh'', ''zsh'']"

definition grant_subject :: "process_identity \<Rightarrow> string option \<Rightarrow> string" where
  "grant_subject i repo =
     (let fallback =
            (case id_team_id i of
               Some team \<Rightarrow> ''team:'' @ team
             | None \<Rightarrow>
                 (case id_exe_path i of
                    Some exe \<Rightarrow> ''exe:'' @ exe
                  | None \<Rightarrow> ''pid:'' @ show_int (id_pid i)))
      in case id_exe_path i of
           None \<Rightarrow> fallback
         | Some exe \<Rightarrow>
             if (case file_name exe of None \<Rightarrow> False | Some n \<Rightarrow> n \<in> set INTERPRETERS)
             then (case repo of Some r \<Rightarrow> ''repo:'' @ r | None \<Rightarrow> ''exe:'' @ exe)
             else fallback)"

definition grant_object :: "auth_request \<Rightarrow> string" where
  "grant_object req =
     (let object =
            (case req_context req of
               Some (SshSign context) \<Rightarrow> req_path req @ ''#'' @ ctx_key_fingerprint context
             | None \<Rightarrow> req_path req)
      in case req_object_revision req of
           Some revision \<Rightarrow> object @ ''@'' @ revision
         | None \<Rightarrow> object)"

definition MIDDLE_DOT :: string where "MIDDLE_DOT = [CHR 0x20, CHR 0xC2, CHR 0xB7, CHR 0x20]"

definition grant_metadata_of :: "auth_request \<Rightarrow> grant_metadata" where
  "grant_metadata_of req =
     (let i = req_identity req;
          client =
            (case Option.bind (id_exe_path i) file_name of
               Some name \<Rightarrow> name
             | None \<Rightarrow>
                 (case id_parent_chain i of
                    p # _ \<Rightarrow> ps_name p
                  | [] \<Rightarrow> ''pid '' @ show_int (id_pid i)));
          target =
            (case req_context req of
               Some (SshSign context) \<Rightarrow>
                 (let destination = unwrap_or (ctx_requested_destination context) (ctx_surface_name context)
                  in if destination = ctx_key_label context then ctx_key_label context
                     else destination @ MIDDLE_DOT @ ctx_key_label context)
             | None \<Rightarrow> unwrap_or (req_display req) (req_path req))
      in \<lparr>gm_client = client, gm_executable = id_exe_path i, gm_bundle_id = id_bundle_id i, gm_target = target\<rparr>)"

section \<open>Grant lifetimes\<close>

definition DEFAULT_TTL :: nat where "DEFAULT_TTL = 600 * NANOS"
definition PERSISTENT_TTL :: nat where "PERSISTENT_TTL = 24 * 3600 * NANOS"

text \<open>The local calendar (the \<open>chrono\<close> package): for an instant in nanoseconds since the epoch, the
  next local midnight as \<open>chrono\<close> reports it, or nothing when the date is out of range.\<close>

datatype local_result = Single int | Ambiguous int int | LocalNone

definition today_ttl :: "(int \<Rightarrow> local_result option) \<Rightarrow> int \<Rightarrow> nat" where
  "today_ttl next_midnight now =
     (let until = (\<lambda>boundary. if boundary < now then NANOS else nat (boundary - now))
      in case next_midnight now of
           None \<Rightarrow> 24 * 60 * 60 * NANOS
         | Some LocalNone \<Rightarrow> 24 * 60 * 60 * NANOS
         | Some (Single boundary) \<Rightarrow> until boundary
         | Some (Ambiguous first second) \<Rightarrow> until (min first second))"

definition lifetime_of :: "nat \<Rightarrow> client_decision \<Rightarrow> grant_lifetime option" where
  "lifetime_of today d =
     (if cd_scope d = Some ''today'' then Some (TimedFor today ScopeToday)
      else if cd_scope d = Some ''until_lock'' then Some WhileUnlocked
      else if cd_scope d = Some ''ttl''
      then Some (TimedFor (case cd_ttl_secs d of Some secs \<Rightarrow> secs * NANOS | None \<Rightarrow> DEFAULT_TTL) ScopeTimed)
      else if cd_scope d = Some ''app_file'' \<or> cd_scope d = Some ''app_project''
      then Some (TimedFor PERSISTENT_TTL ScopeTimed)
      else None)"

section \<open>The agent\<close>

text \<open>The two authenticated stores share one authenticator in the code; their files and domains are
  disjoint, so each is given its own world. The \<open>.git\<close> test of \<open>repo_root\<close>, the glob package and SHA-256
  are fixed for a daemon and kept in the state.\<close>

record agent =
  sa_globs :: globset
  sa_has_git :: "string \<Rightarrow> bool"
  sa_sha256 :: "bytes \<Rightarrow> bytes"
  sa_base_rules :: rule_set
  sa_rules :: rule_set
  sa_managed_items :: "managed_policy_item list option"
  sa_mode_world :: mode_world
  sa_mode :: mode_state
  sa_grant_world :: grant_world
  sa_grants :: grant_cache
  sa_generation :: nat

definition bump_generation :: "agent \<Rightarrow> agent" where
  "bump_generation a = a\<lparr>sa_generation := wrapping_add_u64 (sa_generation a) 1\<rparr>"

definition agent_clear_cache :: "agent \<Rightarrow> agent" where
  "agent_clear_cache a =
     (case grants_clear (sa_grant_world a) (sa_grants a) of
        (w, gc) \<Rightarrow> a\<lparr>sa_grant_world := w, sa_grants := gc\<rparr>)"

definition set_policy_mode ::
    "agent \<Rightarrow> policy_mode \<Rightarrow> nat option \<Rightarrow> clocks \<Rightarrow> agent \<times> (mode_error + policy_mode_status)" where
  "set_policy_mode a mode duration_secs c =
     (let a = agent_clear_cache (bump_generation a)
      in case mode_set (sa_mode_world a) (sa_mode a) mode duration_secs (cl_unix c) of
           (w, st, r) \<Rightarrow> (a\<lparr>sa_mode_world := w, sa_mode := st\<rparr>, r))"

definition active_grants :: "agent \<Rightarrow> clocks \<Rightarrow> agent \<times> active_grant list" where
  "active_grants a c =
     (case grants_active (sa_sha256 a) (sa_grant_world a) (sa_grants a) c of
        (w, gc, gs) \<Rightarrow> (a\<lparr>sa_grant_world := w, sa_grants := gc\<rparr>, gs))"

definition revoke_grant :: "agent \<Rightarrow> string \<Rightarrow> agent \<times> bool" where
  "revoke_grant a i =
     (let a = bump_generation a
      in case grant_revoke (sa_sha256 a) (sa_grant_world a) (sa_grants a) i of
           (w, gc, removed) \<Rightarrow> (a\<lparr>sa_grant_world := w, sa_grants := gc\<rparr>, removed))"

definition clear_grants :: "agent \<Rightarrow> agent" where
  "clear_grants a = agent_clear_cache (bump_generation a)"

definition revoke_lock_bound_grants :: "agent \<Rightarrow> agent" where
  "revoke_lock_bound_grants a =
     (case clear_until_lock (sa_grant_world a) (sa_grants a) of
        (w, gc, removed) \<Rightarrow>
          (let a = a\<lparr>sa_grant_world := w, sa_grants := gc\<rparr>
           in if removed then bump_generation a else a))"

text \<open>An error is a panic inside rule compilation.\<close>

definition replace_managed_policy :: "agent \<Rightarrow> managed_policy_item list \<Rightarrow> string + agent" where
  "replace_managed_policy a items =
     (let items = normalize_managed_policy items
      in if sa_managed_items a = Some items then Inr a
         else
           and_then (managed_rules (sa_globs a) items) (\<lambda>rules.
             let initial_install = (sa_managed_items a = None);
                 a' = a\<lparr>sa_rules := with_additional (sa_base_rules a) rules, sa_managed_items := Some items\<rparr>
             in Inr (if initial_install then a' else agent_clear_cache (bump_generation a'))))"

definition cached_decision :: "agent \<Rightarrow> clocks \<Rightarrow> grant_key \<Rightarrow> agent \<times> decision option" where
  "cached_decision a c key =
     (case grant_decision (sa_grant_world a) (sa_grants a) c key of
        (w, gc, r) \<Rightarrow>
          (a\<lparr>sa_grant_world := w, sa_grants := gc\<rparr>,
           map_option (\<lambda>allowed.
             if allowed then with_rule (decision_allow ''cached grant'') ''grant''
             else with_rule (decision_deny ''cached denial'') ''grant'') r))"

definition answer_decision :: "prompt_result \<Rightarrow> decision" where
  "answer_decision result =
     (case result of
        PromptDecision d \<Rightarrow>
          if cd_allow d then with_rule (decision_allow ''prompt: allowed'') ''prompt''
          else with_rule (decision_deny ''prompt: denied'') ''prompt''
      | NoApp \<Rightarrow> with_rule (decision_deny ''no agent app connected'') ''fail-closed''
      | Timeout \<Rightarrow> with_rule (decision_deny ''prompt timed out'') ''fail-closed'')"

definition remember_answer :: "agent \<Rightarrow> clocks \<Rightarrow> grant_key \<Rightarrow> grant_lifetime \<Rightarrow> grant_metadata \<Rightarrow> bool \<Rightarrow> agent" where
  "remember_answer a c key lifetime metadata allowed =
     (case insert_decision (sa_grant_world a) (sa_grants a) c key lifetime metadata allowed of
        (w, gc, _) \<Rightarrow> a\<lparr>sa_grant_world := w, sa_grants := gc\<rparr>)"

definition perform_prompt ::
    "agent \<Rightarrow> clocks \<Rightarrow> nat \<Rightarrow> auth_request \<Rightarrow> grant_key \<Rightarrow> nat \<Rightarrow> prompt_result \<Rightarrow> agent \<times> decision" where
  "perform_prompt a c today req key generation result =
     ((case result of
         PromptDecision d \<Rightarrow>
           if sa_generation a = generation
           then (case lifetime_of today d of
                   Some lifetime \<Rightarrow> remember_answer a c key lifetime (grant_metadata_of req) (cd_allow d)
                 | None \<Rightarrow> a)
           else a
       | _ \<Rightarrow> a),
      answer_decision result)"

text \<open>\<open>handle_prompt\<close> undisturbed: no other request is in flight, so this one leads.\<close>

definition handle_prompt ::
    "agent \<Rightarrow> clocks \<Rightarrow> nat \<Rightarrow> auth_request \<Rightarrow> enforcement \<Rightarrow> string \<Rightarrow> prompt_result \<Rightarrow> agent \<times> decision" where
  "handle_prompt a c today req enf subject result =
     (let key = \<lparr>gk_subject = subject, gk_object = grant_object req, gk_operation = req_operation req,
            gk_enforcement = enf\<rparr>;
          generation = sa_generation a
      in case cached_decision a c key of
           (a1, Some d) \<Rightarrow> (a1, d)
         | (a1, None) \<Rightarrow>
             (case cached_decision a1 c key of
                (a2, Some d) \<Rightarrow> (a2, d)
              | (a2, None) \<Rightarrow> perform_prompt a2 c today req key generation result))"

definition attach :: "decision \<Rightarrow> string option \<Rightarrow> decision" where
  "attach d rule_id = (case rule_id of Some r \<Rightarrow> with_rule d r | None \<Rightarrow> d)"

definition rule_request_of :: "auth_request \<Rightarrow> string option \<Rightarrow> rule_request" where
  "rule_request_of req repo =
     \<lparr>rq_identity = req_identity req, rq_path = req_path req, rq_repo = repo,
      rq_operation = req_operation req,
      rq_object = (case req_context req of
         Some (SshSign context) \<Rightarrow> \<lparr>ro_resource_id = Some (ctx_resource_id context)\<rparr>
       | None \<Rightarrow> rule_object_default)\<rparr>"

definition agent_evaluate :: "agent \<Rightarrow> clocks \<Rightarrow> enforcement \<Rightarrow> agent \<times> policy_evaluation" where
  "agent_evaluate a c e =
     (case mode_evaluate (sa_mode_world a) (sa_mode a) (cl_unix c) e of
        (w, st, ev) \<Rightarrow> (a\<lparr>sa_mode_world := w, sa_mode := st\<rparr>, ev))"

definition authorize :: "agent \<Rightarrow> clocks \<Rightarrow> nat \<Rightarrow> auth_request \<Rightarrow> prompt_result \<Rightarrow> agent \<times> decision" where
  "authorize a c today req result =
     (let repo = Option.bind (id_cwd (req_identity req)) (repo_root (sa_has_git a));
          (enf, rule_id) = decide (sa_globs a) (sa_rules a) (rule_request_of req repo);
          (a1, policy) = agent_evaluate a c enf;
          (a2, d) =
            (case effective_enforcement policy of
               Allow \<Rightarrow>
                 if effective_enforcement policy \<noteq> configured_enforcement policy
                 then (a1, with_rule (decision_allow ''allowed by global audit-only mode'') ''policy-mode:audit-only'')
                 else (a1, attach (decision_allow ''allowed by rule'') rule_id)
             | Deny \<Rightarrow> (a1, attach (decision_deny ''denied by rule'') rule_id)
             | Prompt \<Rightarrow> handle_prompt a1 c today req Prompt (grant_subject (req_identity req) repo) result
             | TouchId \<Rightarrow> handle_prompt a1 c today req TouchId (grant_subject (req_identity req) repo) result)
      in (a2, with_policy d policy))"

section \<open>Decisions\<close>

definition request_repo :: "agent \<Rightarrow> auth_request \<Rightarrow> string option" where
  "request_repo a req = Option.bind (id_cwd (req_identity req)) (repo_root (sa_has_git a))"

definition request_key :: "agent \<Rightarrow> auth_request \<Rightarrow> enforcement \<Rightarrow> grant_key" where
  "request_key a req enf =
     \<lparr>gk_subject = grant_subject (req_identity req) (request_repo a req), gk_object = grant_object req,
      gk_operation = req_operation req, gk_enforcement = enf\<rparr>"

definition configured :: "agent \<Rightarrow> auth_request \<Rightarrow> enforcement" where
  "configured a req = fst (decide (sa_globs a) (sa_rules a) (rule_request_of req (request_repo a req)))"

definition mode_in_force :: "agent \<Rightarrow> clocks \<Rightarrow> policy_mode" where
  "mode_in_force a c =
     (if is_expired (cl_unix c) (ms_status (sa_mode a)) then NormalMode else pm_mode (ms_status (sa_mode a)))"

definition remembered :: "agent \<Rightarrow> clocks \<Rightarrow> grant_key \<Rightarrow> bool option" where
  "remembered a c key = grant_answer (gc_entries (sa_grants a)) c key"

definition user_allowed :: "prompt_result \<Rightarrow> bool" where
  "user_allowed result = (case result of PromptDecision d \<Rightarrow> cd_allow d | _ \<Rightarrow> False)"

lemma is_allowed_simps [simp]:
  "is_allowed (decision_allow r)" "\<not> is_allowed (decision_deny r)"
  "is_allowed (with_rule d r) = is_allowed d" "is_allowed (with_policy d p) = is_allowed d"
  "is_allowed (attach d i) = is_allowed d"
  by (simp_all add: is_allowed_def decision_allow_def decision_deny_def with_rule_def with_policy_def attach_def
      split: option.splits)

lemma cached_decision_remembered:
  "map_option is_allowed (snd (cached_decision a c key)) = remembered a c key"
  using grant_decision_answer [of "sa_grant_world a" "sa_grants a" c key]
  by (auto simp: cached_decision_def remembered_def case_prod_beta option.map_comp comp_def
      split: option.splits intro!: option.map_ident_strong)

lemma cached_decision_miss:
  assumes "snd (cached_decision a c key) = None"
  shows "sa_generation (fst (cached_decision a c key)) = sa_generation a"
    and "remembered (fst (cached_decision a c key)) c key = None"
proof -
  have n: "remembered a c key = None"
    using assms cached_decision_remembered [of a c key] by simp
  show "sa_generation (fst (cached_decision a c key)) = sa_generation a"
    by (simp add: cached_decision_def case_prod_beta)
  show "remembered (fst (cached_decision a c key)) c key = None"
    using n by (simp add: remembered_def cached_decision_def case_prod_beta grant_decision_entries grant_answer_def
        split: option.splits if_splits)
qed

lemma answer_decision_allowed: "is_allowed (answer_decision result) = user_allowed result"
  by (simp add: answer_decision_def user_allowed_def split: prompt_result.splits)

lemma handle_prompt_allowed:
  defines "key subject req enf \<equiv> \<lparr>gk_subject = subject, gk_object = grant_object req,
     gk_operation = req_operation req, gk_enforcement = enf\<rparr>"
  shows "is_allowed (snd (handle_prompt a c today req enf subject result)) =
    (case remembered a c (key subject req enf) of Some b \<Rightarrow> b | None \<Rightarrow> user_allowed result)"
proof (cases "snd (cached_decision a c (key subject req enf))")
  case (Some d)
  with cached_decision_remembered [of a c "key subject req enf"] show ?thesis
    by (auto simp: handle_prompt_def Let_def key_def split: prod.splits option.splits)
next
  case None
  have r: "remembered a c (key subject req enf) = None"
    using cached_decision_remembered [of a c "key subject req enf"] None by simp
  let ?a1 = "fst (cached_decision a c (key subject req enf))"
  have "snd (cached_decision ?a1 c (key subject req enf)) = None"
    using cached_decision_remembered [of ?a1 c "key subject req enf"] cached_decision_miss(2) [OF None] by simp
  with None r show ?thesis
    by (auto simp: handle_prompt_def Let_def key_def perform_prompt_def answer_decision_allowed
        split: prod.splits option.splits)
qed

lemma agent_evaluate_facts:
  "remembered (fst (agent_evaluate a c e)) c' key = remembered a c' key"
  "configured_enforcement (snd (agent_evaluate a c e)) = e"
  "effective_enforcement (snd (agent_evaluate a c e)) = project_enforcement (mode_in_force a c) e"
  by (simp_all add: agent_evaluate_def case_prod_beta remembered_def mode_evaluate_effective mode_status_value
      mode_in_force_def policy_mode_status_default_def) (simp_all add: mode_evaluate_def case_prod_beta)

lemma authorize_allowed_iff:
  "is_allowed (snd (authorize a c today req result)) \<longleftrightarrow>
    (case configured a req of
       Allow \<Rightarrow> True
     | Deny \<Rightarrow> False
     | enf \<Rightarrow>
         mode_in_force a c = AuditOnly \<or>
         (case remembered a c (request_key a req enf) of
            Some allowed \<Rightarrow> allowed
          | None \<Rightarrow> user_allowed result))"
proof -
  obtain enf i where d: "decide (sa_globs a) (sa_rules a) (rule_request_of req (request_repo a req)) = (enf, i)"
    by (cases "decide (sa_globs a) (sa_rules a) (rule_request_of req (request_repo a req))")
  obtain a1 ev where ev: "agent_evaluate a c enf = (a1, ev)" by (cases "agent_evaluate a c enf")
  have f: "effective_enforcement ev = project_enforcement (mode_in_force a c) enf" "configured_enforcement ev = enf"
    "remembered a1 c k = remembered a c k" for k
    using agent_evaluate_facts(1) [of a c enf c k] agent_evaluate_facts(2,3) [of a c enf] ev by simp_all
  have au: "snd (authorize a c today req result) = with_policy (snd
      (case effective_enforcement ev of
         Allow \<Rightarrow>
           if effective_enforcement ev \<noteq> configured_enforcement ev
           then (a1, with_rule (decision_allow ''allowed by global audit-only mode'') ''policy-mode:audit-only'')
           else (a1, attach (decision_allow ''allowed by rule'') i)
       | Deny \<Rightarrow> (a1, attach (decision_deny ''denied by rule'') i)
       | Prompt \<Rightarrow> handle_prompt a1 c today req Prompt (grant_subject (req_identity req) (request_repo a req)) result
       | TouchId \<Rightarrow> handle_prompt a1 c today req TouchId (grant_subject (req_identity req) (request_repo a req)) result)) ev"
    unfolding authorize_def request_repo_def [symmetric] Let_def case_prod_beta d ev fst_conv snd_conv by simp
  show ?thesis
    unfolding au is_allowed_simps configured_def d fst_conv f
    by (cases enf; cases "mode_in_force a c")
      (auto simp: project_enforcement_def handle_prompt_allowed f request_key_def split: option.splits)
qed

text \<open>(C2) The agent's verdict in full: an access is allowed exactly when its rule says Allow, or its
  rule asks for interaction and audit-only mode is in force, or a remembered decision for its key
  says so, or nothing is remembered and the user allowed it at the prompt. A Deny rule, a missing
  app, a timeout and a remembered denial all deny.\<close>

theorem authorize_verdict:
  "is_allowed (snd (authorize a c today req result)) \<longleftrightarrow>
    (case configured a req of
       Allow \<Rightarrow> True
     | Deny \<Rightarrow> False
     | enf \<Rightarrow>
         mode_in_force a c = AuditOnly \<or>
         (case remembered a c (request_key a req enf) of
            Some allowed \<Rightarrow> allowed
          | None \<Rightarrow> user_allowed result))"
  by (rule authorize_allowed_iff)

section \<open>Changes of regime\<close>

lemma bump_changes: "sa_generation a < 2 ^ 64 \<Longrightarrow> sa_generation (bump_generation a) \<noteq> sa_generation a"
proof (cases "sa_generation a + 1 < 2 ^ 64")
  case False
  moreover assume "sa_generation a < 2 ^ 64"
  ultimately have "sa_generation a = 2 ^ 64 - 1" by simp
  then show ?thesis by (simp add: bump_generation_def wrapping_add_u64_def)
qed (simp add: bump_generation_def wrapping_add_u64_def)

lemma agent_clear_cache_fields [simp]:
  "sa_generation (agent_clear_cache a) = sa_generation a"
  "gc_entries (sa_grants (agent_clear_cache a)) = []"
  "sa_rules (agent_clear_cache a) = sa_rules a" "sa_mode (agent_clear_cache a) = sa_mode a"
  by (simp_all add: agent_clear_cache_def case_prod_beta grants_clear_entries)

lemma bump_generation_fields [simp]:
  "sa_grants (bump_generation a) = sa_grants a" "sa_rules (bump_generation a) = sa_rules a"
  "sa_mode (bump_generation a) = sa_mode a"
  by (simp_all add: bump_generation_def)

lemma remembered_cleared: "gc_entries (sa_grants a) = [] \<Longrightarrow> remembered a c key = None"
  by (simp add: remembered_def grant_answer_def)

lemma stale_answer_ignored: "sa_generation a \<noteq> generation \<Longrightarrow>
    perform_prompt a c today req key generation result = (a, answer_decision result)"
  by (simp add: perform_prompt_def split: prompt_result.splits)

text \<open>Changing the policy mode starts from a clean slate: whether or not the change succeeds, no
  decision given before is remembered afterwards, and an answer to a prompt issued before the change
  resolves its own access but is not remembered either.\<close>

theorem mode_change_forgets_decisions:
  assumes "sa_generation a < 2 ^ 64" "set_policy_mode a mode secs c = (a', r)"
  shows "remembered a' c' key = None \<and>
    perform_prompt a' c' today req key' (sa_generation a) result = (a', answer_decision result)"
proof -
  from assms(2) have "gc_entries (sa_grants a') = []" "sa_generation a' = sa_generation (bump_generation a)"
    by (auto simp: set_policy_mode_def Let_def split: prod.splits)
  with bump_changes [OF assms(1)] show ?thesis
    by (simp add: remembered_cleared stale_answer_ignored)
qed

lemma remembered_rules_update [simp]: "remembered (a\<lparr>sa_rules := rs, sa_managed_items := m\<rparr>) = remembered a"
  by (intro ext) (simp add: remembered_def)

text \<open>Replacing the managed policy: a snapshot that says the same (in any order, with any
  duplicates) changes nothing; a different one takes effect on top of the configured rules and, unless
  it is the first, forgets every remembered decision and disarms prompts already on screen.\<close>

theorem managed_policy_replacement:
  assumes "sa_generation a < 2 ^ 64" "replace_managed_policy a items = Inr a'"
  shows "sa_managed_items a' = Some (normalize_managed_policy items) \<and>
    (sa_managed_items a = Some (normalize_managed_policy items) \<and> a' = a \<or>
     (\<exists>rules. managed_rules (sa_globs a) (normalize_managed_policy items) = Inr rules \<and>
        sa_rules a' = with_additional (sa_base_rules a) rules \<and>
        (sa_managed_items a = None \<and> remembered a' = remembered a \<and> sa_generation a' = sa_generation a \<or>
         (\<forall>c key. remembered a' c key = None) \<and> sa_generation a' \<noteq> sa_generation a)))"
proof (cases "sa_managed_items a = Some (normalize_managed_policy items)")
  case True
  with assms(2) show ?thesis by (simp add: replace_managed_policy_def)
next
  case False
  let ?n = "normalize_managed_policy items"
  from False assms(2) obtain rules where m: "managed_rules (sa_globs a) ?n = Inr rules"
    by (auto simp: replace_managed_policy_def Let_def and_then_eq_Inr)
  let ?a1 = "a\<lparr>sa_rules := with_additional (sa_base_rules a) rules, sa_managed_items := Some ?n\<rparr>"
  have g: "sa_generation (bump_generation ?a1) \<noteq> sa_generation a"
    using bump_changes [of ?a1] assms(1) by simp
  show ?thesis
  proof (cases "sa_managed_items a = None")
    case True
    with False m assms(2) have "a' = ?a1" by (simp add: replace_managed_policy_def)
    with m True show ?thesis by simp
  next
    case True: False
    with False m assms(2) have "a' = agent_clear_cache (bump_generation ?a1)"
      by (simp add: replace_managed_policy_def Let_def)
    with m g show ?thesis
      by (simp add: remembered_cleared) (simp add: agent_clear_cache_def bump_generation_def case_prod_beta)
  qed
qed

section \<open>A concrete agent\<close>

definition example_agent :: agent where
  "example_agent = \<lparr>sa_globs = witness_globs, sa_has_git = (\<lambda>_. False), sa_sha256 = id,
     sa_base_rules = rule_set_new [], sa_rules = rule_set_new [], sa_managed_items = None,
     sa_mode_world = example_mode_world [], sa_mode = example_mode_state,
     sa_grant_world = example_grant_world,
     sa_grants = example_cache\<lparr>gc_entries := example_entries\<rparr>, sa_generation = 0\<rparr>"

theorem mode_change_forgets_decisions_witness:
  "remembered example_agent \<lparr>cl_unix = 0, cl_instant = 0\<rparr> (example_key Read) = Some True \<and>
   remembered (fst (set_policy_mode example_agent NormalMode (Some 3) \<lparr>cl_unix = 0, cl_instant = 0\<rparr>))
     \<lparr>cl_unix = 0, cl_instant = 0\<rparr> (example_key Read) = None"
  using mode_change_forgets_decisions [of example_agent NormalMode "Some 3" "\<lparr>cl_unix = 0, cl_instant = 0\<rparr>",
      OF _ surjective_pairing]
  by (simp add: example_agent_def)
    (simp add: remembered_def grant_answer_def hm_get_def example_entries_def example_key_def unexpired_def NANOS_def)

theorem managed_policy_replacement_witness:
  "\<exists>a'. replace_managed_policy example_agent [] = Inr a' \<and> sa_managed_items a' = Some [] \<and>
     remembered a' = remembered example_agent"
proof -
  have n: "normalize_managed_policy [] = []" by (simp add: normalize_managed_policy_def)
  have m: "managed_rules witness_globs [] = Inr []" by (simp add: managed_rules_def)
  obtain a' where a': "replace_managed_policy example_agent [] = Inr a'"
    by (simp add: replace_managed_policy_def n m example_agent_def)
  from a' have "sa_generation a' = 0"
    by (auto simp: replace_managed_policy_def n m example_agent_def)
  with managed_policy_replacement [OF _ a'] a' show ?thesis
    by (auto simp: n example_agent_def)
qed

end
