(* ===== verification/Prompt_Flights.thy ===== *)
theory Prompt_Flights
  imports Agent
begin

text \<open>
  The threads inside \<open>SocketAgent::handle_prompt\<close> (\<open>floria-agent/src/agent.rs\<close>). Each access to shared
  state (the generation counter, the grant cache, the table of prompts in flight, the result of a
  flight) is one step; a run interleaves any number of requests with administrative operations and
  the passing of time.
\<close>

section \<open>Threads\<close>

text \<open>Where a request stands. A flight is named by a number in place of its address.\<close>

datatype pc =
    Enter
  | Loaded nat
  | Missed nat
  | Leading nat nat
  | Answered nat nat prompt_result nat
  | Verified nat nat client_decision grant_lifetime
  | Completing nat nat decision
  | Removing nat nat decision
  | Following nat
  | Returned decision

record request_thread =
  th_req :: auth_request
  th_key :: grant_key
  th_pc :: pc

record flights_config =
  fc_agent :: agent
  fc_clock :: clocks
  fc_flights :: "grant_key \<times> nat \<Rightarrow> nat option"
  fc_results :: "nat \<Rightarrow> decision option"
  fc_next :: nat
  fc_threads :: "nat \<Rightarrow> request_thread option"
  fc_approved :: "grant_key set"

text \<open>\<open>fc_approved\<close> is a history variable: the keys for which the app has answered a prompt with an
  allow. No step reads it.\<close>

definition goto :: "flights_config \<Rightarrow> nat \<Rightarrow> request_thread \<Rightarrow> pc \<Rightarrow> flights_config" where
  "goto c t th p = c\<lparr>fc_threads := (fc_threads c)(t \<mapsto> th\<lparr>th_pc := p\<rparr>)\<rparr>"

text \<open>One step of a thread at its program counter; \<open>answer\<close> is what the prompt returns if this is the
  step where it does, \<open>today\<close> the time left of the day. \<open>None\<close> when the thread is blocked or done.\<close>

definition thread_step ::
    "flights_config \<Rightarrow> nat \<Rightarrow> request_thread \<Rightarrow> prompt_result \<Rightarrow> nat \<Rightarrow> flights_config option" where
  "thread_step c t th answer today =
     (let a = fc_agent c; key = th_key th
      in case th_pc th of
           Enter \<Rightarrow> Some (goto c t th (Loaded (sa_generation a)))
         | Loaded g \<Rightarrow>
             (case cached_decision a (fc_clock c) key of
                (a', Some d) \<Rightarrow> Some (goto (c\<lparr>fc_agent := a'\<rparr>) t th (Returned d))
              | (a', None) \<Rightarrow> Some (goto (c\<lparr>fc_agent := a'\<rparr>) t th (Missed g)))
         | Missed g \<Rightarrow>
             (case cached_decision a (fc_clock c) key of
                (a', Some d) \<Rightarrow> Some (goto (c\<lparr>fc_agent := a'\<rparr>) t th (Returned d))
              | (a', None) \<Rightarrow>
                  (case fc_flights c (key, g) of
                     Some f \<Rightarrow> Some (goto (c\<lparr>fc_agent := a'\<rparr>) t th (Following f))
                   | None \<Rightarrow>
                       Some (goto (c\<lparr>fc_agent := a', fc_flights := (fc_flights c)((key, g) \<mapsto> fc_next c),
                              fc_results := (fc_results c)(fc_next c := None), fc_next := fc_next c + 1\<rparr>)
                              t th (Leading g (fc_next c)))))
         | Leading g f \<Rightarrow>
             Some (goto (c\<lparr>fc_approved := (if user_allowed answer then insert key (fc_approved c) else fc_approved c)\<rparr>)
                    t th (Answered g f answer today))
         | Answered g f result today' \<Rightarrow>
             (case result of
                PromptDecision d \<Rightarrow>
                  (case (if sa_generation a = g then lifetime_of today' d else None) of
                     Some l \<Rightarrow> Some (goto c t th (Verified g f d l))
                   | None \<Rightarrow> Some (goto c t th (Completing g f (answer_decision result))))
              | _ \<Rightarrow> Some (goto c t th (Completing g f (answer_decision result))))
         | Verified g f d l \<Rightarrow>
             Some (goto (c\<lparr>fc_agent := remember_answer a (fc_clock c) key l (grant_metadata_of (th_req th)) (cd_allow d)\<rparr>)
                    t th (Completing g f (answer_decision (PromptDecision d))))
         | Completing g f d \<Rightarrow>
             Some (goto (c\<lparr>fc_results := (fc_results c)(f \<mapsto> d)\<rparr>) t th (Removing g f d))
         | Removing g f d \<Rightarrow>
             Some (goto (c\<lparr>fc_flights :=
                     (if fc_flights c (key, g) = Some f then (fc_flights c)((key, g) := None) else fc_flights c)\<rparr>)
                    t th (Returned d))
         | Following f \<Rightarrow> map_option (\<lambda>d. goto c t th (Returned d)) (fc_results c f)
         | Returned d \<Rightarrow> None)"

section \<open>Runs\<close>

inductive flights_step :: "flights_config \<Rightarrow> flights_config \<Rightarrow> bool" where
  request: "fc_threads c t = None \<Longrightarrow>
    flights_step c (c\<lparr>fc_threads := (fc_threads c)(t \<mapsto> \<lparr>th_req = req, th_key = key, th_pc = Enter\<rparr>)\<rparr>)"
| thread: "fc_threads c t = Some th \<Longrightarrow> thread_step c t th answer today = Some c' \<Longrightarrow> flights_step c c'"
| tick: "not_before (fc_clock c) k \<Longrightarrow> flights_step c (c\<lparr>fc_clock := k\<rparr>)"
| bump: "flights_step c (c\<lparr>fc_agent := bump_generation (fc_agent c)\<rparr>)"
| clear: "flights_step c (c\<lparr>fc_agent := agent_clear_cache (fc_agent c)\<rparr>)"
| lock: "flights_step c (c\<lparr>fc_agent := revoke_lock_bound_grants (fc_agent c)\<rparr>)"
| revoke: "flights_step c (c\<lparr>fc_agent := fst (revoke_grant (fc_agent c) i)\<rparr>)"
| policy: "replace_managed_policy (fc_agent c) items = Inr a \<Longrightarrow> flights_step c (c\<lparr>fc_agent := a\<rparr>)"

definition flights_start :: "agent \<Rightarrow> clocks \<Rightarrow> flights_config" where
  "flights_start a k = \<lparr>fc_agent = a, fc_clock = k, fc_flights = (\<lambda>_. None), fc_results = (\<lambda>_. None),
     fc_next = 0, fc_threads = (\<lambda>_. None),
     fc_approved = {key. \<exists>r. hm_get (gc_entries (sa_grants a)) key = Some r \<and> gr_allowed r}\<rparr>"

inductive flights_run :: "agent \<Rightarrow> clocks \<Rightarrow> flights_config \<Rightarrow> bool" for a k where
  start: "flights_run a k (flights_start a k)"
| step: "flights_run a k c \<Longrightarrow> flights_step c c' \<Longrightarrow> flights_run a k c'"

section \<open>Who leads\<close>

fun leads :: "pc \<Rightarrow> (nat \<times> nat) option" where
  "leads (Leading g f) = Some (g, f)"
| "leads (Answered g f r d) = Some (g, f)"
| "leads (Verified g f d l) = Some (g, f)"
| "leads (Completing g f d) = Some (g, f)"
| "leads (Removing g f d) = Some (g, f)"
| "leads _ = None"

text \<open>The flights table and the threads agree: a flight in the table has exactly one leader, every
  leader's flight is in the table under its key and generation, and a follower's flight has a result
  or a leader that has yet to deliver one.\<close>

definition leads_flight :: "flights_config \<Rightarrow> nat \<Rightarrow> grant_key \<Rightarrow> nat \<Rightarrow> nat \<Rightarrow> bool" where
  "leads_flight c t key g f \<longleftrightarrow>
     (\<exists>th. fc_threads c t = Some th \<and> th_key th = key \<and> leads (th_pc th) = Some (g, f))"

definition flights_ok :: "flights_config \<Rightarrow> bool" where
  "flights_ok c \<longleftrightarrow>
     (\<forall>t key g f. leads_flight c t key g f \<longrightarrow> f < fc_next c \<and> fc_flights c (key, g) = Some f) \<and>
     (\<forall>t t' key key' g g' f. leads_flight c t key g f \<longrightarrow> leads_flight c t' key' g' f \<longrightarrow> t' = t) \<and>
     (\<forall>key g f. fc_flights c (key, g) = Some f \<longrightarrow> (\<exists>t. leads_flight c t key g f)) \<and>
     (\<forall>t th g f d. fc_threads c t = Some th \<longrightarrow> th_pc th = Removing g f d \<longrightarrow> fc_results c f = Some d) \<and>
     (\<forall>t th f. fc_threads c t = Some th \<longrightarrow> th_pc th = Following f \<longrightarrow>
        f < fc_next c \<and> (fc_results c f \<noteq> None \<or> (\<exists>t' g. leads_flight c t' (th_key th) g f))) \<and>
     (\<forall>t th g f. fc_threads c t = Some th \<longrightarrow> leads (th_pc th) = Some (g, f) \<longrightarrow>
        (\<forall>d. th_pc th \<noteq> Removing g f d) \<longrightarrow> fc_results c f = None)"

lemma leads_flight_goto:
  "leads_flight (goto c t th p) t' key g f \<longleftrightarrow>
     (if t' = t then th_key th = key \<and> leads p = Some (g, f) else leads_flight c t' key g f)"
  by (auto simp: leads_flight_def goto_def)

lemma leads_flight_at: "fc_threads c t = Some th \<Longrightarrow>
    leads_flight c t key g f \<longleftrightarrow> th_key th = key \<and> leads (th_pc th) = Some (g, f)"
  by (simp add: leads_flight_def)

lemma leads_flight_update [simp]:
  "leads_flight (c\<lparr>fc_agent := a\<rparr>) = leads_flight c" "leads_flight (c\<lparr>fc_clock := k\<rparr>) = leads_flight c"
  "leads_flight (c\<lparr>fc_flights := fl\<rparr>) = leads_flight c" "leads_flight (c\<lparr>fc_results := r\<rparr>) = leads_flight c"
  "leads_flight (c\<lparr>fc_next := n\<rparr>) = leads_flight c" "leads_flight (c\<lparr>fc_approved := s\<rparr>) = leads_flight c"
  by (intro ext; simp add: leads_flight_def)+

lemma flights_ok_update [simp]:
  "flights_ok (c\<lparr>fc_agent := a\<rparr>) = flights_ok c" "flights_ok (c\<lparr>fc_clock := k\<rparr>) = flights_ok c"
  "flights_ok (c\<lparr>fc_approved := s\<rparr>) = flights_ok c"
  by (simp_all add: flights_ok_def)

lemma goto_fields [simp]:
  "fc_flights (goto c t th p) = fc_flights c" "fc_results (goto c t th p) = fc_results c"
  "fc_next (goto c t th p) = fc_next c" "fc_agent (goto c t th p) = fc_agent c"
  "fc_threads (goto c t th p) = (fc_threads c)(t \<mapsto> th\<lparr>th_pc := p\<rparr>)"
  by (simp_all add: goto_def)

lemma same_leads:
  assumes "fc_threads c t = Some th" "leads p = leads (th_pc th)"
  shows "leads_flight (goto c t th p) = leads_flight c"
  using assms by (intro ext) (auto simp: leads_flight_goto leads_flight_at)

lemma goto_ok:
  assumes ok: "flights_ok c" and t: "fc_threads c t = Some th" and l: "leads p = leads (th_pc th)"
    and r: "\<And>g f d. p \<noteq> Removing g f d" and f: "\<And>f. p \<noteq> Following f"
    and nr: "\<And>g f d. th_pc th \<noteq> Removing g f d"
  shows "flights_ok (goto c t th p)"
  using ok r f nr t l unfolding flights_ok_def same_leads [OF t l] goto_fields
  by (simp split: if_splits)

lemma leader_in_table:
  "flights_ok c \<Longrightarrow> leads_flight c t key g f \<Longrightarrow> f < fc_next c \<and> fc_flights c (key, g) = Some f"
  by (simp add: flights_ok_def)

lemma leader_unique:
  "flights_ok c \<Longrightarrow> leads_flight c t key g f \<Longrightarrow> leads_flight c t' key' g' f \<Longrightarrow> t' = t"
  unfolding flights_ok_def by (elim conjE) metis

lemma table_led: "flights_ok c \<Longrightarrow> fc_flights c (key, g) = Some f \<Longrightarrow> \<exists>t. leads_flight c t key g f"
  by (simp add: flights_ok_def)

lemma removing_result:
  "flights_ok c \<Longrightarrow> fc_threads c t = Some th \<Longrightarrow> th_pc th = Removing g f d \<Longrightarrow> fc_results c f = Some d"
  unfolding flights_ok_def by (elim conjE) metis

lemma follower_served:
  "flights_ok c \<Longrightarrow> fc_threads c t = Some th \<Longrightarrow> th_pc th = Following f \<Longrightarrow>
   f < fc_next c \<and> (fc_results c f \<noteq> None \<or> (\<exists>t' g. leads_flight c t' (th_key th) g f))"
  unfolding flights_ok_def by (elim conjE) metis

lemma unanswered_flight:
  "flights_ok c \<Longrightarrow> fc_threads c t = Some th \<Longrightarrow> leads (th_pc th) = Some (g, f) \<Longrightarrow>
   (\<And>d. th_pc th \<noteq> Removing g f d) \<Longrightarrow> fc_results c f = None"
  unfolding flights_ok_def by (elim conjE) metis

lemma follow_ok:
  assumes ok: "flights_ok c" and t: "fc_threads c t = Some th" and p: "th_pc th = Missed g"
    and f: "fc_flights c (th_key th, g) = Some f"
  shows "flights_ok (goto c t th (Following f))"
proof -
  have l: "leads (Following f) = leads (th_pc th)" by (simp add: p)
  from table_led [OF ok f] obtain t' where "leads_flight c t' (th_key th) g f" ..
  moreover from leader_in_table [OF ok this] have "f < fc_next c" ..
  ultimately show ?thesis
    using ok unfolding flights_ok_def same_leads [OF t l] goto_fields by auto
qed

lemma lead_ok:
  assumes ok: "flights_ok c" and t: "fc_threads c t = Some th" and p: "th_pc th = Missed g"
    and f: "fc_flights c (th_key th, g) = None"
  shows "flights_ok (goto (c\<lparr>fc_flights := (fc_flights c)((th_key th, g) \<mapsto> fc_next c),
     fc_results := (fc_results c)(fc_next c := None), fc_next := Suc (fc_next c)\<rparr>) t th (Leading g (fc_next c)))"
    (is "flights_ok ?c")
proof -
  have nl: "\<not> leads_flight c t k g' f'" for k g' f' using t p by (simp add: leads_flight_def)
  have lf: "leads_flight ?c t' k g' f' \<longleftrightarrow>
      (if t' = t then k = th_key th \<and> g' = g \<and> f' = fc_next c else leads_flight c t' k g' f')" for t' k g' f'
    by (auto simp: leads_flight_goto)
  have old: "leads_flight c t' k g' f' \<Longrightarrow> f' < fc_next c \<and> fc_flights c (k, g') = Some f'" for t' k g' f'
    by (rule leader_in_table [OF ok])
  show ?thesis unfolding flights_ok_def
  proof (intro conjI allI impI)
    fix t' k g' f' assume "leads_flight ?c t' k g' f'"
    then show "f' < fc_next ?c" "fc_flights ?c (k, g') = Some f'"
      using old [of t' k g' f'] f by (auto simp: lf split: if_splits)
  next
    fix t1 t2 k1 k2 g1 g2 f' assume "leads_flight ?c t1 k1 g1 f'" "leads_flight ?c t2 k2 g2 f'"
    then show "t2 = t1"
      using old leader_unique [OF ok] by (auto simp: lf split: if_splits)
  next
    fix k g' f' assume new: "fc_flights ?c (k, g') = Some f'"
    show "\<exists>t'. leads_flight ?c t' k g' f'"
    proof (cases "(k, g') = (th_key th, g)")
      case True
      with new show ?thesis by (intro exI [of _ t]) (auto simp: leads_flight_goto)
    next
      case False
      with new have "fc_flights c (k, g') = Some f'" by auto
      from table_led [OF ok this] obtain t' where l: "leads_flight c t' k g' f'" ..
      with nl have "t' \<noteq> t" by blast
      with l show ?thesis by (intro exI [of _ t']) (simp add: lf)
    qed
  next
    fix t' th' g' f' d assume "fc_threads ?c t' = Some th'" "th_pc th' = Removing g' f' d"
    then have "fc_threads c t' = Some th'" "th_pc th' = Removing g' f' d" by (auto split: if_splits)
    moreover from this have "leads_flight c t' (th_key th') g' f'" by (simp add: leads_flight_def)
    ultimately show "fc_results ?c f' = Some d"
      using removing_result [OF ok] old by fastforce
  next
    fix t' th' f' assume "fc_threads ?c t' = Some th'" "th_pc th' = Following f'"
    then have "fc_threads c t' = Some th'" "th_pc th' = Following f'" by (auto split: if_splits)
    from follower_served [OF ok this] show "f' < fc_next ?c"
      and "fc_results ?c f' \<noteq> None \<or> (\<exists>t2 g2. leads_flight ?c t2 (th_key th') g2 f')"
      unfolding lf using nl by (simp, fastforce)
  next
    fix t' th' g' f' assume a: "fc_threads ?c t' = Some th'" "leads (th_pc th') = Some (g', f')"
      "\<forall>d. th_pc th' \<noteq> Removing g' f' d"
    show "fc_results ?c f' = None"
    proof (cases "t' = t")
      case True
      with a show ?thesis by auto
    next
      case False
      with a have "fc_threads c t' = Some th'" by simp
      with a unanswered_flight [OF ok this] show ?thesis by auto
    qed
  qed
qed

lemma complete_ok:
  assumes ok: "flights_ok c" and t: "fc_threads c t = Some th" and p: "th_pc th = Completing g f d"
  shows "flights_ok (goto (c\<lparr>fc_results := (fc_results c)(f \<mapsto> d)\<rparr>) t th (Removing g f d))"
proof -
  let ?c = "c\<lparr>fc_results := (fc_results c)(f \<mapsto> d)\<rparr>"
  have t': "fc_threads ?c t = Some th" and l: "leads (Removing g f d) = leads (th_pc th)" using t p by simp_all
  have me: "leads_flight c t (th_key th) g f" using t p by (simp add: leads_flight_def)
  have "t1 = t" if "fc_threads c t1 = Some th1" "th_pc th1 = Removing g1 f d1" for t1 th1 g1 d1
    using leader_unique [OF ok me, of t1 "th_key th1" g1] that by (simp add: leads_flight_def)
  moreover have "t1 = t" if "fc_threads c t1 = Some th1" "leads (th_pc th1) = Some (g1, f)" for t1 th1 g1
    using leader_unique [OF ok me, of t1 "th_key th1" g1] that by (simp add: leads_flight_def)
  ultimately show ?thesis
    using ok unfolding flights_ok_def same_leads [OF t' l] goto_fields by auto
qed

lemma remove_ok:
  assumes ok: "flights_ok c" and t: "fc_threads c t = Some th" and p: "th_pc th = Removing g f d"
  shows "flights_ok (goto (c\<lparr>fc_flights := (fc_flights c)((th_key th, g) := None)\<rparr>) t th (Returned d))"
    (is "flights_ok ?c")
proof -
  have me: "leads_flight c t (th_key th) g f" using t p by (simp add: leads_flight_def)
  have lf: "leads_flight ?c t' k g' f' \<longleftrightarrow> t' \<noteq> t \<and> leads_flight c t' k g' f'" for t' k g' f'
    by (auto simp: leads_flight_goto)
  have mine: "t' = t" if "leads_flight c t' (th_key th) g f'" for t' f'
    using leader_in_table [OF ok that] leader_in_table [OF ok me] leader_unique [OF ok me] that by auto
  have only: "k = th_key th \<and> g' = g" if "leads_flight c t k g' f'" for k g' f'
    using that t p by (simp add: leads_flight_def)
  show ?thesis unfolding flights_ok_def
  proof (intro conjI allI impI)
    fix t' k g' f' assume "leads_flight ?c t' k g' f'"
    then show "f' < fc_next ?c" "fc_flights ?c (k, g') = Some f'"
      using leader_in_table [OF ok, of t' k g' f'] mine by (auto simp: lf)
  next
    fix t1 t2 k1 k2 g1 g2 f' assume "leads_flight ?c t1 k1 g1 f'" "leads_flight ?c t2 k2 g2 f'"
    then show "t2 = t1" using leader_unique [OF ok] by (auto simp: lf)
  next
    fix k g' f' assume "fc_flights ?c (k, g') = Some f'"
    then have new: "(k, g') \<noteq> (th_key th, g)" and "fc_flights c (k, g') = Some f'" by (auto split: if_splits)
    from table_led [OF ok this(2)] obtain t' where l: "leads_flight c t' k g' f'" ..
    with only new have "t' \<noteq> t" by blast
    with l show "\<exists>t'. leads_flight ?c t' k g' f'" by (auto simp: lf)
  next
    fix t' th' g' f' d' assume "fc_threads ?c t' = Some th'" "th_pc th' = Removing g' f' d'"
    then show "fc_results ?c f' = Some d'"
      using removing_result [OF ok] by (auto split: if_splits)
  next
    fix t' th' f' assume "fc_threads ?c t' = Some th'" "th_pc th' = Following f'"
    then have "fc_threads c t' = Some th'" "th_pc th' = Following f'" by (auto split: if_splits)
    note served = follower_served [OF ok this]
    then show "f' < fc_next ?c" by simp
    show "fc_results ?c f' \<noteq> None \<or> (\<exists>t2 g2. leads_flight ?c t2 (th_key th') g2 f')"
    proof (cases "f' = f")
      case True
      with removing_result [OF ok t p] show ?thesis by simp
    next
      case False
      then have "t2 \<noteq> t" if "leads_flight c t2 k g2 f'" for t2 k g2
        using that t p by (auto simp: leads_flight_def)
      with served show ?thesis unfolding lf by fastforce
    qed
  next
    fix t' th' g' f' assume a: "fc_threads ?c t' = Some th'" "leads (th_pc th') = Some (g', f')"
      "\<forall>d. th_pc th' \<noteq> Removing g' f' d"
    then have "fc_threads c t' = Some th'" by (auto split: if_splits)
    with a unanswered_flight [OF ok this] show "fc_results ?c f' = None" by auto
  qed
qed

section \<open>Every step keeps the table consistent\<close>

lemma thread_step_ok:
  assumes ok: "flights_ok c" and t: "fc_threads c t = Some th"
    and s: "thread_step c t th answer today = Some c'"
  shows "flights_ok c'"
proof -
  have upd: "flights_ok (goto (c\<lparr>fc_agent := a\<rparr>) t th p)" "flights_ok (goto (c\<lparr>fc_approved := s\<rparr>) t th p)"
    if "leads p = leads (th_pc th)" "\<And>g f d. p \<noteq> Removing g f d" "\<And>f. p \<noteq> Following f"
      "\<And>g f d. th_pc th \<noteq> Removing g f d" for a p s
    using goto_ok [of "c\<lparr>fc_agent := a\<rparr>" t th p] goto_ok [of "c\<lparr>fc_approved := s\<rparr>" t th p] ok t that by simp_all
  have ok': "flights_ok (c\<lparr>fc_agent := a\<rparr>)" and t': "fc_threads (c\<lparr>fc_agent := a\<rparr>) t = Some th" for a
    using ok t by simp_all
  show ?thesis
  proof (cases "th_pc th")
    case (Missed g)
    obtain a' r where cd: "cached_decision (fc_agent c) (fc_clock c) (th_key th) = (a', r)" by fastforce
    show ?thesis
    proof (cases r)
      case None
      show ?thesis
      proof (cases "fc_flights c (th_key th, g)")
        case (Some f)
        with s Missed cd None follow_ok [OF ok' [of a'] t' Missed, of f] show ?thesis
          by (simp add: thread_step_def)
      next
        case none: None
        with s Missed cd None lead_ok [OF ok' [of a'] t' Missed] show ?thesis
          by (simp add: thread_step_def)
      qed
    next
      case (Some d)
      with s Missed cd upd(1) [of "Returned d" a'] show ?thesis by (simp add: thread_step_def)
    qed
  next
    case (Completing g f d)
    with s complete_ok [OF ok t Completing] show ?thesis by (simp add: thread_step_def)
  next
    case (Removing g f d)
    have "fc_flights c (th_key th, g) = Some f"
      using leader_in_table [OF ok, of t "th_key th" g f] t Removing by (simp add: leads_flight_def)
    with s Removing remove_ok [OF ok t Removing] show ?thesis by (simp add: thread_step_def)
  qed (use s upd goto_ok [OF ok t] in
      \<open>auto simp: thread_step_def split: option.splits prod.splits prompt_result.splits if_splits\<close>)
qed

lemma request_ok:
  assumes "flights_ok c" "fc_threads c t = None"
  shows "flights_ok (c\<lparr>fc_threads := (fc_threads c)(t \<mapsto> \<lparr>th_req = req, th_key = key, th_pc = Enter\<rparr>)\<rparr>)"
proof -
  have "leads_flight (c\<lparr>fc_threads := (fc_threads c)(t \<mapsto> \<lparr>th_req = req, th_key = key, th_pc = Enter\<rparr>)\<rparr>) =
      leads_flight c"
    using assms(2) by (intro ext) (auto simp: leads_flight_def)
  with assms show ?thesis by (simp add: flights_ok_def)
qed

lemma flights_step_ok: "flights_step c c' \<Longrightarrow> flights_ok c \<Longrightarrow> flights_ok c'"
  by (induction rule: flights_step.induct) (simp_all add: request_ok thread_step_ok)

lemma flights_run_ok: "flights_run a k c \<Longrightarrow> flights_ok c"
proof (induction rule: flights_run.induct)
  case start
  show ?case by (simp add: flights_ok_def flights_start_def leads_flight_def)
next
  case (step c c')
  show ?case by (rule flights_step_ok [OF step.hyps(2) step.IH])
qed

section \<open>Only the user allows\<close>

fun pc_grounded :: "bool \<Rightarrow> pc \<Rightarrow> bool" where
  "pc_grounded approved (Answered g f r today) = (user_allowed r \<longrightarrow> approved)"
| "pc_grounded approved (Verified g f d l) = (cd_allow d \<longrightarrow> approved)"
| "pc_grounded approved (Completing g f d) = (is_allowed d \<longrightarrow> approved)"
| "pc_grounded approved (Removing g f d) = (is_allowed d \<longrightarrow> approved)"
| "pc_grounded approved (Returned d) = (is_allowed d \<longrightarrow> approved)"
| "pc_grounded approved _ = True"

definition cache_grounded :: "agent \<Rightarrow> grant_key set \<Rightarrow> bool" where
  "cache_grounded a approved \<longleftrightarrow>
     (\<forall>key r. hm_get (gc_entries (sa_grants a)) key = Some r \<longrightarrow> gr_allowed r \<longrightarrow> key \<in> approved)"

definition grounded :: "flights_config \<Rightarrow> bool" where
  "grounded c \<longleftrightarrow>
     hm_wf (gc_entries (sa_grants (fc_agent c))) \<and>
     cache_grounded (fc_agent c) (fc_approved c) \<and>
     (\<forall>t th. fc_threads c t = Some th \<longrightarrow> pc_grounded (th_key th \<in> fc_approved c) (th_pc th)) \<and>
     (\<forall>t th f d. fc_threads c t = Some th \<longrightarrow> th_pc th = Following f \<longrightarrow> fc_results c f = Some d \<longrightarrow>
        is_allowed d \<longrightarrow> th_key th \<in> fc_approved c)"

lemma pc_grounded_mono: "pc_grounded b p \<Longrightarrow> (b \<Longrightarrow> b') \<Longrightarrow> pc_grounded b' p"
  by (cases p) auto

lemma cache_grounded_sub:
  assumes "cache_grounded a s" "\<And>key r. hm_get (gc_entries (sa_grants a')) key = Some r \<Longrightarrow>
    hm_get (gc_entries (sa_grants a)) key = Some r"
  shows "cache_grounded a' s"
  using assms by (auto simp: cache_grounded_def)

lemma cached_decision_sub:
  assumes "hm_wf (gc_entries (sa_grants a))" "cached_decision a k key = (a', r)"
  shows "hm_wf (gc_entries (sa_grants a'))"
    "hm_get (gc_entries (sa_grants a')) key' = Some rec \<Longrightarrow> hm_get (gc_entries (sa_grants a)) key' = Some rec"
    "r = Some d \<Longrightarrow> is_allowed d \<Longrightarrow> cache_grounded a s \<Longrightarrow> key \<in> s"
proof -
  have e: "gc_entries (sa_grants a') = (case hm_get (gc_entries (sa_grants a)) key of
        None \<Rightarrow> gc_entries (sa_grants a)
      | Some r \<Rightarrow> if unexpired k r then gc_entries (sa_grants a) else hm_remove key (gc_entries (sa_grants a)))"
    using assms(2) grant_decision_entries [of "sa_grant_world a" "sa_grants a" k key]
    by (auto simp: cached_decision_def split: prod.splits)
  show "hm_wf (gc_entries (sa_grants a'))" using assms(1) by (auto simp: e split: option.splits)
  show "hm_get (gc_entries (sa_grants a')) key' = Some rec \<Longrightarrow> hm_get (gc_entries (sa_grants a)) key' = Some rec"
    by (auto simp: e split: option.splits if_splits)
  show "r = Some d \<Longrightarrow> is_allowed d \<Longrightarrow> cache_grounded a s \<Longrightarrow> key \<in> s"
    using cached_decision_remembered [of a k key] assms(2)
    by (auto simp: remembered_def grant_answer_def cache_grounded_def split: option.splits if_splits)
qed

lemma remember_answer_grounded:
  assumes "hm_wf (gc_entries (sa_grants a))" "cache_grounded a s" "allowed \<Longrightarrow> key \<in> s"
  shows "hm_wf (gc_entries (sa_grants (remember_answer a k key l m allowed)))"
    "cache_grounded (remember_answer a k key l m allowed) s"
proof -
  obtain w gc r where i: "insert_decision (sa_grant_world a) (sa_grants a) k key l m allowed = (w, gc, r)"
    by (cases "insert_decision (sa_grant_world a) (sa_grants a) k key l m allowed")
  have "hm_wf (gc_entries gc) \<and> (\<forall>key' rec. hm_get (gc_entries gc) key' = Some rec \<longrightarrow> gr_allowed rec \<longrightarrow> key' \<in> s)"
  proof (cases r)
    case (Inl e)
    with insert_decision_Err [OF i [unfolded Inl]] assms(1,2) show ?thesis by (simp add: cache_grounded_def)
  next
    case (Inr u)
    show ?thesis
      by (rule insert_decision_Ok [OF i [unfolded Inr]]) (use assms in \<open>auto simp: cache_grounded_def split: if_splits\<close>)
  qed
  then show "hm_wf (gc_entries (sa_grants (remember_answer a k key l m allowed)))"
    "cache_grounded (remember_answer a k key l m allowed) s"
    by (simp_all add: remember_answer_def i cache_grounded_def)
qed

lemma goto_grounded:
  assumes "grounded c" "fc_threads c t = Some th" "pc_grounded (th_key th \<in> fc_approved c) p"
    and "\<And>f d. p = Following f \<Longrightarrow> fc_results c f = Some d \<Longrightarrow> is_allowed d \<Longrightarrow> th_key th \<in> fc_approved c"
  shows "grounded (goto c t th p)"
  using assms by (auto simp: grounded_def goto_def)

lemma grounded_agent:
  assumes "grounded c" "hm_wf (gc_entries (sa_grants a))" "cache_grounded a (fc_approved c)"
  shows "grounded (c\<lparr>fc_agent := a\<rparr>)"
  using assms by (simp add: grounded_def)

lemma grounded_cached:
  assumes g: "grounded c" and cd: "cached_decision (fc_agent c) k key = (a', r)"
  shows "grounded (c\<lparr>fc_agent := a'\<rparr>)" "r = Some d \<Longrightarrow> is_allowed d \<Longrightarrow> key \<in> fc_approved c"
proof -
  from g have wf: "hm_wf (gc_entries (sa_grants (fc_agent c)))" and cg: "cache_grounded (fc_agent c) (fc_approved c)"
    by (simp_all add: grounded_def)
  show "grounded (c\<lparr>fc_agent := a'\<rparr>)"
    by (rule grounded_agent [OF g cached_decision_sub(1) [OF wf cd] cache_grounded_sub [OF cg]])
      (rule cached_decision_sub(2) [OF wf cd])
  show "r = Some d \<Longrightarrow> is_allowed d \<Longrightarrow> key \<in> fc_approved c"
    using cached_decision_sub(3) [OF wf cd _ _ cg] by simp
qed

lemma grounded_results_None: "grounded c \<Longrightarrow> grounded (c\<lparr>fc_flights := fl, fc_results := (fc_results c)(f := None), fc_next := n\<rparr>)"
  by (auto simp: grounded_def)

lemma grounded_flights: "grounded (c\<lparr>fc_flights := fl\<rparr>) = grounded c"
  by (simp add: grounded_def)

lemma grounded_approved: "grounded c \<Longrightarrow> fc_approved c \<subseteq> s \<Longrightarrow> grounded (c\<lparr>fc_approved := s\<rparr>)"
  unfolding grounded_def cache_grounded_def using pc_grounded_mono by (simp add: subset_iff) blast

lemma follow_grounded:
  assumes ok: "flights_ok c" and g: "grounded c" and f: "fc_flights c (key, n) = Some f"
    and r: "fc_results c f = Some d" "is_allowed d"
  shows "key \<in> fc_approved c"
proof -
  from table_led [OF ok f] obtain t th where t: "fc_threads c t = Some th" "th_key th = key"
    "leads (th_pc th) = Some (n, f)"
    by (auto simp: leads_flight_def)
  with unanswered_flight [OF ok t(1,3)] r obtain d' where p: "th_pc th = Removing n f d'" by auto
  with removing_result [OF ok t(1) p] r have "d' = d" by simp
  with g t p r show ?thesis by (fastforce simp: grounded_def)
qed

lemma complete_grounded:
  assumes ok: "flights_ok c" and g: "grounded c" and t: "fc_threads c t = Some th" and p: "th_pc th = Completing n f d"
  shows "grounded (c\<lparr>fc_results := (fc_results c)(f \<mapsto> d)\<rparr>)"
proof -
  have me: "leads_flight c t (th_key th) n f" using t p by (simp add: leads_flight_def)
  have none: "fc_results c f = None" by (rule unanswered_flight [OF ok t]) (simp_all add: p)
  have d: "is_allowed d \<Longrightarrow> th_key th \<in> fc_approved c" using g t p by (fastforce simp: grounded_def)
  have "th_key th' = th_key th" if "fc_threads c t' = Some th'" "th_pc th' = Following f" for t' th'
  proof -
    from follower_served [OF ok that] none obtain t2 g2 where l: "leads_flight c t2 (th_key th') g2 f" by auto
    from leader_unique [OF ok me l] l me show ?thesis by (auto simp: leads_flight_def)
  qed
  with g d show ?thesis unfolding grounded_def by (auto split: if_splits)
qed

lemma thread_step_grounded:
  assumes ok: "flights_ok c" and gr: "grounded c" and t: "fc_threads c t = Some th"
    and s: "thread_step c t th answer today = Some c'"
  shows "grounded c'"
proof -
  have pg: "pc_grounded (th_key th \<in> fc_approved c) (th_pc th)" using gr t by (simp add: grounded_def)
  show ?thesis
  proof (cases "th_pc th")
    case (Loaded g)
    obtain a' r where cd: "cached_decision (fc_agent c) (fc_clock c) (th_key th) = (a', r)" by fastforce
    note gc = grounded_cached [OF gr cd]
    from s Loaded cd t gc show ?thesis
      by (cases r) (auto simp: thread_step_def intro!: goto_grounded)
  next
    case (Missed g)
    obtain a' r where cd: "cached_decision (fc_agent c) (fc_clock c) (th_key th) = (a', r)" by fastforce
    note gc = grounded_cached [OF gr cd]
    show ?thesis
    proof (cases r)
      case (Some d)
      with s Missed cd t gc show ?thesis by (auto simp: thread_step_def intro!: goto_grounded)
    next
      case None
      show ?thesis
      proof (cases "fc_flights c (th_key th, g)")
        case (Some f)
        from s Missed cd None Some have "c' = goto (c\<lparr>fc_agent := a'\<rparr>) t th (Following f)"
          by (simp add: thread_step_def)
        then show ?thesis using t gc(1) follow_grounded [OF ok gr Some] by (auto intro!: goto_grounded)
      next
        case fresh: None
        from s Missed cd None fresh grounded_results_None [OF gc(1)] t show ?thesis
          by (auto simp: thread_step_def intro!: goto_grounded)
      qed
    qed
  next
    case (Leading g f)
    from s Leading have c': "c' = goto (c\<lparr>fc_approved :=
        (if user_allowed answer then insert (th_key th) (fc_approved c) else fc_approved c)\<rparr>) t th (Answered g f answer today)"
      by (simp add: thread_step_def)
    show ?thesis unfolding c'
      by (rule goto_grounded [OF grounded_approved [OF gr]]) (use t in auto)
  next
    case (Answered g f r today')
    with s t gr pg show ?thesis
      by (auto simp: thread_step_def answer_decision_allowed user_allowed_def intro!: goto_grounded
          split: option.splits prompt_result.splits if_splits)
  next
    case (Verified g f d l)
    have "cd_allow d \<Longrightarrow> th_key th \<in> fc_approved c" using pg Verified by simp
    with gr have "grounded (c\<lparr>fc_agent :=
        remember_answer (fc_agent c) (fc_clock c) (th_key th) l (grant_metadata_of (th_req th)) (cd_allow d)\<rparr>)"
      by (intro grounded_agent remember_answer_grounded) (simp_all add: grounded_def)
    with s t Verified pg show ?thesis
      by (auto simp: thread_step_def answer_decision_allowed user_allowed_def intro!: goto_grounded)
  next
    case (Completing g f d)
    with s t pg complete_grounded [OF ok gr t Completing] show ?thesis
      by (auto simp: thread_step_def intro!: goto_grounded)
  next
    case (Following f)
    from s Following obtain d where d: "fc_results c f = Some d" and c': "c' = goto c t th (Returned d)"
      by (auto simp: thread_step_def)
    have "is_allowed d \<Longrightarrow> th_key th \<in> fc_approved c" using gr t Following d by (auto simp: grounded_def)
    then show ?thesis unfolding c' by (intro goto_grounded [OF gr t]) auto
  qed (use s t gr pg in \<open>auto simp: thread_step_def Let_def grounded_flights intro!: goto_grounded\<close>)
qed

lemma agent_sub_grounded:
  assumes "grounded c" "gc_entries (sa_grants a) = hm_retain keep (gc_entries (sa_grants (fc_agent c)))"
  shows "grounded (c\<lparr>fc_agent := a\<rparr>)"
  using assms by (intro grounded_agent) (auto simp: grounded_def cache_grounded_def split: option.splits if_splits)

lemma flights_step_grounded: "flights_step c c' \<Longrightarrow> flights_ok c \<Longrightarrow> grounded c \<Longrightarrow> grounded c'"
proof (induction rule: flights_step.induct)
  case (thread c t th answer today c')
  then show ?case using thread_step_grounded by blast
next
  case (clear c)
  then show ?case by (intro grounded_agent) (simp_all add: cache_grounded_def)
next
  case (lock c)
  then show ?case
    by (intro agent_sub_grounded) (auto simp: revoke_lock_bound_grants_def case_prod_beta Let_def clear_until_lock_entries)
next
  case (revoke c i)
  then show ?case
    by (intro agent_sub_grounded) (auto simp: revoke_grant_def case_prod_beta Let_def grant_revoke_entries)
next
  case (policy c items a)
  have "gc_entries (sa_grants a) = [] \<or> sa_grants a = sa_grants (fc_agent c)"
    using policy.hyps by (auto simp: replace_managed_policy_def Let_def and_then_eq_Inr split: if_splits)
  with policy.prems show ?case
    by (intro grounded_agent) (auto simp: grounded_def cache_grounded_def)
next
  case (bump c)
  then show ?case by (intro grounded_agent) (simp_all add: grounded_def cache_grounded_def)
qed (auto simp: grounded_def)

lemma flights_run_grounded:
  "flights_run a k c \<Longrightarrow> hm_wf (gc_entries (sa_grants a)) \<Longrightarrow> grounded c"
proof (induction rule: flights_run.induct)
  case start
  then show ?case by (auto simp: grounded_def flights_start_def cache_grounded_def)
next
  case (step c c')
  show ?case by (rule flights_step_grounded [OF step.hyps(2) flights_run_ok [OF step.hyps(1)] step.IH [OF step.prems]])
qed

section \<open>Properties\<close>

text \<open>(C3) Interactive access is allowed only on the user's word. Under every interleaving of
  concurrent requests, administrative operations and time, a request that goes through
  \<open>handle_prompt\<close> and comes back allowed has a key (subject, object, operation, enforcement) for which
  the app answered a prompt with an allow during this run, or for which an allowing decision was in
  the cache when it began.\<close>

theorem interactive_access_needs_approval:
  assumes "hm_wf (gc_entries (sa_grants a))" "flights_run a k c"
    and "fc_threads c t = Some th" "th_pc th = Returned d" "is_allowed d"
  shows "th_key th \<in> fc_approved c"
  using flights_run_grounded [OF assms(2,1)] assms(3-5) by (fastforce simp: grounded_def)

text \<open>Concurrent requests for one grant share one prompt: at any moment at most one thread has a
  prompt outstanding for a given key and generation, and it is the one the flights table names, so
  that the pointer comparison before a flight is removed never fails.\<close>

theorem one_prompt_per_grant:
  assumes "flights_run a k c"
    and "fc_threads c t = Some th" "leads (th_pc th) = Some (g, f)"
    and "fc_threads c t' = Some th'" "leads (th_pc th') = Some (g, f')" "th_key th' = th_key th"
  shows "t' = t \<and> f' = f \<and> fc_flights c (th_key th, g) = Some f"
proof -
  note ok = flights_run_ok [OF assms(1)]
  have l: "leads_flight c t (th_key th) g f" "leads_flight c t' (th_key th) g f'"
    using assms by (simp_all add: leads_flight_def)
  from leader_in_table [OF ok l(1)] leader_in_table [OF ok l(2)] have "f' = f" by simp
  with leader_unique [OF ok l(1)] l(2) leader_in_table [OF ok l(1)] show ?thesis by blast
qed

text \<open>(C29) Nobody waits for nothing: a request that waits for another's prompt can either return at
  once, with the decision of a prompt for its own key, or the thread that leads that prompt is
  still on its way and is itself never blocked on another thread.\<close>

theorem waiter_never_orphaned:
  assumes "flights_run a k c" "fc_threads c t = Some th" "th_pc th = Following f"
  shows "thread_step c t th answer today \<noteq> None \<or>
    (\<exists>t' th' g. fc_threads c t' = Some th' \<and> th_key th' = th_key th \<and> leads (th_pc th') = Some (g, f) \<and>
       thread_step c t' th' answer today \<noteq> None)"
proof (cases "fc_results c f")
  case (Some d)
  then show ?thesis using assms(3) by (simp add: thread_step_def)
next
  case None
  with follower_served [OF flights_run_ok [OF assms(1)] assms(2,3)] obtain t' th' g where
    l: "fc_threads c t' = Some th'" "th_key th' = th_key th" "leads (th_pc th') = Some (g, f)"
    by (auto simp: leads_flight_def)
  have "thread_step c t' th' answer today \<noteq> None"
    using l(3) by (cases "th_pc th'") (auto simp: thread_step_def Let_def split: prompt_result.splits option.splits)
  with l show ?thesis by blast
qed

section \<open>Concrete runs\<close>

datatype action = Request nat auth_request grant_key | Go nat prompt_result nat

fun act :: "flights_config \<Rightarrow> action \<Rightarrow> flights_config option" where
  "act c (Request t req key) =
     (if fc_threads c t = None
      then Some (c\<lparr>fc_threads := (fc_threads c)(t \<mapsto> \<lparr>th_req = req, th_key = key, th_pc = Enter\<rparr>)\<rparr>)
      else None)"
| "act c (Go t answer today) =
     (case fc_threads c t of None \<Rightarrow> None | Some th \<Rightarrow> thread_step c t th answer today)"

fun exec :: "flights_config \<Rightarrow> action list \<Rightarrow> flights_config option" where
  "exec c [] = Some c"
| "exec c (x # xs) = (case act c x of None \<Rightarrow> None | Some c' \<Rightarrow> exec c' xs)"

lemma act_step: "act c x = Some c' \<Longrightarrow> flights_step c c'"
  by (cases x) (auto intro: flights_step.intros split: if_splits option.splits)

lemma exec_run: "flights_run a k c \<Longrightarrow> exec c xs = Some c' \<Longrightarrow> flights_run a k c'"
proof (induction xs arbitrary: c)
  case (Cons x xs)
  then obtain c1 where "act c x = Some c1" "exec c1 xs = Some c'" by (auto split: option.splits)
  with Cons show ?case by (blast intro: flights_run.step act_step)
qed simp

definition quiet_agent :: agent where
  "quiet_agent = example_agent\<lparr>sa_grants := example_cache\<rparr>"

definition example_auth_request :: auth_request where
  "example_auth_request = \<lparr>req_path = ''secrets/a'', req_display = None, req_object_revision = None,
     req_operation = Read, req_context = None, req_identity = bare 7 501 20\<rparr>"

definition clock0 :: clocks where "clock0 = \<lparr>cl_unix = 0, cl_instant = 0\<rparr>"

definition allow_for_a_while :: prompt_result where
  "allow_for_a_while = PromptDecision \<lparr>cd_allow = True, cd_scope = Some ''ttl'', cd_ttl_secs = Some 60\<rparr>"

lemma quiet_cached:
  "gc_entries (sa_grants a) = [] \<Longrightarrow> cached_decision a k key = (a, None)"
  by (simp add: cached_decision_def grant_decision_def)

text \<open>One step at each program counter, for an agent that remembers nothing.\<close>

lemma quiet_steps:
  assumes "gc_entries (sa_grants (fc_agent c)) = []"
  shows "thread_step c t \<lparr>th_req = q, th_key = key, th_pc = Enter\<rparr> x y =
      Some (c\<lparr>fc_threads := (fc_threads c)(t \<mapsto> \<lparr>th_req = q, th_key = key, th_pc = Loaded (sa_generation (fc_agent c))\<rparr>)\<rparr>)"
    "thread_step c t \<lparr>th_req = q, th_key = key, th_pc = Loaded g\<rparr> x y =
      Some (c\<lparr>fc_threads := (fc_threads c)(t \<mapsto> \<lparr>th_req = q, th_key = key, th_pc = Missed g\<rparr>)\<rparr>)"
    "fc_flights c (key, g) = Some f \<Longrightarrow> thread_step c t \<lparr>th_req = q, th_key = key, th_pc = Missed g\<rparr> x y =
      Some (c\<lparr>fc_threads := (fc_threads c)(t \<mapsto> \<lparr>th_req = q, th_key = key, th_pc = Following f\<rparr>)\<rparr>)"
    "fc_flights c (key, g) = None \<Longrightarrow> thread_step c t \<lparr>th_req = q, th_key = key, th_pc = Missed g\<rparr> x y =
      Some (c\<lparr>fc_flights := (fc_flights c)((key, g) \<mapsto> fc_next c),
              fc_results := (fc_results c)(fc_next c := None), fc_next := fc_next c + 1,
              fc_threads := (fc_threads c)(t \<mapsto> \<lparr>th_req = q, th_key = key, th_pc = Leading g (fc_next c)\<rparr>)\<rparr>)"
  using quiet_cached [OF assms] by (simp_all add: thread_step_def goto_def)

lemma leading_step:
  "thread_step c t \<lparr>th_req = q, th_key = key, th_pc = Leading g f\<rparr> x y =
     Some (c\<lparr>fc_approved := (if user_allowed x then insert key (fc_approved c) else fc_approved c),
       fc_threads := (fc_threads c)(t \<mapsto> \<lparr>th_req = q, th_key = key, th_pc = Answered g f x y\<rparr>)\<rparr>)"
  by (simp add: thread_step_def goto_def)

text \<open>Request 0 leads a prompt, request 1 follows it; the app allows.\<close>

definition shared_prompt :: "action list" where
  "shared_prompt =
     [Request 0 example_auth_request (example_key Read), Request 1 example_auth_request (example_key Read),
      Go 0 NoApp 0, Go 0 NoApp 0, Go 0 NoApp 0,
      Go 1 NoApp 0, Go 1 NoApp 0, Go 1 NoApp 0,
      Go 0 allow_for_a_while 0]"

definition shared_config :: flights_config where
  "shared_config = the (exec (flights_start quiet_agent clock0) shared_prompt)"

lemma shared_exec: "exec (flights_start quiet_agent clock0) shared_prompt = Some shared_config"
  and shared_threads: "fc_threads shared_config 0 = Some \<lparr>th_req = example_auth_request, th_key = example_key Read,
      th_pc = Answered 0 0 allow_for_a_while 0\<rparr>"
    "fc_threads shared_config 1 = Some \<lparr>th_req = example_auth_request, th_key = example_key Read, th_pc = Following 0\<rparr>"
  and shared_agent: "fc_agent shared_config = quiet_agent" "fc_clock shared_config = clock0"
  and shared_approved: "fc_approved shared_config = {example_key Read}"
proof -
  have e: "gc_entries (sa_grants quiet_agent) = []" by (simp add: quiet_agent_def example_cache_def)
  have g: "sa_generation quiet_agent = 0" by (simp add: quiet_agent_def example_agent_def)
  let ?x = "exec (flights_start quiet_agent clock0) shared_prompt"
  have "\<exists>c. ?x = Some c \<and>
      fc_threads c 0 = Some \<lparr>th_req = example_auth_request, th_key = example_key Read,
        th_pc = Answered 0 0 allow_for_a_while 0\<rparr> \<and>
      fc_threads c 1 = Some \<lparr>th_req = example_auth_request, th_key = example_key Read, th_pc = Following 0\<rparr> \<and>
      fc_agent c = quiet_agent \<and> fc_clock c = clock0 \<and> fc_approved c = {example_key Read}"
    by (simp add: shared_prompt_def flights_start_def quiet_steps leading_step g e user_allowed_def
        allow_for_a_while_def)
  then obtain c where x: "?x = Some c" and rest:
      "fc_threads c 0 = Some \<lparr>th_req = example_auth_request, th_key = example_key Read,
        th_pc = Answered 0 0 allow_for_a_while 0\<rparr>"
      "fc_threads c 1 = Some \<lparr>th_req = example_auth_request, th_key = example_key Read, th_pc = Following 0\<rparr>"
      "fc_agent c = quiet_agent" "fc_clock c = clock0" "fc_approved c = {example_key Read}" by blast
  have c: "shared_config = c" unfolding shared_config_def x by (rule option.sel)
  show "?x = Some shared_config" unfolding c by (rule x)
  show "fc_threads shared_config 0 = Some \<lparr>th_req = example_auth_request, th_key = example_key Read,
      th_pc = Answered 0 0 allow_for_a_while 0\<rparr>"
    "fc_threads shared_config 1 = Some \<lparr>th_req = example_auth_request, th_key = example_key Read, th_pc = Following 0\<rparr>"
    "fc_agent shared_config = quiet_agent" "fc_clock shared_config = clock0"
    "fc_approved shared_config = {example_key Read}"
    unfolding c by (rule rest)+
qed

lemma shared_run: "flights_run quiet_agent clock0 shared_config"
  by (rule exec_run [OF flights_run.start shared_exec])

theorem one_prompt_per_grant_witness:
  "fc_flights shared_config (example_key Read, 0) = Some 0"
  using one_prompt_per_grant [OF shared_run shared_threads(1) _ shared_threads(1)] by simp

theorem waiter_never_orphaned_witness:
  "\<exists>t th g. fc_threads shared_config t = Some th \<and> leads (th_pc th) = Some (g, 0) \<and>
     thread_step shared_config t th NoApp 0 \<noteq> None \<or>
   thread_step shared_config 1 \<lparr>th_req = example_auth_request, th_key = example_key Read, th_pc = Following 0\<rparr> NoApp 0 \<noteq> None"
  using waiter_never_orphaned [OF shared_run shared_threads(2), of 0 NoApp 0] by auto

text \<open>A policy change between the generation check and the insertion: the administrative operation
  bumps the generation and clears the cache, and the answer given under the old regime is installed
  all the same.\<close>

lemma stale_answer_can_be_installed:
  assumes "fc_threads c t = Some th" "th_pc th = Verified g f d l" "sa_generation (fc_agent c) = g" "g < 2 ^ 64"
    and "record_lifetime_of (fc_clock c) l = Inr rl" "good_until (fc_clock c) l (fc_clock c)"
  shows "\<exists>c1 c2 c3. flights_step c c1 \<and> flights_step c1 c2 \<and> flights_step c2 c3 \<and>
    sa_generation (fc_agent c2) \<noteq> g \<and> gc_entries (sa_grants (fc_agent c2)) = [] \<and>
    sa_generation (fc_agent c3) \<noteq> g \<and>
    remembered (fc_agent c3) (fc_clock c) (th_key th) = Some (cd_allow d)"
proof -
  let ?c1 = "c\<lparr>fc_agent := bump_generation (fc_agent c)\<rparr>"
  let ?a2 = "agent_clear_cache (bump_generation (fc_agent c))"
  let ?c2 = "c\<lparr>fc_agent := ?a2\<rparr>"
  let ?m = "grant_metadata_of (th_req th)"
  let ?c3 = "goto (?c2\<lparr>fc_agent := remember_answer ?a2 (fc_clock c) (th_key th) l ?m (cd_allow d)\<rparr>) t th
    (Completing g f (answer_decision (PromptDecision d)))"
  have "flights_step c ?c1" by (rule flights_step.bump)
  moreover have "flights_step ?c1 ?c2" using flights_step.clear [of ?c1] by simp
  moreover have "flights_step ?c2 ?c3"
    by (rule flights_step.thread [of _ t th]) (use assms(1,2) in \<open>simp_all add: thread_step_def\<close>)
  moreover have "remembered (fc_agent ?c3) (fc_clock c) (th_key th) = Some (cd_allow d)"
  proof -
    let ?i = "insert_decision (sa_grant_world ?a2) (sa_grants ?a2) (fc_clock c) (th_key th) l ?m (cd_allow d)"
    have "insert_grant (sa_grant_world ?a2, sa_grants ?a2) (fc_clock c) (th_key th) l ?m (cd_allow d) =
        ((fst ?i, fst (snd ?i)), Inr ())"
      using insert_decision_surj [OF assms(5)] by (simp add: insert_grant_def case_prod_beta prod_eq_iff)
    from grants.query_inserted [OF this, of "fc_clock c"] assms(6) show ?thesis
      by (simp add: remembered_def remember_answer_def case_prod_beta query_grant_answer)
  qed
  moreover have "sa_generation ?a2 \<noteq> g" using bump_changes [of "fc_agent c"] assms(3,4) by simp
  moreover have "sa_generation (fc_agent ?c3) = sa_generation ?a2"
    by (simp add: remember_answer_def case_prod_beta)
  ultimately show ?thesis
    by (intro exI [of _ ?c1] exI [of _ ?c2] exI [of _ ?c3]) simp
qed

definition minute_decision :: client_decision where
  "minute_decision = \<lparr>cd_allow = True, cd_scope = Some ''ttl'', cd_ttl_secs = Some 60\<rparr>"

definition verified_thread :: request_thread where
  "verified_thread = \<lparr>th_req = example_auth_request, th_key = example_key Read,
     th_pc = Verified 0 0 minute_decision (TimedFor (60 * NANOS) ScopeTimed)\<rparr>"

lemma minute_lifetime:
  "record_lifetime_of clock0 (TimedFor (60 * NANOS) ScopeTimed) = Inr (Deadline (60 * NANOS) 60 ScopeTimed)"
  by (simp add: record_lifetime_of_def clock0_def MAXIMUM_TTL_def NANOS_def arith_defs instant_checked_add_def)

definition verified_config :: flights_config where
  "verified_config = shared_config\<lparr>fc_threads := (fc_threads shared_config)(0 \<mapsto> verified_thread)\<rparr>"

lemma verified_run: "flights_run quiet_agent clock0 verified_config"
proof (rule flights_run.step [OF shared_run flights_step.thread [OF shared_threads(1)]])
  have "sa_generation (fc_agent shared_config) = 0" by (simp add: shared_agent quiet_agent_def example_agent_def)
  then show "thread_step shared_config 0 \<lparr>th_req = example_auth_request, th_key = example_key Read,
      th_pc = Answered 0 0 allow_for_a_while 0\<rparr> NoApp 0 = Some verified_config"
    by (simp add: thread_step_def allow_for_a_while_def lifetime_of_def goto_def verified_config_def
        verified_thread_def minute_decision_def)
qed

text \<open>The race happens: an answer given under generation 0 is remembered after the policy change that
  moved to generation 1 and cleared the cache.\<close>

theorem stale_answer_race:
  "\<exists>c. flights_run quiet_agent clock0 c \<and> sa_generation (fc_agent c) \<noteq> 0 \<and>
     remembered (fc_agent c) clock0 (example_key Read) = Some True"
proof -
  have v: "fc_threads verified_config 0 = Some verified_thread" "sa_generation (fc_agent verified_config) = 0"
    "fc_clock verified_config = clock0"
    by (simp_all add: verified_config_def shared_agent quiet_agent_def example_agent_def)
  obtain c1 c2 c3 where s: "flights_step verified_config c1" "flights_step c1 c2" "flights_step c2 c3"
    and r: "sa_generation (fc_agent c3) \<noteq> 0" "remembered (fc_agent c3) clock0 (example_key Read) = Some True"
    using stale_answer_can_be_installed [OF v(1), of 0 0 minute_decision "TimedFor (60 * NANOS) ScopeTimed"]
      v(2,3) minute_lifetime
    by (force simp: verified_thread_def minute_decision_def clock0_def NANOS_def)
  from s have "flights_run quiet_agent clock0 c3" by (blast intro: flights_run.step verified_run)
  with r show ?thesis by blast
qed

theorem interactive_access_needs_approval_witness:
  "example_key Read \<in> fc_approved (the (exec verified_config [Go 0 NoApp 0, Go 0 NoApp 0, Go 1 NoApp 0]))"
proof -
  have v: "fc_threads verified_config 0 = Some verified_thread"
    "fc_threads verified_config 1 = Some \<lparr>th_req = example_auth_request, th_key = example_key Read, th_pc = Following 0\<rparr>"
    using shared_threads(2) by (simp_all add: verified_config_def)
  obtain c where c: "exec verified_config [Go 0 NoApp 0, Go 0 NoApp 0, Go 1 NoApp 0] = Some c"
    and t: "fc_threads c 1 = Some \<lparr>th_req = example_auth_request, th_key = example_key Read,
      th_pc = Returned (answer_decision (PromptDecision minute_decision))\<rparr>"
    using v(2) by (simp add: v(1) thread_step_def goto_def verified_thread_def Let_def)
  have "hm_wf (gc_entries (sa_grants quiet_agent))" by (simp add: quiet_agent_def example_cache_def)
  from interactive_access_needs_approval [OF this exec_run [OF verified_run c] t]
  show ?thesis unfolding c by (simp add: answer_decision_allowed user_allowed_def minute_decision_def)
qed

end
