(* ===== verification/File_Sessions.thy ===== *)
theory File_Sessions
  imports Rules
begin

text \<open>
  Open files of the mounted file system: read snapshots (\<open>floria-core/src/snapshot.rs\<close>), write buffers
  (\<open>floria-core/src/writebuf.rs\<close>), the per-process read sessions layered over shared handles
  (\<open>floria-fs/src/read_session.rs\<close>), and the handlers of \<open>floria-fs/src/lib.rs\<close> that serve an open handle.
  SHA-256 is a parameter; clock readings are arguments; \<open>usize\<close> is 64 bits wide.
\<close>

section \<open>Snapshots (snapshot.rs)\<close>

definition saturating_add_usize :: "nat \<Rightarrow> nat \<Rightarrow> nat" where
  "saturating_add_usize a b = min (a + b) (2 ^ 64 - 1)"

text \<open>The clamped slice every table serves.\<close>

definition slice :: "bytes \<Rightarrow> nat \<Rightarrow> nat \<Rightarrow> bytes" where
  "slice bs offset sz =
     (let start = min offset (length bs);
          fin = min (saturating_add_usize start sz) (length bs)
      in take (fin - start) (drop start bs))"

definition hash_to_version :: "bytes \<Rightarrow> string" where
  "hash_to_version hash = ''sha256:'' @ to_hex hash"

definition content_version_of :: "(bytes \<Rightarrow> bytes) \<Rightarrow> bytes \<Rightarrow> string" where
  "content_version_of sha256 bs = hash_to_version (sha256 bs)"

record open_state =
  os_ino :: nat
  os_identity :: process_identity
  os_bytes :: bytes
  os_opened_at :: nat
  os_content_hash :: bytes

record snapshot_table =
  st_next_fh :: nat
  st_open :: "nat \<Rightarrow> open_state option"

record opened_info =
  oi_fh :: nat
  oi_content_version :: string
  oi_size :: nat

record closed_info =
  ci_ino :: nat
  ci_content_version :: string
  ci_bytes_served :: nat
  ci_duration :: nat

definition snapshot_table_new :: snapshot_table where
  "snapshot_table_new = \<lparr>st_next_fh = 1, st_open = (\<lambda>_. None)\<rparr>"

definition snapshot_insert ::
    "(bytes \<Rightarrow> bytes) \<Rightarrow> nat \<Rightarrow> snapshot_table \<Rightarrow> nat \<Rightarrow> process_identity \<Rightarrow> bytes \<Rightarrow> snapshot_table \<times> opened_info" where
  "snapshot_insert sha256 now t ino identity bs =
     (let fh = st_next_fh t;
          st = \<lparr>os_ino = ino, os_identity = identity, os_bytes = bs, os_opened_at = now,
                os_content_hash = sha256 bs\<rparr>
      in (\<lparr>st_next_fh = wrapping_add_u64 fh 1, st_open = (st_open t)(fh \<mapsto> st)\<rparr>,
          \<lparr>oi_fh = fh, oi_content_version = hash_to_version (os_content_hash st), oi_size = length bs\<rparr>))"

definition snapshot_read_slice :: "snapshot_table \<Rightarrow> nat \<Rightarrow> nat \<Rightarrow> nat \<Rightarrow> bytes option" where
  "snapshot_read_slice t fh offset sz = map_option (\<lambda>s. slice (os_bytes s) offset sz) (st_open t fh)"

definition snapshot_remove :: "nat \<Rightarrow> snapshot_table \<Rightarrow> nat \<Rightarrow> snapshot_table \<times> closed_info option" where
  "snapshot_remove now t fh =
     (case st_open t fh of
        None \<Rightarrow> (t, None)
      | Some s \<Rightarrow>
          (t\<lparr>st_open := (st_open t)(fh := None)\<rparr>,
           Some \<lparr>ci_ino = os_ino s, ci_content_version = hash_to_version (os_content_hash s),
                 ci_bytes_served = length (os_bytes s), ci_duration = now - os_opened_at s\<rparr>))"

definition snapshot_get_identity :: "snapshot_table \<Rightarrow> nat \<Rightarrow> process_identity option" where
  "snapshot_get_identity t fh = map_option os_identity (st_open t fh)"

section \<open>Write buffers (writebuf.rs)\<close>

definition WRITE_FH_BASE :: nat where "WRITE_FH_BASE = 2 ^ 32"
definition MAX_WRITE_BYTES :: nat where "MAX_WRITE_BYTES = 16 * 1024 * 1024"

record write_state =
  ws_ino :: nat
  ws_identity :: process_identity
  ws_buf :: bytes
  ws_dirty :: bool
  ws_opened_at :: nat

record write_buf_table =
  wt_next_fh :: nat
  wt_open :: "nat \<Rightarrow> write_state option"

datatype write_err = BadHandle | TooBig

record closed_write =
  cw_ino :: nat
  cw_identity :: process_identity
  cw_dirty_bytes :: "bytes option"
  cw_size :: nat
  cw_duration :: nat

definition write_buf_table_new :: write_buf_table where
  "write_buf_table_new = \<lparr>wt_next_fh = WRITE_FH_BASE, wt_open = (\<lambda>_. None)\<rparr>"

definition owns :: "nat \<Rightarrow> bool" where
  "owns fh \<longleftrightarrow> WRITE_FH_BASE \<le> fh"

definition write_insert ::
    "nat \<Rightarrow> write_buf_table \<Rightarrow> nat \<Rightarrow> process_identity \<Rightarrow> bytes \<Rightarrow> write_buf_table \<times> nat" where
  "write_insert now t ino identity initial =
     (let fh = wt_next_fh t
      in (\<lparr>wt_next_fh = wrapping_add_u64 fh 1,
           wt_open = (wt_open t)(fh \<mapsto> \<lparr>ws_ino = ino, ws_identity = identity, ws_buf = initial,
             ws_dirty = False, ws_opened_at = now\<rparr>)\<rparr>, fh))"

text \<open>\<open>Vec::resize\<close> with zeros.\<close>

definition resize :: "bytes \<Rightarrow> nat \<Rightarrow> bytes" where
  "resize bs n = take n bs @ replicate (n - length bs) 0"

definition write_at :: "write_buf_table \<Rightarrow> nat \<Rightarrow> nat \<Rightarrow> bytes \<Rightarrow> write_buf_table \<times> (write_err + nat)" where
  "write_at t fh offset data =
     (case wt_open t fh of
        None \<Rightarrow> (t, Inl BadHandle)
      | Some s \<Rightarrow>
          (let fin = saturating_add_u64 offset (length data)
           in if MAX_WRITE_BYTES < fin then (t, Inl TooBig)
              else
                (let buf = (if length (ws_buf s) < fin then resize (ws_buf s) fin else ws_buf s);
                     buf = take offset buf @ data @ drop fin buf
                 in (t\<lparr>wt_open := (wt_open t)(fh \<mapsto> s\<lparr>ws_buf := buf, ws_dirty := True\<rparr>)\<rparr>,
                     Inr (as_u32 (length data))))))"

definition write_truncate :: "write_buf_table \<Rightarrow> nat \<Rightarrow> nat \<Rightarrow> write_buf_table \<times> (write_err + unit)" where
  "write_truncate t fh sz =
     (if MAX_WRITE_BYTES < sz then (t, Inl TooBig)
      else
        (case wt_open t fh of
           None \<Rightarrow> (t, Inl BadHandle)
         | Some s \<Rightarrow>
             (t\<lparr>wt_open := (wt_open t)(fh \<mapsto> s\<lparr>ws_buf := resize (ws_buf s) sz, ws_dirty := True\<rparr>)\<rparr>, Inr ())))"

definition write_read_slice :: "write_buf_table \<Rightarrow> nat \<Rightarrow> nat \<Rightarrow> nat \<Rightarrow> bytes option" where
  "write_read_slice t fh offset sz = map_option (\<lambda>s. slice (ws_buf s) offset sz) (wt_open t fh)"

definition write_len :: "write_buf_table \<Rightarrow> nat \<Rightarrow> nat option" where
  "write_len t fh = map_option (\<lambda>s. length (ws_buf s)) (wt_open t fh)"

definition take_dirty :: "write_buf_table \<Rightarrow> nat \<Rightarrow> write_buf_table \<times> bytes option" where
  "take_dirty t fh =
     (case wt_open t fh of
        None \<Rightarrow> (t, None)
      | Some s \<Rightarrow>
          if \<not> ws_dirty s then (t, None)
          else (t\<lparr>wt_open := (wt_open t)(fh \<mapsto> s\<lparr>ws_dirty := False\<rparr>)\<rparr>, Some (ws_buf s)))"

definition mark_dirty :: "write_buf_table \<Rightarrow> nat \<Rightarrow> write_buf_table" where
  "mark_dirty t fh =
     (case wt_open t fh of
        None \<Rightarrow> t
      | Some s \<Rightarrow> t\<lparr>wt_open := (wt_open t)(fh \<mapsto> s\<lparr>ws_dirty := True\<rparr>)\<rparr>)"

definition write_get_identity :: "write_buf_table \<Rightarrow> nat \<Rightarrow> process_identity option" where
  "write_get_identity t fh = map_option ws_identity (wt_open t fh)"

definition is_owner :: "write_buf_table \<Rightarrow> nat \<Rightarrow> process_instance \<Rightarrow> bool" where
  "is_owner t fh process =
     (case wt_open t fh of None \<Rightarrow> False | Some s \<Rightarrow> instance_of (ws_identity s) = process)"

definition ino_of :: "write_buf_table \<Rightarrow> nat \<Rightarrow> nat option" where
  "ino_of t fh = map_option ws_ino (wt_open t fh)"

definition write_remove :: "nat \<Rightarrow> write_buf_table \<Rightarrow> nat \<Rightarrow> write_buf_table \<times> closed_write option" where
  "write_remove now t fh =
     (case wt_open t fh of
        None \<Rightarrow> (t, None)
      | Some s \<Rightarrow>
          (t\<lparr>wt_open := (wt_open t)(fh := None)\<rparr>,
           Some \<lparr>cw_ino = ws_ino s, cw_identity = ws_identity s,
             cw_dirty_bytes = (if ws_dirty s then Some (ws_buf s) else None),
             cw_size = length (ws_buf s), cw_duration = now - ws_opened_at s\<rparr>))"

section \<open>Read sessions (read_session.rs)\<close>

datatype read_session_error = SessionBadHandle | Generate int
datatype existing_read = Hit bytes | Missing | NoHandle

text \<open>A reader's slot is present once it was created successfully; a failed creation leaves none.\<close>

record read_session_table =
  rt_base :: snapshot_table
  rt_readers :: "nat \<times> process_instance \<Rightarrow> bytes option"

definition read_session_table_new :: read_session_table where
  "read_session_table_new = \<lparr>rt_base = snapshot_table_new, rt_readers = (\<lambda>_. None)\<rparr>"

definition session_insert ::
    "(bytes \<Rightarrow> bytes) \<Rightarrow> nat \<Rightarrow> read_session_table \<Rightarrow> nat \<Rightarrow> process_identity \<Rightarrow> bytes \<Rightarrow> read_session_table \<times> opened_info" where
  "session_insert sha256 now t ino identity bs =
     (case snapshot_insert sha256 now (rt_base t) ino identity bs of
        (b, info) \<Rightarrow> (t\<lparr>rt_base := b\<rparr>, info))"

definition read_existing_secondary :: "read_session_table \<Rightarrow> nat \<Rightarrow> process_instance \<Rightarrow> nat \<Rightarrow> nat \<Rightarrow> existing_read" where
  "read_existing_secondary t fh process offset sz =
     (case rt_readers t (fh, process) of
        None \<Rightarrow> Missing
      | Some bs \<Rightarrow> Hit (slice bs offset sz))"

definition read_existing :: "read_session_table \<Rightarrow> nat \<Rightarrow> process_instance \<Rightarrow> nat \<Rightarrow> nat \<Rightarrow> existing_read" where
  "read_existing t fh process offset sz =
     (case snapshot_get_identity (rt_base t) fh of
        None \<Rightarrow> NoHandle
      | Some base_identity \<Rightarrow>
          if instance_of base_identity = process
          then (case snapshot_read_slice (rt_base t) fh offset sz of None \<Rightarrow> NoHandle | Some bs \<Rightarrow> Hit bs)
          else read_existing_secondary t fh process offset sz)"

text \<open>\<open>create\<close> is run at most once, and only when the slot is empty: the last component says whether
  it did.\<close>

definition read_secondary ::
    "read_session_table \<Rightarrow> nat \<Rightarrow> process_identity \<Rightarrow> nat \<Rightarrow> nat \<Rightarrow> (int + bytes) \<Rightarrow>
      read_session_table \<times> (read_session_error + bytes) \<times> bool" where
  "read_secondary t fh identity offset sz create =
     (case rt_readers t (fh, instance_of identity) of
        Some bs \<Rightarrow> (t, Inr (slice bs offset sz), False)
      | None \<Rightarrow>
          (case create of
             Inr bs \<Rightarrow>
               (t\<lparr>rt_readers := (rt_readers t)((fh, instance_of identity) \<mapsto> bs)\<rparr>,
                Inr (slice bs offset sz), True)
           | Inl code \<Rightarrow> (t, Inl (Generate code), True)))"

definition read_or_create ::
    "read_session_table \<Rightarrow> nat \<Rightarrow> process_identity \<Rightarrow> nat \<Rightarrow> nat \<Rightarrow> (int + bytes) \<Rightarrow>
      read_session_table \<times> (read_session_error + bytes) \<times> bool" where
  "read_or_create t fh identity offset sz create =
     (case snapshot_get_identity (rt_base t) fh of
        None \<Rightarrow> (t, Inl SessionBadHandle, False)
      | Some base_identity \<Rightarrow>
          if instance_of base_identity = instance_of identity
          then (t, ok_or (snapshot_read_slice (rt_base t) fh offset sz) SessionBadHandle, False)
          else read_secondary t fh identity offset sz create)"

definition session_remove :: "nat \<Rightarrow> read_session_table \<Rightarrow> nat \<Rightarrow> read_session_table \<times> closed_info option" where
  "session_remove now t fh =
     (case snapshot_remove now (rt_base t) fh of
        (b, info) \<Rightarrow>
          (\<lparr>rt_base = b, rt_readers = (\<lambda>(f, p). if f = fh then None else rt_readers t (f, p))\<rparr>, info))"

section \<open>Handlers (floria-fs/src/lib.rs)\<close>

datatype errno = EBADF | EACCES | EFBIG | EPERM | ENOENT | EIO | Code int

datatype reply = ReplyData bytes | ReplyError errno | ReplyWritten nat | ReplyOk | ReplyAttr nat

datatype 'p write_open_target = SecretTarget string string | DirectEnvFileTarget 'p string

fun target_virtual_path :: "'p write_open_target \<Rightarrow> string" where
  "target_virtual_path (SecretTarget i path) = path"
| "target_virtual_path (DirectEnvFileTarget plan path) = path"

text \<open>What the audit log is told; a close names its inode, from which the path is looked up when there
  is no target.\<close>

datatype fs_event =
    WriteCommit string nat nat string nat
  | CrossProcessDenied nat
  | WriteClose "string option" nat nat nat bool
  | ReadClose nat nat

text \<open>The shared state; \<open>sh_store\<close> is the version store behind the write targets, whose commit action
  is an argument of the handlers that reach it.\<close>

record ('p, 'st) shared =
  sh_reads :: read_session_table
  sh_writes :: write_buf_table
  sh_targets :: "nat \<Rightarrow> 'p write_open_target option"
  sh_store :: 'st
  sh_events :: "fs_event list"

type_synonym ('p, 'st) commit_action = "'p write_open_target \<Rightarrow> bytes \<Rightarrow> 'st \<Rightarrow> 'st \<times> (errno + nat)"

definition log_event :: "('p, 'st) shared \<Rightarrow> fs_event \<Rightarrow> ('p, 'st) shared" where
  "log_event s e = s\<lparr>sh_events := sh_events s @ [e]\<rparr>"

definition commit_write ::
    "(bytes \<Rightarrow> bytes) \<Rightarrow> ('p, 'st) commit_action \<Rightarrow> bool \<Rightarrow> ('p, 'st) shared \<Rightarrow> nat \<Rightarrow> ('p, 'st) shared \<times> (errno + bool)" where
  "commit_write sha256 commit audit_ok s fh =
     (case take_dirty (sh_writes s) fh of
        (_, None) \<Rightarrow> (s, Inr False)
      | (w, Some bs) \<Rightarrow>
          (case sh_targets s fh of
             None \<Rightarrow> (s\<lparr>sh_writes := mark_dirty w fh\<rparr>, Inl EIO)
           | Some target \<Rightarrow>
               (case commit target bs (sh_store s) of
                  (store, Inl e) \<Rightarrow> (s\<lparr>sh_writes := mark_dirty w fh, sh_store := store\<rparr>, Inl e)
                | (store, Inr version) \<Rightarrow>
                    (let s' = s\<lparr>sh_writes := w, sh_store := store\<rparr>
                     in if audit_ok
                        then (log_event s' (WriteCommit (target_virtual_path target) fh version
                                (content_version_of sha256 bs) (length bs)), Inr True)
                        else (s', Inl EIO)))))"

text \<open>\<open>read\<close>: the part on the event loop, and the part on the pool (with what authorizing and generating
  a snapshot for this process would give).\<close>

definition read_fast :: "('p, 'st) shared \<Rightarrow> nat \<Rightarrow> process_instance \<Rightarrow> nat \<Rightarrow> nat \<Rightarrow> reply option" where
  "read_fast s fh process offset sz =
     (let existing =
            (if owns fh
             then if is_owner (sh_writes s) fh process
                  then (case write_read_slice (sh_writes s) fh offset sz of
                          Some bs \<Rightarrow> Hit bs
                        | None \<Rightarrow> NoHandle)
                  else read_existing_secondary (sh_reads s) fh process offset sz
             else read_existing (sh_reads s) fh process offset sz)
      in case existing of
           Hit bs \<Rightarrow> Some (ReplyData bs)
         | NoHandle \<Rightarrow> Some (ReplyError EBADF)
         | Missing \<Rightarrow> None)"

definition session_reply :: "read_session_error + bytes \<Rightarrow> reply" where
  "session_reply r =
     (case r of
        Inr bs \<Rightarrow> ReplyData bs
      | Inl SessionBadHandle \<Rightarrow> ReplyError EBADF
      | Inl (Generate e) \<Rightarrow> ReplyError (Code e))"

definition handle_uncached_read ::
    "('p, 'st) shared \<Rightarrow> nat \<Rightarrow> process_identity \<Rightarrow> nat \<Rightarrow> nat \<Rightarrow> (int + bytes) \<Rightarrow> ('p, 'st) shared \<times> reply" where
  "handle_uncached_read s fh identity offset sz create =
     (if owns fh
      then (case write_get_identity (sh_writes s) fh of
              None \<Rightarrow> (s, ReplyError EBADF)
            | Some writer \<Rightarrow>
                if instance_of writer = instance_of identity
                then (s, session_reply (ok_or (write_read_slice (sh_writes s) fh offset sz) SessionBadHandle))
                else (case read_secondary (sh_reads s) fh identity offset sz create of
                        (t, r, _) \<Rightarrow> (s\<lparr>sh_reads := t\<rparr>, session_reply r)))
      else (case read_or_create (sh_reads s) fh identity offset sz create of
              (t, r, _) \<Rightarrow> (s\<lparr>sh_reads := t\<rparr>, session_reply r)))"

definition fs_read ::
    "('p, 'st) shared \<Rightarrow> nat \<Rightarrow> process_identity \<Rightarrow> nat \<Rightarrow> nat \<Rightarrow> (int + bytes) \<Rightarrow> ('p, 'st) shared \<times> reply" where
  "fs_read s fh identity offset sz create =
     (case read_fast s fh (instance_of identity) offset sz of
        Some r \<Rightarrow> (s, r)
      | None \<Rightarrow> handle_uncached_read s fh identity offset sz create)"

definition fs_write ::
    "('p, 'st) shared \<Rightarrow> nat \<Rightarrow> nat \<Rightarrow> process_instance \<Rightarrow> nat \<Rightarrow> bytes \<Rightarrow> ('p, 'st) shared \<times> reply" where
  "fs_write s ino fh process offset data =
     (if owns fh \<and> \<not> is_owner (sh_writes s) fh process
      then (log_event s (CrossProcessDenied ino), ReplyError EACCES)
      else (case write_at (sh_writes s) fh offset data of
              (w, Inr n) \<Rightarrow> (s\<lparr>sh_writes := w\<rparr>, ReplyWritten n)
            | (w, Inl BadHandle) \<Rightarrow> (s, ReplyError EBADF)
            | (w, Inl TooBig) \<Rightarrow> (s, ReplyError EFBIG)))"

datatype setattr_plan = ApplyAttr "nat option" | Refuse

definition plan_setattr :: "bool \<Rightarrow> nat option \<Rightarrow> bool \<Rightarrow> bool \<Rightarrow> bool \<Rightarrow> bool \<Rightarrow> setattr_plan" where
  "plan_setattr has_write_fh sz wants_mode wants_owner wants_times wants_flags =
     (if wants_owner \<or> wants_flags then Refuse
      else if \<not> has_write_fh \<and> (sz \<noteq> None \<or> wants_mode \<or> wants_times) then Refuse
      else ApplyAttr sz)"

text \<open>\<open>setattr_attr\<close> finds the attributes of the inode; only its size on a write handle matters here, so
  the lookup is an argument.\<close>

definition fs_setattr ::
    "(nat \<Rightarrow> nat option \<Rightarrow> nat option) \<Rightarrow> ('p, 'st) shared \<Rightarrow> nat \<Rightarrow> nat option \<Rightarrow> process_instance \<Rightarrow>
      nat option \<Rightarrow> bool \<Rightarrow> bool \<Rightarrow> bool \<Rightarrow> bool \<Rightarrow> ('p, 'st) shared \<times> reply" where
  "fs_setattr attr_size s ino fh process sz wants_mode wants_owner wants_times wants_flags =
     (let write_fh = (case fh of Some f \<Rightarrow> if owns f then Some f else None | None \<Rightarrow> None);
          finish = (\<lambda>s'. case attr_size ino (Option.bind write_fh (write_len (sh_writes s'))) of
                          Some n \<Rightarrow> (s', ReplyAttr n)
                        | None \<Rightarrow> (s', ReplyError ENOENT))
      in if (case write_fh of Some f \<Rightarrow> \<not> is_owner (sh_writes s) f process | None \<Rightarrow> False)
         then (log_event s (CrossProcessDenied ino), ReplyError EACCES)
         else
           (case plan_setattr (write_fh \<noteq> None) sz wants_mode wants_owner wants_times wants_flags of
              Refuse \<Rightarrow> (s, ReplyError EPERM)
            | ApplyAttr None \<Rightarrow> finish s
            | ApplyAttr (Some new_size) \<Rightarrow>
                (case write_truncate (sh_writes s) (the write_fh) new_size of
                   (w, Inr _) \<Rightarrow> finish (s\<lparr>sh_writes := w\<rparr>)
                 | (w, Inl BadHandle) \<Rightarrow> (s, ReplyError EBADF)
                 | (w, Inl TooBig) \<Rightarrow> (s, ReplyError EFBIG))))"

text \<open>\<open>getattr\<close>, by what the namespaces and the tree know of the inode: a directory of the items, a file of
  the items, surfaces or secrets with the size of its committed content unless it is gone, or a node of the
  static tree. The handle is looked up without asking who uses it.\<close>

datatype inode_attr = NamespaceDir | NamespaceFile "nat option" | TreeNode "nat option"

definition fs_getattr :: "(nat \<Rightarrow> inode_attr) \<Rightarrow> ('p, 'st) shared \<Rightarrow> nat \<Rightarrow> nat option \<Rightarrow> reply" where
  "fs_getattr inode s ino fh =
     (case inode ino of
        NamespaceDir \<Rightarrow> ReplyAttr 4096
      | NamespaceFile attr \<Rightarrow>
          (case attr of
             None \<Rightarrow> ReplyError ENOENT
           | Some n \<Rightarrow>
               ReplyAttr (case Option.bind fh (\<lambda>f. if owns f then write_len (sh_writes s) f else None) of
                            Some len \<Rightarrow> len
                          | None \<Rightarrow> n))
      | TreeNode attr \<Rightarrow> (case attr of None \<Rightarrow> ReplyError ENOENT | Some n \<Rightarrow> ReplyAttr n))"

text \<open>\<open>fsync\<close> and \<open>flush\<close> do the same.\<close>

definition fs_flush ::
    "(bytes \<Rightarrow> bytes) \<Rightarrow> ('p, 'st) commit_action \<Rightarrow> bool \<Rightarrow> ('p, 'st) shared \<Rightarrow> nat \<Rightarrow> process_instance \<Rightarrow>
      ('p, 'st) shared \<times> reply" where
  "fs_flush sha256 commit audit_ok s fh process =
     (if \<not> owns fh \<or> \<not> is_owner (sh_writes s) fh process then (s, ReplyOk)
      else (case commit_write sha256 commit audit_ok s fh of
              (s', Inr _) \<Rightarrow> (s', ReplyOk)
            | (s', Inl e) \<Rightarrow> (s', ReplyError e)))"

definition fs_release ::
    "(bytes \<Rightarrow> bytes) \<Rightarrow> ('p, 'st) commit_action \<Rightarrow> bool \<Rightarrow> nat \<Rightarrow> ('p, 'st) shared \<Rightarrow> nat \<Rightarrow> ('p, 'st) shared \<times> reply" where
  "fs_release sha256 commit audit_ok now s fh =
     (if owns fh
      then
        (let (s1, r) = commit_write sha256 commit audit_ok s fh;
             target = sh_targets s1 fh;
             s2 = s1\<lparr>sh_targets := (sh_targets s1)(fh := None)\<rparr>;
             (w, closed) = write_remove now (sh_writes s2) fh;
             s3 = s2\<lparr>sh_writes := w\<rparr>;
             s4 = (case closed of
                     None \<Rightarrow> s3
                   | Some c \<Rightarrow> log_event s3 (WriteClose
                       (map_option target_virtual_path target) (cw_ino c) fh (cw_size c) (is_ok r)))
         in (s4\<lparr>sh_reads := fst (session_remove now (sh_reads s4) fh)\<rparr>, ReplyOk))
      else
        (case session_remove now (sh_reads s) fh of
           (t, None) \<Rightarrow> (s\<lparr>sh_reads := t\<rparr>, ReplyOk)
         | (t, Some info) \<Rightarrow> (log_event (s\<lparr>sh_reads := t\<rparr>) (ReadClose fh (ci_bytes_served info)), ReplyOk)))"

section \<open>Slices and buffers\<close>

lemma length_resize [simp]: "length (resize bs n) = n"
  by (simp add: resize_def)

lemma nth_resize: "i < n \<Longrightarrow> resize bs n ! i = (if i < length bs then bs ! i else 0)"
  by (auto simp: resize_def nth_append)

text \<open>The effect of a write on a buffer: a positional overwrite with zero fill.\<close>

definition overwrite :: "bytes \<Rightarrow> nat \<Rightarrow> bytes \<Rightarrow> bytes" where
  "overwrite bs offset data =
     map (\<lambda>i. if offset \<le> i \<and> i < offset + length data then data ! (i - offset)
              else if i < length bs then bs ! i else 0)
       [0..<max (length bs) (offset + length data)]"

lemma splice_overwrite:
  assumes "buf = (if length bs < offset + length data then resize bs (offset + length data) else bs)"
  shows "take offset buf @ data @ drop (offset + length data) buf = overwrite bs offset data"
proof (rule nth_equalityI)
  have lb: "length buf = max (length bs) (offset + length data)" using assms by auto
  then show "length (take offset buf @ data @ drop (offset + length data) buf) = length (overwrite bs offset data)"
    by (auto simp: overwrite_def)
  fix i assume "i < length (take offset buf @ data @ drop (offset + length data) buf)"
  then have i: "i < length buf" using lb by auto
  have bi: "buf ! i = (if i < length bs then bs ! i else 0)" using assms i by (auto simp: nth_resize)
  show "(take offset buf @ data @ drop (offset + length data) buf) ! i = overwrite bs offset data ! i"
    using i lb bi by (auto simp: overwrite_def nth_append)
qed

lemma slice_eq:
  assumes "length bs < 2 ^ 64"
  shows "slice bs offset sz = take sz (drop offset bs)"
proof (cases "offset \<le> length bs")
  case True
  then have "min (saturating_add_usize offset sz) (length bs) - offset = min sz (length bs - offset)"
    using assms by (auto simp: saturating_add_usize_def)
  with True show ?thesis by (simp add: slice_def min_def)
qed (simp add: slice_def)

text \<open>Positional writes behave as POSIX promises: a write that is accepted leaves every byte
  outside its range as it was, fills a gap with zeros, reports the number of bytes, and marks the
  session for commit; it is refused exactly when it would end beyond 16 MiB. What is read back is
  what was written, and other handles are untouched.\<close>

theorem write_at_behaves:
  assumes "wt_open t fh = Some s" "length data < 2 ^ 32" "write_at t fh offset data = (t', r)"
  shows "if MAX_WRITE_BYTES < offset + length data then r = Inl TooBig \<and> t' = t
    else r = Inr (length data) \<and>
      wt_open t' fh = Some (s\<lparr>ws_buf := overwrite (ws_buf s) offset data, ws_dirty := True\<rparr>) \<and>
      (length (ws_buf s) < 2 ^ 64 \<longrightarrow> write_read_slice t' fh offset (length data) = Some data) \<and>
      (\<forall>fh'. fh' \<noteq> fh \<longrightarrow> wt_open t' fh' = wt_open t fh')"
proof (cases "MAX_WRITE_BYTES < offset + length data")
  case True
  then have "MAX_WRITE_BYTES < saturating_add_u64 offset (length data)"
    by (auto simp: saturating_add_u64_def MAX_WRITE_BYTES_def)
  with assms(1,3) True show ?thesis by (simp add: write_at_def Let_def)
next
  case False
  then have fin: "saturating_add_u64 offset (length data) = offset + length data"
    by (simp add: saturating_add_u64_def MAX_WRITE_BYTES_def)
  have t': "t' = t\<lparr>wt_open := (wt_open t)(fh \<mapsto> s\<lparr>ws_buf := overwrite (ws_buf s) offset data, ws_dirty := True\<rparr>)\<rparr>"
    and r: "r = Inr (length data)"
    using assms False fin splice_overwrite [OF refl, where bs = "ws_buf s" and offset = offset and data = data]
    by (simp_all add: write_at_def Let_def as_u32_def)
  have rd: "slice (overwrite (ws_buf s) offset data) offset (length data) = data" if "length (ws_buf s) < 2 ^ 64"
  proof -
    have "length (overwrite (ws_buf s) offset data) < 2 ^ 64"
      using that False by (auto simp: overwrite_def MAX_WRITE_BYTES_def)
    then show ?thesis by (simp add: slice_eq) (auto intro!: nth_equalityI simp: overwrite_def)
  qed
  from False t' r rd show ?thesis by (auto simp: write_read_slice_def)
qed

theorem write_at_behaves_witness:
  "write_read_slice (fst (write_at (fst (write_insert 0 write_buf_table_new 2 (bare 7 501 20) [1]))
     WRITE_FH_BASE 3 [8, 9])) WRITE_FH_BASE 0 9 = Some [1, 0, 0, 8, 9]"
proof -
  let ?s = "\<lparr>ws_ino = 2, ws_identity = bare 7 501 20, ws_buf = [1], ws_dirty = False, ws_opened_at = 0\<rparr>"
  let ?t = "fst (write_insert 0 write_buf_table_new 2 (bare 7 501 20) [1])"
  have "wt_open ?t WRITE_FH_BASE = Some ?s"
    by (simp add: write_insert_def write_buf_table_new_def Let_def)
  from write_at_behaves [OF this, of "[8, 9]" 3, OF _ surjective_pairing]
  have "wt_open (fst (write_at ?t WRITE_FH_BASE 3 [8, 9])) WRITE_FH_BASE =
      Some (?s\<lparr>ws_buf := overwrite [1] 3 [8, 9], ws_dirty := True\<rparr>)"
    by (simp add: MAX_WRITE_BYTES_def)
  then show ?thesis
    by (simp add: write_read_slice_def slice_def saturating_add_usize_def overwrite_def upt_rec)
qed

section \<open>Handles\<close>

text \<open>What the file system relies on in both tables: a handle handed out is not in use, opening and
  closing one handle does not disturb another.\<close>

locale handle_table =
  fixes open_one :: "'t \<Rightarrow> 'a \<Rightarrow> 't \<times> nat"
    and entry_at :: "'t \<Rightarrow> nat \<Rightarrow> 'e option"
    and close_one :: "'t \<Rightarrow> nat \<Rightarrow> 't"
    and sound :: "'t \<Rightarrow> bool"
    and room :: "'t \<Rightarrow> bool"
    and entry :: "'a \<Rightarrow> 'e"
  assumes fresh: "sound t \<Longrightarrow> entry_at t (snd (open_one t a)) = None"
    and entry_open: "entry_at (fst (open_one t a)) fh = (if fh = snd (open_one t a) then Some (entry a) else entry_at t fh)"
    and entry_closing: "entry_at (close_one t fh) fh' = (if fh' = fh then None else entry_at t fh')"
    and sound_opening: "sound t \<Longrightarrow> room t \<Longrightarrow> sound (fst (open_one t a))"
    and sound_closing: "sound t \<Longrightarrow> sound (close_one t fh)"
begin

lemma open_handle_survives_opening:
  assumes "sound t" "entry_at t fh = Some e"
  shows "entry_at (fst (open_one t a)) fh = Some e" and "snd (open_one t a) \<noteq> fh"
proof -
  show "snd (open_one t a) \<noteq> fh" using fresh [OF assms(1), of a] assms(2) by auto
  then show "entry_at (fst (open_one t a)) fh = Some e" using assms(2) by (simp add: entry_open)
qed

lemma open_close_identity:
  assumes "sound t"
  shows "entry_at (close_one (fst (open_one t a)) (snd (open_one t a))) fh = entry_at t fh"
  using fresh [OF assms, of a] by (simp add: entry_closing entry_open)

lemma two_opens_differ:
  assumes "sound t" "room t"
  shows "snd (open_one (fst (open_one t a)) b) \<noteq> snd (open_one t a)"
  by (rule open_handle_survives_opening(2) [OF sound_opening [OF assms], where e = "entry a"])
    (simp add: entry_open)

end

definition open_snapshot where
  "open_snapshot t a = (case a of (sha256, now, ino, identity, bs) \<Rightarrow>
     (fst (snapshot_insert sha256 now t ino identity bs), oi_fh (snd (snapshot_insert sha256 now t ino identity bs))))"

definition open_writer where
  "open_writer t a = (case a of (now, ino, identity, bs) \<Rightarrow> write_insert now t ino identity bs)"

definition snapshots_sound :: "snapshot_table \<Rightarrow> bool" where
  "snapshots_sound t \<longleftrightarrow> 1 \<le> st_next_fh t \<and> (\<forall>fh. st_open t fh \<noteq> None \<longrightarrow> 1 \<le> fh \<and> fh < st_next_fh t)"

definition writers_sound :: "write_buf_table \<Rightarrow> bool" where
  "writers_sound t \<longleftrightarrow> owns (wt_next_fh t) \<and> (\<forall>fh. wt_open t fh \<noteq> None \<longrightarrow> owns fh \<and> fh < wt_next_fh t)"

lemma snapshot_remove_open [simp]: "st_open (fst (snapshot_remove now t fh)) = (st_open t)(fh := None)"
  and snapshot_remove_next [simp]: "st_next_fh (fst (snapshot_remove now t fh)) = st_next_fh t"
  by (auto simp: snapshot_remove_def split: option.splits)

lemma write_remove_open [simp]: "wt_open (fst (write_remove now t fh)) = (wt_open t)(fh := None)"
  and write_remove_next [simp]: "wt_next_fh (fst (write_remove now t fh)) = wt_next_fh t"
  by (auto simp: write_remove_def split: option.splits)

interpretation snapshots: handle_table open_snapshot st_open "\<lambda>t fh. fst (snapshot_remove 0 t fh)" snapshots_sound
  "\<lambda>t. st_next_fh t + 1 < 2 ^ 64"
  "\<lambda>(sha256, now, ino, identity, bs). \<lparr>os_ino = ino, os_identity = identity, os_bytes = bs, os_opened_at = now,
     os_content_hash = sha256 bs\<rparr>"
  by unfold_locales
    (auto simp: open_snapshot_def snapshot_insert_def Let_def snapshots_sound_def wrapping_add_u64_def
      split: prod.splits if_splits)

interpretation writers: handle_table open_writer wt_open "\<lambda>t fh. fst (write_remove 0 t fh)" writers_sound
  "\<lambda>t. wt_next_fh t + 1 < 2 ^ 64"
  "\<lambda>(now, ino, identity, bs). \<lparr>ws_ino = ino, ws_identity = identity, ws_buf = bs, ws_dirty = False, ws_opened_at = now\<rparr>"
  by unfold_locales
    (auto simp: open_writer_def write_insert_def Let_def writers_sound_def wrapping_add_u64_def owns_def
      split: prod.splits if_splits)

text \<open>Handles are never confused. As long as fewer than \<open>2^32\<close> read handles were ever opened, the
  handle given to a reader is nonzero, not owned by the write table and not in use, the one given to
  a writer is owned by it and not in use, and neither open disturbs any other open file.\<close>

theorem handles_never_confused:
  assumes "snapshots_sound r" "st_next_fh r < 2 ^ 32" "writers_sound w"
    and "snapshot_insert sha256 now r ino identity bs = (r', info)"
    and "write_insert now' w ino' identity' initial = (w', fh)"
  shows "oi_fh info \<noteq> 0 \<and> \<not> owns (oi_fh info) \<and> owns fh \<and> oi_fh info \<noteq> fh \<and>
    st_open r (oi_fh info) = None \<and> wt_open w fh = None \<and>
    (\<forall>f e. st_open r f = Some e \<longrightarrow> st_open r' f = Some e) \<and>
    (\<forall>f e. wt_open w f = Some e \<longrightarrow> wt_open w' f = Some e)"
proof -
  have r: "open_snapshot r (sha256, now, ino, identity, bs) = (r', oi_fh info)"
    and w: "open_writer w (now', ino', identity', initial) = (w', fh)"
    using assms(4,5) by (simp_all add: open_snapshot_def open_writer_def)
  have ranges: "oi_fh info = st_next_fh r" "fh = wt_next_fh w"
    using assms(4,5) by (auto simp: snapshot_insert_def write_insert_def Let_def)
  have "st_open r (oi_fh info) = None" "wt_open w fh = None"
    using snapshots.fresh [OF assms(1), of "(sha256, now, ino, identity, bs)"]
      writers.fresh [OF assms(3), of "(now', ino', identity', initial)"] r w by simp_all
  moreover have "st_open r' f = Some e" if "st_open r f = Some e" for f e
    using snapshots.open_handle_survives_opening(1) [OF assms(1) that] r by (metis fst_conv)
  moreover have "wt_open w' f = Some e" if "wt_open w f = Some e" for f e
    using writers.open_handle_survives_opening(1) [OF assms(3) that] w by (metis fst_conv)
  ultimately show ?thesis
    using ranges assms(1-3) by (auto simp: snapshots_sound_def writers_sound_def owns_def WRITE_FH_BASE_def)
qed

theorem handles_never_confused_witness:
  "oi_fh (snd (snapshot_insert id 0 snapshot_table_new 2 (bare 7 501 20) [1])) \<noteq>
   snd (write_insert 0 write_buf_table_new 2 (bare 7 501 20) [1])"
  using handles_never_confused [of snapshot_table_new write_buf_table_new id 0 2 "bare 7 501 20" "[1]",
      OF _ _ _ surjective_pairing surjective_pairing]
  by (simp add: snapshots_sound_def writers_sound_def snapshot_table_new_def write_buf_table_new_def owns_def)

section \<open>A writer's buffer is its own\<close>

text \<open>Two states that differ at most in the contents of the write buffer of \<open>fh\<close>.\<close>

definition same_but_buffer :: "nat \<Rightarrow> ('p, 'st) shared \<Rightarrow> ('p, 'st) shared \<Rightarrow> bool" where
  "same_but_buffer fh s s' \<longleftrightarrow>
     sh_reads s' = sh_reads s \<and> sh_targets s' = sh_targets s \<and> sh_store s' = sh_store s \<and>
     (\<forall>f. f \<noteq> fh \<longrightarrow> wt_open (sh_writes s') f = wt_open (sh_writes s) f) \<and>
     map_option (\<lambda>w. w\<lparr>ws_buf := [], ws_dirty := False\<rparr>) (wt_open (sh_writes s') fh) =
     map_option (\<lambda>w. w\<lparr>ws_buf := [], ws_dirty := False\<rparr>) (wt_open (sh_writes s) fh)"

lemma same_but_buffer_identity:
  assumes "same_but_buffer fh s s'"
  shows "write_get_identity (sh_writes s') f = write_get_identity (sh_writes s) f"
    "is_owner (sh_writes s') f p = is_owner (sh_writes s) f p"
proof -
  have "map_option ws_identity (wt_open (sh_writes s') f) = map_option ws_identity (wt_open (sh_writes s) f)"
  proof (cases "f = fh")
    case True
    from assms have "map_option ws_identity (map_option (\<lambda>w. w\<lparr>ws_buf := [], ws_dirty := False\<rparr>) (wt_open (sh_writes s') fh)) =
        map_option ws_identity (map_option (\<lambda>w. w\<lparr>ws_buf := [], ws_dirty := False\<rparr>) (wt_open (sh_writes s) fh))"
      by (simp add: same_but_buffer_def)
    then show ?thesis by (simp add: True option.map_comp comp_def)
  qed (use assms in \<open>simp add: same_but_buffer_def\<close>)
  then show "write_get_identity (sh_writes s') f = write_get_identity (sh_writes s) f"
    "is_owner (sh_writes s') f p = is_owner (sh_writes s) f p"
    by (auto simp: write_get_identity_def is_owner_def split: option.splits)
qed

text \<open>(C12) Uncommitted content stays with its writer. A process that shares a write handle without having
  opened it for writing (the kernel may attach it to the same handle) can neither read nor change the
  content of the buffer: whatever the buffer contains, its reads are answered alike, from a snapshot of its
  own; its writes and attribute changes on the handle are refused with \<open>EACCES\<close> and leave only an entry in
  the audit log, and its flush commits nothing. The length of the buffer is all that \<open>getattr\<close> lets it
  see: two buffers of the same length get the same attributes, for every inode and handle.\<close>

theorem write_buffer_is_private:
  assumes "owns fh" "\<not> is_owner (sh_writes s) fh (instance_of identity)" "same_but_buffer fh s s'"
  shows "snd (fs_read s' fh identity offset sz create) = snd (fs_read s fh identity offset sz create) \<and>
    sh_writes (fst (fs_read s fh identity offset sz create)) = sh_writes s \<and>
    fs_write s ino fh (instance_of identity) offset data =
      (log_event s (CrossProcessDenied ino), ReplyError EACCES) \<and>
    fs_setattr attr_size s ino (Some fh) (instance_of identity) size' m ow tm fl =
      (log_event s (CrossProcessDenied ino), ReplyError EACCES) \<and>
    fs_flush sha256 commit audit_ok s fh (instance_of identity) = (s, ReplyOk) \<and>
    (write_len (sh_writes s') fh = write_len (sh_writes s) fh \<longrightarrow>
      fs_getattr inode s' ino' f = fs_getattr inode s ino' f)"
proof -
  note i = same_but_buffer_identity [OF assms(3)]
  have no: "\<not> is_owner (sh_writes s') fh (instance_of identity)" using assms(2) i(2) by simp
  have r: "sh_reads s' = sh_reads s" using assms(3) by (simp add: same_but_buffer_def)
  have nw: "write_get_identity (sh_writes s) fh = Some w \<Longrightarrow> instance_of w \<noteq> instance_of identity" for w
    using assms(2) by (auto simp: is_owner_def write_get_identity_def split: option.splits)
  have "snd (fs_read s' fh identity offset sz create) = snd (fs_read s fh identity offset sz create) \<and>
      sh_writes (fst (fs_read s fh identity offset sz create)) = sh_writes s"
    using assms(1,2) no r nw i(1) [of fh]
    by (auto simp: fs_read_def read_fast_def Let_def handle_uncached_read_def case_prod_beta
        split: existing_read.splits option.splits)
  moreover have "fs_getattr inode s' ino' f = fs_getattr inode s ino' f"
    if len: "write_len (sh_writes s') fh = write_len (sh_writes s) fh"
  proof -
    have eq: "write_len (sh_writes s') = write_len (sh_writes s)"
    proof
      fix g show "write_len (sh_writes s') g = write_len (sh_writes s) g"
        using len assms(3) by (cases "g = fh") (simp_all add: same_but_buffer_def write_len_def)
    qed
    show ?thesis unfolding fs_getattr_def eq by (rule HOL.refl)
  qed
  ultimately show ?thesis using assms(1,2)
    by (simp add: fs_write_def fs_setattr_def fs_flush_def Let_def)
qed

definition example_shared :: "(unit, bytes list) shared" where
  "example_shared = \<lparr>sh_reads = read_session_table_new,
     sh_writes = fst (write_insert 0 write_buf_table_new 2 (bare 7 501 20) [5]),
     sh_targets = [WRITE_FH_BASE \<mapsto> SecretTarget ''a'' ''secrets/a''], sh_store = [[1]], sh_events = []\<rparr>"

theorem write_buffer_is_private_witness:
  "snd (fs_read example_shared WRITE_FH_BASE (bare 8 501 20) 0 9 (Inr [3])) = ReplyData [3] \<and>
   snd (fs_write example_shared 2 WRITE_FH_BASE (instance_of (bare 8 501 20)) 0 [1]) = ReplyError EACCES"
proof -
  have "owns WRITE_FH_BASE" by (simp add: owns_def)
  moreover have "\<not> is_owner (sh_writes example_shared) WRITE_FH_BASE (instance_of (bare 8 501 20))"
    by (simp add: is_owner_def example_shared_def write_insert_def write_buf_table_new_def Let_def instance_of_def bare_def)
  moreover have "same_but_buffer WRITE_FH_BASE example_shared example_shared" by (simp add: same_but_buffer_def)
  ultimately have "snd (fs_write example_shared 2 WRITE_FH_BASE (instance_of (bare 8 501 20)) 0 [1]) = ReplyError EACCES"
    using write_buffer_is_private [of WRITE_FH_BASE example_shared "bare 8 501 20" example_shared] by simp
  moreover have "snd (fs_read example_shared WRITE_FH_BASE (bare 8 501 20) 0 9 (Inr [3])) = ReplyData [3]"
    by (simp add: fs_read_def read_fast_def owns_def is_owner_def example_shared_def write_insert_def
        write_buf_table_new_def Let_def instance_of_def bare_def read_existing_secondary_def
        read_session_table_new_def handle_uncached_read_def write_get_identity_def read_secondary_def session_reply_def
        slice_def saturating_add_usize_def)
  ultimately show ?thesis by blast
qed

section \<open>Sessions belong to processes\<close>

text \<open>The bytes a process is served on a handle, if it has a session there.\<close>

definition session_bytes :: "read_session_table \<Rightarrow> nat \<Rightarrow> process_instance \<Rightarrow> bytes option" where
  "session_bytes t fh p =
     (case st_open (rt_base t) fh of
        Some s \<Rightarrow> if instance_of (os_identity s) = p then Some (os_bytes s) else rt_readers t (fh, p)
      | None \<Rightarrow> rt_readers t (fh, p))"

text \<open>What can happen to the table while \<open>fh\<close> stays open, with the history of the snapshots generated
  for each process and handle. A handle number is not reused before the counter wraps.\<close>

inductive sessions_step ::
    "nat \<Rightarrow> read_session_table \<times> (nat \<times> process_instance \<times> bytes) set \<Rightarrow>
      read_session_table \<times> (nat \<times> process_instance \<times> bytes) set \<Rightarrow> bool" for fh where
  insert: "session_insert sha256 now t ino i bs = (t', info) \<Longrightarrow> st_next_fh (rt_base t) + 1 < 2 ^ 64 \<Longrightarrow>
    sessions_step fh (t, G) (t', insert (oi_fh info, instance_of i, bs) G)"
| read: "read_or_create t f i off sz create = (t', r, did) \<Longrightarrow>
    sessions_step fh (t, G) (t', G \<union> {(f, instance_of i, bs) | bs. did \<and> create = Inr bs})"
| read_attached: "read_secondary t f i off sz create = (t', r, did) \<Longrightarrow>
    sessions_step fh (t, G) (t', G \<union> {(f, instance_of i, bs) | bs. did \<and> create = Inr bs})"
| remove: "session_remove now t f = (t', info) \<Longrightarrow> f \<noteq> fh \<Longrightarrow> sessions_step fh (t, G) (t', G)"

inductive sessions_steps ::
    "nat \<Rightarrow> read_session_table \<times> (nat \<times> process_instance \<times> bytes) set \<Rightarrow>
      read_session_table \<times> (nat \<times> process_instance \<times> bytes) set \<Rightarrow> bool" for fh where
  refl: "sessions_steps fh c c"
| step: "sessions_steps fh c c' \<Longrightarrow> sessions_step fh c' c'' \<Longrightarrow> sessions_steps fh c c''"

lemma session_insert_bytes:
  assumes "session_insert sha256 now t ino i bs = (t', info)"
  shows "rt_readers t' = rt_readers t"
    "st_open (rt_base t') = (st_open (rt_base t))(oi_fh info \<mapsto>
       \<lparr>os_ino = ino, os_identity = i, os_bytes = bs, os_opened_at = now, os_content_hash = sha256 bs\<rparr>)"
    "oi_fh info = st_next_fh (rt_base t)" "st_next_fh (rt_base t') = wrapping_add_u64 (st_next_fh (rt_base t)) 1"
  using assms by (auto simp: session_insert_def snapshot_insert_def Let_def)

lemma read_secondary_cases:
  assumes "read_secondary t f i off sz create = (t', r, did)"
  shows "t' = t \<or> (\<exists>bs. create = Inr bs \<and> did \<and> rt_readers t (f, instance_of i) = None \<and>
    t' = t\<lparr>rt_readers := (rt_readers t)((f, instance_of i) \<mapsto> bs)\<rparr>)"
  using assms by (auto simp: read_secondary_def split: option.splits sum.splits)

lemma read_or_create_cases:
  assumes "read_or_create t f i off sz create = (t', r, did)"
  shows "t' = t \<or> (\<exists>bs. create = Inr bs \<and> did \<and> rt_readers t (f, instance_of i) = None \<and>
    t' = t\<lparr>rt_readers := (rt_readers t)((f, instance_of i) \<mapsto> bs)\<rparr>)"
  using assms read_secondary_cases [of t f i off sz create]
  by (auto simp: read_or_create_def split: option.splits if_splits)

lemma new_reader_bytes:
  assumes "rt_readers t (f, p) = None" "session_bytes t fh q = Some bs"
  shows "session_bytes (t\<lparr>rt_readers := (rt_readers t)((f, p) \<mapsto> new)\<rparr>) fh q = Some bs"
  using assms by (auto simp: session_bytes_def split: option.splits if_splits)

lemma sessions_step_keeps:
  "sessions_step fh c c' \<Longrightarrow> fh < st_next_fh (rt_base (fst c)) \<Longrightarrow>
   fh < st_next_fh (rt_base (fst c')) \<and>
   (\<forall>p bs. session_bytes (fst c) fh p = Some bs \<longrightarrow> session_bytes (fst c') fh p = Some bs)"
proof (induction rule: sessions_step.induct)
  case (insert sha256 now t ino i bs t' info G)
  note b = session_insert_bytes [OF insert.hyps(1)]
  show ?case using insert b
    by (auto simp: wrapping_add_u64_def session_bytes_def split: option.splits)
next
  case (read t f i off sz create t' r did G)
  from read_or_create_cases [OF read.hyps] read.prems show ?case by (auto simp: new_reader_bytes)
next
  case (read_attached t f i off sz create t' r did G)
  from read_secondary_cases [OF read_attached.hyps] read_attached.prems show ?case by (auto simp: new_reader_bytes)
next
  case (remove now t f t' info G)
  then have t': "rt_base t' = fst (snapshot_remove now (rt_base t) f)"
    "rt_readers t' = (\<lambda>(f', p). if f' = f then None else rt_readers t (f', p))"
    by (auto simp: session_remove_def split: prod.splits)
  with remove show ?case
    by (auto simp: session_bytes_def split: option.splits)
qed

lemma sessions_steps_keep:
  "sessions_steps fh c c' \<Longrightarrow> fh < st_next_fh (rt_base (fst c)) \<Longrightarrow>
   fh < st_next_fh (rt_base (fst c')) \<and>
   (\<forall>p bs. session_bytes (fst c) fh p = Some bs \<longrightarrow> session_bytes (fst c') fh p = Some bs)"
proof (induction rule: sessions_steps.induct)
  case (step c c' c'')
  from sessions_step_keeps [OF step.hyps(2)] step.IH [OF step.prems] show ?case by blast
qed simp

text \<open>Every snapshot in the table was generated for the process and handle it is kept under.\<close>

definition all_granted :: "read_session_table \<times> (nat \<times> process_instance \<times> bytes) set \<Rightarrow> bool" where
  "all_granted c \<longleftrightarrow>
     (\<forall>f s. st_open (rt_base (fst c)) f = Some s \<longrightarrow> (f, instance_of (os_identity s), os_bytes s) \<in> snd c) \<and>
     (\<forall>f p bs. rt_readers (fst c) (f, p) = Some bs \<longrightarrow> (f, p, bs) \<in> snd c)"

lemma all_granted_step: "sessions_step fh c c' \<Longrightarrow> all_granted c \<Longrightarrow> all_granted c'"
proof (induction rule: sessions_step.induct)
  case (insert sha256 now t ino i bs t' info G)
  note b = session_insert_bytes [OF insert.hyps(1)]
  show ?case using insert.prems by (auto simp: all_granted_def b)
next
  case (read t f i off sz create t' r did G)
  from read_or_create_cases [OF read.hyps] read.prems show ?case by (auto simp: all_granted_def split: if_splits)
next
  case (read_attached t f i off sz create t' r did G)
  from read_secondary_cases [OF read_attached.hyps] read_attached.prems show ?case by (auto simp: all_granted_def split: if_splits)
next
  case (remove now t f t' info G)
  then have "rt_base t' = fst (snapshot_remove now (rt_base t) f)"
    "rt_readers t' = (\<lambda>(f', p). if f' = f then None else rt_readers t (f', p))"
    by (auto simp: session_remove_def split: prod.splits)
  with remove.prems show ?case by (auto simp: all_granted_def split: if_splits)
qed

lemma all_granted_steps: "sessions_steps fh c c' \<Longrightarrow> all_granted c \<Longrightarrow> all_granted c'"
  by (induction rule: sessions_steps.induct) (auto intro: all_granted_step)

text \<open>(C11) What a process reads was generated for it. From a new table, after any opens, reads by any
  processes and releases, the bytes that the read handler answers with, whether at once from an existing
  session or later on the pool, are a slice of one of three: the buffer of this very process, if it is the
  writer that owns the handle; a snapshot that was produced, and so authorized, for exactly this process
  lifetime and handle at its own open or at an earlier read; or the one authorized by this very read, when
  the process has no session on the handle yet.\<close>

theorem reads_serve_own_snapshot:
  assumes "sessions_steps keep (read_session_table_new, {}) (sh_reads s, G)"
    and "fs_read s fh i off sz create = (s', ReplyData data) \<or>
      handle_uncached_read s fh i off sz create = (s', ReplyData data)"
  shows "\<exists>bs. data = slice bs off sz \<and>
    (owns fh \<and> (\<exists>w. wt_open (sh_writes s) fh = Some w \<and> instance_of (ws_identity w) = instance_of i \<and> bs = ws_buf w) \<or>
     (fh, instance_of i, bs) \<in> G \<or>
     rt_readers (sh_reads s) (fh, instance_of i) = None \<and> create = Inr bs)"
proof -
  have "all_granted (sh_reads s, G)"
    by (rule all_granted_steps [OF assms(1)])
      (simp add: all_granted_def read_session_table_new_def snapshot_table_new_def)
  then have open_one: "\<And>o1. st_open (rt_base (sh_reads s)) fh = Some o1 \<Longrightarrow> (fh, instance_of (os_identity o1), os_bytes o1) \<in> G"
    and reader: "\<And>bs. rt_readers (sh_reads s) (fh, instance_of i) = Some bs \<Longrightarrow> (fh, instance_of i, bs) \<in> G"
    by (auto simp: all_granted_def)
  have fast: ?thesis if "read_fast s fh (instance_of i) off sz = Some (ReplyData data)"
    using that reader open_one
    by (auto simp: read_fast_def Let_def is_owner_def write_read_slice_def read_existing_def read_existing_secondary_def
        snapshot_get_identity_def snapshot_read_slice_def split: if_splits option.splits)
  have pool: ?thesis if "handle_uncached_read s fh i off sz create = (s', ReplyData data)"
    using that reader open_one
    by (auto simp: handle_uncached_read_def session_reply_def write_get_identity_def write_read_slice_def read_secondary_def
        read_or_create_def snapshot_get_identity_def snapshot_read_slice_def
        split: if_splits option.splits sum.splits read_session_error.splits prod.splits)
  show ?thesis using assms(2) fast pool by (auto simp: fs_read_def split: option.splits)
qed

theorem reads_serve_own_snapshot_witness:
  "\<exists>t G. sessions_steps 9 (read_session_table_new, {}) (t, G) \<and> G = {(1, instance_of (bare 7 501 20), [1, 2])} \<and>
     snd (fs_read (example_shared\<lparr>sh_reads := t\<rparr>) 1 (bare 7 501 20) 1 1 (Inl 13)) = ReplyData [2] \<and>
     (\<exists>bs. [2] = slice bs 1 1 \<and> (1, instance_of (bare 7 501 20), bs) \<in> G)"
proof -
  let ?t = "fst (session_insert id 0 read_session_table_new 2 (bare 7 501 20) [1, 2])"
  let ?i = "snd (session_insert id 0 read_session_table_new 2 (bare 7 501 20) [1, 2])"
  let ?s = "example_shared\<lparr>sh_reads := ?t\<rparr>"
  have f: "oi_fh ?i = 1"
    by (simp add: session_insert_def snapshot_insert_def read_session_table_new_def snapshot_table_new_def Let_def)
  have "sessions_steps 9 (read_session_table_new, {}) (?t, insert (oi_fh ?i, instance_of (bare 7 501 20), [1, 2]) {})"
    by (rule sessions_steps.step [OF sessions_steps.refl sessions_step.insert [OF surjective_pairing]])
      (simp add: read_session_table_new_def snapshot_table_new_def)
  then have s: "sessions_steps 9 (read_session_table_new, {}) (sh_reads ?s, {(1, instance_of (bare 7 501 20), [1, 2])})"
    using f by simp
  have r: "fs_read ?s 1 (bare 7 501 20) 1 1 (Inl 13) = (?s, ReplyData [2])"
    by (simp add: fs_read_def read_fast_def owns_def WRITE_FH_BASE_def read_existing_def session_insert_def
        snapshot_insert_def read_session_table_new_def snapshot_table_new_def Let_def snapshot_get_identity_def
        snapshot_read_slice_def slice_def saturating_add_usize_def)
  have "\<not> owns 1" by (simp add: owns_def WRITE_FH_BASE_def)
  with reads_serve_own_snapshot [OF s disjI1 [OF r]]
  have "\<exists>bs. [2] = slice bs 1 1 \<and> (1, instance_of (bare 7 501 20), bs) \<in> {(1, instance_of (bare 7 501 20), [1, 2])}" by blast
  moreover have "snd (fs_read ?s 1 (bare 7 501 20) 1 1 (Inl 13)) = ReplyData [2]" by (simp only: r snd_conv)
  moreover have "sh_reads ?s = ?t" by simp
  ultimately show ?thesis using s by metis
qed

text \<open>An open file does not change under its reader: once a process has a session on a read
  handle, then whatever other files are opened or closed and whoever else reads this one, each of its
  reads is answered from the same bytes and nothing is generated again, until the handle is
  released.\<close>

theorem open_file_is_frozen:
  assumes "fh < st_next_fh (rt_base t)" "session_bytes t fh (instance_of i) = Some bs"
    and "st_open (rt_base t') fh \<noteq> None"
    and "sessions_steps fh (t, G) (t', G')"
  shows "read_or_create t' fh i off sz create = (t', Inr (slice bs off sz), False)"
proof -
  from sessions_steps_keep [OF assms(4)] assms(1,2) have "session_bytes t' fh (instance_of i) = Some bs" by simp
  with assms(3) show ?thesis
    by (auto simp: session_bytes_def read_or_create_def snapshot_get_identity_def snapshot_read_slice_def
        read_secondary_def split: option.splits if_splits)
qed

theorem open_file_is_frozen_witness:
  "(let t = fst (session_insert id 0 read_session_table_new 2 (bare 7 501 20) [1, 2]);
        t' = fst (session_insert id 0 t 2 (bare 8 501 20) [3])
    in read_or_create t' 1 (bare 7 501 20) 0 9 (Inr [4]) = (t', Inr [1, 2], False))"
proof -
  let ?t = "fst (session_insert id 0 read_session_table_new 2 (bare 7 501 20) [1, 2])"
  let ?t' = "fst (session_insert id 0 ?t 2 (bare 8 501 20) [3])"
  have n: "st_next_fh (rt_base ?t) = 2" "session_bytes ?t 1 (instance_of (bare 7 501 20)) = Some [1, 2]"
    "st_open (rt_base ?t') 1 \<noteq> None"
    by (simp_all add: session_insert_def snapshot_insert_def read_session_table_new_def snapshot_table_new_def
        Let_def wrapping_add_u64_def session_bytes_def)
  have s: "sessions_steps 1 (?t, {}) (?t', insert (oi_fh (snd (session_insert id 0 ?t 2 (bare 8 501 20) [3])),
      instance_of (bare 8 501 20), [3]) {})"
    by (rule sessions_steps.step [OF sessions_steps.refl sessions_step.insert [OF surjective_pairing]])
      (use n(1) in simp)
  from open_file_is_frozen [OF _ n(2,3) s, of 0 9 "Inr [4]"] n(1) show ?thesis
    by (simp add: Let_def slice_def saturating_add_usize_def)
qed

section \<open>Commits\<close>

text \<open>Overlapping commits of one handle. The commit lock admits one at a time; the buffer may change
  while a commit is on its way to the store. \<open>cs_versions\<close> are the versions this handle has appended.\<close>

record commit_config =
  cs_writes :: write_buf_table
  cs_in_flight :: "bytes option"
  cs_versions :: "bytes list"

inductive commit_step :: "nat \<Rightarrow> commit_config \<Rightarrow> commit_config \<Rightarrow> bool" for fh where
  wrote: "write_at (cs_writes c) fh offset data = (w, r) \<Longrightarrow> commit_step fh c (c\<lparr>cs_writes := w\<rparr>)"
| resize: "write_truncate (cs_writes c) fh n = (w, r) \<Longrightarrow> commit_step fh c (c\<lparr>cs_writes := w\<rparr>)"
| other: "write_at (cs_writes c) f offset data = (w, r) \<Longrightarrow> f \<noteq> fh \<Longrightarrow> commit_step fh c (c\<lparr>cs_writes := w\<rparr>)"
| started: "cs_in_flight c = None \<Longrightarrow> take_dirty (cs_writes c) fh = (w, Some bs) \<Longrightarrow>
    commit_step fh c (c\<lparr>cs_writes := w, cs_in_flight := Some bs\<rparr>)"
| appended: "cs_in_flight c = Some bs \<Longrightarrow>
    commit_step fh c (c\<lparr>cs_in_flight := None, cs_versions := cs_versions c @ [bs]\<rparr>)"
| failed: "cs_in_flight c = Some bs \<Longrightarrow>
    commit_step fh c (c\<lparr>cs_in_flight := None, cs_writes := mark_dirty (cs_writes c) fh\<rparr>)"

inductive commit_run :: "nat \<Rightarrow> commit_config \<Rightarrow> commit_config \<Rightarrow> bool" for fh where
  refl: "commit_run fh c c"
| step: "commit_run fh c c' \<Longrightarrow> commit_step fh c' c'' \<Longrightarrow> commit_run fh c c''"

text \<open>A clean buffer holds what is in flight, or else the newest version, or else the initial content.\<close>

definition commit_ok :: "nat \<Rightarrow> bytes \<Rightarrow> commit_config \<Rightarrow> bool" where
  "commit_ok fh initial c \<longleftrightarrow>
     (\<forall>s. wt_open (cs_writes c) fh = Some s \<longrightarrow> \<not> ws_dirty s \<longrightarrow>
        ws_buf s = (case cs_in_flight c of
                      Some bs \<Rightarrow> bs
                    | None \<Rightarrow> if cs_versions c = [] then initial else last (cs_versions c)))"

lemma write_at_dirty:
  "write_at t fh offset data = (t', r) \<Longrightarrow> wt_open t' fh = Some s \<Longrightarrow> \<not> ws_dirty s \<Longrightarrow> wt_open t fh = Some s"
  "write_at t f offset data = (t', r) \<Longrightarrow> f \<noteq> fh \<Longrightarrow> wt_open t' fh = wt_open t fh"
  by (auto simp: write_at_def Let_def split: option.splits if_splits)

lemma write_truncate_dirty:
  "write_truncate t fh n = (t', r) \<Longrightarrow> wt_open t' fh = Some s \<Longrightarrow> \<not> ws_dirty s \<Longrightarrow> wt_open t fh = Some s"
  by (auto simp: write_truncate_def split: option.splits if_splits)

lemma commit_ok_table:
  assumes "commit_ok fh initial c"
    and "\<And>s. wt_open w fh = Some s \<Longrightarrow> \<not> ws_dirty s \<Longrightarrow> wt_open (cs_writes c) fh = Some s"
  shows "commit_ok fh initial (c\<lparr>cs_writes := w\<rparr>)"
  using assms by (cases "cs_in_flight c") (simp_all add: commit_ok_def)

lemma commit_step_ok: "commit_step fh c c' \<Longrightarrow> commit_ok fh initial c \<Longrightarrow> commit_ok fh initial c'"
proof (induction rule: commit_step.induct)
  case (wrote c offset data w r)
  show ?case by (rule commit_ok_table [OF wrote.prems write_at_dirty(1) [OF wrote.hyps]])
next
  case (resize c n w r)
  show ?case by (rule commit_ok_table [OF resize.prems write_truncate_dirty [OF resize.hyps]])
next
  case (other c f offset data w r)
  show ?case by (rule commit_ok_table [OF other.prems]) (simp add: write_at_dirty(2) [OF other.hyps])
next
  case (started c w bs)
  then show ?case by (auto simp: commit_ok_def take_dirty_def split: option.splits if_splits)
next
  case (appended c bs)
  then show ?case by (auto simp: commit_ok_def)
next
  case (failed c bs)
  then show ?case by (auto simp: commit_ok_def mark_dirty_def split: option.splits)
qed

lemma commit_run_ok: "commit_run fh c c' \<Longrightarrow> commit_ok fh initial c \<Longrightarrow> commit_ok fh initial c'"
  by (induction rule: commit_run.induct) (auto intro: commit_step_ok)

text \<open>(C10) The newest content wins. However writes, truncations, commits and failed commits of a write
  handle overlap, whenever its buffer is clean and no commit is under way, the last version appended to
  the store is exactly the buffer's content (or nothing was changed and nothing appended): an older
  snapshot never ends up after a newer one, and a failed commit is never forgotten.\<close>

theorem clean_buffer_is_newest_version:
  assumes "write_insert now t ino identity initial = (t', fh)"
    and "commit_run fh \<lparr>cs_writes = t', cs_in_flight = None, cs_versions = []\<rparr> c"
    and "wt_open (cs_writes c) fh = Some s" "\<not> ws_dirty s" "cs_in_flight c = None"
  shows "ws_buf s = (if cs_versions c = [] then initial else last (cs_versions c))"
proof -
  have "commit_ok fh initial \<lparr>cs_writes = t', cs_in_flight = None, cs_versions = []\<rparr>"
    using assms(1) by (auto simp: commit_ok_def write_insert_def Let_def)
  from commit_run_ok [OF assms(2) this] assms(3-5) show ?thesis by (simp add: commit_ok_def)
qed

theorem clean_buffer_is_newest_version_witness:
  "(let t = fst (write_insert 0 write_buf_table_new 2 (bare 7 501 20) [1]);
        t' = fst (write_truncate t WRITE_FH_BASE 0)
    in ws_buf (the (wt_open (fst (take_dirty t' WRITE_FH_BASE)) WRITE_FH_BASE)) =
       the (snd (take_dirty t' WRITE_FH_BASE)))"
proof -
  let ?t = "fst (write_insert 0 write_buf_table_new 2 (bare 7 501 20) [1])" and ?f = WRITE_FH_BASE
  let ?t' = "fst (write_truncate ?t ?f 0)" and ?bs = "the (snd (take_dirty (fst (write_truncate ?t ?f 0)) ?f))"
  let ?c0 = "\<lparr>cs_writes = ?t, cs_in_flight = None, cs_versions = []\<rparr>"
  have i: "write_insert 0 write_buf_table_new 2 (bare 7 501 20) [1] = (?t, ?f)"
    by (simp add: write_insert_def write_buf_table_new_def Let_def)
  have d: "take_dirty ?t' ?f = (fst (take_dirty ?t' ?f), Some ?bs)"
    "wt_open (fst (take_dirty ?t' ?f)) ?f = Some \<lparr>ws_ino = 2, ws_identity = bare 7 501 20, ws_buf = [],
       ws_dirty = False, ws_opened_at = 0\<rparr>"
    by (simp_all add: take_dirty_def write_truncate_def write_insert_def write_buf_table_new_def Let_def resize_def)
  let ?c1 = "?c0\<lparr>cs_writes := ?t'\<rparr>"
  let ?c2 = "?c1\<lparr>cs_writes := fst (take_dirty ?t' ?f), cs_in_flight := Some ?bs\<rparr>"
  let ?c3 = "?c2\<lparr>cs_in_flight := None, cs_versions := cs_versions ?c2 @ [?bs]\<rparr>"
  have "write_truncate (cs_writes ?c0) ?f 0 = (?t', snd (write_truncate ?t ?f 0))"
    unfolding commit_config.select_convs by (rule surjective_pairing)
  from commit_step.resize [OF this] have 1: "commit_step ?f ?c0 ?c1" .
  have 2: "commit_step ?f ?c1 ?c2" by (rule commit_step.started) (use d(1) in simp_all)
  have 3: "commit_step ?f ?c2 ?c3" by (rule commit_step.appended) simp
  have "commit_run ?f ?c0 ?c3" using 1 2 3 by (blast intro: commit_run.intros)
  from clean_buffer_is_newest_version [OF i this, of "the (wt_open (fst (take_dirty ?t' ?f)) ?f)"] d(2)
  show ?thesis by (simp add: Let_def)
qed

end
