(* ===== verification/Audit_Log.thy ===== *)
theory Audit_Log
  imports Rules
begin

text \<open>
  The audit log (\<open>floria-core/src/audit.rs\<close>): an append-only file of JSON rows, each carrying its sequence
  number, the tag of its predecessor and a tag over both and the event, with the tail of the chain
  checkpointed by an authority outside the file. The JSON encodings and SHA-256 are parameters; the
  authority is the trait of the source, a record of its four methods over the state of the implementation.
  The file system has directory entries and inodes, so that a path and an open descriptor can part ways,
  and every system call draws its outcome from a script of faults. The checkpoint worker is a state
  machine over its command queue.
\<close>

section \<open>Errors and effects\<close>

datatype io_error =
    InvalidData string
  | PermissionDenied string
  | NotFound
  | OsError string
  | OtherError string

fun io_message :: "io_error \<Rightarrow> string" where
  "io_message (InvalidData s) = s"
| "io_message (PermissionDenied s) = s"
| "io_message NotFound = ''entity not found''"
| "io_message (OsError s) = s"
| "io_message (OtherError s) = s"

text \<open>Sequencing of fallible operations on a state, as the question mark operator does it.\<close>

type_synonym ('w, 'a) io = "'w \<Rightarrow> 'w \<times> (io_error + 'a)"

definition io_return :: "'a \<Rightarrow> ('w, 'a) io" where
  "io_return x w = (w, Inr x)"

definition io_fail :: "io_error \<Rightarrow> ('w, 'a) io" where
  "io_fail e w = (w, Inl e)"

definition io_lift :: "io_error + 'a \<Rightarrow> ('w, 'a) io" where
  "io_lift r w = (w, r)"

definition io_bind :: "('w, 'a) io \<Rightarrow> ('a \<Rightarrow> ('w, 'b) io) \<Rightarrow> ('w, 'b) io" where
  "io_bind m f w = (case m w of (w', Inl e) \<Rightarrow> (w', Inl e) | (w', Inr x) \<Rightarrow> f x w')"

section \<open>Data\<close>

definition AUDIT_FORMAT :: nat where "AUDIT_FORMAT = 1"
definition GENESIS_HASH :: string where "GENESIS_HASH = ''genesis''"
definition AUDIT_CHECKPOINT_MAX_DELAY :: nat where "AUDIT_CHECKPOINT_MAX_DELAY = 1000"

record audit_checkpoint =
  acp_sequence :: nat
  acp_head :: string
  acp_file_size :: nat

definition genesis_checkpoint :: audit_checkpoint where
  "genesis_checkpoint = \<lparr>acp_sequence = 0, acp_head = GENESIS_HASH, acp_file_size = 0\<rparr>"

record 'v audit_envelope =
  ae_format :: nat
  ae_sequence :: nat
  ae_previous :: string
  ae_event :: 'v
  ae_tag :: string

record file_stamp =
  fs_device :: nat
  fs_inode :: nat
  fs_size :: nat
  fs_ctime :: int
  fs_ctime_nsec :: int

record audit_dependency =
  dep_key :: string
  dep_binding_id :: string
  dep_resource_id :: string
  dep_secret_id :: "string option"
  dep_version :: "nat option"

record ssh_session_audit =
  ssa_requested_destination :: "string option"
  ssa_verified_host_key_fingerprint :: "string option"
  ssa_ssh_user :: "string option"
  ssa_forwarding_hops :: nat

record request_info =
  ri_uid :: nat
  ri_gid :: nat
  ri_pid :: int

record open_event =
  oe_ts :: string
  oe_event :: string
  oe_path :: string
  oe_operation :: string
  oe_decision :: string
  oe_rule_id :: "string option"
  oe_policy :: "policy_evaluation option"
  oe_request :: request_info
  oe_identity :: process_identity
  oe_content_version :: string
  oe_fh :: nat
  oe_size :: nat
  oe_dependencies :: "audit_dependency list option"

record denied_event =
  de_ts :: string
  de_event :: string
  de_path :: string
  de_operation :: string
  de_decision :: string
  de_rule_id :: "string option"
  de_reason :: string
  de_policy :: "policy_evaluation option"
  de_request :: request_info
  de_identity :: process_identity

record write_commit_event =
  wc_ts :: string
  wc_event :: string
  wc_path :: string
  wc_fh :: nat
  wc_version :: nat
  wc_content_version :: string
  wc_size :: nat

record ssh_sign_event =
  se_ts :: string
  se_event :: string
  se_path :: string
  se_operation :: string
  se_decision :: string
  se_rule_id :: "string option"
  se_reason :: string
  se_policy :: "policy_evaluation option"
  se_request :: request_info
  se_identity :: process_identity
  se_surface_id :: string
  se_resource_id :: string
  se_key_fingerprint :: string
  se_key_label :: string
  se_identity_source :: "string option"
  se_result :: string
  se_ssh_session :: "ssh_session_audit option"

record close_event =
  ce_ts :: string
  ce_event :: string
  ce_path :: string
  ce_fh :: nat
  ce_duration_ms :: nat
  ce_bytes_served :: nat
  ce_error :: "string option"

datatype audit_event =
    OpenEvent open_event
  | DeniedEvent denied_event
  | WriteCommitEvent write_commit_event
  | SshSignEvent ssh_sign_event
  | CloseEvent close_event

record access_record =
  ar_ts :: string
  ar_event :: string
  ar_path :: string
  ar_operation :: string
  ar_decision :: string
  ar_rule_id :: "string option"
  ar_policy :: "policy_evaluation option"
  ar_identity :: process_identity
  ar_surface_id :: "string option"
  ar_resource_id :: "string option"
  ar_key_fingerprint :: "string option"
  ar_key_label :: "string option"
  ar_identity_source :: "string option"
  ar_ssh_session :: "ssh_session_audit option"

text \<open>The packages: \<open>serde_json\<close> on the types of the module, and SHA-256.\<close>

record 'v audit_packages =
  js_event :: "audit_event \<Rightarrow> 'v option"
  js_record :: "'v \<Rightarrow> access_record option"
  js_payload :: "nat \<times> nat \<times> string \<times> 'v \<Rightarrow> bytes option"
  js_envelope :: "'v audit_envelope \<Rightarrow> bytes option"
  js_parse_envelope :: "bytes \<Rightarrow> 'v audit_envelope option"
  js_parse_value :: "bytes \<Rightarrow> 'v option"
  sha256_digest :: "bytes \<Rightarrow> bytes"

text \<open>The trait \<open>AuditAuthority\<close> over the state of its implementation.\<close>

record 's audit_authority =
  load_checkpoint :: "('s, audit_checkpoint option) io"
  authenticate :: "'s \<Rightarrow> bytes \<Rightarrow> io_error + string"
  verify :: "'s \<Rightarrow> bytes \<Rightarrow> string \<Rightarrow> io_error + unit"
  persist_checkpoint :: "audit_checkpoint \<Rightarrow> ('s, unit) io"

section \<open>The file system\<close>

record node =
  nd_bytes :: bytes
  nd_mode :: nat
  nd_ctime :: int
  nd_ctime_nsec :: int

datatype dir_entry = RegularFile nat | SymLink "nat option" file_stamp | OtherNode file_stamp

text \<open>The outcome of a system call: done, failed without effect, or failed after a part of the data.\<close>

datatype io_fault = IoDone | IoFails | IoPartial nat bool

record 's audit_world =
  w_dir :: "string \<Rightarrow> dir_entry option"
  w_nodes :: "nat \<Rightarrow> node option"
  w_device :: nat
  w_next_ino :: nat
  w_now :: "int \<times> int"
  w_faults :: "io_fault list"
  w_authority :: 's

record file_metadata =
  md_regular :: bool
  md_symlink :: bool
  md_mode :: nat
  md_stamp :: file_stamp

definition next_io :: "('s audit_world, io_fault) io" where
  "next_io w = (case w_faults w of
       [] \<Rightarrow> (w, Inr IoDone)
     | f # fs \<Rightarrow> (w\<lparr>w_faults := fs\<rparr>, Inr f))"

definition syscall :: "string \<Rightarrow> ('s audit_world, unit) io" where
  "syscall name = io_bind next_io (\<lambda>f.
     case f of IoDone \<Rightarrow> io_return () | _ \<Rightarrow> io_fail (OsError name))"

definition node_stamp :: "'s audit_world \<Rightarrow> nat \<Rightarrow> node \<Rightarrow> file_stamp" where
  "node_stamp w i n = \<lparr>fs_device = w_device w, fs_inode = i, fs_size = length (nd_bytes n),
     fs_ctime = nd_ctime n, fs_ctime_nsec = nd_ctime_nsec n\<rparr>"

definition node_metadata :: "'s audit_world \<Rightarrow> nat \<Rightarrow> io_error + file_metadata" where
  "node_metadata w i =
     (case w_nodes w i of
        None \<Rightarrow> Inl NotFound
      | Some n \<Rightarrow> Inr \<lparr>md_regular = True, md_symlink = False, md_mode = nd_mode n,
                       md_stamp = node_stamp w i n\<rparr>)"

definition symlink_metadata :: "string \<Rightarrow> ('s audit_world, file_metadata) io" where
  "symlink_metadata path = io_bind (syscall ''lstat'') (\<lambda>_ w.
     (w, case w_dir w path of
        None \<Rightarrow> Inl NotFound
      | Some (RegularFile i) \<Rightarrow> node_metadata w i
      | Some (SymLink _ st) \<Rightarrow> Inr \<lparr>md_regular = False, md_symlink = True, md_mode = 511, md_stamp = st\<rparr>
      | Some (OtherNode st) \<Rightarrow> Inr \<lparr>md_regular = False, md_symlink = False, md_mode = 448, md_stamp = st\<rparr>))"

definition path_metadata_len :: "string \<Rightarrow> ('s audit_world, nat) io" where
  "path_metadata_len path = io_bind (syscall ''stat'') (\<lambda>_ w.
     (w, case w_dir w path of
        None \<Rightarrow> Inl NotFound
      | Some (RegularFile i) \<Rightarrow> and_then (node_metadata w i) (\<lambda>md. Inr (fs_size (md_stamp md)))
      | Some (SymLink None _) \<Rightarrow> Inl NotFound
      | Some (SymLink (Some i) _) \<Rightarrow> and_then (node_metadata w i) (\<lambda>md. Inr (fs_size (md_stamp md)))
      | Some (OtherNode st) \<Rightarrow> Inr (fs_size st)))"

text \<open>\<open>Path::exists\<close> follows links and answers false when the query fails.\<close>

definition path_exists :: "string \<Rightarrow> ('s audit_world, bool) io" where
  "path_exists path w =
     (case path_metadata_len path w of (w', Inl _) \<Rightarrow> (w', Inr False) | (w', Inr _) \<Rightarrow> (w', Inr True))"

definition descriptor_metadata :: "nat \<Rightarrow> ('s audit_world, file_metadata) io" where
  "descriptor_metadata i = io_bind (syscall ''fstat'') (\<lambda>_ w. (w, node_metadata w i))"

definition rename_entry :: "string \<Rightarrow> string \<Rightarrow> ('s audit_world, unit) io" where
  "rename_entry a b = io_bind (syscall ''rename'') (\<lambda>_ w.
     case w_dir w a of
       None \<Rightarrow> (w, Inl NotFound)
     | Some e \<Rightarrow> (w\<lparr>w_dir := (w_dir w)(a := None, b \<mapsto> e)\<rparr>, Inr ()))"

text \<open>Appending to a descriptor moves the change time; a failing write may leave a prefix behind and
  keep the rest in the buffer.\<close>

definition append_bytes :: "nat \<Rightarrow> bytes \<Rightarrow> 's audit_world \<Rightarrow> 's audit_world" where
  "append_bytes i bs w =
     (case w_nodes w i of
        None \<Rightarrow> w
      | Some n \<Rightarrow> w\<lparr>w_nodes := (w_nodes w)(i \<mapsto> n\<lparr>nd_bytes := nd_bytes n @ bs,
          nd_ctime := fst (w_now w), nd_ctime_nsec := snd (w_now w)\<rparr>)\<rparr>)"

section \<open>Private files\<close>

definition check_private :: "file_metadata \<Rightarrow> io_error + unit" where
  "check_private md =
     (if \<not> md_regular md \<or> md_symlink md then Inl (InvalidData ''audit log must be a regular file'')
      else if md_mode md mod 64 \<noteq> 0 then Inl (PermissionDenied ''audit log must be private'')
      else Inr ())"

text \<open>Opening with \<open>O_NOFOLLOW\<close>: a link is refused by the system itself.\<close>

definition open_existing :: "string \<Rightarrow> ('s audit_world, nat) io" where
  "open_existing path = io_bind (syscall ''open'') (\<lambda>_ w.
     (w, case w_dir w path of
        None \<Rightarrow> Inl NotFound
      | Some (RegularFile i) \<Rightarrow> Inr i
      | Some (SymLink _ _) \<Rightarrow> Inl (OsError ''too many levels of symbolic links'')
      | Some (OtherNode _) \<Rightarrow> Inl (OsError ''is a directory'')))"

definition open_or_create :: "string \<Rightarrow> ('s audit_world, nat) io" where
  "open_or_create path = io_bind (syscall ''open'') (\<lambda>_ w.
     (case w_dir w path of
        None \<Rightarrow>
          (let i = w_next_ino w
           in (w\<lparr>w_dir := (w_dir w)(path \<mapsto> RegularFile i),
                 w_nodes := (w_nodes w)(i \<mapsto> \<lparr>nd_bytes = [], nd_mode = 384,
                   nd_ctime = fst (w_now w), nd_ctime_nsec = snd (w_now w)\<rparr>),
                 w_next_ino := Suc i\<rparr>, Inr i))
      | Some (RegularFile i) \<Rightarrow> (w, Inr i)
      | Some (SymLink _ _) \<Rightarrow> (w, Inl (OsError ''too many levels of symbolic links''))
      | Some (OtherNode _) \<Rightarrow> (w, Inl (OsError ''is a directory''))))"

definition open_private_append :: "string \<Rightarrow> ('s audit_world, nat) io" where
  "open_private_append path =
     io_bind (path_exists path) (\<lambda>ex.
     io_bind (if ex then io_bind (symlink_metadata path) (\<lambda>md. io_lift (check_private md))
              else io_return ()) (\<lambda>_.
       open_or_create path))"

definition open_private_audit_read :: "string \<Rightarrow> ('s audit_world, nat) io" where
  "open_private_audit_read path =
     io_bind (symlink_metadata path) (\<lambda>md.
     io_bind (io_lift (check_private md)) (\<lambda>_.
       open_existing path))"

section \<open>The chain\<close>

definition chain_payload :: "'v audit_packages \<Rightarrow> nat \<Rightarrow> string \<Rightarrow> 'v \<Rightarrow> io_error + bytes" where
  "chain_payload js sequence previous event =
     ok_or (js_payload js (AUDIT_FORMAT, sequence, previous, event)) (OtherError ''payload encoding'')"

definition sha256_tag :: "'v audit_packages \<Rightarrow> bytes \<Rightarrow> string" where
  "sha256_tag js payload = to_hex (sha256_digest js payload)"

definition check_tag ::
    "'v audit_packages \<Rightarrow> 's audit_authority option \<Rightarrow> 's \<Rightarrow> bytes \<Rightarrow> string \<Rightarrow> io_error + unit" where
  "check_tag js authority s payload tag =
     (case authority of
        Some a \<Rightarrow> verify a s payload tag
      | None \<Rightarrow> if sha256_tag js payload = tag then Inr ()
                else Inl (InvalidData ''audit tag is invalid''))"

definition make_tag ::
    "'v audit_packages \<Rightarrow> 's audit_authority option \<Rightarrow> 's \<Rightarrow> bytes \<Rightarrow> io_error + string" where
  "make_tag js authority s payload =
     (case authority of Some a \<Rightarrow> authenticate a s payload | None \<Rightarrow> Inr (sha256_tag js payload))"

text \<open>\<open>BufRead::split\<close> at newlines: no segment after a final newline.\<close>

fun rows :: "bytes \<Rightarrow> bytes list" where
  "rows [] = []"
| "rows (b # bs) =
     (if b = 10 then [] # rows bs
      else (case rows bs of [] \<Rightarrow> [[b]] | r # rs \<Rightarrow> (b # r) # rs))"

definition access_event :: "string \<Rightarrow> bool" where
  "access_event e \<longleftrightarrow> e = ''open'' \<or> e = ''ssh_sign''"

text \<open>The bounded queue of the newest access records.\<close>

definition keep_record :: "nat \<Rightarrow> access_record option \<Rightarrow> access_record list \<Rightarrow> access_record list" where
  "keep_record limit r records =
     (case r of
        Some rec \<Rightarrow>
          if access_event (ar_event rec)
          then (if length records = limit then tl records else records) @ [rec]
          else records
      | None \<Rightarrow> records)"

record chain_state =
  cs_sequence :: nat
  cs_head :: string
  cs_file_size :: nat
  cs_records :: "access_record list"
  cs_matched :: bool
  cs_prefixes :: "audit_checkpoint list"

definition chain_start :: "audit_checkpoint option \<Rightarrow> chain_state" where
  "chain_start required = \<lparr>cs_sequence = 0, cs_head = GENESIS_HASH, cs_file_size = 0, cs_records = [],
     cs_matched = (case required of None \<Rightarrow> True
       | Some c \<Rightarrow> acp_sequence c = 0 \<and> acp_head c = GENESIS_HASH \<and> acp_file_size c = 0),
     cs_prefixes = []\<rparr>"

definition chain_tail :: "chain_state \<Rightarrow> audit_checkpoint" where
  "chain_tail cs = \<lparr>acp_sequence = cs_sequence cs, acp_head = cs_head cs, acp_file_size = cs_file_size cs\<rparr>"

text \<open>The comparison with the required checkpoint when its sequence number is reached.\<close>

definition match_checkpoint :: "audit_checkpoint option \<Rightarrow> chain_state \<Rightarrow> io_error + chain_state" where
  "match_checkpoint required cs =
     (case required of
        None \<Rightarrow> Inr cs
      | Some c \<Rightarrow>
          if cs_sequence cs = acp_sequence c
          then if cs_head cs \<noteq> acp_head c \<or> cs_file_size cs \<noteq> acp_file_size c
               then Inl (InvalidData ''audit chain conflicts with its authenticated checkpoint'')
               else Inr (cs\<lparr>cs_matched := True\<rparr>)
          else Inr cs)"

definition verify_row ::
    "'v audit_packages \<Rightarrow> 's audit_authority option \<Rightarrow> 's \<Rightarrow> audit_checkpoint option \<Rightarrow> nat \<Rightarrow>
      chain_state \<Rightarrow> bytes \<Rightarrow> io_error + chain_state" where
  "verify_row js authority s required limit cs line =
     (if line = [] then Inr cs
      else
        (let sz = saturating_add_u64 (cs_file_size cs) (length line + 1)
         in and_then (ok_or (js_parse_envelope js line) (InvalidData ''audit row is malformed'')) (\<lambda>e.
            if ae_format e \<noteq> AUDIT_FORMAT
               \<or> ae_sequence e \<noteq> saturating_add_u64 (cs_sequence cs) 1
               \<or> ae_previous e \<noteq> cs_head cs
            then Inl (InvalidData ''audit chain breaks'')
            else
              and_then (chain_payload js (ae_sequence e) (ae_previous e) (ae_event e)) (\<lambda>payload.
              and_then (check_tag js authority s payload (ae_tag e)) (\<lambda>_.
                (let cs1 = cs\<lparr>cs_sequence := ae_sequence e, cs_head := ae_tag e, cs_file_size := sz\<rparr>;
                     cs2 = cs1\<lparr>cs_prefixes := cs_prefixes cs1 @ [chain_tail cs1]\<rparr>
                 in and_then (match_checkpoint required cs2) (\<lambda>cs3.
                      if limit = 0 then Inr cs3
                      else Inr (cs3\<lparr>cs_records := keep_record limit (js_record js (ae_event e)) (cs_records cs3)\<rparr>))))))))"

text \<open>The loop over the rows; the read may fail after any number of them.\<close>

fun verify_rows ::
    "'v audit_packages \<Rightarrow> 's audit_authority option \<Rightarrow> 's \<Rightarrow> audit_checkpoint option \<Rightarrow> nat \<Rightarrow>
      nat option \<Rightarrow> chain_state \<Rightarrow> bytes list \<Rightarrow> io_error + chain_state" where
  "verify_rows js authority s required limit fails cs [] =
     (if fails = None then Inr cs else Inl (OsError ''read''))"
| "verify_rows js authority s required limit fails cs (line # ls) =
     (if fails = Some 0 then Inl (OsError ''read'')
      else and_then (verify_row js authority s required limit cs line) (\<lambda>cs'.
        verify_rows js authority s required limit (map_option (\<lambda>k. k - 1) fails) cs' ls))"

definition read_fault :: "io_fault \<Rightarrow> nat option" where
  "read_fault f = (case f of IoDone \<Rightarrow> None | IoFails \<Rightarrow> Some 0 | IoPartial n _ \<Rightarrow> Some n)"

definition verify_contents ::
    "'v audit_packages \<Rightarrow> 's audit_authority option \<Rightarrow> 's \<Rightarrow> audit_checkpoint option \<Rightarrow> nat \<Rightarrow>
      nat option \<Rightarrow> nat \<Rightarrow> bytes \<Rightarrow> io_error + audit_checkpoint \<times> access_record list \<times> audit_checkpoint list" where
  "verify_contents js authority s required limit fails expected_size bs =
     and_then (verify_rows js authority s required limit fails (chain_start required) (rows bs)) (\<lambda>cs.
       if cs_file_size cs \<noteq> expected_size then Inl (InvalidData ''audit log ends with a partial row'')
       else if \<not> cs_matched cs
       then Inl (InvalidData ''audit log was truncated before its authenticated checkpoint'')
       else Inr (chain_tail cs, rev (cs_records cs), cs_prefixes cs))"

definition read_verified_access_chain_with_prefixes ::
    "'v audit_packages \<Rightarrow> 's audit_authority option \<Rightarrow> nat \<Rightarrow> audit_checkpoint option \<Rightarrow> nat \<Rightarrow>
      ('s audit_world, audit_checkpoint \<times> access_record list \<times> audit_checkpoint list) io" where
  "read_verified_access_chain_with_prefixes js authority i required limit =
     io_bind (descriptor_metadata i) (\<lambda>md.
     io_bind next_io (\<lambda>f w.
       (w, case w_nodes w i of
          None \<Rightarrow> Inl NotFound
        | Some n \<Rightarrow> verify_contents js authority (w_authority w) required limit (read_fault f)
                     (fs_size (md_stamp md)) (nd_bytes n))))"

definition read_verified_access_chain ::
    "'v audit_packages \<Rightarrow> 's audit_authority option \<Rightarrow> nat \<Rightarrow> audit_checkpoint option \<Rightarrow> nat \<Rightarrow>
      ('s audit_world, audit_checkpoint \<times> access_record list) io" where
  "read_verified_access_chain js authority i required limit =
     io_bind (read_verified_access_chain_with_prefixes js authority i required limit) (\<lambda>(tl, rs, _).
       io_return (tl, rs))"

definition verify_audit_chain ::
    "'v audit_packages \<Rightarrow> 's audit_authority option \<Rightarrow> string \<Rightarrow> audit_checkpoint option \<Rightarrow>
      ('s audit_world, audit_checkpoint) io" where
  "verify_audit_chain js authority path required =
     io_bind (open_private_audit_read path) (\<lambda>i.
     io_bind (read_verified_access_chain js authority i required 0) (\<lambda>(tl, _). io_return tl))"

definition verified_audit_checkpoints ::
    "'v audit_packages \<Rightarrow> 's audit_authority \<Rightarrow> string \<Rightarrow> ('s audit_world, audit_checkpoint list) io" where
  "verified_audit_checkpoints js authority path =
     io_bind (open_private_audit_read path) (\<lambda>i.
     io_bind (descriptor_metadata i) (\<lambda>before.
     io_bind (read_verified_access_chain_with_prefixes js (Some authority) i None 0) (\<lambda>(_, _, prefixes).
     io_bind (descriptor_metadata i) (\<lambda>after.
     io_bind (if md_stamp after \<noteq> md_stamp before then io_return True
              else io_bind (symlink_metadata path) (\<lambda>md. io_return (md_stamp md \<noteq> md_stamp before))) (\<lambda>changed.
       if changed then io_fail (OtherError ''audit log changed during recovery verification'')
       else io_return (genesis_checkpoint # prefixes))))))"

section \<open>The checkpoint worker\<close>

datatype checkpoint_command = Update audit_checkpoint | Flush audit_checkpoint | Shutdown

record checkpoint_worker =
  wk_running :: bool
  wk_queue :: "checkpoint_command list"
  wk_pending :: "audit_checkpoint option"
  wk_deadline :: "nat option"
  wk_durable :: audit_checkpoint

definition worker_start :: "audit_checkpoint \<Rightarrow> checkpoint_worker" where
  "worker_start durable = \<lparr>wk_running = True, wk_queue = [], wk_pending = None, wk_deadline = None,
     wk_durable = durable\<rparr>"

definition mark_degraded :: "io_error \<Rightarrow> string option \<Rightarrow> string option" where
  "mark_degraded e health = (case health of None \<Rightarrow> Some (io_message e) | Some r \<Rightarrow> Some r)"

definition note_result :: "io_error + 'a \<Rightarrow> string option \<Rightarrow> string option" where
  "note_result r health = (case r of Inl e \<Rightarrow> mark_degraded e health | Inr _ \<Rightarrow> health)"

definition persist_newer_checkpoint ::
    "'s audit_authority \<Rightarrow> audit_checkpoint \<Rightarrow> audit_checkpoint \<Rightarrow> 's \<Rightarrow>
      's \<times> audit_checkpoint \<times> (io_error + unit)" where
  "persist_newer_checkpoint a durable c s =
     (if acp_sequence c < acp_sequence durable
      then (s, durable, Inl (InvalidData ''audit checkpoint worker refused to move backwards''))
      else if c = durable then (s, durable, Inr ())
      else if acp_sequence c = acp_sequence durable
      then (s, durable, Inl (InvalidData ''audit checkpoint sequence has conflicting authenticated tails''))
      else (case persist_checkpoint a c s of
              (s', Inl e) \<Rightarrow> (s', durable, Inl e)
            | (s', Inr _) \<Rightarrow> (s', c, Inr ())))"

text \<open>One iteration of the loop of the worker, on a received command or (None) on the deadline. The last
  component is the reply sent, if the command asks for one.\<close>

definition persist_pending ::
    "'s audit_authority \<Rightarrow> 's \<Rightarrow> checkpoint_worker \<Rightarrow> 's \<times> checkpoint_worker \<times> (io_error + unit)" where
  "persist_pending a s wk =
     (case wk_pending wk of
        None \<Rightarrow> (s, wk, Inr ())
      | Some c \<Rightarrow>
          (case persist_newer_checkpoint a (wk_durable wk) c s of
             (s', durable, r) \<Rightarrow> (s', wk\<lparr>wk_pending := None, wk_durable := durable\<rparr>, r)))"

definition worker_iteration ::
    "'s audit_authority \<Rightarrow> nat \<Rightarrow> checkpoint_command option \<Rightarrow> 's \<times> checkpoint_worker \<times> string option \<Rightarrow>
      ('s \<times> checkpoint_worker \<times> string option) \<times> (io_error + unit) option" where
  "worker_iteration a now cmd st =
     (case st of (s, wk, health) \<Rightarrow>
      case cmd of
        Some (Update c) \<Rightarrow>
          ((s, wk\<lparr>wk_pending := Some c,
                 wk_deadline := (case wk_deadline wk of None \<Rightarrow> Some (now + AUDIT_CHECKPOINT_MAX_DELAY)
                                  | Some d \<Rightarrow> Some d)\<rparr>, health), None)
      | Some (Flush c) \<Rightarrow>
          (case persist_newer_checkpoint a (wk_durable wk) c s of
             (s', durable, r) \<Rightarrow>
               (let pending = (case wk_pending wk of
                       None \<Rightarrow> None
                     | Some p \<Rightarrow> if acp_sequence durable < acp_sequence p then Some p else None)
                in ((s', wk\<lparr>wk_durable := durable, wk_pending := pending,
                           wk_deadline := map_option (\<lambda>_. now + AUDIT_CHECKPOINT_MAX_DELAY) pending,
                           wk_running := is_ok r\<rparr>, note_result r health), Some r)))
      | Some Shutdown \<Rightarrow>
          (case persist_pending a s wk of
             (s', wk', r) \<Rightarrow> ((s', wk'\<lparr>wk_running := False\<rparr>, note_result r health), Some r))
      | None \<Rightarrow>
          (case persist_pending a s wk of
             (s', wk', r) \<Rightarrow>
               ((s', wk'\<lparr>wk_running := is_ok r,
                        wk_deadline := (if is_ok r then None else wk_deadline wk')\<rparr>,
                 note_result r health), None)))"

text \<open>The worker catching up with its queue. Commands left behind by a stopped worker are lost.\<close>

fun worker_drain ::
    "'s audit_authority \<Rightarrow> nat \<Rightarrow> checkpoint_command list \<Rightarrow> 's \<times> checkpoint_worker \<times> string option \<Rightarrow>
      ('s \<times> checkpoint_worker \<times> string option) \<times> (io_error + unit) option" where
  "worker_drain a now [] st = (st, None)"
| "worker_drain a now (c # cs) st =
     (if wk_running (fst (snd st))
      then (case worker_iteration a now (Some c) st of
              (st', r) \<Rightarrow> if cs = [] then (st', r) else worker_drain a now cs st')
      else (st, None))"

section \<open>The log\<close>

record audit_writer =
  wr_ino :: nat
  wr_buffer :: bytes
  wr_sequence :: nat
  wr_head :: string
  wr_file_size :: nat
  wr_stamp :: file_stamp

record audit_log =
  al_path :: string
  al_writer :: audit_writer
  al_worker :: "checkpoint_worker option"
  al_health :: "string option"

definition writer_tail :: "audit_writer \<Rightarrow> audit_checkpoint" where
  "writer_tail wr = \<lparr>acp_sequence = wr_sequence wr, acp_head = wr_head wr, acp_file_size = wr_file_size wr\<rparr>"

type_synonym 's log_state = "'s audit_world \<times> audit_log"

definition on_world :: "('s audit_world, 'a) io \<Rightarrow> ('s log_state, 'a) io" where
  "on_world m st = (case m (fst st) of (w, r) \<Rightarrow> ((w, snd st), r))"

definition set_health :: "string option \<Rightarrow> 's log_state \<Rightarrow> 's log_state" where
  "set_health h st = (fst st, (snd st)\<lparr>al_health := h\<rparr>)"

definition set_writer :: "audit_writer \<Rightarrow> 's log_state \<Rightarrow> 's log_state" where
  "set_writer wr st = (fst st, (snd st)\<lparr>al_writer := wr\<rparr>)"

text \<open>An operation whose failure degrades the log.\<close>

definition degrading :: "('s log_state, 'a) io \<Rightarrow> ('s log_state, 'a) io" where
  "degrading m st = (case m st of
       (st', Inl e) \<Rightarrow> (set_health (mark_degraded e (al_health (snd st'))) st', Inl e)
     | (st', Inr x) \<Rightarrow> (st', Inr x))"

definition check_health :: "('s log_state, unit) io" where
  "check_health st = (st, case al_health (snd st) of
       Some reason \<Rightarrow> Inl (OtherError (''audit log is degraded: '' @ reason))
     | None \<Rightarrow> Inr ())"

definition validate_writer_file :: "('s log_state, unit) io" where
  "validate_writer_file = (\<lambda>st.
     let wr = al_writer (snd st) in
     io_bind (on_world (descriptor_metadata (wr_ino wr))) (\<lambda>descriptor.
     io_bind (on_world (symlink_metadata (al_path (snd st)))) (\<lambda>md.
       if \<not> md_regular md \<or> md_symlink md
       then io_fail (InvalidData ''audit log path was replaced with a non-regular file'')
       else if md_stamp descriptor \<noteq> wr_stamp wr \<or> md_stamp md \<noteq> wr_stamp wr
               \<or> fs_size (md_stamp descriptor) \<noteq> wr_file_size wr
       then io_fail (InvalidData ''audit log changed outside the authenticated writer'')
       else io_return ())) st)"

definition ensure_healthy :: "('s log_state, unit) io" where
  "ensure_healthy = io_bind check_health (\<lambda>_. io_bind validate_writer_file (\<lambda>_. check_health))"

definition unverified_audit_path :: "string \<Rightarrow> string \<Rightarrow> string" where
  "unverified_audit_path path suffix = with_extension path (''unverified-'' @ suffix)"

definition authority_load :: "'s audit_authority \<Rightarrow> ('s audit_world, audit_checkpoint option) io" where
  "authority_load a w = (case load_checkpoint a (w_authority w) of (s, r) \<Rightarrow> (w\<lparr>w_authority := s\<rparr>, r))"

definition authority_persist :: "'s audit_authority \<Rightarrow> audit_checkpoint \<Rightarrow> ('s audit_world, unit) io" where
  "authority_persist a c w = (case persist_checkpoint a c (w_authority w) of (s, r) \<Rightarrow> (w\<lparr>w_authority := s\<rparr>, r))"

text \<open>A non-empty log without a checkpoint predates authentication and is moved aside.\<close>

definition quarantine_legacy ::
    "'s audit_authority option \<Rightarrow> string \<Rightarrow> string \<Rightarrow> audit_checkpoint option \<Rightarrow> ('s audit_world, unit) io" where
  "quarantine_legacy authority path suffix checkpoint =
     (case authority of
        None \<Rightarrow> io_return ()
      | Some _ \<Rightarrow>
          if checkpoint \<noteq> None then io_return ()
          else io_bind (path_exists path) (\<lambda>ex.
            if \<not> ex then io_return ()
            else io_bind (path_metadata_len path) (\<lambda>n.
              if n = 0 then io_return () else rename_entry path (unverified_audit_path path suffix))))"

definition open_with_authority ::
    "'v audit_packages \<Rightarrow> 's audit_authority option \<Rightarrow> string \<Rightarrow> string \<Rightarrow> ('s audit_world, audit_log) io" where
  "open_with_authority js authority path suffix =
     io_bind (case path_parent path of Some _ \<Rightarrow> syscall ''mkdir'' | None \<Rightarrow> io_return ()) (\<lambda>_.
     io_bind (case authority of Some a \<Rightarrow> authority_load a | None \<Rightarrow> io_return None) (\<lambda>checkpoint.
     io_bind (quarantine_legacy authority path suffix checkpoint) (\<lambda>_.
     io_bind (path_exists path) (\<lambda>ex.
     io_bind (if ex then verify_audit_chain js authority path checkpoint
              else io_return genesis_checkpoint) (\<lambda>tail.
     io_bind (case authority of
                Some a \<Rightarrow> if checkpoint \<noteq> Some tail then authority_persist a tail else io_return ()
              | None \<Rightarrow> io_return ()) (\<lambda>_.
     io_bind (open_private_append path) (\<lambda>i.
     io_bind (descriptor_metadata i) (\<lambda>md.
       io_return \<lparr>al_path = path,
         al_writer = \<lparr>wr_ino = i, wr_buffer = [], wr_sequence = acp_sequence tail, wr_head = acp_head tail,
           wr_file_size = acp_file_size tail, wr_stamp = md_stamp md\<rparr>,
         al_worker = (case authority of Some _ \<Rightarrow> Some (worker_start tail) | None \<Rightarrow> None),
         al_health = None\<rparr>))))))))"

definition audit_open :: "'v audit_packages \<Rightarrow> string \<Rightarrow> string \<Rightarrow> ('s audit_world, audit_log) io" where
  "audit_open js path suffix = open_with_authority js None path suffix"

definition open_authenticated ::
    "'v audit_packages \<Rightarrow> 's audit_authority \<Rightarrow> string \<Rightarrow> string \<Rightarrow> ('s audit_world, audit_log) io" where
  "open_authenticated js a path suffix = open_with_authority js (Some a) path suffix"

subsection \<open>Talking to the worker\<close>

definition worker_stopped :: io_error where
  "worker_stopped = OtherError ''audit checkpoint worker stopped''"

definition worker_update :: "audit_checkpoint \<Rightarrow> ('s log_state, unit) io" where
  "worker_update c st =
     (case al_worker (snd st) of
        None \<Rightarrow> (st, Inr ())
      | Some wk \<Rightarrow>
          if wk_running wk
          then ((fst st, (snd st)\<lparr>al_worker := Some (wk\<lparr>wk_queue := wk_queue wk @ [Update c]\<rparr>)\<rparr>), Inr ())
          else (st, Inl worker_stopped))"

text \<open>A command with a reply: the worker works off its queue up to it while the caller waits.\<close>

definition worker_call ::
    "'s audit_authority \<Rightarrow> nat \<Rightarrow> checkpoint_worker \<Rightarrow> checkpoint_command \<Rightarrow> ('s log_state, unit) io" where
  "worker_call a now wk cmd st =
     (if wk_running wk
      then (case worker_drain a now (wk_queue wk @ [cmd])
                   (w_authority (fst st), wk\<lparr>wk_queue := []\<rparr>, al_health (snd st)) of
              ((s, wk', health), reply) \<Rightarrow>
                (((fst st)\<lparr>w_authority := s\<rparr>, (snd st)\<lparr>al_worker := Some wk', al_health := health\<rparr>),
                 case reply of Some r \<Rightarrow> r | None \<Rightarrow> Inl worker_stopped))
      else (st, Inl worker_stopped))"

definition worker_flush :: "'s audit_authority \<Rightarrow> nat \<Rightarrow> audit_checkpoint \<Rightarrow> ('s log_state, unit) io" where
  "worker_flush a now c st =
     (case al_worker (snd st) of
        None \<Rightarrow> (st, Inl (OtherError ''audit checkpoint worker is missing''))
      | Some wk \<Rightarrow> worker_call a now wk (Flush c) st)"

definition worker_shutdown :: "'s audit_authority \<Rightarrow> nat \<Rightarrow> checkpoint_worker \<Rightarrow> ('s log_state, unit) io" where
  "worker_shutdown a now wk = worker_call a now wk Shutdown"

subsection \<open>Writing\<close>

text \<open>\<open>BufWriter\<close>: what a failing write leaves is either kept in the buffer or lost.\<close>

definition push_bytes :: "bytes \<Rightarrow> ('s log_state, unit) io" where
  "push_bytes bs st =
     (let wr = al_writer (snd st); out = wr_buffer wr @ bs
      in if out = [] then (st, Inr ())
         else (case next_io (fst st) of
                 (w, Inr IoDone) \<Rightarrow> (set_writer (wr\<lparr>wr_buffer := []\<rparr>) (append_bytes (wr_ino wr) out w, snd st), Inr ())
               | (w, Inr IoFails) \<Rightarrow> (set_writer (wr\<lparr>wr_buffer := out\<rparr>) (w, snd st), Inl (OsError ''write''))
               | (w, Inr (IoPartial n kept)) \<Rightarrow>
                   (set_writer (wr\<lparr>wr_buffer := if kept then drop n out else []\<rparr>)
                      (append_bytes (wr_ino wr) (take n out) w, snd st), Inl (OsError ''write''))
               | (w, Inl e) \<Rightarrow> ((w, snd st), Inl e)))"

definition advance_tail :: "audit_checkpoint \<Rightarrow> ('s log_state, unit) io" where
  "advance_tail c st =
     (set_writer ((al_writer (snd st))\<lparr>wr_sequence := acp_sequence c, wr_head := acp_head c,
        wr_file_size := acp_file_size c\<rparr>) st, Inr ())"

definition restamp :: "('s log_state, unit) io" where
  "restamp st = io_bind (on_world (descriptor_metadata (wr_ino (al_writer (snd st))))) (\<lambda>md st'.
     (set_writer ((al_writer (snd st'))\<lparr>wr_stamp := md_stamp md\<rparr>) st', Inr ())) st"

text \<open>\<open>AuditLog::write\<close> up to and including the new stamp, and the update sent to the worker.\<close>

definition seal_row ::
    "'v audit_packages \<Rightarrow> 's audit_authority option \<Rightarrow> 's \<Rightarrow> audit_writer \<Rightarrow> 'v \<Rightarrow> io_error + bytes \<times> audit_checkpoint" where
  "seal_row js authority s wr event =
     and_then (ok_or (checked_add_u64 (wr_sequence wr) 1) (InvalidData ''audit sequence overflow'')) (\<lambda>sequence.
     and_then (chain_payload js sequence (wr_head wr) event) (\<lambda>payload.
     and_then (make_tag js authority s payload) (\<lambda>tag.
     and_then (ok_or (js_envelope js \<lparr>ae_format = AUDIT_FORMAT, ae_sequence = sequence,
          ae_previous = wr_head wr, ae_event = event, ae_tag = tag\<rparr>) (OtherError ''envelope encoding'')) (\<lambda>row.
       Inr (row @ [10], \<lparr>acp_sequence = sequence, acp_head = tag,
              acp_file_size = saturating_add_u64 (wr_file_size wr) (length (row @ [10]))\<rparr>)))))"

definition write_row ::
    "'v audit_packages \<Rightarrow> 's audit_authority option \<Rightarrow> audit_event \<Rightarrow> ('s log_state, unit) io" where
  "write_row js authority ev =
     io_bind check_health (\<lambda>_.
     io_bind (io_lift (ok_or (js_event js ev) (OtherError ''event encoding''))) (\<lambda>event.
     io_bind check_health (\<lambda>_.
     io_bind (degrading validate_writer_file) (\<lambda>_ st.
       io_bind (io_lift (seal_row js authority (w_authority (fst st)) (al_writer (snd st)) event)) (\<lambda>(line, c).
         degrading (io_bind (push_bytes line) (\<lambda>_. io_bind (advance_tail c) (\<lambda>_. restamp)))) st))))"

definition submit_tail :: "('s log_state, unit) io" where
  "submit_tail st = worker_update (writer_tail (al_writer (snd st))) st"

definition audit_write ::
    "'v audit_packages \<Rightarrow> 's audit_authority option \<Rightarrow> audit_event \<Rightarrow> ('s log_state, unit) io" where
  "audit_write js authority ev = io_bind (write_row js authority ev) (\<lambda>_. degrading submit_tail)"

subsection \<open>Reading back\<close>

definition authority_agrees :: "'s audit_authority option \<Rightarrow> nat \<Rightarrow> audit_checkpoint \<Rightarrow> ('s log_state, unit) io" where
  "authority_agrees authority now expected =
     (case authority of
        None \<Rightarrow> io_return ()
      | Some a \<Rightarrow>
          io_bind (worker_flush a now expected) (\<lambda>_.
          io_bind (on_world (authority_load a)) (\<lambda>c.
            if c \<noteq> Some expected
            then io_fail (InvalidData ''audit writer tail does not match its authenticated checkpoint'')
            else io_return ())))"

definition read_recent_verified ::
    "'v audit_packages \<Rightarrow> 's audit_authority option \<Rightarrow> nat \<Rightarrow> nat \<Rightarrow> ('s log_state, access_record list) io" where
  "read_recent_verified js authority now limit =
     io_bind check_health (\<lambda>_.
     degrading (
       io_bind (push_bytes []) (\<lambda>_.
       io_bind validate_writer_file (\<lambda>_ st.
         let expected = writer_tail (al_writer (snd st)) in
         io_bind (authority_agrees authority now expected) (\<lambda>_.
         io_bind (on_world (syscall ''dup'')) (\<lambda>_.
         io_bind (on_world (syscall ''lseek'')) (\<lambda>_.
         io_bind (on_world (read_verified_access_chain js authority (wr_ino (al_writer (snd st))) None limit)) (\<lambda>(tail, records).
           if tail \<noteq> expected then io_fail (InvalidData ''audit history does not match the live writer tail'')
           else io_bind validate_writer_file (\<lambda>_. io_return records))))) st))))"

text \<open>Dropping the log stops the worker; the buffered writer then makes a last attempt of its own.\<close>

definition audit_drop :: "'s audit_authority option \<Rightarrow> nat \<Rightarrow> 's log_state \<Rightarrow> 's audit_world" where
  "audit_drop authority now st =
     (case (authority, al_worker (snd st)) of
        (Some a, Some wk) \<Rightarrow> fst (fst (push_bytes [] (fst (worker_shutdown a now wk st))))
      | _ \<Rightarrow> fst (fst (push_bytes [] st)))"

section \<open>The events\<close>

definition request_info_of :: "process_identity \<Rightarrow> request_info" where
  "request_info_of i = \<lparr>ri_uid = id_uid i, ri_gid = id_gid i, ri_pid = id_pid i\<rparr>"

definition log_open ::
    "'v audit_packages \<Rightarrow> 's audit_authority option \<Rightarrow> string \<Rightarrow> string \<Rightarrow> string \<Rightarrow> process_identity \<Rightarrow> string \<Rightarrow>
      string option \<Rightarrow> policy_evaluation option \<Rightarrow> string \<Rightarrow> nat \<Rightarrow> nat \<Rightarrow> audit_dependency list option \<Rightarrow>
      ('s log_state, unit) io" where
  "log_open js authority ts path operation identity decision rule_id policy content_version fh sz dependencies =
     audit_write js authority (OpenEvent \<lparr>oe_ts = ts, oe_event = ''open'', oe_path = path, oe_operation = operation,
       oe_decision = decision, oe_rule_id = rule_id, oe_policy = policy, oe_request = request_info_of identity,
       oe_identity = identity, oe_content_version = content_version, oe_fh = fh, oe_size = sz,
       oe_dependencies = dependencies\<rparr>)"

definition log_denied ::
    "'v audit_packages \<Rightarrow> 's audit_authority option \<Rightarrow> string \<Rightarrow> string \<Rightarrow> string \<Rightarrow> process_identity \<Rightarrow>
      string option \<Rightarrow> string \<Rightarrow> policy_evaluation option \<Rightarrow> ('s log_state, unit) io" where
  "log_denied js authority ts path operation identity rule_id reason policy =
     audit_write js authority (DeniedEvent \<lparr>de_ts = ts, de_event = ''open'', de_path = path, de_operation = operation,
       de_decision = ''denied'', de_rule_id = rule_id, de_reason = reason, de_policy = policy,
       de_request = request_info_of identity, de_identity = identity\<rparr>)"

definition log_write_commit ::
    "'v audit_packages \<Rightarrow> 's audit_authority option \<Rightarrow> string \<Rightarrow> string \<Rightarrow> nat \<Rightarrow> nat \<Rightarrow> string \<Rightarrow> nat \<Rightarrow>
      ('s log_state, unit) io" where
  "log_write_commit js authority ts path fh version content_version sz =
     audit_write js authority (WriteCommitEvent \<lparr>wc_ts = ts, wc_event = ''write_commit'', wc_path = path, wc_fh = fh,
       wc_version = version, wc_content_version = content_version, wc_size = sz\<rparr>)"

definition log_ssh_sign ::
    "'v audit_packages \<Rightarrow> 's audit_authority option \<Rightarrow> string \<Rightarrow> string \<Rightarrow> process_identity \<Rightarrow> string \<Rightarrow>
      string option \<Rightarrow> string \<Rightarrow> policy_evaluation option \<Rightarrow> string \<Rightarrow> string \<Rightarrow> string \<Rightarrow> string \<Rightarrow> string option \<Rightarrow>
      string \<Rightarrow> ssh_session_audit option \<Rightarrow> ('s log_state, unit) io" where
  "log_ssh_sign js authority ts path identity decision rule_id reason policy surface_id resource_id
       key_fingerprint key_label identity_source result ssh_session =
     audit_write js authority (SshSignEvent \<lparr>se_ts = ts, se_event = ''ssh_sign'', se_path = path, se_operation = ''sign'',
       se_decision = decision, se_rule_id = rule_id, se_reason = reason, se_policy = policy,
       se_request = request_info_of identity, se_identity = identity, se_surface_id = surface_id,
       se_resource_id = resource_id, se_key_fingerprint = key_fingerprint, se_key_label = key_label,
       se_identity_source = identity_source, se_result = result, se_ssh_session = ssh_session\<rparr>)"

definition log_close ::
    "'v audit_packages \<Rightarrow> 's audit_authority option \<Rightarrow> string \<Rightarrow> string \<Rightarrow> nat \<Rightarrow> nat \<Rightarrow> nat \<Rightarrow> string option \<Rightarrow>
      ('s log_state, unit) io" where
  "log_close js authority ts path fh duration_ms bytes_served err =
     audit_write js authority (CloseEvent \<lparr>ce_ts = ts, ce_event = ''close'', ce_path = path, ce_fh = fh,
       ce_duration_ms = duration_ms, ce_bytes_served = bytes_served, ce_error = err\<rparr>)"

section \<open>The backward reader\<close>

text \<open>Slices split at newlines keep the segment after a final newline.\<close>

fun segments :: "bytes \<Rightarrow> bytes list" where
  "segments [] = [[]]"
| "segments (b # bs) =
     (if b = 10 then [] # segments bs
      else (case segments bs of [] \<Rightarrow> [[b]] | r # rs \<Rightarrow> (b # r) # rs))"

definition CHUNK_SIZE :: nat where "CHUNK_SIZE = 64 * 1024"

text \<open>A row as the history view reads it: an envelope, or a bare event of an older log.\<close>

definition row_event :: "'v audit_packages \<Rightarrow> bytes \<Rightarrow> 'v option" where
  "row_event js line =
     (case js_parse_envelope js line of Some e \<Rightarrow> Some (ae_event e) | None \<Rightarrow> js_parse_value js line)"

definition row_record :: "'v audit_packages \<Rightarrow> bytes \<Rightarrow> access_record option" where
  "row_record js line =
     (if line = [] then None
      else (case row_event js line of
              None \<Rightarrow> None
            | Some event \<Rightarrow>
           (case js_record js event of
              None \<Rightarrow> None
            | Some r \<Rightarrow> if access_event (ar_event r) then Some r else None)))"

text \<open>The inner loop over the complete rows of a chunk, newest first, until the limit is reached.\<close>

fun collect_records ::
    "'v audit_packages \<Rightarrow> nat \<Rightarrow> access_record list \<Rightarrow> bytes list \<Rightarrow> access_record list" where
  "collect_records js limit records [] = records"
| "collect_records js limit records (line # ls) =
     (case row_record js line of
        None \<Rightarrow> collect_records js limit records ls
      | Some r \<Rightarrow>
          if length (records @ [r]) = limit then records @ [r]
          else collect_records js limit (records @ [r]) ls)"

function backward_loop ::
    "'v audit_packages \<Rightarrow> nat \<Rightarrow> bytes \<Rightarrow> nat \<Rightarrow> bytes \<Rightarrow> access_record list \<Rightarrow> access_record list" where
  "backward_loop js limit file cursor suffix records =
     (if cursor > 0 \<and> length records < limit
      then
        (let read_len = min cursor CHUNK_SIZE;
             cursor' = cursor - read_len;
             data = take read_len (drop cursor' file) @ suffix
         in if cursor' = 0
            then backward_loop js limit file 0 [] (collect_records js limit records (rev (segments data)))
            else if 10 \<in> set data
            then (let p = length (takeWhile (\<lambda>b. b \<noteq> 10) data)
                  in backward_loop js limit file cursor' (take p data)
                       (collect_records js limit records (rev (segments (drop (p + 1) data)))))
            else backward_loop js limit file cursor' data records)
      else records)"
  by pat_completeness auto
termination
  by (relation "measure (\<lambda>(js, limit, file, cursor, suffix, records). cursor)")
    (auto simp: CHUNK_SIZE_def)

declare backward_loop.simps [simp del]

text \<open>The reads of the file may fail; then so does the call.\<close>

definition read_recent_access ::
    "'v audit_packages \<Rightarrow> string \<Rightarrow> nat \<Rightarrow> ('s audit_world, access_record list) io" where
  "read_recent_access js path limit =
     (if limit = 0 then io_return []
      else io_bind (syscall ''open'') (\<lambda>_ w.
        (case (case w_dir w path of
                 Some (RegularFile i) \<Rightarrow> w_nodes w i
               | Some (SymLink (Some i) _) \<Rightarrow> w_nodes w i
               | _ \<Rightarrow> None) of
           None \<Rightarrow> (w, case w_dir w path of Some (OtherNode _) \<Rightarrow> Inl (OsError ''is a directory'') | _ \<Rightarrow> Inr [])
         | Some n \<Rightarrow>
             io_bind (syscall ''read'') (\<lambda>_.
               io_return (backward_loop js limit (nd_bytes n) (length (nd_bytes n)) [] [])) w)))"

end
