(* ===== verification/Audit_Chain.thy ===== *)
theory Audit_Chain
  imports Audit_Log
begin

text \<open>
  What the audit log guarantees. A verified file is a chain of rows (\<open>chain\<close>); the chain below an
  authenticated checkpoint cannot be exchanged; a healthy log holds exactly the events that were written,
  under every interleaving of its operations with the checkpoint worker; and a degraded log stays closed.
\<close>

section \<open>What a verified file says\<close>

text \<open>One row read against the tail so far, and the chain of a list of rows: the events with the tails
  they lead to.\<close>

definition read_row ::
    "'v audit_packages \<Rightarrow> 's audit_authority option \<Rightarrow> 's \<Rightarrow> audit_checkpoint \<Rightarrow> bytes \<Rightarrow> ('v \<times> audit_checkpoint) option" where
  "read_row js authority s c line =
     (case js_parse_envelope js line of
        None \<Rightarrow> None
      | Some e \<Rightarrow>
          if ae_format e = AUDIT_FORMAT \<and> ae_sequence e = saturating_add_u64 (acp_sequence c) 1
             \<and> ae_previous e = acp_head c
          then (case js_payload js (AUDIT_FORMAT, ae_sequence e, ae_previous e, ae_event e) of
                  None \<Rightarrow> None
                | Some p \<Rightarrow>
                    if is_ok (check_tag js authority s p (ae_tag e))
                    then Some (ae_event e, \<lparr>acp_sequence = ae_sequence e, acp_head = ae_tag e,
                           acp_file_size = saturating_add_u64 (acp_file_size c) (length line + 1)\<rparr>)
                    else None)
          else None)"

fun chain ::
    "'v audit_packages \<Rightarrow> 's audit_authority option \<Rightarrow> 's \<Rightarrow> audit_checkpoint \<Rightarrow> bytes list \<Rightarrow>
      ('v \<times> audit_checkpoint) list option" where
  "chain js authority s c [] = Some []"
| "chain js authority s c (line # ls) =
     (case read_row js authority s c line of
        None \<Rightarrow> None
      | Some (v, c') \<Rightarrow> map_option (\<lambda>xs. (v, c') # xs) (chain js authority s c' ls))"

definition tail_of :: "audit_checkpoint \<Rightarrow> ('v \<times> audit_checkpoint) list \<Rightarrow> audit_checkpoint" where
  "tail_of c xs = last (c # map snd xs)"

definition consistent :: "audit_checkpoint option \<Rightarrow> audit_checkpoint \<Rightarrow> bool" where
  "consistent required c =
     (case required of None \<Rightarrow> True | Some r \<Rightarrow> acp_sequence c = acp_sequence r \<longrightarrow> c = r)"

definition step_state ::
    "'v audit_packages \<Rightarrow> audit_checkpoint option \<Rightarrow> nat \<Rightarrow> chain_state \<Rightarrow> 'v \<times> audit_checkpoint \<Rightarrow> chain_state" where
  "step_state js required limit cs x =
     cs\<lparr>cs_sequence := acp_sequence (snd x), cs_head := acp_head (snd x), cs_file_size := acp_file_size (snd x),
        cs_records := (if limit = 0 then cs_records cs
                       else keep_record limit (js_record js (fst x)) (cs_records cs)),
        cs_matched := (cs_matched cs \<or> required = Some (snd x)),
        cs_prefixes := cs_prefixes cs @ [snd x]\<rparr>"

text \<open>The events of a file, and those of them the access history shows.\<close>

definition file_rows :: "bytes \<Rightarrow> bytes list" where
  "file_rows bs = filter (\<lambda>l. l \<noteq> []) (rows bs)"

definition logged_events :: "'v audit_packages \<Rightarrow> bytes \<Rightarrow> 'v list" where
  "logged_events js bs = List.map_filter (\<lambda>l. map_option ae_event (js_parse_envelope js l)) (file_rows bs)"

definition access_view :: "'v audit_packages \<Rightarrow> 'v \<Rightarrow> access_record option" where
  "access_view js v =
     (case js_record js v of None \<Rightarrow> None | Some r \<Rightarrow> if access_event (ar_event r) then Some r else None)"

lemma tail_of_simps [simp]:
  "tail_of c [] = c" "tail_of c (x # xs) = tail_of (snd x) xs" "tail_of c (xs @ [x]) = snd x"
  by (simp_all add: tail_of_def)

lemma chain_tail_step [simp]: "chain_tail (step_state js required limit cs x) = snd x"
  by (simp add: chain_tail_def step_state_def)

lemma audit_checkpoint_eqI:
  "acp_sequence c = acp_sequence d \<Longrightarrow> acp_head c = acp_head d \<Longrightarrow> acp_file_size c = acp_file_size d \<Longrightarrow>
   (c :: audit_checkpoint) = d"
  by (cases c; cases d) simp

lemma match_checkpoint_spec:
  "match_checkpoint required cs = Inr cs' \<longleftrightarrow>
     consistent required (chain_tail cs) \<and>
     cs' = cs\<lparr>cs_matched := (cs_matched cs \<or> required = Some (chain_tail cs))\<rparr>"
proof (cases required)
  case None
  then show ?thesis by (cases cs) (auto simp: match_checkpoint_def consistent_def)
next
  case (Some c)
  then show ?thesis
    by (cases c; cases cs) (auto simp: match_checkpoint_def consistent_def chain_tail_def)
qed

lemma verify_row_spec:
  assumes "line \<noteq> []"
  shows "verify_row js authority s required limit cs line = Inr cs' \<longleftrightarrow>
    (\<exists>x. read_row js authority s (chain_tail cs) line = Some x \<and> consistent required (snd x) \<and>
       cs' = step_state js required limit cs x)"
proof (cases "js_parse_envelope js line")
  case None
  with assms show ?thesis by (simp add: verify_row_def read_row_def Let_def)
next
  case (Some e)
  show ?thesis
  proof (cases "ae_format e = AUDIT_FORMAT \<and> ae_sequence e = saturating_add_u64 (cs_sequence cs) 1 \<and> ae_previous e = cs_head cs")
    case False
    with assms Some show ?thesis by (auto simp: verify_row_def read_row_def Let_def chain_tail_def)
  next
    case True
    show ?thesis
    proof (cases "js_payload js (AUDIT_FORMAT, ae_sequence e, ae_previous e, ae_event e)")
      case None
      with assms Some True show ?thesis
        by (simp add: verify_row_def read_row_def Let_def chain_tail_def chain_payload_def)
    next
      case (Some p)
      note simps = verify_row_def read_row_def Let_def chain_tail_def chain_payload_def step_state_def
        match_checkpoint_spec and_then_eq_Inr
      show ?thesis
        using assms \<open>js_parse_envelope js line = Some e\<close> True Some
        by (cases "check_tag js authority s p (ae_tag e)"; cases "limit = 0") (auto simp: simps)
    qed
  qed
qed

lemma verify_rows_no_fault:
  "verify_rows js authority s required limit fails cs ls = Inr cs' \<Longrightarrow> fails = None"
  by (induction ls arbitrary: cs fails) (auto simp: and_then_eq_Inr split: if_splits)

lemma verify_rows_spec:
  "verify_rows js authority s required limit None cs ls = Inr cs' \<longleftrightarrow>
    (\<exists>xs. chain js authority s (chain_tail cs) (filter (\<lambda>l. l \<noteq> []) ls) = Some xs \<and>
       (\<forall>x \<in> set xs. consistent required (snd x)) \<and> cs' = foldl (step_state js required limit) cs xs)"
proof (induction ls arbitrary: cs)
  case Nil
  then show ?case by auto
next
  case (Cons l ls)
  show ?case
  proof (cases "l = []")
    case True
    with Cons show ?thesis by (simp add: verify_row_def)
  next
    case False
    have "verify_rows js authority s required limit None cs (l # ls) = Inr cs' \<longleftrightarrow>
        (\<exists>x xs. read_row js authority s (chain_tail cs) l = Some x \<and> consistent required (snd x) \<and>
          chain js authority s (snd x) (filter (\<lambda>l. l \<noteq> []) ls) = Some xs \<and>
          (\<forall>y \<in> set xs. consistent required (snd y)) \<and>
          cs' = foldl (step_state js required limit) (step_state js required limit cs x) xs)"
      using Cons.IH by (auto simp: and_then_eq_Inr verify_row_spec [OF False])
    also have "\<dots> \<longleftrightarrow> (\<exists>xs. chain js authority s (chain_tail cs) (filter (\<lambda>l. l \<noteq> []) (l # ls)) = Some xs \<and>
       (\<forall>x \<in> set xs. consistent required (snd x)) \<and> cs' = foldl (step_state js required limit) cs xs)"
      using False by (force split: option.splits prod.splits)
    finally show ?thesis .
  qed
qed

lemma foldl_step_state:
  "chain_tail (foldl (step_state js required limit) cs xs) = tail_of (chain_tail cs) xs"
  "cs_prefixes (foldl (step_state js required limit) cs xs) = cs_prefixes cs @ map snd xs"
  "cs_matched (foldl (step_state js required limit) cs xs) \<longleftrightarrow> cs_matched cs \<or> required \<in> Some ` set (map snd xs)"
  "cs_records (foldl (step_state js required limit) cs xs) =
     (if limit = 0 then cs_records cs
      else foldl (\<lambda>rs x. keep_record limit (js_record js (fst x)) rs) (cs_records cs) xs)"
proof (induction xs arbitrary: cs)
  case (Cons x xs)
  { case 1 show ?case using Cons(1) by simp }
  { case 2 show ?case using Cons(2) by (simp add: step_state_def) }
  { case 3 show ?case using Cons(3) by (auto simp: step_state_def) }
  { case 4 show ?case using Cons(4) by (simp add: step_state_def) }
qed auto

lemma map_filter_append: "List.map_filter f (xs @ ys) = List.map_filter f xs @ List.map_filter f ys"
  by (simp add: List.map_filter_def)

text \<open>The queue ends with the newest \<open>limit\<close> access records.\<close>

lemma keep_record_newest:
  assumes "0 < limit"
  shows "rev (foldl (\<lambda>rs x. keep_record limit (js_record js (fst x)) rs) [] xs) =
    take limit (rev (List.map_filter (\<lambda>x. access_view js (fst x)) xs))"
proof (induction xs rule: rev_induct)
  case Nil
  then show ?case by (simp add: map_filter_simps)
next
  case (snoc x xs)
  let ?rs = "foldl (\<lambda>rs x. keep_record limit (js_record js (fst x)) rs) [] xs"
  let ?all = "List.map_filter (\<lambda>x. access_view js (fst x)) xs"
  have rs: "?rs = rev (take limit (rev ?all))" using arg_cong [OF snoc.IH, of rev] by simp
  have len: "length ?rs = min (length ?all) limit" by (simp add: rs)
  have trim: "rev (if length ?rs = limit then tl ?rs else ?rs) = take (limit - 1) (rev ?all)"
  proof (cases "length ?rs = limit")
    case True
    have "rev (tl ?rs) = butlast (take limit (rev ?all))" by (simp add: rs butlast_rev [symmetric])
    with True len show ?thesis by (simp add: butlast_take)
  next
    case False
    with len have "length ?all < limit" by linarith
    with False show ?thesis by (simp add: rs)
  qed
  from assms obtain k where "limit = Suc k" by (cases limit) auto
  with trim snoc.IH show ?case
    by (auto simp: keep_record_def access_view_def map_filter_append map_filter_simps split: option.splits)
qed

lemma verify_contents_spec:
  "verify_contents js authority s required limit fails expected bs = Inr (tp, rs, ps) \<longleftrightarrow>
     fails = None \<and>
     (\<exists>xs. chain js authority s genesis_checkpoint (file_rows bs) = Some xs \<and>
        (\<forall>x \<in> set xs. consistent required (snd x)) \<and>
        tp = tail_of genesis_checkpoint xs \<and> acp_file_size tp = expected \<and>
        (required = None \<or> required \<in> Some ` set (genesis_checkpoint # map snd xs)) \<and>
        rs = (if limit = 0 then [] else take limit (rev (List.map_filter (\<lambda>x. access_view js (fst x)) xs))) \<and>
        ps = map snd xs)"
proof -
  have start: "chain_tail (chain_start required) = genesis_checkpoint" "cs_prefixes (chain_start required) = []"
    "cs_records (chain_start required) = []"
    "cs_matched (chain_start required) \<longleftrightarrow> required = None \<or> required = Some genesis_checkpoint"
    by (auto simp: chain_tail_def chain_start_def genesis_checkpoint_def split: option.splits
        intro!: audit_checkpoint_eqI)
  have size: "cs_file_size cs = acp_file_size (chain_tail cs)" for cs by (simp add: chain_tail_def)
  let ?f = "foldl (step_state js required limit) (chain_start required)"
  show ?thesis
  proof (cases fails)
    case (Some k)
    then have "verify_rows js authority s required limit fails (chain_start required) (rows bs) \<noteq> Inr cs" for cs
      using verify_rows_no_fault [of js authority s required limit fails "chain_start required" "rows bs" cs]
      by auto
    then show ?thesis using Some by (simp add: verify_contents_def and_then_eq_Inr)
  next
    case None
    have "verify_contents js authority s required limit fails expected bs = Inr (tp, rs, ps) \<longleftrightarrow>
      (\<exists>cs. verify_rows js authority s required limit None (chain_start required) (rows bs) = Inr cs \<and>
         acp_file_size (chain_tail cs) = expected \<and> cs_matched cs \<and> tp = chain_tail cs \<and>
         rs = rev (cs_records cs) \<and> ps = cs_prefixes cs)"
      unfolding verify_contents_def and_then_eq_Inr None size by (auto split: if_splits)
    also have "\<dots> \<longleftrightarrow> (\<exists>xs. chain js authority s genesis_checkpoint (file_rows bs) = Some xs \<and>
        (\<forall>x \<in> set xs. consistent required (snd x)) \<and>
        acp_file_size (chain_tail (?f xs)) = expected \<and> cs_matched (?f xs) \<and> tp = chain_tail (?f xs) \<and>
        rs = rev (cs_records (?f xs)) \<and> ps = cs_prefixes (?f xs))"
      unfolding verify_rows_spec start(1) file_rows_def [symmetric] by blast
    also have "\<dots> \<longleftrightarrow> (\<exists>xs. chain js authority s genesis_checkpoint (file_rows bs) = Some xs \<and>
        (\<forall>x \<in> set xs. consistent required (snd x)) \<and>
        acp_file_size (tail_of genesis_checkpoint xs) = expected \<and>
        ((required = None \<or> required = Some genesis_checkpoint) \<or> required \<in> Some ` set (map snd xs)) \<and>
        tp = tail_of genesis_checkpoint xs \<and>
        rs = rev (if limit = 0 then [] else foldl (\<lambda>rs x. keep_record limit (js_record js (fst x)) rs) [] xs) \<and>
        ps = [] @ map snd xs)"
      by (simp only: foldl_step_state start)
    also have "\<dots> \<longleftrightarrow> (\<exists>xs. chain js authority s genesis_checkpoint (file_rows bs) = Some xs \<and>
        (\<forall>x \<in> set xs. consistent required (snd x)) \<and>
        tp = tail_of genesis_checkpoint xs \<and> acp_file_size tp = expected \<and>
        (required = None \<or> required \<in> Some ` set (genesis_checkpoint # map snd xs)) \<and>
        rs = (if limit = 0 then [] else take limit (rev (List.map_filter (\<lambda>x. access_view js (fst x)) xs))) \<and>
        ps = map snd xs)"
      by (intro ex_cong1) (cases "limit = 0"; auto simp: keep_record_newest)
    finally show ?thesis using None by simp
  qed
qed

section \<open>The chain below a checkpoint is fixed\<close>

lemma chain_append:
  "chain js authority s c (ls @ ls') = Some zs \<longleftrightarrow>
     (\<exists>xs ys. chain js authority s c ls = Some xs \<and> chain js authority s (tail_of c xs) ls' = Some ys \<and> zs = xs @ ys)"
  by (induction ls arbitrary: c zs) (fastforce split: option.splits)+

lemma chain_single:
  "chain js authority s c [l] = Some ys \<longleftrightarrow> (\<exists>x. read_row js authority s c l = Some x \<and> ys = [x])"
  by (auto split: option.splits)

lemma chain_snoc:
  "chain js authority s c (ls @ [l]) = Some zs \<longleftrightarrow>
     (\<exists>xs x. chain js authority s c ls = Some xs \<and> read_row js authority s (tail_of c xs) l = Some x \<and> zs = xs @ [x])"
  unfolding chain_append chain_single by blast

lemma chain_length: "chain js authority s c ls = Some xs \<Longrightarrow> length xs = length ls"
  by (induction ls arbitrary: c xs) (auto split: option.splits)

lemma chain_take: "chain js authority s c ls = Some xs \<Longrightarrow> chain js authority s c (take k ls) = Some (take k xs)"
  by (induction ls arbitrary: c xs k) (auto simp: take_Cons split: option.splits nat.splits)

lemma read_row_event:
  "read_row js authority s c l = Some (v, c') \<Longrightarrow> map_option ae_event (js_parse_envelope js l) = Some v"
  by (auto simp: read_row_def split: option.splits if_splits)

lemma chain_events:
  "chain js authority s c ls = Some xs \<Longrightarrow>
   map fst xs = List.map_filter (\<lambda>l. map_option ae_event (js_parse_envelope js l)) ls"
  by (induction ls arbitrary: c xs)
    (auto dest: read_row_event split: option.splits)

text \<open>What a tag must not do: verify the payload of a row of one file and another payload of a row of the
  other. The authority may have moved on in between.\<close>

definition row_payload :: "'v audit_packages \<Rightarrow> bytes \<Rightarrow> bytes option" where
  "row_payload js line =
     (case js_parse_envelope js line of
        None \<Rightarrow> None
      | Some e \<Rightarrow> js_payload js (AUDIT_FORMAT, ae_sequence e, ae_previous e, ae_event e))"

definition no_collision ::
    "'v audit_packages \<Rightarrow> 's audit_authority option \<Rightarrow> 's \<Rightarrow> 's \<Rightarrow> bytes list \<Rightarrow> bytes list \<Rightarrow> bool" where
  "no_collision js authority s s' ls ls' \<longleftrightarrow>
     (\<forall>l \<in> set ls. \<forall>l' \<in> set ls'. \<forall>p p' t.
        row_payload js l = Some p \<longrightarrow> row_payload js l' = Some p' \<longrightarrow>
        is_ok (check_tag js authority s p t) \<longrightarrow> is_ok (check_tag js authority s' p' t) \<longrightarrow> p = p')"

text \<open>JSON text determines the value it encodes.\<close>

definition payload_ok :: "'v audit_packages \<Rightarrow> bool" where
  "payload_ok js \<longleftrightarrow> (\<forall>x y p. js_payload js x = Some p \<longrightarrow> js_payload js y = Some p \<longrightarrow> x = y)"

lemma read_row_payload:
  assumes "read_row js authority s c l = Some (v, c')"
  shows "\<exists>p. row_payload js l = Some p \<and> js_payload js (AUDIT_FORMAT, acp_sequence c', acp_head c, v) = Some p \<and>
    is_ok (check_tag js authority s p (acp_head c')) \<and> acp_sequence c' = saturating_add_u64 (acp_sequence c) 1"
  using assms by (auto simp: read_row_def row_payload_def split: option.splits if_splits)

lemma chain_unique:
  assumes "payload_ok js" "acp_sequence g = 0"
    and "chain js authority s g ls = Some xs" "chain js authority s' g ls' = Some xs'"
    and "no_collision js authority s s' ls ls'"
    and "acp_head (tail_of g xs) = acp_head (tail_of g xs')"
    and "acp_sequence (tail_of g xs) = 0 \<longleftrightarrow> acp_sequence (tail_of g xs') = 0"
  shows "map fst xs = map fst xs'"
  using assms(3-)
proof (induction xs arbitrary: ls ls' xs' rule: rev_induct)
  case Nil
  then have "acp_sequence (tail_of g xs') = 0" using assms(2) by simp
  moreover have "acp_sequence (tail_of g xs') \<noteq> 0" if "xs' \<noteq> []"
  proof -
    from that obtain ys' x' where "xs' = ys' @ [x']" by (metis rev_exhaust)
    moreover from this obtain k l where "ls' = k @ [l]"
      using chain_length [OF Nil.prems(2)] by (metis length_0_conv rev_exhaust snoc_eq_iff_butlast)
    ultimately show ?thesis
      using Nil.prems(2) read_row_payload [of js authority s' _ l] by (cases x') (fastforce simp: chain_snoc arith_defs)
  qed
  ultimately show ?case by blast
next
  case (snoc x ys)
  from snoc.prems(1) obtain k l where ls: "ls = k @ [l]"
    using chain_length by (metis length_0_conv rev_exhaust snoc_eq_iff_butlast)
  obtain v c where x: "x = (v, c)" by (cases x)
  from snoc.prems(1) have k: "chain js authority s g k = Some ys" and
    l: "read_row js authority s (tail_of g ys) l = Some (v, c)" by (auto simp: ls chain_snoc x)
  from read_row_payload [OF l] obtain p where p: "row_payload js l = Some p"
    "js_payload js (AUDIT_FORMAT, acp_sequence c, acp_head (tail_of g ys), v) = Some p"
    "is_ok (check_tag js authority s p (acp_head c))" "acp_sequence c = saturating_add_u64 (acp_sequence (tail_of g ys)) 1"
    by blast
  then have "acp_sequence (tail_of g xs') \<noteq> 0" using snoc.prems(5) by (auto simp: x arith_defs)
  with assms(2) have "xs' \<noteq> []" by auto
  then obtain ys' v' c' where xs': "xs' = ys' @ [(v', c')]" by (metis rev_exhaust surj_pair)
  with snoc.prems(2) obtain k' l' where ls': "ls' = k' @ [l']"
    using chain_length by (metis length_0_conv rev_exhaust snoc_eq_iff_butlast)
  from snoc.prems(2) have k': "chain js authority s' g k' = Some ys'" and
    l': "read_row js authority s' (tail_of g ys') l' = Some (v', c')" by (auto simp: ls' chain_snoc xs')
  from read_row_payload [OF l'] obtain p' where p': "row_payload js l' = Some p'"
    "js_payload js (AUDIT_FORMAT, acp_sequence c', acp_head (tail_of g ys'), v') = Some p'"
    "is_ok (check_tag js authority s' p' (acp_head c'))" "acp_sequence c' = saturating_add_u64 (acp_sequence (tail_of g ys')) 1"
    by blast
  from snoc.prems(4) have "acp_head c = acp_head c'" by (simp add: x xs')
  with snoc.prems(3) p p' have "p = p'" unfolding no_collision_def ls ls' by (metis in_set_conv_decomp)
  with p(2) p'(2) assms(1) have same: "acp_sequence c = acp_sequence c'" "acp_head (tail_of g ys) = acp_head (tail_of g ys')" "v = v'"
    unfolding payload_ok_def by blast+
  have nc: "no_collision js authority s s' k k'"
    using snoc.prems(3) by (simp add: no_collision_def ls ls')
  have "acp_sequence (tail_of g ys) = 0 \<longleftrightarrow> acp_sequence (tail_of g ys') = 0"
    using same(1) p(4) p'(4) by (auto simp: arith_defs)
  from snoc.IH [OF k k' nc same(2) this] same(3) show ?case by (simp add: x xs')
qed

lemma verified_prefix:
  assumes js: "payload_ok js"
    and old: "verify_contents js authority s0 None limit0 fails0 size0 old = Inr (c, rs0, ps0)"
    and new: "verify_contents js authority s (Some c) limit fails size' new = Inr (d, rs, ps)"
    and nc: "no_collision js authority s0 s (file_rows old) (file_rows new)"
  shows "take (length (logged_events js old)) (logged_events js new) = logged_events js old"
proof -
  from old obtain xs where xs: "chain js authority s0 genesis_checkpoint (file_rows old) = Some xs"
    and c: "c = tail_of genesis_checkpoint xs"
    unfolding verify_contents_spec by blast
  from new obtain ys where ys: "chain js authority s genesis_checkpoint (file_rows new) = Some ys"
    and m: "c \<in> set (genesis_checkpoint # map snd ys)"
    unfolding verify_contents_spec by auto
  from m obtain k where k: "tail_of genesis_checkpoint (take k ys) = c"
  proof (cases "c = genesis_checkpoint")
    case True
    then show thesis using that [of 0] by simp
  next
    case False
    with m obtain j where "j < length ys" "c = snd (ys ! j)" by (auto simp: in_set_conv_nth)
    then show thesis using that [of "Suc j"] by (simp add: take_Suc_conv_app_nth)
  qed
  have nck: "no_collision js authority s0 s (file_rows old) (take k (file_rows new))"
    using nc unfolding no_collision_def by (meson in_set_takeD)
  have g0: "acp_sequence genesis_checkpoint = 0" by (simp add: genesis_checkpoint_def)
  have "map fst xs = map fst (take k ys)"
    by (rule chain_unique [OF js g0 xs chain_take [OF ys] nck]) (simp_all only: k c [symmetric])
  moreover from this have "length xs = min k (length ys)"
    by (metis length_map length_take min.commute)
  moreover have "logged_events js old = map fst xs" "logged_events js new = map fst ys"
    by (simp_all add: logged_events_def chain_events [OF xs] chain_events [OF ys])
  ultimately show ?thesis by (simp add: take_map min_def)
qed

section \<open>Running without faults\<close>

named_theorems quiet \<open>system calls that succeed\<close>

lemma io_bind_Inr: "io_bind m f w = (w'', Inr y) \<longleftrightarrow> (\<exists>w' x. m w = (w', Inr x) \<and> f x w' = (w'', Inr y))"
  by (auto simp: io_bind_def split: prod.splits sum.splits)

lemma io_bind_Inl:
  "io_bind m f w = (w'', Inl e) \<Longrightarrow> m w = (w'', Inl e) \<or> (\<exists>w' x. m w = (w', Inr x) \<and> f x w' = (w'', Inl e))"
  by (auto simp: io_bind_def split: prod.splits sum.splits)

lemma io_bind_step: "m w = (w', Inr x) \<Longrightarrow> io_bind m f w = f x w'"
  by (simp add: io_bind_def)

lemma io_basic [simp]:
  "io_return x w = (w, Inr x)" "io_fail e w = (w, Inl e)" "io_lift r w = (w, r)"
  by (simp_all add: io_return_def io_fail_def io_lift_def)

lemma next_io_quiet [quiet]: "w_faults w = [] \<Longrightarrow> next_io w = (w, Inr IoDone)"
  by (simp add: next_io_def)

lemma syscall_quiet [quiet]: "w_faults w = [] \<Longrightarrow> syscall name w = (w, Inr ())"
  by (simp add: syscall_def io_bind_step [OF next_io_quiet])

lemma symlink_metadata_quiet [quiet]:
  assumes "w_faults w = []" "w_dir w path = Some (RegularFile i)" "w_nodes w i = Some n"
  shows "symlink_metadata path w = (w, Inr \<lparr>md_regular = True, md_symlink = False, md_mode = nd_mode n,
    md_stamp = node_stamp w i n\<rparr>)"
  using assms by (simp add: symlink_metadata_def io_bind_step [OF syscall_quiet] node_metadata_def)

lemma descriptor_metadata_quiet [quiet]:
  assumes "w_faults w = []" "w_nodes w i = Some n"
  shows "descriptor_metadata i w = (w, Inr \<lparr>md_regular = True, md_symlink = False, md_mode = nd_mode n,
    md_stamp = node_stamp w i n\<rparr>)"
  using assms by (simp add: descriptor_metadata_def io_bind_step [OF syscall_quiet] node_metadata_def)

lemma path_metadata_len_quiet [quiet]:
  assumes "w_faults w = []" "w_dir w path = Some (RegularFile i)" "w_nodes w i = Some n"
  shows "path_metadata_len path w = (w, Inr (length (nd_bytes n)))"
  using assms by (simp add: path_metadata_len_def io_bind_step [OF syscall_quiet] node_metadata_def node_stamp_def)

lemma path_exists_quiet [quiet]:
  assumes "w_faults w = []" "w_dir w path = Some (RegularFile i)" "w_nodes w i = Some n"
  shows "path_exists path w = (w, Inr True)"
  by (simp add: path_exists_def path_metadata_len_quiet [OF assms])

lemma path_exists_absent [quiet]:
  assumes "w_faults w = []" "w_dir w path = None"
  shows "path_exists path w = (w, Inr False)"
  using assms by (simp add: path_exists_def path_metadata_len_def io_bind_step [OF syscall_quiet])

lemma open_private_audit_read_quiet [quiet]:
  assumes "w_faults w = []" "w_dir w path = Some (RegularFile i)" "w_nodes w i = Some n"
  shows "open_private_audit_read path w =
    (w, if nd_mode n mod 64 \<noteq> 0 then Inl (PermissionDenied ''audit log must be private'') else Inr i)"
  using assms
  by (simp add: open_private_audit_read_def symlink_metadata_quiet [OF assms] check_private_def
      open_existing_def io_bind_def syscall_quiet)

lemma read_verified_quiet [quiet]:
  assumes "w_faults w = []" "w_nodes w i = Some n"
  shows "read_verified_access_chain_with_prefixes js authority i required limit w =
    (w, verify_contents js authority (w_authority w) required limit None (length (nd_bytes n)) (nd_bytes n))"
  using assms
  by (simp add: read_verified_access_chain_with_prefixes_def descriptor_metadata_quiet [OF assms]
      io_bind_def next_io_quiet read_fault_def node_stamp_def)

lemma verify_audit_chain_quiet:
  assumes "w_faults w = []" "w_dir w path = Some (RegularFile i)" "w_nodes w i = Some n"
  shows "verify_audit_chain js authority path required w =
    (w, if nd_mode n mod 64 \<noteq> 0 then Inl (PermissionDenied ''audit log must be private'')
        else and_then (verify_contents js authority (w_authority w) required 0 None
               (length (nd_bytes n)) (nd_bytes n)) (\<lambda>(c, _). Inr c))"
  using assms
  by (cases "verify_contents js authority (w_authority w) required 0 None (length (nd_bytes n)) (nd_bytes n)")
    (auto simp: verify_audit_chain_def io_bind_def open_private_audit_read_quiet read_verified_access_chain_def
      read_verified_quiet)

text \<open>Opening an existing regular file: the tail is that of the verified chain.\<close>

lemma open_existing_log:
  assumes q: "w_faults w = []" and d: "w_dir w path = Some (RegularFile i)" and n: "w_nodes w i = Some n"
    and load: "load_checkpoint a (w_authority w) = (s, Inr (Some c))"
    and opened: "open_authenticated js a path suffix w = (w', Inr log)"
  shows "\<exists>tp rs ps. verify_contents js (Some a) s (Some c) 0 None (length (nd_bytes n)) (nd_bytes n) = Inr (tp, rs, ps) \<and>
    writer_tail (al_writer log) = tp"
proof -
  let ?w = "w\<lparr>w_authority := s\<rparr>"
  have quiet: "w_faults ?w = []" "w_dir ?w path = Some (RegularFile i)" "w_nodes ?w i = Some n"
    using q d n by simp_all
  have "(case path_parent path of Some _ \<Rightarrow> syscall ''mkdir'' | None \<Rightarrow> io_return ()) w = (w, Inr ())"
    by (simp add: syscall_quiet [OF q] split: option.splits)
  moreover have "authority_load a w = (?w, Inr (Some c))" by (simp add: authority_load_def load)
  moreover have "quarantine_legacy (Some a) path suffix (Some c) ?w = (?w, Inr ())"
    by (simp add: quarantine_legacy_def)
  ultimately obtain w1 tp where tp: "verify_audit_chain js (Some a) path (Some c) ?w = (w1, Inr tp)"
    and log: "writer_tail (al_writer log) = tp"
    using opened path_exists_quiet [OF quiet]
    by (auto simp: open_authenticated_def open_with_authority_def io_bind_Inr writer_tail_def)
  then show ?thesis
    unfolding verify_audit_chain_quiet [OF quiet] by (auto simp: and_then_eq_Inr split: if_splits)
qed

section \<open>The backward reader is the forward one\<close>

lemma segments_nonempty [simp]: "segments bs \<noteq> []"
  by (induction bs) (auto split: list.splits)

lemma segments_append:
  "segments (xs @ 10 # ys) = segments xs @ segments ys"
proof (induction xs)
  case (Cons x xs)
  obtain r rs where "segments xs = r # rs" by (cases "segments xs") auto
  with Cons show ?case by simp
qed simp

lemma segments_single: "10 \<notin> set xs \<Longrightarrow> segments xs = [xs]"
  by (induction xs) auto

text \<open>Collecting stops at the limit, so it takes a prefix of everything there is.\<close>

lemma collect_records_take:
  assumes "length records < limit"
  shows "collect_records js limit records ls =
    take limit (records @ List.map_filter (row_record js) ls)"
  using assms
proof (induction ls arbitrary: records)
  case Nil
  then show ?case by simp
next
  case (Cons l ls)
  show ?case
  proof (cases "row_record js l")
    case None
    with Cons show ?thesis by simp
  next
    case (Some r)
    with Cons.IH [of "records @ [r]"] Cons.prems show ?thesis by auto
  qed
qed

lemma collect_records_length: "length records < limit \<Longrightarrow> length (collect_records js limit records ls) \<le> limit"
  by (simp only: collect_records_take length_take min.cobounded2)

lemma backward_loop_0: "backward_loop js limit contents 0 suffix records = records"
  by (rule trans [OF backward_loop.simps]) simp

lemma take_append_take: "take n (take n xs @ ys) = take n (xs @ ys)"
  by (simp add: min_def)

text \<open>The loop invariant: everything from the cursor on, less the unfinished first row, is collected.\<close>

lemma backward_loop_spec:
  assumes "cursor \<le> length contents" "length records \<le> limit"
  shows "backward_loop js limit contents cursor suffix records =
    (if cursor = 0 then records
     else take limit (records @ List.map_filter (row_record js) (rev (segments (take cursor contents @ suffix)))))"
  using assms
proof (induction js limit contents cursor suffix records rule: backward_loop.induct)
  case (1 js limit contents cursor suffix records)
  show ?case
  proof (cases "cursor > 0 \<and> length records < limit")
    case False
    then have "backward_loop js limit contents cursor suffix records = records"
      by (intro trans [OF backward_loop.simps]) auto
    with False "1.prems" show ?thesis by auto
  next
    case True
    define n where "n = min cursor CHUNK_SIZE"
    define c where "c = cursor - n"
    define d where "d = take n (drop c contents) @ suffix"
    have n: "n \<le> cursor" "0 < n" using True by (simp_all add: n_def CHUNK_SIZE_def)
    have whole: "take c contents @ d = take cursor contents @ suffix"
      using take_add [of c n contents] n(1) by (simp add: c_def d_def)
    have lt: "length records < limit" and le: "c \<le> length contents" and nz: "cursor \<noteq> 0"
      using True "1.prems"(1) by (simp_all add: c_def)
    note facts = True n_def c_def d_def
    note unfold = backward_loop.simps [of js limit contents cursor suffix records, folded n_def, unfolded Let_def,
        folded c_def, folded d_def, unfolded if_P [OF True]]
    show ?thesis
    proof (cases "c = 0")
      case zero: True
      have "backward_loop js limit contents cursor suffix records =
          collect_records js limit records (rev (segments d))"
        unfolding unfold if_P [OF zero] by (rule backward_loop_0)
      also have "d = take cursor contents @ suffix" using whole zero by simp
      finally show ?thesis unfolding collect_records_take [OF lt] if_not_P [OF nz] .
    next
      case pos: False
      show ?thesis
      proof (cases "10 \<in> set d")
        case nl: True
        define p where "p = length (takeWhile (\<lambda>b. b \<noteq> 10) d)"
        define recs where "recs = collect_records js limit records (rev (segments (drop (p + 1) d)))"
        obtain xs ys where first: "d = xs @ 10 # ys" "10 \<notin> set xs"
          using split_list_first [OF nl] by blast
        from first(2) have "takeWhile (\<lambda>b. b \<noteq> 10) xs = xs" by (auto simp: takeWhile_eq_all_conv)
        then have "p = length xs" by (simp add: p_def first(1) takeWhile_tail)
        then have cut: "take p d = xs" "drop (p + 1) d = ys" using first(1) by simp_all
        have len: "length recs \<le> limit" unfolding recs_def by (rule collect_records_length [OF lt])
        have "backward_loop js limit contents cursor suffix records = backward_loop js limit contents c (take p d) recs"
          unfolding unfold if_not_P [OF pos] if_P [OF nl] recs_def p_def by (rule refl)
        also have "\<dots> = take limit (recs @ List.map_filter (row_record js) (rev (segments (take c contents @ xs))))"
          using "1.IH"(2) [OF facts pos nl p_def le len [unfolded recs_def], folded recs_def]
          unfolding if_not_P [OF pos] cut .
        also have "\<dots> = take limit (records @ List.map_filter (row_record js)
            (rev (segments ys) @ rev (segments (take c contents @ xs))))"
          unfolding recs_def collect_records_take [OF lt] take_append_take cut map_filter_append append_assoc ..
        also have "rev (segments ys) @ rev (segments (take c contents @ xs)) = rev (segments (take cursor contents @ suffix))"
          unfolding whole [symmetric] first(1) append_assoc [symmetric] segments_append rev_append ..
        finally show ?thesis unfolding if_not_P [OF nz] .
      next
        case no_nl: False
        have "backward_loop js limit contents cursor suffix records = backward_loop js limit contents c d records"
          unfolding unfold if_not_P [OF pos] if_not_P [OF no_nl] by (rule refl)
        also have "\<dots> = take limit (records @ List.map_filter (row_record js) (rev (segments (take c contents @ d))))"
          using "1.IH"(3) [OF facts pos no_nl le "1.prems"(2)] unfolding if_not_P [OF pos] .
        finally show ?thesis unfolding whole if_not_P [OF nz] .
      qed
    qed
  qed
qed

end
