(* ===== verification/Audit_Runs.thy ===== *)
theory Audit_Runs
  imports Audit_Chain
begin

text \<open>
  The life of an authenticated audit log: writes, history reads, the checkpoint worker on its own thread,
  failures and restarts, as steps over the list of events written so far. The authority is used through a
  contract (\<open>audit_port\<close>); under it a healthy log holds exactly the events written, its checkpoint is
  always a prefix of them, and it can be reopened at any moment.
\<close>

section \<open>Rows as they are written\<close>

text \<open>What the encodings promise for the values the log writes: an envelope parses back, and compact JSON is
  not empty and holds no line break.\<close>

definition json_ok :: "'v audit_packages \<Rightarrow> bool" where
  "json_ok js \<longleftrightarrow> payload_ok js \<and>
     (\<forall>ev v e row. js_event js ev = Some v \<longrightarrow> ae_event e = v \<longrightarrow> js_envelope js e = Some row \<longrightarrow>
        js_parse_envelope js row = Some e \<and> row \<noteq> [] \<and> 10 \<notin> set row)"

definition encode_rows :: "bytes list \<Rightarrow> bytes" where
  "encode_rows ls = concat (map (\<lambda>l. l @ [10]) ls)"

definition row_lines :: "bytes list \<Rightarrow> bool" where
  "row_lines ls \<longleftrightarrow> (\<forall>l \<in> set ls. l \<noteq> [] \<and> 10 \<notin> set l)"

lemma encode_rows_simps [simp]:
  "encode_rows [] = []" "encode_rows (ls @ ls') = encode_rows ls @ encode_rows ls'" "encode_rows [l] = l @ [10]"
  by (simp_all add: encode_rows_def)

lemma row_lines_simps [simp]:
  "row_lines []" "row_lines (ls @ ls') \<longleftrightarrow> row_lines ls \<and> row_lines ls'" "row_lines [l] \<longleftrightarrow> l \<noteq> [] \<and> 10 \<notin> set l"
  by (auto simp: row_lines_def)

lemma rows_line: "10 \<notin> set l \<Longrightarrow> rows (l @ 10 # rest) = l # rows rest"
  by (induction l) auto

lemma file_rows_encode: "row_lines ls \<Longrightarrow> file_rows (encode_rows ls) = ls"
proof -
  assume r: "row_lines ls"
  then have "rows (encode_rows ls) = ls"
    by (induction ls) (auto simp: encode_rows_def row_lines_def rows_line)
  with r show ?thesis by (auto simp: file_rows_def row_lines_def filter_id_conv)
qed

lemma seal_row_read:
  assumes js: "json_ok js" "js_event js ev = Some v"
    and tag: "\<And>p t. make_tag js authority s p = Inr t \<Longrightarrow> is_ok (check_tag js authority s p t)"
    and seal: "seal_row js authority s wr v = Inr (line, c)"
  shows "\<exists>row. line = row @ [10] \<and> row \<noteq> [] \<and> 10 \<notin> set row \<and>
    read_row js authority s (writer_tail wr) row = Some (v, c)"
proof -
  from seal obtain p t row where sq: "wr_sequence wr + 1 < 2 ^ 64"
    and p: "js_payload js (AUDIT_FORMAT, wr_sequence wr + 1, wr_head wr, v) = Some p"
    and t: "make_tag js authority s p = Inr t"
    and row: "js_envelope js \<lparr>ae_format = AUDIT_FORMAT, ae_sequence = wr_sequence wr + 1, ae_previous = wr_head wr,
          ae_event = v, ae_tag = t\<rparr> = Some row"
    and line: "line = row @ [10]"
    and c: "c = \<lparr>acp_sequence = wr_sequence wr + 1, acp_head = t,
          acp_file_size = saturating_add_u64 (wr_file_size wr) (length row + 1)\<rparr>"
    by (auto simp: seal_row_def and_then_eq_Inr chain_payload_def checked_add_u64_def split: if_splits)
  from js row have "js_parse_envelope js row = Some \<lparr>ae_format = AUDIT_FORMAT, ae_sequence = wr_sequence wr + 1,
      ae_previous = wr_head wr, ae_event = v, ae_tag = t\<rparr>" "row \<noteq> []" "10 \<notin> set row"
    unfolding json_ok_def by (metis audit_envelope.select_convs(4))+
  moreover have "saturating_add_u64 (wr_sequence wr) 1 = wr_sequence wr + 1"
    using sq by (simp add: saturating_add_u64_def)
  ultimately show ?thesis
    using p tag [OF t] line c by (auto simp: read_row_def writer_tail_def)
qed

lemma chain_size:
  "chain js authority s c ls = Some xs \<Longrightarrow> acp_file_size c + length (encode_rows ls) < 2 ^ 64 \<Longrightarrow>
   acp_file_size (tail_of c xs) = acp_file_size c + length (encode_rows ls)"
proof (induction ls arbitrary: c xs)
  case (Cons l ls)
  then obtain v c' ys where r: "read_row js authority s c l = Some (v, c')"
    and ys: "chain js authority s c' ls = Some ys" and xs: "xs = (v, c') # ys"
    by (auto split: option.splits)
  from r have "acp_file_size c' = saturating_add_u64 (acp_file_size c) (length l + 1)"
    by (auto simp: read_row_def split: option.splits if_splits)
  moreover have "acp_file_size c + length l + 1 < 2 ^ 64" using Cons.prems(2) by (simp add: encode_rows_def)
  ultimately have "acp_file_size c' = acp_file_size c + length l + 1" by (simp add: saturating_add_u64_def)
  with Cons.IH [OF ys] Cons.prems(2) xs show ?case by (simp add: encode_rows_def)
qed (simp add: encode_rows_def)

section \<open>The contract of the authority\<close>

text \<open>\<open>trusts s Q\<close>: the authority in state \<open>s\<close> holds a checkpoint, and only one that satisfies \<open>Q\<close> can be
  loaded from it.\<close>

locale audit_port =
  fixes a :: "'s audit_authority"
    and trusts :: "'s \<Rightarrow> (audit_checkpoint \<Rightarrow> bool) \<Rightarrow> bool"
  assumes tag_verifies: "trusts s Q \<Longrightarrow> authenticate a s p = Inr t \<Longrightarrow> verify a s p t = Inr ()"
    and load_keeps: "trusts s Q \<Longrightarrow> load_checkpoint a s = (s', r) \<Longrightarrow>
      trusts s' Q \<and> verify a s' = verify a s"
    and load_value: "trusts s Q \<Longrightarrow> load_checkpoint a s = (s', Inr x) \<Longrightarrow> \<exists>c. x = Some c \<and> Q c"
    and persist_keeps: "trusts s Q \<Longrightarrow> Q c \<Longrightarrow> persist_checkpoint a c s = (s', q) \<Longrightarrow>
      trusts s' Q \<and> verify a s' = verify a s"
    and trusts_mono: "trusts s Q \<Longrightarrow> (\<And>c. Q c \<Longrightarrow> Q' c) \<Longrightarrow> trusts s Q'"
begin

text \<open>Every checkpoint the worker holds or is sent.\<close>

lemma newer_keeps:
  assumes "trusts s Q" "Q d" "Q c" "persist_newer_checkpoint a d c s = (s', d', r)"
  shows "trusts s' Q \<and> verify a s' = verify a s \<and> Q d'"
  using assms persist_keeps [OF assms(1,3)]
  by (auto simp: persist_newer_checkpoint_def split: if_splits prod.splits sum.splits)

end

fun command_within :: "(audit_checkpoint \<Rightarrow> bool) \<Rightarrow> checkpoint_command \<Rightarrow> bool" where
  "command_within Q (Update c) = Q c"
| "command_within Q (Flush c) = Q c"
| "command_within Q Shutdown = True"

definition worker_within :: "(audit_checkpoint \<Rightarrow> bool) \<Rightarrow> checkpoint_worker \<Rightarrow> bool" where
  "worker_within Q wk \<longleftrightarrow> Q (wk_durable wk) \<and> (\<forall>c. wk_pending wk = Some c \<longrightarrow> Q c) \<and>
     (\<forall>cmd \<in> set (wk_queue wk). command_within Q cmd)"

lemma command_within_mono: "command_within Q cmd \<Longrightarrow> (\<And>c. Q c \<Longrightarrow> Q' c) \<Longrightarrow> command_within Q' cmd"
  by (cases cmd) auto

lemma worker_within_mono: "worker_within Q wk \<Longrightarrow> (\<And>c. Q c \<Longrightarrow> Q' c) \<Longrightarrow> worker_within Q' wk"
  unfolding worker_within_def by (auto intro: command_within_mono)

context audit_port
begin

lemma pending_keeps:
  assumes "trusts s Q" "worker_within Q wk" "persist_pending a s wk = (s', wk', r)"
  shows "trusts s' Q \<and> verify a s' = verify a s \<and> worker_within Q wk' \<and> wk_queue wk' = wk_queue wk"
proof (cases "wk_pending wk")
  case None
  with assms show ?thesis by (simp add: persist_pending_def)
next
  case (Some c)
  obtain s1 d1 r1 where p: "persist_newer_checkpoint a (wk_durable wk) c s = (s1, d1, r1)"
    using prod_cases3 by blast
  from newer_keeps [OF assms(1) _ _ p] assms(2) Some have "trusts s1 Q \<and> verify a s1 = verify a s \<and> Q d1"
    by (auto simp: worker_within_def)
  with assms Some p show ?thesis by (auto simp: persist_pending_def worker_within_def)
qed

lemma iteration_keeps:
  assumes "trusts s Q" "worker_within Q wk" "\<And>c. cmd = Some c \<Longrightarrow> command_within Q c"
    and "worker_iteration a now cmd (s, wk, h) = ((s', wk', h'), r)"
  shows "trusts s' Q \<and> verify a s' = verify a s \<and> worker_within Q wk' \<and> wk_queue wk' = wk_queue wk"
proof -
  obtain s1 wk1 r1 where p: "persist_pending a s wk = (s1, wk1, r1)" using prod_cases3 by blast
  note pk = pending_keeps [OF assms(1,2) p]
  consider c where "cmd = Some (Update c)" | c where "cmd = Some (Flush c)" | "cmd = Some Shutdown" | "cmd = None"
    by (cases cmd; cases "the cmd") auto
  then show ?thesis
  proof cases
    case 1
    with assms show ?thesis by (auto simp: worker_iteration_def worker_within_def)
  next
    case 2
    obtain s2 d2 r2 where n: "persist_newer_checkpoint a (wk_durable wk) c s = (s2, d2, r2)"
      using prod_cases3 by blast
    have "Q c" using assms(3) [of "Flush c"] 2 by simp
    moreover have "Q (wk_durable wk)" using assms(2) by (simp add: worker_within_def)
    ultimately have "trusts s2 Q \<and> verify a s2 = verify a s \<and> Q d2" using newer_keeps [OF assms(1) _ _ n] by blast
    with 2 assms(2,4) n show ?thesis
      by (auto simp: worker_iteration_def worker_within_def Let_def split: option.splits if_splits)
  next
    case 3
    with pk assms(4) p show ?thesis by (auto simp: worker_iteration_def worker_within_def)
  next
    case 4
    with pk assms(4) p show ?thesis by (auto simp: worker_iteration_def worker_within_def)
  qed
qed

lemma drain_keeps:
  assumes "trusts s Q" "worker_within Q wk" "\<forall>c \<in> set cs. command_within Q c"
    and "worker_drain a now cs (s, wk, h) = ((s', wk', h'), r)"
  shows "trusts s' Q \<and> verify a s' = verify a s \<and> worker_within Q wk' \<and> wk_queue wk' = wk_queue wk"
  using assms
proof (induction cs arbitrary: s wk h)
  case Nil
  then show ?case by simp
next
  case (Cons c cs)
  show ?case
  proof (cases "wk_running wk")
    case False
    with Cons.prems show ?thesis by simp
  next
    case True
    obtain s1 wk1 h1 r1 where i: "worker_iteration a now (Some c) (s, wk, h) = ((s1, wk1, h1), r1)"
      using prod_cases3 by (metis surj_pair)
    have k: "trusts s1 Q \<and> verify a s1 = verify a s \<and> worker_within Q wk1 \<and> wk_queue wk1 = wk_queue wk"
      using iteration_keeps [OF Cons.prems(1,2) _ i] Cons.prems(3) by simp
    show ?thesis
    proof (cases "cs = []")
      case True
      with \<open>wk_running wk\<close> i k Cons.prems(4) show ?thesis by simp
    next
      case False
      with \<open>wk_running wk\<close> i Cons.prems(4) have "worker_drain a now cs (s1, wk1, h1) = ((s', wk', h'), r)" by simp
      from Cons.IH [OF _ _ _ this] k Cons.prems(3) show ?thesis by simp
    qed
  qed
qed

end

section \<open>A log that holds its events\<close>

definition holds_rows :: "'s audit_world \<Rightarrow> audit_log \<Rightarrow> bytes list \<Rightarrow> bool" where
  "holds_rows w l ls \<longleftrightarrow>
     wr_buffer (al_writer l) = [] \<and> row_lines ls \<and> length (encode_rows ls) < 2 ^ 64 \<and>
     w_dir w (al_path l) = Some (RegularFile (wr_ino (al_writer l))) \<and>
     (\<exists>n. w_nodes w (wr_ino (al_writer l)) = Some n \<and> nd_bytes n = encode_rows ls \<and> nd_mode n mod 64 = 0 \<and>
        wr_stamp (al_writer l) = node_stamp w (wr_ino (al_writer l)) n)"

definition prefix_tail :: "('v \<times> audit_checkpoint) list \<Rightarrow> audit_checkpoint \<Rightarrow> bool" where
  "prefix_tail xs c \<longleftrightarrow> c \<in> set (genesis_checkpoint # map snd xs)"

definition good_log ::
    "'v audit_packages \<Rightarrow> 's audit_authority \<Rightarrow> ('s \<Rightarrow> (audit_checkpoint \<Rightarrow> bool) \<Rightarrow> bool) \<Rightarrow> 'v list \<Rightarrow> 's log_state \<Rightarrow> bool" where
  "good_log js a trusts evs st \<longleftrightarrow>
     (\<exists>ls xs wk. holds_rows (fst st) (snd st) ls \<and>
        chain js (Some a) (w_authority (fst st)) genesis_checkpoint ls = Some xs \<and> map fst xs = evs \<and>
        tail_of genesis_checkpoint xs = writer_tail (al_writer (snd st)) \<and>
        trusts (w_authority (fst st)) (prefix_tail xs) \<and>
        al_worker (snd st) = Some wk \<and> worker_within (prefix_tail xs) wk)"

lemma prefix_tail_last: "prefix_tail xs (tail_of genesis_checkpoint xs)"
  by (simp only: prefix_tail_def tail_of_def last_in_set list.distinct(2) not_False_eq_True)

lemma prefix_tail_snoc: "prefix_tail xs c \<Longrightarrow> prefix_tail (xs @ [x]) c"
  by (auto simp: prefix_tail_def)

lemma chain_same_authority:
  "verify a s' = verify a s \<Longrightarrow> chain js (Some a) s' c ls = chain js (Some a) s c ls"
proof -
  assume "verify a s' = verify a s"
  then have tag: "check_tag js (Some a) s' = check_tag js (Some a) s" by (intro ext) (simp add: check_tag_def)
  have "read_row js (Some a) s' c l = read_row js (Some a) s c l" for c l
    unfolding read_row_def tag by (rule refl)
  then show ?thesis by (induction ls arbitrary: c) (auto split: option.splits)
qed

subsection \<open>Operations that only use up faults\<close>

lemma next_io_world: "next_io w = (w\<lparr>w_faults := tl (w_faults w)\<rparr>, snd (next_io w))"
  by (cases w) (simp add: next_io_def split: list.splits)

lemma syscall_world: "syscall name w = (w\<lparr>w_faults := tl (w_faults w)\<rparr>, snd (syscall name w))"
  using next_io_world [of w] by (auto simp: syscall_def io_bind_def split: prod.splits sum.splits io_fault.splits)

lemma query_world: "io_bind (syscall name) (\<lambda>_ w. (w, f w)) w = (w\<lparr>w_faults := tl (w_faults w)\<rparr>,
    snd (io_bind (syscall name) (\<lambda>_ w. (w, f w)) w))"
  using syscall_world [of name w] by (auto simp: io_bind_def split: prod.splits sum.splits)

lemma symlink_metadata_world:
  "symlink_metadata path w = (w\<lparr>w_faults := tl (w_faults w)\<rparr>, snd (symlink_metadata path w))"
  unfolding symlink_metadata_def by (rule query_world)

lemma descriptor_metadata_world:
  "descriptor_metadata i w = (w\<lparr>w_faults := tl (w_faults w)\<rparr>, snd (descriptor_metadata i w))"
  unfolding descriptor_metadata_def by (rule query_world)

lemma descriptor_metadata_Inr:
  "descriptor_metadata i w = (w', Inr md) \<Longrightarrow> w_nodes w i = Some n \<Longrightarrow>
   w' = w\<lparr>w_faults := tl (w_faults w)\<rparr> \<and> md_stamp md = node_stamp w i n"
  using syscall_world [of "''fstat''" w]
  by (auto simp: descriptor_metadata_def io_bind_Inr node_metadata_def node_stamp_def split: option.splits)

lemma validate_world:
  "\<exists>fs. validate_writer_file st = (((fst st)\<lparr>w_faults := fs\<rparr>, snd st), snd (validate_writer_file st))"
proof -
  obtain r1 where 1: "descriptor_metadata (wr_ino (al_writer (snd st))) (fst st) = ((fst st)\<lparr>w_faults := tl (w_faults (fst st))\<rparr>, r1)"
    using descriptor_metadata_world by blast
  obtain fs r2 where 2: "symlink_metadata (al_path (snd st)) ((fst st)\<lparr>w_faults := tl (w_faults (fst st))\<rparr>) = ((fst st)\<lparr>w_faults := fs\<rparr>, r2)"
    using symlink_metadata_world [of "al_path (snd st)" "(fst st)\<lparr>w_faults := tl (w_faults (fst st))\<rparr>"] by auto
  show ?thesis
    by (cases r1; cases r2) (auto simp: validate_writer_file_def Let_def io_bind_def on_world_def 1 2)
qed

lemma on_world_Inr: "on_world m st = (st', Inr x) \<longleftrightarrow> (\<exists>w'. m (fst st) = (w', Inr x) \<and> st' = (w', snd st))"
  by (auto simp: on_world_def split: prod.splits)

lemma degrading_Inr: "degrading m st = (st', Inr x) \<longleftrightarrow> m st = (st', Inr x)"
  by (auto simp: degrading_def split: prod.splits sum.splits)

lemma degrading_Inl: "degrading m st = (st', Inl e) \<Longrightarrow> al_health (snd st') \<noteq> None"
  by (auto simp: degrading_def set_health_def mark_degraded_def split: prod.splits sum.splits option.splits)

lemma check_health_Inr: "check_health st = (st', Inr u) \<longleftrightarrow> st' = st \<and> al_health (snd st) = None"
  by (auto simp: check_health_def split: option.splits)

text \<open>A write that fails either degrades the log or has done nothing.\<close>

lemma write_row_failed:
  assumes "write_row js authority ev st = (st', Inl e)" "al_health (snd st') = None"
  shows "\<exists>fs. st' = ((fst st)\<lparr>w_faults := fs\<rparr>, snd st)"
proof -
  have same: "\<exists>fs. st = ((fst st)\<lparr>w_faults := fs\<rparr>, snd st)" by (rule exI [of _ "w_faults (fst st)"]) simp
  obtain fs r where v: "validate_writer_file st = (((fst st)\<lparr>w_faults := fs\<rparr>, snd st), r)"
    using validate_world by blast
  show ?thesis
  proof (cases "al_health (snd st) = None \<and> js_event js ev \<noteq> None")
    case False
    with assms same show ?thesis
      by (auto simp: write_row_def io_bind_def check_health_def split: option.splits)
  next
    case True
    then obtain x where x: "js_event js ev = Some x" and h: "check_health st = (st, Inr ())"
      by (auto simp: check_health_def)
    show ?thesis
    proof (cases r)
      case (Inl err)
      with assms x h v have "degrading validate_writer_file st = (st', Inl e)"
        by (auto simp: write_row_def io_bind_def degrading_def)
      with assms(2) degrading_Inl show ?thesis by blast
    next
      case (Inr u)
      let ?st = "((fst st)\<lparr>w_faults := fs\<rparr>, snd st)"
      have d: "degrading validate_writer_file st = (?st, Inr u)" using v Inr by (simp add: degrading_Inr)
      show ?thesis
      proof (cases "seal_row js authority (w_authority (fst ?st)) (al_writer (snd ?st)) x")
        case (Inl err)
        with assms x h d have "st' = ?st" by (simp add: write_row_def io_bind_def)
        then show ?thesis by blast
      next
        case (Inr y)
        obtain line c where y: "y = (line, c)" by (cases y)
        have "degrading (io_bind (push_bytes line) (\<lambda>_. io_bind (advance_tail c) (\<lambda>_. restamp))) ?st = (st', Inl e)"
          using assms(1) x h d Inr y by (simp add: write_row_def io_bind_def)
        with assms(2) degrading_Inl show ?thesis by blast
      qed
    qed
  qed
qed

subsection \<open>Writing keeps the log good\<close>

definition file_fits :: "'s log_state \<Rightarrow> bool" where
  "file_fits st \<longleftrightarrow> (\<forall>n. w_nodes (fst st) (wr_ino (al_writer (snd st))) = Some n \<longrightarrow> length (nd_bytes n) < 2 ^ 64)"

lemma push_bytes_Inr:
  assumes "push_bytes bs st = (st', Inr u)" "wr_buffer (al_writer (snd st)) = []"
  shows "\<exists>fs. st' = (append_bytes (wr_ino (al_writer (snd st))) bs ((fst st)\<lparr>w_faults := fs\<rparr>), snd st) \<or>
    bs = [] \<and> st' = st"
proof -
  obtain w l where st: "st = (w, l)" by (cases st)
  have l: "l\<lparr>al_writer := (al_writer l)\<lparr>wr_buffer := []\<rparr>\<rparr> = l"
    using assms(2) st by (cases l; cases "al_writer l") simp
  have n: "fst (next_io w) = w\<lparr>w_faults := tl (w_faults w)\<rparr>" using next_io_world by (metis fst_conv)
  from assms st l n show ?thesis
    by (cases "next_io w")
      (auto simp: push_bytes_def Let_def set_writer_def split: if_splits sum.splits io_fault.splits)
qed

lemma restamp_Inr:
  assumes "restamp (w, l) = (st', Inr u)" "w_nodes w (wr_ino (al_writer l)) = Some n"
  shows "st' = (w\<lparr>w_faults := tl (w_faults w)\<rparr>,
    l\<lparr>al_writer := (al_writer l)\<lparr>wr_stamp := node_stamp w (wr_ino (al_writer l)) n\<rparr>\<rparr>)"
  using assms descriptor_metadata_Inr [of "wr_ino (al_writer l)" w]
  by (auto simp: restamp_def io_bind_Inr on_world_def set_writer_def split: prod.splits)

lemma write_row_done:
  assumes w: "write_row js authority ev (w, l) = (st', Inr u)" and v: "js_event js ev = Some v"
    and b: "wr_buffer (al_writer l) = []" and n: "w_nodes w (wr_ino (al_writer l)) = Some n"
  shows "\<exists>line c fs. seal_row js authority (w_authority w) (al_writer l) v = Inr (line, c) \<and> line \<noteq> [] \<and>
    st' = ((append_bytes (wr_ino (al_writer l)) line w)\<lparr>w_faults := fs\<rparr>,
      l\<lparr>al_writer := (al_writer l)\<lparr>wr_sequence := acp_sequence c, wr_head := acp_head c, wr_file_size := acp_file_size c,
          wr_stamp := node_stamp w (wr_ino (al_writer l)) (n\<lparr>nd_bytes := nd_bytes n @ line,
            nd_ctime := fst (w_now w), nd_ctime_nsec := snd (w_now w)\<rparr>)\<rparr>\<rparr>) \<and> al_health l = None"
proof -
  obtain fs r where val: "validate_writer_file (w, l) = ((w\<lparr>w_faults := fs\<rparr>, l), r)"
    using validate_world [of "(w, l)"] by auto
  let ?w = "w\<lparr>w_faults := fs\<rparr>"
  from w v val obtain line c where h: "al_health l = None"
    and s: "seal_row js authority (w_authority w) (al_writer l) v = Inr (line, c)"
    and a: "io_bind (push_bytes line) (\<lambda>_. io_bind (advance_tail c) (\<lambda>_. restamp)) (?w, l) = (st', Inr ())"
    by (auto simp: write_row_def io_bind_Inr check_health_Inr degrading_Inr)
  from s have line: "line \<noteq> []" by (auto simp: seal_row_def and_then_eq_Inr)
  from a obtain st1 where p: "push_bytes line (?w, l) = (st1, Inr ())"
    and r: "io_bind (advance_tail c) (\<lambda>_. restamp) st1 = (st', Inr ())"
    by (auto simp: io_bind_Inr)
  from push_bytes_Inr [OF p] b line obtain fs1 where
    st1: "st1 = (append_bytes (wr_ino (al_writer l)) line (w\<lparr>w_faults := fs1\<rparr>), l)" by auto
  let ?wr = "(al_writer l)\<lparr>wr_sequence := acp_sequence c, wr_head := acp_head c, wr_file_size := acp_file_size c\<rparr>"
  let ?n = "n\<lparr>nd_bytes := nd_bytes n @ line, nd_ctime := fst (w_now w), nd_ctime_nsec := snd (w_now w)\<rparr>"
  let ?w1 = "append_bytes (wr_ino (al_writer l)) line (w\<lparr>w_faults := fs1\<rparr>)"
  have node: "w_nodes ?w1 (wr_ino ?wr) = Some ?n" using n by (simp add: append_bytes_def)
  have "restamp (?w1, l\<lparr>al_writer := ?wr\<rparr>) = (st', Inr ())"
    using r st1 by (simp add: io_bind_def advance_tail_def set_writer_def)
  from restamp_Inr [OF this, of ?n] node
  have "st' = (?w1\<lparr>w_faults := tl (w_faults ?w1)\<rparr>, l\<lparr>al_writer := ?wr\<lparr>wr_stamp := node_stamp ?w1 (wr_ino ?wr) ?n\<rparr>\<rparr>)"
    by simp
  moreover have "?w1\<lparr>w_faults := tl (w_faults ?w1)\<rparr> = (append_bytes (wr_ino (al_writer l)) line w)\<lparr>w_faults := tl fs1\<rparr>"
    using n by (simp add: append_bytes_def)
  moreover have "node_stamp ?w1 (wr_ino ?wr) ?n = node_stamp w (wr_ino (al_writer l)) ?n"
    using n by (simp add: node_stamp_def append_bytes_def)
  ultimately show ?thesis using s h line by auto
qed

context audit_port
begin

lemma good_write:
  assumes g: "good_log js a trusts evs st" and js: "json_ok js" "js_event js ev = Some v"
    and w: "write_row js (Some a) ev st = (st', Inr u)" and f: "file_fits st'"
  shows "good_log js a trusts (evs @ [v]) st'"
proof -
  obtain w0 l where st: "st = (w0, l)" by (cases st)
  let ?wr = "al_writer l" and ?s = "w_authority w0"
  from g st obtain ls xs wk n where rows: "row_lines ls" "length (encode_rows ls) < 2 ^ 64" "wr_buffer ?wr = []"
    and dir: "w_dir w0 (al_path l) = Some (RegularFile (wr_ino ?wr))"
    and n: "w_nodes w0 (wr_ino ?wr) = Some n" "nd_bytes n = encode_rows ls" "nd_mode n mod 64 = 0"
    and xs: "chain js (Some a) ?s genesis_checkpoint ls = Some xs" "map fst xs = evs"
    and tl: "tail_of genesis_checkpoint xs = writer_tail ?wr" and t: "trusts ?s (prefix_tail xs)"
    and wk: "al_worker l = Some wk" "worker_within (prefix_tail xs) wk"
    by (auto simp: good_log_def holds_rows_def)
  from write_row_done [OF w [unfolded st] js(2) rows(3) n(1)] obtain line c fs where
    seal: "seal_row js (Some a) ?s ?wr v = Inr (line, c)" and st': "st' = ((append_bytes (wr_ino ?wr) line w0)\<lparr>w_faults := fs\<rparr>,
      l\<lparr>al_writer := ?wr\<lparr>wr_sequence := acp_sequence c, wr_head := acp_head c, wr_file_size := acp_file_size c,
          wr_stamp := node_stamp w0 (wr_ino ?wr) (n\<lparr>nd_bytes := nd_bytes n @ line,
            nd_ctime := fst (w_now w0), nd_ctime_nsec := snd (w_now w0)\<rparr>)\<rparr>\<rparr>)" by blast
  have tag: "is_ok (check_tag js (Some a) ?s p tg)" if "make_tag js (Some a) ?s p = Inr tg" for p tg
    using that tag_verifies [OF t] by (simp add: make_tag_def check_tag_def)
  from seal_row_read [OF js tag seal] obtain row where row: "line = row @ [10]" "row \<noteq> []" "10 \<notin> set row"
    and read: "read_row js (Some a) ?s (writer_tail ?wr) row = Some (v, c)" by blast
  have "holds_rows (fst st') (snd st') (ls @ [row])"
    using rows row dir n f by (simp add: holds_rows_def st' append_bytes_def file_fits_def node_stamp_def)
  moreover have "chain js (Some a) (w_authority (fst st')) genesis_checkpoint (ls @ [row]) = Some (xs @ [(v, c)])"
    using xs(1) read tl n(1) by (auto simp: chain_snoc st' append_bytes_def)
  moreover have "tail_of genesis_checkpoint (xs @ [(v, c)]) = writer_tail (al_writer (snd st'))"
    by (simp add: st' writer_tail_def)
  moreover have "trusts (w_authority (fst st')) (prefix_tail (xs @ [(v, c)]))"
    using trusts_mono [OF t prefix_tail_snoc] n(1) by (simp add: st' append_bytes_def)
  moreover have "worker_within (prefix_tail (xs @ [(v, c)])) wk" by (rule worker_within_mono [OF wk(2) prefix_tail_snoc])
  ultimately show ?thesis unfolding good_log_def using xs(2) wk(1) st' by (intro exI [of _ "ls @ [row]"] exI [of _ "xs @ [(v, c)]"]) simp
qed

end

subsection \<open>The other operations\<close>

lemma holds_rows_cong:
  assumes "w_dir w' (al_path l) = w_dir w (al_path l)"
    and "w_nodes w' (wr_ino (al_writer l)) = w_nodes w (wr_ino (al_writer l))" "w_device w' = w_device w"
    and "al_path l' = al_path l" "al_writer l' = al_writer l"
  shows "holds_rows w' l' ls = holds_rows w l ls"
  using assms by (simp add: holds_rows_def node_stamp_def)

lemma map_filter_fst: "List.map_filter (\<lambda>x. f (fst x)) xs = List.map_filter f (map fst xs)"
  by (induction xs) (auto split: option.splits)

lemma authority_load_Inr:
  "authority_load a w = (w', Inr x) \<Longrightarrow> \<exists>s'. load_checkpoint a (w_authority w) = (s', Inr x) \<and> w' = w\<lparr>w_authority := s'\<rparr>"
  by (auto simp: authority_load_def split: prod.splits)

lemma read_verified_Inr:
  assumes "read_verified_access_chain js authority i required limit w = (w', Inr (tp, rs))" "w_nodes w i = Some n"
  shows "\<exists>fs ps. w' = w\<lparr>w_faults := fs\<rparr> \<and>
    verify_contents js authority (w_authority w) required limit None (length (nd_bytes n)) (nd_bytes n) = Inr (tp, rs, ps)"
proof -
  from assms obtain w1 md f w2 ps where md: "descriptor_metadata i w = (w1, Inr md)"
    and io: "next_io w1 = (w2, Inr f)" and w': "w' = w2"
    and c: "(case w_nodes w2 i of None \<Rightarrow> Inl NotFound
        | Some n \<Rightarrow> verify_contents js authority (w_authority w2) required limit (read_fault f)
            (fs_size (md_stamp md)) (nd_bytes n)) = Inr (tp, rs, ps)"
    by (auto simp: read_verified_access_chain_def read_verified_access_chain_with_prefixes_def io_bind_Inr)
  have w1: "w1 = w\<lparr>w_faults := tl (w_faults w)\<rparr>" "md_stamp md = node_stamp w i n"
    using descriptor_metadata_Inr [OF md assms(2)] by auto
  have w2: "w2 = w1\<lparr>w_faults := tl (w_faults w1)\<rparr>" using next_io_world [of w1] io by simp
  from c w1 w2 assms(2) have v: "verify_contents js authority (w_authority w) required limit (read_fault f)
      (length (nd_bytes n)) (nd_bytes n) = Inr (tp, rs, ps)"
    by (simp add: node_stamp_def)
  then have "read_fault f = None" unfolding verify_contents_spec by blast
  with v w1 w2 w' show ?thesis by auto
qed

context audit_port
begin

lemma good_authority:
  assumes g: "good_log js a trusts evs (w, l)" and wk: "al_worker l = Some wk"
    and keeps: "\<And>Q. trusts (w_authority w) Q \<Longrightarrow> worker_within Q wk \<Longrightarrow> Q (writer_tail (al_writer l)) \<Longrightarrow>
      trusts s' Q \<and> verify a s' = verify a (w_authority w) \<and> worker_within Q wk'"
  shows "good_log js a trusts evs (w\<lparr>w_authority := s', w_faults := fs\<rparr>, l\<lparr>al_worker := Some wk', al_health := h\<rparr>)"
proof -
  from g wk obtain ls xs where r: "holds_rows w l ls"
    and xs: "chain js (Some a) (w_authority w) genesis_checkpoint ls = Some xs" "map fst xs = evs"
    and tl: "tail_of genesis_checkpoint xs = writer_tail (al_writer l)" and t: "trusts (w_authority w) (prefix_tail xs)"
    and ww: "worker_within (prefix_tail xs) wk"
    by (auto simp: good_log_def)
  have "prefix_tail xs (writer_tail (al_writer l))" using prefix_tail_last [of xs] tl by simp
  from keeps [OF t ww this] have k: "trusts s' (prefix_tail xs)" "verify a s' = verify a (w_authority w)"
    "worker_within (prefix_tail xs) wk'" by auto
  moreover have "holds_rows (w\<lparr>w_authority := s', w_faults := fs\<rparr>) (l\<lparr>al_worker := Some wk', al_health := h\<rparr>) ls"
    using r by (subst holds_rows_cong [of _ l w]) simp_all
  ultimately show ?thesis
    using xs tl by (auto simp: good_log_def chain_same_authority [OF k(2)] intro!: exI [of _ ls])
qed

lemma good_faults: "good_log js a trusts evs (w, l) \<Longrightarrow> good_log js a trusts evs (w\<lparr>w_faults := fs\<rparr>, l)"
  unfolding good_log_def by (simp add: holds_rows_def node_stamp_def)

lemma good_submit:
  assumes "good_log js a trusts evs st" "degrading submit_tail st = (st', Inr u)"
  shows "good_log js a trusts evs st'"
proof -
  obtain w l where st: "st = (w, l)" by (cases st)
  from assms(1) st obtain wk where wk: "al_worker l = Some wk" by (auto simp: good_log_def)
  from assms(2) st wk have st': "st' = (w, l\<lparr>al_worker := Some (wk\<lparr>wk_queue := wk_queue wk @ [Update (writer_tail (al_writer l))]\<rparr>)\<rparr>)"
    by (auto simp: degrading_Inr submit_tail_def worker_update_def split: if_splits)
  have "good_log js a trusts evs (w\<lparr>w_authority := w_authority w, w_faults := w_faults w\<rparr>,
      l\<lparr>al_worker := Some (wk\<lparr>wk_queue := wk_queue wk @ [Update (writer_tail (al_writer l))]\<rparr>), al_health := al_health l\<rparr>)"
    by (rule good_authority [OF assms(1) [unfolded st] wk]) (auto simp: worker_within_def)
  then show ?thesis by (simp add: st')
qed

lemma good_call:
  assumes g: "good_log js a trusts evs (w, l)" and wk: "al_worker l = Some wk"
    and cmd: "command_within (\<lambda>c. c = writer_tail (al_writer l)) cmd"
    and call: "worker_call a now wk cmd (w, l) = ((w', l'), r)"
  shows "good_log js a trusts evs (w', l') \<and> al_writer l' = al_writer l \<and> al_path l' = al_path l"
proof (cases "wk_running wk")
  case False
  with call g show ?thesis by (simp add: worker_call_def)
next
  case True
  obtain s' wk' h' rep where d: "worker_drain a now (wk_queue wk @ [cmd]) (w_authority w, wk\<lparr>wk_queue := []\<rparr>, al_health l) =
      ((s', wk', h'), rep)" by (metis prod_cases3 surj_pair)
  have "good_log js a trusts evs (w\<lparr>w_authority := s', w_faults := w_faults w\<rparr>, l\<lparr>al_worker := Some wk', al_health := h'\<rparr>)"
  proof (rule good_authority [OF g wk])
    fix Q assume q: "trusts (w_authority w) Q" "worker_within Q wk" "Q (writer_tail (al_writer l))"
    then have "worker_within Q (wk\<lparr>wk_queue := []\<rparr>)" by (simp add: worker_within_def)
    moreover have "\<forall>c \<in> set (wk_queue wk @ [cmd]). command_within Q c"
      using q cmd by (auto simp: worker_within_def intro: command_within_mono [of "\<lambda>c. c = writer_tail (al_writer l)"])
    ultimately show "trusts s' Q \<and> verify a s' = verify a (w_authority w) \<and> worker_within Q wk'"
      using drain_keeps [OF q(1) _ _ d] by blast
  qed
  then show ?thesis using call True d by (auto simp: worker_call_def)
qed

lemma good_load:
  assumes g: "good_log js a trusts evs (w, l)" and load: "load_checkpoint a (w_authority w) = (s', r)"
  shows "good_log js a trusts evs (w\<lparr>w_authority := s'\<rparr>, l)"
proof -
  from g obtain wk where wk: "al_worker l = Some wk" by (auto simp: good_log_def)
  have "good_log js a trusts evs (w\<lparr>w_authority := s', w_faults := w_faults w\<rparr>, l\<lparr>al_worker := Some wk, al_health := al_health l\<rparr>)"
    by (rule good_authority [OF g wk]) (use load_keeps [OF _ load] in blast)
  moreover have "l\<lparr>al_worker := Some wk, al_health := al_health l\<rparr> = l" using wk by simp
  ultimately show ?thesis by simp
qed

text \<open>What a verified read of a good log returns.\<close>

lemma good_verified:
  assumes g: "good_log js a trusts evs (w, l)" and js: "json_ok js"
    and r: "read_verified_access_chain js (Some a) (wr_ino (al_writer l)) None limit w = (w', Inr (tp, rs))"
  shows "rs = take limit (rev (List.map_filter (access_view js) evs)) \<and> good_log js a trusts evs (w', l)"
proof -
  from g obtain ls xs n where rows: "row_lines ls" and n: "w_nodes w (wr_ino (al_writer l)) = Some n" "nd_bytes n = encode_rows ls"
    and xs: "chain js (Some a) (w_authority w) genesis_checkpoint ls = Some xs" "map fst xs = evs"
    by (auto simp: good_log_def holds_rows_def)
  from read_verified_Inr [OF r n(1)] obtain fs ps where w': "w' = w\<lparr>w_faults := fs\<rparr>" and
    v: "verify_contents js (Some a) (w_authority w) None limit None (length (nd_bytes n)) (nd_bytes n) = Inr (tp, rs, ps)"
    by blast
  from v xs rows n(2) have "rs = (if limit = 0 then [] else take limit (rev (List.map_filter (\<lambda>x. access_view js (fst x)) xs)))"
    unfolding verify_contents_spec by (auto simp: file_rows_encode)
  then have "rs = take limit (rev (List.map_filter (access_view js) evs))"
    by (simp add: map_filter_fst xs(2))
  with good_faults [OF g] w' show ?thesis by simp
qed

lemma good_read:
  assumes g: "good_log js a trusts evs st" and js: "json_ok js"
    and r: "read_recent_verified js (Some a) now limit st = (st', Inr rs)"
  shows "rs = take limit (rev (List.map_filter (access_view js) evs)) \<and> good_log js a trusts evs st'"
proof -
  obtain w l where st: "st = (w, l)" by (cases st)
  from g st have b: "wr_buffer (al_writer l) = []" by (auto simp: good_log_def holds_rows_def)
  then have p: "push_bytes [] (w, l) = ((w, l), Inr ())" by (simp add: push_bytes_def)
  obtain fs1 r1 where v1: "validate_writer_file (w, l) = ((w\<lparr>w_faults := fs1\<rparr>, l), r1)"
    using validate_world [of "(w, l)"] by auto
  from r st p v1 obtain w2 l2 w3 w4 w5 tp where
    agree: "authority_agrees (Some a) now (writer_tail (al_writer l)) (w\<lparr>w_faults := fs1\<rparr>, l) = ((w2, l2), Inr ())"
    and sys: "syscall ''dup'' w2 = (w3, Inr ())" "syscall ''lseek'' w3 = (w4, Inr ())"
    and read: "read_verified_access_chain js (Some a) (wr_ino (al_writer l)) None limit w4 = (w5, Inr (tp, rs))"
    and v2: "validate_writer_file (w5, l2) = (st', Inr ())"
    by (auto simp: read_recent_verified_def io_bind_Inr check_health_Inr degrading_Inr Let_def on_world_Inr
        split: if_splits)
  from g st obtain wk where wk: "al_worker l = Some wk" by (auto simp: good_log_def)
  from agree obtain w1 s' x where fl: "worker_call a now wk (Flush (writer_tail (al_writer l))) (w\<lparr>w_faults := fs1\<rparr>, l) = ((w1, l2), Inr ())"
    and ld: "load_checkpoint a (w_authority w1) = (s', Inr x)" and w2: "w2 = w1\<lparr>w_authority := s'\<rparr>"
    using wk by (auto simp: authority_agrees_def io_bind_Inr worker_flush_def on_world_Inr
        dest!: authority_load_Inr split: if_splits)
  have "good_log js a trusts evs (w\<lparr>w_faults := fs1\<rparr>, l)" using good_faults g st by blast
  from good_call [OF this wk _ fl] have g1: "good_log js a trusts evs (w1, l2)" and same: "al_writer l2 = al_writer l" by simp_all
  have g2: "good_log js a trusts evs (w2, l2)" unfolding w2 by (rule good_load [OF g1 ld])
  have "\<exists>fs. w4 = w2\<lparr>w_faults := fs\<rparr>" using sys syscall_world [of "''dup''" w2] syscall_world [of "''lseek''" w3] by auto
  then have g4: "good_log js a trusts evs (w4, l2)" using good_faults [OF g2] by auto
  from good_verified [OF g4 js] read same
  have rs: "rs = take limit (rev (List.map_filter (access_view js) evs))" and g5: "good_log js a trusts evs (w5, l2)" by simp_all
  obtain fs where "st' = (w5\<lparr>w_faults := fs\<rparr>, l2)" using v2 validate_world [of "(w5, l2)"] by auto
  with rs good_faults [OF g5] show ?thesis by simp
qed

end

subsection \<open>Opening\<close>

lemma chain_sequence:
  assumes "chain js authority s c ls = Some xs" "acp_sequence c + length ls < 2 ^ 64" "i < length xs"
  shows "acp_sequence (snd (xs ! i)) = acp_sequence c + i + 1"
  using assms
proof (induction ls arbitrary: c xs i)
  case (Cons l ls)
  then obtain v c' ys where r: "read_row js authority s c l = Some (v, c')"
    and ys: "chain js authority s c' ls = Some ys" and xs: "xs = (v, c') # ys"
    by (auto split: option.splits)
  from r have "acp_sequence c' = saturating_add_u64 (acp_sequence c) 1"
    by (auto simp: read_row_def split: option.splits if_splits)
  with Cons.prems(2) have c': "acp_sequence c' = acp_sequence c + 1" by (simp add: saturating_add_u64_def)
  show ?case
  proof (cases i)
    case 0
    with c' xs show ?thesis by simp
  next
    case (Suc j)
    with Cons.IH [OF ys, of j] Cons.prems(2,3) c' xs show ?thesis by simp
  qed
qed simp

lemma length_encode_rows: "length ls \<le> length (encode_rows ls)"
  by (induction ls) (auto simp: encode_rows_def)

lemma prefix_tail_consistent:
  assumes xs: "chain js authority s genesis_checkpoint ls = Some xs" and len: "length (encode_rows ls) < 2 ^ 64"
    and c: "prefix_tail xs c" and x: "x \<in> set xs"
  shows "consistent (Some c) (snd x)"
proof -
  from len have len': "acp_sequence genesis_checkpoint + length ls < 2 ^ 64"
    using length_encode_rows [of ls] by (simp add: genesis_checkpoint_def)
  from x obtain i where i: "i < length xs" "x = xs ! i" by (auto simp: in_set_conv_nth)
  have seq: "acp_sequence (snd (xs ! k)) = k + 1" if "k < length xs" for k
    using chain_sequence [OF xs len' that] by (simp add: genesis_checkpoint_def)
  consider "c = genesis_checkpoint" | j where "j < length xs" "c = snd (xs ! j)"
    using c by (auto simp: prefix_tail_def in_set_conv_nth)
  then show ?thesis
  proof cases
    case 1
    with seq i show ?thesis by (simp add: consistent_def genesis_checkpoint_def)
  next
    case 2
    with seq [OF i(1)] seq [of j] i show ?thesis by (auto simp: consistent_def)
  qed
qed

definition fresh_log :: "audit_log \<Rightarrow> audit_log" where
  "fresh_log l = \<lparr>al_path = al_path l, al_writer = al_writer l,
     al_worker = Some (worker_start (writer_tail (al_writer l))), al_health = None\<rparr>"

context audit_port
begin

lemma good_verify:
  assumes g: "good_log js a trusts evs (w, l)" and q: "w_faults w = []"
    and load: "load_checkpoint a (w_authority w) = (s, Inr x)"
  shows "\<exists>c. x = Some c \<and> verify_audit_chain js (Some a) (al_path l) (Some c) (w\<lparr>w_authority := s\<rparr>) =
    (w\<lparr>w_authority := s\<rparr>, Inr (writer_tail (al_writer l)))"
proof -
  from g obtain ls xs n where rows: "row_lines ls" "length (encode_rows ls) < 2 ^ 64"
    and dir: "w_dir w (al_path l) = Some (RegularFile (wr_ino (al_writer l)))"
    and n: "w_nodes w (wr_ino (al_writer l)) = Some n" "nd_bytes n = encode_rows ls" "nd_mode n mod 64 = 0"
    and xs: "chain js (Some a) (w_authority w) genesis_checkpoint ls = Some xs"
    and tl: "tail_of genesis_checkpoint xs = writer_tail (al_writer l)" and t: "trusts (w_authority w) (prefix_tail xs)"
    by (auto simp: good_log_def holds_rows_def)
  from load_value [OF t load] obtain c where c: "x = Some c" "prefix_tail xs c" by blast
  have same: "verify a s = verify a (w_authority w)" using load_keeps [OF t load] by simp
  have "verify_contents js (Some a) s (Some c) 0 None (length (nd_bytes n)) (nd_bytes n) =
      Inr (writer_tail (al_writer l), [], map snd xs)"
    unfolding verify_contents_spec
  proof (intro conjI exI [of _ xs] ballI)
    show "chain js (Some a) s genesis_checkpoint (file_rows (nd_bytes n)) = Some xs"
      using xs rows(1) n(2) by (simp add: file_rows_encode chain_same_authority [OF same])
    show "consistent (Some c) (snd y)" if "y \<in> set xs" for y
      by (rule prefix_tail_consistent [OF xs rows(2) c(2) that])
    show "acp_file_size (writer_tail (al_writer l)) = length (nd_bytes n)"
      using chain_size [OF xs] rows(2) n(2) tl by (simp add: genesis_checkpoint_def)
    show "Some c = None \<or> Some c \<in> Some ` set (genesis_checkpoint # map snd xs)"
      using c(2) by (auto simp: prefix_tail_def)
  qed (simp_all add: tl)
  then show ?thesis
    using verify_audit_chain_quiet [of "w\<lparr>w_authority := s\<rparr>" "al_path l" "wr_ino (al_writer l)" n js "Some a" "Some c"]
      q dir n c(1) by simp
qed

text \<open>Opening the file of a good log: nothing but the authority decides.\<close>

lemma good_open:
  assumes g: "good_log js a trusts evs (w, l)" and q: "w_faults w = []"
    and load: "load_checkpoint a (w_authority w) = (s, Inr x)"
  shows "open_authenticated js a (al_path l) suffix w =
    (if x = Some (writer_tail (al_writer l)) then (w\<lparr>w_authority := s\<rparr>, Inr (fresh_log l))
     else (case persist_checkpoint a (writer_tail (al_writer l)) s of
             (s', Inl e) \<Rightarrow> (w\<lparr>w_authority := s'\<rparr>, Inl e)
           | (s', Inr _) \<Rightarrow> (w\<lparr>w_authority := s'\<rparr>, Inr (fresh_log l))))"
proof -
  let ?wr = "al_writer l"
  from g obtain n where n: "w_nodes w (wr_ino ?wr) = Some n" "nd_mode n mod 64 = 0" "wr_stamp ?wr = node_stamp w (wr_ino ?wr) n"
    and dir: "w_dir w (al_path l) = Some (RegularFile (wr_ino ?wr))" and b: "wr_buffer ?wr = []"
    by (auto simp: good_log_def holds_rows_def)
  have new: "io_bind (open_private_append (al_path l)) (\<lambda>i. io_bind (descriptor_metadata i) (\<lambda>md.
       io_return \<lparr>al_path = al_path l,
         al_writer = \<lparr>wr_ino = i, wr_buffer = [], wr_sequence = acp_sequence (writer_tail ?wr), wr_head = acp_head (writer_tail ?wr),
           wr_file_size = acp_file_size (writer_tail ?wr), wr_stamp = md_stamp md\<rparr>,
         al_worker = Some (worker_start (writer_tail ?wr)), al_health = None\<rparr>)) (w\<lparr>w_authority := s'\<rparr>) =
      (w\<lparr>w_authority := s'\<rparr>, Inr (fresh_log l))" for s'
  proof -
    let ?w = "w\<lparr>w_authority := s'\<rparr>"
    have quiet: "w_faults ?w = []" "w_dir ?w (al_path l) = Some (RegularFile (wr_ino ?wr))" "w_nodes ?w (wr_ino ?wr) = Some n"
      using q dir n(1) by simp_all
    have "open_private_append (al_path l) ?w = (?w, Inr (wr_ino ?wr))"
      using n(2) quiet
      by (simp add: open_private_append_def io_bind_def path_exists_quiet [OF quiet] symlink_metadata_quiet [OF quiet]
          check_private_def open_or_create_def syscall_quiet)
    moreover have "node_stamp ?w i n = node_stamp w i n" for i by (simp add: node_stamp_def)
    ultimately show ?thesis
      using descriptor_metadata_quiet [OF quiet(1,3)] n(3) b
      by (cases ?wr) (simp add: io_bind_def fresh_log_def writer_tail_def)
  qed
  let ?w = "w\<lparr>w_authority := s\<rparr>"
  have quiet: "w_faults ?w = []" "w_dir ?w (al_path l) = Some (RegularFile (wr_ino ?wr))" "w_nodes ?w (wr_ino ?wr) = Some n"
    using q dir n(1) by simp_all
  from good_verify [OF g q load] obtain c where c: "x = Some c" and
    v: "verify_audit_chain js (Some a) (al_path l) (Some c) ?w = (?w, Inr (writer_tail ?wr))" by blast
  have "(case path_parent (al_path l) of Some _ \<Rightarrow> syscall ''mkdir'' | None \<Rightarrow> io_return ()) w = (w, Inr ())"
    by (simp add: syscall_quiet [OF q] split: option.splits)
  moreover have "authority_load a w = (?w, Inr (Some c))" by (simp add: authority_load_def load c)
  moreover have "quarantine_legacy (Some a) (al_path l) suffix (Some c) ?w = (?w, Inr ())"
    by (simp add: quarantine_legacy_def)
  ultimately have "open_authenticated js a (al_path l) suffix w =
      io_bind (if Some c \<noteq> Some (writer_tail ?wr) then authority_persist a (writer_tail ?wr) else io_return ()) (\<lambda>_.
      io_bind (open_private_append (al_path l)) (\<lambda>i. io_bind (descriptor_metadata i) (\<lambda>md.
       io_return \<lparr>al_path = al_path l,
         al_writer = \<lparr>wr_ino = i, wr_buffer = [], wr_sequence = acp_sequence (writer_tail ?wr), wr_head = acp_head (writer_tail ?wr),
           wr_file_size = acp_file_size (writer_tail ?wr), wr_stamp = md_stamp md\<rparr>,
         al_worker = Some (worker_start (writer_tail ?wr)), al_health = None\<rparr>))) ?w"
    using v path_exists_quiet [OF quiet]
    by (simp add: open_authenticated_def open_with_authority_def io_bind_step)
  then show ?thesis
    using new
    by (cases "persist_checkpoint a (writer_tail ?wr) s"; cases "snd (persist_checkpoint a (writer_tail ?wr) s)")
      (auto simp: c io_bind_def [of "authority_persist a (writer_tail ?wr)"] io_bind_def [of "io_return ()"] authority_persist_def)
qed

end

context audit_port
begin

lemma good_fresh:
  assumes g: "good_log js a trusts evs (w, l)"
    and keeps: "\<And>Q. trusts (w_authority w) Q \<Longrightarrow> Q (writer_tail (al_writer l)) \<Longrightarrow>
      trusts s' Q \<and> verify a s' = verify a (w_authority w)"
  shows "good_log js a trusts evs (w\<lparr>w_authority := s'\<rparr>, fresh_log l)"
proof -
  from g obtain wk where wk: "al_worker l = Some wk" by (auto simp: good_log_def)
  have "good_log js a trusts evs (w\<lparr>w_authority := s', w_faults := w_faults w\<rparr>,
      l\<lparr>al_worker := Some (worker_start (writer_tail (al_writer l))), al_health := None\<rparr>)"
    by (rule good_authority [OF g wk]) (use keeps in \<open>auto simp: worker_within_def worker_start_def\<close>)
  moreover have "l\<lparr>al_worker := Some (worker_start (writer_tail (al_writer l))), al_health := None\<rparr> = fresh_log l"
    by (cases l) (simp add: fresh_log_def)
  ultimately show ?thesis by simp
qed

lemma good_reopen:
  assumes g: "good_log js a trusts evs (w, l)" and q: "w_faults w = []"
    and op: "open_authenticated js a (al_path l) suffix w = (w', Inr l')"
  shows "good_log js a trusts evs (w', l') \<and> l' = fresh_log l"
proof -
  obtain s r where ld: "load_checkpoint a (w_authority w) = (s, r)" by fastforce
  have "\<exists>x. r = Inr x"
  proof (cases r)
    case (Inl e)
    have "(case path_parent (al_path l) of Some _ \<Rightarrow> syscall ''mkdir'' | None \<Rightarrow> io_return ()) w = (w, Inr ())"
      by (simp add: syscall_quiet [OF q] split: option.splits)
    with op ld Inl show ?thesis
      by (auto simp: open_authenticated_def open_with_authority_def io_bind_Inr authority_load_def)
  qed simp
  then obtain x where x: "r = Inr x" by blast
  note eq = good_open [OF g q ld [unfolded x], of suffix]
  have loaded: "trusts s Q \<and> verify a s = verify a (w_authority w)" if "trusts (w_authority w) Q" for Q
    using load_keeps [OF that ld] by blast
  show ?thesis
  proof (cases "x = Some (writer_tail (al_writer l))")
    case True
    with op eq have "w' = w\<lparr>w_authority := s\<rparr>" "l' = fresh_log l" by simp_all
    with good_fresh [OF g loaded] show ?thesis by simp
  next
    case False
    with op eq obtain s' where p: "persist_checkpoint a (writer_tail (al_writer l)) s = (s', Inr ())"
      and w': "w' = w\<lparr>w_authority := s'\<rparr>" "l' = fresh_log l"
      by (auto split: prod.splits sum.splits)
    have "trusts s' Q \<and> verify a s' = verify a (w_authority w)"
      if "trusts (w_authority w) Q" "Q (writer_tail (al_writer l))" for Q
      using persist_keeps [of s Q "writer_tail (al_writer l)" s' "Inr ()"] p that(2) loaded [OF that(1)] by simp
    from good_fresh [OF g this] w' show ?thesis by simp
  qed
qed

lemma good_drop:
  assumes g: "good_log js a trusts evs (w, l)"
  shows "good_log js a trusts evs (audit_drop (Some a) now (w, l), l)"
proof -
  from g obtain wk where wk: "al_worker l = Some wk" by (auto simp: good_log_def)
  obtain w1 l1 r where c: "worker_call a now wk Shutdown (w, l) = ((w1, l1), r)" by (metis surj_pair)
  from good_call [OF g wk _ c] have g1: "good_log js a trusts evs (w1, l1)"
    and same: "al_writer l1 = al_writer l" "al_path l1 = al_path l" by simp_all
  from g1 have "wr_buffer (al_writer l1) = []" by (auto simp: good_log_def holds_rows_def)
  then have "audit_drop (Some a) now (w, l) = w1"
    using wk c by (simp add: audit_drop_def worker_shutdown_def push_bytes_def)
  moreover have "good_log js a trusts evs (w1, l)"
  proof -
    obtain s' where w1: "w1 = w\<lparr>w_authority := s'\<rparr>" and
      k: "\<And>Q. trusts (w_authority w) Q \<Longrightarrow> worker_within Q wk \<Longrightarrow> trusts s' Q \<and> verify a s' = verify a (w_authority w)"
    proof (cases "wk_running wk")
      case False
      then show thesis using that [of "w_authority w"] c by (simp add: worker_call_def)
    next
      case True
      obtain s' wk' h' rep where d: "worker_drain a now (wk_queue wk @ [Shutdown]) (w_authority w, wk\<lparr>wk_queue := []\<rparr>, al_health l) =
          ((s', wk', h'), rep)" by (metis prod_cases3 surj_pair)
      have "trusts s' Q \<and> verify a s' = verify a (w_authority w)" if "trusts (w_authority w) Q" "worker_within Q wk" for Q
      proof -
        have "worker_within Q (wk\<lparr>wk_queue := []\<rparr>)" "\<forall>c \<in> set (wk_queue wk @ [Shutdown]). command_within Q c"
          using that(2) by (auto simp: worker_within_def)
        from drain_keeps [OF that(1) this d] show ?thesis by blast
      qed
      then show thesis using that [of s'] True c d by (simp add: worker_call_def)
    qed
    have "good_log js a trusts evs (w\<lparr>w_authority := s', w_faults := w_faults w\<rparr>, l\<lparr>al_worker := Some wk, al_health := al_health l\<rparr>)"
    proof (rule good_authority [OF g wk])
      show "trusts s' Q \<and> verify a s' = verify a (w_authority w) \<and> worker_within Q wk"
        if "trusts (w_authority w) Q" "worker_within Q wk" for Q
        using k [OF that] that(2) by simp
    qed
    moreover have "l\<lparr>al_worker := Some wk, al_health := al_health l\<rparr> = l" using wk by simp
    ultimately show ?thesis by (simp add: w1)
  qed
  ultimately show ?thesis by simp
qed

end

context audit_port
begin

text \<open>The candidates recovery offers are the tails of the prefixes of the chain, and any of them may become
  the checkpoint.\<close>

lemma good_candidates:
  fixes js :: "'v audit_packages"
  assumes g: "good_log js a trusts evs (w, l)" and q: "w_faults w = []"
  shows "\<exists>xs :: ('v \<times> audit_checkpoint) list. verified_audit_checkpoints js a (al_path l) w = (w, Inr (genesis_checkpoint # map snd xs)) \<and>
    trusts (w_authority w) (prefix_tail xs) \<and>
    (\<forall>s'. trusts s' (prefix_tail xs) \<longrightarrow> verify a s' = verify a (w_authority w) \<longrightarrow>
       good_log js a trusts evs (w\<lparr>w_authority := s'\<rparr>, l))"
proof -
  let ?i = "wr_ino (al_writer l)"
  from g obtain ls xs wk n where rows: "row_lines ls" "length (encode_rows ls) < 2 ^ 64" and h: "holds_rows w l ls"
    and dir: "w_dir w (al_path l) = Some (RegularFile ?i)"
    and n: "w_nodes w ?i = Some n" "nd_bytes n = encode_rows ls" "nd_mode n mod 64 = 0"
    and xs: "chain js (Some a) (w_authority w) genesis_checkpoint ls = Some xs" "map fst xs = evs"
    and tl: "tail_of genesis_checkpoint xs = writer_tail (al_writer l)" and t: "trusts (w_authority w) (prefix_tail xs)"
    and wk: "al_worker l = Some wk" "worker_within (prefix_tail xs) wk"
    by (auto simp: good_log_def holds_rows_def)
  have "verify_contents js (Some a) (w_authority w) None 0 None (length (nd_bytes n)) (nd_bytes n) =
      Inr (writer_tail (al_writer l), [], map snd xs)"
    unfolding verify_contents_spec
    using xs(1) rows n(2) tl chain_size [OF xs(1)]
    by (auto simp: file_rows_encode consistent_def genesis_checkpoint_def)
  then have "verified_audit_checkpoints js a (al_path l) w = (w, Inr (genesis_checkpoint # map snd xs))"
    using n(3)
    by (simp add: verified_audit_checkpoints_def io_bind_def open_private_audit_read_quiet [OF q dir n(1)]
        descriptor_metadata_quiet [OF q n(1)] read_verified_quiet [OF q n(1)] symlink_metadata_quiet [OF q dir n(1)])
  moreover have "good_log js a trusts evs (w\<lparr>w_authority := s'\<rparr>, l)"
    if "trusts s' (prefix_tail xs)" "verify a s' = verify a (w_authority w)" for s'
  proof -
    have "holds_rows (w\<lparr>w_authority := s'\<rparr>) l ls" using h by (subst holds_rows_cong [of _ l w]) simp_all
    with xs tl wk that show ?thesis by (auto simp: good_log_def chain_same_authority [OF that(2)] intro!: exI [of _ ls])
  qed
  ultimately show ?thesis using t by blast
qed

end

section \<open>Runs\<close>

text \<open>One step of a running log, over the events written so far. The rows are written and their checkpoint
  submitted in separate steps, so the worker thread may run in between; the environment may change the
  clock, the script of faults and every other file.\<close>

inductive audit_step ::
    "'v audit_packages \<Rightarrow> 's audit_authority \<Rightarrow> 'v list \<times> 's log_state \<Rightarrow> 'v list \<times> 's log_state \<Rightarrow> bool"
  for js a where
  wrote: "write_row js (Some a) ev st = (st', Inr u) \<Longrightarrow> js_event js ev = Some v \<Longrightarrow> file_fits st' \<Longrightarrow>
    audit_step js a (evs, st) (evs @ [v], st')"
| refused: "write_row js (Some a) ev st = (st', Inl e) \<Longrightarrow> audit_step js a (evs, st) (evs, st')"
| submitted: "degrading submit_tail st = (st', r) \<Longrightarrow> audit_step js a (evs, st) (evs, st')"
| history: "read_recent_verified js (Some a) now limit st = (st', rs) \<Longrightarrow> audit_step js a (evs, st) (evs, st')"
| received: "al_worker l = Some wk \<Longrightarrow> wk_running wk \<Longrightarrow> wk_queue wk = c # cs \<Longrightarrow>
    worker_iteration a now (Some c) (w_authority w, wk\<lparr>wk_queue := cs\<rparr>, al_health l) = ((s', wk', h), r) \<Longrightarrow>
    audit_step js a (evs, (w, l)) (evs, (w\<lparr>w_authority := s'\<rparr>, l\<lparr>al_worker := Some wk', al_health := h\<rparr>))"
| elapsed: "al_worker l = Some wk \<Longrightarrow> wk_running wk \<Longrightarrow> wk_queue wk = [] \<Longrightarrow> wk_deadline wk = Some d \<Longrightarrow> d \<le> now \<Longrightarrow>
    worker_iteration a now None (w_authority w, wk, al_health l) = ((s', wk', h), r) \<Longrightarrow>
    audit_step js a (evs, (w, l)) (evs, (w\<lparr>w_authority := s'\<rparr>, l\<lparr>al_worker := Some wk', al_health := h\<rparr>))"
| environment: "w_dir w' (al_path l) = w_dir w (al_path l) \<Longrightarrow>
    w_nodes w' (wr_ino (al_writer l)) = w_nodes w (wr_ino (al_writer l)) \<Longrightarrow>
    w_device w' = w_device w \<Longrightarrow> w_authority w' = w_authority w \<Longrightarrow>
    audit_step js a (evs, (w, l)) (evs, (w', l))"
| crashed: "al_health l = None \<Longrightarrow> w_faults w = [] \<Longrightarrow>
    open_authenticated js a (al_path l) suffix w = (w', Inr l') \<Longrightarrow>
    audit_step js a (evs, (w, l)) (evs, (w', l'))"
| reopened: "al_health l = None \<Longrightarrow> w1 = (audit_drop (Some a) now (w, l))\<lparr>w_faults := []\<rparr> \<Longrightarrow>
    open_authenticated js a (al_path l) suffix w1 = (w', Inr l') \<Longrightarrow>
    audit_step js a (evs, (w, l)) (evs, (w', l'))"

text \<open>A run starts with the creation of the log by an authority that has no checkpoint yet.\<close>

inductive audit_run ::
    "'v audit_packages \<Rightarrow> 's audit_authority \<Rightarrow> ('s \<Rightarrow> bool) \<Rightarrow> 'v list \<times> 's log_state \<Rightarrow> bool"
  for js a sound where
  created: "sound (w_authority w) \<Longrightarrow> w_faults w = [] \<Longrightarrow> w_dir w path = None \<Longrightarrow>
    load_checkpoint a (w_authority w) = (s, Inr None) \<Longrightarrow>
    open_authenticated js a path suffix w = (w', Inr l) \<Longrightarrow> audit_run js a sound ([], (w', l))"
| stepped: "audit_run js a sound x \<Longrightarrow> audit_step js a x y \<Longrightarrow> audit_run js a sound y"

lemma iteration_health:
  "worker_iteration a now cmd (s, wk, h) = ((s', wk', h'), r) \<Longrightarrow> h' = None \<Longrightarrow> h = None"
  by (auto simp: worker_iteration_def note_result_def mark_degraded_def Let_def
      split: option.splits checkpoint_command.splits prod.splits sum.splits)

lemma read_failed:
  "read_recent_verified js authority now limit st = (st', Inl e) \<Longrightarrow> al_health (snd st') \<noteq> None"
proof -
  assume "read_recent_verified js authority now limit st = (st', Inl e)"
  from io_bind_Inl [OF this [unfolded read_recent_verified_def]]
  consider "check_health st = (st', Inl e)" | st1 and m :: "('a log_state, access_record list) io" where "degrading m st1 = (st', Inl e)"
    by blast
  then show ?thesis
    by cases (auto simp: check_health_def split: option.splits dest: degrading_Inl)
qed

locale audit_port_init = audit_port +
  fixes sound :: "'a \<Rightarrow> bool"
  assumes load_sound: "sound s \<Longrightarrow> load_checkpoint a s = (s', r) \<Longrightarrow> sound s'"
    and persist_trusted: "sound s \<Longrightarrow> persist_checkpoint a c s = (s', Inr ()) \<Longrightarrow> trusts s' (\<lambda>x. x = c)"
begin

lemma good_created:
  assumes sd: "sound (w_authority w)" and q: "w_faults w = []" "w_dir w path = None"
    and ld: "load_checkpoint a (w_authority w) = (s, Inr None)"
    and op: "open_authenticated js a path suffix w = (w', Inr l)"
  shows "good_log js a trusts [] (w', l) \<and> al_health l = None"
proof -
  let ?w = "w\<lparr>w_authority := s\<rparr>"
  have "(case path_parent path of Some _ \<Rightarrow> syscall ''mkdir'' | None \<Rightarrow> io_return ()) w = (w, Inr ())"
    by (simp add: syscall_quiet [OF q(1)] split: option.splits)
  moreover have "authority_load a w = (?w, Inr None)" by (simp add: authority_load_def ld)
  moreover have "path_exists path ?w = (?w, Inr False)" using q by (simp add: path_exists_absent)
  moreover from this have "quarantine_legacy (Some a) path suffix None ?w = (?w, Inr ())"
    by (simp add: quarantine_legacy_def io_bind_def)
  ultimately obtain w1 where p: "authority_persist a genesis_checkpoint ?w = (w1, Inr ())"
    and rest: "io_bind (open_private_append path) (\<lambda>i. io_bind (descriptor_metadata i) (\<lambda>md.
       io_return \<lparr>al_path = path, al_writer = \<lparr>wr_ino = i, wr_buffer = [],
           wr_sequence = acp_sequence genesis_checkpoint, wr_head = acp_head genesis_checkpoint,
           wr_file_size = acp_file_size genesis_checkpoint, wr_stamp = md_stamp md\<rparr>,
         al_worker = Some (worker_start genesis_checkpoint), al_health = None\<rparr>)) w1 = (w', Inr l)"
    using op by (auto simp: open_authenticated_def open_with_authority_def io_bind_Inr)
  from p obtain s' where s': "persist_checkpoint a genesis_checkpoint s = (s', Inr ())" "w1 = w\<lparr>w_authority := s'\<rparr>"
    by (auto simp: authority_persist_def split: prod.splits)
  have t: "trusts s' (prefix_tail [])"
    by (rule trusts_mono [OF persist_trusted [OF load_sound [OF sd ld] s'(1)]]) (simp add: prefix_tail_def)
  let ?n = "\<lparr>nd_bytes = [], nd_mode = 384, nd_ctime = fst (w_now w), nd_ctime_nsec = snd (w_now w)\<rparr>"
  let ?i = "w_next_ino w"
  let ?w2 = "w1\<lparr>w_dir := (w_dir w1)(path \<mapsto> RegularFile ?i), w_nodes := (w_nodes w1)(?i \<mapsto> ?n), w_next_ino := Suc ?i\<rparr>"
  let ?l = "\<lparr>al_path = path, al_writer = \<lparr>wr_ino = ?i, wr_buffer = [],
           wr_sequence = acp_sequence genesis_checkpoint, wr_head = acp_head genesis_checkpoint,
           wr_file_size = acp_file_size genesis_checkpoint, wr_stamp = node_stamp ?w2 ?i ?n\<rparr>,
         al_worker = Some (worker_start genesis_checkpoint), al_health = None\<rparr>"
  have o: "open_private_append path w1 = (?w2, Inr ?i)"
    using q s'(2) by (simp add: open_private_append_def io_bind_def path_exists_absent open_or_create_def syscall_quiet Let_def)
  have dm: "descriptor_metadata ?i ?w2 = (?w2, Inr \<lparr>md_regular = True, md_symlink = False, md_mode = 384,
      md_stamp = node_stamp ?w2 ?i ?n\<rparr>)"
    using q s'(2) descriptor_metadata_quiet [of ?w2 ?i ?n] by simp
  have "?w2 = w' \<and> ?l = l"
    by (rule rest [unfolded io_bind_def o prod.case sum.case dm io_return_def prod.inject sum.inject file_metadata.select_convs])
  then have w': "w' = ?w2" and l: "l = ?l" by (blast, blast)
  have "holds_rows w' l []" by (simp add: holds_rows_def w' l)
  moreover have "writer_tail (al_writer l) = genesis_checkpoint"
    by (simp add: l writer_tail_def genesis_checkpoint_def)
  moreover have "worker_within (prefix_tail []) (worker_start genesis_checkpoint)"
    by (simp add: worker_within_def worker_start_def prefix_tail_def)
  ultimately show ?thesis
    unfolding good_log_def using t s'(2) by (auto simp: w' l intro!: exI [of _ "[]"])
qed

lemma step_good:
  assumes "audit_step js a x y" "json_ok js"
    and "al_health (snd (snd x)) = None \<Longrightarrow> good_log js a trusts (fst x) (snd x)"
    and "al_health (snd (snd y)) = None"
  shows "good_log js a trusts (fst y) (snd y)"
  using assms
proof cases
  case (wrote ev st st' u v evs)
  then have "al_health (snd st) = None" by (auto simp: write_row_def io_bind_Inr check_health_Inr)
  with wrote(1) assms(3) have "good_log js a trusts evs st" by simp
  from good_write [OF this assms(2) wrote(4,3,5)] wrote(2) show ?thesis by simp
next
  case (refused ev st st' e evs)
  with write_row_failed [OF refused(3)] assms(4) obtain fs where fs: "st' = ((fst st)\<lparr>w_faults := fs\<rparr>, snd st)" by auto
  with refused assms(3,4) have "good_log js a trusts evs (fst st, snd st)" by simp
  from good_faults [OF this] refused(2) fs show ?thesis by simp
next
  case (submitted st st' r evs)
  with assms(4) obtain u where u: "degrading submit_tail st = (st', Inr u)" by (cases r) (auto dest: degrading_Inl)
  then have "al_health (snd st) = al_health (snd st')"
    by (auto simp: degrading_Inr submit_tail_def worker_update_def split: option.splits if_splits)
  with submitted(1,2) assms(3,4) have "good_log js a trusts evs st" by simp
  from good_submit [OF this u] submitted(2) show ?thesis by simp
next
  case (history now limit st st' rs evs)
  with assms(4) obtain r where r: "read_recent_verified js (Some a) now limit st = (st', Inr r)"
    by (cases rs) (auto dest: read_failed)
  then have "al_health (snd st) = None" by (auto simp: read_recent_verified_def io_bind_Inr check_health_Inr)
  with history(1) assms(3) have "good_log js a trusts evs st" by simp
  from good_read [OF this assms(2) r] history(2) show ?thesis by simp
next
  case (received l wk c cs now w s' wk' h r evs)
  have "al_health l = None" using iteration_health [OF received(6)] assms(4) received(2) by simp
  then have g: "good_log js a trusts evs (w, l)" using assms(3) received(1) by simp
  have "good_log js a trusts evs (w\<lparr>w_authority := s', w_faults := w_faults w\<rparr>, l\<lparr>al_worker := Some wk', al_health := h\<rparr>)"
  proof (rule good_authority [OF g received(3)])
    fix Q assume q: "trusts (w_authority w) Q" "worker_within Q wk"
    then have "worker_within Q (wk\<lparr>wk_queue := cs\<rparr>)" "command_within Q c" using received(5) by (auto simp: worker_within_def)
    with iteration_keeps [OF q(1) _ _ received(6)]
    show "trusts s' Q \<and> verify a s' = verify a (w_authority w) \<and> worker_within Q wk'" by simp
  qed
  then show ?thesis by (simp add: received(2))
next
  case (elapsed l wk d now w s' wk' h r evs)
  have "al_health l = None" using iteration_health [OF elapsed(8)] assms(4) elapsed(2) by simp
  then have g: "good_log js a trusts evs (w, l)" using assms(3) elapsed(1) by simp
  have "good_log js a trusts evs (w\<lparr>w_authority := s', w_faults := w_faults w\<rparr>, l\<lparr>al_worker := Some wk', al_health := h\<rparr>)"
  proof (rule good_authority [OF g elapsed(3)])
    fix Q assume q: "trusts (w_authority w) Q" "worker_within Q wk"
    with iteration_keeps [OF q _ elapsed(8)]
    show "trusts s' Q \<and> verify a s' = verify a (w_authority w) \<and> worker_within Q wk'" by simp
  qed
  then show ?thesis by (simp add: elapsed(2))
next
  case (environment w' l w evs)
  with assms(3,4) have "good_log js a trusts evs (w, l)" by simp
  moreover have "holds_rows w' l ls = holds_rows w l ls" for ls using environment by (intro holds_rows_cong) simp_all
  ultimately show ?thesis using environment by (simp add: good_log_def)
next
  case (crashed l w suffix w' l' evs)
  with assms(3) have "good_log js a trusts evs (w, l)" by simp
  from good_reopen [OF this crashed(4,5)] crashed(2) show ?thesis by auto
next
  case (reopened l w1 now w suffix w' l' evs)
  with assms(3) have "good_log js a trusts evs (w, l)" by simp
  from good_faults [OF good_drop [OF this, of now], of "[]"] have "good_log js a trusts evs (w1, l)" by (simp add: reopened(4))
  from good_reopen [OF this _ reopened(5)] reopened(2,4) show ?thesis by auto
qed

lemma run_good:
  assumes "audit_run js a sound x" "json_ok js" "al_health (snd (snd x)) = None"
  shows "good_log js a trusts (fst x) (snd x)"
  using assms
proof (induction rule: audit_run.induct)
  case (created w path s suffix w' l)
  from good_created [OF created(1-5)] show ?case by simp
next
  case (stepped x y)
  show ?case by (rule step_good [OF stepped(2,4) _ stepped(5)]) (rule stepped.IH [OF stepped(4)])
qed

end

end
