(* ===== verification/Audit_Authority.thy ===== *)
theory Audit_Authority
  imports Audit_Runs Integrity
begin

text \<open>
  The authority the daemon gives its audit log (\<open>AuthenticatedAuditAuthority\<close> in \<open>floria/src/main.rs\<close>): rows are
  tagged with detached MACs of the state authenticator, and the checkpoint is a document it persists. The
  theory interprets the contract of the log on it, models the startup that repairs an interrupted checkpoint
  commit, and states what the audit log as a whole guarantees.
\<close>

section \<open>The adapter (main.rs)\<close>

definition AUDIT_CHECKPOINT_DOMAIN :: string where "AUDIT_CHECKPOINT_DOMAIN = ''audit-log-checkpoint''"
definition AUDIT_EVENT_DOMAIN :: string where "AUDIT_EVENT_DOMAIN = ''audit-log-event''"

record audit_adapter =
  aa_world :: "audit_checkpoint auth_world"
  aa_path :: string
  aa_generation :: "nat option"

fun integrity_text :: "integrity_error \<Rightarrow> string" where
  "integrity_text (Io p) = ''I/O error''"
| "integrity_text Encoding = ''encoding error''"
| "integrity_text (Keychain d) = ''Keychain error''"
| "integrity_text (Invalid d why) = why"
| "integrity_text (Rollback d e g) = ''rollback''"
| "integrity_text (AheadOfCheckpoint d e g) = ''ahead of checkpoint''"

definition adapter_new :: "audit_checkpoint auth_world \<Rightarrow> string \<Rightarrow> audit_adapter" where
  "adapter_new w path = \<lparr>aa_world = w, aa_path = path, aa_generation = None\<rparr>"

definition adapter_load :: "(audit_adapter, audit_checkpoint option) io" where
  "adapter_load s =
     (case state_load (aa_world s) (aa_path s) AUDIT_CHECKPOINT_DOMAIN of
        (w, Inl e) \<Rightarrow> (s\<lparr>aa_world := w\<rparr>, Inl (OtherError (integrity_text e)))
      | (w, Inr loaded) \<Rightarrow>
          (s\<lparr>aa_world := w, aa_generation := Some (ls_generation loaded)\<rparr>,
           if ls_value loaded = None \<and> ls_generation loaded \<noteq> 0
           then Inl (InvalidData ''audit checkpoint file is missing at authenticated generation'')
           else Inr (ls_value loaded)))"

definition adapter_authenticate :: "audit_adapter \<Rightarrow> bytes \<Rightarrow> io_error + string" where
  "adapter_authenticate s payload =
     Inr (authenticate_detached (aw_packages (aa_world s)) (aw_key (aa_world s)) AUDIT_EVENT_DOMAIN payload)"

definition adapter_verify :: "audit_adapter \<Rightarrow> bytes \<Rightarrow> string \<Rightarrow> io_error + unit" where
  "adapter_verify s payload tag =
     map_err (\<lambda>e. OtherError (integrity_text e))
       (verify_detached (aw_packages (aa_world s)) (aw_key (aa_world s)) AUDIT_EVENT_DOMAIN payload tag)"

definition adapter_persist :: "audit_checkpoint \<Rightarrow> (audit_adapter, unit) io" where
  "adapter_persist c s =
     (case aa_generation s of
        None \<Rightarrow> (s, Inl (OtherError ''audit checkpoint was not loaded before persistence''))
      | Some current \<Rightarrow>
          (case state_persist (aa_world s) (aa_path s) AUDIT_CHECKPOINT_DOMAIN current c of
             (w, Inl e) \<Rightarrow> (s\<lparr>aa_world := w\<rparr>, Inl (OtherError (integrity_text e)))
           | (w, Inr generation) \<Rightarrow> (s\<lparr>aa_world := w, aa_generation := Some generation\<rparr>, Inr ())))"

definition adapter :: "audit_adapter audit_authority" where
  "adapter = \<lparr>load_checkpoint = adapter_load, authenticate = adapter_authenticate, verify = adapter_verify,
     persist_checkpoint = adapter_persist\<rparr>"

text \<open>Startup: a checkpoint file ahead of the trusted checkpoint is the trace of an interrupted commit and is
  rebuilt from the verified chain; every other failure to load it is fatal.\<close>

definition open_authenticated_audit ::
    "'v audit_packages \<Rightarrow> string \<Rightarrow> string \<Rightarrow> (audit_adapter audit_world, audit_log) io" where
  "open_authenticated_audit js path suffix w0 =
     (let checkpoint_path = with_extension path ''integrity.json'';
          w = w0\<lparr>w_authority := adapter_new (aa_world (w_authority w0)) checkpoint_path\<rparr>
      in case state_load (aa_world (w_authority w)) checkpoint_path AUDIT_CHECKPOINT_DOMAIN of
           (sw, Inl (AheadOfCheckpoint _ _ _)) \<Rightarrow>
             io_bind (verified_audit_checkpoints js adapter path) (\<lambda>candidates w1.
             (case restore_checkpointed_state (aa_world (w_authority w1)) checkpoint_path AUDIT_CHECKPOINT_DOMAIN candidates of
                (sw', Inl e) \<Rightarrow> (w1\<lparr>w_authority := (w_authority w1)\<lparr>aa_world := sw'\<rparr>\<rparr>, Inl (OtherError (integrity_text e)))
              | (sw', Inr _) \<Rightarrow> open_authenticated js adapter path suffix (w1\<lparr>w_authority := (w_authority w1)\<lparr>aa_world := sw'\<rparr>\<rparr>)))
               (w\<lparr>w_authority := (w_authority w)\<lparr>aa_world := sw\<rparr>\<rparr>)
         | (sw, Inl e) \<Rightarrow> (w\<lparr>w_authority := (w_authority w)\<lparr>aa_world := sw\<rparr>\<rparr>, Inl (OtherError (integrity_text e)))
         | (sw, Inr _) \<Rightarrow> open_authenticated js adapter path suffix (w\<lparr>w_authority := (w_authority w)\<lparr>aa_world := sw\<rparr>\<rparr>))"

section \<open>The adapter keeps the contract\<close>

text \<open>The trusted checkpoint commits to a document satisfying \<open>Q\<close>; the file holds it, or the next generation
  of an interrupted commit.\<close>

definition checkpoint_file :: "audit_checkpoint auth_world \<Rightarrow> string \<Rightarrow> nat \<Rightarrow> bytes \<Rightarrow> bool" where
  "checkpoint_file w path g p \<longleftrightarrow>
     aw_files w path = Some (sealed_file w AUDIT_CHECKPOINT_DOMAIN g p) \<or>
     (\<exists>p'. aw_files w path = Some (sealed_file w AUDIT_CHECKPOINT_DOMAIN (g + 1) p'))"

definition adapter_trusts :: "audit_adapter \<Rightarrow> (audit_checkpoint \<Rightarrow> bool) \<Rightarrow> bool" where
  "adapter_trusts s Q \<longleftrightarrow> codec_ok (aa_world s) \<and>
     (\<exists>g v p. 1 \<le> g \<and> g < 2 ^ 64 \<and> Q v \<and> aw_ser (aa_world s) v = Some p \<and>
        aw_checkpoints (aa_world s) AUDIT_CHECKPOINT_DOMAIN = Some \<lparr>ck_generation = g,
          ck_mac = mac (aw_packages (aa_world s)) (aw_key (aa_world s)) AUDIT_CHECKPOINT_DOMAIN g p\<rparr> \<and>
        (\<forall>k. aa_generation s = Some k \<longrightarrow> k \<le> g) \<and> checkpoint_file (aa_world s) (aa_path s) g p)"

definition adapter_sound :: "audit_adapter \<Rightarrow> bool" where
  "adapter_sound s \<longleftrightarrow> codec_ok (aa_world s)"

lemma adapter_simps [simp]:
  "load_checkpoint adapter = adapter_load" "authenticate adapter = adapter_authenticate"
  "verify adapter = adapter_verify" "persist_checkpoint adapter = adapter_persist"
  by (simp_all add: adapter_def)

lemma adapter_verify_same:
  "same_authority (aa_world s) (aa_world s') \<Longrightarrow> adapter_verify s' = adapter_verify s"
  by (intro ext) (simp add: adapter_verify_def same_authority_def)

lemma sealed_file_same: "same_authority w w' \<Longrightarrow> sealed_file w' d g p = sealed_file w d g p"
  by (simp add: sealed_file_def same_authority_def)

lemma adapter_tag:
  "adapter_trusts s Q \<Longrightarrow> adapter_authenticate s p = Inr t \<Longrightarrow> adapter_verify s p t = Inr ()"
  by (auto simp: adapter_trusts_def adapter_authenticate_def adapter_verify_def authenticate_detached_def
      verify_detached_def codec_ok_def packages_ok_def)

lemma adapter_load_world:
  assumes "adapter_load s = (s', r)"
  shows "same_authority (aa_world s) (aa_world s') \<and> aw_files (aa_world s') = aw_files (aa_world s) \<and>
    aw_checkpoints (aa_world s') = aw_checkpoints (aa_world s) \<and> aa_path s' = aa_path s \<and>
    (aa_generation s' = aa_generation s \<or>
     aa_generation s' = Some (trusted_generation (aa_world s) AUDIT_CHECKPOINT_DOMAIN))"
proof -
  obtain w l where l: "state_load (aa_world s) (aa_path s) AUDIT_CHECKPOINT_DOMAIN = (w, l)" by fastforce
  have w: "w = pop_fault (aa_world s)" using state_load_world [of "aa_world s"] l by (metis fst_conv)
  show ?thesis
  proof (cases l)
    case (Inl e)
    with assms l w show ?thesis by (auto simp: adapter_load_def same_authority_def)
  next
    case (Inr r)
    with state_load_generation [of "aa_world s" "aa_path s" AUDIT_CHECKPOINT_DOMAIN w r] l
    have "ls_generation r = trusted_generation (aa_world s) AUDIT_CHECKPOINT_DOMAIN"
      by (simp add: trusted_generation_def)
    with Inr assms l w show ?thesis by (auto simp: adapter_load_def same_authority_def)
  qed
qed

lemma adapter_load_keeps:
  assumes t: "adapter_trusts s Q" and l: "adapter_load s = (s', r)"
  shows "adapter_trusts s' Q \<and> adapter_verify s' = adapter_verify s"
proof -
  note w = adapter_load_world [OF l]
  from t obtain g v p where g: "1 \<le> g" "g < 2 ^ 64" "Q v" "aw_ser (aa_world s) v = Some p"
    "aw_checkpoints (aa_world s) AUDIT_CHECKPOINT_DOMAIN = Some \<lparr>ck_generation = g,
          ck_mac = mac (aw_packages (aa_world s)) (aw_key (aa_world s)) AUDIT_CHECKPOINT_DOMAIN g p\<rparr>"
    "\<forall>k. aa_generation s = Some k \<longrightarrow> k \<le> g" "checkpoint_file (aa_world s) (aa_path s) g p" "codec_ok (aa_world s)"
    by (auto simp: adapter_trusts_def)
  then have "\<forall>k. aa_generation s' = Some k \<longrightarrow> k \<le> g" using w by (auto simp: trusted_generation_def)
  moreover have "checkpoint_file (aa_world s') (aa_path s') g p"
    using g(7) w by (simp add: checkpoint_file_def sealed_file_same [of "aa_world s" "aa_world s'"])
  moreover have "codec_ok (aa_world s')" using codec_ok_same w g(8) by blast
  ultimately have "adapter_trusts s' Q"
    using g w unfolding adapter_trusts_def by (auto simp: same_authority_def intro!: exI [of _ g] exI [of _ v])
  with adapter_verify_same w show ?thesis by blast
qed

lemma sealed_load:
  assumes "codec_ok w" "g < 2 ^ 64" "aw_ser w v = Some p"
    and "aw_checkpoints w d = Some \<lparr>ck_generation = g, ck_mac = mac (aw_packages w) (aw_key w) d g p\<rparr>"
    and "aw_files w path = Some (sealed_file w d g p)"
    and "state_load w path d = (w', Inr r)"
  shows "r = \<lparr>ls_value = Some v, ls_generation = g\<rparr>"
proof -
  have "holds_state w path d g v" using assms by (auto simp: holds_state_def commits_def)
  from authenticator.load_holds [OF assms(1) this assms(6)] show ?thesis .
qed

lemma ahead_load:
  assumes "codec_ok w" "aw_checkpoints w d = Some ck" "ck_generation ck < g"
    and "aw_files w path = Some (sealed_file w d g p)"
  shows "\<not> is_ok (snd (state_load w path d))"
proof (cases "cf_checkpoint_load_fails (next_fault w) \<or> cf_read_fails (next_fault w)")
  case True
  with assms show ?thesis by (auto simp: state_load_def Let_def checkpoint_load_def)
next
  case False
  with load_ahead [OF _ assms(2,3,4)] assms(1) show ?thesis by (simp add: codec_ok_def)
qed

lemma adapter_load_value:
  assumes t: "adapter_trusts s Q" and l: "adapter_load s = (s', Inr x)"
  shows "\<exists>c. x = Some c \<and> Q c"
proof -
  let ?w = "aa_world s" and ?d = AUDIT_CHECKPOINT_DOMAIN
  from t obtain g v p where g: "1 \<le> g" "g < 2 ^ 64" "Q v" "aw_ser ?w v = Some p"
    "aw_checkpoints ?w ?d = Some \<lparr>ck_generation = g, ck_mac = mac (aw_packages ?w) (aw_key ?w) ?d g p\<rparr>"
    "checkpoint_file ?w (aa_path s) g p" "codec_ok ?w"
    by (auto simp: adapter_trusts_def)
  from l obtain w r where r: "state_load ?w (aa_path s) ?d = (w, Inr r)" "x = ls_value r"
    by (auto simp: adapter_load_def split: prod.splits sum.splits if_splits)
  then have "is_ok (snd (state_load ?w (aa_path s) ?d))" by simp
  with ahead_load [OF g(7,5)] g(6) have "aw_files ?w (aa_path s) = Some (sealed_file ?w ?d g p)"
    by (fastforce simp: checkpoint_file_def)
  from sealed_load [OF g(7,2,4,5) this r(1)] r(2) g(3) show ?thesis by simp
qed

lemma state_persist_effects:
  "let w' = fst (state_persist w path d g v) in
     w' = pop_fault w \<or>
     (\<forall>ck. aw_checkpoints w d = Some ck \<longrightarrow> ck_generation ck \<le> g) \<and>
     (\<exists>payload. aw_ser w v = Some payload \<and> g + 1 < 2 ^ 64 \<and>
       (w' = (pop_fault w)\<lparr>aw_files := (aw_files w)(path \<mapsto> sealed_file w d (g + 1) payload)\<rparr> \<or>
        w' = (pop_fault w)\<lparr>aw_files := (aw_files w)(path \<mapsto> sealed_file w d (g + 1) payload),
               aw_checkpoints := (aw_checkpoints w)(d \<mapsto>
                 \<lparr>ck_generation = g + 1, ck_mac = mac (aw_packages w) (aw_key w) d (g + 1) payload\<rparr>)\<rparr>))"
proof -
  have s: "sealed_file (pop_fault w) d' g' p = sealed_file w d' g' p" for d' g' p by (simp add: sealed_file_def)
  show ?thesis
    using state_persist_cases [of w path d g v] persist_next_effects [of "pop_fault w" "next_fault w" path d g v]
    unfolding Let_def s pop_fault_simps by metis
qed

lemma state_persist_advances:
  assumes "state_persist w path d k c = (w', res)" "is_ok res"
  shows "\<exists>ck. aw_checkpoints w' d = Some ck \<and> ck_generation ck = k + 1"
proof -
  from assms obtain g' where "state_persist w path d k c = (w', Inr g')" by (auto simp: is_ok_iff)
  from persist_next_Ok [OF state_persist_Ok [OF this, THEN conjunct1]] show ?thesis by auto
qed

lemma adapter_trusts_after:
  assumes "codec_ok w" "aw_ser w c = Some p" "Q c" "g + 1 < 2 ^ 64" "same_authority w w'"
    and "aw_files w' path = Some (sealed_file w AUDIT_CHECKPOINT_DOMAIN (g + 1) p)"
    and "aw_checkpoints w' AUDIT_CHECKPOINT_DOMAIN = Some \<lparr>ck_generation = g + 1,
      ck_mac = mac (aw_packages w) (aw_key w) AUDIT_CHECKPOINT_DOMAIN (g + 1) p\<rparr>"
    and "k \<le> g + 1"
  shows "adapter_trusts \<lparr>aa_world = w', aa_path = path, aa_generation = Some k\<rparr> Q"
  unfolding adapter_trusts_def checkpoint_file_def
  using assms codec_ok_same [OF assms(5,1)] sealed_file_same [OF assms(5)]
  by (auto simp: same_authority_def intro!: exI [of _ "g + 1"] exI [of _ c])

lemma adapter_persist_keeps:
  assumes t: "adapter_trusts s Q" and c: "Q c" and p: "adapter_persist c s = (s', r)"
  shows "adapter_trusts s' Q \<and> adapter_verify s' = adapter_verify s"
proof (cases "aa_generation s")
  case None
  with p t show ?thesis by (simp add: adapter_persist_def)
next
  case (Some k)
  let ?w = "aa_world s" and ?d = AUDIT_CHECKPOINT_DOMAIN
  from t Some obtain g v q where g: "1 \<le> g" "g < 2 ^ 64" "Q v" "aw_ser ?w v = Some q"
    "aw_checkpoints ?w ?d = Some \<lparr>ck_generation = g, ck_mac = mac (aw_packages ?w) (aw_key ?w) ?d g q\<rparr>"
    "k \<le> g" "checkpoint_file ?w (aa_path s) g q" "codec_ok ?w"
    by (auto simp: adapter_trusts_def)
  obtain w' res where sp: "state_persist ?w (aa_path s) ?d k c = (w', res)" by fastforce
  have same: "same_authority ?w w'" using state_persist_same [of ?w "aa_path s" ?d k c] sp by simp
  obtain k' where s': "s' = \<lparr>aa_world = w', aa_path = aa_path s, aa_generation = Some k'\<rparr>"
    and k': "k' = k \<or> res = Inr k'"
    using p Some sp by (cases s; cases res) (auto simp: adapter_persist_def)
  have k1: "k' = k \<or> k' = k + 1 \<and> is_ok res" using k' state_persist_holds [of ?w "aa_path s" ?d k c w' k'] sp by auto
  from state_persist_effects [of ?w "aa_path s" ?d k c] sp g(5,6)
  consider "w' = pop_fault ?w"
    | payload where "k = g" "aw_ser ?w c = Some payload" "g + 1 < 2 ^ 64"
        "w' = (pop_fault ?w)\<lparr>aw_files := (aw_files ?w)(aa_path s \<mapsto> sealed_file ?w ?d (g + 1) payload)\<rparr>"
    | payload where "k = g" "aw_ser ?w c = Some payload" "g + 1 < 2 ^ 64"
        "w' = (pop_fault ?w)\<lparr>aw_files := (aw_files ?w)(aa_path s \<mapsto> sealed_file ?w ?d (g + 1) payload),
           aw_checkpoints := (aw_checkpoints ?w)(?d \<mapsto> \<lparr>ck_generation = g + 1,
             ck_mac = mac (aw_packages ?w) (aw_key ?w) ?d (g + 1) payload\<rparr>)\<rparr>"
    by (fastforce simp: Let_def)
  then have "adapter_trusts s' Q"
  proof cases
    case 1
    have "\<not> is_ok res"
    proof
      assume ok: "is_ok res"
      from state_persist_advances [OF sp ok] 1 g(5) have "g = k + 1" by auto
      moreover from ok obtain g' where "res = Inr g'" by (auto simp: is_ok_iff)
      with state_persist_Ok [of ?w "aa_path s" ?d k c w' g'] sp g(5) have "g \<le> k" by auto
      ultimately show False by simp
    qed
    with k1 have "k' = k" by blast
    with 1 s' t Some show ?thesis by (simp add: adapter_trusts_def checkpoint_file_def sealed_file_def codec_ok_def)
  next
    case 2
    have "\<not> is_ok res" using state_persist_advances [OF sp] 2 g(5) by auto
    with k1 have "k' = g" using 2(1) by blast
    moreover have "checkpoint_file w' (aa_path s) g q"
      using 2(4) by (auto simp: checkpoint_file_def sealed_file_def)
    ultimately show ?thesis
      using g s' codec_ok_same [OF same g(8)] 2(4) by (auto simp: adapter_trusts_def intro!: exI [of _ g] exI [of _ v])
  next
    case 3
    from k1 3(1) have "k' \<le> g + 1" by auto
    with adapter_trusts_after [where Q = Q, OF g(8) 3(2) c 3(3) same] 3(4) s' show ?thesis by simp
  qed
  with same s' adapter_verify_same [of s s'] show ?thesis by simp
qed

lemma adapter_persist_trusted:
  assumes s: "adapter_sound s" and p: "adapter_persist c s = (s', Inr u)"
  shows "adapter_trusts s' (\<lambda>x. x = c)"
proof -
  let ?w = "aa_world s" and ?d = AUDIT_CHECKPOINT_DOMAIN
  from p obtain k w' g where k: "aa_generation s = Some k"
    and sp: "state_persist ?w (aa_path s) ?d k c = (w', Inr g)"
    and s': "s' = \<lparr>aa_world = w', aa_path = aa_path s, aa_generation = Some g\<rparr>"
    by (cases s) (auto simp: adapter_persist_def split: option.splits prod.splits sum.splits)
  from persist_next_Ok [OF state_persist_Ok [OF sp, THEN conjunct1]] obtain payload where g: "g = k + 1" "k + 1 < 2 ^ 64"
    and pl: "aw_ser ?w c = Some payload" and w': "w' = (pop_fault ?w)\<lparr>aw_files := (aw_files ?w)(aa_path s \<mapsto> sealed_file (pop_fault ?w) ?d g payload),
            aw_checkpoints := (aw_checkpoints ?w)(?d \<mapsto>
              \<lparr>ck_generation = g, ck_mac = mac (aw_packages ?w) (aw_key ?w) ?d g payload\<rparr>)\<rparr>" by auto
  have same: "same_authority ?w w'" using state_persist_same [of ?w "aa_path s" ?d k c] sp by simp
  have cod: "codec_ok ?w" using s by (simp add: adapter_sound_def)
  show ?thesis
    using adapter_trusts_after [where Q = "\<lambda>x. x = c" and k = g and path = "aa_path s", OF cod pl HOL.refl g(2) same]
    by (simp add: s' w' g(1) sealed_file_def)
qed

interpretation audit_adapter: audit_port_init adapter adapter_trusts adapter_sound
proof
  show "verify adapter s p t = Inr ()" if "adapter_trusts s Q" "authenticate adapter s p = Inr t" for s Q p t
    using adapter_tag that by simp
  show "adapter_trusts s' Q \<and> verify adapter s' = verify adapter s"
    if "adapter_trusts s Q" "load_checkpoint adapter s = (s', r)" for s Q s' r
    using adapter_load_keeps that by simp
  show "\<exists>c. x = Some c \<and> Q c" if "adapter_trusts s Q" "load_checkpoint adapter s = (s', Inr x)" for s Q s' x
    using adapter_load_value that by simp
  show "adapter_trusts s' Q \<and> verify adapter s' = verify adapter s"
    if "adapter_trusts s Q" "Q c" "persist_checkpoint adapter c s = (s', r)" for s Q c s' r
    using adapter_persist_keeps [OF that(1,2)] that(3) by simp
  show "adapter_trusts s Q'" if "adapter_trusts s Q" "\<And>c. Q c \<Longrightarrow> Q' c" for s Q Q'
    using that by (auto simp: adapter_trusts_def)
  show "adapter_sound s'" if "adapter_sound s" "load_checkpoint adapter s = (s', r)" for s s' r
    using that adapter_load_world [of s s' r] codec_ok_same by (auto simp: adapter_sound_def)
  show "adapter_trusts s' (\<lambda>x. x = c)" if "adapter_sound s" "persist_checkpoint adapter c s = (s', Inr ())" for s c s'
    using adapter_persist_trusted that by simp
qed

section \<open>Startup\<close>

text \<open>The calm environment of a startup: nothing fails, checkpoints can be encoded, generations are not
  exhausted, and the adapter keeps its checkpoint beside the log.\<close>

definition calm :: "audit_adapter audit_world \<Rightarrow> string \<Rightarrow> bool" where
  "calm w path \<longleftrightarrow> w_faults w = [] \<and> aw_faults (aa_world (w_authority w)) = [] \<and>
     aa_path (w_authority w) = with_extension path ''integrity.json'' \<and>
     path_parent (with_extension path ''integrity.json'') \<noteq> None \<and>
     (\<forall>c. aw_ser (aa_world (w_authority w)) c \<noteq> None) \<and>
     trusted_generation (aa_world (w_authority w)) AUDIT_CHECKPOINT_DOMAIN + 1 < 2 ^ 64"

text \<open>The trusted checkpoint with the file that matches it.\<close>

definition settled :: "audit_checkpoint auth_world \<Rightarrow> string \<Rightarrow> nat \<Rightarrow> audit_checkpoint \<Rightarrow> bool" where
  "settled w path g v \<longleftrightarrow> codec_ok w \<and> holds_state w path AUDIT_CHECKPOINT_DOMAIN g v"

lemma pop_fault_quiet: "aw_faults w = [] \<Longrightarrow> pop_fault w = w"
  by (cases w) (simp add: pop_fault_def)

lemma next_fault_quiet: "aw_faults w = [] \<Longrightarrow> next_fault w = no_fault"
  by (simp add: next_fault_def)

lemma settled_load:
  assumes "settled w path g v" "aw_faults w = []"
  shows "state_load w path AUDIT_CHECKPOINT_DOMAIN = (w, Inr \<lparr>ls_value = Some v, ls_generation = g\<rparr>)"
  using assms holds_state_load [of w path AUDIT_CHECKPOINT_DOMAIN g v]
  by (simp add: settled_def next_fault_quiet pop_fault_quiet no_fault_def)

lemma settled_open:
  assumes g: "good_log js adapter adapter_trusts evs (w, l)" and c: "calm w (al_path l)"
    and s: "settled (aa_world (w_authority w)) (aa_path (w_authority w)) gen v"
  shows "\<exists>w'. open_authenticated js adapter (al_path l) suffix w = (w', Inr (fresh_log l)) \<and>
    good_log js adapter adapter_trusts evs (w', fresh_log l)"
proof -
  let ?s = "w_authority w" and ?d = AUDIT_CHECKPOINT_DOMAIN
  let ?s1 = "?s\<lparr>aa_generation := Some gen\<rparr>"
  have q: "w_faults w = []" "aw_faults (aa_world ?s) = []" using c by (simp_all add: calm_def)
  have ld: "load_checkpoint adapter ?s = (?s1, Inr (Some v))"
    using settled_load [OF s q(2)] by (cases ?s) (simp add: adapter_load_def)
  have tg: "trusted_generation (aa_world ?s) ?d = gen"
    using s by (auto simp: settled_def holds_state_def commits_def trusted_generation_def)
  obtain payload where pl: "aw_ser (aa_world ?s) (writer_tail (al_writer l)) = Some payload"
    using c by (auto simp: calm_def)
  have "snd (state_persist (aa_world ?s) (aa_path ?s) ?d gen (writer_tail (al_writer l))) = Inr (gen + 1)"
    using state_persist_quiet [OF q(2) _ _ _ pl, of "aa_path ?s" ?d gen] c tg by (simp add: calm_def)
  then obtain w2 where "state_persist (aa_world ?s) (aa_path ?s) ?d gen (writer_tail (al_writer l)) = (w2, Inr (gen + 1))"
    by (metis prod.collapse)
  then obtain s2 where ps: "persist_checkpoint adapter (writer_tail (al_writer l)) ?s1 = (s2, Inr ())"
    by (simp add: adapter_persist_def)
  obtain w' where w': "open_authenticated js adapter (al_path l) suffix w = (w', Inr (fresh_log l))"
    using audit_adapter.good_open [OF g q(1) ld, of suffix] ps by (cases "Some v = Some (writer_tail (al_writer l))") simp_all
  with audit_adapter.good_reopen [OF g q(1) w'] show ?thesis by blast
qed

lemma good_adapter_new:
  assumes g: "good_log js adapter adapter_trusts evs (w, l)"
  shows "good_log js adapter adapter_trusts evs
    (w\<lparr>w_authority := adapter_new (aa_world (w_authority w)) (aa_path (w_authority w))\<rparr>, l)"
proof -
  let ?s = "adapter_new (aa_world (w_authority w)) (aa_path (w_authority w))"
  from g obtain wk where wk: "al_worker l = Some wk" by (auto simp: good_log_def)
  have "good_log js adapter adapter_trusts evs (w\<lparr>w_authority := ?s, w_faults := w_faults w\<rparr>, l\<lparr>al_worker := Some wk, al_health := al_health l\<rparr>)"
    by (rule audit_adapter.good_authority [OF g wk])
      (auto simp: adapter_trusts_def adapter_new_def intro!: adapter_verify_same)
  moreover have "l\<lparr>al_worker := Some wk, al_health := al_health l\<rparr> = l" using wk by simp
  ultimately show ?thesis by simp
qed

lemma reconstruct_from_finds:
  assumes "\<forall>v \<in> set vs. aw_ser w v \<noteq> None" "v \<in> set vs" "aw_ser w v = Some p"
    and "verify_mac (aw_packages w) (aw_key w) d (ck_generation ck) p (ck_mac ck) = Inr ()"
  shows "\<exists>encoded. reconstruct_from w d ck vs = Inr encoded"
  using assms by (induction vs) (auto simp: is_ok_iff)

lemma verify_mac_eq:
  assumes "packages_ok pk" "verify_mac pk key d g p' (mac pk key d g p) = Inr ()"
  shows "mac pk key d g p' = mac pk key d g p"
  using assms by (auto simp: verify_mac_def mac_def packages_ok_def split: if_splits)

text \<open>An interrupted commit is rolled back to the trusted checkpoint.\<close>

lemma torn_restored:
  assumes cod: "codec_ok w" and q: "aw_faults w = []" "path_parent path \<noteq> None" "\<forall>c. aw_ser w c \<noteq> None"
    and g: "g < 2 ^ 64" "aw_ser w v = Some p" "v \<in> set vs"
    and ck: "aw_checkpoints w d = Some \<lparr>ck_generation = g, ck_mac = mac (aw_packages w) (aw_key w) d g p\<rparr>"
  shows "\<exists>w' v'. restore_checkpointed_state w path d vs = (w', Inr ()) \<and> v' \<in> set vs \<and> same_authority w w' \<and>
    aw_faults w' = [] \<and> aw_checkpoints w' = aw_checkpoints w \<and> holds_state w' path d g v'"
proof -
  have pk: "packages_ok (aw_packages w)" using cod by (simp add: codec_ok_def)
  obtain encoded where enc: "reconstruct_from w d \<lparr>ck_generation = g, ck_mac = mac (aw_packages w) (aw_key w) d g p\<rparr> vs = Inr encoded"
    using reconstruct_from_finds [of vs w v p d] g q(3) verify_mac_self [OF pk] by force
  from reconstruct_from_Ok [OF enc] obtain v' p' where v': "v' \<in> set vs" "aw_ser w v' = Some p'"
    and ver: "verify_mac (aw_packages w) (aw_key w) d g p' (mac (aw_packages w) (aw_key w) d g p) = Inr ()"
    and e: "encoded = envelope_to_json (aw_packages w) \<lparr>env_format = ENVELOPE_FORMAT, env_generation = g,
       env_payload = b64_encode (aw_packages w) p', env_mac = mac (aw_packages w) (aw_key w) d g p\<rparr>" by auto
  note same_mac = verify_mac_eq [OF pk ver]
  let ?w = "w\<lparr>aw_files := (aw_files w)(path \<mapsto> sealed_file w d g p')\<rparr>"
  have "restore_checkpointed_state w path d vs = (?w, Inr ())"
    using q(2) enc ck e same_mac
    by (auto simp: restore_checkpointed_state_def reconstruct_checkpointed_state_def checkpoint_load_def
        next_fault_quiet [OF q(1)] pop_fault_quiet [OF q(1)] no_fault_def write_private_atomic_def sealed_file_def)
  moreover have "holds_state ?w path d g v'"
    using ck v'(2) same_mac g(1) by (auto simp: holds_state_def commits_def sealed_file_def)
  ultimately show ?thesis using v'(1) q(1) by (auto simp: same_authority_def)
qed

lemma startup_recovers:
  fixes js :: "'v audit_packages"
  assumes g: "good_log js adapter adapter_trusts evs (w, l)" and c: "calm w (al_path l)"
  shows "\<exists>w'. open_authenticated_audit js (al_path l) suffix w = (w', Inr (fresh_log l)) \<and>
    good_log js adapter adapter_trusts evs (w', fresh_log l)"
proof -
  let ?path = "with_extension (al_path l) ''integrity.json''" and ?d = AUDIT_CHECKPOINT_DOMAIN
  let ?s = "adapter_new (aa_world (w_authority w)) ?path"
  let ?w = "w\<lparr>w_authority := ?s\<rparr>" and ?sw = "aa_world (w_authority w)"
  have path: "aa_path (w_authority w) = ?path" "path_parent ?path \<noteq> None" and quiet: "w_faults w = []" "aw_faults ?sw = []"
    and ser: "\<forall>c. aw_ser ?sw c \<noteq> None" using c by (auto simp: calm_def)
  have g0: "good_log js adapter adapter_trusts evs (?w, l)" using good_adapter_new [OF g] path by simp
  have c0: "calm ?w (al_path l)" using c by (simp add: calm_def adapter_new_def)
  have s: "aa_world ?s = ?sw" "aa_path ?s = ?path" by (simp_all add: adapter_new_def)
  from audit_adapter.good_candidates [OF g0] quiet obtain xs :: "('v \<times> audit_checkpoint) list" where
    cand: "verified_audit_checkpoints js adapter (al_path l) ?w = (?w, Inr (genesis_checkpoint # map snd xs))"
    and t: "adapter_trusts ?s (prefix_tail xs)"
    and re: "\<And>s'. adapter_trusts s' (prefix_tail xs) \<Longrightarrow> adapter_verify s' = adapter_verify ?s \<Longrightarrow>
       good_log js adapter adapter_trusts evs (?w\<lparr>w_authority := s'\<rparr>, l)" by auto
  from t obtain gen v p where v: "1 \<le> gen" "gen < 2 ^ 64" "prefix_tail xs v" "aw_ser ?sw v = Some p"
    "aw_checkpoints ?sw ?d = Some \<lparr>ck_generation = gen, ck_mac = mac (aw_packages ?sw) (aw_key ?sw) ?d gen p\<rparr>"
    "checkpoint_file ?sw ?path gen p" and cod: "codec_ok ?sw"
    by (auto simp: adapter_trusts_def s)
  show ?thesis
  proof (cases "aw_files ?sw ?path = Some (sealed_file ?sw ?d gen p)")
    case True
    then have st: "settled ?sw ?path gen v" using v cod by (auto simp: settled_def holds_state_def commits_def)
    have "open_authenticated_audit js (al_path l) suffix w = open_authenticated js adapter (al_path l) suffix ?w"
      using settled_load [OF st quiet(2)] by (simp add: open_authenticated_audit_def Let_def adapter_new_def)
    with settled_open [OF g0 c0, of gen v suffix] st s show ?thesis by simp
  next
    case False
    with v(6) obtain p' where f: "aw_files ?sw ?path = Some (sealed_file ?sw ?d (gen + 1) p')" by (auto simp: checkpoint_file_def)
    have "snd (state_load ?sw ?path ?d) = Inl (AheadOfCheckpoint ?d gen (gen + 1))"
      using load_ahead [OF _ v(5) _ f] cod quiet(2) by (simp add: codec_ok_def next_fault_quiet no_fault_def)
    then have ahead: "state_load ?sw ?path ?d = (?sw, Inl (AheadOfCheckpoint ?d gen (gen + 1)))"
      using state_load_world [of ?sw ?path ?d] quiet(2) by (simp add: prod_eq_iff pop_fault_quiet)
    have "v \<in> set (genesis_checkpoint # map snd xs)" using v(3) by (simp add: prefix_tail_def)
    from torn_restored [OF cod quiet(2) path(2) ser v(2,4) this v(5)] obtain w' v' where
      r: "restore_checkpointed_state ?sw ?path ?d (genesis_checkpoint # map snd xs) = (w', Inr ())"
      and v': "v' \<in> set (genesis_checkpoint # map snd xs)" and same: "same_authority ?sw w'" "aw_faults w' = []"
      "aw_checkpoints w' = aw_checkpoints ?sw" and h: "holds_state w' ?path ?d gen v'" by blast
    let ?s' = "?s\<lparr>aa_world := w'\<rparr>"
    have eq: "open_authenticated_audit js (al_path l) suffix w = open_authenticated js adapter (al_path l) suffix (?w\<lparr>w_authority := ?s'\<rparr>)"
      using ahead cand r by (simp add: open_authenticated_audit_def Let_def adapter_new_def io_bind_def)
    have cod': "codec_ok w'" by (rule codec_ok_same [OF same(1) cod])
    have t': "adapter_trusts ?s' (prefix_tail xs)"
      using h v' v(1,2) cod' unfolding adapter_trusts_def checkpoint_file_def
      by (auto simp: holds_state_def commits_def adapter_new_def prefix_tail_def intro!: exI [of _ gen] exI [of _ v'])
    have "good_log js adapter adapter_trusts evs (?w\<lparr>w_authority := ?s'\<rparr>, l)"
      by (rule re [OF t']) (simp add: adapter_verify_same s same(1))
    moreover have "calm (?w\<lparr>w_authority := ?s'\<rparr>) (al_path l)"
      using c same by (simp add: calm_def adapter_new_def same_authority_def trusted_generation_def)
    moreover have "settled w' ?path gen v'" using cod' h by (simp add: settled_def)
    ultimately show ?thesis
      using settled_open [of js evs "?w\<lparr>w_authority := ?s'\<rparr>" l gen v' suffix] eq by (simp add: adapter_new_def)
  qed
qed

end
