(* ===== verification/Audit_Properties.thy ===== *)
theory Audit_Properties
  imports Audit_Authority
begin

text \<open>
  The properties of the audit log of the daemon, with a concrete run for their witnesses: events are numbers,
  the encodings are unary, the authority is the daemon's own.
\<close>

section \<open>Success in a calm environment\<close>

lemma created_quiet:
  assumes q: "w_faults w = []" "w_dir w path = None"
    and ld: "load_checkpoint a (w_authority w) = (s, Inr x)" "x \<noteq> Some genesis_checkpoint"
    and ps: "persist_checkpoint a genesis_checkpoint s = (s', Inr ())"
  shows "\<exists>w' l. open_authenticated js a path suffix w = (w', Inr l) \<and> w_authority w' = s' \<and> w_faults w' = [] \<and>
    al_path l = path \<and> wr_sequence (al_writer l) = 0 \<and> wr_head (al_writer l) = GENESIS_HASH \<and> al_health l = None"
proof -
  let ?w = "w\<lparr>w_authority := s\<rparr>"
  have mk: "(case path_parent path of Some _ \<Rightarrow> syscall ''mkdir'' | None \<Rightarrow> io_return ()) w = (w, Inr ())"
    by (simp add: syscall_quiet [OF q(1)] split: option.splits)
  have al: "authority_load a w = (?w, Inr x)" by (simp add: authority_load_def ld(1))
  have ex: "path_exists path ?w = (?w, Inr False)" using q by (simp add: path_exists_absent)
  then have qu: "quarantine_legacy (Some a) path suffix x ?w = (?w, Inr ())"
    by (simp add: quarantine_legacy_def io_bind_def)
  let ?n = "\<lparr>nd_bytes = [], nd_mode = 384, nd_ctime = fst (w_now w), nd_ctime_nsec = snd (w_now w)\<rparr>"
  let ?i = "w_next_ino w"
  let ?w1 = "w\<lparr>w_authority := s'\<rparr>"
  let ?w2 = "?w1\<lparr>w_dir := (w_dir w)(path \<mapsto> RegularFile ?i), w_nodes := (w_nodes w)(?i \<mapsto> ?n), w_next_ino := Suc ?i\<rparr>"
  have op: "open_private_append path ?w1 = (?w2, Inr ?i)"
    using q by (simp add: open_private_append_def io_bind_def path_exists_absent open_or_create_def syscall_quiet Let_def)
  have dm: "descriptor_metadata ?i ?w2 = (?w2, Inr \<lparr>md_regular = True, md_symlink = False, md_mode = 384,
      md_stamp = node_stamp ?w2 ?i ?n\<rparr>)"
    using q descriptor_metadata_quiet [of ?w2 ?i ?n] by simp
  show ?thesis
    using ld(2) q ps
    by (simp add: open_authenticated_def open_with_authority_def io_bind_def mk al qu ex authority_persist_def op dm
        genesis_checkpoint_def)
qed

lemma good_write_quiet:
  assumes g: "good_log js a trusts evs (w, l)" and q: "w_faults w = []" "al_health l = None"
    and v: "js_event js ev = Some v" and s: "seal_row js (Some a) (w_authority w) (al_writer l) v = Inr (line, c)"
  shows "\<exists>w' l'. write_row js (Some a) ev (w, l) = ((w', l'), Inr ()) \<and> w_faults w' = [] \<and>
    w_authority w' = w_authority w \<and> al_path l' = al_path l \<and> al_health l' = None \<and>
    w' = append_bytes (wr_ino (al_writer l)) line w \<and>
    (\<exists>n. w_nodes w (wr_ino (al_writer l)) = Some n \<and>
       w_nodes w' (wr_ino (al_writer l')) = Some (n\<lparr>nd_bytes := nd_bytes n @ line, nd_ctime := fst (w_now w),
         nd_ctime_nsec := snd (w_now w)\<rparr>))"
proof -
  let ?wr = "al_writer l"
  from g obtain ls xs n where rows: "length (encode_rows ls) < 2 ^ 64" "wr_buffer ?wr = []"
    and dir: "w_dir w (al_path l) = Some (RegularFile (wr_ino ?wr))"
    and n: "w_nodes w (wr_ino ?wr) = Some n" "nd_bytes n = encode_rows ls" "wr_stamp ?wr = node_stamp w (wr_ino ?wr) n"
    and xs: "chain js (Some a) (w_authority w) genesis_checkpoint ls = Some xs"
    and tl: "tail_of genesis_checkpoint xs = writer_tail ?wr"
    by (auto simp: good_log_def holds_rows_def)
  have sz: "wr_file_size ?wr = length (nd_bytes n)"
    using chain_size [OF xs] rows(1) n(2) tl by (simp add: genesis_checkpoint_def writer_tail_def)
  have val: "validate_writer_file (w, l) = ((w, l), Inr ())"
    using n(3) sz
    by (simp add: validate_writer_file_def Let_def io_bind_def on_world_def descriptor_metadata_quiet [OF q(1) n(1)]
        symlink_metadata_quiet [OF q(1) dir n(1)] node_stamp_def)
  have "check_health (w, l) = ((w, l), Inr ())" using q(2) by (simp add: check_health_def)
  moreover have "line \<noteq> []" using s by (auto simp: seal_row_def and_then_eq_Inr)
  moreover have "w_faults (append_bytes i line w) = []" for i using q(1) by (simp add: append_bytes_def split: option.splits)
  ultimately show ?thesis
    using v s val rows(2) n(1) q
    by (simp add: write_row_def io_bind_def degrading_def push_bytes_def Let_def next_io_quiet [OF q(1)] advance_tail_def
        set_writer_def restamp_def on_world_def descriptor_metadata_quiet [where n = "n\<lparr>nd_bytes := nd_bytes n @ line,
          nd_ctime := fst (w_now w), nd_ctime_nsec := snd (w_now w)\<rparr>"] append_bytes_def)
qed

section \<open>A concrete run\<close>

text \<open>A concrete encoding for the witnesses: events are numbers, odd ones are accesses, and rows are shifted
  past the newline.\<close>

definition example_access :: "nat \<Rightarrow> access_record" where
  "example_access v = \<lparr>ar_ts = [], ar_event = ''open'', ar_path = replicate v (CHR ''p''), ar_operation = ''read'',
     ar_decision = ''allowed'', ar_rule_id = None, ar_policy = None, ar_identity = bare 1 2 3,
     ar_surface_id = None, ar_resource_id = None, ar_key_fingerprint = None, ar_key_label = None,
     ar_identity_source = None, ar_ssh_session = None\<rparr>"

definition example_parse :: "bytes \<Rightarrow> nat audit_envelope option" where
  "example_parse row =
     (case map (\<lambda>b. b - 11) row of
        f # s # v # k # rest \<Rightarrow>
          Some \<lparr>ae_format = f, ae_sequence = s, ae_previous = map char_of (take k rest), ae_event = v,
            ae_tag = map char_of (drop k rest)\<rparr>
      | _ \<Rightarrow> None)"

definition example_json :: "nat audit_packages" where
  "example_json = \<lparr>
     js_event = (\<lambda>ev. case ev of CloseEvent e \<Rightarrow> Some (2 * ce_fh e) | OpenEvent e \<Rightarrow> Some (2 * oe_fh e + 1) | _ \<Rightarrow> None),
     js_record = (\<lambda>v. if odd v then Some (example_access v) else None),
     js_payload = (\<lambda>(f, s, p, v). Some ([f, s, v] @ map of_char p)),
     js_envelope = (\<lambda>e. Some (map (\<lambda>b. b + 11) ([ae_format e, ae_sequence e, ae_event e, length (ae_previous e)]
        @ map of_char (ae_previous e) @ map of_char (ae_tag e)))),
     js_parse_envelope = example_parse,
     js_parse_value = (\<lambda>_. None),
     sha256_digest = id\<rparr>"

lemma example_payload_ok [simp]: "payload_ok example_json"
proof -
  have "map (of_char :: char \<Rightarrow> nat) p = map of_char p' \<Longrightarrow> p = p'" for p p' :: string
    by (simp add: inj_map_eq_map inj_of_char)
  then show ?thesis by (auto simp: payload_ok_def example_json_def)
qed

lemma example_json_ok [simp]: "json_ok example_json"
  unfolding json_ok_def
  by (rule conjI [OF example_payload_ok]) (auto simp: example_json_def example_parse_def comp_def)

definition example_checkpoints :: "audit_checkpoint auth_world" where
  "example_checkpoints =
     \<lparr>aw_packages = example_packages, aw_key = [7],
      aw_ser = (\<lambda>c. Some (acp_sequence c # acp_file_size c # map of_char (acp_head c))),
      aw_de = (\<lambda>b. case b of s # n # h \<Rightarrow> Some \<lparr>acp_sequence = s, acp_head = map char_of h, acp_file_size = n\<rparr> | _ \<Rightarrow> None),
      aw_files = (\<lambda>_. None), aw_checkpoints = (\<lambda>_. None), aw_faults = []\<rparr>"

definition example_start :: "audit_adapter audit_world" where
  "example_start = \<lparr>w_dir = (\<lambda>_. None), w_nodes = (\<lambda>_. None), w_device = 0, w_next_ino = 7, w_now = (0, 0),
     w_faults = [], w_authority = adapter_new example_checkpoints (with_extension ''/l'' ''integrity.json'')\<rparr>"

definition example_event :: audit_event where
  "example_event = OpenEvent \<lparr>oe_ts = [], oe_event = ''open'', oe_path = ''p'', oe_operation = ''read'',
     oe_decision = ''allowed'', oe_rule_id = None, oe_policy = None, oe_request = request_info_of (bare 1 2 3),
     oe_identity = bare 1 2 3, oe_content_version = [], oe_fh = 3, oe_size = 0, oe_dependencies = None\<rparr>"

lemma example_checkpoints_codec: "codec_ok example_checkpoints"
  by (auto simp: codec_ok_def packages_ok_def example_checkpoints_def example_packages_def comp_def)

lemma example_path: "path_parent (with_extension ''/l'' ''integrity.json'') \<noteq> None"
  by code_simp

lemma example_created:
  "\<exists>w l. open_authenticated example_json adapter ''/l'' ''x'' example_start = (w, Inr l) \<and> calm w ''/l'' \<and> al_path l = ''/l'' \<and>
     al_health l = None \<and> wr_sequence (al_writer l) = 0 \<and> wr_head (al_writer l) = GENESIS_HASH \<and>
     aw_packages (aa_world (w_authority w)) = example_packages \<and> aw_key (aa_world (w_authority w)) = [7]"
proof -
  let ?p = "with_extension ''/l'' ''integrity.json''" and ?d = AUDIT_CHECKPOINT_DOMAIN
  let ?s = "\<lparr>aa_world = example_checkpoints, aa_path = ?p, aa_generation = Some 0\<rparr>"
  have q: "aw_faults example_checkpoints = []" by (simp add: example_checkpoints_def)
  have ld: "load_checkpoint adapter (w_authority example_start) = (?s, Inr None)"
    by (simp add: adapter_load_def example_start_def adapter_new_def state_load_def Let_def checkpoint_load_def
        next_fault_quiet [OF q] pop_fault_quiet [OF q] no_fault_def) (simp add: example_checkpoints_def)
  obtain payload where pl: "aw_ser example_checkpoints genesis_checkpoint = Some payload"
    by (simp add: example_checkpoints_def)
  have tg: "trusted_generation example_checkpoints ?d = 0" by (simp add: trusted_generation_def example_checkpoints_def)
  from state_persist_quiet [OF q example_path _ _ pl, of ?d 0] tg obtain sw where
    sp: "state_persist example_checkpoints ?p ?d 0 genesis_checkpoint = (sw, Inr 1)" and f: "aw_faults sw = []"
    by (cases "state_persist example_checkpoints ?p ?d 0 genesis_checkpoint") auto
  let ?s' = "\<lparr>aa_world = sw, aa_path = ?p, aa_generation = Some 1\<rparr>"
  have ps: "persist_checkpoint adapter genesis_checkpoint ?s = (?s', Inr ())" using sp by (simp add: adapter_persist_def)
  have same: "same_authority example_checkpoints sw" and h: "holds_state sw ?p ?d 1 genesis_checkpoint"
    using state_persist_holds [OF sp] by simp_all
  have t: "trusted_generation sw ?d = 1" using h by (auto simp: holds_state_def commits_def trusted_generation_def)
  from created_quiet [OF _ _ ld _ ps, of "''/l''" example_json "''x''"] obtain w l where
    w: "open_authenticated example_json adapter ''/l'' ''x'' example_start = (w, Inr l)" "w_authority w = ?s'" "w_faults w = []"
       "al_path l = ''/l''" "wr_sequence (al_writer l) = 0" "wr_head (al_writer l) = GENESIS_HASH" "al_health l = None"
    by (auto simp: example_start_def)
  have "calm w ''/l''"
    using w same f t example_path by (simp add: calm_def same_authority_def example_checkpoints_def)
  with w same show ?thesis by (auto simp: same_authority_def example_checkpoints_def)
qed

lemma length_unary: "length (unary_encode b) = sum_list b + length b"
  by (induction b) (simp_all add: unary_encode_def)

lemma example_run:
  "\<exists>w l. audit_run example_json adapter adapter_sound ([7], (w, l)) \<and> al_health l = None \<and> calm w ''/l'' \<and> al_path l = ''/l'' \<and>
     aw_packages (aa_world (w_authority w)) = example_packages"
proof -
  from example_created obtain w l where w: "open_authenticated example_json adapter ''/l'' ''x'' example_start = (w, Inr l)"
    "calm w ''/l''" "al_path l = ''/l''" "al_health l = None" "wr_sequence (al_writer l) = 0"
    "aw_packages (aa_world (w_authority w)) = example_packages" "wr_head (al_writer l) = GENESIS_HASH"
    "aw_key (aa_world (w_authority w)) = [7]" by blast
  have q: "aw_faults example_checkpoints = []" by (simp add: example_checkpoints_def)
  have ld: "load_checkpoint adapter (w_authority example_start) =
      (\<lparr>aa_world = example_checkpoints, aa_path = with_extension ''/l'' ''integrity.json'', aa_generation = Some 0\<rparr>, Inr None)"
    by (simp add: adapter_load_def example_start_def adapter_new_def state_load_def Let_def checkpoint_load_def
        next_fault_quiet [OF q] pop_fault_quiet [OF q] no_fault_def) (simp add: example_checkpoints_def)
  have sd: "adapter_sound (w_authority example_start)"
    using example_checkpoints_codec by (simp add: adapter_sound_def example_start_def adapter_new_def)
  have run: "audit_run example_json adapter adapter_sound ([], (w, l))"
    by (rule audit_run.created [where sound = adapter_sound, OF sd _ _ ld w(1)]) (simp_all add: example_start_def)
  have g: "good_log example_json adapter adapter_trusts [] (w, l)"
    using audit_adapter.run_good [OF run] w(4) by simp
  have ev: "js_event example_json example_event = Some 7" by (simp add: example_json_def example_event_def)
  obtain line c where s: "seal_row example_json (Some adapter) (w_authority w) (al_writer l) 7 = Inr (line, c)"
    using w(5) by (simp add: seal_row_def checked_add_u64_def chain_payload_def example_json_def make_tag_def
        adapter_authenticate_def)
  from good_write_quiet [OF g _ w(4) ev s] w(2) obtain w' l' n where
    wr: "write_row example_json (Some adapter) example_event (w, l) = ((w', l'), Inr ())" "w_faults w' = []"
      "w_authority w' = w_authority w" "al_path l' = al_path l" "al_health l' = None"
    and n: "w_nodes w (wr_ino (al_writer l)) = Some n"
      "w_nodes w' (wr_ino (al_writer l')) = Some (n\<lparr>nd_bytes := nd_bytes n @ line, nd_ctime := fst (w_now w),
         nd_ctime_nsec := snd (w_now w)\<rparr>)"
    by (auto simp: calm_def)
  have "nd_bytes n = []" using g n(1) by (auto simp: good_log_def holds_rows_def dest!: chain_length)
  moreover have "length line < 2 ^ 64" 
    using s w(5-8) by (auto simp: seal_row_def checked_add_u64_def chain_payload_def example_json_def make_tag_def
        adapter_authenticate_def authenticate_detached_def example_packages_def detached_message_def length_unary
        str_bytes_def be_bytes_def AUDIT_EVENT_DOMAIN_def AUDIT_FORMAT_def GENESIS_HASH_def)
  ultimately have "file_fits (w', l')" using n(2) by (simp add: file_fits_def)
  then have "audit_step example_json adapter ([], (w, l)) ([] @ [7], (w', l'))" by (rule audit_step.wrote [OF wr(1) ev])
  with run have "audit_run example_json adapter adapter_sound ([7], (w', l'))" using audit_run.stepped by fastforce
  moreover have "calm w' ''/l''" using w(2) wr by (simp add: calm_def)
  ultimately show ?thesis using w(3,6) wr by (intro exI [of _ w'] exI [of _ l']) simp
qed

section \<open>Properties\<close>

lemma good_events:
  assumes "good_log js a trusts evs (w, l)"
  shows "\<exists>n. w_dir w (al_path l) = Some (RegularFile (wr_ino (al_writer l))) \<and>
    w_nodes w (wr_ino (al_writer l)) = Some n \<and> logged_events js (nd_bytes n) = evs"
  using assms by (auto simp: good_log_def holds_rows_def logged_events_def file_rows_encode chain_events)

subsection \<open>Dying in the middle\<close>

text \<open>The checkpoints a worker may be persisting: the current tail, the pending one or a queued one.\<close>

definition checkpoint_under_way :: "audit_log \<Rightarrow> audit_checkpoint \<Rightarrow> bool" where
  "checkpoint_under_way l c \<longleftrightarrow> c = writer_tail (al_writer l) \<or>
     (\<exists>wk. al_worker l = Some wk \<and> (wk_pending wk = Some c \<or> Update c \<in> set (wk_queue wk) \<or> Flush c \<in> set (wk_queue wk)))"

definition with_plan :: "call_fault list \<Rightarrow> audit_adapter \<Rightarrow> audit_adapter" where
  "with_plan fs s = s\<lparr>aa_world := (aa_world s)\<lparr>aw_faults := fs\<rparr>\<rparr>"

text \<open>What the authority is when the process dies: as it was, or wherever persisting such a checkpoint stopped.\<close>

definition authority_at_death :: "audit_adapter \<Rightarrow> audit_log \<Rightarrow> audit_adapter \<Rightarrow> bool" where
  "authority_at_death s l s' \<longleftrightarrow>
     s' = s \<or> (\<exists>c fs. checkpoint_under_way l c \<and> s' = fst (persist_checkpoint adapter c (with_plan fs s)))"

definition holds_events :: "'v audit_packages \<Rightarrow> 's audit_world \<Rightarrow> string \<Rightarrow> 'v list \<Rightarrow> bool" where
  "holds_events js w path evs \<longleftrightarrow>
     (\<exists>i n. w_dir w path = Some (RegularFile i) \<and> w_nodes w i = Some n \<and> logged_events js (nd_bytes n) = evs)"

lemma good_holds_events: "good_log js a trusts evs (w, l) \<Longrightarrow> holds_events js w (al_path l) evs"
  using good_events unfolding holds_events_def by blast

lemma adapter_persist_same: "same_authority (aa_world s) (aa_world (fst (adapter_persist c s)))"
  using state_persist_same [of "aa_world s" "aa_path s" AUDIT_CHECKPOINT_DOMAIN _ c]
  by (auto simp: adapter_persist_def split: option.splits prod.splits sum.splits) (metis fst_conv)+

lemma with_plan_kept:
  "adapter_trusts (with_plan fs s) Q = adapter_trusts s Q" "same_authority (aa_world s) (aa_world (with_plan fs s))"
  by (simp_all add: with_plan_def adapter_trusts_def codec_ok_def checkpoint_file_def sealed_file_def same_authority_def)

lemma under_way_within:
  "checkpoint_under_way l c \<Longrightarrow> al_worker l = Some wk \<Longrightarrow> worker_within Q wk \<Longrightarrow> Q (writer_tail (al_writer l)) \<Longrightarrow> Q c"
  by (auto simp: checkpoint_under_way_def worker_within_def)

lemma death_keeps:
  assumes "authority_at_death s l s'" and "al_worker l = Some wk" "worker_within Q wk" "Q (writer_tail (al_writer l))"
    and "adapter_trusts s Q"
  shows "adapter_trusts (with_plan fs s') Q \<and> same_authority (aa_world s) (aa_world (with_plan fs s'))"
proof -
  have "adapter_trusts s' Q \<and> same_authority (aa_world s) (aa_world s')"
  proof (cases "s' = s")
    case False
    with assms(1) obtain c fs where c: "checkpoint_under_way l c" and s': "s' = fst (adapter_persist c (with_plan fs s))"
      by (auto simp: authority_at_death_def)
    have t: "adapter_trusts (with_plan fs s) Q" using assms(5) by (simp only: with_plan_kept(1))
    have "adapter_trusts s' Q"
      using adapter_persist_keeps [OF t under_way_within [OF c assms(2-4)] surjective_pairing] s' by blast
    moreover have "same_authority (aa_world s) (aa_world s')"
      using same_authority_trans [OF with_plan_kept(2) adapter_persist_same] s' by simp
    ultimately show ?thesis by blast
  qed (use assms in simp)
  then show ?thesis using same_authority_trans [OF _ with_plan_kept(2)] by (auto simp: with_plan_kept(1))
qed

lemma good_at_death:
  assumes g: "good_log js adapter adapter_trusts evs (w, l)" and d: "authority_at_death (w_authority w) l s'"
  shows "good_log js adapter adapter_trusts evs (w\<lparr>w_authority := with_plan [] s', w_faults := []\<rparr>, l)"
proof -
  from g obtain wk where wk: "al_worker l = Some wk" by (auto simp: good_log_def)
  have "good_log js adapter adapter_trusts evs
      (w\<lparr>w_authority := with_plan [] s', w_faults := []\<rparr>, l\<lparr>al_worker := Some wk, al_health := al_health l\<rparr>)"
  proof (rule audit_adapter.good_authority [OF g wk])
    fix Q assume "adapter_trusts (w_authority w) Q" "worker_within Q wk" "Q (writer_tail (al_writer l))"
    with death_keeps [OF d wk, of Q "[]"] show
      "adapter_trusts (with_plan [] s') Q \<and> verify adapter (with_plan [] s') = verify adapter (w_authority w) \<and> worker_within Q wk"
      by (simp add: adapter_verify_same)
  qed
  moreover have "l\<lparr>al_worker := Some wk, al_health := al_health l\<rparr> = l" using wk by simp
  ultimately show ?thesis by simp
qed

lemma authority_at_death_same:
  assumes "authority_at_death s l s'"
  shows "same_authority (aa_world s) (aa_world (with_plan fs s'))"
proof -
  have "same_authority (aa_world s) (aa_world s')"
    using assms same_authority_trans [OF with_plan_kept(2) adapter_persist_same] by (auto simp: authority_at_death_def)
  then show ?thesis using same_authority_trans [OF _ with_plan_kept(2)] by blast
qed

lemma seal_row_same:
  assumes "same_authority (aa_world s) (aa_world s')"
  shows "seal_row js (Some adapter) s' wr v = seal_row js (Some adapter) s wr v"
proof -
  have "make_tag js (Some adapter) s' p = make_tag js (Some adapter) s p" for p
    using assms by (simp add: make_tag_def adapter_authenticate_def same_authority_def)
  then show ?thesis by (simp add: seal_row_def)
qed

lemma seal_row_line:
  assumes "json_ok js" "js_event js ev = Some v" "seal_row js authority s wr v = Inr (line, c)"
  shows "\<exists>row. line = row @ [10] \<and> row \<noteq> [] \<and> 10 \<notin> set row"
proof -
  from assms(3) obtain sequence tag row where row: "line = row @ [10]"
    "js_envelope js \<lparr>ae_format = AUDIT_FORMAT, ae_sequence = sequence, ae_previous = wr_head wr, ae_event = v, ae_tag = tag\<rparr> = Some row"
    (is "js_envelope js ?e = _")
    by (auto simp: seal_row_def and_then_eq_Inr ok_or_def split: option.splits)
  moreover have "ae_event ?e = v" by simp
  ultimately show ?thesis using assms(1,2) unfolding json_ok_def by blast
qed

subsubsection \<open>A torn row\<close>

lemma rows_torn: "row_lines ls \<Longrightarrow> part \<noteq> [] \<Longrightarrow> 10 \<notin> set part \<Longrightarrow> rows (encode_rows ls @ part) = ls @ [part]"
proof (induction ls)
  case Nil
  then show ?case
  proof (induction part)
    case (Cons b bs)
    then show ?case by (cases "bs = []") auto
  qed simp
next
  case (Cons l ls)
  then show ?case by (simp add: encode_rows_def row_lines_def rows_line)
qed

lemma torn_unverified:
  assumes "row_lines ls" "part \<noteq> []" "10 \<notin> set part" "length (encode_rows ls @ part) + 1 < 2 ^ 64"
  shows "\<not> is_ok (verify_contents js authority s required limit fails (length (encode_rows ls @ part)) (encode_rows ls @ part))"
proof
  let ?bs = "encode_rows ls @ part"
  assume "is_ok (verify_contents js authority s required limit fails (length ?bs) ?bs)"
  then obtain tp rs ps where "verify_contents js authority s required limit fails (length ?bs) ?bs = Inr (tp, rs, ps)"
    by (auto simp: is_ok_iff)
  moreover have "file_rows ?bs = ls @ [part]"
    using rows_torn [OF assms(1-3)] assms(1,2) by (simp add: file_rows_def row_lines_def filter_id_conv)
  ultimately obtain xs where xs: "chain js authority s genesis_checkpoint (ls @ [part]) = Some xs"
    and size: "acp_file_size (tail_of genesis_checkpoint xs) = length ?bs"
    unfolding verify_contents_spec by auto
  from chain_size [OF xs] assms(4) size show False by (simp add: genesis_checkpoint_def)
qed

lemma candidates_verified:
  assumes "w_faults w = []" "w_dir w path = Some (RegularFile i)" "w_nodes w i = Some n"
    and "verified_audit_checkpoints js a path w = (w', Inr cs)"
  shows "is_ok (verify_contents js (Some a) (w_authority w) None 0 None (length (nd_bytes n)) (nd_bytes n))"
  using assms(4)
  by (auto simp: verified_audit_checkpoints_def io_bind_Inr open_private_audit_read_quiet [OF assms(1-3)]
      descriptor_metadata_quiet [OF assms(1,3)] read_verified_quiet [OF assms(1,3)] is_ok_iff split: if_splits)

lemma trusted_state_load:
  assumes t: "adapter_trusts s Q" and q: "aw_faults (aa_world s) = []"
  shows "(\<exists>v g. state_load (aa_world s) (aa_path s) AUDIT_CHECKPOINT_DOMAIN =
      (aa_world s, Inr \<lparr>ls_value = Some v, ls_generation = g\<rparr>)) \<or>
    (\<exists>d g g'. state_load (aa_world s) (aa_path s) AUDIT_CHECKPOINT_DOMAIN = (aa_world s, Inl (AheadOfCheckpoint d g g')))"
proof -
  let ?sw = "aa_world s" and ?d = AUDIT_CHECKPOINT_DOMAIN
  from t obtain gen v p where v: "gen < 2 ^ 64" "aw_ser ?sw v = Some p"
    "aw_checkpoints ?sw ?d = Some \<lparr>ck_generation = gen, ck_mac = mac (aw_packages ?sw) (aw_key ?sw) ?d gen p\<rparr>"
    "checkpoint_file ?sw (aa_path s) gen p" and cod: "codec_ok ?sw" by (auto simp: adapter_trusts_def)
  show ?thesis
  proof (cases "aw_files ?sw (aa_path s) = Some (sealed_file ?sw ?d gen p)")
    case True
    then have "settled ?sw (aa_path s) gen v" using v cod by (auto simp: settled_def holds_state_def commits_def)
    from settled_load [OF this q] show ?thesis by blast
  next
    case False
    with v(4) obtain p' where f: "aw_files ?sw (aa_path s) = Some (sealed_file ?sw ?d (gen + 1) p')"
      by (auto simp: checkpoint_file_def)
    have "snd (state_load ?sw (aa_path s) ?d) = Inl (AheadOfCheckpoint ?d gen (gen + 1))"
      using load_ahead [OF _ v(3) _ f] cod q by (simp add: codec_ok_def next_fault_quiet no_fault_def)
    then have "state_load ?sw (aa_path s) ?d = (?sw, Inl (AheadOfCheckpoint ?d gen (gen + 1)))"
      using state_load_world [of ?sw "aa_path s" ?d] q by (simp add: prod_eq_iff pop_fault_quiet)
    then show ?thesis by blast
  qed
qed

text \<open>Startup verifies the whole file, so one that cannot verify stops it.\<close>

lemma unverified_startup:
  assumes t: "adapter_trusts (w_authority w) Q" and c: "calm w path"
    and d: "w_dir w path = Some (RegularFile i)" and n: "w_nodes w i = Some n"
    and bad: "\<And>s required. \<not> is_ok (verify_contents js (Some adapter) s required 0 None (length (nd_bytes n)) (nd_bytes n))"
  shows "\<not> is_ok (snd (open_authenticated_audit js path suffix w))"
proof
  let ?p = "with_extension path ''integrity.json''" and ?d = AUDIT_CHECKPOINT_DOMAIN
  let ?sw = "aa_world (w_authority w)"
  let ?w = "w\<lparr>w_authority := adapter_new ?sw ?p\<rparr>"
  assume "is_ok (snd (open_authenticated_audit js path suffix w))"
  then obtain w' log where ok: "open_authenticated_audit js path suffix w = (w', Inr log)"
    by (metis is_ok_iff prod.collapse)
  have q: "w_faults w = []" "aw_faults ?sw = []" "aa_path (w_authority w) = ?p" using c by (simp_all add: calm_def)
  have w: "w_faults ?w = []" "w_dir ?w path = Some (RegularFile i)" "w_nodes ?w i = Some n" using q d n by simp_all
  have aw: "(adapter_new ?sw ?p)\<lparr>aa_world := ?sw\<rparr> = adapter_new ?sw ?p" "aa_world (adapter_new ?sw ?p) = ?sw"
    by (simp_all add: adapter_new_def)
  from trusted_state_load [OF t q(2)] q(3) consider
      (loads) v g where "state_load ?sw ?p ?d = (?sw, Inr \<lparr>ls_value = Some v, ls_generation = g\<rparr>)"
    | (ahead) x g g' where "state_load ?sw ?p ?d = (?sw, Inl (AheadOfCheckpoint x g g'))" by auto
  then show False
  proof cases
    case (loads v g)
    have op: "open_authenticated js adapter path suffix ?w = (w', Inr log)"
      using ok loads by (simp add: open_authenticated_audit_def Let_def aw)
    obtain s where "load_checkpoint adapter (w_authority ?w) = (s, Inr (Some v))"
      using loads by (simp add: adapter_load_def adapter_new_def)
    from open_existing_log [OF w this op] bad show False by (auto simp: is_ok_iff)
  next
    case (ahead x g g')
    then obtain w1 cs where "verified_audit_checkpoints js adapter path ?w = (w1, Inr cs)"
      using ok by (auto simp: open_authenticated_audit_def Let_def aw io_bind_Inr)
    from candidates_verified [OF w this] bad show False by blast
  qed
qed

lemma append_kept:
  "w_faults (append_bytes i bs w) = w_faults w" "w_dir (append_bytes i bs w) = w_dir w"
  "w_authority (append_bytes i bs w) = w_authority w" "calm (append_bytes i bs w) path = calm w path"
  by (simp_all add: append_bytes_def calm_def split: option.splits)

lemma torn_startup:
  fixes js :: "'v audit_packages"
  assumes g: "good_log js adapter adapter_trusts evs (w, l)" and c: "calm w (al_path l)"
    and part: "part \<noteq> []" "10 \<notin> set part"
    and fits: "\<And>n. w_nodes w (wr_ino (al_writer l)) = Some n \<Longrightarrow> length (nd_bytes n) + length part + 1 < 2 ^ 64"
  shows "\<not> is_ok (snd (open_authenticated_audit js (al_path l) suffix (append_bytes (wr_ino (al_writer l)) part w)))"
proof -
  let ?i = "wr_ino (al_writer l)"
  from g obtain ls n and xs :: "('v \<times> audit_checkpoint) list" where rows: "row_lines ls"
    and dir: "w_dir w (al_path l) = Some (RegularFile ?i)"
    and n: "w_nodes w ?i = Some n" "nd_bytes n = encode_rows ls" and t: "adapter_trusts (w_authority w) (prefix_tail xs)"
    by (auto simp: good_log_def holds_rows_def)
  let ?n = "n\<lparr>nd_bytes := encode_rows ls @ part, nd_ctime := fst (w_now w), nd_ctime_nsec := snd (w_now w)\<rparr>"
  have torn: "w_nodes (append_bytes ?i part w) ?i = Some ?n" using n by (simp add: append_bytes_def)
  show ?thesis
    by (rule unverified_startup [OF _ _ _ torn, of "prefix_tail xs" "al_path l"])
      (use t c dir torn_unverified [OF rows part] fits [OF n(1)] n(2) in \<open>simp_all add: append_kept\<close>)
qed

text \<open>A whole row that reached the file counts, even if nothing else of the write happened.\<close>

lemma whole_row_startup:
  fixes js :: "'v audit_packages"
  assumes g: "good_log js adapter adapter_trusts evs (w, l)" and c: "calm w (al_path l)" and h: "al_health l = None"
    and js: "json_ok js" "js_event js ev = Some v"
    and s: "seal_row js (Some adapter) (w_authority w) (al_writer l) v = Inr (line, tp)"
    and fits: "\<And>n. w_nodes w (wr_ino (al_writer l)) = Some n \<Longrightarrow> length (nd_bytes n) + length line < 2 ^ 64"
  shows "\<exists>w' l'. open_authenticated_audit js (al_path l) suffix (append_bytes (wr_ino (al_writer l)) line w) = (w', Inr l') \<and>
    al_path l' = al_path l \<and> holds_events js w' (al_path l) (evs @ [v])"
proof -
  from good_write_quiet [OF g _ h js(2) s] c obtain w1 l1 n where
    wr: "write_row js (Some adapter) ev (w, l) = ((w1, l1), Inr ())" and l1: "al_path l1 = al_path l"
    and w1: "w1 = append_bytes (wr_ino (al_writer l)) line w"
    and n: "w_nodes w (wr_ino (al_writer l)) = Some n"
      "w_nodes w1 (wr_ino (al_writer l1)) = Some (n\<lparr>nd_bytes := nd_bytes n @ line, nd_ctime := fst (w_now w),
         nd_ctime_nsec := snd (w_now w)\<rparr>)"
    by (auto simp: calm_def)
  have "file_fits (w1, l1)" using fits [OF n(1)] n(2) by (simp add: file_fits_def)
  from audit_adapter.good_write [OF g js wr this] have "good_log js adapter adapter_trusts (evs @ [v]) (w1, l1)" .
  from startup_recovers [OF this, of suffix] c l1 w1 obtain w' where
    op: "open_authenticated_audit js (al_path l) suffix w1 = (w', Inr (fresh_log l1))"
    and g': "good_log js adapter adapter_trusts (evs @ [v]) (w', fresh_log l1)" by (auto simp: append_kept)
  with good_holds_events [OF g'] l1 w1 show ?thesis by (auto simp: fresh_log_def)
qed

text \<open>(C7) What the daemon finds of its audit history after a crash. Take any run of the log over the daemon's
  authority, under every interleaving with the checkpoint worker and whatever failed, that is still healthy,
  and let the process die there, possibly while the worker persists the current or an older checkpoint, at any
  point of that call. If no row was being written, the next startup in a calm environment succeeds, repairs a half-done
  checkpoint commit, continues at exactly the tail it had, and the file holds exactly the events written, in
  order. If the first \<open>k\<close> bytes of the next row had reached the file, the startup succeeds with the
  events and that row when the row is whole, and is refused when the row is torn.\<close>

theorem audit_restart_recovers:
  fixes js :: "'v audit_packages"
  assumes "json_ok js" "audit_run js adapter adapter_sound (evs, (w, l))" "al_health l = None"
    and "authority_at_death (w_authority w) l s'"
    and "w' = w\<lparr>w_authority := with_plan [] s', w_faults := []\<rparr>" "calm w' (al_path l)"
  shows "(\<exists>w'' n. open_authenticated_audit js (al_path l) suffix w' = (w'', Inr (fresh_log l)) \<and>
      w_dir w'' (al_path l) = Some (RegularFile (wr_ino (al_writer l))) \<and>
      w_nodes w'' (wr_ino (al_writer l)) = Some n \<and> logged_events js (nd_bytes n) = evs) \<and>
    (\<forall>ev v line tp k. js_event js ev = Some v \<longrightarrow>
      seal_row js (Some adapter) (w_authority w) (al_writer l) v = Inr (line, tp) \<longrightarrow>
      file_fits (append_bytes (wr_ino (al_writer l)) line w, l) \<longrightarrow> 0 < k \<longrightarrow>
      (case open_authenticated_audit js (al_path l) suffix (append_bytes (wr_ino (al_writer l)) (take k line) w') of
         (w'', Inl e) \<Rightarrow> k < length line
       | (w'', Inr l') \<Rightarrow> length line \<le> k \<and> al_path l' = al_path l \<and> holds_events js w'' (al_path l) (evs @ [v])))"
    (is "?whole \<and> ?row")
proof
  have "good_log js adapter adapter_trusts evs (w, l)"
    using audit_adapter.run_good [OF assms(2,1)] assms(3) by simp
  then have g: "good_log js adapter adapter_trusts evs (w', l)" using good_at_death assms(4,5) by blast
  from startup_recovers [OF this assms(6), of suffix] obtain w'' where
    op: "open_authenticated_audit js (al_path l) suffix w' = (w'', Inr (fresh_log l))"
    and g': "good_log js adapter adapter_trusts evs (w'', fresh_log l)" by blast
  from good_events [OF g'] op show ?whole by (auto simp: fresh_log_def)
  show ?row
  proof (intro allI impI)
    fix ev v line tp and k :: nat
    assume ev: "js_event js ev = Some v" and s: "seal_row js (Some adapter) (w_authority w) (al_writer l) v = Inr (line, tp)"
      and f: "file_fits (append_bytes (wr_ino (al_writer l)) line w, l)" and k: "0 < k"
    let ?r = "open_authenticated_audit js (al_path l) suffix (append_bytes (wr_ino (al_writer l)) (take k line) w')"
    from seal_row_line [OF assms(1) ev s] obtain row where line: "line = row @ [10]" "row \<noteq> []" "10 \<notin> set row" by blast
    have s': "seal_row js (Some adapter) (w_authority w') (al_writer l) v = Inr (line, tp)"
      using s assms(5) by (simp add: seal_row_same [OF authority_at_death_same [OF assms(4)]])
    have fits: "length (nd_bytes n) + length line < 2 ^ 64" if "w_nodes w' (wr_ino (al_writer l)) = Some n" for n
      using f that assms(5) by (simp add: file_fits_def append_bytes_def)
    show "case ?r of (w'', Inl e) \<Rightarrow> k < length line
       | (w'', Inr l') \<Rightarrow> length line \<le> k \<and> al_path l' = al_path l \<and> holds_events js w'' (al_path l) (evs @ [v])"
    proof (cases "k < length line")
      case True
      then have part: "take k line = take k row" "take k row \<noteq> []" "10 \<notin> set (take k row)" "length (take k row) = k"
        using line k by (auto dest: in_set_takeD)
      have "length (nd_bytes n) + length (take k row) + 1 < 2 ^ 64"
        if "w_nodes w' (wr_ino (al_writer l)) = Some n" for n
        using fits [OF that] True part(4) by simp
      from torn_startup [OF g assms(6) part(2,3) this, of suffix] part(1) True show ?thesis
        by (auto split: prod.splits sum.splits)
    next
      case False
      from whole_row_startup [OF g assms(6,3,1) ev s' fits, of suffix] False show ?thesis by auto
    qed
  qed
qed

lemma example_plan: "calm w path \<Longrightarrow> w\<lparr>w_authority := with_plan [] (w_authority w), w_faults := []\<rparr> = w"
  by (cases w; cases "w_authority w"; cases "aa_world (w_authority w)") (simp add: calm_def with_plan_def)

theorem audit_restart_recovers_witness:
  "\<exists>w l w'' n. audit_run example_json adapter adapter_sound ([7], (w, l)) \<and>
     open_authenticated_audit example_json ''/l'' ''x'' w = (w'', Inr (fresh_log l)) \<and>
     w_nodes w'' (wr_ino (al_writer l)) = Some n \<and> logged_events example_json (nd_bytes n) = [7]"
proof -
  from example_run obtain w l where r: "audit_run example_json adapter adapter_sound ([7], (w, l))" "al_health l = None"
    "calm w ''/l''" "al_path l = ''/l''" by blast
  have "authority_at_death (w_authority w) l (w_authority w)" by (simp add: authority_at_death_def)
  from audit_restart_recovers [OF example_json_ok r(1,2) this example_plan [OF r(3), symmetric], of "''x''"] r(1,3,4)
  show ?thesis by auto
qed

text \<open>(C8) The verified history is exact. In every run of the log over the daemon's authority, a history read
  either fails, and then the log is closed from there on, or returns exactly the newest access events
  written, newest first, up to the limit: nothing is missing, altered or invented.\<close>

theorem verified_history_exact:
  assumes "json_ok js" "audit_run js adapter adapter_sound (evs, st)"
    and "read_recent_verified js (Some adapter) now limit st = (st', r)"
  shows "(case r of Inl e \<Rightarrow> al_health (snd st') \<noteq> None
    | Inr rs \<Rightarrow> rs = take limit (rev (List.map_filter (access_view js) evs)))"
proof (cases r)
  case (Inl e)
  with assms(3) read_failed [of js "Some adapter" now limit st st' e] show ?thesis by simp
next
  case (Inr rs)
  with assms(3) have "al_health (snd st) = None" by (auto simp: read_recent_verified_def io_bind_Inr check_health_Inr)
  with audit_adapter.run_good [OF assms(2,1)] have "good_log js adapter adapter_trusts evs st" by simp
  from audit_adapter.good_read [OF this assms(1)] assms(3) Inr show ?thesis by auto
qed

theorem verified_history_exact_witness:
  "\<exists>st st' r. audit_run example_json adapter adapter_sound ([7], st) \<and>
     read_recent_verified example_json (Some adapter) 0 5 st = (st', r) \<and>
     (case r of Inl e \<Rightarrow> al_health (snd st') \<noteq> None | Inr rs \<Rightarrow> rs = [example_access 7])"
proof -
  from example_run obtain st where r: "audit_run example_json adapter adapter_sound ([7], st)" by blast
  obtain st' res where e: "read_recent_verified example_json (Some adapter) 0 5 st = (st', res)" by fastforce
  have "take 5 (rev (List.map_filter (access_view example_json) [7])) = [example_access 7]"
    by (simp add: access_view_def example_json_def example_access_def access_event_def)
  then have "case res of Inl e \<Rightarrow> al_health (snd st') \<noteq> None | Inr rs \<Rightarrow> rs = [example_access 7]"
    using verified_history_exact [OF example_json_ok r e] by (simp only:)
  with r e show ?thesis by blast
qed

lemma degraded_step:
  fixes js :: "'v audit_packages"
  assumes "audit_step js a (evs, (w, l)) (evs', (w', l'))" "al_health l = Some reason"
  shows "evs' = evs \<and> al_health l' = Some reason \<and> al_path l' = al_path l \<and> al_writer l' = al_writer l \<and>
    w_dir w' (al_path l) = w_dir w (al_path l) \<and>
    w_nodes w' (wr_ino (al_writer l)) = w_nodes w (wr_ino (al_writer l))"
proof -
  have h: "check_health (w, l) = ((w, l), Inl (OtherError (''audit log is degraded: '' @ reason)))"
    using assms(2) by (simp add: check_health_def)
  have wr: "write_row js (Some a) ev (w, l) = ((w, l), Inl (OtherError (''audit log is degraded: '' @ reason)))" for ev
    by (simp add: write_row_def io_bind_def h)
  have rd: "read_recent_verified js (Some a) now limit (w, l) = ((w, l), Inl (OtherError (''audit log is degraded: '' @ reason)))"
    for now limit by (simp add: read_recent_verified_def io_bind_def h)
  note simps = worker_iteration_def persist_pending_def note_result_def mark_degraded_def Let_def
  from assms(1) show ?thesis
    by cases (use assms(2) in \<open>auto simp: wr rd degrading_def submit_tail_def worker_update_def set_health_def simps
        split: option.splits if_splits sum.splits prod.splits checkpoint_command.splits\<close>)
qed

lemma degraded_steps:
  fixes js :: "'v audit_packages"
  assumes "(audit_step js a)\<^sup>*\<^sup>* (evs, (w, l)) x" "al_health l = Some reason"
  shows "fst x = evs \<and> al_health (snd (snd x)) = Some reason \<and> al_path (snd (snd x)) = al_path l \<and>
    al_writer (snd (snd x)) = al_writer l \<and> w_dir (fst (snd x)) (al_path l) = w_dir w (al_path l) \<and>
    w_nodes (fst (snd x)) (wr_ino (al_writer l)) = w_nodes w (wr_ino (al_writer l))"
  using assms(1)
proof induction
  case base
  then show ?case using assms(2) by simp
next
  case (step y z)
  obtain evs1 w1 l1 evs2 w2 l2 where yz: "y = (evs1, (w1, l1))" "z = (evs2, (w2, l2))" by (metis surj_pair)
  with step degraded_step [of js a evs1 w1 l1 evs2 w2 l2 reason] show ?case by simp
qed

text \<open>(C31) A degraded log fails closed. Once the log is marked degraded, whatever its clients, its worker and the
  rest of the system do from then on, no event is accepted, the reason stays, and neither the directory
  entry nor the contents of its file change; writing an event and reading the history fail in every
  such state.\<close>

theorem degraded_log_fails_closed:
  fixes js :: "'v audit_packages"
  assumes "(audit_step js a)\<^sup>*\<^sup>* (evs, (w, l)) (evs', (w', l'))" "al_health l = Some reason"
  shows "evs' = evs \<and> al_health l' = Some reason \<and> w_dir w' (al_path l) = w_dir w (al_path l) \<and>
    w_nodes w' (wr_ino (al_writer l)) = w_nodes w (wr_ino (al_writer l)) \<and>
    (\<forall>ev. audit_write js (Some a) ev (w', l') = ((w', l'), Inl (OtherError (''audit log is degraded: '' @ reason)))) \<and>
    (\<forall>now limit. read_recent_verified js (Some a) now limit (w', l') =
       ((w', l'), Inl (OtherError (''audit log is degraded: '' @ reason))))"
proof -
  from degraded_steps [OF assms] have inv: "al_health l' = Some reason" by simp
  then have "audit_write js (Some a) ev (w', l') = ((w', l'), Inl (OtherError (''audit log is degraded: '' @ reason)))" for ev
    by (simp add: audit_write_def write_row_def io_bind_def check_health_def)
  moreover from inv have "read_recent_verified js (Some a) now limit (w', l') =
       ((w', l'), Inl (OtherError (''audit log is degraded: '' @ reason)))" for now limit
    by (simp add: read_recent_verified_def io_bind_def check_health_def)
  ultimately show ?thesis using degraded_steps [OF assms] by simp
qed

theorem degraded_log_fails_closed_witness:
  "\<exists>w l w' l'. (audit_step example_json adapter)\<^sup>*\<^sup>* ([7], (w, l)) ([7], (w', l')) \<and> al_health l = Some ''disk'' \<and>
     snd (audit_write example_json (Some adapter) example_event (w', l')) = Inl (OtherError ''audit log is degraded: disk'')"
proof -
  from example_run obtain w l0 where "audit_run example_json adapter adapter_sound ([7], (w, l0))" by blast
  let ?l = "l0\<lparr>al_health := Some ''disk''\<rparr>"
  have "audit_step example_json adapter ([7], (w, ?l)) ([7], (w, ?l))"
    by (rule audit_step.refused [where ev = example_event and e = "OtherError ''audit log is degraded: disk''"])
      (simp add: write_row_def io_bind_def check_health_def)
  then have r: "(audit_step example_json adapter)\<^sup>*\<^sup>* ([7], (w, ?l)) ([7], (w, ?l))" by blast
  from degraded_log_fails_closed [OF r, of "''disk''"]
  have "snd (audit_write example_json (Some adapter) example_event (w, ?l)) = Inl (OtherError ''audit log is degraded: disk'')"
    by simp
  with r show ?thesis by (intro exI [of _ w] exI [of _ ?l]) simp
qed


text \<open>An authority that keeps its checkpoint in memory and tags a payload with its sum.\<close>

definition example_tag :: "bytes \<Rightarrow> string" where
  "example_tag p = [char_of (sum_list p)]"

definition example_authority :: "audit_checkpoint option audit_authority" where
  "example_authority = \<lparr>
     load_checkpoint = (\<lambda>s. (s, Inr s)),
     authenticate = (\<lambda>s p. Inr (example_tag p)),
     verify = (\<lambda>s p t. if t = example_tag p then Inr () else Inl (OtherError ''tag'')),
     persist_checkpoint = (\<lambda>c s. (Some c, Inr ()))\<rparr>"

definition example_row :: "nat \<Rightarrow> string \<Rightarrow> nat \<Rightarrow> bytes" where
  "example_row sequence previous v =
     map (\<lambda>b. b + 11) ([1, sequence, v, length previous] @ map of_char previous
       @ map of_char (example_tag ([1, sequence, v] @ map of_char previous)))"

definition example_file :: bytes where
  "example_file = example_row 1 ''genesis'' 3 @ [10]"

definition example_tail :: audit_checkpoint where
  "example_tail = \<lparr>acp_sequence = 1, acp_head = example_tag ([1, 1, 3] @ map of_char ''genesis''),
     acp_file_size = length example_file\<rparr>"

definition example_longer_file :: bytes where
  "example_longer_file = example_file @ example_row 2 (acp_head example_tail) 4 @ [10]"

definition example_node :: "bytes \<Rightarrow> node" where
  "example_node bs = \<lparr>nd_bytes = bs, nd_mode = 384, nd_ctime = 0, nd_ctime_nsec = 0\<rparr>"

definition example_audit_world :: "bytes option \<Rightarrow> 's \<Rightarrow> 's audit_world" where
  "example_audit_world contents s = \<lparr>
     w_dir = (\<lambda>p. if p = ''/l'' \<and> contents \<noteq> None then Some (RegularFile 7) else None),
     w_nodes = (\<lambda>i. if i = 7 then map_option example_node contents else None),
     w_device = 0, w_next_ino = 8, w_now = (0, 0), w_faults = [], w_authority = s\<rparr>"



text \<open>(C9) The audit history is tamper evident as long as there is a file. Let a file once have verified with
  tail \<open>c\<close>, the checkpoint the authority now holds. Whatever regular file is at the path when the log is
  opened again and no system call fails, opening succeeds only if that file begins with exactly the events of
  the old one, in order: no checkpointed event can have been altered, dropped, inserted or reordered, and the
  log continues from the end of the file. The tags must not collide on the rows of the two files. A file that
  is gone, or that a failing system call reports as gone, is taken for an empty log instead.\<close>

theorem audit_history_tamper_evident:
  assumes "payload_ok js"
    and "verify_contents js (Some a) s0 None 0 None (length old) old = Inr (c, rs, ps)"
    and "load_checkpoint a (w_authority w) = (s, Inr (Some c))"
    and "w_faults w = []" "w_dir w path = Some (RegularFile i)" "w_nodes w i = Some n"
    and "no_collision js (Some a) s0 s (file_rows old) (file_rows (nd_bytes n))"
    and "open_authenticated js a path suffix w = (w', Inr log)"
  shows "take (length (logged_events js old)) (logged_events js (nd_bytes n)) = logged_events js old \<and>
    wr_file_size (al_writer log) = length (nd_bytes n)"
proof -
  from open_existing_log [OF assms(4-6,3,8)] obtain tp rs ps where
    new: "verify_contents js (Some a) s (Some c) 0 None (length (nd_bytes n)) (nd_bytes n) = Inr (tp, rs, ps)"
    and tp: "writer_tail (al_writer log) = tp" by blast
  from new have "acp_file_size tp = length (nd_bytes n)" unfolding verify_contents_spec by blast
  with tp have "wr_file_size (al_writer log) = length (nd_bytes n)" by (auto simp: writer_tail_def)
  with verified_prefix [OF assms(1,2) new assms(7)] show ?thesis by blast
qed

text \<open>The history view reads the newest accesses: \<open>read_recent_access\<close> walks the file backwards in chunks
  of 64 KiB, whatever the length of the rows and wherever the chunks cut them, and returns what reading the
  whole file, keeping the access rows, reversing and cutting at the limit would.\<close>

theorem read_recent_access_newest:
  assumes "w_faults w = []" "w_dir w path = Some (RegularFile i)" "w_nodes w i = Some n"
  shows "read_recent_access js path limit w =
    (w, Inr (take limit (List.map_filter (row_record js) (rev (segments (nd_bytes n))))))"
proof (cases "limit = 0 \<or> nd_bytes n = []")
  case True
  then show ?thesis
    using assms
    by (auto simp: read_recent_access_def io_bind_def syscall_quiet backward_loop_0 row_record_def)
next
  case False
  then have "backward_loop js limit (nd_bytes n) (length (nd_bytes n)) [] [] =
      take limit (List.map_filter (row_record js) (rev (segments (nd_bytes n))))"
    using backward_loop_spec [of "length (nd_bytes n)" "nd_bytes n" "[]" limit js "[]"] by simp
  with False assms show ?thesis
    by (simp add: read_recent_access_def io_bind_def syscall_quiet)
qed


theorem read_recent_access_newest_witness:
  "read_recent_access example_json ''/l'' 5 (example_audit_world (Some example_longer_file) ()) =
     (example_audit_world (Some example_longer_file) (), Inr [example_access 3])"
proof -
  have "take 5 (List.map_filter (row_record example_json) (rev (segments example_longer_file))) = [example_access 3]"
    by code_simp
  then show ?thesis
    using read_recent_access_newest [of "example_audit_world (Some example_longer_file) ()" "''/l''" 7
        "example_node example_longer_file" example_json 5]
    by (simp add: example_audit_world_def example_node_def)
qed

lemma example_rows:
  "file_rows example_file = [example_row 1 ''genesis'' 3]"
  "file_rows example_longer_file = [example_row 1 ''genesis'' 3, example_row 2 (acp_head example_tail) 4]"
proof -
  have "row_lines [example_row q p v]" for q p v by (auto simp: row_lines_def example_row_def)
  then have l: "row_lines [example_row 1 ''genesis'' 3]"
    "row_lines [example_row 1 ''genesis'' 3, example_row 2 (acp_head example_tail) 4]"
    by (auto simp: row_lines_def)
  show "file_rows example_file = [example_row 1 ''genesis'' 3]"
    "file_rows example_longer_file = [example_row 1 ''genesis'' 3, example_row 2 (acp_head example_tail) 4]"
    using file_rows_encode [OF l(1)] file_rows_encode [OF l(2)]
    by (simp_all add: example_file_def example_longer_file_def encode_rows_def)
qed

lemma example_parse_row:
  "js_parse_envelope example_json (example_row q p v) = Some \<lparr>ae_format = 1, ae_sequence = q, ae_previous = p, ae_event = v,
     ae_tag = example_tag ([1, q, v] @ map of_char p)\<rparr>"
  by (simp add: example_json_def example_parse_def example_row_def comp_def)

lemma example_read_row:
  assumes "q = saturating_add_u64 (acp_sequence c) 1" "p = acp_head c"
  shows "read_row example_json (Some example_authority) s c (example_row q p v) =
    Some (v, \<lparr>acp_sequence = q, acp_head = example_tag ([1, q, v] @ map of_char p),
      acp_file_size = saturating_add_u64 (acp_file_size c) (length (example_row q p v) + 1)\<rparr>)"
proof -
  have "js_payload example_json (f, q, p, v) = Some ([f, q, v] @ map of_char p)" for f by (simp add: example_json_def)
  then show ?thesis
    using assms by (simp add: read_row_def example_parse_row AUDIT_FORMAT_def check_tag_def example_authority_def)
qed

lemma example_chain:
  "chain example_json (Some example_authority) s genesis_checkpoint (file_rows example_file) = Some [(3, example_tail)]"
  "chain example_json (Some example_authority) s genesis_checkpoint (file_rows example_longer_file) =
     Some [(3, example_tail), (4, \<lparr>acp_sequence = 2, acp_head = example_tag ([1, 2, 4] @ map of_char (acp_head example_tail)),
       acp_file_size = length example_longer_file\<rparr>)]"
proof -
  have n: "length (example_row 1 ''genesis'' 3) = 12" "length (example_row 2 (acp_head example_tail) 4) = 6"
    by code_simp+
  have r1: "read_row example_json (Some example_authority) s genesis_checkpoint (example_row 1 ''genesis'' 3) = Some (3, example_tail)"
    using n by (subst example_read_row)
      (simp_all add: genesis_checkpoint_def GENESIS_HASH_def arith_defs example_tail_def example_file_def)
  have r2: "read_row example_json (Some example_authority) s example_tail (example_row 2 (acp_head example_tail) 4) =
      Some (4, \<lparr>acp_sequence = 2, acp_head = example_tag ([1, 2, 4] @ map of_char (acp_head example_tail)),
        acp_file_size = length example_longer_file\<rparr>)"
    using n by (subst example_read_row) (simp_all add: arith_defs example_tail_def example_file_def example_longer_file_def)
  show "chain example_json (Some example_authority) s genesis_checkpoint (file_rows example_file) = Some [(3, example_tail)]"
    unfolding example_rows by (simp add: r1 del: One_nat_def)
  show "chain example_json (Some example_authority) s genesis_checkpoint (file_rows example_longer_file) =
     Some [(3, example_tail), (4, \<lparr>acp_sequence = 2, acp_head = example_tag ([1, 2, 4] @ map of_char (acp_head example_tail)),
       acp_file_size = length example_longer_file\<rparr>)]"
    unfolding example_rows by (simp add: r1 r2 del: One_nat_def)
qed

lemma example_verified:
  "verify_contents example_json (Some example_authority) s None 0 None (length example_file) example_file =
     Inr (example_tail, [], [example_tail])"
  unfolding verify_contents_spec by (simp add: example_chain consistent_def) (simp add: example_tail_def)

lemma example_longer_verified:
  "\<exists>c. verify_contents example_json (Some example_authority) s (Some example_tail) 0 None (length example_longer_file)
     example_longer_file = Inr (c, [], [example_tail, c])"
  by (rule exI [of _ "\<lparr>acp_sequence = 2, acp_head = example_tag ([1, 2, 4] @ map of_char (acp_head example_tail)),
       acp_file_size = length example_longer_file\<rparr>"], unfold verify_contents_spec)
    (simp add: example_chain consistent_def, simp add: example_tail_def)

lemma example_no_collision:
  "no_collision example_json (Some example_authority) s0 s (file_rows example_file) (file_rows example_longer_file)"
proof -
  have "example_tag ([1, 1, 3] @ map of_char ''genesis'') \<noteq> example_tag ([1, 2, 4] @ map of_char (acp_head example_tail))"
    by code_simp
  moreover have "row_payload example_json (example_row q p v) = Some ([1, q, v] @ map of_char p)" for q p v
    by (simp add: row_payload_def example_parse_row AUDIT_FORMAT_def) (simp add: example_json_def)
  ultimately show ?thesis
    by (auto simp: no_collision_def example_rows check_tag_def example_authority_def simp del: One_nat_def split: if_splits)
qed

lemma example_opens:
  "\<exists>w' log. open_authenticated example_json example_authority ''/l'' ''x''
     (example_audit_world (Some example_longer_file) (Some example_tail)) = (w', Inr log)"
proof -
  let ?w = "example_audit_world (Some example_longer_file) (Some example_tail)" and ?n = "example_node example_longer_file"
  have q: "w_faults (?w\<lparr>w_authority := s\<rparr>) = []" "w_dir (?w\<lparr>w_authority := s\<rparr>) ''/l'' = Some (RegularFile 7)"
    "w_nodes (?w\<lparr>w_authority := s\<rparr>) 7 = Some ?n" for s
    by (simp_all add: example_audit_world_def)
  have w: "?w\<lparr>w_authority := Some example_tail\<rparr> = ?w" by (simp add: example_audit_world_def)
  have mk: "(case path_parent ''/l'' of Some _ \<Rightarrow> syscall ''mkdir'' | None \<Rightarrow> io_return ()) ?w = (?w, Inr ())"
    using q(1) [of "Some example_tail"] by (simp add: w syscall_quiet split: option.splits)
  have ld: "authority_load example_authority ?w = (?w, Inr (Some example_tail))"
    by (simp add: authority_load_def example_authority_def w) (simp add: example_audit_world_def)
  obtain c where c: "verify_audit_chain example_json (Some example_authority) ''/l'' (Some example_tail) ?w = (?w, Inr c)"
    using example_longer_verified [of "w_authority ?w"] verify_audit_chain_quiet [OF q [of "Some example_tail"],
        of example_json "Some example_authority" "Some example_tail"]
    by (auto simp: w example_node_def)
  have ps: "authority_persist example_authority c ?w = (?w\<lparr>w_authority := Some c\<rparr>, Inr ())"
    by (simp add: authority_persist_def example_authority_def)
  have op: "open_private_append ''/l'' (?w\<lparr>w_authority := s\<rparr>) = (?w\<lparr>w_authority := s\<rparr>, Inr 7)" for s
    using q [of s] by (simp add: open_private_append_def io_bind_def path_exists_quiet symlink_metadata_quiet
        open_or_create_def syscall_quiet check_private_def) (simp add: example_node_def io_lift_def)
  show ?thesis
    using path_exists_quiet [OF q [of "Some example_tail"]] op [of "Some example_tail"]
      descriptor_metadata_quiet [OF q(1,3)] descriptor_metadata_quiet [OF q(1,3), of "Some example_tail"]
    by (cases "c = example_tail") (simp_all add: io_return_def open_authenticated_def open_with_authority_def io_bind_def mk ld quarantine_legacy_def w c ps op)
qed

theorem audit_history_tamper_evident_witness:
  "\<exists>w' log. open_authenticated example_json example_authority ''/l'' ''x''
       (example_audit_world (Some example_longer_file) (Some example_tail)) = (w', Inr log) \<and>
     take (length (logged_events example_json example_file)) (logged_events example_json example_longer_file) =
       logged_events example_json example_file \<and> logged_events example_json example_file = [3] \<and>
     wr_file_size (al_writer log) = length example_longer_file"
proof -
  let ?w = "example_audit_world (Some example_longer_file) (Some example_tail)"
  obtain w' log where op: "open_authenticated example_json example_authority ''/l'' ''x'' ?w = (w', Inr log)"
    using example_opens by blast
  from audit_history_tamper_evident [OF example_payload_ok example_verified, of ?w "Some example_tail" "''/l''" 7
      "example_node example_longer_file", OF _ _ _ _ _ op] example_no_collision
  have "take (length (logged_events example_json example_file)) (logged_events example_json example_longer_file) =
     logged_events example_json example_file \<and> wr_file_size (al_writer log) = length example_longer_file"
    by (simp add: example_audit_world_def example_authority_def example_node_def)
  moreover have "logged_events example_json example_file = [3]" by code_simp
  ultimately show ?thesis using op by blast
qed

end
