(* ===== verification/Rust_Text.thy ===== *)
theory Rust_Text
  imports Floria_Prelude
begin

text \<open>
  Text as the standard library of the source language has it: strings of Unicode scalar values, their UTF-8
  bytes, white space, trimming, lines, splitting and prefixes. Literals are written through \<open>lit\<close>.
\<close>

named_theorems text_defs \<open>definitions of the operations on text\<close>

type_synonym ustring = "nat list"

definition lit :: "string \<Rightarrow> ustring" where
  "lit s = map of_char s"

lemma lit_simps [simp]:
  "lit [] = []" "lit (c # s) = of_char c # lit s" "lit (s @ s') = lit s @ lit s'"
  by (simp_all add: lit_def)

section \<open>UTF-8\<close>

definition scalar_value :: "nat \<Rightarrow> bool" where
  "scalar_value c \<longleftrightarrow> c < 55296 \<or> 57344 \<le> c \<and> c < 1114112"

definition utf8_char :: "nat \<Rightarrow> bytes" where
  "utf8_char c =
     (if c < 128 then [c]
      else if c < 2048 then [192 + c div 64, 128 + c mod 64]
      else if c < 65536 then [224 + c div 4096, 128 + c div 64 mod 64, 128 + c mod 64]
      else [240 + c div 262144, 128 + c div 4096 mod 64, 128 + c div 64 mod 64, 128 + c mod 64])"

definition utf8 :: "ustring \<Rightarrow> bytes" where
  "utf8 t = concat (map utf8_char t)"

definition utf8_len :: "ustring \<Rightarrow> nat" where
  "utf8_len t = length (utf8 t)"

definition continuation :: "nat \<Rightarrow> bool" where
  "continuation b \<longleftrightarrow> 128 \<le> b \<and> b < 192"

text \<open>\<open>str::from_utf8\<close>: overlong forms, surrogates and values beyond the last plane are refused.\<close>

fun from_utf8 :: "bytes \<Rightarrow> ustring option" where
  "from_utf8 [] = Some []"
| "from_utf8 (a # bs) =
     (if a < 128 then map_option (\<lambda>t. a # t) (from_utf8 bs)
      else
        (case bs of
           [] \<Rightarrow> None
         | b # bs \<Rightarrow>
             if \<not> continuation b \<or> a < 192 then None
             else if a < 224
             then (let c = (a - 192) * 64 + (b - 128)
                   in if c < 128 then None else map_option (\<lambda>t. c # t) (from_utf8 bs))
             else
               (case bs of
                  [] \<Rightarrow> None
                | d # bs \<Rightarrow>
                    if \<not> continuation d then None
                    else if a < 240
                    then (let c = (a - 224) * 4096 + (b - 128) * 64 + (d - 128)
                          in if c < 2048 \<or> \<not> scalar_value c then None
                             else map_option (\<lambda>t. c # t) (from_utf8 bs))
                    else
                      (case bs of
                         [] \<Rightarrow> None
                       | e # bs \<Rightarrow>
                           (let c = (a - 240) * 262144 + (b - 128) * 4096 + (d - 128) * 64 + (e - 128)
                            in if \<not> continuation e \<or> c < 65536 \<or> \<not> scalar_value c then None
                               else map_option (\<lambda>t. c # t) (from_utf8 bs))))))"

lemma utf8_simps [simp]:
  "utf8 [] = []" "utf8 (c # t) = utf8_char c @ utf8 t" "utf8 (t @ t') = utf8 t @ utf8 t'"
  by (simp_all add: utf8_def)

lemma utf8_len_simps [simp]:
  "utf8_len [] = 0" "utf8_len (t @ t') = utf8_len t + utf8_len t'"
  by (simp_all add: utf8_len_def)

lemma continuation_low: "continuation (128 + c mod 64)"
  using mod_less_divisor [of 64 c] by (simp add: continuation_def)

lemma from_utf8_char:
  assumes "scalar_value c"
  shows "from_utf8 (utf8_char c @ bs) = map_option (\<lambda>t. c # t) (from_utf8 bs)"
proof -
  have q: "c div 4096 = c div 64 div 64" "c div 262144 = c div 64 div 64 div 64" by (simp_all add: div_mult2_eq [symmetric])
  have two: "c div 64 * 64 + c mod 64 = c" by simp
  have three: "c div 4096 * 4096 + c div 64 mod 64 * 64 + c mod 64 = c"
    unfolding q using div_mult_mod_eq [of "c div 64" 64] two by linarith
  have four: "c div 262144 * 262144 + c div 4096 mod 64 * 4096 + c div 64 mod 64 * 64 + c mod 64 = c"
    using three unfolding q using div_mult_mod_eq [of "c div 64 div 64" 64] by linarith
  have b: "c < 65536 \<Longrightarrow> c div 4096 < 16" "c < 2048 \<Longrightarrow> c div 64 < 32" by linarith+
  consider "c < 128" | "128 \<le> c" "c < 2048" | "2048 \<le> c" "c < 65536" | "65536 \<le> c" by linarith
  then show ?thesis
  proof cases
    case 2
    then have "192 + c div 64 < 224" "\<not> 192 + c div 64 < 128" using b(2) by linarith+
    with 2 two show ?thesis by (simp add: utf8_char_def continuation_low)
  next
    case 3
    then have "224 + c div 4096 < 240" "\<not> 224 + c div 4096 < 128" using b(1) by linarith+
    with 3 three assms show ?thesis by (simp add: utf8_char_def continuation_low)
  next
    case 4
    with four assms show ?thesis by (simp add: utf8_char_def continuation_low)
  qed (simp add: utf8_char_def)
qed

lemma from_utf8_utf8: "list_all scalar_value t \<Longrightarrow> from_utf8 (utf8 t) = Some t"
  by (induction t) (simp_all add: from_utf8_char)

section \<open>White space and trimming\<close>

text \<open>\<open>char::is_whitespace\<close>: the Unicode property \<open>White_Space\<close>.\<close>

definition is_whitespace :: "nat \<Rightarrow> bool" where
  "is_whitespace c \<longleftrightarrow>
     9 \<le> c \<and> c \<le> 13 \<or> c = 32 \<or> c = 133 \<or> c = 160 \<or> c = 5760 \<or> 8192 \<le> c \<and> c \<le> 8202 \<or>
     c = 8232 \<or> c = 8233 \<or> c = 8239 \<or> c = 8287 \<or> c = 12288"

definition is_ascii_alphabetic :: "nat \<Rightarrow> bool" where
  "is_ascii_alphabetic c \<longleftrightarrow> 65 \<le> c \<and> c \<le> 90 \<or> 97 \<le> c \<and> c \<le> 122"

definition is_ascii_alphanumeric :: "nat \<Rightarrow> bool" where
  "is_ascii_alphanumeric c \<longleftrightarrow> is_ascii_alphabetic c \<or> 48 \<le> c \<and> c \<le> 57"

definition trim_start :: "ustring \<Rightarrow> ustring" where
  "trim_start t = dropWhile is_whitespace t"

definition trim_end :: "ustring \<Rightarrow> ustring" where
  "trim_end t = rev (dropWhile is_whitespace (rev t))"

definition trim :: "ustring \<Rightarrow> ustring" where
  "trim t = trim_start (trim_end t)"

section \<open>Lines, prefixes and separators\<close>

fun split_inclusive :: "ustring \<Rightarrow> ustring list" where
  "split_inclusive [] = []"
| "split_inclusive (c # t) =
     (if c = 10 then [c] # split_inclusive t
      else (case split_inclusive t of [] \<Rightarrow> [[c]] | l # ls \<Rightarrow> (c # l) # ls))"

definition strip_suffix_char :: "nat \<Rightarrow> ustring \<Rightarrow> ustring option" where
  "strip_suffix_char c t = (if t \<noteq> [] \<and> last t = c then Some (butlast t) else None)"

text \<open>\<open>str::lines\<close>: a carriage return is dropped only in front of a line feed.\<close>

definition strip_line_end :: "ustring \<Rightarrow> ustring" where
  "strip_line_end l =
     (case strip_suffix_char 10 l of
        None \<Rightarrow> l
      | Some m \<Rightarrow> (case strip_suffix_char 13 m of None \<Rightarrow> m | Some m' \<Rightarrow> m'))"

definition str_lines :: "ustring \<Rightarrow> ustring list" where
  "str_lines t = map strip_line_end (split_inclusive t)"

definition strip_prefix :: "ustring \<Rightarrow> ustring \<Rightarrow> ustring option" where
  "strip_prefix p t = (if take (length p) t = p then Some (drop (length p) t) else None)"

definition starts_with :: "nat \<Rightarrow> ustring \<Rightarrow> bool" where
  "starts_with c t \<longleftrightarrow> t \<noteq> [] \<and> hd t = c"

text \<open>The part before the first character with a property, and the part behind it.\<close>

definition split_at :: "(nat \<Rightarrow> bool) \<Rightarrow> ustring \<Rightarrow> (ustring \<times> ustring) option" where
  "split_at P t =
     (case dropWhile (\<lambda>c. \<not> P c) t of [] \<Rightarrow> None | _ # r \<Rightarrow> Some (takeWhile (\<lambda>c. \<not> P c) t, r))"

lemma trim_start_id: "t = [] \<or> \<not> is_whitespace (hd t) \<Longrightarrow> trim_start t = t"
  by (cases t) (auto simp: trim_start_def)

lemma trim_end_id: "t = [] \<or> \<not> is_whitespace (last t) \<Longrightarrow> trim_end t = t"
  by (cases "rev t") (auto simp: trim_end_def)

lemma trim_id: "t = [] \<or> \<not> is_whitespace (hd t) \<and> \<not> is_whitespace (last t) \<Longrightarrow> trim t = t"
  by (metis trim_def trim_end_id trim_start_id)

lemma trim_ends: "trim t \<noteq> [] \<Longrightarrow> \<not> is_whitespace (hd (trim t)) \<and> \<not> is_whitespace (last (trim t))"
proof -
  assume n: "trim t \<noteq> []"
  then have h: "\<not> is_whitespace (hd (trim t))"
    by (metis hd_dropWhile trim_def trim_start_def)
  have e: "trim_end t \<noteq> []" using n by (auto simp: trim_def trim_start_def)
  then have "\<not> is_whitespace (last (trim_end t))"
    unfolding trim_end_def by (metis hd_dropWhile last_rev rev_is_Nil_conv)
  moreover have "last (trim t) = last (trim_end t)"
    using n by (metis last_appendR takeWhile_dropWhile_id trim_def trim_start_def)
  ultimately show ?thesis using h by simp
qed

lemma split_inclusive_line: "10 \<notin> set l \<Longrightarrow> split_inclusive (l @ 10 # r) = (l @ [10]) # split_inclusive r"
  by (induction l) auto

lemma str_lines_Nil [simp]: "str_lines [] = []"
  by (simp add: str_lines_def)

lemma str_lines_line:
  assumes "10 \<notin> set l" "l = [] \<or> last l \<noteq> 13"
  shows "str_lines (l @ 10 # r) = l # str_lines r"
  using assms by (auto simp: str_lines_def split_inclusive_line strip_line_end_def strip_suffix_char_def)

lemma split_at_append: "\<forall>c \<in> set l. \<not> P c \<Longrightarrow> P d \<Longrightarrow> split_at P (l @ d # r) = Some (l, r)"
  by (simp add: split_at_def)

lemma strip_prefix_append [simp]: "strip_prefix p (p @ t) = Some t"
  by (simp add: strip_prefix_def)

end
