(* ===== verification/Catalog_Domain.thy ===== *)
theory Catalog_Domain
  imports Rules Rust_Text "HOL-Library.Product_Lexorder" "HOL-Library.List_Lexorder"
begin

text \<open>
  The data of the catalog (\<open>floria-catalog/src/domain.rs\<close>): projects, environments, resources with their
  sources and entries, bindings, surfaces, and the snapshot that holds them; the names under which kinds
  are stored; the input contract of each surface format; the identity of a surface among the managed items.
  Identifiers, names, addresses and keys are text, paths are path strings.
\<close>

section \<open>Errors\<close>

datatype catalog_error =
    CatalogIo string
  | CatalogDatabase
  | CatalogIntegrity
  | CatalogValidation string
  | CatalogNotFound string ustring
  | CatalogAlreadyExists string ustring
  | CatalogConflict ustring "ustring list"
  | CatalogResourceInUse ustring "ustring list" "ustring list"
  | CatalogUnsupportedSchema int int
  | CatalogEncoding

section \<open>Projects and environments\<close>

record project =
  prj_id :: ustring
  prj_name :: ustring
  prj_path :: string
  prj_default_environment_id :: "ustring option"

datatype project_checkout_kind = PrimaryCheckout | WorktreeCheckout

fun checkout_kind_as_str :: "project_checkout_kind \<Rightarrow> string" where
  "checkout_kind_as_str PrimaryCheckout = ''primary''"
| "checkout_kind_as_str WorktreeCheckout = ''worktree''"

definition checkout_kind_parse :: "string \<Rightarrow> project_checkout_kind option" where
  "checkout_kind_parse v =
     (if v = ''primary'' then Some PrimaryCheckout
      else if v = ''worktree'' then Some WorktreeCheckout else None)"

record project_checkout =
  co_id :: ustring
  co_project_id :: ustring
  co_path :: string
  co_environment_id :: "ustring option"
  co_kind :: project_checkout_kind
  co_git_common_dir :: "string option"

record environment =
  env_id :: ustring
  env_project_id :: ustring
  env_name :: ustring
  env_position :: int

section \<open>Resources\<close>

datatype resource_kind =
    SharedSecret | SecretKind | EnvFile | LiteralKind | CommandKind | SshIdentityKind | SshAgentKind | SshAccessKind

fun resource_kind_as_str :: "resource_kind \<Rightarrow> string" where
  "resource_kind_as_str SharedSecret = ''shared_secret''"
| "resource_kind_as_str SecretKind = ''secret''"
| "resource_kind_as_str EnvFile = ''env_file''"
| "resource_kind_as_str LiteralKind = ''literal''"
| "resource_kind_as_str CommandKind = ''command''"
| "resource_kind_as_str SshIdentityKind = ''ssh_identity''"
| "resource_kind_as_str SshAgentKind = ''ssh_agent''"
| "resource_kind_as_str SshAccessKind = ''ssh_access''"

definition resource_kind_parse :: "string \<Rightarrow> resource_kind option" where
  "resource_kind_parse v =
     (if v = ''shared_secret'' then Some SharedSecret
      else if v = ''secret'' then Some SecretKind
      else if v = ''env_file'' then Some EnvFile
      else if v = ''literal'' then Some LiteralKind
      else if v = ''command'' then Some CommandKind
      else if v = ''ssh_identity'' then Some SshIdentityKind
      else if v = ''ssh_agent'' then Some SshAgentKind
      else if v = ''ssh_access'' then Some SshAccessKind
      else None)"

datatype value_shape = Scalar | KeyValueSet | BytesShape | SshIdentityShape | SocketShape | SshAccessShape

fun value_shape_as_str :: "value_shape \<Rightarrow> string" where
  "value_shape_as_str Scalar = ''scalar''"
| "value_shape_as_str KeyValueSet = ''key_value_set''"
| "value_shape_as_str BytesShape = ''bytes''"
| "value_shape_as_str SshIdentityShape = ''ssh_identity''"
| "value_shape_as_str SocketShape = ''socket''"
| "value_shape_as_str SshAccessShape = ''ssh_access''"

definition value_shape_parse :: "string \<Rightarrow> value_shape option" where
  "value_shape_parse v =
     (if v = ''scalar'' then Some Scalar
      else if v = ''key_value_set'' then Some KeyValueSet
      else if v = ''bytes'' then Some BytesShape
      else if v = ''ssh_identity'' then Some SshIdentityShape
      else if v = ''socket'' then Some SocketShape
      else if v = ''ssh_access'' then Some SshAccessShape
      else None)"

datatype resource_codec = OpaqueCodec | DotenvCodec | IniCodec

fun resource_codec_as_str :: "resource_codec \<Rightarrow> string" where
  "resource_codec_as_str OpaqueCodec = ''opaque''"
| "resource_codec_as_str DotenvCodec = ''dotenv''"
| "resource_codec_as_str IniCodec = ''ini''"

definition resource_codec_parse :: "string \<Rightarrow> resource_codec option" where
  "resource_codec_parse v =
     (if v = ''opaque'' then Some OpaqueCodec
      else if v = ''dotenv'' then Some DotenvCodec
      else if v = ''ini'' then Some IniCodec
      else None)"

record entry_spec =
  es_address :: ustring
  es_label :: ustring
  es_key :: "ustring option"
  es_sensitive :: bool

datatype entry_selection = AllEntries | Entries "ustring list"

record ssh_identity_selection =
  sis_resource_id :: ustring
  sis_selection :: entry_selection

record ssh_route_spec =
  srs_host_patterns :: "ustring list"
  srs_hostname :: "ustring option"
  srs_user :: "ustring option"
  srs_port :: "nat option"
  srs_forward_agent :: bool

record ssh_access_spec =
  sas_identities :: "ssh_identity_selection list"
  sas_route :: ssh_route_spec
  sas_project_ids :: "ustring list"

datatype resource_source =
    SecretRef ustring "ustring list"
  | LiteralValue ustring
  | CommandArgv "ustring list"
  | SocketSource
  | SshAccessSource ssh_access_spec

fun is_secret_ref :: "resource_source \<Rightarrow> bool" where
  "is_secret_ref (SecretRef s ms) = True"
| "is_secret_ref s = False"

fun is_literal_source :: "resource_source \<Rightarrow> bool" where
  "is_literal_source (LiteralValue v) = True"
| "is_literal_source s = False"

fun referenced_secret_ids :: "resource_source \<Rightarrow> ustring list" where
  "referenced_secret_ids (SecretRef secret_id managed_source_ids) = secret_id # managed_source_ids"
| "referenced_secret_ids s = []"

record item_link =
  il_label :: ustring
  il_url :: ustring

record item_metadata =
  im_note :: "ustring option"
  im_links :: "item_link list"

datatype origin_kind = UnknownOrigin | ManualOrigin | DiscoveredOrigin | SshImportOrigin

record origin_source =
  os_path :: string
  os_project_id :: "ustring option"
  os_environment :: "ustring option"
  os_imported_at :: ustring

record resource_origin =
  ro_kind :: origin_kind
  ro_sources :: "origin_source list"

record resource =
  res_id :: ustring
  res_name :: ustring
  res_kind :: resource_kind
  res_shape :: value_shape
  res_codec :: resource_codec
  res_default_env_key :: "ustring option"
  res_entries :: "entry_spec list"
  res_source :: resource_source
  res_enforcement :: enforcement
  res_metadata :: item_metadata
  res_origin :: resource_origin

section \<open>Bindings and surfaces\<close>

datatype binding_scope = CommonScope | EnvironmentScope ustring

fun is_environment_scope :: "binding_scope \<Rightarrow> bool" where
  "is_environment_scope CommonScope = False"
| "is_environment_scope (EnvironmentScope e) = True"

record binding =
  bnd_id :: ustring
  bnd_project_id :: ustring
  bnd_scope :: binding_scope
  bnd_resource_id :: ustring
  bnd_selection :: entry_selection
  bnd_key_override :: "ustring option"
  bnd_enabled :: bool
  bnd_allow_override :: bool
  bnd_position :: int

definition binding_default :: binding where
  "binding_default = \<lparr>bnd_id = [], bnd_project_id = [], bnd_scope = CommonScope, bnd_resource_id = [],
     bnd_selection = AllEntries, bnd_key_override = None, bnd_enabled = True, bnd_allow_override = False, bnd_position = 0\<rparr>"

datatype surface_format = DotenvFormat | DirenvFormat | IniFormat | LinesFormat

datatype format_input_model =
    EnvironmentProjection
  | StructuredEntries resource_kind value_shape resource_codec bool
  | KeylessScalars resource_codec bool

record format_spec =
  fsp_input :: format_input_model
  fsp_allow_key_override :: bool

fun format_spec_of :: "surface_format \<Rightarrow> format_spec" where
  "format_spec_of DotenvFormat = \<lparr>fsp_input = EnvironmentProjection, fsp_allow_key_override = True\<rparr>"
| "format_spec_of DirenvFormat = \<lparr>fsp_input = EnvironmentProjection, fsp_allow_key_override = True\<rparr>"
| "format_spec_of IniFormat = \<lparr>fsp_input = StructuredEntries EnvFile KeyValueSet IniCodec True, fsp_allow_key_override = False\<rparr>"
| "format_spec_of LinesFormat = \<lparr>fsp_input = KeylessScalars OpaqueCodec True, fsp_allow_key_override = False\<rparr>"

datatype file_backing = Composed surface_format | EnvFileDirect

datatype surface_kind = FileSurface file_backing | UnixSocket

fun surface_kind_as_str :: "surface_kind \<Rightarrow> string" where
  "surface_kind_as_str (FileSurface (Composed DotenvFormat)) = ''dotenv_file''"
| "surface_kind_as_str (FileSurface (Composed DirenvFormat)) = ''direnv_file''"
| "surface_kind_as_str (FileSurface (Composed IniFormat)) = ''ini_file''"
| "surface_kind_as_str (FileSurface (Composed LinesFormat)) = ''lines_file''"
| "surface_kind_as_str (FileSurface EnvFileDirect) = ''env_file_direct''"
| "surface_kind_as_str UnixSocket = ''unix_socket''"

definition surface_kind_parse :: "string \<Rightarrow> surface_kind option" where
  "surface_kind_parse v =
     (if v = ''dotenv_file'' then Some (FileSurface (Composed DotenvFormat))
      else if v = ''direnv_file'' then Some (FileSurface (Composed DirenvFormat))
      else if v = ''ini_file'' then Some (FileSurface (Composed IniFormat))
      else if v = ''env_file_direct'' then Some (FileSurface EnvFileDirect)
      else if v = ''lines_file'' then Some (FileSurface (Composed LinesFormat))
      else if v = ''unix_socket'' then Some UnixSocket
      else None)"

fun surface_kind_is_file :: "surface_kind \<Rightarrow> bool" where
  "surface_kind_is_file (FileSurface b) = True"
| "surface_kind_is_file UnixSocket = False"

fun composed_format :: "surface_kind \<Rightarrow> surface_format option" where
  "composed_format (FileSurface (Composed f)) = Some f"
| "composed_format (FileSurface EnvFileDirect) = None"
| "composed_format UnixSocket = None"

datatype surface_input =
    BindingsInput "ustring list"
  | SshAgentInput "ustring list" "ssh_route_spec option"
  | ResourceInput ustring

fun input_binding_ids :: "surface_input \<Rightarrow> ustring list option" where
  "input_binding_ids (BindingsInput ids) = Some ids"
| "input_binding_ids (SshAgentInput ids route) = Some ids"
| "input_binding_ids (ResourceInput r) = None"

record surface =
  srf_id :: ustring
  srf_environment_id :: ustring
  srf_name :: ustring
  srf_kind :: surface_kind
  srf_path :: "string option"
  srf_input :: surface_input
  srf_enforcement :: enforcement
  srf_position :: int

record catalog_snapshot =
  cat_projects :: "project list"
  cat_checkouts :: "project_checkout list"
  cat_environments :: "environment list"
  cat_resources :: "resource list"
  cat_endpoints :: "(ustring \<times> string) list"
  cat_bindings :: "binding list"
  cat_surfaces :: "surface list"

record resolved_export =
  re_key :: ustring
  re_address :: ustring
  re_binding_id :: ustring
  re_resource_id :: ustring
  re_resource_name :: ustring
  re_sensitive :: bool
  re_overrides_binding_id :: "ustring option"

record resolved_environment =
  rne_project_id :: ustring
  rne_environment_id :: ustring
  rne_exports :: "resolved_export list"

section \<open>Managed items\<close>

definition surface_resource_id :: "catalog_snapshot \<Rightarrow> surface \<Rightarrow> ustring option" where
  "surface_resource_id cat s =
     (case srf_input s of
        ResourceInput r \<Rightarrow> Some r
      | BindingsInput [b] \<Rightarrow> map_option bnd_resource_id (find (\<lambda>x. bnd_id x = b) (cat_bindings cat))
      | _ \<Rightarrow> None)"

text \<open>Paths are equal when their components are.\<close>

definition managed_item_id_for_surface :: "catalog_snapshot \<Rightarrow> surface \<Rightarrow> ustring" where
  "managed_item_id_for_surface cat s0 =
     (let s = unwrap_or (find (\<lambda>c. srf_id c = srf_id s0) (cat_surfaces cat)) s0
      in if \<not> surface_kind_is_file (srf_kind s) then srf_id s
         else
           (case surface_resource_id cat s of
              None \<Rightarrow> srf_id s
            | Some resource_id \<Rightarrow>
                (case find (\<lambda>r. res_id r = resource_id \<and> res_kind r = EnvFile \<and>
                            (case srf_path s of
                               None \<Rightarrow> False
                             | Some p \<Rightarrow> list_ex (\<lambda>o'. components (os_path o') = components p) (ro_sources (res_origin r)))) (cat_resources cat) of
                   None \<Rightarrow> srf_id s
                 | Some r \<Rightarrow> (case res_source r of SecretRef secret_id _ \<Rightarrow> secret_id | _ \<Rightarrow> srf_id s))))"

definition file_surface_secret_ids :: "catalog_snapshot \<Rightarrow> ustring set" where
  "file_surface_secret_ids cat =
     managed_item_id_for_surface cat ` {s \<in> set (cat_surfaces cat). managed_item_id_for_surface cat s \<noteq> srf_id s}"

section \<open>Stored names\<close>

lemma stored_names_roundtrip:
  "checkout_kind_parse (checkout_kind_as_str c) = Some c" "resource_kind_parse (resource_kind_as_str k) = Some k"
  "value_shape_parse (value_shape_as_str s) = Some s" "resource_codec_parse (resource_codec_as_str d) = Some d"
  "surface_kind_parse (surface_kind_as_str f) = Some f"
proof -
  show "checkout_kind_parse (checkout_kind_as_str c) = Some c" by (cases c) (simp_all add: checkout_kind_parse_def)
  show "resource_kind_parse (resource_kind_as_str k) = Some k" by (cases k) (simp_all add: resource_kind_parse_def)
  show "value_shape_parse (value_shape_as_str s) = Some s" by (cases s) (simp_all add: value_shape_parse_def)
  show "resource_codec_parse (resource_codec_as_str d) = Some d" by (cases d) (simp_all add: resource_codec_parse_def)
  show "surface_kind_parse (surface_kind_as_str f) = Some f"
    by (cases f rule: surface_kind_as_str.cases) (simp_all add: surface_kind_parse_def)
qed

end
