(* ===== verification/Catalog_Resolve.thy ===== *)
theory Catalog_Resolve
  imports Catalog_Domain
begin

text \<open>
  Resolution of the catalog (\<open>floria-catalog/src/catalog/snapshot.rs\<close>): which bindings feed an environment or a
  surface, which keys they export, overriding and conflicts, and the semantic revision of a surface.
\<close>

section \<open>Lookups\<close>

text \<open>Collecting pairs into a hash map keeps the last of equal keys, \<open>find\<close> the first of equal identifiers.\<close>

definition collect_map :: "('k \<times> 'v) list \<Rightarrow> 'k \<Rightarrow> 'v option" where
  "collect_map kvs = map_of (rev kvs)"

definition resources_by_id :: "catalog_snapshot \<Rightarrow> ustring \<Rightarrow> resource option" where
  "resources_by_id cat = collect_map (map (\<lambda>r. (res_id r, r)) (cat_resources cat))"

definition bindings_by_id :: "catalog_snapshot \<Rightarrow> ustring \<Rightarrow> binding option" where
  "bindings_by_id cat = collect_map (map (\<lambda>b. (bnd_id b, b)) (cat_bindings cat))"

definition environments_by_id :: "catalog_snapshot \<Rightarrow> ustring \<Rightarrow> environment option" where
  "environments_by_id cat = collect_map (map (\<lambda>e. (env_id e, e)) (cat_environments cat))"

definition find_surface :: "catalog_snapshot \<Rightarrow> ustring \<Rightarrow> surface option" where
  "find_surface cat surface_id = find (\<lambda>s. srf_id s = surface_id) (cat_surfaces cat)"

definition find_environment :: "catalog_snapshot \<Rightarrow> ustring \<Rightarrow> environment option" where
  "find_environment cat environment_id = find (\<lambda>e. env_id e = environment_id) (cat_environments cat)"

definition selection_contains :: "entry_selection \<Rightarrow> ustring \<Rightarrow> bool" where
  "selection_contains selection address =
     (case selection of AllEntries \<Rightarrow> True | Entries addresses \<Rightarrow> address \<in> set addresses)"

definition selected_entries :: "binding \<Rightarrow> resource \<Rightarrow> entry_spec list" where
  "selected_entries b r = filter (\<lambda>e. selection_contains (bnd_selection b) (es_address e)) (res_entries r)"

definition get_resource :: "catalog_snapshot \<Rightarrow> ustring \<Rightarrow> catalog_error + resource" where
  "get_resource cat resource_id = ok_or (resources_by_id cat resource_id) (CatalogNotFound ''resource'' resource_id)"

section \<open>Exports\<close>

definition scope_applies :: "ustring option \<Rightarrow> binding_scope \<Rightarrow> bool" where
  "scope_applies environment_id scope =
     (case scope of CommonScope \<Rightarrow> True | EnvironmentScope e \<Rightarrow> environment_id = Some e)"

definition binding_applies ::
    "ustring \<Rightarrow> ustring option \<Rightarrow> ustring set option \<Rightarrow> binding \<Rightarrow> bool" where
  "binding_applies project_id environment_id included b \<longleftrightarrow>
     bnd_enabled b \<and> (case included of None \<Rightarrow> True | Some ids \<Rightarrow> bnd_id b \<in> ids) \<and>
     bnd_project_id b = project_id \<and> scope_applies environment_id (bnd_scope b)"

text \<open>Common bindings first, then by position and identifier.\<close>

definition binding_order :: "binding \<Rightarrow> nat \<times> int \<times> ustring" where
  "binding_order b = ((if is_environment_scope (bnd_scope b) then 1 else 0), bnd_position b, bnd_id b)"

definition export_key :: "binding \<Rightarrow> resource \<Rightarrow> entry_spec \<Rightarrow> ustring option" where
  "export_key b r e =
     (if res_shape r = Scalar then (case bnd_key_override b of Some k \<Rightarrow> Some k | None \<Rightarrow> es_key e)
      else es_key e)"

definition export_of :: "binding \<Rightarrow> resource \<Rightarrow> entry_spec \<Rightarrow> ustring \<Rightarrow> resolved_export" where
  "export_of b r e key =
     \<lparr>re_key = key, re_address = es_address e, re_binding_id = bnd_id b, re_resource_id = res_id r,
      re_resource_name = res_name r, re_sensitive = es_sensitive e, re_overrides_binding_id = None\<rparr>"

type_synonym export_state = "resolved_export list \<times> (ustring \<Rightarrow> (nat \<times> bool) option)"

definition export_entry ::
    "binding \<Rightarrow> resource \<Rightarrow> export_state \<Rightarrow> entry_spec \<Rightarrow> catalog_error + export_state" where
  "export_entry b r st e =
     (case export_key b r e of
        None \<Rightarrow> Inr st
      | Some key \<Rightarrow>
          (let (exports, by_key) = st;
               current_is_environment = is_environment_scope (bnd_scope b);
               resolved = export_of b r e key
           in case by_key key of
                Some (existing_index, existing_is_environment) \<Rightarrow>
                  if current_is_environment \<and> \<not> existing_is_environment \<and> bnd_allow_override b
                  then Inr (exports[existing_index :=
                              resolved\<lparr>re_overrides_binding_id := Some (re_binding_id (exports ! existing_index))\<rparr>],
                            by_key(key \<mapsto> (existing_index, True)))
                  else Inl (CatalogConflict key [re_binding_id (exports ! existing_index), bnd_id b])
              | None \<Rightarrow> Inr (exports @ [resolved], by_key(key \<mapsto> (length exports, current_is_environment)))))"

definition export_binding :: "catalog_snapshot \<Rightarrow> export_state \<Rightarrow> binding \<Rightarrow> catalog_error + export_state" where
  "export_binding cat st b =
     and_then (get_resource cat (bnd_resource_id b)) (\<lambda>r. try_fold (export_entry b r) st (selected_entries b r))"

definition resolve_exports ::
    "catalog_snapshot \<Rightarrow> ustring \<Rightarrow> ustring option \<Rightarrow> ustring set option \<Rightarrow> catalog_error + resolved_export list" where
  "resolve_exports cat project_id environment_id included =
     and_then (try_fold (export_binding cat) ([], \<lambda>_. None)
       (sort_key binding_order (filter (binding_applies project_id environment_id included) (cat_bindings cat))))
       (\<lambda>(exports, _). Inr exports)"

definition resolve_catalog_snapshot ::
    "catalog_snapshot \<Rightarrow> ustring \<Rightarrow> ustring \<Rightarrow> catalog_error + resolved_environment" where
  "resolve_catalog_snapshot cat project_id environment_id =
     (if \<not> list_ex (\<lambda>p. prj_id p = project_id) (cat_projects cat)
      then Inl (CatalogNotFound ''project'' project_id)
      else
        and_then (ok_or (find_environment cat environment_id) (CatalogNotFound ''environment'' environment_id)) (\<lambda>e.
          if env_project_id e \<noteq> project_id
          then Inl (CatalogValidation ''environment does not belong to project'')
          else
            and_then (resolve_exports cat project_id (Some environment_id) None) (\<lambda>exports.
              Inr \<lparr>rne_project_id = project_id, rne_environment_id = environment_id, rne_exports = exports\<rparr>)))"

definition resolve_catalog_surface :: "catalog_snapshot \<Rightarrow> ustring \<Rightarrow> catalog_error + resolved_export list" where
  "resolve_catalog_surface cat surface_id =
     and_then (ok_or (find_surface cat surface_id) (CatalogNotFound ''surface'' surface_id)) (\<lambda>s.
       if composed_format (srf_kind s) \<noteq> Some DotenvFormat \<and> composed_format (srf_kind s) \<noteq> Some DirenvFormat
       then Inl (CatalogValidation ''surface is not a keyed environment projection'')
       else
         and_then (ok_or (find_environment cat (srf_environment_id s)) (CatalogNotFound ''environment'' (srf_environment_id s))) (\<lambda>e.
           case srf_input s of
             BindingsInput binding_ids \<Rightarrow> resolve_exports cat (env_project_id e) (Some (env_id e)) (Some (set binding_ids))
           | _ \<Rightarrow> Inl (CatalogValidation ''dotenv surface requires binding input'')))"

section \<open>The semantic revision\<close>

text \<open>Everything that can change what a surface reads, in a canonical order; the JSON encoding of it is the parameter.\<close>

definition find_binding :: "catalog_snapshot \<Rightarrow> ustring \<Rightarrow> catalog_error + binding" where
  "find_binding cat binding_id =
     ok_or (find (\<lambda>b. bnd_id b = binding_id) (cat_bindings cat)) (CatalogNotFound ''binding'' binding_id)"

definition find_resource :: "catalog_snapshot \<Rightarrow> ustring \<Rightarrow> catalog_error + resource" where
  "find_resource cat resource_id =
     ok_or (find (\<lambda>r. res_id r = resource_id) (cat_resources cat)) (CatalogNotFound ''resource'' resource_id)"

record surface_meaning =
  sm_surface :: surface
  sm_environment :: environment
  sm_project :: project
  sm_bindings :: "binding list"
  sm_resources :: "resource list"
  sm_endpoints :: "(ustring \<times> string) list"

definition surface_meaning_of :: "catalog_snapshot \<Rightarrow> ustring \<Rightarrow> catalog_error + surface_meaning" where
  "surface_meaning_of cat surface_id =
     and_then (ok_or (find_surface cat surface_id) (CatalogNotFound ''surface'' surface_id)) (\<lambda>s.
     and_then (ok_or (find_environment cat (srf_environment_id s)) (CatalogNotFound ''environment'' (srf_environment_id s))) (\<lambda>e.
     and_then (ok_or (find (\<lambda>p. prj_id p = env_project_id e) (cat_projects cat))
         (CatalogNotFound ''project'' (env_project_id e))) (\<lambda>p.
     and_then (try_map (find_binding cat) (unwrap_or (input_binding_ids (srf_input s)) [])) (\<lambda>bindings.
       (let resource_ids = sorted_list_of_set (set (map bnd_resource_id bindings) \<union>
              (case srf_input s of ResourceInput r \<Rightarrow> {r} | _ \<Rightarrow> {}))
        in and_then (try_map (find_resource cat) resource_ids) (\<lambda>resources.
             Inr \<lparr>sm_surface = s, sm_environment = e, sm_project = p, sm_bindings = bindings, sm_resources = resources,
               sm_endpoints = List.map_filter (\<lambda>r. map_option (Pair r) (map_of (cat_endpoints cat) r)) resource_ids\<rparr>))))))"

definition catalog_surface_semantic_revision ::
    "(surface_meaning \<Rightarrow> bytes option) \<Rightarrow> (bytes \<Rightarrow> bytes) \<Rightarrow> catalog_snapshot \<Rightarrow> ustring \<Rightarrow> catalog_error + string" where
  "catalog_surface_semantic_revision to_vec sha256 cat surface_id =
     and_then (surface_meaning_of cat surface_id) (\<lambda>m.
     and_then (ok_or (to_vec m) CatalogEncoding) (\<lambda>canonical. Inr (to_hex (sha256 canonical))))"

text \<open>An SSH access: its identity providers in their order; projects and item metadata are left out on purpose.\<close>

record access_meaning =
  am_id :: ustring
  am_name :: ustring
  am_enforcement :: enforcement
  am_identities :: "ssh_identity_selection list"
  am_route :: ssh_route_spec
  am_providers :: "resource list"
  am_endpoints :: "(ustring \<times> string) list"

definition access_meaning_of :: "catalog_snapshot \<Rightarrow> ustring \<Rightarrow> catalog_error + access_meaning" where
  "access_meaning_of cat access_id =
     and_then (ok_or (find (\<lambda>r. res_id r = access_id \<and> res_kind r = SshAccessKind) (cat_resources cat))
         (CatalogNotFound ''SSH access'' access_id)) (\<lambda>access.
       (case res_source access of
          SshAccessSource spec \<Rightarrow>
            and_then (try_map (\<lambda>i. find_resource cat (sis_resource_id i)) (sas_identities spec)) (\<lambda>providers.
              Inr \<lparr>am_id = res_id access, am_name = res_name access, am_enforcement = res_enforcement access,
                am_identities = sas_identities spec, am_route = sas_route spec, am_providers = providers,
                am_endpoints = List.map_filter (\<lambda>i. map_option (Pair (sis_resource_id i))
                  (map_of (cat_endpoints cat) (sis_resource_id i))) (sas_identities spec)\<rparr>)
        | _ \<Rightarrow> Inl (CatalogValidation ''SSH access has an incompatible source'')))"

definition catalog_ssh_access_semantic_revision ::
    "(access_meaning \<Rightarrow> bytes option) \<Rightarrow> (bytes \<Rightarrow> bytes) \<Rightarrow> catalog_snapshot \<Rightarrow> ustring \<Rightarrow> catalog_error + string" where
  "catalog_ssh_access_semantic_revision to_vec sha256 cat access_id =
     and_then (access_meaning_of cat access_id) (\<lambda>m.
     and_then (ok_or (to_vec m) CatalogEncoding) (\<lambda>canonical. Inr (to_hex (sha256 canonical))))"

section \<open>What resolution computes\<close>

text \<open>
  The reference: every selected entry that has a key is a candidate for that key, the applying bindings
  taken in their order. A key with one candidate exports it; with two it exports the second when that one
  comes from the environment, the first does not, and overriding was allowed; anything else is a conflict.
\<close>

type_synonym candidate = "binding \<times> resource \<times> entry_spec \<times> ustring"

definition cand_key :: "candidate \<Rightarrow> ustring" where
  "cand_key = (\<lambda>(b, r, e, k). k)"

definition cand_env :: "candidate \<Rightarrow> bool" where
  "cand_env = (\<lambda>(b, r, e, k). is_environment_scope (bnd_scope b))"

definition cand_allow :: "candidate \<Rightarrow> bool" where
  "cand_allow = (\<lambda>(b, r, e, k). bnd_allow_override b)"

definition cand_export :: "candidate \<Rightarrow> resolved_export" where
  "cand_export = (\<lambda>(b, r, e, k). export_of b r e k)"

definition binding_candidates :: "catalog_snapshot \<Rightarrow> binding \<Rightarrow> candidate list" where
  "binding_candidates cat b =
     (case resources_by_id cat (bnd_resource_id b) of
        None \<Rightarrow> []
      | Some r \<Rightarrow> List.map_filter (\<lambda>e. map_option (\<lambda>k. (b, r, e, k)) (export_key b r e)) (selected_entries b r))"

definition export_candidates :: "catalog_snapshot \<Rightarrow> binding list \<Rightarrow> candidate list" where
  "export_candidates cat bs = concat (map (binding_candidates cat) bs)"

definition rivals :: "ustring \<Rightarrow> candidate list \<Rightarrow> candidate list" where
  "rivals k cs = filter (\<lambda>c. cand_key c = k) cs"

fun merge_rivals :: "candidate list \<Rightarrow> resolved_export option" where
  "merge_rivals [c] = Some (cand_export c)"
| "merge_rivals [c, d] =
     (if cand_env d \<and> \<not> cand_env c \<and> cand_allow d
      then Some ((cand_export d)\<lparr>re_overrides_binding_id := Some (re_binding_id (cand_export c))\<rparr>) else None)"
| "merge_rivals cs = None"

definition first_keys :: "candidate list \<Rightarrow> ustring list" where
  "first_keys cs = rev (remdups (rev (map cand_key cs)))"

definition applying_bindings :: "catalog_snapshot \<Rightarrow> ustring \<Rightarrow> ustring option \<Rightarrow> ustring set option \<Rightarrow> binding list" where
  "applying_bindings cat project_id environment_id included =
     sort_key binding_order (filter (binding_applies project_id environment_id included) (cat_bindings cat))"

definition cand_step :: "export_state \<Rightarrow> candidate \<Rightarrow> catalog_error + export_state" where
  "cand_step st = (\<lambda>(b, r, e, k). export_entry b r st e)"

definition cand_ok :: "candidate \<Rightarrow> bool" where
  "cand_ok = (\<lambda>(b, r, e, k). export_key b r e = Some k)"

lemmas cand_defs = cand_key_def cand_env_def cand_allow_def cand_export_def

lemma map_filter_Cons:
  "List.map_filter f (x # xs) = (case f x of None \<Rightarrow> List.map_filter f xs | Some y \<Rightarrow> y # List.map_filter f xs)"
  by (simp add: List.map_filter_def split: option.splits)

lemma export_entries_candidates:
  "try_fold (export_entry b r) st es =
   try_fold cand_step st (List.map_filter (\<lambda>e. map_option (\<lambda>k. (b, r, e, k)) (export_key b r e)) es)"
proof (induction es arbitrary: st)
  case (Cons e es)
  show ?case
  proof (cases "export_key b r e")
    case None
    then have "export_entry b r st e = Inr st" by (simp add: export_entry_def)
    with None Cons show ?thesis by (simp add: map_filter_Cons)
  next
    case (Some k)
    with Cons show ?thesis by (simp add: map_filter_Cons cand_step_def split: sum.splits)
  qed
qed (simp add: List.map_filter_def)

lemma export_candidates_simps [simp]:
  "export_candidates cat [] = []"
  "export_candidates cat (b # bs) = binding_candidates cat b @ export_candidates cat bs"
  by (simp_all add: export_candidates_def)

lemma export_bindings_candidates:
  "case try_fold (export_binding cat) st bs of
     Inr st' \<Rightarrow> (\<forall>b \<in> set bs. resources_by_id cat (bnd_resource_id b) \<noteq> None) \<and>
       try_fold cand_step st (export_candidates cat bs) = Inr st'
   | Inl e \<Rightarrow> (\<exists>b \<in> set bs. resources_by_id cat (bnd_resource_id b) = None \<and>
       e = CatalogNotFound ''resource'' (bnd_resource_id b)) \<or> try_fold cand_step st (export_candidates cat bs) = Inl e"
proof (induction bs arbitrary: st)
  case (Cons b bs)
  show ?case
  proof (cases "resources_by_id cat (bnd_resource_id b)")
    case None
    then show ?thesis by (simp add: export_binding_def get_resource_def)
  next
    case (Some r)
    then have "export_binding cat st b = try_fold cand_step st (binding_candidates cat b)"
      by (simp add: export_binding_def get_resource_def binding_candidates_def export_entries_candidates)
    with Cons [of "projr (export_binding cat st b)"] Some show ?thesis
      by (cases "export_binding cat st b") (auto simp: try_fold_append split: sum.splits)
  qed
qed simp

lemma rivals_simps [simp]:
  "rivals k [] = []"
  "rivals k (cs @ [c]) = rivals k cs @ (if cand_key c = k then [c] else [])"
  by (simp_all add: rivals_def)

lemma first_keys_simps [simp]:
  "first_keys [] = []"
  "first_keys (cs @ [c]) = (if cand_key c \<in> cand_key ` set cs then first_keys cs else first_keys cs @ [cand_key c])"
  by (auto simp: first_keys_def)

lemma first_keys_facts [simp]:
  "set (first_keys cs) = cand_key ` set cs"
  "distinct (first_keys cs)"
  by (auto simp: first_keys_def)

lemma rivals_Nil: "rivals k cs = [] \<longleftrightarrow> k \<notin> cand_key ` set cs"
  by (auto simp: rivals_def filter_empty_conv)

lemma merge_rivals_conflict: "merge_rivals cs = None \<Longrightarrow> cs \<noteq> [] \<Longrightarrow> merge_rivals (cs @ ds) = None"
  by (cases cs rule: merge_rivals.cases; cases ds) (auto split: if_splits)

lemma merge_rivals_snoc:
  assumes "merge_rivals cs = Some x" and "cand_env (last cs) \<longleftrightarrow> env"
  shows "merge_rivals (cs @ [d]) =
    (if cand_env d \<and> \<not> env \<and> cand_allow d
     then Some ((cand_export d)\<lparr>re_overrides_binding_id := Some (re_binding_id x)\<rparr>) else None)"
  using assms by (cases cs rule: merge_rivals.cases) (auto split: if_splits)

definition resolution_inv :: "candidate list \<Rightarrow> export_state \<Rightarrow> bool" where
  "resolution_inv cs st \<longleftrightarrow>
     map Some (fst st) = map (\<lambda>k. merge_rivals (rivals k cs)) (first_keys cs) \<and>
     (\<forall>k. snd st k = None \<longleftrightarrow> k \<notin> cand_key ` set cs) \<and>
     (\<forall>k i env. snd st k = Some (i, env) \<longrightarrow>
        i < length (first_keys cs) \<and> first_keys cs ! i = k \<and> env = cand_env (last (rivals k cs)))"

lemma resolution_inv_nth:
  assumes "resolution_inv cs (exports, by_key)"
  shows "length exports = length (first_keys cs)"
    and "i < length exports \<Longrightarrow> merge_rivals (rivals (first_keys cs ! i) cs) = Some (exports ! i)"
proof -
  have eq: "map Some exports = map (\<lambda>k. merge_rivals (rivals k cs)) (first_keys cs)"
    using assms by (simp add: resolution_inv_def)
  show len: "length exports = length (first_keys cs)" using arg_cong [OF eq, of length] by simp
  show "i < length exports \<Longrightarrow> merge_rivals (rivals (first_keys cs ! i) cs) = Some (exports ! i)"
    using arg_cong [OF eq, of "\<lambda>xs. xs ! i"] len by simp
qed

lemma resolution_inv_new:
  assumes inv: "resolution_inv cs (exports, by_key)" and new: "cand_key c \<notin> cand_key ` set cs"
  shows "resolution_inv (cs @ [c])
    (exports @ [cand_export c], by_key(cand_key c \<mapsto> (length exports, cand_env c)))"
proof -
  have same: "map (\<lambda>k. merge_rivals (rivals k (cs @ [c]))) (first_keys cs) = map (\<lambda>k. merge_rivals (rivals k cs)) (first_keys cs)"
    using new by (intro map_cong) auto
  have rv: "rivals (cand_key c) cs = []" using new by (simp add: rivals_Nil)
  show ?thesis using inv new rv resolution_inv_nth (1) [OF inv] same
    unfolding resolution_inv_def by (simp add: nth_append) (fastforce simp: nth_append)
qed

lemma resolution_inv_override:
  assumes inv: "resolution_inv cs (exports, by_key)" and hit: "by_key (cand_key c) = Some (i, False)"
    and env: "cand_env c" "cand_allow c"
  shows "resolution_inv (cs @ [c])
    (exports[i := (cand_export c)\<lparr>re_overrides_binding_id := Some (re_binding_id (exports ! i))\<rparr>],
     by_key(cand_key c \<mapsto> (i, True)))"
proof -
  let ?e = "(cand_export c)\<lparr>re_overrides_binding_id := Some (re_binding_id (exports ! i))\<rparr>"
  from inv hit have i: "i < length (first_keys cs)" and k: "first_keys cs ! i = cand_key c"
    and old: "\<not> cand_env (last (rivals (cand_key c) cs))" and mem: "cand_key c \<in> cand_key ` set cs"
    unfolding resolution_inv_def by fastforce+
  note len = resolution_inv_nth (1) [OF inv]
  have merged: "merge_rivals (rivals (cand_key c) cs @ [c]) = Some ?e"
    using merge_rivals_snoc [of "rivals (cand_key c) cs" "exports ! i" False c]
      resolution_inv_nth (2) [OF inv, of i] i k len old env by simp
  have "map Some (exports[i := ?e]) = map (\<lambda>k. merge_rivals (rivals k (cs @ [c]))) (first_keys cs)"
  proof (rule nth_equalityI)
    fix j assume "j < length (map Some (exports[i := ?e]))"
    then have j: "j < length (first_keys cs)" using len by simp
    have "j \<noteq> i \<Longrightarrow> first_keys cs ! j \<noteq> cand_key c"
      using i j k first_keys_facts (2) [of cs] by (metis nth_eq_iff_index_eq)
    then show "map Some (exports[i := ?e]) ! j = map (\<lambda>k. merge_rivals (rivals k (cs @ [c]))) (first_keys cs) ! j"
      using j len merged k resolution_inv_nth (2) [OF inv, of j] by (cases "j = i") auto
  qed (simp add: len)
  then show ?thesis using inv mem i k env unfolding resolution_inv_def by auto
qed

lemma resolution_step:
  assumes inv: "resolution_inv cs st" and ok: "cand_ok c"
  shows "case cand_step st c of
      Inr st' \<Rightarrow> resolution_inv (cs @ [c]) st'
    | Inl e \<Rightarrow> merge_rivals (rivals (cand_key c) (cs @ [c])) = None \<and> (\<exists>ids. e = CatalogConflict (cand_key c) ids)"
proof -
  obtain exports by_key where st: "st = (exports, by_key)" by (cases st)
  obtain b r e k where c: "c = (b, r, e, k)" by (cases c)
  show ?thesis
  proof (cases "by_key k")
    case None
    then have "k \<notin> cand_key ` set cs" using inv by (simp add: resolution_inv_def st)
    with resolution_inv_new [of cs exports by_key c] None inv ok show ?thesis
      by (simp add: st c cand_step_def cand_ok_def export_entry_def cand_defs)
  next
    case (Some p)
    obtain i env where p: "p = (i, env)" by (cases p)
    have facts: "i < length (first_keys cs)" "first_keys cs ! i = k" "cand_env (last (rivals k cs)) \<longleftrightarrow> env"
      using inv Some p by (auto simp: resolution_inv_def st)
    have merged: "merge_rivals (rivals k cs) = Some (exports ! i)"
      using resolution_inv_nth [of cs exports by_key] inv facts by (auto simp: st)
    show ?thesis
      using resolution_inv_override [of cs exports by_key c i] merge_rivals_snoc [OF merged facts(3), of c] Some p inv ok
      by (cases "is_environment_scope (bnd_scope b) \<and> \<not> env \<and> bnd_allow_override b")
        (auto simp: st c cand_step_def cand_ok_def export_entry_def cand_defs)
  qed
qed

lemma resolution_fold:
  assumes "\<forall>c \<in> set cs. cand_ok c"
  shows "case try_fold cand_step ([], \<lambda>_. None) cs of
      Inr st \<Rightarrow> resolution_inv cs st
    | Inl e \<Rightarrow> (\<exists>k \<in> cand_key ` set cs. merge_rivals (rivals k cs) = None \<and> (\<exists>ids. e = CatalogConflict k ids))"
  using assms
proof (induction cs rule: rev_induct)
  case Nil
  then show ?case by (simp add: resolution_inv_def)
next
  case (snoc c cs)
  show ?case
  proof (cases "try_fold cand_step ([], \<lambda>_. None) cs")
    case (Inl e)
    with snoc obtain k ids where "k \<in> cand_key ` set cs" "merge_rivals (rivals k cs) = None" "e = CatalogConflict k ids"
      by auto
    then have "k \<in> cand_key ` set (cs @ [c])" "merge_rivals (rivals k (cs @ [c])) = None" "e = CatalogConflict k ids"
      using merge_rivals_conflict [of "rivals k cs"] rivals_Nil [of k cs] by auto
    then show ?thesis unfolding try_fold_append Inl sum.case by blast
  next
    case (Inr st)
    with snoc have "resolution_inv cs st" and "cand_ok c" by auto
    from resolution_step [OF this] show ?thesis
      by (auto simp: try_fold_append Inr split: sum.splits)
  qed
qed

lemma export_candidates_ok: "c \<in> set (export_candidates cat bs) \<Longrightarrow> cand_ok c"
  by (auto simp: export_candidates_def binding_candidates_def List.map_filter_def cand_ok_def split: option.splits)

lemma resolve_exports_Inr:
  assumes "resolve_exports cat project_id environment_id included = Inr exports"
  defines "bs \<equiv> applying_bindings cat project_id environment_id included"
  shows "\<forall>b \<in> set bs. resources_by_id cat (bnd_resource_id b) \<noteq> None"
    and "map Some exports =
      map (\<lambda>k. merge_rivals (rivals k (export_candidates cat bs))) (first_keys (export_candidates cat bs))"
proof -
  have ok: "\<forall>c \<in> set (export_candidates cat bs). cand_ok c" using export_candidates_ok by blast
  obtain by_key where "try_fold (export_binding cat) ([], \<lambda>_. None) bs = Inr (exports, by_key)"
    using assms by (auto simp: resolve_exports_def applying_bindings_def and_then_eq_Inr)
  with export_bindings_candidates [where cat = cat and st = "([], \<lambda>_. None)" and bs = bs] resolution_fold [OF ok]
  show "\<forall>b \<in> set bs. resources_by_id cat (bnd_resource_id b) \<noteq> None"
    and "map Some exports =
      map (\<lambda>k. merge_rivals (rivals k (export_candidates cat bs))) (first_keys (export_candidates cat bs))"
    by (auto simp: resolution_inv_def)
qed

lemma merge_rivals_key: "merge_rivals (rivals k cs) = Some x \<Longrightarrow> re_key x = k"
proof -
  have "\<forall>c \<in> set (rivals k cs). re_key (cand_export c) = k"
    by (auto simp: rivals_def cand_defs export_of_def)
  then show "merge_rivals (rivals k cs) = Some x \<Longrightarrow> re_key x = k"
    by (cases "rivals k cs" rule: merge_rivals.cases) (auto split: if_splits)
qed

lemma resolved_keys:
  assumes "resolve_exports cat project_id environment_id included = Inr exports"
  shows "map re_key exports = first_keys (export_candidates cat (applying_bindings cat project_id environment_id included))"
    (is "_ = first_keys ?cs")
proof -
  note eq = resolve_exports_Inr (2) [OF assms]
  have len: "length exports = length (first_keys ?cs)" using arg_cong [OF eq, of length] by simp
  have "re_key (exports ! i) = first_keys ?cs ! i" if "i < length exports" for i
    using arg_cong [OF eq, of "\<lambda>xs. xs ! i"] that len by (auto intro: merge_rivals_key)
  then show ?thesis using len by (intro nth_equalityI) auto
qed

lemma resolved_export_origin:
  assumes "resolve_exports cat project_id environment_id included = Inr exports" and "x \<in> set exports"
  obtains b r e where "b \<in> set (applying_bindings cat project_id environment_id included)"
    and "resources_by_id cat (bnd_resource_id b) = Some r" and "e \<in> set (selected_entries b r)"
    and "export_key b r e = Some (re_key x)"
proof -
  have "re_key x \<in> set (map re_key exports)" using assms (2) by simp
  with resolved_keys [OF assms (1)] obtain c where
    c: "c \<in> set (export_candidates cat (applying_bindings cat project_id environment_id included))" "cand_key c = re_key x"
    by (metis first_keys_facts (1) imageE)
  then show ?thesis
    by (auto simp: export_candidates_def binding_candidates_def List.map_filter_def cand_key_def split: option.splits
      intro!: that [OF _ sym])
qed

text \<open>
  (C33) Resolving the exports of an environment or a surface computes exactly the reference: on success every
  applying binding names an existing resource and the exports are, for each key in order of its first
  candidate, the single candidate or the environment binding that was allowed to override a common one
  (with the overridden binding recorded); on failure either an applying binding names a missing resource,
  or the reported key is one whose candidates are in conflict.
\<close>

theorem resolve_exports_spec:
  "let bs = applying_bindings cat project_id environment_id included; cs = export_candidates cat bs in
   case resolve_exports cat project_id environment_id included of
     Inr exports \<Rightarrow> list_all (\<lambda>b. resources_by_id cat (bnd_resource_id b) \<noteq> None) bs \<and>
       map Some exports = map (\<lambda>k. merge_rivals (rivals k cs)) (first_keys cs)
   | Inl e \<Rightarrow> list_ex (\<lambda>b. resources_by_id cat (bnd_resource_id b) = None \<and>
         e = CatalogNotFound ''resource'' (bnd_resource_id b)) bs \<or>
       list_ex (\<lambda>k. merge_rivals (rivals k cs) = None \<and> (\<exists>ids. e = CatalogConflict k ids)) (first_keys cs)"
proof (cases "resolve_exports cat project_id environment_id included")
  case (Inr exports)
  with resolve_exports_Inr [OF Inr] show ?thesis by (simp add: list_all_iff)
next
  case (Inl e)
  let ?bs = "applying_bindings cat project_id environment_id included"
  have ok: "\<forall>c \<in> set (export_candidates cat ?bs). cand_ok c" using export_candidates_ok by blast
  have "try_fold (export_binding cat) ([], \<lambda>_. None) ?bs = Inl e"
    using Inl by (auto simp: resolve_exports_def applying_bindings_def and_then_eq_Inl)
  with export_bindings_candidates [where cat = cat and st = "([], \<lambda>_. None)" and bs = ?bs] resolution_fold [OF ok] Inl
  show ?thesis by (auto simp: list_ex_iff)
qed

end
