(* ===== verification/Surface_Formats.thy ===== *)
theory Surface_Formats
  imports Rust_Text
begin

text \<open>
  The formats of the surfaces (\<open>floria-surface/src/dotenv.rs\<close>, \<open>direnv.rs\<close>, \<open>ini.rs\<close>, \<open>lines.rs\<close>): parsers and
  renderers of the dotenv and INI subsets, the shell assignments of direnv and the line format. Errors keep
  the line and the kind of their message. Text is a list of Unicode scalar values.
\<close>

abbreviation NUL :: nat where "NUL \<equiv> 0"
abbreviation TAB :: nat where "TAB \<equiv> 9"
abbreviation LF :: nat where "LF \<equiv> 10"
abbreviation CR :: nat where "CR \<equiv> 13"
abbreviation DQUOTE :: nat where "DQUOTE \<equiv> 34"
abbreviation HASH :: nat where "HASH \<equiv> 35"
abbreviation DOLLAR :: nat where "DOLLAR \<equiv> 36"
abbreviation SQUOTE :: nat where "SQUOTE \<equiv> 39"
abbreviation SLASH :: nat where "SLASH \<equiv> 47"
abbreviation COLON :: nat where "COLON \<equiv> 58"
abbreviation SEMICOLON :: nat where "SEMICOLON \<equiv> 59"
abbreviation EQUALS :: nat where "EQUALS \<equiv> 61"
abbreviation LBRACKET :: nat where "LBRACKET \<equiv> 91"
abbreviation BACKSLASH :: nat where "BACKSLASH \<equiv> 92"
abbreviation RBRACKET :: nat where "RBRACKET \<equiv> 93"
abbreviation UNDERSCORE :: nat where "UNDERSCORE \<equiv> 95"
abbreviation TILDE :: nat where "TILDE \<equiv> 126"

section \<open>Errors\<close>

text \<open>The errors of the surface crate itself; those it passes on from other crates are added in the theory of
  the resolver.\<close>

datatype dotenv_reason =
    ExpectedKeyValue
  | InvalidEnvKey ustring
  | DuplicateEnvKey ustring nat
  | UnterminatedSingleQuote
  | UnterminatedDoubleQuote
  | TrailingEscape
  | TextAfterQuote

datatype ini_reason =
    UnterminatedSection
  | TextAfterSection
  | EmptySectionName
  | ExpectedEntry
  | EmptyEntryKey
  | DuplicateIniKey ustring "ustring option" nat

datatype projection_reason =
    InvalidSectionName "ustring option"
  | InvalidProjectionKey ustring
  | InvalidProjectionValue ustring
  | DuplicateProjectionKey ustring "ustring option"

datatype surface_error =
    NotFoundError string ustring
  | UnsupportedSurface ustring
  | IncompatibleResource ustring string
  | InvalidUtf8 ustring
  | DotenvParse nat dotenv_reason
  | IniParse nat ini_reason
  | IniProjection projection_reason
  | DirenvProjection projection_reason
  | MissingKey ustring ustring
  | ResourceEntriesChanged ustring "(ustring \<times> ustring option) list" "(ustring \<times> ustring option) list"
  | TooLarge nat
  | InvalidLineValue ustring
  | InvalidSurfaceId ustring
  | LinkConflict string string
  | CheckoutMaterialization ustring string
  | LinkIo string string

section \<open>Dotenv\<close>

definition DOTENV_MAX_SIZE :: nat where "DOTENV_MAX_SIZE = 2 ^ 20"

record parsed_dotenv_entry =
  pde_key :: ustring
  pde_value :: ustring

definition valid_env_key :: "ustring \<Rightarrow> bool" where
  "valid_env_key key =
     (case key of
        [] \<Rightarrow> False
      | first # chars \<Rightarrow>
          (first = UNDERSCORE \<or> is_ascii_alphabetic first) \<and>
          list_all (\<lambda>ch. ch = UNDERSCORE \<or> is_ascii_alphanumeric ch) chars)"

definition is_safe_unquoted :: "nat \<Rightarrow> bool" where
  "is_safe_unquoted ch \<longleftrightarrow> is_ascii_alphanumeric ch \<or> ch \<in> set (lit ''_./:@%+,-'')"

definition ensure_quote_suffix :: "ustring \<Rightarrow> nat \<Rightarrow> surface_error + unit" where
  "ensure_quote_suffix suffix line =
     (let suffix = trim suffix
      in if suffix = [] \<or> starts_with HASH suffix then Inr () else Inl (DotenvParse line TextAfterQuote))"

definition unescape :: "nat \<Rightarrow> nat" where
  "unescape ch = (if ch = 110 then LF else if ch = 114 then CR else if ch = 116 then TAB else ch)"

text \<open>The loop of \<open>parse_double_quoted\<close> over its value so far.\<close>

fun parse_double_quoted :: "ustring \<Rightarrow> ustring \<Rightarrow> nat \<Rightarrow> surface_error + ustring" where
  "parse_double_quoted value [] line = Inl (DotenvParse line UnterminatedDoubleQuote)"
| "parse_double_quoted value (ch # rest) line =
     (if ch = DQUOTE then and_then (ensure_quote_suffix rest line) (\<lambda>_. Inr value)
      else if ch = BACKSLASH
      then (case rest of
              [] \<Rightarrow> Inl (DotenvParse line TrailingEscape)
            | escaped # rest' \<Rightarrow> parse_double_quoted (value @ [unescape escaped]) rest' line)
      else parse_double_quoted (value @ [ch]) rest line)"

text \<open>An unquoted value ends at a comment sign behind white space.\<close>

fun cut_comment :: "bool \<Rightarrow> ustring \<Rightarrow> ustring" where
  "cut_comment previous_whitespace [] = []"
| "cut_comment previous_whitespace (ch # rest) =
     (if ch = HASH \<and> previous_whitespace then [] else ch # cut_comment (is_whitespace ch) rest)"

definition parse_value :: "ustring \<Rightarrow> nat \<Rightarrow> surface_error + ustring" where
  "parse_value input line =
     (case strip_prefix [DQUOTE] input of
        Some rest \<Rightarrow> parse_double_quoted [] rest line
      | None \<Rightarrow>
     (case strip_prefix [SQUOTE] input of
        Some rest \<Rightarrow>
          (case split_at (\<lambda>c. c = SQUOTE) rest of
             None \<Rightarrow> Inl (DotenvParse line UnterminatedSingleQuote)
           | Some (inner, suffix) \<Rightarrow> and_then (ensure_quote_suffix suffix line) (\<lambda>_. Inr inner))
      | None \<Rightarrow> Inr (trim_end (cut_comment False input))))"

definition strip_export :: "ustring \<Rightarrow> ustring" where
  "strip_export line =
     (case strip_prefix (lit ''export '') line of Some rest \<Rightarrow> trim_start rest | None \<Rightarrow> line)"

fun parse_dotenv_lines ::
    "nat \<Rightarrow> (ustring \<times> nat) list \<Rightarrow> parsed_dotenv_entry list \<Rightarrow> ustring list \<Rightarrow>
      surface_error + parsed_dotenv_entry list" where
  "parse_dotenv_lines index first_lines values [] = Inr values"
| "parse_dotenv_lines index first_lines values (raw_line # ls) =
     (let line_number = index + 1; line = trim raw_line
      in if line = [] \<or> starts_with HASH line then parse_dotenv_lines (index + 1) first_lines values ls
         else
           (case split_at (\<lambda>c. c = EQUALS) (strip_export line) of
              None \<Rightarrow> Inl (DotenvParse line_number ExpectedKeyValue)
            | Some (key, raw_value) \<Rightarrow>
                if \<not> valid_env_key (trim key) then Inl (DotenvParse line_number (InvalidEnvKey (trim key)))
                else
                  (case map_of first_lines (trim key) of
                     Some first_line \<Rightarrow> Inl (DotenvParse line_number (DuplicateEnvKey (trim key) first_line))
                   | None \<Rightarrow>
                       and_then (parse_value (trim_start raw_value) line_number) (\<lambda>value.
                         parse_dotenv_lines (index + 1) ((trim key, line_number) # first_lines)
                           (values @ [\<lparr>pde_key = trim key, pde_value = value\<rparr>]) ls))))"

definition parse_dotenv :: "ustring \<Rightarrow> surface_error + parsed_dotenv_entry list" where
  "parse_dotenv input = parse_dotenv_lines 0 [] [] (str_lines input)"

definition escape_char :: "nat \<Rightarrow> ustring" where
  "escape_char ch =
     (if ch = BACKSLASH then [BACKSLASH, BACKSLASH]
      else if ch = DQUOTE then [BACKSLASH, DQUOTE]
      else if ch = DOLLAR then [BACKSLASH, DOLLAR]
      else if ch = LF then lit [CHR 0x5C, CHR ''n'']
      else if ch = CR then lit [CHR 0x5C, CHR ''r'']
      else if ch = TAB then lit [CHR 0x5C, CHR ''t'']
      else [ch])"

definition push_value :: "ustring \<Rightarrow> ustring \<Rightarrow> ustring" where
  "push_value output value =
     (if value \<noteq> [] \<and> list_all is_safe_unquoted value then output @ value
      else output @ [DQUOTE] @ concat (map escape_char value) @ [DQUOTE])"

fun render_dotenv_loop :: "ustring \<Rightarrow> (ustring \<times> ustring) list \<Rightarrow> surface_error + ustring" where
  "render_dotenv_loop output [] = Inr output"
| "render_dotenv_loop output ((key, value) # kvs) =
     (if \<not> valid_env_key key then Inl (DotenvParse 0 (InvalidEnvKey key))
      else
        (let output = push_value (output @ key @ [EQUALS]) value @ [LF]
         in if utf8_len output > DOTENV_MAX_SIZE then Inl (TooLarge DOTENV_MAX_SIZE)
            else render_dotenv_loop output kvs))"

definition render_dotenv_refs :: "(ustring \<times> ustring) list \<Rightarrow> surface_error + bytes" where
  "render_dotenv_refs kvs = and_then (render_dotenv_loop [] kvs) (\<lambda>output. Inr (utf8 output))"

definition render_dotenv :: "(ustring \<times> ustring) list \<Rightarrow> surface_error + bytes" where
  "render_dotenv kvs = render_dotenv_refs kvs"

section \<open>Direnv\<close>

definition DIRENV_MAX_SIZE :: nat where "DIRENV_MAX_SIZE = 2 ^ 20"

text \<open>\<open>str::split\<close> at a character: one fragment more than occurrences.\<close>

fun split_char :: "nat \<Rightarrow> ustring \<Rightarrow> ustring list" where
  "split_char d [] = [[]]"
| "split_char d (c # t) =
     (if c = d then [] # split_char d t
      else (case split_char d t of [] \<Rightarrow> [[c]] | l # ls \<Rightarrow> (c # l) # ls))"

definition single_quoted :: "ustring \<Rightarrow> ustring" where
  "single_quoted value =
     (case split_char SQUOTE value of
        [] \<Rightarrow> []
      | first # fragments \<Rightarrow>
          first @ concat (map (\<lambda>fragment. [SQUOTE, BACKSLASH, SQUOTE, SQUOTE] @ fragment) fragments))"

fun render_direnv_loop :: "ustring \<Rightarrow> (ustring \<times> ustring) list \<Rightarrow> surface_error + ustring" where
  "render_direnv_loop output [] = Inr output"
| "render_direnv_loop output ((key, value) # kvs) =
     (if \<not> valid_env_key key then Inl (DirenvProjection (InvalidProjectionKey key))
      else if NUL \<in> set value then Inl (DirenvProjection (InvalidProjectionValue key))
      else
        (let output = output @ lit ''export '' @ key @ [EQUALS, SQUOTE] @ single_quoted value @ [SQUOTE, LF]
         in if utf8_len output > DIRENV_MAX_SIZE then Inl (TooLarge DIRENV_MAX_SIZE)
            else render_direnv_loop output kvs))"

definition render_direnv_refs :: "(ustring \<times> ustring) list \<Rightarrow> surface_error + bytes" where
  "render_direnv_refs kvs = and_then (render_direnv_loop [] kvs) (\<lambda>output. Inr (utf8 output))"

section \<open>Lines\<close>

definition LINES_MAX_SIZE :: nat where "LINES_MAX_SIZE = 2 ^ 20"

fun render_lines_loop :: "ustring \<Rightarrow> (ustring \<times> ustring) list \<Rightarrow> surface_error + ustring" where
  "render_lines_loop output [] = Inr output"
| "render_lines_loop output ((resource_id, value) # rest) =
     (if list_ex (\<lambda>ch. ch = LF \<or> ch = CR \<or> ch = NUL) value then Inl (InvalidLineValue resource_id)
      else
        (let output = output @ value @ [LF]
         in if utf8_len output > LINES_MAX_SIZE then Inl (TooLarge LINES_MAX_SIZE)
            else render_lines_loop output rest))"

definition render_lines_refs :: "(ustring \<times> ustring) list \<Rightarrow> surface_error + bytes" where
  "render_lines_refs values = and_then (render_lines_loop [] values) (\<lambda>output. Inr (utf8 output))"

section \<open>INI\<close>

definition INI_MAX_SIZE :: nat where "INI_MAX_SIZE = 2 ^ 20"

record parsed_ini_entry =
  pie_address :: ustring
  pie_section :: "ustring option"
  pie_key :: ustring
  pie_value :: ustring

definition replace_char :: "nat \<Rightarrow> ustring \<Rightarrow> ustring \<Rightarrow> ustring" where
  "replace_char c by t = concat (map (\<lambda>d. if d = c then by else [d]) t)"

definition escape_address_segment :: "ustring \<Rightarrow> ustring" where
  "escape_address_segment value = replace_char SLASH (lit ''~1'') (replace_char TILDE (lit ''~0'') value)"

definition entry_address :: "ustring option \<Rightarrow> ustring \<Rightarrow> ustring" where
  "entry_address section_name key =
     (case section_name of
        Some name \<Rightarrow> lit ''sections/'' @ escape_address_segment name @ lit ''/keys/'' @ escape_address_segment key
      | None \<Rightarrow> lit ''root/keys/'' @ escape_address_segment key)"

text \<open>One line that is no entry: blank or a comment, or a section header.\<close>

definition ini_skips :: "ustring \<Rightarrow> bool" where
  "ini_skips line \<longleftrightarrow> line = [] \<or> starts_with HASH line \<or> starts_with SEMICOLON line"

definition parse_section_header :: "ustring \<Rightarrow> nat \<Rightarrow> surface_error + ustring" where
  "parse_section_header line line_number =
     (case split_at (\<lambda>c. c = RBRACKET) line of
        None \<Rightarrow> Inl (IniParse line_number UnterminatedSection)
      | Some (before, after) \<Rightarrow>
          if trim after \<noteq> [] then Inl (IniParse line_number TextAfterSection)
          else
            (let name = trim (tl before)
             in if name = [] then Inl (IniParse line_number EmptySectionName) else Inr name))"

fun parse_ini_lines ::
    "nat \<Rightarrow> ustring option \<Rightarrow> ((ustring option \<times> ustring) \<times> nat) list \<Rightarrow> parsed_ini_entry list \<Rightarrow> ustring list \<Rightarrow>
      surface_error + parsed_ini_entry list" where
  "parse_ini_lines index section_name first_lines entries [] = Inr entries"
| "parse_ini_lines index section_name first_lines entries (raw_line # ls) =
     (let line_number = index + 1; line = trim raw_line
      in if ini_skips line then parse_ini_lines (index + 1) section_name first_lines entries ls
         else if starts_with LBRACKET line
         then and_then (parse_section_header line line_number) (\<lambda>name.
                parse_ini_lines (index + 1) (Some name) first_lines entries ls)
         else
           (case split_at (\<lambda>c. c = EQUALS \<or> c = COLON) line of
              None \<Rightarrow> Inl (IniParse line_number ExpectedEntry)
            | Some (before, after) \<Rightarrow>
                (let key = trim before
                 in if key = [] then Inl (IniParse line_number EmptyEntryKey)
                    else
                      (case map_of first_lines (section_name, key) of
                         Some first_line \<Rightarrow> Inl (IniParse line_number (DuplicateIniKey key section_name first_line))
                       | None \<Rightarrow>
                           parse_ini_lines (index + 1) section_name (((section_name, key), line_number) # first_lines)
                             (entries @ [\<lparr>pie_address = entry_address section_name key, pie_section = section_name,
                                pie_key = key, pie_value = trim after\<rparr>]) ls))))"

definition parse_ini :: "ustring \<Rightarrow> surface_error + parsed_ini_entry list" where
  "parse_ini input = parse_ini_lines 0 None [] [] (str_lines input)"

definition contains_any :: "nat list \<Rightarrow> ustring \<Rightarrow> bool" where
  "contains_any cs t \<longleftrightarrow> list_ex (\<lambda>c. c \<in> set cs) t"

definition validate_render_entry :: "ustring option \<Rightarrow> ustring \<Rightarrow> ustring \<Rightarrow> surface_error + unit" where
  "validate_render_entry section_name key value =
     (if (case section_name of
            None \<Rightarrow> False
          | Some name \<Rightarrow> name = [] \<or> trim name \<noteq> name \<or> contains_any [RBRACKET, LF, CR, NUL] name)
      then Inl (IniProjection (InvalidSectionName section_name))
      else if key = [] \<or> trim key \<noteq> key \<or> contains_any [EQUALS, COLON, LF, CR, NUL] key
      then Inl (IniProjection (InvalidProjectionKey key))
      else if contains_any [LF, CR, NUL] value
      then Inl (IniProjection (InvalidProjectionValue key))
      else Inr ())"

fun check_render_entries ::
    "(ustring option \<times> ustring) set \<Rightarrow> (ustring option \<times> ustring \<times> ustring) list \<Rightarrow> surface_error + unit" where
  "check_render_entries identities [] = Inr ()"
| "check_render_entries identities ((section_name, key, value) # entries) =
     and_then (validate_render_entry section_name key value) (\<lambda>_.
       if (section_name, key) \<in> identities
       then Inl (IniProjection (DuplicateProjectionKey key section_name))
       else check_render_entries (insert (section_name, key) identities) entries)"

text \<open>The body of the output loop. The root entries come first, so the branch of the source that a root
  entry follows a section is not reached; it panics.\<close>

definition section_header :: "ustring \<Rightarrow> ustring option \<Rightarrow> ustring option \<Rightarrow> ustring" where
  "section_header output active_section section_name =
     (case section_name of
        Some name \<Rightarrow>
          if active_section \<noteq> Some name
          then (if output \<noteq> [] then [LF] else []) @ [LBRACKET] @ name @ [RBRACKET, LF]
          else []
      | None \<Rightarrow> [])"

fun render_ini_loop ::
    "ustring \<Rightarrow> ustring option \<Rightarrow> bool \<Rightarrow> (ustring option \<times> ustring \<times> ustring) list \<Rightarrow>
      (string + surface_error) + ustring" where
  "render_ini_loop output active_section emitted_section [] = Inr output"
| "render_ini_loop output active_section emitted_section ((section_name, key, value) # entries) =
     (if section_name = None \<and> emitted_section
      then Inl (Inl ''root entries are canonicalized before sections'')
      else
        (let output' = output @ section_header output active_section section_name @ key @ lit '' = '' @ value @ [LF]
         in if utf8_len output' > INI_MAX_SIZE then Inl (Inr (TooLarge INI_MAX_SIZE))
            else render_ini_loop output' (if section_name = None then active_section else section_name)
                   (emitted_section \<or> section_name \<noteq> None) entries))"

definition roots_first :: "(ustring option \<times> ustring \<times> ustring) list \<Rightarrow> (ustring option \<times> ustring \<times> ustring) list" where
  "roots_first entries = filter (\<lambda>e. fst e = None) entries @ filter (\<lambda>e. fst e \<noteq> None) entries"

text \<open>The outer sum separates the panic from the errors of the call.\<close>

definition render_ini_refs ::
    "(ustring option \<times> ustring \<times> ustring) list \<Rightarrow> (string + surface_error) + bytes" where
  "render_ini_refs entries =
     (case check_render_entries {} entries of
        Inl e \<Rightarrow> Inl (Inr e)
      | Inr _ \<Rightarrow>
          and_then (render_ini_loop [] None False (roots_first entries)) (\<lambda>output. Inr (utf8 output)))"

end
