(* ===== verification/Catalog_Validation.thy ===== *)
theory Catalog_Validation
  imports Catalog_Resolve Surface_Formats
begin

text \<open>
  Validation of the catalog: the checks of one record (\<open>floria-catalog/src/catalog/validation.rs\<close> and
  \<open>floria-core/src/metadata.rs\<close>) and the checks that relate records of a snapshot
  (\<open>floria-catalog/src/catalog/snapshot.rs\<close>). A validation error keeps the constant part of its message.
\<close>

abbreviation invalid :: "string \<Rightarrow> catalog_error + 'a" where
  "invalid message \<equiv> Inl (CatalogValidation message)"

definition require :: "bool \<Rightarrow> string \<Rightarrow> catalog_error + unit" where
  "require ok message = (if ok then Inr () else invalid message)"

text \<open>A loop that checks every element and refuses a key it has already put into a hash set.\<close>

fun try_unique :: "('a \<Rightarrow> 'e + unit) \<Rightarrow> ('a \<Rightarrow> 'k) \<Rightarrow> 'e \<Rightarrow> 'k list \<Rightarrow> 'a list \<Rightarrow> 'e + unit" where
  "try_unique check key duplicate seen [] = Inr ()"
| "try_unique check key duplicate seen (x # xs) =
     and_then (check x) (\<lambda>_.
       if key x \<in> set seen then Inl duplicate else try_unique check key duplicate (key x # seen) xs)"

section \<open>Fields\<close>

definition require_name :: "ustring \<Rightarrow> string \<Rightarrow> catalog_error + unit" where
  "require_name v label = require (trim v \<noteq> []) (label @ '' cannot be empty'')"

definition require_id :: "ustring \<Rightarrow> string \<Rightarrow> catalog_error + unit" where
  "require_id v label =
     (if trim v = [] then invalid (label @ '' cannot be empty'')
      else if list_ex is_whitespace v then invalid (label @ '' cannot contain whitespace'')
      else Inr ())"

definition require_env_key :: "ustring \<Rightarrow> catalog_error + unit" where
  "require_env_key key =
     (case key of
        [] \<Rightarrow> invalid ''environment key cannot be empty''
      | first # chars \<Rightarrow>
          if \<not> (first = UNDERSCORE \<or> is_ascii_alphabetic first) \<or>
             list_ex (\<lambda>ch. \<not> (ch = UNDERSCORE \<or> is_ascii_alphanumeric ch)) chars
          then invalid ''invalid environment key'' else Inr ())"

definition is_address_char :: "nat \<Rightarrow> bool" where
  "is_address_char ch \<longleftrightarrow> is_ascii_alphanumeric ch \<or> ch \<in> set (lit ''-_.'')"

definition require_entry_address :: "ustring \<Rightarrow> catalog_error + unit" where
  "require_entry_address v =
     require (\<not> (v = [] \<or> starts_with SLASH v \<or> last v = SLASH \<or>
       list_ex (\<lambda>segment. segment = [] \<or> \<not> list_all is_address_char segment) (split_char SLASH v)))
       ''invalid entry address''"

definition is_ssh_identity_address :: "ustring \<Rightarrow> bool" where
  "is_ssh_identity_address v =
     (case strip_prefix (lit ''ssh/sha256/'') v of
        None \<Rightarrow> False
      | Some digest \<Rightarrow>
          utf8_len digest = 43 \<and> list_all (\<lambda>ch. is_ascii_alphanumeric ch \<or> ch \<in> set (lit ''-_'')) digest)"

definition require_absolute_path :: "string \<Rightarrow> string \<Rightarrow> catalog_error + unit" where
  "require_absolute_path path label = require (has_root path) (label @ '' must be absolute'')"

definition require_normalized_absolute_path :: "string \<Rightarrow> string \<Rightarrow> catalog_error + unit" where
  "require_normalized_absolute_path path label =
     and_then (require_absolute_path path label) (\<lambda>_.
       require (\<not> list_ex (\<lambda>c. c = CurDir \<or> c = ParentDir) (components path))
         (label @ '' cannot contain . or .. components''))"

text \<open>The relative path is given by its components.\<close>

definition surface_relative_path :: "string \<Rightarrow> string \<Rightarrow> catalog_error + component list" where
  "surface_relative_path path project_path =
     (if \<not> path_starts_with path project_path then invalid ''surface path must be inside project directory''
      else
        (let relative = drop (length (components project_path)) (components path)
         in if relative = [] then invalid ''surface path must be inside project directory''
            else if list_ex (\<lambda>c. case c of Normal _ \<Rightarrow> False | _ \<Rightarrow> True) relative
            then invalid ''surface relative path must contain only normal components''
            else Inr relative))"

definition path_of_text :: "ustring \<Rightarrow> string" where
  "path_of_text v = map char_of (utf8 v)"

definition require_path_component :: "ustring \<Rightarrow> string \<Rightarrow> catalog_error + unit" where
  "require_path_component v label =
     (let is_one_component = (components (path_of_text v) = [Normal (path_of_text v)]);
          has_safe_chars = list_all is_address_char v
      in require (is_one_component \<and> has_safe_chars) (label @ '' must be one filesystem-safe component''))"

section \<open>Item metadata\<close>

definition MAX_NOTE_BYTES :: nat where "MAX_NOTE_BYTES = 4096"
definition MAX_LINKS :: nat where "MAX_LINKS = 16"
definition MAX_LINK_LABEL_BYTES :: nat where "MAX_LINK_LABEL_BYTES = 100"
definition MAX_LINK_URL_BYTES :: nat where "MAX_LINK_URL_BYTES = 2048"

definition link_validate :: "item_link \<Rightarrow> string + unit" where
  "link_validate link =
     (if trim (il_label link) = [] then Inl ''metadata link label cannot be blank''
      else if utf8_len (il_label link) > MAX_LINK_LABEL_BYTES then Inl ''metadata link label cannot exceed its bound''
      else if trim (il_url link) \<noteq> il_url link \<or> list_ex is_whitespace (il_url link)
      then Inl ''metadata link URL cannot contain surrounding or embedded whitespace''
      else if utf8_len (il_url link) > MAX_LINK_URL_BYTES then Inl ''metadata link URL cannot exceed its bound''
      else
        (case (case strip_prefix (lit ''https://'') (il_url link) of
                 Some d \<Rightarrow> Some d
               | None \<Rightarrow> strip_prefix (lit ''http://'') (il_url link)) of
           None \<Rightarrow> Inl ''metadata link URL must use http:// or https://''
         | Some destination \<Rightarrow>
             (let authority = takeWhile (\<lambda>c. c \<notin> set (lit ''/?#'')) destination
              in if authority = [] \<or> list_ex (\<lambda>c. c \<in> set (lit ''@'')) authority
                 then Inl ''metadata link URL must include a host and cannot contain credentials''
                 else Inr ())))"

definition note_validate :: "ustring \<Rightarrow> string + unit" where
  "note_validate note =
     (if trim note = [] then Inl ''metadata note must be omitted instead of blank''
      else if utf8_len note > MAX_NOTE_BYTES then Inl ''metadata note cannot exceed its bound''
      else if NUL \<in> set note then Inl ''metadata note cannot contain NUL''
      else Inr ())"

definition metadata_validate :: "item_metadata \<Rightarrow> string + unit" where
  "metadata_validate m =
     and_then (case im_note m of None \<Rightarrow> Inr () | Some note \<Rightarrow> note_validate note) (\<lambda>_.
       if length (im_links m) > MAX_LINKS then Inl ''metadata cannot contain more links''
       else try_each link_validate (im_links m))"

section \<open>Projects, checkouts and environments\<close>

definition validate_project :: "project \<Rightarrow> catalog_error + unit" where
  "validate_project p =
     and_then (require_id (prj_id p) ''project id'') (\<lambda>_.
     and_then (require_name (prj_name p) ''project name'') (\<lambda>_.
       require_normalized_absolute_path (prj_path p) ''project path''))"

definition validate_checkout :: "project_checkout \<Rightarrow> catalog_error + unit" where
  "validate_checkout c =
     and_then (require_id (co_id c) ''checkout id'') (\<lambda>_.
     and_then (require_id (co_project_id c) ''checkout project id'') (\<lambda>_.
     and_then (require_normalized_absolute_path (co_path c) ''checkout path'') (\<lambda>_.
     and_then (case co_git_common_dir c of
                 None \<Rightarrow> Inr ()
               | Some d \<Rightarrow> require_normalized_absolute_path d ''checkout git common directory'') (\<lambda>_.
       (case co_kind c of
          PrimaryCheckout \<Rightarrow>
            if co_id c \<noteq> co_project_id c then invalid ''primary checkout id must match its project id''
            else if co_environment_id c \<noteq> None then invalid ''primary checkout cannot select one environment''
            else Inr ()
        | WorktreeCheckout \<Rightarrow>
            require (co_environment_id c \<noteq> None) ''worktree checkout must select an environment'')))))"

definition validate_environment :: "environment \<Rightarrow> catalog_error + unit" where
  "validate_environment e =
     and_then (require_id (env_id e) ''environment id'') (\<lambda>_.
     and_then (require_id (env_project_id e) ''environment project id'') (\<lambda>_.
       require_name (env_name e) ''environment name''))"

section \<open>SSH routes\<close>

text \<open>\<open>char::is_control\<close>: the Unicode category Cc.\<close>

definition is_control :: "nat \<Rightarrow> bool" where
  "is_control c \<longleftrightarrow> c < 32 \<or> 127 \<le> c \<and> c < 160"

definition validate_host_pattern :: "ustring \<Rightarrow> catalog_error + unit" where
  "validate_host_pattern pattern =
     require (\<not> (pattern = [] \<or> starts_with HASH pattern \<or> list_ex (\<lambda>ch. is_whitespace ch \<or> is_control ch) pattern))
       ''invalid SSH host pattern''"

definition route_text_ok :: "ustring option \<Rightarrow> bool" where
  "route_text_ok v =
     (case v of None \<Rightarrow> True | Some t \<Rightarrow> \<not> (trim t = [] \<or> list_ex (\<lambda>ch. ch = LF \<or> ch = CR \<or> ch = NUL) t))"

definition validate_ssh_route :: "ssh_route_spec \<Rightarrow> catalog_error + unit" where
  "validate_ssh_route route =
     (if srs_host_patterns route = [] then invalid ''SSH route requires at least one host pattern''
      else
        and_then (try_unique validate_host_pattern id (CatalogValidation ''SSH route repeats host pattern'') []
          (srs_host_patterns route)) (\<lambda>_.
        and_then (require (route_text_ok (srs_hostname route)) ''SSH route HostName contains invalid characters'') (\<lambda>_.
        and_then (require (route_text_ok (srs_user route)) ''SSH route User contains invalid characters'') (\<lambda>_.
          require (srs_port route \<noteq> Some 0) ''SSH route port must be greater than zero''))))"

section \<open>Resources\<close>

definition validate_entry :: "resource_codec \<Rightarrow> entry_spec \<Rightarrow> catalog_error + unit" where
  "validate_entry codec e =
     and_then (require_entry_address (es_address e)) (\<lambda>_.
     and_then (require_name (es_label e) ''resource entry label'') (\<lambda>_.
       (case es_key e of
          None \<Rightarrow> Inr ()
        | Some key \<Rightarrow> if codec = IniCodec then require_name key ''INI entry key'' else require_env_key key)))"

definition validate_entry_count :: "resource \<Rightarrow> catalog_error + unit" where
  "validate_entry_count r =
     (if res_shape r = Scalar \<and> length (res_entries r) \<noteq> 1
      then invalid ''scalar resources require exactly one entry''
      else if res_shape r = KeyValueSet \<and> (res_entries r = [] \<or> list_ex (\<lambda>e. es_key e = None) (res_entries r))
      then invalid ''key_value_set resources require at least one keyed entry''
      else if (res_shape r = BytesShape \<or> res_shape r = SshAccessShape) \<and> res_entries r \<noteq> []
      then invalid ''bytes and SSH access resources cannot declare entries''
      else if res_shape r = SocketShape \<and> list_ex (\<lambda>e. es_key e \<noteq> None) (res_entries r)
      then invalid ''socket capability entries cannot declare environment keys''
      else Inr ())"

definition shape_codec_compatible :: "value_shape \<Rightarrow> resource_codec \<Rightarrow> bool" where
  "shape_codec_compatible shape codec \<longleftrightarrow>
     shape \<in> {Scalar, BytesShape, SshIdentityShape, SocketShape, SshAccessShape} \<and> codec = OpaqueCodec \<or>
     shape = KeyValueSet \<and> codec \<in> {DotenvCodec, IniCodec}"

definition validate_kind :: "resource \<Rightarrow> catalog_error + unit" where
  "validate_kind r =
     (case (res_kind r, res_shape r, res_source r) of
        (SharedSecret, Scalar, SecretRef _ _) \<Rightarrow> Inr ()
      | (SecretKind, Scalar, SecretRef _ _) \<Rightarrow> Inr ()
      | (SecretKind, BytesShape, SecretRef _ _) \<Rightarrow> Inr ()
      | (EnvFile, KeyValueSet, SecretRef _ _) \<Rightarrow> Inr ()
      | (SshIdentityKind, SshIdentityShape, SecretRef _ _) \<Rightarrow>
          require (\<not> (res_default_env_key r \<noteq> None \<or> length (res_entries r) \<noteq> 1 \<or>
            list_ex (\<lambda>e. \<not> is_ssh_identity_address (es_address e) \<or> es_sensitive e \<or> es_key e \<noteq> None) (res_entries r)))
            ''SSH identity resource requires exactly one non-sensitive ssh/sha256 identity entry without an environment key''
      | (LiteralKind, Scalar, LiteralValue _) \<Rightarrow> Inr ()
      | (CommandKind, shape, CommandArgv argv) \<Rightarrow>
          require (shape \<in> {Scalar, KeyValueSet, BytesShape} \<and> argv \<noteq> []) ''resource kind, shape, and source are incompatible''
      | (SshAgentKind, SocketShape, SocketSource) \<Rightarrow>
          require (\<not> (res_default_env_key r \<noteq> None \<or>
            list_ex (\<lambda>e. \<not> is_ssh_identity_address (es_address e) \<or> es_sensitive e) (res_entries r)))
            ''SSH agent resource requires non-sensitive ssh/sha256 identity entries without an environment key''
      | (SshAccessKind, SshAccessShape, SshAccessSource _) \<Rightarrow>
          require (\<not> (res_default_env_key r \<noteq> None \<or> res_entries r \<noteq> [])) ''SSH access resource cannot expose environment entries''
      | _ \<Rightarrow> invalid ''resource kind, shape, and source are incompatible'')"

definition validate_identity :: "ustring list \<Rightarrow> ssh_identity_selection \<Rightarrow> catalog_error + ustring list" where
  "validate_identity seen i =
     and_then (require_id (sis_resource_id i) ''SSH identity resource id'') (\<lambda>_.
       if sis_resource_id i \<in> set seen then invalid ''SSH access repeats identity provider''
       else
         and_then (case sis_selection i of
                     AllEntries \<Rightarrow> Inr ()
                   | Entries addresses \<Rightarrow>
                       if addresses = [] then invalid ''SSH identity selection cannot be empty''
                       else try_unique require_entry_address id (CatalogValidation ''SSH access repeats identity address'') [] addresses)
           (\<lambda>_. Inr (sis_resource_id i # seen)))"

definition validate_source :: "resource \<Rightarrow> catalog_error + unit" where
  "validate_source r =
     (case res_source r of
        SecretRef secret_id managed_source_ids \<Rightarrow>
          and_then (require_id secret_id ''secret reference'') (\<lambda>_.
            if managed_source_ids \<noteq> [] \<and> res_kind r \<noteq> SshIdentityKind then invalid ''resource cannot own managed source files''
            else try_unique (\<lambda>m. require_id m ''managed source id'') id (CatalogValidation ''resource repeats store reference'')
                   [secret_id] managed_source_ids)
      | CommandArgv argv \<Rightarrow> require (\<not> list_ex (\<lambda>arg. arg = []) argv) ''command argv cannot contain empty arguments''
      | SshAccessSource spec \<Rightarrow>
          if sas_identities spec = [] then invalid ''SSH access requires at least one identity''
          else
            and_then (validate_ssh_route (sas_route spec)) (\<lambda>_.
            and_then (try_unique (\<lambda>p. require_id p ''SSH access project id'') id
              (CatalogValidation ''SSH access repeats project'') [] (sas_project_ids spec)) (\<lambda>_.
            and_then (try_fold validate_identity [] (sas_identities spec)) (\<lambda>_. Inr ())))
      | _ \<Rightarrow> Inr ())"

definition validate_resource :: "resource \<Rightarrow> catalog_error + unit" where
  "validate_resource r =
     and_then (require_id (res_id r) ''resource id'') (\<lambda>_.
     and_then (require_name (res_name r) ''resource name'') (\<lambda>_.
     and_then (map_err CatalogValidation (metadata_validate (res_metadata r))) (\<lambda>_.
     and_then (case res_default_env_key r of None \<Rightarrow> Inr () | Some key \<Rightarrow> require_env_key key) (\<lambda>_.
     and_then (try_unique (validate_entry (res_codec r)) es_address
       (CatalogValidation ''resource exposes duplicate entry address'') [] (res_entries r)) (\<lambda>_.
     and_then (validate_entry_count r) (\<lambda>_.
     and_then (require (shape_codec_compatible (res_shape r) (res_codec r)) ''resource shape is incompatible with codec'') (\<lambda>_.
     and_then (if res_codec r = DotenvCodec
               then try_unique (\<lambda>_. Inr ()) id (CatalogValidation ''dotenv resource exposes duplicate key'') []
                 (List.map_filter es_key (res_entries r))
               else Inr ()) (\<lambda>_.
     and_then (validate_kind r) (\<lambda>_.
     and_then (validate_source r) (\<lambda>_.
       require (\<not> (res_shape r = Scalar \<and> res_default_env_key r \<noteq> es_key (hd (res_entries r))))
         ''default_env_key must match the scalar entry key''))))))))))"

section \<open>Bindings and surfaces\<close>

definition validate_binding :: "binding \<Rightarrow> catalog_error + unit" where
  "validate_binding b =
     and_then (require_id (bnd_id b) ''binding id'') (\<lambda>_.
     and_then (require_id (bnd_project_id b) ''binding project id'') (\<lambda>_.
     and_then (require_id (bnd_resource_id b) ''binding resource id'') (\<lambda>_.
     and_then (case bnd_key_override b of None \<Rightarrow> Inr () | Some key \<Rightarrow> require_env_key key) (\<lambda>_.
     (let selected = (case bnd_selection b of AllEntries \<Rightarrow> [] | Entries addresses \<Rightarrow> addresses)
      in and_then (try_unique require_entry_address id
           (CatalogValidation ''binding selects duplicate entry address'') [] selected) (\<lambda>_.
         if bnd_selection b \<noteq> AllEntries \<and> selected = [] then invalid ''entry selection cannot be empty''
         else
           (case bnd_scope b of
              CommonScope \<Rightarrow>
                if bnd_allow_override b then invalid ''allow_override is only valid for environment bindings'' else Inr ()
            | EnvironmentScope environment_id \<Rightarrow> require_id environment_id ''binding environment id'')))))))"

definition validate_surface :: "surface \<Rightarrow> catalog_error + unit" where
  "validate_surface s =
     and_then (require_id (srf_id s) ''surface id'') (\<lambda>_.
     and_then (require_path_component (srf_id s) ''surface id'') (\<lambda>_.
     and_then (require_id (srf_environment_id s) ''surface environment id'') (\<lambda>_.
     and_then (require_name (srf_name s) ''surface name'') (\<lambda>_.
     and_then (case (surface_kind_is_file (srf_kind s), srf_path s) of
                 (True, Some path) \<Rightarrow> require_normalized_absolute_path path ''surface path''
               | (True, None) \<Rightarrow> invalid ''file surface requires a project path''
               | (False, None) \<Rightarrow> Inr ()
               | (False, Some _) \<Rightarrow> invalid ''capability surface cannot have a project path'') (\<lambda>_.
       (case srf_input s of
          BindingsInput binding_ids \<Rightarrow> try_each (\<lambda>b. require_id b ''surface binding id'') binding_ids
        | SshAgentInput binding_ids route \<Rightarrow>
            if srf_kind s \<noteq> UnixSocket then invalid ''ssh_agent input is only valid for a unix_socket surface''
            else
              and_then (try_each (\<lambda>b. require_id b ''surface binding id'') binding_ids) (\<lambda>_.
                (case route of None \<Rightarrow> Inr () | Some r \<Rightarrow> validate_ssh_route r))
        | ResourceInput resource_id \<Rightarrow> require_id resource_id ''surface resource id''))))))"

definition exclusive_patterns :: "ssh_route_spec \<Rightarrow> ustring list" where
  "exclusive_patterns route = filter (\<lambda>p. \<not> starts_with 33 p) (srs_host_patterns route)"

definition surface_route_patterns :: "surface \<Rightarrow> ustring list" where
  "surface_route_patterns s =
     (case srf_input s of SshAgentInput _ (Some route) \<Rightarrow> exclusive_patterns route | _ \<Rightarrow> [])"

definition access_route_patterns :: "resource \<Rightarrow> ustring list" where
  "access_route_patterns r =
     (if res_kind r = SshAccessKind
      then (case res_source r of SshAccessSource spec \<Rightarrow> exclusive_patterns (sas_route spec) | _ \<Rightarrow> [])
      else [])"

definition validate_ssh_route_conflicts :: "catalog_snapshot \<Rightarrow> catalog_error + unit" where
  "validate_ssh_route_conflicts cat =
     try_unique (\<lambda>_. Inr ()) id (CatalogValidation ''SSH host pattern is routed twice'') []
       (concat (map surface_route_patterns (cat_surfaces cat)) @ concat (map access_route_patterns (cat_resources cat)))"

section \<open>Snapshots\<close>

definition exposes_all :: "resource \<Rightarrow> ustring list \<Rightarrow> bool" where
  "exposes_all r addresses = list_all (\<lambda>address. list_ex (\<lambda>e. es_address e = address) (res_entries r)) addresses"

definition validate_binding_selection :: "catalog_snapshot \<Rightarrow> binding \<Rightarrow> catalog_error + unit" where
  "validate_binding_selection cat b =
     and_then (get_resource cat (bnd_resource_id b)) (\<lambda>r.
       (case bnd_selection b of
          AllEntries \<Rightarrow> Inr ()
        | Entries addresses \<Rightarrow>
            if \<not> exposes_all r addresses then invalid ''binding selects entries not exposed by resource''
            else if res_entries r = [] then invalid ''binding cannot select entries from flat resource''
            else Inr ()))"

definition validate_binding_selections :: "catalog_snapshot \<Rightarrow> catalog_error + unit" where
  "validate_binding_selections cat = try_each (validate_binding_selection cat) (cat_bindings cat)"

text \<open>Entries claimed under their address; the map holds the owner of each address.\<close>

definition claim_entry ::
    "ustring \<Rightarrow> (ustring \<Rightarrow> ustring option) \<Rightarrow> entry_spec \<Rightarrow> catalog_error + (ustring \<Rightarrow> ustring option)" where
  "claim_entry owner owners e =
     (case owners (es_address e) of
        Some existing \<Rightarrow> Inl (CatalogConflict (es_address e) [existing, owner])
      | None \<Rightarrow> Inr (owners(es_address e \<mapsto> owner)))"

definition selected_identities :: "ssh_identity_selection \<Rightarrow> resource \<Rightarrow> entry_spec list" where
  "selected_identities i provider =
     filter (\<lambda>e. selection_contains (sis_selection i) (es_address e)) (res_entries provider)"

definition validate_access_identity ::
    "catalog_snapshot \<Rightarrow> resource \<Rightarrow> (ustring \<Rightarrow> ustring option) \<Rightarrow> ssh_identity_selection \<Rightarrow>
     catalog_error + (ustring \<Rightarrow> ustring option)" where
  "validate_access_identity cat access owners i =
     and_then (get_resource cat (sis_resource_id i)) (\<lambda>provider.
       if res_id provider = res_id access \<or> res_kind provider \<notin> {SshIdentityKind, SshAgentKind}
       then invalid ''SSH access references non-identity resource''
       else if selected_identities i provider = [] then invalid ''SSH access selects no identities from resource''
       else if (case sis_selection i of AllEntries \<Rightarrow> False | Entries addresses \<Rightarrow> \<not> exposes_all provider addresses)
       then invalid ''SSH access selects identities not exposed by resource''
       else try_fold (claim_entry (res_id provider)) owners (selected_identities i provider))"

definition validate_ssh_access_input :: "catalog_snapshot \<Rightarrow> resource \<Rightarrow> catalog_error + unit" where
  "validate_ssh_access_input cat access =
     (case res_source access of
        SshAccessSource spec \<Rightarrow>
          and_then (try_fold (validate_access_identity cat access) (\<lambda>_. None) (sas_identities spec)) (\<lambda>_. Inr ())
      | _ \<Rightarrow> invalid ''SSH access resource has an incompatible source'')"

definition validate_ssh_access_inputs :: "catalog_snapshot \<Rightarrow> catalog_error + unit" where
  "validate_ssh_access_inputs cat =
     try_each (validate_ssh_access_input cat) (filter (\<lambda>r. res_kind r = SshAccessKind) (cat_resources cat))"

text \<open>Which members a composed format accepts, by its input model.\<close>

definition effective_key :: "binding \<Rightarrow> entry_spec \<Rightarrow> ustring option" where
  "effective_key b e = (case bnd_key_override b of Some k \<Rightarrow> Some k | None \<Rightarrow> es_key e)"

definition projection_source_ok :: "resource \<Rightarrow> bool" where
  "projection_source_ok r \<longleftrightarrow>
     (res_shape r = Scalar \<and> res_codec r = OpaqueCodec \<and> (is_secret_ref (res_source r) \<or> is_literal_source (res_source r))) \<or>
     (res_shape r = KeyValueSet \<and> res_codec r \<in> {DotenvCodec, IniCodec} \<and> is_secret_ref (res_source r))"

definition projection_entry_ok :: "binding \<Rightarrow> resource \<Rightarrow> entry_spec \<Rightarrow> bool" where
  "projection_entry_ok b r e \<longleftrightarrow>
     \<not> (res_shape r \<noteq> Scalar \<and> es_key e = None \<or>
        res_shape r = Scalar \<and> effective_key b e = None \<or>
        (case effective_key b e of None \<Rightarrow> False | Some key \<Rightarrow> \<not> is_ok (require_env_key key)))"

definition format_member_ok :: "format_spec \<Rightarrow> binding \<Rightarrow> resource \<Rightarrow> bool" where
  "format_member_ok spec b r =
     (case fsp_input spec of
        EnvironmentProjection \<Rightarrow> projection_source_ok r \<and> list_all (projection_entry_ok b r) (selected_entries b r)
      | StructuredEntries required_kind required_shape required_codec stored_only \<Rightarrow>
          res_kind r = required_kind \<and> res_shape r = required_shape \<and> res_codec r = required_codec \<and>
          (fsp_allow_key_override spec \<or> bnd_key_override b = None) \<and>
          list_all (\<lambda>e. es_key e \<noteq> None) (selected_entries b r) \<and>
          (\<not> stored_only \<or> is_secret_ref (res_source r))
      | KeylessScalars required_codec allow_literal \<Rightarrow>
          res_shape r = Scalar \<and> res_codec r = required_codec \<and>
          (fsp_allow_key_override spec \<or> bnd_key_override b = None) \<and>
          list_all (\<lambda>e. es_key e = None) (selected_entries b r) \<and>
          (is_secret_ref (res_source r) \<or> is_literal_source (res_source r) \<and> allow_literal))"

definition agent_member_ok :: "binding \<Rightarrow> resource \<Rightarrow> bool" where
  "agent_member_ok b r \<longleftrightarrow>
     (res_kind r = SshIdentityKind \<and> res_shape r = SshIdentityShape \<and> is_secret_ref (res_source r) \<or>
      res_kind r = SshAgentKind \<and> res_shape r = SocketShape \<and> res_source r = SocketSource) \<and>
     res_codec r = OpaqueCodec \<and> bnd_key_override b = None \<and> list_all (\<lambda>e. es_key e = None) (selected_entries b r)"

text \<open>The direct file surface has no members: the code marks that case unreachable, and it is one
  (\<open>surface_inputs_reach\<close>).\<close>

definition UNREACHABLE_MEMBER :: string where
  "UNREACHABLE_MEMBER = ''internal error: entered unreachable code: direct file surfaces do not have binding members''"

definition validate_composed_surface_member :: "surface \<Rightarrow> binding \<Rightarrow> resource \<Rightarrow> catalog_error + unit" where
  "validate_composed_surface_member s b r =
     (case srf_kind s of
        FileSurface (Composed format) \<Rightarrow> require (format_member_ok (format_spec_of format) b r) ''binding cannot feed surface''
      | UnixSocket \<Rightarrow> require (agent_member_ok b r) ''binding cannot feed surface''
      | FileSurface EnvFileDirect \<Rightarrow> invalid UNREACHABLE_MEMBER)"

definition validate_surface_member ::
    "catalog_snapshot \<Rightarrow> surface \<Rightarrow> environment \<Rightarrow> ustring list \<Rightarrow> ustring \<Rightarrow> catalog_error + ustring list" where
  "validate_surface_member cat s environment unique binding_id =
     (if binding_id \<in> set unique then invalid ''surface includes duplicate binding''
      else
        and_then (ok_or (bindings_by_id cat binding_id) (CatalogNotFound ''binding'' binding_id)) (\<lambda>b.
          if \<not> (bnd_project_id b = env_project_id environment \<and> scope_applies (Some (srf_environment_id s)) (bnd_scope b))
          then invalid ''binding does not apply to surface''
          else
            and_then (get_resource cat (bnd_resource_id b)) (\<lambda>r.
            and_then (validate_composed_surface_member s b r) (\<lambda>_. Inr (binding_id # unique)))))"

definition validate_surface_input :: "catalog_snapshot \<Rightarrow> surface \<Rightarrow> catalog_error + unit" where
  "validate_surface_input cat s =
     and_then (ok_or (environments_by_id cat (srf_environment_id s)) (CatalogNotFound ''environment'' (srf_environment_id s)))
       (\<lambda>environment.
         (let members = (\<lambda>binding_ids.
                and_then (try_fold (validate_surface_member cat s environment) [] binding_ids) (\<lambda>_. Inr ()))
          in case (srf_kind s, srf_input s) of
               (FileSurface (Composed _), BindingsInput binding_ids) \<Rightarrow> members binding_ids
             | (UnixSocket, BindingsInput binding_ids) \<Rightarrow> members binding_ids
             | (UnixSocket, SshAgentInput binding_ids _) \<Rightarrow> members binding_ids
             | (FileSurface EnvFileDirect, ResourceInput resource_id) \<Rightarrow>
                 and_then (get_resource cat resource_id) (\<lambda>r.
                   require (res_kind r = EnvFile \<and> res_shape r = KeyValueSet \<and> res_codec r = DotenvCodec \<and>
                     is_secret_ref (res_source r)) ''env_file_direct surface requires an env_file resource'')
             | _ \<Rightarrow> invalid ''surface kind is incompatible with its input''))"

definition validate_surface_inputs :: "catalog_snapshot \<Rightarrow> catalog_error + unit" where
  "validate_surface_inputs cat = try_each (validate_surface_input cat) (cat_surfaces cat)"

definition claim_binding ::
    "catalog_snapshot \<Rightarrow> bool \<Rightarrow> (ustring \<Rightarrow> ustring option) \<Rightarrow> ustring \<Rightarrow> catalog_error + (ustring \<Rightarrow> ustring option)" where
  "claim_binding cat skip_disabled owners binding_id =
     and_then (ok_or (bindings_by_id cat binding_id) (CatalogNotFound ''binding'' binding_id)) (\<lambda>b.
       if skip_disabled \<and> \<not> bnd_enabled b then Inr owners
       else
         and_then (get_resource cat (bnd_resource_id b)) (\<lambda>r.
           try_fold (claim_entry (bnd_id b)) owners (selected_entries b r)))"

definition validate_ssh_agent_surface_conflicts :: "catalog_snapshot \<Rightarrow> surface \<Rightarrow> catalog_error + unit" where
  "validate_ssh_agent_surface_conflicts cat s =
     (case input_binding_ids (srf_input s) of
        None \<Rightarrow> invalid ''SSH agent surface requires binding input''
      | Some binding_ids \<Rightarrow>
          and_then (try_fold (claim_binding cat False) (\<lambda>_. None) binding_ids) (\<lambda>_. Inr ()))"

definition validate_ini_surface_conflicts :: "catalog_snapshot \<Rightarrow> surface \<Rightarrow> catalog_error + unit" where
  "validate_ini_surface_conflicts cat s =
     (case srf_input s of
        BindingsInput binding_ids \<Rightarrow>
          and_then (try_fold (claim_binding cat True) (\<lambda>_. None) binding_ids) (\<lambda>_. Inr ())
      | _ \<Rightarrow> invalid ''INI surface requires binding input'')"

definition validate_surface_conflicts :: "catalog_snapshot \<Rightarrow> surface \<Rightarrow> catalog_error + unit" where
  "validate_surface_conflicts cat s =
     (case srf_kind s of
        FileSurface (Composed DotenvFormat) \<Rightarrow> and_then (resolve_catalog_surface cat (srf_id s)) (\<lambda>_. Inr ())
      | FileSurface (Composed DirenvFormat) \<Rightarrow> and_then (resolve_catalog_surface cat (srf_id s)) (\<lambda>_. Inr ())
      | FileSurface (Composed IniFormat) \<Rightarrow> validate_ini_surface_conflicts cat s
      | FileSurface (Composed LinesFormat) \<Rightarrow> Inr ()
      | FileSurface EnvFileDirect \<Rightarrow> Inr ()
      | UnixSocket \<Rightarrow> validate_ssh_agent_surface_conflicts cat s)"

definition validate_snapshot_conflicts :: "catalog_snapshot \<Rightarrow> catalog_error + unit" where
  "validate_snapshot_conflicts cat =
     and_then (validate_binding_selections cat) (\<lambda>_.
     and_then (validate_ssh_access_inputs cat) (\<lambda>_.
     and_then (validate_surface_inputs cat) (\<lambda>_.
     and_then (validate_ssh_route_conflicts cat) (\<lambda>_.
       try_each (validate_surface_conflicts cat) (cat_surfaces cat)))))"

section \<open>Lemmas\<close>

lemma require_Inr [simp]: "require ok message = Inr () \<longleftrightarrow> ok"
  by (simp add: require_def)

lemma require_True [simp]: "require True message = Inr ()"
  by simp

lemma require_env_key_ok [simp]: "is_ok (require_env_key key) \<longleftrightarrow> valid_env_key key"
  by (cases key) (auto simp: require_env_key_def valid_env_key_def list_ex_iff list_all_iff)

lemma try_unique_Inr:
  "try_unique check key duplicate seen xs = Inr () \<longleftrightarrow>
   (\<forall>x \<in> set xs. check x = Inr ()) \<and> distinct (map key xs) \<and> set seen \<inter> key ` set xs = {}"
proof (induction xs arbitrary: seen)
  case (Cons x xs)
  show ?case by (cases "check x") (auto simp: Cons.IH)
qed simp

lemma try_fold_members:
  "try_fold (validate_surface_member cat s environment) unique ids = Inr unique' \<Longrightarrow> i \<in> set ids \<Longrightarrow>
   \<exists>b r. bindings_by_id cat i = Some b \<and> resources_by_id cat (bnd_resource_id b) = Some r \<and>
     validate_composed_surface_member s b r = Inr ()"
proof (induction ids arbitrary: unique)
  case (Cons j ids)
  obtain unique1 where step: "validate_surface_member cat s environment unique j = Inr unique1"
    and rest: "try_fold (validate_surface_member cat s environment) unique1 ids = Inr unique'"
    using Cons.prems (1) by (auto split: sum.splits)
  show ?case
  proof (cases "i = j")
    case True
    with step show ?thesis
      by (auto simp: validate_surface_member_def get_resource_def and_then_eq_Inr split: if_splits)
  next
    case False
    then show ?thesis using Cons.IH [OF rest] Cons.prems (2) by simp
  qed
qed simp

lemma member_unreachable:
  "validate_composed_surface_member s b r = invalid UNREACHABLE_MEMBER \<Longrightarrow> srf_kind s = FileSurface EnvFileDirect"
  unfolding validate_composed_surface_member_def require_def UNREACHABLE_MEMBER_def
  by (cases "srf_kind s"; cases "case srf_kind s of FileSurface f \<Rightarrow> f") (auto split: if_splits)

lemma surface_inputs_reach: "validate_surface_input cat s \<noteq> invalid UNREACHABLE_MEMBER"
proof -
  have step: "validate_surface_member cat s environment unique i = invalid UNREACHABLE_MEMBER \<Longrightarrow>
      srf_kind s = FileSurface EnvFileDirect" for environment unique i
    by (auto simp: validate_surface_member_def get_resource_def and_then_eq_Inl dest: member_unreachable split: if_splits)
      (auto simp: UNREACHABLE_MEMBER_def)
  have fold: "try_fold (validate_surface_member cat s environment) unique ids = invalid UNREACHABLE_MEMBER \<Longrightarrow>
      srf_kind s = FileSurface EnvFileDirect" for environment unique ids
    by (induction ids arbitrary: unique) (auto split: sum.splits dest: step)
  show ?thesis
  proof (cases "srf_kind s = FileSurface EnvFileDirect")
    case True
    then show ?thesis
      by (auto simp: validate_surface_input_def and_then_eq_Inl get_resource_def require_def UNREACHABLE_MEMBER_def
          split: surface_input.splits if_splits)
  next
    case False
    then show ?thesis
      by (auto simp: validate_surface_input_def and_then_eq_Inl Let_def dest: fold
          split: surface_kind.splits file_backing.splits surface_input.splits)
        (auto simp: UNREACHABLE_MEMBER_def)
  qed
qed

lemma collect_map_distinct:
  assumes "distinct (map f xs)" and "x \<in> set xs"
  shows "collect_map (map (\<lambda>x. (f x, x)) xs) (f x) = Some x"
proof -
  have "distinct (map fst (rev (map (\<lambda>x. (f x, x)) xs)))"
    using assms (1) by (simp add: rev_map [symmetric] comp_def)
  then show ?thesis
    using assms (2) by (auto simp: collect_map_def intro: map_of_is_SomeI)
qed

lemma find_distinct: "distinct (map f xs) \<Longrightarrow> x \<in> set xs \<Longrightarrow> find (\<lambda>y. f y = f x) xs = Some x"
  by (induction xs) auto

lemma split_char_prefix: "d \<notin> set a \<Longrightarrow> split_char d (a @ d # t) = a # split_char d t"
  by (induction a) simp_all

lemma split_char_none: "d \<notin> set a \<Longrightarrow> split_char d a = [a]"
  by (induction a) simp_all

lemma escape_segment_id: "SLASH \<notin> set t \<Longrightarrow> TILDE \<notin> set t \<Longrightarrow> escape_address_segment t = t"
  by (induction t) (auto simp: escape_address_segment_def replace_char_def)

lemma escape_segment_set:
  "set (escape_address_segment t) = (set t - {SLASH, TILDE}) \<union>
     (if SLASH \<in> set t then {TILDE, 49} else {}) \<union> (if TILDE \<in> set t then {TILDE, 48} else {})"
  by (induction t) (auto simp: escape_address_segment_def replace_char_def)

lemma address_char_escapes: "\<not> is_address_char SLASH" "\<not> is_address_char TILDE"
  by (simp_all add: is_address_char_def is_ascii_alphanumeric_def is_ascii_alphabetic_def)

lemma escape_segment_address_chars:
  "list_all is_address_char (escape_address_segment t) \<longleftrightarrow> list_all is_address_char t"
  using address_char_escapes by (auto simp: list_all_iff escape_segment_set split: if_splits)

lemma escape_segment_no_slash: "SLASH \<notin> set (escape_address_segment t)"
  by (auto simp: escape_segment_set)

lemma escape_segment_Nil [simp]: "escape_address_segment t = [] \<longleftrightarrow> t = []"
  using escape_segment_set [of t] by (cases t) (auto simp: escape_address_segment_def replace_char_def split: if_splits)

lemma escape_segment_last: "t \<noteq> [] \<Longrightarrow> last (escape_address_segment t) \<noteq> SLASH"
  using escape_segment_no_slash [of t] last_in_set [of "escape_address_segment t"] by force

section \<open>Properties\<close>

text \<open>
  (C34) Well-typed environment files: in a snapshot that passed validation (with unique identifiers, as the
  tables have) every dotenv and direnv surface resolves, its exported names are distinct, and they are valid
  environment names, provided no binding carries a key override onto a key-value resource.
\<close>

theorem validated_surface_exports:
  assumes valid: "validate_snapshot_conflicts cat = Inr ()"
    and ids: "distinct (map bnd_id (cat_bindings cat))" "distinct (map srf_id (cat_surfaces cat))"
    and s: "s \<in> set (cat_surfaces cat)"
    and kind: "srf_kind s = FileSurface (Composed DotenvFormat) \<or> srf_kind s = FileSurface (Composed DirenvFormat)"
    and overrides: "\<forall>b \<in> set (cat_bindings cat). \<forall>r. bnd_key_override b \<noteq> None \<longrightarrow>
      resources_by_id cat (bnd_resource_id b) = Some r \<longrightarrow> res_shape r = Scalar"
  shows "\<exists>exports. resolve_catalog_surface cat (srf_id s) = Inr exports \<and> distinct (map re_key exports) \<and>
    (\<forall>x \<in> set exports. valid_env_key (re_key x))"
proof -
  have "validate_surface_conflicts cat s = Inr ()" and inputs: "validate_surface_input cat s = Inr ()"
    using valid s by (auto simp: validate_snapshot_conflicts_def validate_surface_inputs_def and_then_eq_Inr try_each_Inr)
  then obtain exports where res: "resolve_catalog_surface cat (srf_id s) = Inr exports"
    using kind by (auto simp: validate_surface_conflicts_def and_then_eq_Inr)
  have "find_surface cat (srf_id s) = Some s"
    using find_distinct [OF ids (2) s] by (simp add: find_surface_def)
  with res obtain e :: environment and ids' where input: "srf_input s = BindingsInput ids'"
    and exports: "resolve_exports cat (env_project_id e) (Some (env_id e)) (Some (set ids')) = Inr exports"
    by (cases "srf_input s") (auto simp: resolve_catalog_surface_def and_then_eq_Inr split: if_splits)
  have "valid_env_key (re_key x)" if x: "x \<in> set exports" for x
  proof -
    obtain b r entry where b: "b \<in> set (applying_bindings cat (env_project_id e) (Some (env_id e)) (Some (set ids')))"
      and r: "resources_by_id cat (bnd_resource_id b) = Some r" and entry: "entry \<in> set (selected_entries b r)"
      and key: "export_key b r entry = Some (re_key x)"
      using resolved_export_origin [OF exports x] .
    from b have mem: "b \<in> set (cat_bindings cat)" "bnd_id b \<in> set ids'"
      by (auto simp: applying_bindings_def binding_applies_def)
    have "bindings_by_id cat (bnd_id b) = Some b"
      using collect_map_distinct [OF ids (1) mem (1)] by (simp add: bindings_by_id_def)
    with inputs kind input mem (2) have "validate_composed_surface_member s b r = Inr ()"
      by (auto simp: validate_surface_input_def and_then_eq_Inr r dest!: try_fold_members)
    with kind have "projection_entry_ok b r entry"
      using entry by (auto simp: validate_composed_surface_member_def format_member_ok_def list_all_iff)
    moreover have "effective_key b entry = export_key b r entry"
      using overrides mem (1) r by (auto simp: effective_key_def export_key_def split: option.splits)
    ultimately show ?thesis using key by (simp add: projection_entry_ok_def)
  qed
  moreover have "distinct (map re_key exports)" using resolved_keys [OF exports] by simp
  ultimately show ?thesis using res by blast
qed

text \<open>A catalog with one dotenv surface over one binding; the resource and the override vary.\<close>

definition example_project :: project where
  "example_project = \<lparr>prj_id = lit ''p'', prj_name = lit ''p'', prj_path = ''/p'', prj_default_environment_id = None\<rparr>"

definition example_environment :: environment where
  "example_environment = \<lparr>env_id = lit ''e'', env_project_id = lit ''p'', env_name = lit ''e'', env_position = 0\<rparr>"

definition example_entry :: "ustring \<Rightarrow> entry_spec" where
  "example_entry key = \<lparr>es_address = entry_address None key, es_label = lit ''a'', es_key = Some key, es_sensitive = True\<rparr>"

definition example_scalar :: resource where
  "example_scalar = \<lparr>res_id = lit ''r'', res_name = lit ''r'', res_kind = LiteralKind, res_shape = Scalar,
     res_codec = OpaqueCodec, res_default_env_key = Some (lit ''K''), res_entries = [example_entry (lit ''K'')],
     res_source = LiteralValue (lit ''v''), res_enforcement = Allow, res_metadata = \<lparr>im_note = None, im_links = []\<rparr>,
     res_origin = \<lparr>ro_kind = ManualOrigin, ro_sources = []\<rparr>\<rparr>"

definition example_ini :: resource where
  "example_ini = example_scalar\<lparr>res_kind := EnvFile, res_shape := KeyValueSet, res_codec := IniCodec,
     res_default_env_key := None, res_entries := [example_entry (lit ''a-b'')], res_source := SecretRef (lit ''r'') []\<rparr>"

definition example_binding :: "ustring option \<Rightarrow> binding" where
  "example_binding override = binding_default\<lparr>bnd_id := lit ''b'', bnd_project_id := lit ''p'',
     bnd_resource_id := lit ''r'', bnd_key_override := override\<rparr>"

definition example_surface :: surface where
  "example_surface = \<lparr>srf_id = lit ''s'', srf_environment_id = lit ''e'', srf_name = lit ''s'',
     srf_kind = FileSurface (Composed DotenvFormat), srf_path = Some ''/p/.env'', srf_input = BindingsInput [lit ''b''],
     srf_enforcement = Allow, srf_position = 0\<rparr>"

definition example_catalog :: "resource \<Rightarrow> ustring option \<Rightarrow> catalog_snapshot" where
  "example_catalog r override = \<lparr>cat_projects = [example_project], cat_checkouts = [],
     cat_environments = [example_environment], cat_resources = [r], cat_endpoints = [],
     cat_bindings = [example_binding override], cat_surfaces = [example_surface]\<rparr>"

lemmas example_defs = entry_address_def escape_address_segment_def replace_char_def example_project_def example_environment_def example_entry_def example_scalar_def example_ini_def
  example_binding_def example_surface_def example_catalog_def binding_default_def

lemmas lookup_defs = resources_by_id_def bindings_by_id_def environments_by_id_def collect_map_def find_surface_def
  find_environment_def get_resource_def

lemmas check_defs = validate_binding_selections_def validate_binding_selection_def validate_ssh_access_inputs_def
  validate_surface_inputs_def validate_surface_input_def validate_surface_member_def validate_composed_surface_member_def
  format_member_ok_def projection_source_ok_def projection_entry_ok_def effective_key_def validate_ssh_route_conflicts_def
  surface_route_patterns_def access_route_patterns_def validate_surface_conflicts_def scope_applies_def selected_entries_def
  selection_contains_def

lemmas resolve_defs = resolve_catalog_surface_def resolve_exports_def export_binding_def export_entry_def export_key_def
  export_of_def binding_applies_def binding_order_def

lemma example_keys: "valid_env_key (lit ''K'')" "\<not> valid_env_key (lit ''a-b'')"
  by (simp_all add: valid_env_key_def is_ascii_alphanumeric_def is_ascii_alphabetic_def)

lemma example_scalar_valid: "validate_snapshot_conflicts (example_catalog example_scalar None) = Inr ()"
  using example_keys (1)
  by (simp add: validate_snapshot_conflicts_def check_defs resolve_defs lookup_defs example_defs)

theorem validated_surface_exports_witness:
  "\<exists>exports. resolve_catalog_surface (example_catalog example_scalar None) (srf_id example_surface) = Inr exports \<and>
     distinct (map re_key exports) \<and> (\<forall>x \<in> set exports. valid_env_key (re_key x))"
  by (rule validated_surface_exports [OF example_scalar_valid]) (simp_all add: example_defs)

lemmas field_defs = require_id_def require_name_def require_env_key_def require_entry_address_def is_address_char_def
  is_ascii_alphanumeric_def is_ascii_alphabetic_def is_whitespace_def trim_def trim_start_def trim_end_def starts_with_def
  metadata_validate_def MAX_LINKS_def validate_entry_def validate_entry_count_def shape_codec_compatible_def
  validate_kind_def validate_source_def require_path_component_def path_of_text_def utf8_def utf8_char_def
  require_normalized_absolute_path_def require_absolute_path_def components_def path_body_def has_root_def redundant_def
  component_of_def char_of_def

lemma example_records_valid:
  "validate_resource example_ini = Inr ()" "validate_binding (example_binding (Some (lit ''K''))) = Inr ()"
  "validate_surface example_surface = Inr ()"
  by (simp_all add: validate_resource_def validate_binding_def validate_surface_def field_defs example_defs)

lemma example_ini_valid: "validate_snapshot_conflicts (example_catalog example_ini (Some (lit ''K''))) = Inr ()"
  using example_keys (1)
  by (simp add: validate_snapshot_conflicts_def check_defs resolve_defs lookup_defs example_defs)

lemma example_ini_exports:
  "resolve_catalog_surface (example_catalog example_ini (Some (lit ''K''))) (srf_id example_surface) =
   Inr [export_of (example_binding (Some (lit ''K''))) example_ini (example_entry (lit ''a-b'')) (lit ''a-b'')]"
  by (simp add: check_defs resolve_defs lookup_defs example_defs)

lemma invalid_key_unrendered:
  assumes "\<exists>kv \<in> set kvs. \<not> valid_env_key (fst kv)"
  shows "\<not> is_ok (render_dotenv_refs kvs)" "\<not> is_ok (render_direnv_refs kvs)"
proof -
  have "\<not> is_ok (render_dotenv_loop out kvs) \<and> \<not> is_ok (render_direnv_loop out kvs)" for out
    using assms
  proof (induction kvs arbitrary: out)
    case (Cons kv kvs)
    then show ?case by (cases kv; cases "valid_env_key (fst kv)") (simp_all add: Let_def del: lit_simps)
  qed simp
  then show "\<not> is_ok (render_dotenv_refs kvs)" "\<not> is_ok (render_direnv_refs kvs)"
    by (auto simp: render_dotenv_refs_def render_direnv_refs_def is_ok_iff and_then_eq_Inr)
qed

lemma exported_own_key:
  assumes "resolve_exports cat project_id environment_id included = Inr exports"
    and "b \<in> set (applying_bindings cat project_id environment_id included)"
    and "resources_by_id cat (bnd_resource_id b) = Some r" "e \<in> set (selected_entries b r)" "export_key b r e = Some k"
  shows "k \<in> set (map re_key exports)"
proof -
  have "(b, r, e, k) \<in> set (export_candidates cat (applying_bindings cat project_id environment_id included))"
    using assms(2-) by (force simp: export_candidates_def binding_candidates_def List.map_filter_def)
  then have "k \<in> cand_key ` set (export_candidates cat (applying_bindings cat project_id environment_id included))"
    by (force simp: cand_key_def)
  then show ?thesis by (simp only: resolved_keys [OF assms(1)] first_keys_facts)
qed



text \<open>The catalog accepts the address the INI codec gives to an entry exactly when the key, and the section
  if there is one, are non-empty and made of letters, digits, dash, underscore and dot. No escaped character
  is ever accepted: an INI file with a slash, a tilde or a blank in a key or a section name cannot be managed.
\<close>

theorem ini_addresses_accepted:
  "require_entry_address (entry_address section_name key) = Inr () \<longleftrightarrow>
   key \<noteq> [] \<and> list_all is_address_char key \<and>
   (case section_name of None \<Rightarrow> True | Some name \<Rightarrow> name \<noteq> [] \<and> list_all is_address_char name)"
proof -
  have plain: "list_all is_address_char (lit ''root'')" "list_all is_address_char (lit ''keys'')"
    "list_all is_address_char (lit ''sections'')"
    by (simp_all add: is_address_char_def is_ascii_alphanumeric_def is_ascii_alphabetic_def)
  let ?k = "escape_address_segment key"
  show ?thesis
  proof (cases section_name)
    case None
    have "split_char SLASH (entry_address None key) = [lit ''root'', lit ''keys'', ?k]"
      using split_char_prefix [of SLASH "lit ''root''" "lit ''keys/'' @ ?k"]
        split_char_prefix [of SLASH "lit ''keys''" ?k] split_char_none [OF escape_segment_no_slash [of key]]
      by (simp add: entry_address_def)
    then show ?thesis
      using None plain escape_segment_last [of key]
      by (auto simp: require_entry_address_def entry_address_def starts_with_def escape_segment_address_chars last_append)
  next
    case (Some name)
    let ?n = "escape_address_segment name"
    have "split_char SLASH (entry_address (Some name) key) = [lit ''sections'', ?n, lit ''keys'', ?k]"
      using split_char_prefix [of SLASH "lit ''sections''" "?n @ lit ''/keys/'' @ ?k"]
        split_char_prefix [OF escape_segment_no_slash [of name], of "lit ''keys/'' @ ?k"]
        split_char_prefix [of SLASH "lit ''keys''" ?k] split_char_none [OF escape_segment_no_slash [of key]]
      by (simp add: entry_address_def)
    then show ?thesis
      using Some plain escape_segment_last [of key]
      by (auto simp: require_entry_address_def entry_address_def starts_with_def escape_segment_address_chars last_append)
  qed
qed

end
