(* ===== verification/Secret_Store.thy ===== *)
theory Secret_Store
  imports Integrity Catalog_Validation
begin

text \<open>
  The encrypted version store (\<open>floria-store/src/store.rs\<close>, with the immutable publication of \<open>vault.rs\<close>): one
  mutable head document per secret, immutable content-addressed version objects, an authenticated snapshot of
  all head documents. The packages (age encryption, SHA-256, TOML, UUIDs) are parameters; the signed key
  generation documents appear only by their outcome: the current generation and the generations this device can
  unwrap. Mutating calls hold the store lock, so each is one step; every write of a file draws its outcome from a
  script of faults, while a read that fails would change nothing and is not scripted.
\<close>

section \<open>Data\<close>

datatype store_error =
    StoreIo string
  | StoreNotFound
  | StoreKey nat
  | StoreCrypto string
  | StoreIntegrity integrity_error
  | StoreInvalid string
  | StoreCorrupt string

datatype secret_origin = FileOrigin string | ManagedOrigin ustring

datatype managed_placement =
    ProjectPlacement ustring string "ustring list"
  | HomePlacement string

fun placement_relative_path :: "managed_placement \<Rightarrow> string" where
  "placement_relative_path (ProjectPlacement p path es) = path"
| "placement_relative_path (HomePlacement path) = path"

record new_secret =
  ns_origin :: secret_origin
  ns_mode :: nat
  ns_enforcement :: enforcement
  ns_placements :: "managed_placement list"

definition new_secret_file :: "string \<Rightarrow> nat \<Rightarrow> new_secret" where
  "new_secret_file source_path mode =
     \<lparr>ns_origin = FileOrigin source_path, ns_mode = mode, ns_enforcement = Prompt, ns_placements = []\<rparr>"

definition new_secret_managed :: "ustring \<Rightarrow> new_secret" where
  "new_secret_managed label =
     \<lparr>ns_origin = ManagedOrigin label, ns_mode = 0x180, ns_enforcement = Prompt, ns_placements = []\<rparr>"

record heads_version =
  hv_version :: nat
  hv_version_uuid :: ustring
  hv_generation :: nat
  hv_size :: nat
  hv_digest :: string
  hv_created :: string
  hv_note :: "ustring option"
  hv_mutation_id :: "ustring option"

record heads_document =
  hd_format :: nat
  hd_id :: ustring
  hd_source_path :: "string option"
  hd_managed_label :: "ustring option"
  hd_mode :: nat
  hd_created :: string
  hd_current_version :: nat
  hd_enforcement :: enforcement
  hd_environment_ids :: "ustring list option"
  hd_placements :: "managed_placement list"
  hd_metadata :: item_metadata
  hd_versions :: "heads_version list"

record secret_record =
  sr_id :: ustring
  sr_origin :: secret_origin
  sr_mode :: nat
  sr_size :: nat
  sr_created :: string
  sr_current_version :: nat
  sr_enforcement :: enforcement
  sr_environment_ids :: "ustring list option"
  sr_placements :: "managed_placement list"
  sr_metadata :: item_metadata

record version_record =
  vr_version :: nat
  vr_size :: nat
  vr_created :: string
  vr_note :: "ustring option"
  vr_mutation_id :: "ustring option"

record store_version_ref =
  svr_ordinal :: nat
  svr_version_uuid :: ustring
  svr_generation :: nat
  svr_size :: nat
  svr_ciphertext_size :: nat
  svr_digest :: string

record store_verification =
  sv_secrets :: nat
  sv_versions :: nat
  sv_plaintext_bytes :: nat
  sv_secret_ids :: "ustring list"

definition STORE_FORMAT_VERSION :: nat where "STORE_FORMAT_VERSION = 5"
definition MIN_SUPPORTED_STORE_FORMAT_VERSION :: nat where "MIN_SUPPORTED_STORE_FORMAT_VERSION = 5"
definition MAX_OBJECT_BYTES :: nat where "MAX_OBJECT_BYTES = 1024 * 1024 * 1024"
definition STORE_DOMAIN :: string where "STORE_DOMAIN = ''encrypted-store-security-state''"
definition PAYLOAD_MAGIC :: bytes where "PAYLOAD_MAGIC = str_bytes ''FLORIA'' @ [0, 5]"

section \<open>Placements\<close>

text \<open>Placements compare by variant and fields, their paths by components.\<close>

fun component_key :: "component \<Rightarrow> nat \<times> string" where
  "component_key RootDir = (1, [])"
| "component_key CurDir = (2, [])"
| "component_key ParentDir = (3, [])"
| "component_key (Normal s) = (4, s)"

fun placement_key :: "managed_placement \<Rightarrow> nat \<times> ustring \<times> (nat \<times> string) list \<times> ustring list" where
  "placement_key (ProjectPlacement project_id path environment_ids) =
     (0, project_id, map component_key (components path), environment_ids)"
| "placement_key (HomePlacement path) = (1, [], map component_key (components path), [])"

definition sort_dedup :: "ustring list \<Rightarrow> ustring list" where
  "sort_dedup xs = remdups_adj (sort xs)"

fun dedup_key :: "('a \<Rightarrow> 'k) \<Rightarrow> 'a list \<Rightarrow> 'a list" where
  "dedup_key key [] = []"
| "dedup_key key [x] = [x]"
| "dedup_key key (x # y # xs) = (if key x = key y then dedup_key key (x # xs) else x # dedup_key key (y # xs))"

definition is_normal :: "component \<Rightarrow> bool" where
  "is_normal c = (case c of Normal _ \<Rightarrow> True | _ \<Rightarrow> False)"

definition blank_or_nul :: "ustring \<Rightarrow> bool" where
  "blank_or_nul t \<longleftrightarrow> trim t = [] \<or> NUL \<in> set t"

definition canonical_placement :: "managed_placement \<Rightarrow> store_error + managed_placement" where
  "canonical_placement p =
     (let path = placement_relative_path p
      in if path = [] \<or> has_root path \<or> \<not> list_all is_normal (components path)
         then Inl (StoreInvalid ''managed placement path must be a normalized relative path'')
         else
           (case p of
              HomePlacement _ \<Rightarrow> Inr p
            | ProjectPlacement project_id path environment_ids \<Rightarrow>
                if blank_or_nul project_id
                then Inl (StoreInvalid ''managed placement project id cannot be empty or contain NUL'')
                else if list_ex blank_or_nul (sort_dedup environment_ids)
                then Inl (StoreInvalid ''managed placement environment ids cannot be empty or contain NUL'')
                else Inr (ProjectPlacement project_id path (sort_dedup environment_ids))))"

fun adjacent_equal :: "'k list \<Rightarrow> bool" where
  "adjacent_equal (x # y # xs) \<longleftrightarrow> x = y \<or> adjacent_equal (y # xs)"
| "adjacent_equal xs \<longleftrightarrow> False"

definition validate_managed_placements :: "managed_placement list \<Rightarrow> store_error + unit" where
  "validate_managed_placements placements =
     and_then (try_map canonical_placement placements) (\<lambda>canonical.
       (let sorted_keys = sort (map placement_key canonical)
        in if sorted_keys \<noteq> map placement_key placements
           then Inl (StoreInvalid ''managed placements must be sorted, unique, and contain sorted unique Environment ids'')
           else if adjacent_equal sorted_keys then Inl (StoreInvalid ''managed placements must be unique'')
           else Inr ()))"

definition placement_project :: "ustring \<Rightarrow> string \<Rightarrow> ustring list \<Rightarrow> store_error + managed_placement" where
  "placement_project project_id relative_path environment_ids =
     (let placement = ProjectPlacement project_id relative_path (sort_dedup environment_ids)
      in and_then (validate_managed_placements [placement]) (\<lambda>_. Inr placement))"

definition placement_home :: "string \<Rightarrow> store_error + managed_placement" where
  "placement_home relative_path =
     (let placement = HomePlacement relative_path
      in and_then (validate_managed_placements [placement]) (\<lambda>_. Inr placement))"

section \<open>The payload binding\<close>

definition be16 :: "nat \<Rightarrow> bytes" where
  "be16 n = [n div 256 mod 256, n mod 256]"

definition u16_try_from :: "nat \<Rightarrow> nat option" where
  "u16_try_from n = (if n < 2 ^ 16 then Some n else None)"

definition encode_bound_payload :: "ustring \<Rightarrow> ustring \<Rightarrow> bytes \<Rightarrow> store_error + bytes" where
  "encode_bound_payload secret_id version_uuid plaintext =
     (let id_bytes = utf8 secret_id; uuid_bytes = utf8 version_uuid
      in and_then (ok_or (u16_try_from (length id_bytes)) (StoreInvalid ''secret id is too long'')) (\<lambda>id_len.
         and_then (ok_or (u16_try_from (length uuid_bytes)) (StoreInvalid ''version uuid is too long'')) (\<lambda>uuid_len.
           Inr (PAYLOAD_MAGIC @ be16 id_len @ id_bytes @ be16 uuid_len @ uuid_bytes @ plaintext))))"

text \<open>\<open>get(a..b)\<close> of a slice, and a length-prefixed field at a cursor.\<close>

definition slice_get :: "bytes \<Rightarrow> nat \<Rightarrow> nat \<Rightarrow> bytes option" where
  "slice_get b from to = (if from \<le> to \<and> to \<le> length b then Some (take (to - from) (drop from b)) else None)"

definition from_be16 :: "bytes \<Rightarrow> nat" where
  "from_be16 b = (case b of [hi, lo] \<Rightarrow> hi * 256 + lo | _ \<Rightarrow> 0)"

definition decode_field :: "bytes \<Rightarrow> nat \<Rightarrow> string \<Rightarrow> store_error + (bytes \<times> nat)" where
  "decode_field payload cursor truncated =
     and_then (ok_or (slice_get payload cursor (cursor + 2))
       (StoreCorrupt ''version object has a truncated context header'')) (\<lambda>len_bytes.
     (let len = from_be16 len_bytes
      in and_then (ok_or (slice_get payload (cursor + 2) (cursor + 2 + len)) (StoreCorrupt truncated)) (\<lambda>field.
           Inr (field, cursor + 2 + len))))"

definition decode_bound_payload :: "ustring \<Rightarrow> ustring \<Rightarrow> bytes \<Rightarrow> store_error + bytes" where
  "decode_bound_payload expected_id expected_uuid payload =
     (if take (length PAYLOAD_MAGIC) payload \<noteq> PAYLOAD_MAGIC
      then Inl (StoreCorrupt ''version object has no authenticated context binding'')
      else
        and_then (decode_field payload (length PAYLOAD_MAGIC) ''version object has a truncated secret id'') (\<lambda>(actual_id, cursor).
        and_then (decode_field payload cursor ''version object has a truncated version uuid'') (\<lambda>(actual_uuid, cursor).
          if actual_id \<noteq> utf8 expected_id \<or> actual_uuid \<noteq> utf8 expected_uuid
          then Inl (StoreCorrupt ''version object belongs to another version'')
          else Inr (drop cursor payload))))"

section \<open>The world of the store\<close>

text \<open>The packages: UUID parsing gives the canonical form; fresh UUIDs, times and encryption nonces are
  drawn by number.\<close>

record store_packages =
  sp_parse_uuid :: "ustring \<Rightarrow> ustring option"
  sp_new_uuid :: "nat \<Rightarrow> ustring"
  sp_now :: "nat \<Rightarrow> string"
  sp_encrypt :: "nat \<Rightarrow> nat \<Rightarrow> bytes \<Rightarrow> bytes option"
  sp_decrypt :: "nat \<Rightarrow> bytes \<Rightarrow> bytes option"
  sp_sha256 :: "bytes \<Rightarrow> bytes"
  sp_to_toml :: "heads_document \<Rightarrow> bytes option"
  sp_from_toml :: "bytes \<Rightarrow> heads_document option"

datatype store_path = SidecarPath | HeadsDirectory | HeadPath ustring

record verified_state =
  vs_sidecar_stamp :: nat
  vs_heads_directory_stamp :: nat
  vs_heads :: "(ustring \<times> heads_document \<times> nat) list"

record store_integrity =
  si_sidecar :: string
  si_generation :: nat
  si_verified :: verified_state

text \<open>A stamp stands for device, inode, size and change time of a path; every replacement gives a new one.\<close>

record store_world =
  sw_packages :: store_packages
  sw_heads :: "(ustring, state_file) hash_map"
  sw_objects :: "string \<Rightarrow> state_file option"
  sw_stamps :: "store_path \<Rightarrow> nat"
  sw_tick :: nat
  sw_entropy :: nat
  sw_generation :: "store_error + nat"
  sw_identity :: "nat \<Rightarrow> store_error + unit"
  sw_other_devices :: "store_error + bool"
  sw_auth :: "heads_document list auth_world"
  sw_integrity :: "store_integrity option"
  sw_faults :: "effect list"

type_synonym 'a store_op = "store_world \<Rightarrow> store_world \<times> (store_error + 'a)"

definition s_return :: "'a \<Rightarrow> 'a store_op" where
  "s_return x w = (w, Inr x)"

definition s_lift :: "(store_error + 'a) \<Rightarrow> 'a store_op" where
  "s_lift r w = (w, r)"

definition s_read :: "(store_world \<Rightarrow> store_error + 'a) \<Rightarrow> 'a store_op" where
  "s_read f w = (w, f w)"

definition s_bind :: "'a store_op \<Rightarrow> ('a \<Rightarrow> 'b store_op) \<Rightarrow> 'b store_op" where
  "s_bind m f w = (case m w of (w', Inl e) \<Rightarrow> (w', Inl e) | (w', Inr x) \<Rightarrow> f x w')"

definition next_effect :: "store_world \<Rightarrow> effect" where
  "next_effect w = (case sw_faults w of [] \<Rightarrow> Done | f # _ \<Rightarrow> f)"

text \<open>One write: \<open>change\<close> is what it does to the world once it takes place.\<close>

definition write_effect :: "string \<Rightarrow> (store_world \<Rightarrow> store_world) \<Rightarrow> unit store_op" where
  "write_effect what change w =
     (let w0 = w\<lparr>sw_faults := tl (sw_faults w)\<rparr>
      in case next_effect w of
           Done \<Rightarrow> (change w0, Inr ())
         | FailedBefore \<Rightarrow> (w0, Inl (StoreIo what))
         | FailedAfter \<Rightarrow> (change w0, Inl (StoreIo what)))"

definition draw :: "nat store_op" where
  "draw w = (w\<lparr>sw_entropy := Suc (sw_entropy w)\<rparr>, Inr (sw_entropy w))"

definition touch :: "store_path list \<Rightarrow> store_world \<Rightarrow> store_world" where
  "touch paths w =
     w\<lparr>sw_stamps := (\<lambda>p. if p \<in> set paths then sw_tick w else sw_stamps w p), sw_tick := Suc (sw_tick w)\<rparr>"

definition private_file :: "bytes \<Rightarrow> state_file" where
  "private_file b = \<lparr>sf_bytes = b, sf_regular = True, sf_mode = 0x180\<rparr>"

section \<open>Head documents\<close>

definition version_row_ok :: "heads_version \<Rightarrow> bool" where
  "version_row_ok v \<longleftrightarrow> hv_version v \<noteq> 0 \<and> hv_version_uuid v \<noteq> [] \<and> hv_digest v \<noteq> []"

definition heads_origin_ok :: "heads_document \<Rightarrow> bool" where
  "heads_origin_ok h =
     (case (hd_source_path h, hd_managed_label h) of
        (Some _, None) \<Rightarrow> True
      | (None, Some label) \<Rightarrow> trim label \<noteq> []
      | _ \<Rightarrow> False)"

definition check_heads :: "ustring \<Rightarrow> heads_document \<Rightarrow> store_error + heads_document" where
  "check_heads secret_id h =
     (if hd_id h \<noteq> secret_id then Inl (StoreCorrupt ''head document id does not match its filename'')
      else if \<not> (MIN_SUPPORTED_STORE_FORMAT_VERSION \<le> hd_format h \<and> hd_format h \<le> STORE_FORMAT_VERSION)
      then Inl (StoreCorrupt ''store format is not supported'')
      else if \<not> heads_origin_ok h then Inl (StoreCorrupt ''head document must contain exactly one valid secret origin'')
      else if \<not> is_ok (validate_managed_placements (hd_placements h)) then Inl (StoreCorrupt ''managed placements'')
      else if \<not> (list_all version_row_ok (hd_versions h) \<and> distinct (map hv_version (hd_versions h)))
      then Inl (StoreCorrupt ''head document version table is invalid'')
      else Inr h)"

definition read_heads :: "store_world \<Rightarrow> ustring \<Rightarrow> store_error + heads_document" where
  "read_heads w secret_id =
     (case hm_get (sw_heads w) secret_id of
        None \<Rightarrow> Inl StoreNotFound
      | Some f \<Rightarrow>
          and_then (ok_or (sp_from_toml (sw_packages w) (sf_bytes f)) (StoreCorrupt ''head document'')) (check_heads secret_id))"

definition write_heads :: "ustring \<Rightarrow> heads_document \<Rightarrow> unit store_op" where
  "write_heads secret_id h w =
     (case sp_to_toml (sw_packages w) h of
        None \<Rightarrow> (w, Inl (StoreCrypto ''serialize head document''))
      | Some t \<Rightarrow> write_effect ''write head document''
          (\<lambda>w. touch [HeadPath secret_id, HeadsDirectory]
                 (w\<lparr>sw_heads := hm_insert secret_id (private_file t) (sw_heads w)\<rparr>)) w)"

definition heads_ids :: "store_world \<Rightarrow> ustring list" where
  "heads_ids w = sort (List.map_filter (\<lambda>(stem, _). sp_parse_uuid (sw_packages w) stem) (sw_heads w))"

definition find_version :: "heads_document \<Rightarrow> nat \<Rightarrow> store_error + heads_version" where
  "find_version h ordinal = ok_or (find (\<lambda>v. hv_version v = ordinal) (hd_versions h)) StoreNotFound"

definition next_ordinal :: "heads_document \<Rightarrow> store_error + nat" where
  "next_ordinal h =
     (let top = Max (insert 0 (set (map hv_version (hd_versions h))))
      in if top + 1 < 2 ^ 32 then Inr (top + 1) else Inl (StoreInvalid ''version overflow''))"

definition validate_new_secret_origin :: "secret_origin \<Rightarrow> store_error + (string option \<times> ustring option)" where
  "validate_new_secret_origin origin =
     (case origin of
        FileOrigin source_path \<Rightarrow>
          if has_root source_path then Inr (Some source_path, None)
          else Inl (StoreInvalid ''file secret source path must be absolute'')
      | ManagedOrigin label \<Rightarrow>
          if trim label \<noteq> [] then Inr (None, Some label)
          else Inl (StoreInvalid ''managed secret label cannot be empty''))"

definition empty_metadata :: item_metadata where
  "empty_metadata = \<lparr>im_note = None, im_links = []\<rparr>"

definition new_heads_document :: "ustring \<Rightarrow> new_secret \<Rightarrow> heads_document store_op" where
  "new_heads_document secret_id meta =
     s_bind (s_lift (validate_managed_placements (ns_placements meta))) (\<lambda>_.
     s_bind (s_lift (validate_new_secret_origin (ns_origin meta))) (\<lambda>(source_path, managed_label).
     s_bind draw (\<lambda>n w.
       (w, Inr \<lparr>hd_format = STORE_FORMAT_VERSION, hd_id = secret_id, hd_source_path = source_path,
         hd_managed_label = managed_label, hd_mode = ns_mode meta, hd_created = sp_now (sw_packages w) n,
         hd_current_version = 0, hd_enforcement = ns_enforcement meta, hd_environment_ids = None,
         hd_placements = ns_placements meta, hd_metadata = empty_metadata, hd_versions = []\<rparr>))))"

section \<open>Version objects\<close>

definition hex_sha256 :: "store_packages \<Rightarrow> bytes \<Rightarrow> string" where
  "hex_sha256 pk b = to_hex (sp_sha256 pk b)"

definition read_untrusted_file :: "state_file option \<Rightarrow> nat \<Rightarrow> (store_error + bytes) option" where
  "read_untrusted_file f maximum =
     (case f of
        None \<Rightarrow> None
      | Some f \<Rightarrow>
          if \<not> sf_regular f then Some (Inl (StoreInvalid ''not a regular file''))
          else if length (sf_bytes f) > maximum then Some (Inl (StoreInvalid ''exceeds the byte format limit''))
          else Some (Inr (sf_bytes f)))"

definition publish_immutable :: "string \<Rightarrow> bytes \<Rightarrow> unit store_op" where
  "publish_immutable digest data w =
     (case read_untrusted_file (sw_objects w digest) (length data) of
        Some (Inr existing) \<Rightarrow>
          if existing = data then (w, Inr ())
          else (w, Inl (StoreInvalid ''immutable path already contains different bytes''))
      | Some (Inl e) \<Rightarrow> (w, Inl e)
      | None \<Rightarrow> write_effect ''publish object''
          (\<lambda>w. w\<lparr>sw_objects := (sw_objects w)(digest \<mapsto> private_file data)\<rparr>) w)"

definition read_object_verified :: "store_world \<Rightarrow> string \<Rightarrow> store_error + bytes" where
  "read_object_verified w digest =
     (case read_untrusted_file (sw_objects w digest) MAX_OBJECT_BYTES of
        None \<Rightarrow> Inl StoreNotFound
      | Some (Inl e) \<Rightarrow> Inl e
      | Some (Inr ciphertext) \<Rightarrow>
          if hex_sha256 (sw_packages w) ciphertext \<noteq> digest
          then Inl (StoreCorrupt ''object does not match its declared digest'')
          else Inr ciphertext)"

definition decrypt_object :: "store_world \<Rightarrow> ustring \<Rightarrow> ustring \<Rightarrow> nat \<Rightarrow> bytes \<Rightarrow> store_error + bytes" where
  "decrypt_object w secret_id version_uuid generation ciphertext =
     and_then (sw_identity w generation) (\<lambda>_.
     and_then (ok_or (sp_decrypt (sw_packages w) generation ciphertext) (StoreCrypto ''decrypt'')) (\<lambda>decrypted.
       decode_bound_payload secret_id version_uuid decrypted))"

definition decrypt_version_from_heads ::
    "store_world \<Rightarrow> ustring \<Rightarrow> heads_document \<Rightarrow> nat \<Rightarrow> store_error + bytes" where
  "decrypt_version_from_heads w secret_id h ordinal =
     and_then (find_version h ordinal) (\<lambda>v.
     and_then (read_object_verified w (hv_digest v)) (\<lambda>ciphertext.
       decrypt_object w secret_id (hv_version_uuid v) (hv_generation v) ciphertext))"

definition decrypt_version :: "store_world \<Rightarrow> ustring \<Rightarrow> nat \<Rightarrow> store_error + bytes" where
  "decrypt_version w secret_id ordinal =
     and_then (read_heads w secret_id) (\<lambda>h. decrypt_version_from_heads w secret_id h ordinal)"

definition validate_mutation_id :: "store_packages \<Rightarrow> ustring \<Rightarrow> store_error + unit" where
  "validate_mutation_id pk mutation_id =
     (if sp_parse_uuid pk mutation_id = None then Inl (StoreInvalid ''invalid mutation id'') else Inr ())"

definition write_version_object_with_identity ::
    "ustring \<Rightarrow> nat \<Rightarrow> ustring \<Rightarrow> bytes \<Rightarrow> string \<Rightarrow> ustring option \<Rightarrow> ustring option \<Rightarrow> heads_version store_op" where
  "write_version_object_with_identity secret_id ordinal version_uuid plaintext created note mutation_id w =
     (let pk = sw_packages w in
      s_bind (s_lift (if sp_parse_uuid pk version_uuid = None then Inl (StoreInvalid ''invalid version UUID'') else Inr ())) (\<lambda>_.
      s_bind (s_lift (case mutation_id of None \<Rightarrow> Inr () | Some m \<Rightarrow> validate_mutation_id pk m)) (\<lambda>_.
      s_bind (s_lift (sw_generation w)) (\<lambda>generation.
      s_bind (s_lift (sw_identity w generation)) (\<lambda>_.
      s_bind (s_lift (encode_bound_payload secret_id version_uuid plaintext)) (\<lambda>bound.
      s_bind draw (\<lambda>nonce.
      s_bind (s_lift (ok_or (sp_encrypt pk generation nonce bound) (StoreCrypto ''encrypt''))) (\<lambda>ciphertext.
        (let digest = hex_sha256 pk ciphertext
         in s_bind (publish_immutable digest ciphertext) (\<lambda>_.
              s_return \<lparr>hv_version = ordinal, hv_version_uuid = version_uuid, hv_generation = generation,
                hv_size = length plaintext, hv_digest = digest, hv_created = created, hv_note = note,
                hv_mutation_id = mutation_id\<rparr>))))))))) w)"

definition write_version_object ::
    "ustring \<Rightarrow> nat \<Rightarrow> bytes \<Rightarrow> ustring option \<Rightarrow> ustring option \<Rightarrow> heads_version store_op" where
  "write_version_object secret_id ordinal plaintext note mutation_id =
     s_bind draw (\<lambda>u. s_bind draw (\<lambda>n w.
       write_version_object_with_identity secret_id ordinal (sp_new_uuid (sw_packages w) u) plaintext
         (sp_now (sw_packages w) n) note mutation_id w))"

section \<open>The authenticated snapshot\<close>

definition security_snapshot :: "store_world \<Rightarrow> store_error + heads_document list" where
  "security_snapshot w = try_map (read_heads w) (heads_ids w)"

definition path_file :: "store_world \<Rightarrow> store_path \<Rightarrow> state_file option" where
  "path_file w p =
     (case p of
        SidecarPath \<Rightarrow> (case sw_integrity w of None \<Rightarrow> None | Some si \<Rightarrow> aw_files (sw_auth w) (si_sidecar si))
      | HeadsDirectory \<Rightarrow> None
      | HeadPath secret_id \<Rightarrow> hm_get (sw_heads w) secret_id)"

definition store_file_stamp :: "store_world \<Rightarrow> store_path \<Rightarrow> store_error + nat" where
  "store_file_stamp w p =
     (if p = HeadsDirectory then Inr (sw_stamps w p)
      else
        (case path_file w p of
           None \<Rightarrow> Inl (StoreIo ''metadata'')
         | Some f \<Rightarrow>
             if \<not> sf_regular f
             then Inl (StoreCorrupt ''authenticated store path was replaced with the wrong file type'')
             else Inr (sw_stamps w p)))"

definition validate_store_stamp :: "store_world \<Rightarrow> store_path \<Rightarrow> nat \<Rightarrow> store_error + unit" where
  "validate_store_stamp w p expected =
     and_then (store_file_stamp w p) (\<lambda>actual.
       if actual \<noteq> expected
       then Inl (StoreCorrupt ''authenticated store path changed outside the daemon transaction boundary'')
       else Inr ())"

definition capture_head :: "store_world \<Rightarrow> heads_document \<Rightarrow> store_error + (ustring \<times> heads_document \<times> nat)" where
  "capture_head w h =
     and_then (ok_or (sp_parse_uuid (sw_packages w) (hd_id h)) (StoreInvalid ''invalid secret id'')) (\<lambda>secret_id.
     and_then (store_file_stamp w (HeadPath secret_id)) (\<lambda>stamp. Inr (hd_id h, h, stamp)))"

definition capture_verified_state :: "store_world \<Rightarrow> heads_document list \<Rightarrow> store_error + verified_state" where
  "capture_verified_state w entries =
     and_then (store_file_stamp w SidecarPath) (\<lambda>sidecar_stamp.
     and_then (store_file_stamp w HeadsDirectory) (\<lambda>directory_stamp.
     and_then (try_map (capture_head w) entries) (\<lambda>heads.
       Inr \<lparr>vs_sidecar_stamp = sidecar_stamp, vs_heads_directory_stamp = directory_stamp, vs_heads = heads\<rparr>)))"

definition set_verified :: "verified_state \<Rightarrow> store_world \<Rightarrow> store_world" where
  "set_verified v w = w\<lparr>sw_integrity := map_option (\<lambda>si. si\<lparr>si_verified := v\<rparr>) (sw_integrity w)\<rparr>"

definition set_generation :: "nat \<Rightarrow> store_world \<Rightarrow> store_world" where
  "set_generation g w = w\<lparr>sw_integrity := map_option (\<lambda>si. si\<lparr>si_generation := g\<rparr>) (sw_integrity w)\<rparr>"

definition verify_security_state :: "unit store_op" where
  "verify_security_state w =
     (case sw_integrity w of
        None \<Rightarrow> (w, Inr ())
      | Some si \<Rightarrow>
          (case state_load (sw_auth w) (si_sidecar si) STORE_DOMAIN of
             (a, Inl e) \<Rightarrow> (w\<lparr>sw_auth := a\<rparr>, Inl (StoreIntegrity e))
           | (a, Inr loaded) \<Rightarrow>
               (let w = w\<lparr>sw_auth := a\<rparr> in
                case ls_value loaded of
                  None \<Rightarrow> (w, Inl (StoreCorrupt ''authenticated store snapshot is missing''))
                | Some authenticated \<Rightarrow>
                    (case security_snapshot w of
                       Inl e \<Rightarrow> (w, Inl e)
                     | Inr snapshot \<Rightarrow>
                         if authenticated \<noteq> snapshot
                         then (w, Inl (StoreCorrupt
                                ''store contents changed outside the authenticated daemon transaction boundary''))
                         else
                           (let w = set_generation (ls_generation loaded) w in
                            case capture_verified_state w authenticated of
                              Inl e \<Rightarrow> (w, Inl e)
                            | Inr v \<Rightarrow> (set_verified v w, Inr ()))))))"

text \<open>A persist that replaced the sidecar gives it a new stamp.\<close>

definition put_auth :: "string \<Rightarrow> heads_document list auth_world \<Rightarrow> store_world \<Rightarrow> store_world" where
  "put_auth sidecar a w =
     (let w' = w\<lparr>sw_auth := a\<rparr>
      in if aw_files a sidecar = aw_files (sw_auth w) sidecar then w' else touch [SidecarPath] w')"

definition seal_security_state :: "unit store_op" where
  "seal_security_state w =
     (case sw_integrity w of
        None \<Rightarrow> (w, Inr ())
      | Some si \<Rightarrow>
          (case security_snapshot w of
             Inl e \<Rightarrow> (w, Inl e)
           | Inr snapshot \<Rightarrow>
               (case state_persist (sw_auth w) (si_sidecar si) STORE_DOMAIN (si_generation si) snapshot of
                  (a, Inl e) \<Rightarrow> (put_auth (si_sidecar si) a w, Inl (StoreIntegrity e))
                | (a, Inr generation) \<Rightarrow>
                    (let w = set_generation generation (put_auth (si_sidecar si) a w) in
                     case capture_verified_state w snapshot of
                       Inl e \<Rightarrow> (w, Inl e)
                     | Inr v \<Rightarrow> (set_verified v w, Inr ())))))"

definition check_verified_paths :: "store_world \<Rightarrow> verified_state \<Rightarrow> store_error + unit" where
  "check_verified_paths w v =
     and_then (validate_store_stamp w SidecarPath (vs_sidecar_stamp v)) (\<lambda>_.
       validate_store_stamp w HeadsDirectory (vs_heads_directory_stamp v))"

definition read_verified_heads :: "store_world \<Rightarrow> ustring \<Rightarrow> store_error + heads_document" where
  "read_verified_heads w secret_id =
     (case sw_integrity w of
        None \<Rightarrow> read_heads w secret_id
      | Some si \<Rightarrow>
          and_then (check_verified_paths w (si_verified si)) (\<lambda>_.
          and_then (ok_or (map_of (vs_heads (si_verified si)) secret_id) StoreNotFound) (\<lambda>(h, stamp).
          and_then (validate_store_stamp w (HeadPath secret_id) stamp) (\<lambda>_. Inr h))))"

definition read_all_verified_heads :: "store_world \<Rightarrow> store_error + heads_document list" where
  "read_all_verified_heads w =
     (case sw_integrity w of
        None \<Rightarrow> security_snapshot w
      | Some si \<Rightarrow>
          and_then (check_verified_paths w (si_verified si)) (\<lambda>_.
          and_then (try_each (\<lambda>(i, h, stamp).
              and_then (ok_or (sp_parse_uuid (sw_packages w) i) (StoreInvalid ''invalid secret id'')) (\<lambda>secret_id.
                validate_store_stamp w (HeadPath secret_id) stamp)) (vs_heads (si_verified si))) (\<lambda>_.
            Inr (map (\<lambda>(i, h, stamp). h) (vs_heads (si_verified si))))))"

section \<open>Mutations\<close>

text \<open>The frame of every mutation: under the lock, the authenticated state is verified first and the new one
  sealed last.\<close>

definition save_heads :: "ustring \<Rightarrow> heads_document \<Rightarrow> unit store_op" where
  "save_heads secret_id h = s_bind (write_heads secret_id h) (\<lambda>_. seal_security_state)"

definition mutation_version :: "ustring option \<Rightarrow> heads_document \<Rightarrow> heads_version option" where
  "mutation_version mutation_id h =
     (case mutation_id of
        None \<Rightarrow> None
      | Some expected \<Rightarrow> find (\<lambda>v. hv_mutation_id v = Some expected) (hd_versions h))"

definition put_new :: "ustring \<Rightarrow> new_secret \<Rightarrow> bytes \<Rightarrow> ustring option \<Rightarrow> ustring store_op" where
  "put_new secret_id meta plaintext mutation_id =
     s_bind (new_heads_document secret_id meta) (\<lambda>h.
     s_bind (write_version_object secret_id 1 plaintext None mutation_id) (\<lambda>v.
     s_bind (save_heads secret_id (h\<lparr>hd_versions := hd_versions h @ [v], hd_current_version := 1\<rparr>)) (\<lambda>_.
       s_return secret_id)))"

definition put_internal :: "ustring \<Rightarrow> new_secret \<Rightarrow> bytes \<Rightarrow> ustring option \<Rightarrow> ustring store_op" where
  "put_internal secret_id meta plaintext mutation_id =
     s_bind verify_security_state (\<lambda>_ w.
       (case read_heads w secret_id of
          Inr h \<Rightarrow>
            (case mutation_version mutation_id h of
               Some v \<Rightarrow>
                 (w, and_then (decrypt_version w secret_id (hv_version v)) (\<lambda>existing.
                   if existing \<noteq> plaintext
                   then Inl (StoreInvalid ''mutation was already used for different secret bytes'')
                   else Inr secret_id))
             | None \<Rightarrow> (w, Inl (StoreInvalid ''secret id already exists for a different mutation'')))
        | Inl e \<Rightarrow> if e = StoreNotFound then put_new secret_id meta plaintext mutation_id w else (w, Inl e)))"

definition append_new :: "ustring \<Rightarrow> heads_document \<Rightarrow> bytes \<Rightarrow> ustring option \<Rightarrow> nat store_op" where
  "append_new secret_id h plaintext mutation_id =
     s_bind (s_lift (next_ordinal h)) (\<lambda>next.
     s_bind (write_version_object secret_id next plaintext None mutation_id) (\<lambda>v.
     s_bind (save_heads secret_id (h\<lparr>hd_versions := hd_versions h @ [v], hd_current_version := next\<rparr>)) (\<lambda>_.
       s_return next)))"

definition append_version_internal :: "ustring \<Rightarrow> bytes \<Rightarrow> ustring option \<Rightarrow> nat store_op" where
  "append_version_internal secret_id plaintext mutation_id =
     s_bind verify_security_state (\<lambda>_.
     s_bind (s_read (\<lambda>w. read_heads w secret_id)) (\<lambda>h.
       (case mutation_version mutation_id h of
          None \<Rightarrow> append_new secret_id h plaintext mutation_id
        | Some v \<Rightarrow>
            s_bind (s_read (\<lambda>w. decrypt_version w secret_id (hv_version v))) (\<lambda>existing.
              if existing \<noteq> plaintext
              then s_lift (Inl (StoreInvalid ''mutation was already used for different secret bytes''))
              else if hd_current_version h \<noteq> hv_version v
              then s_bind (save_heads secret_id (h\<lparr>hd_current_version := hv_version v\<rparr>)) (\<lambda>_. s_return (hv_version v))
              else s_return (hv_version v)))))"

definition store_put :: "new_secret \<Rightarrow> bytes \<Rightarrow> ustring store_op" where
  "store_put meta plaintext =
     s_bind draw (\<lambda>u w. put_internal (sp_new_uuid (sw_packages w) u) meta plaintext None w)"

definition put_identified :: "ustring \<Rightarrow> new_secret \<Rightarrow> bytes \<Rightarrow> ustring \<Rightarrow> ustring store_op" where
  "put_identified secret_id meta plaintext mutation_id w =
     s_bind (s_lift (validate_mutation_id (sw_packages w) mutation_id)) (\<lambda>_.
       put_internal secret_id meta plaintext (Some mutation_id)) w"

definition append_version :: "ustring \<Rightarrow> bytes \<Rightarrow> nat store_op" where
  "append_version secret_id plaintext = append_version_internal secret_id plaintext None"

definition append_version_identified :: "ustring \<Rightarrow> bytes \<Rightarrow> ustring \<Rightarrow> nat store_op" where
  "append_version_identified secret_id plaintext mutation_id w =
     s_bind (s_lift (validate_mutation_id (sw_packages w) mutation_id)) (\<lambda>_.
       append_version_internal secret_id plaintext (Some mutation_id)) w"

definition version_for_mutation :: "ustring \<Rightarrow> ustring \<Rightarrow> nat option store_op" where
  "version_for_mutation secret_id mutation_id w =
     s_bind (s_lift (validate_mutation_id (sw_packages w) mutation_id)) (\<lambda>_.
     s_bind verify_security_state (\<lambda>_.
     s_bind (s_read (\<lambda>w. read_heads w secret_id)) (\<lambda>h.
       s_return (map_option hv_version (mutation_version (Some mutation_id) h))))) w"

definition set_head :: "ustring \<Rightarrow> nat \<Rightarrow> unit store_op" where
  "set_head secret_id version =
     s_bind verify_security_state (\<lambda>_.
     s_bind (s_read (\<lambda>w. read_heads w secret_id)) (\<lambda>h.
     s_bind (s_lift (find_version h version)) (\<lambda>_.
       save_heads secret_id (h\<lparr>hd_current_version := version\<rparr>))))"

definition set_head_to_uuid :: "ustring \<Rightarrow> ustring \<Rightarrow> nat store_op" where
  "set_head_to_uuid secret_id version_uuid =
     s_bind verify_security_state (\<lambda>_.
     s_bind (s_read (\<lambda>w. read_heads w secret_id)) (\<lambda>h.
     s_bind (s_lift (ok_or (find (\<lambda>v. hv_version_uuid v = version_uuid) (hd_versions h)) StoreNotFound)) (\<lambda>v.
       if hd_current_version h \<noteq> hv_version v
       then s_bind (save_heads secret_id (h\<lparr>hd_current_version := hv_version v\<rparr>)) (\<lambda>_. s_return (hv_version v))
       else s_return (hv_version v))))"

fun set_placement_environments :: "ustring list \<Rightarrow> managed_placement \<Rightarrow> managed_placement" where
  "set_placement_environments es (ProjectPlacement project_id path _) = ProjectPlacement project_id path (sort_dedup es)"
| "set_placement_environments es (HomePlacement path) = HomePlacement path"

definition settings_placements :: "ustring list option \<Rightarrow> managed_placement list \<Rightarrow> managed_placement list" where
  "settings_placements environment_ids ps =
     dedup_key placement_key (sort_key placement_key (map (set_placement_environments (unwrap_or environment_ids [])) ps))"

definition update_settings :: "ustring \<Rightarrow> item_metadata \<Rightarrow> enforcement \<Rightarrow> ustring list option \<Rightarrow> unit store_op" where
  "update_settings secret_id metadata enforcement environment_ids =
     s_bind (s_lift (map_err StoreInvalid (metadata_validate metadata))) (\<lambda>_.
     s_bind verify_security_state (\<lambda>_.
     s_bind (s_read (\<lambda>w. read_heads w secret_id)) (\<lambda>h.
       save_heads secret_id (h\<lparr>hd_metadata := metadata, hd_enforcement := enforcement,
         hd_environment_ids := environment_ids,
         hd_placements := settings_placements environment_ids (hd_placements h)\<rparr>))))"

definition update_placements :: "ustring \<Rightarrow> managed_placement list \<Rightarrow> unit store_op" where
  "update_placements secret_id placements =
     s_bind (s_lift (validate_managed_placements placements)) (\<lambda>_.
     s_bind verify_security_state (\<lambda>_.
     s_bind (s_read (\<lambda>w. read_heads w secret_id)) (\<lambda>h.
       save_heads secret_id (h\<lparr>hd_placements := placements\<rparr>))))"

definition apply_replicated_settings ::
    "ustring \<Rightarrow> ustring \<Rightarrow> nat \<Rightarrow> item_metadata \<Rightarrow> enforcement \<Rightarrow> ustring list option \<Rightarrow> managed_placement list \<Rightarrow> unit store_op" where
  "apply_replicated_settings secret_id label mode metadata enforcement environment_ids placements =
     s_bind (s_lift (if blank_or_nul label then Inl (StoreInvalid ''replicated secret label cannot be empty or contain NUL'')
                     else if mode div 512 \<noteq> 0
                     then Inl (StoreInvalid ''replicated secret mode must contain only permission bits'')
                     else Inr ())) (\<lambda>_.
     s_bind (s_lift (map_err StoreInvalid (metadata_validate metadata))) (\<lambda>_.
     s_bind (s_lift (validate_managed_placements placements)) (\<lambda>_.
     s_bind verify_security_state (\<lambda>_.
     s_bind (s_read (\<lambda>w. read_heads w secret_id)) (\<lambda>h.
       save_heads secret_id (h\<lparr>hd_mode := mode,
         hd_managed_label := (if hd_source_path h = None then Some label else hd_managed_label h),
         hd_metadata := metadata, hd_enforcement := enforcement, hd_environment_ids := environment_ids,
         hd_placements := placements\<rparr>))))))"

text \<open>Removing the head file; the objects of a solo vault go first.\<close>

definition remove_object :: "heads_version \<Rightarrow> unit store_op" where
  "remove_object v w =
     (case sw_objects w (hv_digest v) of
        None \<Rightarrow> (w, Inr ())
      | Some _ \<Rightarrow> write_effect ''remove object'' (\<lambda>w. w\<lparr>sw_objects := (sw_objects w)(hv_digest v := None)\<rparr>) w)"

fun s_each :: "('a \<Rightarrow> unit store_op) \<Rightarrow> 'a list \<Rightarrow> unit store_op" where
  "s_each f [] = s_return ()"
| "s_each f (x # xs) = s_bind (f x) (\<lambda>_. s_each f xs)"

definition remove_head_file :: "ustring \<Rightarrow> unit store_op" where
  "remove_head_file secret_id w =
     (case hm_get (sw_heads w) secret_id of
        None \<Rightarrow> (w, Inl StoreNotFound)
      | Some _ \<Rightarrow> write_effect ''remove head document''
          (\<lambda>w. touch [HeadsDirectory] (w\<lparr>sw_heads := hm_remove secret_id (sw_heads w)\<rparr>)) w)"

definition store_delete :: "ustring \<Rightarrow> unit store_op" where
  "store_delete secret_id =
     s_bind verify_security_state (\<lambda>_.
     s_bind (s_read (\<lambda>w. read_heads w secret_id)) (\<lambda>h.
     s_bind (s_read sw_other_devices) (\<lambda>others.
     s_bind (if others then s_return () else s_each remove_object (hd_versions h)) (\<lambda>_.
     s_bind (remove_head_file secret_id) (\<lambda>_. seal_security_state)))))"

definition remove_replicated_heads :: "ustring \<Rightarrow> bool store_op" where
  "remove_replicated_heads secret_id =
     s_bind verify_security_state (\<lambda>_ w.
       if hm_get (sw_heads w) secret_id = None then (w, Inr False)
       else s_bind (remove_head_file secret_id) (\<lambda>_. s_bind seal_security_state (\<lambda>_. s_return True)) w)"

section \<open>Replicated versions\<close>

definition add_replicated_row ::
    "ustring \<Rightarrow> heads_document \<Rightarrow> ustring \<Rightarrow> nat \<Rightarrow> nat \<Rightarrow> string \<Rightarrow> ustring \<Rightarrow> nat store_op" where
  "add_replicated_row secret_id h version_uuid generation expected_size digest mutation_id =
     s_bind (s_lift (next_ordinal h)) (\<lambda>ordinal.
     s_bind draw (\<lambda>n w.
       (let h' = h\<lparr>hd_versions := hd_versions h @ [\<lparr>hv_version = ordinal, hv_version_uuid = version_uuid,
                   hv_generation = generation, hv_size = expected_size, hv_digest = digest,
                   hv_created = sp_now (sw_packages w) n, hv_note = None, hv_mutation_id = Some mutation_id\<rparr>]\<rparr>;
            h'' = (if length (hd_versions h') = 1 then h'\<lparr>hd_current_version := ordinal\<rparr> else h')
        in s_bind (save_heads secret_id h'') (\<lambda>_. s_return ordinal) w)))"

definition heads_if_any :: "store_world \<Rightarrow> ustring \<Rightarrow> store_error + heads_document option" where
  "heads_if_any w secret_id =
     (case read_heads w secret_id of
        Inr h \<Rightarrow> Inr (Some h)
      | Inl e \<Rightarrow> if e = StoreNotFound then Inr None else Inl e)"

definition replicated_heads :: "ustring \<Rightarrow> heads_document option \<Rightarrow> new_secret option \<Rightarrow> heads_document store_op" where
  "replicated_heads secret_id existing create =
     (case existing of
        Some h \<Rightarrow> s_return h
      | None \<Rightarrow>
          (case create of
             None \<Rightarrow> s_lift (Inl (StoreInvalid ''secret does not exist locally and no descriptor was provided''))
           | Some meta \<Rightarrow> new_heads_document secret_id meta))"

definition register_replicated_version ::
    "ustring \<Rightarrow> new_secret option \<Rightarrow> ustring \<Rightarrow> nat \<Rightarrow> nat \<Rightarrow> string \<Rightarrow> ustring \<Rightarrow> nat store_op" where
  "register_replicated_version secret_id create version_uuid generation expected_size digest mutation_id w0 =
     s_bind (s_lift (validate_mutation_id (sw_packages w0) mutation_id)) (\<lambda>_.
     s_bind verify_security_state (\<lambda>_.
     s_bind (s_read (\<lambda>w. heads_if_any w secret_id)) (\<lambda>existing.
       (case Option.bind existing (\<lambda>h. find (\<lambda>v. hv_version_uuid v = version_uuid) (hd_versions h)) of
          Some v \<Rightarrow>
            s_lift (if hv_digest v \<noteq> digest
                    then Inl (StoreCorrupt ''version already exists with a different digest'') else Inr (hv_version v))
        | None \<Rightarrow>
            s_bind (s_read (\<lambda>w. and_then (read_object_verified w digest)
              (decrypt_object w secret_id version_uuid generation))) (\<lambda>plaintext.
              if length plaintext \<noteq> expected_size
              then s_lift (Inl (StoreInvalid ''replicated version declares a different size''))
              else
                s_bind (replicated_heads secret_id existing create) (\<lambda>h.
                  add_replicated_row secret_id h version_uuid generation expected_size digest mutation_id)))))) w0"

section \<open>Reads\<close>

definition store_get :: "store_world \<Rightarrow> ustring \<Rightarrow> store_error + bytes" where
  "store_get w secret_id =
     and_then (read_verified_heads w secret_id) (\<lambda>h. decrypt_version_from_heads w secret_id h (hd_current_version h))"

definition store_get_many :: "store_world \<Rightarrow> ustring list \<Rightarrow> store_error + bytes list" where
  "store_get_many w ids = try_map (store_get w) ids"

definition get_version :: "store_world \<Rightarrow> ustring \<Rightarrow> nat \<Rightarrow> store_error + bytes" where
  "get_version w secret_id version =
     and_then (read_verified_heads w secret_id) (\<lambda>h. decrypt_version_from_heads w secret_id h version)"

definition version_record_of :: "heads_version \<Rightarrow> version_record" where
  "version_record_of v = \<lparr>vr_version = hv_version v, vr_size = hv_size v, vr_created = hv_created v, vr_note = hv_note v,
     vr_mutation_id = hv_mutation_id v\<rparr>"

definition store_history :: "store_world \<Rightarrow> ustring \<Rightarrow> store_error + version_record list" where
  "store_history w secret_id =
     and_then (read_verified_heads w secret_id) (\<lambda>h.
       Inr (map version_record_of (sort_key hv_version (hd_versions h))))"

text \<open>The origin of a validated document is one of the two; the code marks anything else unreachable.\<close>

definition record_from_heads :: "ustring \<Rightarrow> heads_document \<Rightarrow> store_error + secret_record" where
  "record_from_heads secret_id h =
     and_then (find_version h (hd_current_version h)) (\<lambda>head.
     and_then (case (hd_source_path h, hd_managed_label h) of
                 (Some source_path, None) \<Rightarrow> Inr (FileOrigin source_path)
               | (None, Some label) \<Rightarrow> Inr (ManagedOrigin label)
               | _ \<Rightarrow> Inl (StoreCorrupt ''entered unreachable code: validated head document has exactly one origin'')) (\<lambda>origin.
       Inr \<lparr>sr_id = secret_id, sr_origin = origin, sr_mode = hd_mode h, sr_size = hv_size head, sr_created = hd_created h,
         sr_current_version = hd_current_version h, sr_enforcement = hd_enforcement h,
         sr_environment_ids = hd_environment_ids h, sr_placements = hd_placements h, sr_metadata = hd_metadata h\<rparr>))"

definition store_record :: "store_world \<Rightarrow> ustring \<Rightarrow> store_error + secret_record option" where
  "store_record w secret_id =
     (case read_verified_heads w secret_id of
        Inl e \<Rightarrow> if e = StoreNotFound then Inr None else Inl e
      | Inr h \<Rightarrow> and_then (record_from_heads secret_id h) (\<lambda>r. Inr (Some r)))"

definition display_name :: "secret_record \<Rightarrow> bytes" where
  "display_name r = (case sr_origin r of FileOrigin p \<Rightarrow> str_bytes p | ManagedOrigin label \<Rightarrow> utf8 label)"

definition store_list :: "store_world \<Rightarrow> store_error + secret_record list" where
  "store_list w =
     and_then (read_all_verified_heads w) (\<lambda>documents.
     and_then (try_map (\<lambda>h. and_then (ok_or (sp_parse_uuid (sw_packages w) (hd_id h)) (StoreInvalid ''invalid secret id''))
       (\<lambda>secret_id. record_from_heads secret_id h)) documents) (\<lambda>records.
       Inr (sort_key display_name records)))"

definition get_by_path :: "store_world \<Rightarrow> string \<Rightarrow> store_error + secret_record option" where
  "get_by_path w source_path =
     and_then (store_list w) (\<lambda>records. Inr (find (\<lambda>r. sr_origin r = FileOrigin source_path) records))"

definition version_ref :: "store_world \<Rightarrow> heads_version \<Rightarrow> store_error + store_version_ref" where
  "version_ref w v =
     (case sw_objects w (hv_digest v) of
        None \<Rightarrow> Inl (StoreIo ''object metadata'')
      | Some f \<Rightarrow> Inr \<lparr>svr_ordinal = hv_version v, svr_version_uuid = hv_version_uuid v, svr_generation = hv_generation v,
          svr_size = hv_size v, svr_ciphertext_size = length (sf_bytes f), svr_digest = hv_digest v\<rparr>)"

definition version_refs :: "ustring \<Rightarrow> store_version_ref list store_op" where
  "version_refs secret_id =
     s_bind verify_security_state (\<lambda>_.
     s_bind (s_read (\<lambda>w. read_heads w secret_id)) (\<lambda>h. s_read (\<lambda>w. try_map (version_ref w) (hd_versions h))))"

definition head_version_ref :: "ustring \<Rightarrow> store_version_ref store_op" where
  "head_version_ref secret_id =
     s_bind verify_security_state (\<lambda>_.
     s_bind (s_read (\<lambda>w. read_heads w secret_id)) (\<lambda>h.
     s_bind (s_lift (ok_or (find (\<lambda>v. hv_version v = hd_current_version h) (hd_versions h))
       (StoreCorrupt ''head version is missing from the version table''))) (\<lambda>v.
       s_read (\<lambda>w. version_ref w v))))"

definition verify_secret :: "store_world \<Rightarrow> nat \<times> nat \<Rightarrow> secret_record \<Rightarrow> store_error + nat \<times> nat" where
  "verify_secret w counts r =
     and_then (store_history w (sr_id r)) (\<lambda>history.
       if history = [] \<or> \<not> list_ex (\<lambda>v. vr_version v = sr_current_version r) history
       then Inl (StoreCorrupt ''head version is missing from version history'')
       else
         try_fold (\<lambda>(versions, total) v.
           and_then (get_version w (sr_id r) (vr_version v)) (\<lambda>plaintext.
             if length plaintext \<noteq> vr_size v then Inl (StoreCorrupt ''version declares a different size'')
             else Inr (versions + 1, saturating_add_u64 total (vr_size v)))) counts history)"

definition verify_all :: "store_world \<Rightarrow> store_error + store_verification" where
  "verify_all w =
     and_then (store_list w) (\<lambda>records.
     and_then (try_fold (verify_secret w) (0, 0) records) (\<lambda>(versions, total).
       Inr \<lparr>sv_secrets = length records, sv_versions = versions, sv_plaintext_bytes = total,
         sv_secret_ids = map sr_id records\<rparr>))"

section \<open>Opening an authenticated store\<close>

text \<open>\<open>authenticate\<close>: the sidecar, or the one of an older layout, must hold exactly the documents on disk; an empty
  store without a checkpoint is sealed for the first time. \<open>insecure\<close> is the development build flag.\<close>

definition copy_sidecar :: "string \<Rightarrow> string \<Rightarrow> heads_document list \<Rightarrow> nat \<Rightarrow> unit store_op" where
  "copy_sidecar legacy sidecar current generation =
     s_bind (s_read (\<lambda>w. unwrap_or (read_untrusted_file (aw_files (sw_auth w) legacy) (1024 * 1024)) (Inl (StoreIo legacy)))) (\<lambda>b.
     s_bind (write_effect sidecar (\<lambda>w. put_auth sidecar
       ((sw_auth w)\<lparr>aw_files := (aw_files (sw_auth w))(sidecar \<mapsto> private_file b)\<rparr>) w)) (\<lambda>_ w.
       (case state_load (sw_auth w) sidecar STORE_DOMAIN of
          (a, Inl e) \<Rightarrow> (w\<lparr>sw_auth := a\<rparr>, Inl (StoreIntegrity e))
        | (a, Inr copied) \<Rightarrow>
            (w\<lparr>sw_auth := a\<rparr>,
             if ls_generation copied \<noteq> generation \<or> ls_value copied \<noteq> Some current
             then Inl (StoreCorrupt ''relocated integrity sidecar did not preserve the authenticated store snapshot'')
             else Inr ()))))"

definition first_seal :: "string \<Rightarrow> heads_document list \<Rightarrow> nat store_op" where
  "first_seal sidecar current w =
     (case state_persist (sw_auth w) sidecar STORE_DOMAIN 0 current of
        (a, Inl e) \<Rightarrow> (put_auth sidecar a w, Inl (StoreIntegrity e))
      | (a, Inr generation) \<Rightarrow> (put_auth sidecar a w, Inr generation))"

definition trusted_store_generation ::
    "bool \<Rightarrow> string \<Rightarrow> string \<Rightarrow> bool \<Rightarrow> heads_document list loaded_state \<Rightarrow> heads_document list \<Rightarrow> nat store_op" where
  "trusted_store_generation insecure sidecar legacy load_legacy loaded current =
     (case ls_value loaded of
        Some authenticated \<Rightarrow>
          if authenticated = current
          then s_bind (if load_legacy then copy_sidecar legacy sidecar current (ls_generation loaded) else s_return ())
                 (\<lambda>_. s_return (ls_generation loaded))
          else s_lift (Inl (StoreCorrupt ''store contents do not match the authenticated security-state snapshot''))
      | None \<Rightarrow>
          if ls_generation loaded = 0 \<and> (current = [] \<or> insecure) then first_seal sidecar current
          else if ls_generation loaded = 0
          then s_lift (Inl (StoreCorrupt
                 ''refusing to trust a non-empty encrypted store without an authenticated checkpoint''))
          else s_lift (Inl (StoreCorrupt ''authenticated store sidecar is missing'')))"

definition authenticate_store :: "bool \<Rightarrow> string \<Rightarrow> string \<Rightarrow> unit store_op" where
  "authenticate_store insecure sidecar legacy w =
     (let files = aw_files (sw_auth w); load_legacy = (files sidecar = None \<and> files legacy \<noteq> None) in
      case state_load (sw_auth w) (if load_legacy then legacy else sidecar) STORE_DOMAIN of
        (a, Inl e) \<Rightarrow> (w\<lparr>sw_auth := a\<rparr>, Inl (StoreIntegrity e))
      | (a, Inr loaded) \<Rightarrow>
          s_bind (s_read security_snapshot) (\<lambda>current.
          s_bind (trusted_store_generation insecure sidecar legacy load_legacy loaded current) (\<lambda>generation w.
            (let w' = w\<lparr>sw_integrity := Some \<lparr>si_sidecar = sidecar, si_generation = generation,
                       si_verified = \<lparr>vs_sidecar_stamp = 0, vs_heads_directory_stamp = 0, vs_heads = []\<rparr>\<rparr>\<rparr>
             in case capture_verified_state w' current of
                  Inl e \<Rightarrow> (w, Inl e)
                | Inr v \<Rightarrow> (set_verified v w', Inr ())))) (w\<lparr>sw_auth := a\<rparr>))"

end
