(* ===== verification/Store_Versions.thy ===== *)
theory Store_Versions
  imports Secret_Store
begin

text \<open>
  Version objects and head documents under the mutations of the store: what every operation leaves in place
  whatever its outcome, and what a successful one adds.
\<close>

section \<open>Package contracts\<close>

definition store_packages_ok :: "store_packages \<Rightarrow> bool" where
  "store_packages_ok pk \<longleftrightarrow>
     (\<forall>h t. sp_to_toml pk h = Some t \<longrightarrow> sp_from_toml pk t = Some h) \<and>
     (\<forall>b. length (sp_sha256 pk b) = 32) \<and>
     (\<forall>n. sp_parse_uuid pk (sp_new_uuid pk n) = Some (sp_new_uuid pk n)) \<and>
     sp_parse_uuid pk [] = None \<and>
     (\<forall>g r m c. sp_encrypt pk g r m = Some c \<longrightarrow> sp_decrypt pk g c = Some m)"

lemma store_packages_okD:
  assumes "store_packages_ok pk"
  shows "sp_to_toml pk h = Some t \<Longrightarrow> sp_from_toml pk t = Some h"
    and "hex_sha256 pk b \<noteq> []"
    and "sp_new_uuid pk n \<noteq> []"
    and "sp_parse_uuid pk u = Some v \<Longrightarrow> u \<noteq> []"
    and "sp_encrypt pk g r m = Some c \<Longrightarrow> sp_decrypt pk g c = Some m"
proof -
  have "length (sp_sha256 pk b) = 32" using assms by (simp add: store_packages_ok_def)
  then show "hex_sha256 pk b \<noteq> []"
    by (cases "sp_sha256 pk b") (auto simp: hex_sha256_def to_hex_def)
  show "sp_new_uuid pk n \<noteq> []" using assms unfolding store_packages_ok_def by (metis option.distinct(1))
qed (use assms in \<open>auto simp: store_packages_ok_def\<close>)

section \<open>The store monad\<close>

lemma s_bind_cases:
  "s_bind m f w = (w', r) \<longleftrightarrow>
   (\<exists>e. m w = (w', Inl e) \<and> r = Inl e) \<or> (\<exists>w1 x. m w = (w1, Inr x) \<and> f x w1 = (w', r))"
  by (auto simp: s_bind_def split: prod.splits sum.splits)

lemma s_bind_Inr: "s_bind m f w = (w', Inr y) \<longleftrightarrow> (\<exists>w1 x. m w = (w1, Inr x) \<and> f x w1 = (w', Inr y))"
  by (auto simp: s_bind_cases)

lemma s_basic [simp]:
  "s_return x w = (w, Inr x)" "s_lift r w = (w, r)" "s_read f w = (w, f w)"
  "s_bind (s_lift (Inr x)) g = g x" "s_bind (s_return x) g = g x"
  by (simp_all add: s_return_def s_lift_def s_read_def s_bind_def fun_eq_iff)

text \<open>A world that keeps packages, keys and objects of another; objects may have been added.\<close>

definition extends :: "store_world \<Rightarrow> store_world \<Rightarrow> bool" where
  "extends w w' \<longleftrightarrow>
     sw_packages w' = sw_packages w \<and> sw_generation w' = sw_generation w \<and> sw_identity w' = sw_identity w \<and>
     (\<forall>d f. sw_objects w d = Some f \<longrightarrow> sw_objects w' d = Some f)"

text \<open>The documents the authenticated store holds in memory.\<close>

definition cached :: "store_world \<Rightarrow> (ustring \<times> heads_document) set" where
  "cached w = (case sw_integrity w of None \<Rightarrow> {} | Some si \<Rightarrow> (\<lambda>e. (fst e, fst (snd e))) ` set (vs_heads (si_verified si)))"

definition readable :: "store_world \<Rightarrow> (ustring \<times> heads_document) set" where
  "readable w = {(i, h). read_heads w i = Inr h}"

text \<open>The head documents are untouched; a new entry of the memory was read from them.\<close>

definition same_heads :: "store_world \<Rightarrow> store_world \<Rightarrow> bool" where
  "same_heads w w' \<longleftrightarrow> extends w w' \<and> sw_heads w' = sw_heads w \<and> cached w' \<subseteq> cached w \<union> readable w"

lemma readable_same: "sw_heads w' = sw_heads w \<Longrightarrow> sw_packages w' = sw_packages w \<Longrightarrow> readable w' = readable w"
  by (simp add: readable_def read_heads_def cong: option.case_cong)

lemma same_headsI: "extends w w' \<Longrightarrow> sw_heads w' = sw_heads w \<Longrightarrow> sw_integrity w' = sw_integrity w \<Longrightarrow> same_heads w w'"
  by (simp add: same_heads_def cached_def)

lemma extends_refl [simp]: "extends w w"
  by (simp add: extends_def)

lemma extends_trans: "extends w w1 \<Longrightarrow> extends w1 w2 \<Longrightarrow> extends w w2"
  by (auto simp: extends_def)

lemma same_heads_refl [simp]: "same_heads w w"
  by (simp add: same_heads_def)

lemma same_heads_readable: "same_heads w w' \<Longrightarrow> readable w' = readable w"
  by (rule readable_same) (simp_all add: same_heads_def extends_def)

lemma same_heads_trans: "same_heads w w1 \<Longrightarrow> same_heads w1 w2 \<Longrightarrow> same_heads w w2"
  using same_heads_readable [of w w1] by (auto simp: same_heads_def intro: extends_trans)

lemma same_heads_extends: "same_heads w w' \<Longrightarrow> extends w w'"
  by (simp add: same_heads_def)

text \<open>Operations that leave all head documents alone.\<close>

definition keeps_heads :: "'a store_op \<Rightarrow> bool" where
  "keeps_heads m \<longleftrightarrow> (\<forall>w. same_heads w (fst (m w)))"

lemma keeps_headsD: "keeps_heads m \<Longrightarrow> m w = (w', r) \<Longrightarrow> same_heads w w'"
  by (metis fst_conv keeps_heads_def)

lemma keeps_heads_bind:
  assumes "keeps_heads m" and "\<And>x. keeps_heads (f x)"
  shows "keeps_heads (s_bind m f)"
  unfolding keeps_heads_def
proof
  fix w
  obtain w1 r where m: "m w = (w1, r)" by (cases "m w")
  with assms (1) have "same_heads w w1" by (auto dest: keeps_headsD)
  with assms (2) m show "same_heads w (fst (s_bind m f w))"
    by (cases r) (auto simp: s_bind_def keeps_heads_def intro: same_heads_trans)
qed

lemma keeps_heads_basic [simp]:
  "keeps_heads (s_return x)" "keeps_heads (s_lift r)" "keeps_heads (s_read f)" "keeps_heads draw"
  by (simp_all add: keeps_heads_def draw_def same_heads_def extends_def cached_def)

lemma snapshot_readable:
  assumes "security_snapshot w = Inr hs" and "h \<in> set hs"
  shows "(hd_id h, h) \<in> readable w"
proof -
  have "list_all2 (\<lambda>i h. read_heads w i = Inr h) (heads_ids w) hs"
    using assms (1) by (simp add: security_snapshot_def try_map_Inr)
  from list_all2_right [OF this assms (2)] obtain i where i: "read_heads w i = Inr h" by blast
  then have "hd_id h = i"
    by (auto simp: read_heads_def and_then_eq_Inr check_heads_def split: option.splits if_splits)
  with i show ?thesis by (simp add: readable_def)
qed

lemma captured_entries:
  assumes "capture_verified_state w hs = Inr v"
  shows "(\<lambda>e. (fst e, fst (snd e))) ` set (vs_heads v) \<subseteq> (\<lambda>h. (hd_id h, h)) ` set hs"
proof
  fix x assume "x \<in> (\<lambda>e. (fst e, fst (snd e))) ` set (vs_heads v)"
  then obtain i h st where x: "x = (i, h)" and mem: "(i, h, st) \<in> set (vs_heads v)" by force
  have "list_all2 (\<lambda>h e. capture_head w h = Inr e) hs (vs_heads v)"
    using assms by (auto simp: capture_verified_state_def and_then_eq_Inr try_map_Inr)
  from list_all2_right [OF this mem] obtain h' where "h' \<in> set hs" "capture_head w h' = Inr (i, h, st)" by blast
  then show "x \<in> (\<lambda>h. (hd_id h, h)) ` set hs" by (auto simp: capture_head_def and_then_eq_Inr x)
qed

lemma verify_fields:
  "sw_heads (fst (verify_security_state w)) = sw_heads w" "sw_objects (fst (verify_security_state w)) = sw_objects w"
  "sw_packages (fst (verify_security_state w)) = sw_packages w" "sw_generation (fst (verify_security_state w)) = sw_generation w"
  "sw_identity (fst (verify_security_state w)) = sw_identity w"
  by (simp_all add: verify_security_state_def Let_def set_generation_def set_verified_def split: option.splits sum.splits prod.splits)

lemma put_auth_fields [simp]:
  "sw_heads (put_auth s a w) = sw_heads w" "sw_objects (put_auth s a w) = sw_objects w"
  "sw_packages (put_auth s a w) = sw_packages w" "sw_generation (put_auth s a w) = sw_generation w"
  "sw_identity (put_auth s a w) = sw_identity w" "sw_integrity (put_auth s a w) = sw_integrity w"
  by (simp_all add: put_auth_def touch_def Let_def)

lemma seal_fields:
  "sw_heads (fst (seal_security_state w)) = sw_heads w" "sw_objects (fst (seal_security_state w)) = sw_objects w"
  "sw_packages (fst (seal_security_state w)) = sw_packages w" "sw_generation (fst (seal_security_state w)) = sw_generation w"
  "sw_identity (fst (seal_security_state w)) = sw_identity w"
  by (simp_all add: seal_security_state_def Let_def set_generation_def set_verified_def split: option.splits sum.splits prod.splits)

lemma cached_set_verified:
  "cached (set_verified v w) = (if sw_integrity w = None then {} else (\<lambda>e. (fst e, fst (snd e))) ` set (vs_heads v))"
  by (simp add: cached_def set_verified_def split: option.splits)

lemma cached_other [simp]:
  "cached (set_generation g w) = cached w" "cached (w\<lparr>sw_auth := a\<rparr>) = cached w" "cached (put_auth s a w) = cached w"
  by (auto simp: cached_def set_generation_def split: option.splits)

lemma readable_other [simp]:
  "readable (set_generation g w) = readable w" "readable (w\<lparr>sw_auth := a\<rparr>) = readable w" "readable (put_auth s a w) = readable w"
  by (rule readable_same, simp_all add: set_generation_def)+

lemma snapshot_cached:
  assumes "security_snapshot w0 = Inr hs" and "capture_verified_state w1 hs = Inr v" and "readable w0 = readable w"
  shows "cached (set_verified v w1) \<subseteq> cached w \<union> readable w"
proof -
  have "cached (set_verified v w1) \<subseteq> (\<lambda>h. (hd_id h, h)) ` set hs"
    using captured_entries [OF assms (2)] by (simp add: cached_set_verified)
  also have "\<dots> \<subseteq> readable w" using snapshot_readable [OF assms (1)] assms (3) by blast
  finally show ?thesis by blast
qed

lemma verify_cached: "cached (fst (verify_security_state w)) \<subseteq> cached w \<union> readable w"
  unfolding verify_security_state_def Let_def
  by (simp split: option.splits sum.splits prod.splits) (intro allI impI, rule snapshot_cached, assumption, assumption, simp)

lemma seal_cached: "cached (fst (seal_security_state w)) \<subseteq> cached w \<union> readable w"
  unfolding seal_security_state_def Let_def
  by (simp split: option.splits sum.splits prod.splits) (intro conjI allI impI snapshot_cached; simp)

lemma keeps_heads_verify [simp]: "keeps_heads verify_security_state"
  using verify_cached by (simp add: keeps_heads_def same_heads_def extends_def verify_fields)

lemma keeps_heads_seal [simp]: "keeps_heads seal_security_state"
  using seal_cached by (simp add: keeps_heads_def same_heads_def extends_def seal_fields)

lemma keeps_heads_publish [simp]: "keeps_heads (publish_immutable d b)"
proof -
  have "sw_objects w d \<noteq> None \<Longrightarrow> read_untrusted_file (sw_objects w d) n \<noteq> None" for w :: store_world and n
    by (auto simp: read_untrusted_file_def)
  then have "same_heads w (fst (publish_immutable d b w))" for w
    by (cases "sw_objects w d")
      (auto simp: publish_immutable_def write_effect_def Let_def same_heads_def extends_def read_untrusted_file_def cached_def
        split: option.splits sum.splits effect.splits)
  then show ?thesis by (simp add: keeps_heads_def)
qed

lemma same_heads_bind: "keeps_heads m \<Longrightarrow> (\<And>x. keeps_heads (f x)) \<Longrightarrow> same_heads w (fst (s_bind m f w))"
  using keeps_heads_bind [of m f] by (simp add: keeps_heads_def)

lemma keeps_heads_write_object [simp]:
  "keeps_heads (write_version_object_with_identity i n u p c note m)" "keeps_heads (write_version_object i n p note m)"
proof -
  have "same_heads w (fst (write_version_object_with_identity i n u p c note m w))" for u c w
    unfolding write_version_object_with_identity_def Let_def
    by (intro same_heads_bind keeps_heads_bind keeps_heads_basic keeps_heads_publish)
  then show obj: "keeps_heads (write_version_object_with_identity i n u p c note m)" for u c
    by (simp add: keeps_heads_def)
  have "keeps_heads (\<lambda>w. write_version_object_with_identity i n (sp_new_uuid (sw_packages w) a) p
      (sp_now (sw_packages w) b) note m w)" for a b
    using obj by (simp add: keeps_heads_def)
  then show "keeps_heads (write_version_object i n p note m)"
    unfolding write_version_object_def by (intro keeps_heads_bind) simp_all
qed

lemma keeps_heads_new_document [simp]: "keeps_heads (new_heads_document i meta)"
proof -
  have fin: "keeps_heads (\<lambda>w. (w, Inr (g w)))" for g :: "store_world \<Rightarrow> heads_document"
    by (simp add: keeps_heads_def)
  show ?thesis unfolding new_heads_document_def
    by (intro keeps_heads_bind) (auto simp: fin split: prod.splits intro!: keeps_heads_bind)
qed

section \<open>Reading through a world that keeps heads and objects\<close>

lemma read_heads_same: "same_heads w w' \<Longrightarrow> read_heads w' i = read_heads w i"
  by (simp add: same_heads_def extends_def read_heads_def cong: option.case_cong)

lemma read_object_extends:
  assumes "extends w w'" and "read_object_verified w d = Inr c"
  shows "read_object_verified w' d = Inr c"
proof -
  from assms (2) obtain f where "sw_objects w d = Some f"
    by (cases "sw_objects w d") (auto simp: read_object_verified_def read_untrusted_file_def)
  with assms (1) have "sw_objects w' d = sw_objects w d" "sw_packages w' = sw_packages w" by (auto simp: extends_def)
  with assms (2) show ?thesis by (simp add: read_object_verified_def cong: option.case_cong sum.case_cong)
qed

lemma decrypt_object_extends: "extends w w' \<Longrightarrow> decrypt_object w' = decrypt_object w"
  by (simp add: decrypt_object_def fun_eq_iff extends_def)

lemma decrypt_from_heads_extends:
  "extends w w' \<Longrightarrow> decrypt_version_from_heads w i h n = Inr b \<Longrightarrow> decrypt_version_from_heads w' i h n = Inr b"
  by (auto simp: decrypt_version_from_heads_def and_then_eq_Inr decrypt_object_extends intro: read_object_extends)

lemma find_version_append:
  "find_version h n = Inr v \<Longrightarrow> hd_versions h' = hd_versions h @ vs \<Longrightarrow> find_version h' n = Inr v"
  by (auto simp: find_version_def find_append)

lemma decrypt_from_heads_append:
  "decrypt_version_from_heads w i h n = Inr b \<Longrightarrow> hd_versions h' = hd_versions h @ vs \<Longrightarrow>
   decrypt_version_from_heads w i h' n = Inr b"
  by (auto simp: decrypt_version_from_heads_def and_then_eq_Inr dest: find_version_append)

lemma check_heads_Inr:
  "check_heads i h = Inr h' \<longleftrightarrow> h' = h \<and> hd_id h = i \<and> MIN_SUPPORTED_STORE_FORMAT_VERSION \<le> hd_format h \<and>
     hd_format h \<le> STORE_FORMAT_VERSION \<and> heads_origin_ok h \<and> is_ok (validate_managed_placements (hd_placements h)) \<and>
     list_all version_row_ok (hd_versions h) \<and> distinct (map hv_version (hd_versions h))"
  by (auto simp: check_heads_def)

lemma read_heads_check: "read_heads w i = Inr h \<Longrightarrow> check_heads i h = Inr h"
  by (auto simp: read_heads_def and_then_eq_Inr check_heads_Inr split: option.splits)

text \<open>A document that was saved: the one before with rows added.\<close>

definition saved_heads :: "store_world \<Rightarrow> store_world \<Rightarrow> ustring \<Rightarrow> heads_document \<Rightarrow> bool" where
  "saved_heads w w' i h \<longleftrightarrow> extends w w' \<and> cached w' \<subseteq> cached w \<union> readable w \<union> readable w' \<and>
     (\<exists>t. sp_to_toml (sw_packages w) h = Some t \<and> sw_heads w' = hm_insert i (private_file t) (sw_heads w))"

lemma saved_read_heads:
  assumes "saved_heads w w' i h" and "store_packages_ok (sw_packages w)" and "check_heads i h = Inr h"
  shows "read_heads w' j = (if j = i then Inr h else read_heads w j)"
proof -
  from assms (1) obtain t where "sp_to_toml (sw_packages w) h = Some t" and pk: "sw_packages w' = sw_packages w"
    and heads: "sw_heads w' = hm_insert i (private_file t) (sw_heads w)"
    by (auto simp: saved_heads_def extends_def)
  with store_packages_okD (1) [OF assms (2)] have "sp_from_toml (sw_packages w) t = Some h" by blast
  then show ?thesis using assms (3) by (simp add: read_heads_def heads pk private_file_def cong: option.case_cong)
qed

lemma write_heads_cases:
  assumes "write_heads i h w = (w', r)"
  shows "same_heads w w' \<and> r \<noteq> Inr () \<or> saved_heads w w' i h"
proof (cases "sp_to_toml (sw_packages w) h")
  case None
  then show ?thesis using assms by (auto simp: write_heads_def)
next
  case (Some t)
  then show ?thesis using assms
    by (auto simp: write_heads_def write_effect_def Let_def same_heads_def saved_heads_def extends_def touch_def cached_def
        split: effect.splits)
qed

lemma saved_same: "saved_heads w w1 i h \<Longrightarrow> same_heads w1 w2 \<Longrightarrow> saved_heads w w2 i h"
  using same_heads_readable [of w1 w2] by (auto simp: saved_heads_def same_heads_def intro: extends_trans)

lemma same_saved: "same_heads w w1 \<Longrightarrow> saved_heads w1 w2 i h \<Longrightarrow> saved_heads w w2 i h"
  using same_heads_readable [of w w1] by (auto simp: saved_heads_def same_heads_def extends_def)

lemma save_heads_cases:
  assumes "save_heads i h w = (w', r)"
  shows "same_heads w w' \<and> r \<noteq> Inr () \<or> saved_heads w w' i h"
proof -
  from assms consider e where "write_heads i h w = (w', Inl e)" "r = Inl e"
    | w1 where "write_heads i h w = (w1, Inr ())" "seal_security_state w1 = (w', r)"
    by (auto simp: save_heads_def s_bind_cases)
  then show ?thesis
  proof cases
    case 1
    with write_heads_cases [of i h w w' "Inl e"] show ?thesis by auto
  next
    case 2
    from keeps_headsD [OF keeps_heads_seal 2 (2)] have "same_heads w1 w'" .
    with write_heads_cases [OF 2 (1)] show ?thesis by (auto intro: saved_same)
  qed
qed

text \<open>The steps of the store: documents stay, or one valid document is saved whose rows extend the old ones.\<close>

definition row_step :: "store_world \<Rightarrow> store_world \<Rightarrow> bool" where
  "row_step w w' \<longleftrightarrow> same_heads w w' \<or>
     (\<exists>i h. saved_heads w w' i h \<and> check_heads i h = Inr h \<and>
        (\<forall>h0. read_heads w i = Inr h0 \<longrightarrow> (\<exists>vs. hd_versions h = hd_versions h0 @ vs)))"

lemma row_step_stable:
  assumes step: "row_step w w'" and pk: "store_packages_ok (sw_packages w)" and old: "decrypt_version w j n = Inr b"
  shows "decrypt_version w' j n = Inr b"
proof -
  obtain h0 where h0: "read_heads w j = Inr h0" and dec: "decrypt_version_from_heads w j h0 n = Inr b"
    using old by (auto simp: decrypt_version_def and_then_eq_Inr)
  from step consider "same_heads w w'" | i h where "saved_heads w w' i h" "check_heads i h = Inr h"
    "\<forall>h0. read_heads w i = Inr h0 \<longrightarrow> (\<exists>vs. hd_versions h = hd_versions h0 @ vs)"
    by (auto simp: row_step_def)
  then show ?thesis
  proof cases
    case 1
    with h0 decrypt_from_heads_extends [OF same_heads_extends dec] show ?thesis
      by (simp add: decrypt_version_def read_heads_same)
  next
    case 2
    then have ext: "extends w w'" by (simp add: saved_heads_def)
    note decrypt_from_heads_extends [OF ext dec]
    with 2 (3) h0 saved_read_heads [OF 2 (1) pk 2 (2)] show ?thesis
      by (auto simp: decrypt_version_def intro: decrypt_from_heads_append)
  qed
qed

section \<open>The payload binding is exact\<close>

lemma from_be16: "n < 2 ^ 16 \<Longrightarrow> from_be16 (be16 n) = n"
  by (simp add: from_be16_def be16_def)

lemma be16_from: "length b = 2 \<Longrightarrow> list_all (\<lambda>x. x < 256) b \<Longrightarrow> be16 (from_be16 b) = b \<and> from_be16 b < 2 ^ 16"
  by (cases b rule: list.exhaust; cases "tl b" rule: list.exhaust)
    (auto simp: be16_def from_be16_def)

lemma decode_field_prefix:
  assumes "drop c b = be16 (length f) @ f @ rest" and "length f < 2 ^ 16"
  shows "decode_field b c t = Inr (f, c + 2 + length f)" and "drop (c + 2 + length f) b = rest"
proof -
  have len: "length b = c + 2 + length f + length rest"
    using arg_cong [OF assms (1), of length] by (cases "c \<le> length b") (auto simp: be16_def)
  have two: "take 2 (drop c b) = be16 (length f)" using assms (1) by (simp add: be16_def)
  have more: "drop (c + 2) b = f @ rest"
    using arg_cong [OF assms (1), of "drop 2"] by (simp add: be16_def add.commute)
  show "drop (c + 2 + length f) b = rest"
    using arg_cong [OF more, of "drop (length f)"] by (simp add: add.commute add.left_commute)
  show "decode_field b c t = Inr (f, c + 2 + length f)"
    using len two more assms (2) by (simp add: decode_field_def slice_get_def from_be16)
qed

lemma decode_field_Inr:
  assumes "decode_field b c t = Inr (f, c')" and "list_all (\<lambda>x. x < 256) b"
  shows "length f < 2 ^ 16" and "c' = c + 2 + length f" and "drop c b = be16 (length f) @ f @ drop c' b"
proof -
  obtain lb where lb: "slice_get b c (c + 2) = Some lb"
    and field: "slice_get b (c + 2) (c + 2 + from_be16 lb) = Some f" and c': "c' = c + 2 + from_be16 lb"
    using assms (1) by (auto simp: decode_field_def and_then_eq_Inr Let_def)
  have lb': "lb = take 2 (drop c b)" "c + 2 \<le> length b" using lb by (auto simp: slice_get_def split: if_splits)
  have f: "f = take (from_be16 lb) (drop (c + 2) b)" "c + 2 + from_be16 lb \<le> length b"
    using field by (auto simp: slice_get_def split: if_splits)
  have "list_all (\<lambda>x. x < 256) lb" "length lb = 2"
    using assms (2) lb' by (auto simp: list_all_iff dest!: in_set_takeD in_set_dropD)
  with be16_from have be: "be16 (from_be16 lb) = lb" "from_be16 lb < 2 ^ 16" by auto
  have len: "length f = from_be16 lb" using f by simp
  show "length f < 2 ^ 16" "c' = c + 2 + length f" using be len c' by simp_all
  have "drop c b = lb @ drop (c + 2) b" using lb' by (metis add.commute append_take_drop_id drop_drop)
  also have "drop (c + 2) b = f @ drop (c + 2 + length f) b"
    using f len by (metis add.commute append_take_drop_id drop_drop)
  finally show "drop c b = be16 (length f) @ f @ drop c' b" using be len c' by simp
qed

lemma encode_bound_payload_Inr:
  "encode_bound_payload i u p = Inr b \<longleftrightarrow> length (utf8 i) < 2 ^ 16 \<and> length (utf8 u) < 2 ^ 16 \<and>
   b = PAYLOAD_MAGIC @ be16 (length (utf8 i)) @ utf8 i @ be16 (length (utf8 u)) @ utf8 u @ p"
  by (auto simp: encode_bound_payload_def and_then_eq_Inr u16_try_from_def Let_def split: if_splits)

lemma decode_encode:
  assumes "encode_bound_payload i u p = Inr b"
  shows "decode_bound_payload i u b = Inr p"
proof -
  note enc = assms [unfolded encode_bound_payload_Inr]
  let ?m = "length PAYLOAD_MAGIC"
  have "drop ?m b = be16 (length (utf8 i)) @ utf8 i @ be16 (length (utf8 u)) @ utf8 u @ p" using enc by simp
  note first = decode_field_prefix [OF this conjunct1 [OF enc]]
  note second = decode_field_prefix [OF first (2) conjunct1 [OF conjunct2 [OF enc]]]
  have "take ?m b = PAYLOAD_MAGIC" using enc by simp
  then show ?thesis using first second by (simp add: decode_bound_payload_def)
qed

lemma decode_only_encoded:
  assumes "decode_bound_payload i u b = Inr p" and "list_all (\<lambda>x. x < 256) b"
  shows "encode_bound_payload i u p = Inr b"
proof -
  let ?m = "length PAYLOAD_MAGIC"
  obtain c1 c2 where magic: "take ?m b = PAYLOAD_MAGIC"
    and first: "decode_field b ?m ''version object has a truncated secret id'' = Inr (utf8 i, c1)"
    and second: "decode_field b c1 ''version object has a truncated version uuid'' = Inr (utf8 u, c2)"
    and p: "p = drop c2 b"
    using assms (1) by (auto simp: decode_bound_payload_def and_then_eq_Inr split: if_splits)
  note f = decode_field_Inr [OF first assms (2)] and s = decode_field_Inr [OF second assms (2)]
  have "b = PAYLOAD_MAGIC @ drop ?m b" using magic by (metis append_take_drop_id)
  then show ?thesis using f s p by (simp add: encode_bound_payload_Inr)
qed

text \<open>
  (C20) Opening a payload is the exact inverse of binding it: a payload is accepted for a secret and a version
  precisely when it is the binding of the returned content to that secret and that version; a payload bound to
  another secret or another version, or cut short, is refused.
\<close>

theorem payload_binding_exact:
  assumes "list_all (\<lambda>x. x < 256) payload"
  shows "decode_bound_payload secret_id version_uuid payload = Inr content \<longleftrightarrow>
    encode_bound_payload secret_id version_uuid content = Inr payload"
  using assms decode_encode decode_only_encoded by blast

theorem payload_binding_exact_witness:
  "decode_bound_payload [65] [66] (PAYLOAD_MAGIC @ [0, 1, 65, 0, 1, 66, 7, 8]) = Inr [7, 8]"
proof -
  have e: "encode_bound_payload [65] [66] [7, 8] = Inr (PAYLOAD_MAGIC @ [0, 1, 65, 0, 1, 66, 7, 8])"
    by (simp add: encode_bound_payload_Inr be16_def utf8_def utf8_char_def)
  have b: "list_all (\<lambda>x. x < 256) (PAYLOAD_MAGIC @ [0, 1, 65, 0, 1, 66, 7, 8])"
    by (simp add: PAYLOAD_MAGIC_def str_bytes_def of_char_def)
  from payload_binding_exact [OF b] e show ?thesis by blast
qed

section \<open>What a written version is\<close>

text \<open>A table row whose object is in place and opens to the given content.\<close>

definition row_holds :: "store_world \<Rightarrow> ustring \<Rightarrow> bytes \<Rightarrow> heads_version \<Rightarrow> bool" where
  "row_holds w i p v \<longleftrightarrow> hv_version_uuid v \<noteq> [] \<and> hv_digest v \<noteq> [] \<and>
     (\<exists>f. sw_objects w (hv_digest v) = Some f \<and> sf_regular f \<and> hv_digest v = hex_sha256 (sw_packages w) (sf_bytes f) \<and>
          decrypt_object w i (hv_version_uuid v) (hv_generation v) (sf_bytes f) = Inr p)"

definition object_size :: "store_world \<Rightarrow> heads_version \<Rightarrow> nat" where
  "object_size w v = (case sw_objects w (hv_digest v) of None \<Rightarrow> 0 | Some f \<Rightarrow> length (sf_bytes f))"

text \<open>Every encryption of the content for this secret is within the size that is read back.\<close>

definition object_fits :: "store_packages \<Rightarrow> ustring \<Rightarrow> bytes \<Rightarrow> bool" where
  "object_fits pk i p \<longleftrightarrow>
     (\<forall>u b g x c. encode_bound_payload i u p = Inr b \<longrightarrow> sp_encrypt pk g x b = Some c \<longrightarrow> length c \<le> MAX_OBJECT_BYTES)"

lemma row_holds_extends: "row_holds w i p v \<Longrightarrow> extends w w' \<Longrightarrow> row_holds w' i p v \<and> object_size w' v = object_size w v"
  by (auto simp: row_holds_def object_size_def decrypt_object_extends) (auto simp: extends_def)

lemma row_holds_decrypt:
  assumes "row_holds w i p v" and "object_size w v \<le> MAX_OBJECT_BYTES" and "find_version h n = Inr v"
  shows "decrypt_version_from_heads w i h n = Inr p"
  using assms
  by (auto simp: row_holds_def object_size_def decrypt_version_from_heads_def read_object_verified_def read_untrusted_file_def)

lemma row_holds_unique:
  assumes "row_holds w i p v" and "decrypt_version_from_heads w i h n = Inr q" and "find_version h n = Inr v"
  shows "q = p"
  using assms
  by (auto simp: row_holds_def decrypt_version_from_heads_def read_object_verified_def read_untrusted_file_def
      and_then_eq_Inr split: if_splits option.splits sum.splits)

lemma publish_Inr:
  assumes "publish_immutable d c w = (w', Inr ())"
  shows "\<exists>f. sw_objects w' d = Some f \<and> sf_regular f \<and> sf_bytes f = c"
proof (cases "sw_objects w d")
  case None
  with assms show ?thesis
    by (auto simp: publish_immutable_def read_untrusted_file_def write_effect_def Let_def private_file_def split: effect.splits)
next
  case (Some f)
  with assms show ?thesis
    by (auto simp: publish_immutable_def read_untrusted_file_def split: if_splits)
qed

lemma draw_Inr: "draw w = (w', r) \<longleftrightarrow> w' = w\<lparr>sw_entropy := Suc (sw_entropy w)\<rparr> \<and> r = Inr (sw_entropy w)"
  by (auto simp: draw_def)

lemma write_with_identity_Inr:
  assumes wr: "write_version_object_with_identity i n u p c note m w = (w', Inr v)"
    and pk: "store_packages_ok (sw_packages w)"
  shows "row_holds w' i p v" and "hv_version v = n" and "hv_mutation_id v = m" and "hv_size v = length p"
    and "hv_version_uuid v = u"
    and "\<exists>g x b cph. encode_bound_payload i u p = Inr b \<and> sp_encrypt (sw_packages w) g x b = Some cph \<and>
      object_size w' v = length cph"
proof -
  obtain g b x cph w1 where u: "sp_parse_uuid (sw_packages w) u \<noteq> None"
    and g: "sw_generation w = Inr g" "sw_identity w g = Inr ()"
    and b: "encode_bound_payload i u p = Inr b"
    and cph: "sp_encrypt (sw_packages w) g x b = Some cph"
    and pub: "publish_immutable (hex_sha256 (sw_packages w) cph) cph w1 = (w', Inr ())"
    and w1: "w1 = w\<lparr>sw_entropy := Suc (sw_entropy w)\<rparr>"
    and v: "v = \<lparr>hv_version = n, hv_version_uuid = u, hv_generation = g, hv_size = length p,
      hv_digest = hex_sha256 (sw_packages w) cph, hv_created = c, hv_note = note, hv_mutation_id = m\<rparr>"
    using wr
    by (auto simp: write_version_object_with_identity_def Let_def s_bind_Inr s_return_def s_lift_def draw_Inr split: if_splits)
  have ext: "extends w w'" using keeps_headsD [OF keeps_heads_write_object (1) wr] by (rule same_heads_extends)
  obtain f where f: "sw_objects w' (hex_sha256 (sw_packages w) cph) = Some f" "sf_regular f" "sf_bytes f = cph"
    using publish_Inr [OF pub] by blast
  have "decrypt_object w i u g cph = Inr p"
    using store_packages_okD (5) [OF pk cph] decode_encode [OF b] g (2) by (simp add: decrypt_object_def)
  moreover have "u \<noteq> []" using u store_packages_okD (4) [OF pk] by auto
  ultimately show "row_holds w' i p v" and "hv_version v = n" and "hv_mutation_id v = m" and "hv_size v = length p"
    and "hv_version_uuid v = u"
    and "\<exists>g x b cph. encode_bound_payload i u p = Inr b \<and> sp_encrypt (sw_packages w) g x b = Some cph \<and>
      object_size w' v = length cph"
    using f b cph ext store_packages_okD (2) [OF pk] by (auto simp: v row_holds_def decrypt_object_extends extends_def object_size_def)
qed

lemma write_object_Inr:
  assumes wr: "write_version_object i n p note m w = (w', Inr v)" and pk: "store_packages_ok (sw_packages w)"
  shows "row_holds w' i p v" and "hv_version v = n" and "hv_mutation_id v = m" and "hv_size v = length p"
    and "object_fits (sw_packages w) i p \<Longrightarrow> object_size w' v \<le> MAX_OBJECT_BYTES"
proof -
  obtain w1 u c where w1: "write_version_object_with_identity i n u p c note m w1 = (w', Inr v)"
    and "sw_packages w1 = sw_packages w"
    using wr by (auto simp: write_version_object_def s_bind_Inr draw_Inr)
  with write_with_identity_Inr [OF w1] pk
  show "row_holds w' i p v" and "hv_version v = n" and "hv_mutation_id v = m" and "hv_size v = length p"
    and "object_fits (sw_packages w) i p \<Longrightarrow> object_size w' v \<le> MAX_OBJECT_BYTES"
    by (auto simp: object_fits_def)
qed

lemma next_ordinal_fresh:
  assumes "next_ordinal h = Inr n"
  shows "n \<noteq> 0" and "\<forall>v \<in> set (hd_versions h). hv_version v < n"
proof -
  let ?S = "insert 0 (set (map hv_version (hd_versions h)))"
  have n: "n = Max ?S + 1" using assms by (auto simp: next_ordinal_def Let_def split: if_splits)
  then show "n \<noteq> 0" by simp
  show "\<forall>v \<in> set (hd_versions h). hv_version v < n"
  proof
    fix v assume "v \<in> set (hd_versions h)"
    then have "hv_version v \<in> ?S" by simp
    then have "hv_version v \<le> Max ?S" by (intro Max_ge) simp_all
    then show "hv_version v < n" using n by simp
  qed
qed

lemma check_heads_append:
  assumes "check_heads i h = Inr h" and "next_ordinal h = Inr n" and "hv_version v = n" and "version_row_ok v"
  shows "check_heads i (h\<lparr>hd_versions := hd_versions h @ [v], hd_current_version := k\<rparr>) =
    Inr (h\<lparr>hd_versions := hd_versions h @ [v], hd_current_version := k\<rparr>)"
  using assms next_ordinal_fresh [OF assms (2)]
  by (auto simp: check_heads_Inr heads_origin_ok_def)

lemma check_heads_current:
  "check_heads i h = Inr h \<Longrightarrow> check_heads i (h\<lparr>hd_current_version := k\<rparr>) = Inr (h\<lparr>hd_current_version := k\<rparr>)"
  by (auto simp: check_heads_Inr heads_origin_ok_def)

lemma new_document_Inr:
  assumes "new_heads_document i meta w = (w', Inr h)"
  shows "check_heads i h = Inr h" and "hd_versions h = []"
  using assms
  by (auto simp: new_heads_document_def s_bind_Inr s_lift_def draw_Inr check_heads_Inr heads_origin_ok_def
      validate_new_secret_origin_def STORE_FORMAT_VERSION_def MIN_SUPPORTED_STORE_FORMAT_VERSION_def
      split: prod.splits secret_origin.splits if_splits)

section \<open>Every mutation adds rows only\<close>

lemma same_row_step:
  assumes "same_heads w w1" and "row_step w1 w2"
  shows "row_step w w2"
proof (cases "same_heads w1 w2")
  case True
  with assms (1) show ?thesis by (auto simp: row_step_def intro: same_heads_trans)
next
  case False
  with assms (2) obtain i h where "saved_heads w1 w2 i h" "check_heads i h = Inr h"
    "\<forall>h0. read_heads w1 i = Inr h0 \<longrightarrow> (\<exists>vs. hd_versions h = hd_versions h0 @ vs)"
    by (auto simp: row_step_def)
  with same_saved [OF assms (1)] read_heads_same [OF assms (1)] show ?thesis unfolding row_step_def by metis
qed

lemma row_step_bind:
  assumes "keeps_heads m"
    and "\<And>w1 x. m w = (w1, Inr x) \<Longrightarrow> same_heads w w1 \<Longrightarrow> row_step w1 (fst (f x w1))"
  shows "row_step w (fst (s_bind m f w))"
proof -
  obtain w1 r where m: "m w = (w1, r)" by (cases "m w")
  have same: "same_heads w w1" using keeps_headsD [OF assms (1) m] .
  show ?thesis
  proof (cases r)
    case (Inl e)
    with m same show ?thesis by (simp add: s_bind_def row_step_def)
  next
    case (Inr x)
    with m same assms (2) show ?thesis by (auto simp: s_bind_def intro: same_row_step)
  qed
qed

lemma row_step_then_pure:
  assumes "row_step w (fst (m w))"
  shows "row_step w (fst (s_bind m (\<lambda>x. s_return (g x)) w))"
  using assms by (cases "m w"; cases "snd (m w)") (auto simp: s_bind_def s_return_def)

lemma row_step_save:
  assumes "check_heads i h = Inr h"
    and "\<And>h0. read_heads w i = Inr h0 \<Longrightarrow> \<exists>vs. hd_versions h = hd_versions h0 @ vs"
  shows "row_step w (fst (save_heads i h w))"
  using save_heads_cases [of i h w "fst (save_heads i h w)" "snd (save_heads i h w)"] assms
  by (auto simp: row_step_def)

lemma extends_packages: "same_heads w w' \<Longrightarrow> sw_packages w' = sw_packages w"
  by (simp add: same_heads_def extends_def)

lemma row_ok_holds: "row_holds w i p v \<Longrightarrow> hv_version v \<noteq> 0 \<Longrightarrow> version_row_ok v"
  by (auto simp: row_holds_def version_row_ok_def)

lemma row_step_append_new:
  assumes pk: "store_packages_ok (sw_packages w)" and h: "read_heads w i = Inr h"
  shows "row_step w (fst (append_new i h p m w))"
  unfolding append_new_def
proof (rule row_step_bind [OF keeps_heads_basic (2)], rule row_step_bind [OF keeps_heads_write_object (2)],
    rule row_step_then_pure, rule row_step_save)
  fix w1 n w2 v
  assume "s_lift (next_ordinal h) w = (w1, Inr n)" and w1: "same_heads w w1"
    and v: "write_version_object i n p None m w1 = (w2, Inr v)" and w2: "same_heads w1 w2"
  then have n: "next_ordinal h = Inr n" by simp
  have "store_packages_ok (sw_packages w1)" using pk w1 by (simp add: extends_packages)
  note written = write_object_Inr [OF v this]
  show "check_heads i (h\<lparr>hd_versions := hd_versions h @ [v], hd_current_version := n\<rparr>) =
      Inr (h\<lparr>hd_versions := hd_versions h @ [v], hd_current_version := n\<rparr>)"
    using check_heads_append [OF read_heads_check [OF h] n written (2)] row_ok_holds [OF written (1)]
      next_ordinal_fresh (1) [OF n] written (2) by simp
  fix h0 assume "read_heads w2 i = Inr h0"
  then have "h0 = h" using h read_heads_same [OF w1] read_heads_same [OF w2] by simp
  then show "\<exists>vs. hd_versions (h\<lparr>hd_versions := hd_versions h @ [v], hd_current_version := n\<rparr>) = hd_versions h0 @ vs"
    by simp
qed

text \<open>An operation that verifies, reads one document and saves a changed one.\<close>

lemma row_step_edit:
  assumes "\<And>w1 h. same_heads w w1 \<Longrightarrow> read_heads w1 i = Inr h \<Longrightarrow> row_step w1 (fst (f h w1))"
  shows "row_step w (fst (s_bind verify_security_state (\<lambda>_. s_bind (s_read (\<lambda>w. read_heads w i)) f) w))"
proof (rule row_step_bind [OF keeps_heads_verify])
  fix w1 x
  assume w1: "same_heads w w1"
  show "row_step w1 (fst (s_bind (s_read (\<lambda>w. read_heads w i)) f w1))"
    by (rule row_step_bind [OF keeps_heads_basic (3)]) (use assms w1 in auto)
qed

lemma row_step_refl [simp]: "row_step w w"
  by (simp add: row_step_def)

lemma row_step_save_rows:
  assumes "read_heads w i = Inr h0" and "check_heads i h = Inr h" and "hd_versions h = hd_versions h0"
  shows "row_step w (fst (save_heads i h w))"
  using assms by (intro row_step_save) auto

lemma row_step_set_current:
  assumes "read_heads w i = Inr h"
  shows "row_step w (fst (save_heads i (h\<lparr>hd_current_version := k\<rparr>) w))"
  by (rule row_step_save_rows [OF assms check_heads_current [OF read_heads_check [OF assms]]]) simp

lemma row_step_append:
  assumes pk: "store_packages_ok (sw_packages w)"
  shows "row_step w (fst (append_version_internal i p m w))"
  unfolding append_version_internal_def
proof (rule row_step_edit)
  fix w1 h
  assume w1: "same_heads w w1" and h: "read_heads w1 i = Inr h"
  have pk1: "store_packages_ok (sw_packages w1)" using pk w1 by (simp add: extends_packages)
  show "row_step w1 (fst ((case mutation_version m h of None \<Rightarrow> append_new i h p m
      | Some v \<Rightarrow> s_bind (s_read (\<lambda>w. decrypt_version w i (hv_version v))) (\<lambda>existing.
          if existing \<noteq> p then s_lift (Inl (StoreInvalid ''mutation was already used for different secret bytes''))
          else if hd_current_version h \<noteq> hv_version v
          then s_bind (save_heads i (h\<lparr>hd_current_version := hv_version v\<rparr>)) (\<lambda>_. s_return (hv_version v))
          else s_return (hv_version v))) w1))"
  proof (cases "mutation_version m h")
    case None
    then show ?thesis using row_step_append_new [OF pk1 h] by simp
  next
    case (Some v)
    have "row_step w1 (fst (s_bind (save_heads i (h\<lparr>hd_current_version := hv_version v\<rparr>)) (\<lambda>_. s_return (hv_version v)) w1))"
      by (intro row_step_then_pure row_step_set_current h)
    then show ?thesis using Some by (simp add: s_bind_def [of "s_read _"] split: sum.splits)
  qed
qed

lemma row_step_put_new:
  assumes pk: "store_packages_ok (sw_packages w)" and new: "read_heads w i = Inl StoreNotFound"
  shows "row_step w (fst (put_new i meta p m w))"
  unfolding put_new_def
proof (rule row_step_bind [OF keeps_heads_new_document], rule row_step_bind [OF keeps_heads_write_object (2)],
    rule row_step_then_pure, rule row_step_save)
  fix w1 h w2 v
  assume doc: "new_heads_document i meta w = (w1, Inr h)" and w1: "same_heads w w1"
    and v: "write_version_object i 1 p None m w1 = (w2, Inr v)" and w2: "same_heads w1 w2"
  have "store_packages_ok (sw_packages w1)" using pk w1 by (simp add: extends_packages)
  note written = write_object_Inr [OF v this]
  have n: "next_ordinal h = Inr 1" using new_document_Inr (2) [OF doc] by (simp add: next_ordinal_def)
  show "check_heads i (h\<lparr>hd_versions := hd_versions h @ [v], hd_current_version := 1\<rparr>) =
      Inr (h\<lparr>hd_versions := hd_versions h @ [v], hd_current_version := 1\<rparr>)"
    using check_heads_append [OF new_document_Inr (1) [OF doc] n written (2)] row_ok_holds [OF written (1)] written (2)
    by simp
  fix h0 assume "read_heads w2 i = Inr h0"
  then show "\<exists>vs. hd_versions (h\<lparr>hd_versions := hd_versions h @ [v], hd_current_version := 1\<rparr>) = hd_versions h0 @ vs"
    using new read_heads_same [OF w1] read_heads_same [OF w2] by simp
qed

lemma row_step_put:
  assumes "store_packages_ok (sw_packages w)"
  shows "row_step w (fst (put_internal i meta p m w))"
  unfolding put_internal_def
proof (rule row_step_bind [OF keeps_heads_verify])
  fix w1 x
  assume w1: "same_heads w w1"
  then have pk1: "store_packages_ok (sw_packages w1)" using assms by (simp add: extends_packages)
  show "row_step w1 (fst (case read_heads w1 i of
      Inr h \<Rightarrow> (case mutation_version m h of
        Some v \<Rightarrow> (w1, and_then (decrypt_version w1 i (hv_version v)) (\<lambda>existing.
          if existing \<noteq> p then Inl (StoreInvalid ''mutation was already used for different secret bytes'') else Inr i))
      | None \<Rightarrow> (w1, Inl (StoreInvalid ''secret id already exists for a different mutation'')))
    | Inl e \<Rightarrow> if e = StoreNotFound then put_new i meta p m w1 else (w1, Inl e)))"
    using row_step_put_new [OF pk1] by (auto split: sum.splits option.splits)
qed

lemma row_step_set_head: "row_step w (fst (set_head i n w))"
  unfolding set_head_def
proof (rule row_step_edit)
  fix w1 h
  assume "read_heads w1 i = Inr h"
  then show "row_step w1 (fst (s_bind (s_lift (find_version h n)) (\<lambda>_. save_heads i (h\<lparr>hd_current_version := n\<rparr>)) w1))"
    by (intro row_step_bind [OF keeps_heads_basic (2)]) (auto intro: row_step_set_current)
qed

lemma row_step_set_head_to_uuid: "row_step w (fst (set_head_to_uuid i u w))"
  unfolding set_head_to_uuid_def
proof (rule row_step_edit)
  fix w1 h
  assume h: "read_heads w1 i = Inr h"
  show "row_step w1 (fst (s_bind (s_lift (ok_or (find (\<lambda>v. hv_version_uuid v = u) (hd_versions h)) StoreNotFound)) (\<lambda>v.
      if hd_current_version h \<noteq> hv_version v
      then s_bind (save_heads i (h\<lparr>hd_current_version := hv_version v\<rparr>)) (\<lambda>_. s_return (hv_version v))
      else s_return (hv_version v)) w1))"
  proof (rule row_step_bind [OF keeps_heads_basic (2)])
    fix w2 v
    assume "s_lift (ok_or (find (\<lambda>v. hv_version_uuid v = u) (hd_versions h)) StoreNotFound) w1 = (w2, Inr v)"
    then have "read_heads w2 i = Inr h" using h by simp
    then have "row_step w2 (fst (s_bind (save_heads i (h\<lparr>hd_current_version := hv_version v\<rparr>)) (\<lambda>_. s_return (hv_version v)) w2))"
      by (intro row_step_then_pure row_step_set_current)
    then show "row_step w2 (fst ((if hd_current_version h \<noteq> hv_version v
        then s_bind (save_heads i (h\<lparr>hd_current_version := hv_version v\<rparr>)) (\<lambda>_. s_return (hv_version v))
        else s_return (hv_version v)) w2))" by simp
  qed
qed

section \<open>Placements stay valid\<close>

lemma map_dedup_key: "map key (dedup_key key xs) = remdups_adj (map key xs)"
  by (induction key xs rule: dedup_key.induct) auto

lemma set_dedup_key: "set (dedup_key key xs) \<subseteq> set xs"
  by (induction key xs rule: dedup_key.induct) auto

lemma map_sort_key: "map f (sort_key f xs) = sort (map f xs)"
  by (rule sym, rule properties_for_sort) simp_all

lemma adjacent_equal_iff: "adjacent_equal xs \<longleftrightarrow> \<not> distinct_adj xs"
  by (induction xs rule: adjacent_equal.induct) auto

lemma adjacent_equal_remdups: "\<not> adjacent_equal (remdups_adj xs)"
  by (simp add: adjacent_equal_iff)

lemma sort_dedup_idem: "sort_dedup (sort_dedup es) = sort_dedup es"
  using distinct_adj_altdef [of "remdups_adj (sort es)"] by (simp add: sort_dedup_def sorted_sort_id)

lemma set_sort_dedup [simp]: "set (sort_dedup es) = set es"
  by (simp add: sort_dedup_def)

lemma canonical_set_environments:
  assumes "canonical_placement p = Inr p'" and "\<not> list_ex blank_or_nul es"
  shows "canonical_placement (set_placement_environments es p) = Inr (set_placement_environments es p)"
proof -
  have "\<not> list_ex blank_or_nul (sort_dedup es)" using assms (2) by (simp add: list_ex_iff)
  with assms (1) show ?thesis
    by (cases p) (auto simp: canonical_placement_def Let_def sort_dedup_idem split: if_splits)
qed

lemma try_map_same: "(\<And>x. x \<in> set xs \<Longrightarrow> f x = Inr x) \<Longrightarrow> try_map f xs = Inr xs"
  by (induction xs) auto

lemma settings_placements_valid:
  assumes valid: "is_ok (validate_managed_placements ps)" and es: "\<not> list_ex blank_or_nul (unwrap_or environment_ids [])"
  shows "is_ok (validate_managed_placements (settings_placements environment_ids ps))"
proof -
  let ?q = "settings_placements environment_ids ps" and ?es = "unwrap_or environment_ids []"
  obtain cs where cs: "try_map canonical_placement ps = Inr cs"
    using valid by (auto simp: validate_managed_placements_def is_ok_iff and_then_eq_Inr)
  have old: "\<exists>p'. canonical_placement p = Inr p'" if p: "p \<in> set ps" for p
  proof -
    have rel: "list_all2 (\<lambda>x y. canonical_placement x = Inr y) ps cs" using cs by (simp add: try_map_Inr)
    from p obtain k where "k < length ps" "ps ! k = p" by (auto simp: in_set_conv_nth)
    with list_all2_nthD [OF rel] show ?thesis by blast
  qed
  have "canonical_placement q = Inr q" if q: "q \<in> set ?q" for q
  proof -
    from q obtain p where "p \<in> set ps" "q = set_placement_environments ?es p"
      using set_dedup_key [of placement_key] unfolding settings_placements_def by fastforce
    with old canonical_set_environments [OF _ es] show ?thesis by blast
  qed
  then have canon: "try_map canonical_placement ?q = Inr ?q" by (rule try_map_same)
  have keys: "map placement_key ?q = remdups_adj (sort (map placement_key (map (set_placement_environments ?es) ps)))"
    by (simp add: settings_placements_def map_dedup_key map_sort_key)
  then have "sort (map placement_key ?q) = map placement_key ?q" by (simp add: sorted_sort_id)
  moreover have "\<not> adjacent_equal (map placement_key ?q)" unfolding keys by (rule adjacent_equal_remdups)
  ultimately show ?thesis using canon by (simp add: validate_managed_placements_def)
qed

lemma check_heads_settings:
  assumes "check_heads i h = Inr h" and "is_ok (validate_managed_placements ps)"
    and "hd_source_path h' = hd_source_path h" "hd_id h' = hd_id h" "hd_format h' = hd_format h"
    and "hd_versions h' = hd_versions h" "hd_placements h' = ps"
    and "hd_managed_label h' = hd_managed_label h \<or> hd_source_path h = None \<and> (\<exists>l. hd_managed_label h' = Some l \<and> trim l \<noteq> [])"
  shows "check_heads i h' = Inr h'"
  using assms by (auto simp: check_heads_Inr heads_origin_ok_def split: option.splits)

lemma row_step_update_settings:
  assumes es: "\<not> list_ex blank_or_nul (unwrap_or es [])"
  shows "row_step w (fst (update_settings i md e es w))"
  unfolding update_settings_def
proof (rule row_step_bind [OF keeps_heads_basic (2)], rule row_step_edit)
  fix w1 w2 :: store_world and h
  assume h: "read_heads w2 i = Inr h"
  have ok: "is_ok (validate_managed_placements (hd_placements h))" using read_heads_check [OF h] by (simp add: check_heads_Inr)
  show "row_step w2 (fst (save_heads i (h\<lparr>hd_metadata := md, hd_enforcement := e, hd_environment_ids := es,
      hd_placements := settings_placements es (hd_placements h)\<rparr>) w2))"
    by (rule row_step_save_rows [OF h check_heads_settings [OF read_heads_check [OF h] settings_placements_valid [OF ok es]]])
      simp_all
qed

lemma row_step_update_placements: "row_step w (fst (update_placements i ps w))"
  unfolding update_placements_def
proof (rule row_step_bind [OF keeps_heads_basic (2)], rule row_step_edit)
  fix w1 w2 :: store_world and h x
  assume "s_lift (validate_managed_placements ps) w = (w1, Inr x)" and h: "read_heads w2 i = Inr h"
  then have ok: "is_ok (validate_managed_placements ps)" by simp
  show "row_step w2 (fst (save_heads i (h\<lparr>hd_placements := ps\<rparr>) w2))"
    by (rule row_step_save_rows [OF h check_heads_settings [OF read_heads_check [OF h] ok]]) simp_all
qed

lemma row_step_replicated_settings: "row_step w (fst (apply_replicated_settings i l mode md e es ps w))"
  unfolding apply_replicated_settings_def
proof (rule row_step_bind [OF keeps_heads_basic (2)], rule row_step_bind [OF keeps_heads_basic (2)],
    rule row_step_bind [OF keeps_heads_basic (2)], rule row_step_edit)
  fix w1 w2 w3 w4 :: store_world and h x1 x2 x3
  assume l: "s_lift (if blank_or_nul l then Inl (StoreInvalid ''replicated secret label cannot be empty or contain NUL'')
      else if mode div 512 \<noteq> 0 then Inl (StoreInvalid ''replicated secret mode must contain only permission bits'')
      else Inr ()) w = (w1, Inr x1)"
    and "s_lift (validate_managed_placements ps) w2 = (w3, Inr x3)" and h: "read_heads w4 i = Inr h"
  then have ok: "is_ok (validate_managed_placements ps)" by simp
  have "trim l \<noteq> []" using l by (auto simp: blank_or_nul_def split: if_splits)
  then show "row_step w4 (fst (save_heads i (h\<lparr>hd_mode := mode,
      hd_managed_label := if hd_source_path h = None then Some l else hd_managed_label h, hd_metadata := md,
      hd_enforcement := e, hd_environment_ids := es, hd_placements := ps\<rparr>) w4))"
    by (intro row_step_save_rows [OF h check_heads_settings [OF read_heads_check [OF h] ok]]) auto
qed

section \<open>Replicated rows\<close>

lemma replicated_heads_Inr:
  assumes "replicated_heads i existing create w = (w', Inr h)"
    and "\<forall>h0. existing = Some h0 \<longrightarrow> check_heads i h0 = Inr h0"
  shows "check_heads i h = Inr h" and "existing = Some h0 \<Longrightarrow> h = h0" and "existing = None \<Longrightarrow> hd_versions h = []"
  using assms by (auto simp: replicated_heads_def new_document_Inr split: option.splits)

lemma keeps_heads_replicated [simp]: "keeps_heads (replicated_heads i existing create)"
  by (auto simp: replicated_heads_def split: option.splits)

lemma row_step_add_row:
  assumes h: "check_heads i h = Inr h" and old: "\<And>h0. read_heads w i = Inr h0 \<Longrightarrow> h0 = h"
    and u: "u \<noteq> []" and d: "d \<noteq> []"
  shows "row_step w (fst (add_replicated_row i h u g n d m w))"
  unfolding add_replicated_row_def
proof (rule row_step_bind [OF keeps_heads_basic (2)], rule row_step_bind [OF keeps_heads_basic (4)])
  fix w1 w2 k x
  assume k: "s_lift (next_ordinal h) w = (w1, Inr k)" and w2: "same_heads w1 w2"
  let ?v = "\<lparr>hv_version = k, hv_version_uuid = u, hv_generation = g, hv_size = n, hv_digest = d,
    hv_created = sp_now (sw_packages w2) x, hv_note = None, hv_mutation_id = Some m\<rparr>"
  let ?h = "h\<lparr>hd_versions := hd_versions h @ [?v]\<rparr>"
  have n: "next_ordinal h = Inr k" and w: "w1 = w" using k by auto
  have ok: "version_row_ok ?v" using next_ordinal_fresh (1) [OF n] u d by (simp add: version_row_ok_def)
  have "check_heads i (?h\<lparr>hd_current_version := c\<rparr>) = Inr (?h\<lparr>hd_current_version := c\<rparr>)" for c
    using check_heads_append [OF h n _ ok, of c] by simp
  from this [of k] this [of "hd_current_version h"]
  have "row_step w2 (fst (save_heads i (if length (hd_versions ?h) = 1 then ?h\<lparr>hd_current_version := k\<rparr> else ?h) w2))"
    using old read_heads_same [OF w2] w by (intro row_step_save) auto
  then show "row_step w2 (fst (let h' = ?h; h'' = if length (hd_versions h') = 1 then h'\<lparr>hd_current_version := k\<rparr> else h'
      in s_bind (save_heads i h'') (\<lambda>_. s_return k) w2))"
    unfolding Let_def by (rule row_step_then_pure)
qed

lemma bound_uuid: "sp_parse_uuid pk u \<noteq> None \<Longrightarrow> store_packages_ok pk \<Longrightarrow> u \<noteq> []"
  by (auto simp: store_packages_ok_def)

lemma read_object_digest:
  "read_object_verified w d = Inr c \<Longrightarrow> store_packages_ok (sw_packages w) \<Longrightarrow> d \<noteq> []"
  using store_packages_okD (2) [of "sw_packages w"]
  by (auto simp: read_object_verified_def split: option.splits sum.splits if_splits)

lemma row_step_register:
  assumes pk: "store_packages_ok (sw_packages w)" and u: "u \<noteq> []"
  shows "row_step w (fst (register_replicated_version i create u g n d m w))"
  unfolding register_replicated_version_def
proof (rule row_step_bind [OF keeps_heads_basic (2)], rule row_step_bind [OF keeps_heads_verify],
    rule row_step_bind [OF keeps_heads_basic (3)])
  fix w1 w2 w3 :: store_world and x y existing
  assume w: "same_heads w w1" "same_heads w1 w2" "same_heads w2 w3"
    and ex: "s_read (\<lambda>w. heads_if_any w i) w2 = (w3, Inr existing)"
  have pk3: "store_packages_ok (sw_packages w3)" using pk w by (simp add: extends_packages)
  have known: "read_heads w3 i = Inr h \<longleftrightarrow> existing = Some h" for h
    using ex by (auto simp: heads_if_any_def split: sum.splits if_splits)
  have step: "row_step w3 (fst (s_bind (s_read (\<lambda>w. and_then (read_object_verified w d) (decrypt_object w i u g))) (\<lambda>plaintext.
      if length plaintext \<noteq> n then s_lift (Inl (StoreInvalid ''replicated version declares a different size''))
      else s_bind (replicated_heads i existing create) (\<lambda>h. add_replicated_row i h u g n d m)) w3))"
  proof (rule row_step_bind [OF keeps_heads_basic (3)])
    fix w4 plaintext
    assume "s_read (\<lambda>w. and_then (read_object_verified w d) (decrypt_object w i u g)) w3 = (w4, Inr plaintext)"
    then have w4: "w4 = w3" and dne: "d \<noteq> []" using read_object_digest [OF _ pk3] by (auto simp: and_then_eq_Inr)
    have "row_step w4 (fst (s_bind (replicated_heads i existing create) (\<lambda>h. add_replicated_row i h u g n d m) w4))"
    proof (rule row_step_bind [OF keeps_heads_replicated])
      fix w5 h
      assume rep: "replicated_heads i existing create w4 = (w5, Inr h)" and w5: "same_heads w4 w5"
      have ch: "\<forall>h0. existing = Some h0 \<longrightarrow> check_heads i h0 = Inr h0" using known read_heads_check by blast
      show "row_step w5 (fst (add_replicated_row i h u g n d m w5))"
      proof (rule row_step_add_row [OF replicated_heads_Inr (1) [OF rep ch] _ u dne])
        fix h0 assume "read_heads w5 i = Inr h0"
        then have "existing = Some h0" using known w4 read_heads_same [OF w5] by simp
        then show "h0 = h" using replicated_heads_Inr (2) [OF rep ch] by simp
      qed
    qed
    then show "row_step w4 (fst ((if length plaintext \<noteq> n
        then s_lift (Inl (StoreInvalid ''replicated version declares a different size''))
        else s_bind (replicated_heads i existing create) (\<lambda>h. add_replicated_row i h u g n d m)) w4))" by simp
  qed
  then show "row_step w3 (fst ((case Option.bind existing (\<lambda>h. find (\<lambda>v. hv_version_uuid v = u) (hd_versions h)) of
      Some v \<Rightarrow> s_lift (if hv_digest v \<noteq> d then Inl (StoreCorrupt ''version already exists with a different digest'')
        else Inr (hv_version v))
    | None \<Rightarrow> s_bind (s_read (\<lambda>w. and_then (read_object_verified w d) (decrypt_object w i u g))) (\<lambda>plaintext.
        if length plaintext \<noteq> n then s_lift (Inl (StoreInvalid ''replicated version declares a different size''))
        else s_bind (replicated_heads i existing create) (\<lambda>h. add_replicated_row i h u g n d m))) w3))"
    by (simp split: option.splits)
qed

end
