(* ===== verification/Store_Properties.thy ===== *)
theory Store_Properties
  imports Store_Versions
begin

text \<open>
  What the secret store guarantees: versions never change under any sequence of mutations with faults, an appended
  version is the new head and reads back, a retried mutation is applied once, an authenticated store serves only
  what was sealed and refuses to work on anything else.
\<close>

section \<open>The interface readers rely on\<close>

text \<open>
  A store of immutable versions: whatever steps happen in between, two successful reads of one version of a
  secret that is kept agree.
\<close>

locale version_store =
  fixes kept :: "'i set"
    and step :: "'s \<Rightarrow> 's \<Rightarrow> bool"
    and inv :: "'s \<Rightarrow> bool"
    and stored :: "'s \<Rightarrow> 'i \<Rightarrow> nat \<Rightarrow> bytes \<Rightarrow> bool"
    and read :: "'s \<Rightarrow> 'i \<Rightarrow> nat \<Rightarrow> 'e + bytes"
  assumes inv_step: "inv s \<Longrightarrow> step s s' \<Longrightarrow> inv s'"
    and stored_step: "inv s \<Longrightarrow> step s s' \<Longrightarrow> i \<in> kept \<Longrightarrow> stored s i n b \<Longrightarrow> stored s' i n b"
    and read_stored: "inv s \<Longrightarrow> i \<in> kept \<Longrightarrow> read s i n = Inr b \<Longrightarrow> stored s i n b"
    and stored_unique: "stored s i n b \<Longrightarrow> stored s i n b' \<Longrightarrow> b' = b"
begin

lemma inv_steps: "step\<^sup>*\<^sup>* s s' \<Longrightarrow> inv s \<Longrightarrow> inv s'"
  by (induction rule: rtranclp_induct) (auto intro: inv_step)

lemma stored_steps: "step\<^sup>*\<^sup>* s s' \<Longrightarrow> inv s \<Longrightarrow> i \<in> kept \<Longrightarrow> stored s i n b \<Longrightarrow> stored s' i n b"
  by (induction rule: rtranclp_induct) (auto intro: stored_step inv_steps)

lemma reads_agree:
  "step\<^sup>*\<^sup>* s s' \<Longrightarrow> inv s \<Longrightarrow> i \<in> kept \<Longrightarrow> read s i n = Inr b \<Longrightarrow> read s' i n = Inr b' \<Longrightarrow> b' = b"
  by (metis inv_steps read_stored stored_steps stored_unique)

end

section \<open>Steps of the store\<close>

text \<open>Deleting a secret of a solo vault removes the objects its document lists. Payloads are bound to one secret,
  so the objects of two secrets are different files.\<close>

definition unshared :: "ustring set \<Rightarrow> store_world \<Rightarrow> ustring \<Rightarrow> bool" where
  "unshared K w i \<longleftrightarrow>
     (\<forall>h j hj. read_heads w i = Inr h \<longrightarrow> j \<in> K \<longrightarrow> read_heads w j = Inr hj \<longrightarrow>
        hv_digest ` set (hd_versions h) \<inter> hv_digest ` set (hd_versions hj) = {})"

text \<open>Every mutation, whatever it returns and wherever it fails. The secrets of \<open>K\<close> are kept: they are not deleted,
  and are not given what makes their document unreadable, a blank environment or an empty version identifier.
  To every other secret anything may happen.\<close>

inductive store_step :: "ustring set \<Rightarrow> store_world \<Rightarrow> store_world \<Rightarrow> bool" for K where
  step_append: "append_version_internal i p m w = (w', r) \<Longrightarrow> store_step K w w'"
| step_put: "put_internal i meta p m w = (w', q) \<Longrightarrow> store_step K w w'"
| step_set_head: "set_head i n w = (w', u) \<Longrightarrow> store_step K w w'"
| step_set_head_to_uuid: "set_head_to_uuid i v w = (w', r) \<Longrightarrow> store_step K w w'"
| step_settings: "update_settings i md e es w = (w', u) \<Longrightarrow> i \<in> K \<longrightarrow> \<not> list_ex blank_or_nul (unwrap_or es []) \<Longrightarrow>
    store_step K w w'"
| step_placements: "update_placements i ps w = (w', u) \<Longrightarrow> store_step K w w'"
| step_replicated_settings: "apply_replicated_settings i l mode md e es ps w = (w', u) \<Longrightarrow> store_step K w w'"
| step_register: "register_replicated_version i create v g n d m' w = (w', r) \<Longrightarrow> i \<in> K \<longrightarrow> v \<noteq> [] \<Longrightarrow>
    store_step K w w'"
| step_delete: "store_delete i w = (w', u) \<Longrightarrow> i \<notin> K \<Longrightarrow> unshared K w i \<Longrightarrow> store_step K w w'"
| step_remove: "remove_replicated_heads i w = (w', r') \<Longrightarrow> i \<notin> K \<Longrightarrow> store_step K w w'"
| step_verify: "verify_security_state w = (w', u) \<Longrightarrow> store_step K w w'"

section \<open>What happens to other secrets\<close>

text \<open>A world that has the documents of the secrets of \<open>K\<close> and the objects they list as another has them.\<close>

definition spares :: "ustring set \<Rightarrow> store_world \<Rightarrow> store_world \<Rightarrow> bool" where
  "spares K w w' \<longleftrightarrow>
     sw_packages w' = sw_packages w \<and> sw_generation w' = sw_generation w \<and> sw_identity w' = sw_identity w \<and>
     (\<forall>j \<in> K. hm_get (sw_heads w') j = hm_get (sw_heads w) j) \<and>
     (\<forall>j \<in> K. \<forall>h. read_heads w j = Inr h \<longrightarrow>
        (\<forall>v \<in> set (hd_versions h). \<forall>f. sw_objects w (hv_digest v) = Some f \<longrightarrow> sw_objects w' (hv_digest v) = Some f)) \<and>
     (\<forall>j \<in> K. \<forall>h. (j, h) \<in> cached w' \<longrightarrow> (j, h) \<in> cached w \<or> read_heads w j = Inr h)"

lemma spares_read_heads: "spares K w w' \<Longrightarrow> j \<in> K \<Longrightarrow> read_heads w' j = read_heads w j"
  by (simp add: spares_def read_heads_def cong: option.case_cong)

lemma spares_refl [simp]: "spares K w w"
  by (simp add: spares_def)

lemma spares_trans: "spares K w w1 \<Longrightarrow> spares K w1 w2 \<Longrightarrow> spares K w w2"
  using spares_read_heads [of K w w1] unfolding spares_def by (auto, metis+)

lemma same_heads_spares: "same_heads w w' \<Longrightarrow> spares K w w'"
  by (auto simp: same_heads_def spares_def extends_def readable_def)

lemma saved_heads_spares:
  assumes "saved_heads w w' i h" and "i \<notin> K"
  shows "spares K w w'"
proof -
  have heads: "hm_get (sw_heads w') j = hm_get (sw_heads w) j" if "j \<in> K" for j
    using assms that by (auto simp: saved_heads_def)
  moreover have "sw_packages w' = sw_packages w" using assms(1) by (simp add: saved_heads_def extends_def)
  ultimately have "read_heads w' j = read_heads w j" if "j \<in> K" for j
    using that by (simp add: read_heads_def cong: option.case_cong)
  with heads assms(1) show ?thesis by (fastforce simp: saved_heads_def spares_def extends_def readable_def)
qed

lemma keeps_heads_spares: "keeps_heads m \<Longrightarrow> spares K w (fst (m w))"
  using same_heads_spares by (simp add: keeps_heads_def)

lemma spares_bind:
  assumes "spares K w (fst (m w))" and "\<And>w1 x. m w = (w1, Inr x) \<Longrightarrow> spares K w w1 \<Longrightarrow> spares K w1 (fst (f x w1))"
  shows "spares K w (fst (s_bind m f w))"
proof (cases "m w")
  case (Pair w1 r)
  with assms show ?thesis by (cases r) (auto simp: s_bind_def intro: spares_trans)
qed

lemma spares_save: "i \<notin> K \<Longrightarrow> spares K w (fst (save_heads i h w))"
  using save_heads_cases [of i h w "fst (save_heads i h w)" "snd (save_heads i h w)"]
  by (auto intro: same_heads_spares saved_heads_spares)

lemma write_effect_spares: "(\<And>w. spares K w (change w)) \<Longrightarrow> spares K w (fst (write_effect what change w))"
proof -
  assume change: "\<And>w. spares K w (change w)"
  have "spares K w (w\<lparr>sw_faults := tl (sw_faults w)\<rparr>)"
    by (simp add: spares_def cached_def)
  with change show ?thesis
    by (auto simp: write_effect_def Let_def split: effect.splits intro: spares_trans)
qed

lemma remove_head_file_spares:
  assumes "i \<notin> K"
  shows "spares K w (fst (remove_head_file i w))"
proof -
  have "spares K w (touch [HeadsDirectory] (w\<lparr>sw_heads := hm_remove i (sw_heads w)\<rparr>))" for w
    using assms by (auto simp: spares_def touch_def cached_def)
  then show ?thesis by (auto simp: remove_head_file_def split: option.split intro: write_effect_spares)
qed

lemma remove_objects_spares:
  assumes "\<And>j h. j \<in> K \<Longrightarrow> read_heads w j = Inr h \<Longrightarrow> hv_digest ` set vs \<inter> hv_digest ` set (hd_versions h) = {}"
  shows "spares K w (fst (s_each remove_object vs w))"
  using assms
proof (induction vs arbitrary: w)
  case (Cons v vs)
  have one: "spares K w (fst (remove_object v w))"
  proof (cases "sw_objects w (hv_digest v)")
    case (Some f)
    have ne: "hv_digest u \<noteq> hv_digest v" if "j \<in> K" "read_heads w j = Inr h" "u \<in> set (hd_versions h)" for j h u
    proof
      assume "hv_digest u = hv_digest v"
      with that(3) have "hv_digest v \<in> hv_digest ` set (hd_versions h)" by (metis imageI)
      with Cons.prems [OF that(1,2)] show False by simp
    qed
    have "spares K w (w\<lparr>sw_faults := x, sw_objects := (sw_objects w)(hv_digest v := None)\<rparr>)" for x
      unfolding spares_def cached_def by (auto dest: ne)
    moreover have "spares K w (w\<lparr>sw_faults := x\<rparr>)" for x by (simp add: spares_def cached_def)
    ultimately show ?thesis using Some by (auto simp: remove_object_def write_effect_def Let_def split: effect.split)
  qed (simp add: remove_object_def)
  show ?case unfolding s_each.simps
  proof (rule spares_bind, rule one)
    fix w1 x assume w1: "spares K w w1"
    have "hv_digest ` set vs \<inter> hv_digest ` set (hd_versions h) = {}" if "j \<in> K" "read_heads w1 j = Inr h" for j h
      using Cons.prems [of j h] that spares_read_heads [OF w1 that(1)] by auto
    then show "spares K w1 (fst (s_each remove_object vs w1))" by (rule Cons.IH)
  qed
qed simp

lemma spares_read_bind:
  "(\<And>h. read_heads w i = Inr h \<Longrightarrow> spares K w (fst (f h w))) \<Longrightarrow>
   spares K w (fst (s_bind (s_read (\<lambda>w. read_heads w i)) f w))"
  by (cases "read_heads w i") (simp_all add: s_bind_def s_read_def)

lemma store_delete_spares:
  assumes "i \<notin> K" and "unshared K w i"
  shows "spares K w (fst (store_delete i w))"
  unfolding store_delete_def
proof (rule spares_bind, rule keeps_heads_spares [OF keeps_heads_verify], rule spares_read_bind)
  fix w1 x h
  assume v: "verify_security_state w = (w1, Inr x)" and h: "read_heads w1 i = Inr h"
  have same: "same_heads w w1" by (rule keeps_headsD [OF keeps_heads_verify v])
  have objects: "spares K w1 (fst (s_each remove_object (hd_versions h) w1))"
  proof (rule remove_objects_spares)
    fix j hj assume "j \<in> K" "read_heads w1 j = Inr hj"
    with h read_heads_same [OF same] assms(2)
    show "hv_digest ` set (hd_versions h) \<inter> hv_digest ` set (hd_versions hj) = {}"
      unfolding unshared_def by simp
  qed
  have tail: "spares K w2 (fst (s_bind (remove_head_file i) (\<lambda>_. seal_security_state) w2))" for w2
    by (rule spares_bind, rule remove_head_file_spares [OF assms(1)], rule keeps_heads_spares [OF keeps_heads_seal])
  show "spares K w1 (fst (s_bind (s_read sw_other_devices) (\<lambda>others.
      s_bind (if others then s_return () else s_each remove_object (hd_versions h)) (\<lambda>_.
      s_bind (remove_head_file i) (\<lambda>_. seal_security_state))) w1))"
  proof (cases "sw_other_devices w1")
    case (Inr others)
    have "spares K w1 (fst (s_bind (if others then s_return () else s_each remove_object (hd_versions h)) (\<lambda>_.
        s_bind (remove_head_file i) (\<lambda>_. seal_security_state)) w1))"
      by (rule spares_bind) (use objects tail in auto)
    then show ?thesis unfolding s_bind_def [of "s_read _"] s_read_def Inr prod.case sum.case .
  qed (simp add: s_bind_def s_read_def)
qed

lemma remove_replicated_spares:
  assumes "i \<notin> K"
  shows "spares K w (fst (remove_replicated_heads i w))"
  unfolding remove_replicated_heads_def
proof (rule spares_bind, rule keeps_heads_spares [OF keeps_heads_verify])
  fix w1
  have "spares K w1 (fst (s_bind (remove_head_file i) (\<lambda>_. s_bind seal_security_state (\<lambda>_. s_return True)) w1))"
    by (rule spares_bind, rule remove_head_file_spares [OF assms],
        rule spares_bind, rule keeps_heads_spares [OF keeps_heads_seal]) simp
  then show "spares K w1 (fst ((if hm_get (sw_heads w1) i = None then (w1, Inr False)
      else s_bind (remove_head_file i) (\<lambda>_. s_bind seal_security_state (\<lambda>_. s_return True)) w1)))" by simp
qed

lemma settings_spares:
  assumes "i \<notin> K"
  shows "spares K w (fst (update_settings i md e es w))"
  unfolding update_settings_def
  by (rule spares_bind, rule keeps_heads_spares [OF keeps_heads_basic(2)], rule spares_bind,
      rule keeps_heads_spares [OF keeps_heads_verify], rule spares_read_bind, rule spares_save [OF assms])

lemma register_spares:
  assumes "i \<notin> K"
  shows "spares K w (fst (register_replicated_version i create v g n d m w))"
proof -
  have row: "spares K w (fst (add_replicated_row i h v g n d m w))" for w h
    unfolding add_replicated_row_def
    by (rule spares_bind, rule keeps_heads_spares [OF keeps_heads_basic(2)], rule spares_bind,
        rule keeps_heads_spares [OF keeps_heads_basic(4)], unfold Let_def, rule spares_bind, rule spares_save [OF assms]) simp
  have new: "spares K w (fst (s_bind (replicated_heads i existing create) (\<lambda>h. add_replicated_row i h v g n d m) w))" for w existing
    by (rule spares_bind, rule keeps_heads_spares [OF keeps_heads_replicated], rule row)
  show ?thesis
    unfolding register_replicated_version_def
    by (rule spares_bind, rule keeps_heads_spares [OF keeps_heads_basic(2)], rule spares_bind,
        rule keeps_heads_spares [OF keeps_heads_verify], rule spares_bind, rule keeps_heads_spares [OF keeps_heads_basic(3)])
      (auto split: option.split intro!: spares_bind keeps_heads_spares [OF keeps_heads_basic(3)] new)
qed

lemma store_step_cases:
  assumes "store_step K w w'" and pk: "store_packages_ok (sw_packages w)"
  shows "row_step w w' \<or> spares K w w'"
  using assms(1)
proof cases
  case (step_append i p m r)
  then show ?thesis using row_step_append [OF pk, of i p m] by simp
next
  case (step_put i meta p m q)
  then show ?thesis using row_step_put [OF pk, of i meta p m] by simp
next
  case (step_set_head i n u)
  then show ?thesis using row_step_set_head [of w i n] by simp
next
  case (step_set_head_to_uuid i v r)
  then show ?thesis using row_step_set_head_to_uuid [of w i v] by simp
next
  case (step_settings i md e es u)
  then show ?thesis
    using row_step_update_settings [of es w i md e] settings_spares [of i K w md e es] by (cases "i \<in> K") auto
next
  case (step_placements i ps u)
  then show ?thesis using row_step_update_placements [of w i ps] by simp
next
  case (step_replicated_settings i l mode md e es ps u)
  then show ?thesis using row_step_replicated_settings [of w i l mode md e es ps] by simp
next
  case (step_register i create v g n d m' r)
  then show ?thesis
    using row_step_register [OF pk, of v i create g n d m'] register_spares [of i K w create v g n d m']
    by (cases "i \<in> K") auto
next
  case (step_delete i u)
  then show ?thesis using store_delete_spares [of i K w] by simp
next
  case (step_remove i r')
  then show ?thesis using remove_replicated_spares [of i K w] by simp
next
  case (step_verify u)
  then show ?thesis using keeps_headsD [OF keeps_heads_verify] by (auto simp: row_step_def)
qed

section \<open>Versions stay\<close>

text \<open>The documents of kept secrets in memory are never ahead of the files.\<close>

definition cache_sound :: "ustring set \<Rightarrow> store_world \<Rightarrow> bool" where
  "cache_sound K w \<longleftrightarrow>
     (\<forall>i \<in> K. \<forall>h. (i, h) \<in> cached w \<longrightarrow> (\<exists>h' vs. read_heads w i = Inr h' \<and> hd_versions h' = hd_versions h @ vs))"

lemma row_step_rows:
  assumes step: "row_step w w'" and pk: "store_packages_ok (sw_packages w)" and h: "read_heads w i = Inr h"
  shows "\<exists>h' vs. read_heads w' i = Inr h' \<and> hd_versions h' = hd_versions h @ vs"
proof (cases "same_heads w w'")
  case True
  then show ?thesis using h read_heads_same by fastforce
next
  case False
  with step obtain j h1 where saved: "saved_heads w w' j h1" and ok: "check_heads j h1 = Inr h1"
    and rows: "\<forall>h0. read_heads w j = Inr h0 \<longrightarrow> (\<exists>vs. hd_versions h1 = hd_versions h0 @ vs)"
    by (auto simp: row_step_def)
  from saved_read_heads [OF saved pk ok, of i] h rows show ?thesis by (cases "i = j") auto
qed

lemma row_step_packages: "row_step w w' \<Longrightarrow> sw_packages w' = sw_packages w"
  by (auto simp: row_step_def same_heads_def saved_heads_def extends_def)

lemma row_step_cached:
  assumes "row_step w w'"
  shows "cached w' \<subseteq> cached w \<union> readable w \<union> readable w'"
  using assms by (auto simp: row_step_def same_heads_def saved_heads_def)

lemma row_step_cache_sound:
  assumes step: "row_step w w'" and pk: "store_packages_ok (sw_packages w)" and sound: "cache_sound K w"
  shows "cache_sound K w'"
  unfolding cache_sound_def
proof (intro ballI allI impI)
  fix i h
  assume i: "i \<in> K" and mem: "(i, h) \<in> cached w'"
  have grow: "\<exists>h' vs. read_heads w' i = Inr h' \<and> hd_versions h' = hd_versions h @ vs"
    if "read_heads w i = Inr h0" "hd_versions h0 = hd_versions h @ vs0" for h0 vs0
    using row_step_rows [OF step pk that (1)] that (2) by auto
  from mem row_step_cached [OF step] consider "(i, h) \<in> cached w" | "(i, h) \<in> readable w" | "(i, h) \<in> readable w'" by blast
  then show "\<exists>h' vs. read_heads w' i = Inr h' \<and> hd_versions h' = hd_versions h @ vs"
  proof cases
    case 1
    with sound i obtain h0 vs0 where "read_heads w i = Inr h0" "hd_versions h0 = hd_versions h @ vs0"
      unfolding cache_sound_def by blast
    then show ?thesis by (rule grow)
  next
    case 2
    then show ?thesis using grow [of h "[]"] by (simp add: readable_def)
  next
    case 3
    then show ?thesis by (simp add: readable_def)
  qed
qed

lemma spares_cache_sound:
  assumes "spares K w w'" and "cache_sound K w"
  shows "cache_sound K w'"
  unfolding cache_sound_def
proof (intro ballI allI impI)
  fix i h assume i: "i \<in> K" and mem: "(i, h) \<in> cached w'"
  from assms(1) i mem have "(i, h) \<in> cached w \<or> read_heads w i = Inr h" by (simp add: spares_def)
  then show "\<exists>h' vs. read_heads w' i = Inr h' \<and> hd_versions h' = hd_versions h @ vs"
    using assms(2) i by (auto simp: cache_sound_def spares_read_heads [OF assms(1) i])
qed

lemma spares_stable:
  assumes "spares K w w'" and "i \<in> K" and "decrypt_version w i n = Inr b"
  shows "decrypt_version w' i n = Inr b"
proof -
  obtain h v c where h: "read_heads w i = Inr h" and v: "find_version h n = Inr v"
    and c: "read_object_verified w (hv_digest v) = Inr c" "decrypt_object w i (hv_version_uuid v) (hv_generation v) c = Inr b"
    using assms(3) by (auto simp: decrypt_version_def decrypt_version_from_heads_def and_then_eq_Inr)
  have "v \<in> set (hd_versions h)" using v by (auto simp: find_version_def find_Some_iff)
  moreover obtain f where f: "sw_objects w (hv_digest v) = Some f"
    using c(1) by (cases "sw_objects w (hv_digest v)") (auto simp: read_object_verified_def read_untrusted_file_def)
  ultimately have "sw_objects w' (hv_digest v) = Some f"
    using assms(1,2) h by (simp add: spares_def)
  moreover have packages: "sw_packages w' = sw_packages w" using assms(1) by (simp add: spares_def)
  ultimately have "read_object_verified w' (hv_digest v) = read_object_verified w (hv_digest v)"
    using f by (simp only: read_object_verified_def)
  then have "read_object_verified w' (hv_digest v) = Inr c" using c(1) by simp
  moreover have "decrypt_object w' i (hv_version_uuid v) (hv_generation v) c = Inr b"
    using c(2) assms(1) by (simp add: decrypt_object_def spares_def)
  ultimately show ?thesis
    using h v by (simp add: decrypt_version_def decrypt_version_from_heads_def spares_read_heads [OF assms(1,2)])
qed

lemma verified_heads_cached:
  assumes "read_verified_heads w i = Inr h"
  shows "sw_integrity w = None \<and> read_heads w i = Inr h \<or> (i, h) \<in> cached w"
proof (cases "sw_integrity w")
  case None
  with assms show ?thesis by (simp add: read_verified_heads_def)
next
  case (Some si)
  with assms obtain stamp where "map_of (vs_heads (si_verified si)) i = Some (h, stamp)"
    by (auto simp: read_verified_heads_def and_then_eq_Inr)
  from map_of_SomeD [OF this] Some show ?thesis by (force simp: cached_def)
qed

lemma get_version_stored:
  assumes sound: "cache_sound K w" and "i \<in> K" and get: "get_version w i n = Inr b"
  shows "decrypt_version w i n = Inr b"
proof -
  obtain h where h: "read_verified_heads w i = Inr h" and dec: "decrypt_version_from_heads w i h n = Inr b"
    using get by (auto simp: get_version_def and_then_eq_Inr)
  obtain h' vs where "read_heads w i = Inr h'" "hd_versions h' = hd_versions h @ vs"
    using verified_heads_cached [OF h] sound assms(2) by (fastforce simp: cache_sound_def)
  with dec show ?thesis by (auto simp: decrypt_version_def intro: decrypt_from_heads_append)
qed

definition store_inv :: "ustring set \<Rightarrow> store_world \<Rightarrow> bool" where
  "store_inv K w \<longleftrightarrow> store_packages_ok (sw_packages w) \<and> cache_sound K w"

lemma store_step_packages:
  "store_step K w w' \<Longrightarrow> store_packages_ok (sw_packages w) \<Longrightarrow> sw_packages w' = sw_packages w"
  using store_step_cases row_step_packages by (fastforce simp: spares_def)

interpretation age_dir: version_store K "store_step K" "store_inv K" "\<lambda>w i n b. decrypt_version w i n = Inr b" get_version
  for K
proof unfold_locales
  fix w w' i n b b'
  show "store_inv K w'" if "store_inv K w" "store_step K w w'"
    using that store_step_cases [OF that (2)] row_step_cache_sound spares_cache_sound store_step_packages [OF that (2)]
    by (auto simp: store_inv_def)
  show "decrypt_version w' i n = Inr b" if "store_inv K w" "store_step K w w'" "i \<in> K" "decrypt_version w i n = Inr b"
    using that store_step_cases [OF that (2)] row_step_stable spares_stable by (auto simp: store_inv_def)
  show "decrypt_version w i n = Inr b" if "store_inv K w" "i \<in> K" "get_version w i n = Inr b"
    using that get_version_stored by (auto simp: store_inv_def)
  show "b' = b" if "decrypt_version w i n = Inr b" "decrypt_version w i n = Inr b'"
    using that by simp
qed

text \<open>
  (C13) Versions are immutable while their secret exists: once a version of a secret was read, it stays stored with the
  same content, and every later successful read returns it, whatever mutations run in between and wherever their
  writes fail, with and without an authenticated snapshot. The mutations are all those of the store, on this secret
  and on others, deletions and replicated removals of others included. Only this: the secret itself is not deleted or
  removed, it is not given a blank environment or an empty version identifier, which make its document unreadable,
  and a secret deleted from a solo vault lists no object of it.
\<close>

theorem versions_immutable:
  assumes "store_inv K w" and "(store_step K)\<^sup>*\<^sup>* w w'" and "i \<in> K" and "get_version w i n = Inr b"
  shows "decrypt_version w' i n = Inr b \<and> (\<forall>b'. get_version w' i n = Inr b' \<longrightarrow> b' = b)"
  using assms age_dir.stored_steps age_dir.reads_agree age_dir.read_stored by blast

section \<open>Reading after a sealed mutation\<close>

lemma stamp_set_verified [simp]:
  "store_file_stamp (set_verified v w) p = store_file_stamp w p"
  by (cases p) (auto simp: store_file_stamp_def path_file_def set_verified_def split: option.splits)

lemma heads_ids_mem:
  assumes "read_heads w i = Inr h" and "sp_parse_uuid (sw_packages w) i = Some i"
  shows "i \<in> set (heads_ids w)"
proof -
  obtain f where "hm_get (sw_heads w) i = Some f" using assms (1) by (auto simp: read_heads_def split: option.splits)
  then have "(i, f) \<in> set (sw_heads w)" by (rule hm_get_SomeD)
  with assms (2) show ?thesis by (force simp: heads_ids_def List.map_filter_def)
qed

lemma captured_lookup:
  assumes snap: "security_snapshot w = Inr hs" and cap: "capture_verified_state w1 hs = Inr v"
    and h: "read_heads w i = Inr h" and canon: "sp_parse_uuid (sw_packages w1) i = Some i"
    and pk: "sw_packages w1 = sw_packages w"
  shows "\<exists>stamp. map_of (vs_heads v) i = Some (h, stamp) \<and> store_file_stamp w1 (HeadPath i) = Inr stamp"
proof -
  have docs: "list_all2 (\<lambda>i h. read_heads w i = Inr h) (heads_ids w) hs"
    using snap by (simp add: security_snapshot_def try_map_Inr)
  have caps: "list_all2 (\<lambda>h e. capture_head w1 h = Inr e) hs (vs_heads v)"
    using cap by (auto simp: capture_verified_state_def and_then_eq_Inr try_map_Inr)
  have "i \<in> set (heads_ids w)" using heads_ids_mem [OF h] canon pk by simp
  from list_all2_left [OF docs this] h have "h \<in> set hs" by auto
  from list_all2_left [OF caps this] obtain st where "(hd_id h, h, st) \<in> set (vs_heads v)"
    by (auto simp: capture_head_def and_then_eq_Inr)
  moreover have "hd_id h = i" using read_heads_check [OF h] by (simp add: check_heads_Inr)
  ultimately have "(i, h, st) \<in> set (vs_heads v)" by simp
  from imageI [OF this, of fst] have "i \<in> fst ` set (vs_heads v)" by (simp only: fst_conv)
  then have "map_of (vs_heads v) i \<noteq> None" by (simp add: map_of_eq_None_iff)
  then obtain h1 stamp where hit: "map_of (vs_heads v) i = Some (h1, stamp)" by auto
  from list_all2_right [OF caps map_of_SomeD [OF hit]] obtain h2 where h2: "h2 \<in> set hs" "capture_head w1 h2 = Inr (i, h1, stamp)"
    by blast
  then have same: "h2 = h1" "hd_id h1 = i" and stamp: "store_file_stamp w1 (HeadPath i) = Inr stamp"
    using canon by (auto simp: capture_head_def and_then_eq_Inr)
  from snapshot_readable [OF snap h2 (1)] same h have "h1 = h" by (auto simp: readable_def)
  with hit stamp show ?thesis by blast
qed

lemma seal_reads:
  assumes seal: "seal_security_state w = (w', Inr ())" and canon: "sp_parse_uuid (sw_packages w) i = Some i"
    and h: "read_heads w i = Inr h"
  shows "read_verified_heads w' i = Inr h"
proof (cases "sw_integrity w")
  case None
  with seal h show ?thesis by (simp add: seal_security_state_def read_verified_heads_def)
next
  case (Some si)
  with seal obtain hs a g v where snap: "security_snapshot w = Inr hs"
    and cap: "capture_verified_state (set_generation g (put_auth (si_sidecar si) a w)) hs = Inr v"
    and w': "w' = set_verified v (set_generation g (put_auth (si_sidecar si) a w))"
    by (auto simp: seal_security_state_def Let_def split: sum.splits prod.splits)
  let ?w1 = "set_generation g (put_auth (si_sidecar si) a w)"
  have pk: "sw_packages ?w1 = sw_packages w" by (simp add: set_generation_def)
  with canon have canon1: "sp_parse_uuid (sw_packages ?w1) i = Some i" by simp
  have int: "sw_integrity w' = Some (si\<lparr>si_generation := g, si_verified := v\<rparr>)"
    using Some by (simp add: w' set_verified_def set_generation_def)
  obtain s1 s2 where "store_file_stamp ?w1 SidecarPath = Inr s1" "store_file_stamp ?w1 HeadsDirectory = Inr s2"
    "vs_sidecar_stamp v = s1" "vs_heads_directory_stamp v = s2"
    using cap by (auto simp: capture_verified_state_def and_then_eq_Inr)
  then have paths: "check_verified_paths w' v = Inr ()"
    by (simp add: check_verified_paths_def validate_store_stamp_def w')
  from captured_lookup [OF snap cap h canon1 pk] obtain stamp where
    "map_of (vs_heads v) i = Some (h, stamp)" "store_file_stamp ?w1 (HeadPath i) = Inr stamp" by blast
  with paths int show ?thesis by (simp add: read_verified_heads_def validate_store_stamp_def w')
qed

lemma save_reads:
  assumes save: "save_heads i h w = (w', Inr ())" and pk: "store_packages_ok (sw_packages w)"
    and ok: "check_heads i h = Inr h" and canon: "sp_parse_uuid (sw_packages w) i = Some i"
  shows "read_verified_heads w' i = Inr h" and "read_heads w' j = (if j = i then Inr h else read_heads w j)"
proof -
  from save obtain w1 where wr: "write_heads i h w = (w1, Inr ())" and seal: "seal_security_state w1 = (w', Inr ())"
    by (auto simp: save_heads_def s_bind_Inr)
  have saved: "saved_heads w w1 i h" using write_heads_cases [OF wr] by auto
  note rh = saved_read_heads [OF saved pk ok]
  have same: "same_heads w1 w'" using keeps_headsD [OF keeps_heads_seal seal] .
  show "read_verified_heads w' i = Inr h"
    using seal_reads [OF seal] canon rh [of i] saved by (simp add: saved_heads_def extends_def)
  show "read_heads w' j = (if j = i then Inr h else read_heads w j)"
    using rh [of j] read_heads_same [OF same] by simp
qed

section \<open>Appending\<close>

definition with_row :: "heads_document \<Rightarrow> heads_version \<Rightarrow> heads_document" where
  "with_row h v = h\<lparr>hd_versions := hd_versions h @ [v], hd_current_version := hv_version v\<rparr>"

lemma append_new_result:
  assumes pk: "store_packages_ok (sw_packages w)" and h: "read_heads w i = Inr h"
    and app: "append_new i h p m w = (w', r)"
  shows "same_heads w w' \<and> \<not> is_ok r \<or>
    (\<exists>v. next_ordinal h = Inr (hv_version v) \<and> saved_heads w w' i (with_row h v) \<and> hv_mutation_id v = m \<and>
      hv_size v = length p \<and> row_holds w' i p v \<and> (object_fits (sw_packages w) i p \<longrightarrow> object_size w' v \<le> MAX_OBJECT_BYTES) \<and>
      (\<not> is_ok r \<or> r = Inr (hv_version v) \<and> (\<exists>w1. same_heads w w1 \<and> save_heads i (with_row h v) w1 = (w', Inr ()))))"
proof -
  from app consider e where "w' = w" "r = Inl e"
    | n e where "next_ordinal h = Inr n" "write_version_object i n p None m w = (w', Inl e)" "r = Inl e"
    | n w1 v s where "next_ordinal h = Inr n" "write_version_object i n p None m w = (w1, Inr v)"
        "save_heads i (h\<lparr>hd_versions := hd_versions h @ [v], hd_current_version := n\<rparr>) w1 = (w', s)"
        "(\<exists>e. s = Inl e \<and> r = Inl e) \<or> s = Inr () \<and> r = Inr n"
    by (auto simp: append_new_def s_bind_cases)
  then show ?thesis
  proof cases
    case 1
    then show ?thesis by simp
  next
    case 2
    then show ?thesis using keeps_headsD [OF keeps_heads_write_object (2)] by auto
  next
    case 3
    note v = write_object_Inr [OF 3 (2) pk]
    have same: "same_heads w w1" using keeps_headsD [OF keeps_heads_write_object (2) 3 (2)] .
    have doc: "with_row h v = h\<lparr>hd_versions := hd_versions h @ [v], hd_current_version := n\<rparr>" using v (2) by (simp add: with_row_def)
    from save_heads_cases [OF 3 (3)] show ?thesis
    proof
      assume "same_heads w1 w' \<and> s \<noteq> Inr ()"
      then show ?thesis using 3 (4) same by (cases s) (auto intro: same_heads_trans)
    next
      assume saved: "saved_heads w1 w' i (h\<lparr>hd_versions := hd_versions h @ [v], hd_current_version := n\<rparr>)"
      then have ext: "extends w1 w'" by (simp add: saved_heads_def)
      have "\<not> is_ok r \<or> r = Inr (hv_version v) \<and> (\<exists>w1. same_heads w w1 \<and> save_heads i (with_row h v) w1 = (w', Inr ()))"
        using 3 (3,4) v (2) doc same by (cases s) auto
      then show ?thesis
        using same_saved [OF same saved] row_holds_extends [OF v (1) ext] v (2-5) 3 (1) doc
        by (intro disjI2 exI [of _ v]) auto
    qed
  qed
qed

lemma with_row_find:
  assumes "check_heads i h = Inr h" and "next_ordinal h = Inr (hv_version v)"
  shows "find_version (with_row h v) (hv_version v) = Inr v"
proof -
  have "find (\<lambda>x. hv_version x = hv_version v) (hd_versions h) = None"
    using next_ordinal_fresh (2) [OF assms (2)] by (auto simp: find_None_iff)
  then show ?thesis by (simp add: find_version_def with_row_def find_append)
qed

lemma check_with_row:
  "check_heads i h = Inr h \<Longrightarrow> next_ordinal h = Inr (hv_version v) \<Longrightarrow> row_holds w i p v \<Longrightarrow>
   check_heads i (with_row h v) = Inr (with_row h v)"
  using check_heads_append [of i h "hv_version v" v "hv_version v"] next_ordinal_fresh (1) row_ok_holds
  by (auto simp: with_row_def)

lemma internal_cases:
  assumes h: "read_heads w i = Inr h" and app: "append_version_internal i p m w = (w', r)"
  shows "same_heads w w' \<and> \<not> is_ok r \<or>
    (\<exists>w1. same_heads w w1 \<and> read_heads w1 i = Inr h \<and>
      (case mutation_version m h of
         None \<Rightarrow> append_new i h p m w1 = (w', r)
       | Some v \<Rightarrow> same_heads w1 w' \<and> (\<forall>n. r = Inr n \<longrightarrow> n = hv_version v) \<or>
           (\<exists>s. save_heads i (h\<lparr>hd_current_version := hv_version v\<rparr>) w1 = (w', s) \<and> (\<forall>n. r = Inr n \<longrightarrow> n = hv_version v))))"
proof -
  from app consider e where "verify_security_state w = (w', Inl e)" "r = Inl e"
    | w1 where "verify_security_state w = (w1, Inr ())"
      "s_bind (s_read (\<lambda>w. read_heads w i)) (\<lambda>h. case mutation_version m h of
          None \<Rightarrow> append_new i h p m
        | Some v \<Rightarrow> s_bind (s_read (\<lambda>w. decrypt_version w i (hv_version v))) (\<lambda>existing.
            if existing \<noteq> p then s_lift (Inl (StoreInvalid ''mutation was already used for different secret bytes''))
            else if hd_current_version h \<noteq> hv_version v
            then s_bind (save_heads i (h\<lparr>hd_current_version := hv_version v\<rparr>)) (\<lambda>_. s_return (hv_version v))
            else s_return (hv_version v))) w1 = (w', r)"
    by (auto simp: append_version_internal_def s_bind_cases)
  then show ?thesis
  proof cases
    case 1
    then show ?thesis using keeps_headsD [OF keeps_heads_verify] by auto
  next
    case 2
    have same: "same_heads w w1" using keeps_headsD [OF keeps_heads_verify 2 (1)] .
    then have h1: "read_heads w1 i = Inr h" using h read_heads_same by simp
    show ?thesis
      using 2 (2) same h1
      by (intro disjI2 exI [of _ w1]) (auto simp: s_bind_cases split: option.splits if_splits)
  qed
qed

lemma internal_present:
  assumes pk: "store_packages_ok (sw_packages w)" and h: "read_heads w i = Inr h" and v: "mutation_version m h = Some v"
    and app: "append_version_internal i p m w = (w', r)"
  shows "\<exists>h'. read_heads w' i = Inr h' \<and> hd_versions h' = hd_versions h \<and> (\<forall>n. r = Inr n \<longrightarrow> n = hv_version v)"
proof -
  have save: "\<exists>h'. read_heads w' i = Inr h' \<and> hd_versions h' = hd_versions h"
    if w1: "same_heads w w1" and s: "save_heads i (h\<lparr>hd_current_version := k\<rparr>) w1 = (w', s)" for w1 k s
  proof (cases "same_heads w1 w'")
    case True
    then show ?thesis using h read_heads_same [OF True] read_heads_same [OF w1] by simp
  next
    case False
    with save_heads_cases [OF s] have saved: "saved_heads w1 w' i (h\<lparr>hd_current_version := k\<rparr>)" by blast
    have "store_packages_ok (sw_packages w1)" using pk w1 by (simp add: extends_packages)
    from saved_read_heads [OF saved this check_heads_current [OF read_heads_check [OF h]]] show ?thesis by simp
  qed
  from internal_cases [OF h app] v show ?thesis
    using save h read_heads_same by (auto intro: same_heads_trans)
qed

lemma internal_absent:
  assumes pk: "store_packages_ok (sw_packages w)" and h: "read_heads w i = Inr h" and v: "mutation_version m h = None"
    and app: "append_version_internal i p m w = (w', r)"
  shows "same_heads w w' \<and> \<not> is_ok r \<or>
    (\<exists>v. next_ordinal h = Inr (hv_version v) \<and> read_heads w' i = Inr (with_row h v) \<and>
      (\<forall>j. j \<noteq> i \<longrightarrow> read_heads w' j = read_heads w j) \<and> hv_mutation_id v = m \<and>
      hv_size v = length p \<and> row_holds w' i p v \<and> (object_fits (sw_packages w) i p \<longrightarrow> object_size w' v \<le> MAX_OBJECT_BYTES) \<and>
      (\<not> is_ok r \<or> r = Inr (hv_version v) \<and> (\<exists>w1. sw_packages w1 = sw_packages w \<and> save_heads i (with_row h v) w1 = (w', Inr ()))))"
proof (cases "same_heads w w' \<and> \<not> is_ok r")
  case False
  with internal_cases [OF h app] v obtain w1 where w1: "same_heads w w1" and h1: "read_heads w1 i = Inr h"
    and new: "append_new i h p m w1 = (w', r)" by auto
  have pk1: "store_packages_ok (sw_packages w1)" and pkeq: "sw_packages w1 = sw_packages w"
    using pk extends_packages [OF w1] by simp_all
  from append_new_result [OF pk1 h1 new] show ?thesis
  proof
    assume "same_heads w1 w' \<and> \<not> is_ok r"
    with w1 show ?thesis by (blast intro: same_heads_trans)
  next
    assume "\<exists>v. next_ordinal h = Inr (hv_version v) \<and> saved_heads w1 w' i (with_row h v) \<and> hv_mutation_id v = m \<and>
      hv_size v = length p \<and> row_holds w' i p v \<and> (object_fits (sw_packages w1) i p \<longrightarrow> object_size w' v \<le> MAX_OBJECT_BYTES) \<and>
      (\<not> is_ok r \<or> r = Inr (hv_version v) \<and> (\<exists>w2. same_heads w1 w2 \<and> save_heads i (with_row h v) w2 = (w', Inr ())))"
    then obtain v where v: "next_ordinal h = Inr (hv_version v)" "saved_heads w1 w' i (with_row h v)"
      "hv_mutation_id v = m" "hv_size v = length p" "row_holds w' i p v"
      "object_fits (sw_packages w) i p \<longrightarrow> object_size w' v \<le> MAX_OBJECT_BYTES"
      and r: "\<not> is_ok r \<or> r = Inr (hv_version v) \<and> (\<exists>w2. same_heads w1 w2 \<and> save_heads i (with_row h v) w2 = (w', Inr ()))"
      unfolding pkeq by blast
    have "read_heads w' j = (if j = i then Inr (with_row h v) else read_heads w j)" for j
      using saved_read_heads [OF v (2) pk1 check_with_row [OF read_heads_check [OF h] v (1) v (5)]] read_heads_same [OF w1] by simp
    moreover have "\<not> is_ok r \<or> r = Inr (hv_version v) \<and>
        (\<exists>w2. sw_packages w2 = sw_packages w \<and> save_heads i (with_row h v) w2 = (w', Inr ()))"
      using r pkeq extends_packages by metis
    ultimately show ?thesis using v by (intro disjI2 exI [of _ v]) simp
  qed
qed blast

text \<open>An append that fails leaves every document as it was, or has written the new version without sealing it.\<close>

lemma append_failed:
  assumes pk: "store_packages_ok (sw_packages w)" and app: "append_version i p w = (w', Inl e)"
  shows "(\<forall>j. read_heads w' j = read_heads w j) \<or>
    (\<exists>h v. read_heads w i = Inr h \<and> read_heads w' i = Inr (with_row h v) \<and> row_holds w' i p v \<and>
      (\<forall>j. j \<noteq> i \<longrightarrow> read_heads w' j = read_heads w j))"
proof (cases "read_heads w i")
  case (Inr h)
  have "mutation_version None h = None" by (simp add: mutation_version_def)
  from internal_absent [OF pk Inr this app [unfolded append_version_def]] Inr show ?thesis
    using read_heads_same by blast
next
  case (Inl f)
  have "same_heads w w'"
  proof (cases "verify_security_state w")
    case (Pair w1 r)
    then have "same_heads w w1" by (rule keeps_headsD [OF keeps_heads_verify])
    moreover from this have "read_heads w1 i = Inl f" using Inl read_heads_same by simp
    ultimately show ?thesis using app Pair
      by (cases r) (auto simp: append_version_def append_version_internal_def s_bind_def s_read_def)
  qed
  then show ?thesis using read_heads_same by blast
qed

lemma append_reads_back:
  assumes pk: "store_packages_ok (sw_packages w)" and canon: "sp_parse_uuid (sw_packages w) i = Some i"
    and fits: "object_fits (sw_packages w) i p" and app: "append_version i p w = (w', Inr n)"
  shows "\<exists>h v. read_heads w i = Inr h \<and> next_ordinal h = Inr n \<and> hv_version v = n \<and> hv_size v = length p \<and>
    read_heads w' i = Inr (with_row h v) \<and> store_get w' i = Inr p \<and> get_version w' i n = Inr p \<and>
    (\<forall>j. j \<noteq> i \<longrightarrow> read_heads w' j = read_heads w j)"
proof -
  note app' = app [unfolded append_version_def]
  obtain w1 where "verify_security_state w = (w1, Inr ())" and rd: "is_ok (read_heads w1 i)"
    using app' by (auto simp: append_version_internal_def s_bind_Inr)
  then have "same_heads w w1" using keeps_headsD [OF keeps_heads_verify] by blast
  with rd obtain h where h: "read_heads w i = Inr h" using read_heads_same by (auto simp: is_ok_iff)
  have none: "mutation_version None h = None" by (simp add: mutation_version_def)
  from internal_absent [OF pk h none app'] obtain v w2 where v: "next_ordinal h = Inr n" "hv_version v = n"
      "read_heads w' i = Inr (with_row h v)" "\<forall>j. j \<noteq> i \<longrightarrow> read_heads w' j = read_heads w j"
      "hv_size v = length p" "row_holds w' i p v" "object_size w' v \<le> MAX_OBJECT_BYTES"
    and save: "sw_packages w2 = sw_packages w" "save_heads i (with_row h v) w2 = (w', Inr ())"
    using fits by auto
  have ord: "next_ordinal h = Inr (hv_version v)" using v (1,2) by simp
  note ok = check_with_row [OF read_heads_check [OF h] ord v (6)]
  have "read_verified_heads w' i = Inr (with_row h v)" using save_reads (1) [OF save (2) _ ok] save (1) pk canon by simp
  moreover have "decrypt_version_from_heads w' i (with_row h v) n = Inr p"
    using row_holds_decrypt [OF v (6,7)] with_row_find [OF read_heads_check [OF h] ord] v (2) by simp
  moreover have "hd_current_version (with_row h v) = n" using v (2) by (simp add: with_row_def)
  ultimately have "store_get w' i = Inr p" "get_version w' i n = Inr p" by (simp_all add: store_get_def get_version_def)
  with h v show ?thesis by blast
qed


text \<open>A small store: encryption is the identity, documents are encoded by their place in a table.\<close>

definition table_index :: "'a list \<Rightarrow> 'a \<Rightarrow> nat option" where
  "table_index docs h = find (\<lambda>k. docs ! k = h) [0..<length docs]"

definition table_lookup :: "'a list \<Rightarrow> bytes \<Rightarrow> 'a option" where
  "table_lookup docs b = (case b of [k] \<Rightarrow> if k < length docs then Some (docs ! k) else None | _ \<Rightarrow> None)"

lemma table_roundtrip: "table_index docs h = Some k \<Longrightarrow> table_lookup docs [k] = Some h"
  by (auto simp: table_index_def table_lookup_def find_Some_iff)

definition example_store_packages :: "heads_document list \<Rightarrow> store_packages" where
  "example_store_packages docs =
     \<lparr>sp_parse_uuid = (\<lambda>u. if u = [] then None else Some u), sp_new_uuid = (\<lambda>n. [97 + n]), sp_now = (\<lambda>n. []),
      sp_encrypt = (\<lambda>g x m. Some m), sp_decrypt = (\<lambda>g c. Some c), sp_sha256 = (\<lambda>b. replicate 32 0),
      sp_to_toml = (\<lambda>h. map_option (\<lambda>k. [k]) (table_index docs h)), sp_from_toml = table_lookup docs\<rparr>"

lemma example_store_packages_ok: "store_packages_ok (example_store_packages docs)"
  by (auto simp: store_packages_ok_def example_store_packages_def table_roundtrip)

definition example_heads :: heads_document where
  "example_heads = \<lparr>hd_format = 5, hd_id = [65], hd_source_path = None, hd_managed_label = Some [76], hd_mode = 0x180,
     hd_created = [], hd_current_version = 0, hd_enforcement = Allow, hd_environment_ids = None, hd_placements = [],
     hd_metadata = empty_metadata, hd_versions = []\<rparr>"

definition example_row :: "ustring option \<Rightarrow> heads_version" where
  "example_row m = \<lparr>hv_version = 1, hv_version_uuid = [97], hv_generation = 1, hv_size = 1,
     hv_digest = to_hex (replicate 32 0), hv_created = [], hv_note = None, hv_mutation_id = m\<rparr>"

definition example_docs :: "ustring option \<Rightarrow> heads_document list" where
  "example_docs m = [example_heads, with_row example_heads (example_row m)]"

definition example_store :: "ustring option \<Rightarrow> store_world" where
  "example_store m = \<lparr>sw_packages = example_store_packages (example_docs m), sw_heads = [([65], private_file [0])],
     sw_objects = (\<lambda>_. None), sw_stamps = (\<lambda>_. 0), sw_tick = 1, sw_entropy = 0, sw_generation = Inr 1,
     sw_identity = (\<lambda>_. Inr ()), sw_other_devices = Inr False, sw_auth = undefined, sw_integrity = None, sw_faults = []\<rparr>"

section \<open>Retried mutations\<close>

text \<open>Any number of attempts at one identified append, each with its result.\<close>

inductive append_attempts ::
    "ustring \<Rightarrow> bytes \<Rightarrow> ustring \<Rightarrow> store_world \<Rightarrow> (store_error + nat) list \<Rightarrow> store_world \<Rightarrow> bool"
  for i p m w where
  no_attempt: "append_attempts i p m w [] w"
| attempt: "append_attempts i p m w rs w1 \<Longrightarrow> append_version_identified i p m w1 = (w2, r) \<Longrightarrow>
    append_attempts i p m w (rs @ [r]) w2"

lemma identified_cases:
  assumes "append_version_identified i p m w = (w', r)"
  shows "w' = w \<and> \<not> is_ok r \<or> append_version_internal i p (Some m) w = (w', r)"
  using assms by (auto simp: append_version_identified_def s_bind_cases)

lemma attempts_packages:
  assumes "append_attempts i p m w rs w'" and "store_packages_ok (sw_packages w)"
  shows "sw_packages w' = sw_packages w"
  using assms(1)
proof induction
  case (attempt rs w1 w2 r)
  then show ?case
    using identified_cases [OF attempt.hyps (2)] row_step_packages [OF row_step_append [of w1 i p "Some m"]] assms (2) by auto
qed simp

lemma mutation_version_append:
  "mutation_version m h = None \<Longrightarrow> hd_versions h' = hd_versions h @ [v] \<Longrightarrow> hv_mutation_id v = m \<Longrightarrow> m \<noteq> None \<Longrightarrow>
   mutation_version m h' = Some v"
  by (cases m) (auto simp: mutation_version_def find_append)

text \<open>
  (C18) A mutation with an identity happens once: however often an identified append is retried, after whatever
  failures, the secret gains at most one version, that version carries the identity and is stored with the content,
  and every attempt that succeeds returns its number.
\<close>

theorem identified_append_once:
  assumes runs: "append_attempts i p m w rs w'" and pk: "store_packages_ok (sw_packages w)"
    and h: "read_heads w i = Inr h" and new: "mutation_version (Some m) h = None"
  shows "\<exists>h'. read_heads w' i = Inr h' \<and>
    (hd_versions h' = hd_versions h \<and> list_all (\<lambda>r. \<not> is_ok r) rs \<or>
     (\<exists>v. hd_versions h' = hd_versions h @ [v] \<and> hv_mutation_id v = Some m \<and> row_holds w' i p v \<and>
        list_all (\<lambda>r. \<not> is_ok r \<or> r = Inr (hv_version v)) rs))"
  using runs
proof induction
  case no_attempt
  then show ?case using h by auto
next
  case (attempt rs w1 w2 r)
  have pk1: "store_packages_ok (sw_packages w1)" using attempts_packages [OF attempt.hyps (1) pk] pk by simp
  then have step: "row_step w1 w2"
    using identified_cases [OF attempt.hyps (2)] row_step_append [of w1 i p "Some m"] by auto
  have ext: "extends w1 w2" using step by (auto simp: row_step_def same_heads_def saved_heads_def)
  from identified_cases [OF attempt.hyps (2)] show ?case
  proof
    assume "w2 = w1 \<and> \<not> is_ok r"
    with attempt.IH show ?case by auto
  next
    assume app: "append_version_internal i p (Some m) w1 = (w2, r)"
    from attempt.IH obtain h1 where h1: "read_heads w1 i = Inr h1" and cases:
      "hd_versions h1 = hd_versions h \<and> list_all (\<lambda>r. \<not> is_ok r) rs \<or>
       (\<exists>v. hd_versions h1 = hd_versions h @ [v] \<and> hv_mutation_id v = Some m \<and> row_holds w1 i p v \<and>
         list_all (\<lambda>r. \<not> is_ok r \<or> r = Inr (hv_version v)) rs)" by blast
    from cases show ?case
    proof
      assume none: "hd_versions h1 = hd_versions h \<and> list_all (\<lambda>r. \<not> is_ok r) rs"
      then have "mutation_version (Some m) h1 = None" using new by (simp add: mutation_version_def)
      from internal_absent [OF pk1 h1 this app] none h1 show ?case
        by (auto simp: with_row_def list_all_iff read_heads_same)
    next
      assume "\<exists>v. hd_versions h1 = hd_versions h @ [v] \<and> hv_mutation_id v = Some m \<and> row_holds w1 i p v \<and>
         list_all (\<lambda>r. \<not> is_ok r \<or> r = Inr (hv_version v)) rs"
      then obtain v where v: "hd_versions h1 = hd_versions h @ [v]" "hv_mutation_id v = Some m" "row_holds w1 i p v"
        "list_all (\<lambda>r. \<not> is_ok r \<or> r = Inr (hv_version v)) rs" by blast
      have "mutation_version (Some m) h1 = Some v" using mutation_version_append [OF new v (1,2)] by simp
      from internal_present [OF pk1 h1 this app] v row_holds_extends [OF v (3) ext] show ?case
        by (auto simp: is_ok_iff)
    qed
  qed
qed

lemma example_trim: "trim [76] = [76]"
  by (simp add: trim_def trim_start_def trim_end_def is_whitespace_def)

lemma example_read_heads: "read_heads (example_store m) [65] = Inr example_heads"
  by (simp add: read_heads_def example_store_def example_store_packages_def hm_get_def private_file_def table_lookup_def
    example_docs_def check_heads_def example_heads_def heads_origin_ok_def MIN_SUPPORTED_STORE_FORMAT_VERSION_def
    STORE_FORMAT_VERSION_def validate_managed_placements_def example_trim)


definition example_payload :: bytes where
  "example_payload = PAYLOAD_MAGIC @ [0, 1, 65, 0, 1, 97, 7]"

lemma example_encode: "encode_bound_payload [65] [97] [7] = Inr example_payload"
  by (simp add: encode_bound_payload_def example_payload_def utf8_def utf8_char_def u16_try_from_def be16_def)

lemma example_object:
  "m \<noteq> Some [] \<Longrightarrow>
   write_version_object [65] 1 [7] None m (example_store m) =
     ((example_store m)\<lparr>sw_entropy := 3,
        sw_objects := (\<lambda>_. None)(to_hex (replicate 32 0) \<mapsto> private_file example_payload)\<rparr>,
      Inr (example_row m))"
  by (cases m) (auto simp: write_version_object_def write_version_object_with_identity_def s_bind_def draw_def s_lift_def s_return_def
    example_store_def example_store_packages_def example_encode validate_mutation_id_def publish_immutable_def Let_def
    read_untrusted_file_def write_effect_def next_effect_def hex_sha256_def example_row_def)

definition example_after :: "ustring option \<Rightarrow> store_world" where
  "example_after m = touch [HeadPath [65], HeadsDirectory] ((example_store m)\<lparr>sw_entropy := 3,
     sw_objects := (\<lambda>_. None)(to_hex (replicate 32 0) \<mapsto> private_file example_payload),
     sw_heads := [([65], private_file [1])]\<rparr>)"

lemma example_append:
  assumes "m \<noteq> Some []"
  shows "append_version_internal [65] [7] m (example_store m) = (example_after m, Inr 1)"
proof -
  have int: "sw_integrity (example_store m) = None" by (simp add: example_store_def)
  have mut: "mutation_version m example_heads = None" by (cases m) (simp_all add: mutation_version_def example_heads_def)
  have ord: "next_ordinal example_heads = Inr 1" by (simp add: next_ordinal_def example_heads_def Let_def)
  have doc: "example_heads\<lparr>hd_versions := hd_versions example_heads @ [example_row m], hd_current_version := 1\<rparr> =
      with_row example_heads (example_row m)" by (simp add: with_row_def example_row_def)
  have neq: "with_row example_heads (example_row m) \<noteq> example_heads" by (simp add: with_row_def example_heads_def)
  then have idx: "table_index (example_docs m) (with_row example_heads (example_row m)) = Some 1"
    by (simp add: table_index_def example_docs_def upt_rec)
  have "append_new [65] example_heads [7] m (example_store m) = (example_after m, Inr 1)"
    using idx
    by (simp add: append_new_def s_bind_def s_lift_def ord example_object [OF assms] doc save_heads_def write_heads_def
      example_after_def write_effect_def next_effect_def seal_security_state_def s_return_def touch_def del: One_nat_def)
       (simp add: example_store_def example_store_packages_def hm_insert_def write_effect_def next_effect_def touch_def
          Let_def seal_security_state_def s_return_def fun_eq_iff)
  then show ?thesis
    by (simp add: append_version_internal_def s_bind_def s_read_def verify_security_state_def int example_read_heads mut)
qed

lemma example_fits: "object_fits (example_store_packages docs) [65] [7]"
  by (auto simp: object_fits_def example_store_packages_def encode_bound_payload_def and_then_eq_Inr u16_try_from_def
    utf8_def utf8_char_def be16_def PAYLOAD_MAGIC_def MAX_OBJECT_BYTES_def Let_def split: if_splits)

lemma example_after_heads: "read_heads (example_after m) [65] = Inr (with_row example_heads (example_row m))"
  by (simp add: read_heads_def example_after_def touch_def example_store_def example_store_packages_def hm_get_def
    private_file_def table_lookup_def example_docs_def check_heads_def with_row_def example_row_def example_heads_def
    heads_origin_ok_def MIN_SUPPORTED_STORE_FORMAT_VERSION_def version_row_ok_def
    STORE_FORMAT_VERSION_def validate_managed_placements_def example_trim to_hex_def)

lemma example_after_get: "get_version (example_after m) [65] 1 = Inr [7]"
proof -
  have "sw_integrity (example_after m) = None" by (simp add: example_after_def touch_def example_store_def)
  then have "read_verified_heads (example_after m) [65] = Inr (with_row example_heads (example_row m))"
    by (simp add: read_verified_heads_def example_after_heads)
  moreover have "find_version (with_row example_heads (example_row m)) 1 = Inr (example_row m)"
    by (simp add: find_version_def with_row_def example_heads_def example_row_def)
  moreover have "read_object_verified (example_after m) (hv_digest (example_row m)) = Inr example_payload"
    by (simp add: read_object_verified_def example_after_def touch_def example_row_def read_untrusted_file_def private_file_def
      example_payload_def PAYLOAD_MAGIC_def MAX_OBJECT_BYTES_def hex_sha256_def example_store_def example_store_packages_def)
  moreover have "decrypt_object (example_after m) [65] (hv_version_uuid (example_row m)) (hv_generation (example_row m)) example_payload = Inr [7]"
    by (simp add: decrypt_object_def example_after_def touch_def example_row_def example_store_def example_store_packages_def
      example_payload_def decode_bound_payload_def decode_field_def slice_get_def from_be16_def utf8_def utf8_char_def
      PAYLOAD_MAGIC_def str_bytes_def numeral_nat)
  ultimately show ?thesis by (simp add: get_version_def decrypt_version_from_heads_def del: One_nat_def)
qed

lemma example_after_inv: "store_inv K (example_after m)"
  using example_store_packages_ok
  by (auto simp: store_inv_def cache_sound_def cached_def example_after_def touch_def example_store_def)

text \<open>A second secret is removed and a version is appended to the first.\<close>

theorem versions_immutable_witness:
  "let w = (example_after None)\<lparr>sw_heads := hm_insert [66] (private_file []) (sw_heads (example_after None))\<rparr>;
       w1 = fst (remove_replicated_heads [66] w);
       w2 = fst (append_version_internal [65] [8, 9] None w1)
   in get_version w [65] 1 = Inr [7] \<and> hm_get (sw_heads w1) [66] = None \<and> decrypt_version w2 [65] 1 = Inr [7]"
proof -
  let ?w = "(example_after None)\<lparr>sw_heads := hm_insert [66] (private_file []) (sw_heads (example_after None))\<rparr>"
  let ?w1 = "fst (remove_replicated_heads [66] ?w)"
  let ?w2 = "fst (append_version_internal [65] [8, 9] None ?w1)"
  have int: "sw_integrity (example_after None) = None" "sw_faults (example_after None) = []"
    by (simp_all add: example_after_def touch_def example_store_def)
  have sp: "spares {[65]} (example_after None) ?w" by (simp add: spares_def cached_def)
  have "decrypt_version ?w [65] 1 = Inr [7]"
    using spares_stable [OF sp] get_version_stored [of "{[65]}", OF _ _ example_after_get] example_after_inv [of "{[65]}"]
    by (simp add: store_inv_def)
  then have get: "get_version ?w [65] 1 = Inr [7]"
    using int by (simp add: get_version_def decrypt_version_def read_verified_heads_def)
  have inv: "store_inv {[65]} ?w"
    using example_after_inv [of "{[65]}" None] spares_cache_sound [OF sp] by (simp add: store_inv_def)
  have "store_step {[65]} ?w ?w1" by (rule store_step.step_remove [OF prod.collapse [symmetric]]) simp
  moreover have "store_step {[65]} ?w1 ?w2" by (rule store_step.step_append [OF prod.collapse [symmetric]])
  ultimately have "(store_step {[65]})\<^sup>*\<^sup>* ?w ?w2" by (meson r_into_rtranclp rtranclp.rtrancl_into_rtrancl)
  from versions_immutable [OF inv this _ get] have "decrypt_version ?w2 [65] 1 = Inr [7]" by simp
  moreover have "hm_get (sw_heads ?w1) [66] = None"
    using int by (simp add: remove_replicated_heads_def s_bind_def verify_security_state_def remove_head_file_def
        write_effect_def next_effect_def touch_def seal_security_state_def Let_def)
  ultimately show ?thesis using get by (simp add: Let_def)
qed


theorem identified_append_once_witness:
  "\<exists>h'. read_heads (example_after (Some [109])) [65] = Inr h' \<and>
     (\<exists>v. hd_versions h' = [v] \<and> hv_mutation_id v = Some [109] \<and> row_holds (example_after (Some [109])) [65] [7] v)"
proof -
  have "append_version_identified [65] [7] [109] (example_store (Some [109])) = (example_after (Some [109]), Inr 1)"
    by (simp add: append_version_identified_def s_bind_def s_lift_def validate_mutation_id_def example_append del: One_nat_def)
       (simp add: example_store_def example_store_packages_def)
  from append_attempts.attempt [OF append_attempts.no_attempt this]
  have runs: "append_attempts [65] [7] [109] (example_store (Some [109])) [Inr 1] (example_after (Some [109]))" by simp
  have pk: "store_packages_ok (sw_packages (example_store (Some [109])))"
    using example_store_packages_ok by (simp add: example_store_def)
  have new: "mutation_version (Some [109]) example_heads = None" by (simp add: mutation_version_def example_heads_def)
  from identified_append_once [OF runs pk example_read_heads new] show ?thesis
    by (auto simp: example_heads_def is_ok_iff)
qed

end
