(* ===== verification/Store_Authenticity.thy ===== *)
theory Store_Authenticity
  imports Store_Properties
begin

text \<open>
  The authenticated snapshot of the head documents: a store whose documents are not the sealed ones stops every
  mutation and does not open again. That is what protects against tampering; it also follows every interruption
  between the write of a document and its sealing, and every write of a document that does not read back.
\<close>

section \<open>A store that is not as sealed\<close>

text \<open>The keychain checkpoint and the sidecar hold these documents.\<close>

definition sealed_as :: "store_world \<Rightarrow> store_integrity \<Rightarrow> heads_document list \<Rightarrow> bool" where
  "sealed_as w si docs \<longleftrightarrow> sw_integrity w = Some si \<and> codec_ok (sw_auth w) \<and>
     (\<exists>g. holds_state (sw_auth w) (si_sidecar si) STORE_DOMAIN g docs)"

definition refused :: "store_world \<Rightarrow> store_world \<times> (store_error + 'a) \<Rightarrow> bool" where
  "refused w out \<longleftrightarrow> \<not> is_ok (snd out) \<and> sw_heads (fst out) = sw_heads w \<and> sw_objects (fst out) = sw_objects w"

lemma refused_bind: "refused w (m w) \<Longrightarrow> refused w (s_bind m f w)"
  by (cases "m w"; cases "snd (m w)") (auto simp: refused_def s_bind_def is_ok_iff)

lemma refused_after:
  assumes "\<And>w1 x. m w = (w1, Inr x) \<Longrightarrow> refused w (f x w1)"
    and "\<And>w1 e. m w = (w1, Inl e) \<Longrightarrow> sw_heads w1 = sw_heads w \<and> sw_objects w1 = sw_objects w"
  shows "refused w (s_bind m f w)"
proof (cases "m w")
  case (Pair w1 r)
  with assms show ?thesis by (cases r) (auto simp: s_bind_def refused_def is_ok_iff)
qed

lemma refused_lift: "(\<And>x. r = Inr x \<Longrightarrow> refused w (f x w)) \<Longrightarrow> refused w (s_bind (s_lift r) f w)"
  by (rule refused_after) auto

text \<open>Every mutation is refused and leaves documents and objects alone; so does opening the store again.\<close>

definition store_stopped :: "string \<Rightarrow> store_world \<Rightarrow> bool" where
  "store_stopped sidecar w \<longleftrightarrow>
     (\<forall>i p. refused w (append_version i p w)) \<and> (\<forall>i p m. refused w (append_version_identified i p m w)) \<and>
     (\<forall>meta p. refused w (store_put meta p w)) \<and> (\<forall>i meta p m. refused w (put_identified i meta p m w)) \<and>
     (\<forall>i n. refused w (set_head i n w)) \<and> (\<forall>i u. refused w (set_head_to_uuid i u w)) \<and>
     (\<forall>i md e es. refused w (update_settings i md e es w)) \<and> (\<forall>i ps. refused w (update_placements i ps w)) \<and>
     (\<forall>i l mode md e es ps. refused w (apply_replicated_settings i l mode md e es ps w)) \<and>
     (\<forall>i create u g n d m. refused w (register_replicated_version i create u g n d m w)) \<and>
     (\<forall>i. refused w (store_delete i w)) \<and> (\<forall>i. refused w (remove_replicated_heads i w)) \<and>
     (\<forall>insecure legacy. refused w (authenticate_store insecure sidecar legacy (w\<lparr>sw_integrity := None\<rparr>)))"

lemma sealed_as_load:
  assumes "sealed_as w si docs" and "snd (state_load (sw_auth w) (si_sidecar si) STORE_DOMAIN) = Inr loaded"
  shows "ls_value loaded = Some docs"
  using assms holds_state_load by (fastforce simp: sealed_as_def split: if_splits)

lemma snapshot_same:
  "sw_heads w' = sw_heads w \<Longrightarrow> sw_packages w' = sw_packages w \<Longrightarrow> security_snapshot w' = security_snapshot w"
proof -
  assume "sw_heads w' = sw_heads w" "sw_packages w' = sw_packages w"
  then have "read_heads w' = read_heads w" "heads_ids w' = heads_ids w"
    by (simp_all add: read_heads_def heads_ids_def fun_eq_iff cong: option.case_cong)
  then show ?thesis by (simp add: security_snapshot_def)
qed

lemma snapshot_auth [simp]:
  "security_snapshot (w\<lparr>sw_auth := a\<rparr>) = security_snapshot w" "security_snapshot (w\<lparr>sw_integrity := x\<rparr>) = security_snapshot w"
  "security_snapshot (w\<lparr>sw_entropy := n\<rparr>) = security_snapshot w"
  by (rule snapshot_same, simp_all)+

lemma unsealed_verify:
  assumes sealed: "sealed_as w si docs" and diff: "security_snapshot w \<noteq> Inr docs"
  shows "refused w (verify_security_state w)"
proof -
  obtain a r where load: "state_load (sw_auth w) (si_sidecar si) STORE_DOMAIN = (a, r)" by fastforce
  have int: "sw_integrity w = Some si" using sealed by (simp add: sealed_as_def)
  have "r = Inr loaded \<Longrightarrow> ls_value loaded = Some docs" for loaded using sealed_as_load [OF sealed] load by simp
  then have "\<not> is_ok (snd (verify_security_state w))"
    using int load diff by (auto simp: verify_security_state_def Let_def is_ok_iff split: sum.splits)
  then show ?thesis by (simp add: refused_def verify_fields)
qed

lemma unsealed_open:
  assumes sealed: "sealed_as w si docs" and diff: "security_snapshot w \<noteq> Inr docs"
  shows "refused w (authenticate_store insecure (si_sidecar si) legacy (w\<lparr>sw_integrity := None\<rparr>))"
proof -
  obtain a r where load: "state_load (sw_auth w) (si_sidecar si) STORE_DOMAIN = (a, r)" by fastforce
  have "aw_files (sw_auth w) (si_sidecar si) \<noteq> None"
    using sealed by (auto simp: sealed_as_def holds_state_def commits_def)
  moreover have "r = Inr loaded \<Longrightarrow> ls_value loaded = Some docs" for loaded using sealed_as_load [OF sealed] load by simp
  ultimately show ?thesis
    using load diff
    by (cases r; cases "security_snapshot w")
      (auto simp: authenticate_store_def trusted_store_generation_def Let_def s_bind_def refused_def is_ok_iff)
qed

lemma unsealed_stopped:
  assumes sealed: "sealed_as w si docs" and diff: "security_snapshot w \<noteq> Inr docs"
  shows "store_stopped (si_sidecar si) w"
proof -
  note v = unsealed_verify [OF assms]
  note now = refused_bind [of w verify_security_state, OF v]
  have drawn: "refused w (put_internal i meta p m (w\<lparr>sw_entropy := n\<rparr>))" for i meta p m n
  proof -
    have "sealed_as (w\<lparr>sw_entropy := n\<rparr>) si docs" "security_snapshot (w\<lparr>sw_entropy := n\<rparr>) \<noteq> Inr docs"
      using sealed diff by (simp_all add: sealed_as_def)
    from refused_bind [of _ verify_security_state, OF unsealed_verify [OF this]] show ?thesis
      by (auto simp: put_internal_def refused_def)
  qed
  then have put: "refused w (store_put meta p w)" for meta p
    by (simp add: store_put_def s_bind_def draw_def)
  show ?thesis
    unfolding store_stopped_def append_version_def append_version_identified_def append_version_internal_def
      put_identified_def put_internal_def set_head_def set_head_to_uuid_def update_settings_def update_placements_def
      apply_replicated_settings_def register_replicated_version_def store_delete_def remove_replicated_heads_def
    by (intro conjI allI put unsealed_open [OF assms] refused_lift now)
qed

text \<open>
  (C19) Tampering stops the store: when the head documents on disk are not the documents the keychain checkpoint
  seals, every mutation of every secret is refused without touching a document or an object, and the store does
  not open again.
\<close>

theorem tampered_store_stops:
  assumes "sealed_as w si docs" and "security_snapshot w \<noteq> Inr docs"
  shows "store_stopped (si_sidecar si) w"
  using assms by (rule unsealed_stopped)

section \<open>Interrupted mutations\<close>

lemma write_heads_integrity: "write_heads i h w = (w1, r) \<Longrightarrow> sw_integrity w1 = sw_integrity w \<and> sw_auth w1 = sw_auth w"
  by (auto simp: write_heads_def write_effect_def touch_def Let_def split: option.splits effect.splits)

lemma hm_keys_update: "k \<in> set (map fst m) \<Longrightarrow> map fst (hm_insert k v m) = map fst m"
  by (simp add: hm_insert_def update_keys)

lemma saved_ids:
  assumes "saved_heads w w1 i h'" and "read_heads w i = Inr h"
  shows "heads_ids w1 = heads_ids w"
proof -
  have ids: "heads_ids x = sort (List.map_filter (sp_parse_uuid (sw_packages x)) (map fst (sw_heads x)))" for x
    by (simp add: heads_ids_def List.map_filter_def comp_def case_prod_beta filter_map)
  obtain f where "hm_get (sw_heads w) i = Some f" using assms (2) by (auto simp: read_heads_def split: option.splits)
  then have "(i, f) \<in> set (sw_heads w)" by (rule hm_get_SomeD)
  then have "i \<in> set (map fst (sw_heads w))" by force
  with assms (1) have "map fst (sw_heads w1) = map fst (sw_heads w)" "sw_packages w1 = sw_packages w"
    using hm_keys_update by (fastforce simp: saved_heads_def extends_def)+
  then show ?thesis by (simp only: ids)
qed

lemma saved_snapshot_differs:
  assumes saved: "saved_heads w w1 i h'" and pk: "store_packages_ok (sw_packages w)" and h: "read_heads w i = Inr h"
    and canon: "sp_parse_uuid (sw_packages w) i = Some i" and ok: "check_heads i h' = Inr h'" and "h' \<noteq> h"
    and snap: "security_snapshot w = Inr docs"
  shows "security_snapshot w1 \<noteq> Inr docs"
proof
  assume snap1: "security_snapshot w1 = Inr docs"
  have "list_all2 (\<lambda>j d. read_heads w j = Inr d) (heads_ids w) docs"
    "list_all2 (\<lambda>j d. read_heads w1 j = Inr d) (heads_ids w) docs"
    using snap snap1 saved_ids [OF saved h] by (simp_all add: security_snapshot_def try_map_Inr)
  moreover have "i \<in> set (heads_ids w)" by (rule heads_ids_mem [OF h canon])
  ultimately have "read_heads w1 i = read_heads w i"
    unfolding list_all2_conv_all_nth by (auto simp: in_set_conv_nth)
  with saved_read_heads [OF saved pk ok, of i] h \<open>h' \<noteq> h\<close> show False by simp
qed

text \<open>An interrupted mutation stops the store. The code writes the changed head document first and seals the
  snapshot afterwards; when the process ends (or the sealing fails) in between, the document on disk is a valid
  one, yet from then on every mutation of every secret is refused and the store does not open again.
\<close>

theorem interrupted_mutation_stops_store:
  assumes pk: "store_packages_ok (sw_packages w)" and sealed: "sealed_as w si docs" and snap: "security_snapshot w = Inr docs"
    and h: "read_heads w i = Inr h" and canon: "sp_parse_uuid (sw_packages w) i = Some i"
    and ok: "check_heads i h' = Inr h'" and "h' \<noteq> h" and wr: "write_heads i h' w = (w1, Inr ())"
  shows "read_heads w1 i = Inr h' \<and> store_stopped (si_sidecar si) w1"
proof -
  have saved: "saved_heads w w1 i h'" using write_heads_cases [OF wr] by auto
  have "sealed_as w1 si docs" using sealed write_heads_integrity [OF wr] by (simp add: sealed_as_def)
  from unsealed_stopped [OF this saved_snapshot_differs [OF saved pk h canon ok \<open>h' \<noteq> h\<close> snap]]
    saved_read_heads [OF saved pk ok, of i]
  show ?thesis by simp
qed


section \<open>A document that does not read back\<close>

lemma blank_placements_invalid:
  assumes "ProjectPlacement pr path es \<in> set ps" and "blank_or_nul e" and "e \<in> set es"
  shows "\<not> is_ok (validate_managed_placements ps)"
proof
  assume "is_ok (validate_managed_placements ps)"
  then obtain cs where "list_all2 (\<lambda>p c. canonical_placement p = Inr c) ps cs"
    by (auto simp: validate_managed_placements_def is_ok_iff and_then_eq_Inr try_map_Inr)
  from list_all2_left [OF this assms (1)] obtain c where "canonical_placement (ProjectPlacement pr path es) = Inr c" by blast
  then have "\<not> list_ex blank_or_nul (sort_dedup es)"
    by (auto simp: canonical_placement_def Let_def split: if_splits)
  with assms (2,3) show False by (auto simp: sort_dedup_def list_ex_iff)
qed

lemma dedup_key_keys: "key ` set (dedup_key key xs) = key ` set xs"
  by (induction key xs rule: dedup_key.induct) auto

lemma settings_blank:
  assumes "ProjectPlacement pr path es0 \<in> set ps"
  shows "\<exists>path'. ProjectPlacement pr path' (sort_dedup es) \<in> set (settings_placements (Some es) ps)"
proof -
  let ?q = "ProjectPlacement pr path (sort_dedup es)"
  have "?q \<in> set (map (set_placement_environments es) ps)" using assms by force
  from imageI [OF this, of placement_key]
  have "placement_key ?q \<in> placement_key ` set (settings_placements (Some es) ps)"
    unfolding settings_placements_def dedup_key_keys by (simp add: unwrap_or_def del: placement_key.simps)
  then obtain q where "q \<in> set (settings_placements (Some es) ps)" "placement_key q = placement_key ?q" by auto
  then obtain path' where "q = ProjectPlacement pr path' (sort_dedup es)" by (cases q rule: managed_placement.exhaust) auto
  with \<open>q \<in> _\<close> show ?thesis by blast
qed

lemma unreadable_saved:
  assumes saved: "saved_heads w w1 i h'" and pk: "store_packages_ok (sw_packages w)" and bad: "check_heads i h' = Inl e"
  shows "read_heads w1 i = Inl e"
proof -
  obtain t where t: "sp_to_toml (sw_packages w) h' = Some t" "sw_heads w1 = hm_insert i (private_file t) (sw_heads w)"
    "sw_packages w1 = sw_packages w"
    using saved by (auto simp: saved_heads_def extends_def)
  with store_packages_okD (1) [OF pk t (1)] bad show ?thesis by (simp add: read_heads_def private_file_def)
qed

lemma unreadable_snapshot:
  assumes "saved_heads w w1 i h'" and "read_heads w i = Inr h" and "sp_parse_uuid (sw_packages w) i = Some i"
    and "read_heads w1 i = Inl e"
  shows "security_snapshot w1 \<noteq> Inr docs"
proof
  assume "security_snapshot w1 = Inr docs"
  then have "list_all2 (\<lambda>j d. read_heads w1 j = Inr d) (heads_ids w) docs"
    using saved_ids [OF assms (1,2)] by (simp add: security_snapshot_def try_map_Inr)
  from list_all2_left [OF this heads_ids_mem [OF assms (2,3)]] assms (4) show False by auto
qed

lemma unreadable_seal:
  assumes save: "save_heads i h w = (w1, r)" and auth: "sw_integrity w \<noteq> None" and bad: "\<And>docs. security_snapshot w1 \<noteq> Inr docs"
  shows "\<not> is_ok r"
proof
  assume "is_ok r"
  then obtain w2 where wr: "write_heads i h w = (w2, Inr ())" and seal: "seal_security_state w2 = (w1, Inr ())"
    using save by (auto simp: save_heads_def s_bind_cases is_ok_iff)
  from write_heads_integrity [OF wr] auth obtain hs where "security_snapshot w2 = Inr hs"
    using seal by (auto simp: seal_security_state_def split: option.splits sum.splits)
  moreover have "security_snapshot w1 = security_snapshot w2"
    using seal_fields [of w2] seal by (intro snapshot_same) simp_all
  ultimately show False using bad by simp
qed

lemma verify_integrity: "verify_security_state w = (w', r) \<Longrightarrow> sw_integrity w \<noteq> None \<Longrightarrow> sw_integrity w' \<noteq> None"
  by (auto simp: verify_security_state_def Let_def set_verified_def set_generation_def
      split: option.splits sum.splits prod.splits if_splits)

text \<open>
  (C40) Settings with a blank environment identifier destroy the secret. \<open>update_settings\<close> copies the identifiers
  into the project placements without validating them; the document is written, but no later read accepts it: no
  version of the secret can be read again, no snapshot of the store can be taken, and in an authenticated store
  the call itself fails before its seal.
\<close>

theorem blank_environment_destroys_secret:
  assumes pk: "store_packages_ok (sw_packages w)" and md: "metadata_validate md = Inr ()"
    and canon: "sp_parse_uuid (sw_packages w) i = Some i" and run: "verify_security_state w = (w0, Inr ())"
    and h: "read_heads w i = Inr h" and placed: "ProjectPlacement pr path es0 \<in> set (hd_placements h)"
    and blank: "blank_or_nul e" "e \<in> set es"
    and upd: "update_settings i md lvl (Some es) w = (w1, r)" and written: "sw_heads w1 \<noteq> sw_heads w"
  shows "decrypt_version w1 i n = Inl (StoreCorrupt ''managed placements'') \<and> \<not> is_ok (security_snapshot w1) \<and>
    (sw_integrity w \<noteq> None \<longrightarrow> \<not> is_ok r)"
proof -
  let ?h = "h\<lparr>hd_metadata := md, hd_enforcement := lvl, hd_environment_ids := Some es,
     hd_placements := settings_placements (Some es) (hd_placements h)\<rparr>"
  have same: "same_heads w w0" using keeps_headsD [OF keeps_heads_verify run] .
  then have h0: "read_heads w0 i = Inr h" and pk0: "sw_packages w0 = sw_packages w"
    using h read_heads_same [OF same] by (simp, simp add: same_heads_def extends_def)
  have save: "save_heads i ?h w0 = (w1, r)"
    using upd run md h0 by (simp add: update_settings_def map_err_def s_bind_def)
  have "\<not> same_heads w0 w1" using written same by (auto simp: same_heads_def)
  then have saved: "saved_heads w0 w1 i ?h" using save_heads_cases [OF save] by blast
  obtain path' where "ProjectPlacement pr path' (sort_dedup es) \<in> set (hd_placements ?h)" using settings_blank [OF placed] by auto
  moreover have "e \<in> set (sort_dedup es)" using blank (2) by (simp add: sort_dedup_def)
  ultimately have "\<not> is_ok (validate_managed_placements (hd_placements ?h))" using blank_placements_invalid blank (1) by blast
  then have "check_heads i ?h = Inl (StoreCorrupt ''managed placements'')"
    using read_heads_check [OF h] by (auto simp: check_heads_Inr) (simp add: check_heads_def heads_origin_ok_def)
  from unreadable_saved [OF saved _ this] pk pk0 have rd: "read_heads w1 i = Inl (StoreCorrupt ''managed placements'')" by simp
  have snap: "security_snapshot w1 \<noteq> Inr docs" for docs
    using unreadable_snapshot [OF saved h0 _ rd] canon pk0 by simp
  have "\<not> is_ok r" if "sw_integrity w \<noteq> None"
    using unreadable_seal [OF save verify_integrity [OF run that] snap] .
  with rd snap show ?thesis by (auto simp: decrypt_version_def is_ok_iff)
qed


section \<open>A sealed sample store\<close>

definition sealed_auth :: "'doc \<Rightarrow> 'doc auth_world" where
  "sealed_auth docs =
     (let w = \<lparr>aw_packages = example_packages, aw_key = [7], aw_ser = (\<lambda>v. if v = docs then Some [1] else None),
        aw_de = (\<lambda>b. if b = [1] then Some docs else None), aw_files = (\<lambda>_. None), aw_checkpoints = (\<lambda>_. None), aw_faults = []\<rparr>
      in w\<lparr>aw_files := (\<lambda>_. Some (sealed_file w STORE_DOMAIN 1 [1])),
           aw_checkpoints := (\<lambda>_. Some \<lparr>ck_generation = 1, ck_mac = mac example_packages [7] STORE_DOMAIN 1 [1]\<rparr>)\<rparr>)"

lemma sealed_auth_holds: "codec_ok (sealed_auth docs)" "holds_state (sealed_auth docs) path STORE_DOMAIN 1 docs"
proof -
  have "packages_ok example_packages"
    using example_codec_ok [of "[]"] by (simp add: codec_ok_def example_world_def)
  then show "codec_ok (sealed_auth docs)" by (auto simp: sealed_auth_def codec_ok_def Let_def split: if_splits)
  show "holds_state (sealed_auth docs) path STORE_DOMAIN 1 docs"
    by (simp add: sealed_auth_def holds_state_def commits_def Let_def sealed_file_def)
qed

definition sample_integrity :: store_integrity where
  "sample_integrity = \<lparr>si_sidecar = ''/s'', si_generation = 1,
     si_verified = \<lparr>vs_sidecar_stamp = 0, vs_heads_directory_stamp = 0, vs_heads = []\<rparr>\<rparr>"

definition sealed_store :: store_world where
  "sealed_store = (example_store None)\<lparr>sw_auth := sealed_auth [example_heads], sw_integrity := Some sample_integrity\<rparr>"

lemma sealed_store_sealed: "sealed_as sealed_store sample_integrity [example_heads]"
  using sealed_auth_holds [of "[example_heads]"] by (auto simp: sealed_as_def sealed_store_def)

lemma sealed_store_heads: "read_heads sealed_store [65] = Inr example_heads"
proof -
  have "read_heads sealed_store = read_heads (example_store None)"
    by (simp add: sealed_store_def read_heads_def fun_eq_iff cong: option.case_cong)
  then show ?thesis by (simp add: example_read_heads)
qed

lemma sealed_store_snapshot: "security_snapshot sealed_store = Inr [example_heads]"
proof -
  have "heads_ids sealed_store = [[65]]"
    by (simp add: heads_ids_def sealed_store_def example_store_def example_store_packages_def List.map_filter_def)
  then show ?thesis by (simp add: security_snapshot_def sealed_store_heads)
qed

definition torn_store :: store_world where
  "torn_store = fst (write_heads [65] (with_row example_heads (example_row None)) sealed_store)"

lemma torn_write: "write_heads [65] (with_row example_heads (example_row None)) sealed_store = (torn_store, Inr ())"
proof -
  have "with_row example_heads (example_row None) \<noteq> example_heads" by (simp add: with_row_def example_heads_def)
  then have "sp_to_toml (sw_packages sealed_store) (with_row example_heads (example_row None)) = Some [1]"
    by (simp add: sealed_store_def example_store_def example_store_packages_def table_index_def example_docs_def upt_rec)
  then have "snd (write_heads [65] (with_row example_heads (example_row None)) sealed_store) = Inr ()"
    by (simp add: write_heads_def write_effect_def next_effect_def Let_def sealed_store_def example_store_def)
  then show ?thesis by (simp add: torn_store_def prod_eq_iff)
qed

lemma sealed_store_canon: "sp_parse_uuid (sw_packages sealed_store) [65] = Some [65]"
  by (simp add: sealed_store_def example_store_def example_store_packages_def)

lemma sealed_store_ok: "store_packages_ok (sw_packages sealed_store)"
  using example_store_packages_ok by (simp add: sealed_store_def example_store_def)

lemma torn_document: "check_heads [65] (with_row example_heads (example_row None)) = Inr (with_row example_heads (example_row None))"
  using read_heads_check [OF example_after_heads] .

theorem interrupted_mutation_stops_store_witness:
  "read_heads torn_store [65] = Inr (with_row example_heads (example_row None)) \<and> store_stopped ''/s'' torn_store"
proof -
  have "with_row example_heads (example_row None) \<noteq> example_heads" by (simp add: with_row_def example_heads_def)
  from interrupted_mutation_stops_store [OF sealed_store_ok sealed_store_sealed sealed_store_snapshot sealed_store_heads
      sealed_store_canon torn_document this torn_write]
  show ?thesis by (simp add: sample_integrity_def)
qed

theorem tampered_store_stops_witness:
  "store_stopped ''/s'' (sealed_store\<lparr>sw_heads := []\<rparr>)"
proof -
  have "sealed_as (sealed_store\<lparr>sw_heads := []\<rparr>) sample_integrity [example_heads]"
    using sealed_store_sealed by (simp add: sealed_as_def)
  moreover have "security_snapshot (sealed_store\<lparr>sw_heads := []\<rparr>) \<noteq> Inr [example_heads]"
    by (simp add: security_snapshot_def heads_ids_def List.map_filter_def)
  ultimately have "store_stopped (si_sidecar sample_integrity) (sealed_store\<lparr>sw_heads := []\<rparr>)" by (rule tampered_store_stops)
  then show ?thesis by (simp add: sample_integrity_def)
qed

definition placed_heads :: "ustring list option \<Rightarrow> ustring list \<Rightarrow> heads_document" where
  "placed_heads es placed = example_heads\<lparr>hd_environment_ids := es, hd_placements := [ProjectPlacement [112] ''f'' placed]\<rparr>"

definition placed_store :: store_world where
  "placed_store = (example_store None)\<lparr>sw_packages := example_store_packages [placed_heads None [], placed_heads (Some [[]]) [[]]]\<rparr>"

lemma sample_components: "components ''f'' = [Normal ''f'']"
  by code_simp

lemma placed_store_heads: "read_heads placed_store [65] = Inr (placed_heads None [])"
proof -
  have "trim [112] = [112]" by (simp add: trim_def trim_start_def trim_end_def is_whitespace_def)
  then show ?thesis
    by (simp add: read_heads_def placed_store_def example_store_def example_store_packages_def hm_get_def private_file_def
      table_lookup_def check_heads_def placed_heads_def example_heads_def heads_origin_ok_def
      MIN_SUPPORTED_STORE_FORMAT_VERSION_def STORE_FORMAT_VERSION_def validate_managed_placements_def example_trim
      canonical_placement_def sample_components is_normal_def has_root_def blank_or_nul_def sort_dedup_def Let_def)
qed

theorem blank_environment_destroys_secret_witness:
  "decrypt_version (fst (update_settings [65] empty_metadata Allow (Some [[]]) placed_store)) [65] 1 =
     Inl (StoreCorrupt ''managed placements'')"
proof -
  have md: "metadata_validate empty_metadata = Inr ()" by (simp add: metadata_validate_def empty_metadata_def)
  have canon: "sp_parse_uuid (sw_packages placed_store) [65] = Some [65]" and pk: "store_packages_ok (sw_packages placed_store)"
    using example_store_packages_ok by (simp_all add: placed_store_def) (simp add: example_store_packages_def)
  have run: "verify_security_state placed_store = (placed_store, Inr ())"
    by (simp add: verify_security_state_def placed_store_def example_store_def)
  have placed: "ProjectPlacement [112] ''f'' [] \<in> set (hd_placements (placed_heads None []))" by (simp add: placed_heads_def)
  have blank: "blank_or_nul []" by (simp add: blank_or_nul_def trim_def trim_start_def trim_end_def)
  have doc: "(placed_heads None [])\<lparr>hd_metadata := empty_metadata, hd_enforcement := Allow, hd_environment_ids := Some [[]],
      hd_placements := settings_placements (Some [[]]) (hd_placements (placed_heads None []))\<rparr> = placed_heads (Some [[]]) [[]]"
    by (simp add: placed_heads_def example_heads_def settings_placements_def sort_dedup_def unwrap_or_def)
  have idx: "table_index [placed_heads None [], placed_heads (Some [[]]) [[]]] (placed_heads (Some [[]]) [[]]) = Some 1"
    by (simp add: table_index_def upt_rec placed_heads_def example_heads_def)
  have "sw_heads (fst (update_settings [65] empty_metadata Allow (Some [[]]) placed_store)) = [([65], private_file [1])]"
    by (simp add: update_settings_def map_err_def md s_bind_def run placed_store_heads doc save_heads_def)
       (simp add: placed_store_def example_store_def write_heads_def example_store_packages_def idx write_effect_def next_effect_def
        touch_def seal_security_state_def Let_def hm_insert_def)
  then have written: "sw_heads (fst (update_settings [65] empty_metadata Allow (Some [[]]) placed_store)) \<noteq> sw_heads placed_store"
    by (simp add: placed_store_def example_store_def private_file_def)
  from blank_environment_destroys_secret [OF pk md canon run placed_store_heads placed blank _ prod.collapse [symmetric] written]
  show ?thesis by simp
qed

end
