(* ===== verification/Surface_Resolver.thy ===== *)
theory Surface_Resolver
  imports Catalog_Resolve Surface_Formats Store_Properties "HOL-Library.Option_ord"
begin

text \<open>
  From the catalog and the store to the bytes of a surface (\<open>floria-surface/src/codec.rs\<close>, \<open>render.rs\<close>, \<open>source.rs\<close>,
  \<open>registry.rs\<close>, \<open>mutation.rs\<close>, \<open>resolver.rs\<close>, with the content sources of \<open>floria-core/src/source.rs\<close> and
  \<open>floria-store/src/source.rs\<close>): decoding of resources, the renderers, access plans, and the resolver, which
  pins every version before it reads the first. Other clients change the store between any two of its calls, so
  the resolver sees a store for every moment; the runs of commands are a parameter.
\<close>

section \<open>Errors\<close>

text \<open>\<open>SurfaceError\<close> with the errors of the layers below it; a panic is a value too.\<close>

datatype surface_failure =
    SurfaceFailed surface_error
  | CatalogFailed catalog_error
  | StoreFailed store_error
  | CoreFailed string
  | SurfacePanic string

section \<open>Codecs\<close>

record codec_capabilities =
  cc_raw_writeback :: bool
  cc_preserves_entry_order :: bool
  cc_hierarchical_addresses :: bool

fun codec_capabilities_of :: "resource_codec \<Rightarrow> codec_capabilities" where
  "codec_capabilities_of OpaqueCodec =
     \<lparr>cc_raw_writeback = False, cc_preserves_entry_order = True, cc_hierarchical_addresses = False\<rparr>"
| "codec_capabilities_of DotenvCodec =
     \<lparr>cc_raw_writeback = True, cc_preserves_entry_order = True, cc_hierarchical_addresses = False\<rparr>"
| "codec_capabilities_of IniCodec =
     \<lparr>cc_raw_writeback = False, cc_preserves_entry_order = True, cc_hierarchical_addresses = True\<rparr>"

record decoded_entry =
  de_address :: ustring
  de_section :: "ustring option"
  de_key :: "ustring option"
  de_value :: ustring

definition opaque_decode :: "ustring \<Rightarrow> bytes \<Rightarrow> surface_error + decoded_entry list" where
  "opaque_decode resource_id b =
     and_then (ok_or (from_utf8 b) (InvalidUtf8 resource_id)) (\<lambda>value.
       Inr [\<lparr>de_address = lit ''value'', de_section = None, de_key = None, de_value = value\<rparr>])"

definition dotenv_decode :: "ustring \<Rightarrow> bytes \<Rightarrow> surface_error + decoded_entry list" where
  "dotenv_decode resource_id b =
     (if length b > DOTENV_MAX_SIZE then Inl (TooLarge DOTENV_MAX_SIZE)
      else
        and_then (ok_or (from_utf8 b) (InvalidUtf8 resource_id)) (\<lambda>t.
        and_then (parse_dotenv t) (\<lambda>entries.
          Inr (map (\<lambda>e. \<lparr>de_address = lit ''keys/'' @ pde_key e, de_section = None, de_key = Some (pde_key e),
            de_value = pde_value e\<rparr>) entries))))"

definition ini_decode :: "ustring \<Rightarrow> bytes \<Rightarrow> surface_error + decoded_entry list" where
  "ini_decode resource_id b =
     (if length b > INI_MAX_SIZE then Inl (TooLarge INI_MAX_SIZE)
      else
        and_then (ok_or (from_utf8 b) (InvalidUtf8 resource_id)) (\<lambda>t.
        and_then (parse_ini t) (\<lambda>entries.
          Inr (map (\<lambda>e. \<lparr>de_address = pie_address e, de_section = pie_section e, de_key = Some (pie_key e),
            de_value = pie_value e\<rparr>) entries))))"

definition decode_source :: "resource_codec \<Rightarrow> ustring \<Rightarrow> bytes \<Rightarrow> surface_error + decoded_entry list" where
  "decode_source codec =
     (case codec of OpaqueCodec \<Rightarrow> opaque_decode | DotenvCodec \<Rightarrow> dotenv_decode | IniCodec \<Rightarrow> ini_decode)"

type_synonym entry_schema = "(ustring \<times> ustring option) list"

definition same_schema :: "entry_schema \<Rightarrow> entry_schema \<Rightarrow> bool" where
  "same_schema left right \<longleftrightarrow> sort left = sort right"

definition schema_of_specs :: "entry_spec list \<Rightarrow> entry_schema" where
  "schema_of_specs = map (\<lambda>e. (es_address e, es_key e))"

definition schema_of_decoded :: "decoded_entry list \<Rightarrow> entry_schema" where
  "schema_of_decoded = map (\<lambda>e. (de_address e, de_key e))"

text \<open>The index into the entries of a scalar resource panics when there are none.\<close>

definition decode_resource :: "resource \<Rightarrow> bytes \<Rightarrow> surface_failure + decoded_entry list" where
  "decode_resource r b =
     (if res_shape r = BytesShape then Inr []
      else
        and_then (map_err SurfaceFailed (decode_source (res_codec r) (res_id r) b)) (\<lambda>decoded.
          if res_codec r = OpaqueCodec \<and> res_shape r = Scalar
          then
            (case (res_entries r, decoded) of
               (spec # _, first # others) \<Rightarrow> Inr (first\<lparr>de_address := es_address spec, de_key := es_key spec\<rparr> # others)
             | _ \<Rightarrow> Inl (SurfacePanic ''index out of bounds''))
          else
            (let expected = schema_of_specs (res_entries r); actual = schema_of_decoded decoded;
                 specs = collect_map (map (\<lambda>e. (es_address e, es_key e)) (res_entries r))
             in if \<not> same_schema expected actual
                then Inl (SurfaceFailed (ResourceEntriesChanged (res_id r) expected actual))
                else Inr (map (\<lambda>e. e\<lparr>de_key := Option.bind (specs (de_address e)) id\<rparr>) decoded))))"

section \<open>Renderers\<close>

record resolved_entry_meta =
  rem_audit_key :: ustring
  rem_binding_id :: ustring
  rem_resource_id :: ustring

record resolved_environment_entry =
  ree_export_key :: ustring
  ree_source_address :: ustring
  ree_binding_id :: ustring
  ree_resource_id :: ustring
  ree_value :: ustring

record resolved_binding_entry =
  rbe_address :: ustring
  rbe_key :: "ustring option"
  rbe_section :: "ustring option"
  rbe_binding_id :: ustring
  rbe_resource_id :: ustring
  rbe_value :: ustring

datatype resolved_document =
    EnvironmentDocument "resolved_environment_entry list"
  | BindingsDocument "resolved_binding_entry list"

record rendered_surface =
  rs_bytes :: bytes
  rs_entries :: "resolved_entry_meta list"

fun renderer_max_size :: "surface_format \<Rightarrow> nat" where
  "renderer_max_size DotenvFormat = DOTENV_MAX_SIZE"
| "renderer_max_size DirenvFormat = DIRENV_MAX_SIZE"
| "renderer_max_size IniFormat = INI_MAX_SIZE"
| "renderer_max_size LinesFormat = LINES_MAX_SIZE"

definition environment_metadata :: "resolved_environment_entry list \<Rightarrow> resolved_entry_meta list" where
  "environment_metadata = map (\<lambda>e. \<lparr>rem_audit_key = ree_export_key e, rem_binding_id = ree_binding_id e,
     rem_resource_id = ree_resource_id e\<rparr>)"

definition binding_metadata :: "resolved_binding_entry list \<Rightarrow> resolved_entry_meta list" where
  "binding_metadata = map (\<lambda>e. \<lparr>rem_audit_key = rbe_address e, rem_binding_id = rbe_binding_id e,
     rem_resource_id = rbe_resource_id e\<rparr>)"

definition wrong_document :: "string \<Rightarrow> surface_failure" where
  "wrong_document expected = SurfaceFailed (IncompatibleResource (lit ''<resolved-document>'') expected)"

definition environment_values :: "resolved_environment_entry list \<Rightarrow> (ustring \<times> ustring) list" where
  "environment_values = map (\<lambda>e. (ree_export_key e, ree_value e))"

fun render_dotenv_document :: "resolved_document \<Rightarrow> surface_failure + rendered_surface" where
  "render_dotenv_document (EnvironmentDocument entries) =
     and_then (map_err SurfaceFailed (render_dotenv_refs (environment_values entries))) (\<lambda>b.
       Inr \<lparr>rs_bytes = b, rs_entries = environment_metadata entries\<rparr>)"
| "render_dotenv_document (BindingsDocument entries) = Inl (wrong_document ''environment projection'')"

fun render_direnv_document :: "resolved_document \<Rightarrow> surface_failure + rendered_surface" where
  "render_direnv_document (EnvironmentDocument entries) =
     and_then (map_err SurfaceFailed (render_direnv_refs (environment_values entries))) (\<lambda>b.
       Inr \<lparr>rs_bytes = b, rs_entries = environment_metadata entries\<rparr>)"
| "render_direnv_document (BindingsDocument entries) = Inl (wrong_document ''environment projection'')"

definition ini_value :: "resolved_binding_entry \<Rightarrow> surface_failure + (ustring option \<times> ustring \<times> ustring)" where
  "ini_value e =
     and_then (ok_or (rbe_key e) (SurfaceFailed (IncompatibleResource (rbe_resource_id e) ''entry has no INI key'')))
       (\<lambda>key. Inr (rbe_section e, key, rbe_value e))"

fun ini_failure :: "string + surface_error \<Rightarrow> surface_failure" where
  "ini_failure (Inl panic) = SurfacePanic panic"
| "ini_failure (Inr e) = SurfaceFailed e"

fun render_ini_document :: "resolved_document \<Rightarrow> surface_failure + rendered_surface" where
  "render_ini_document (BindingsDocument entries) =
     (let ordered = filter (\<lambda>e. rbe_section e = None) entries @ filter (\<lambda>e. rbe_section e \<noteq> None) entries
      in and_then (try_map ini_value ordered) (\<lambda>values.
         and_then (map_err ini_failure (render_ini_refs values)) (\<lambda>b.
           Inr \<lparr>rs_bytes = b, rs_entries = binding_metadata ordered\<rparr>)))"
| "render_ini_document (EnvironmentDocument entries) = Inl (wrong_document ''binding entries'')"

fun render_lines_document :: "resolved_document \<Rightarrow> surface_failure + rendered_surface" where
  "render_lines_document (BindingsDocument entries) =
     and_then (map_err SurfaceFailed (render_lines_refs (map (\<lambda>e. (rbe_resource_id e, rbe_value e)) entries))) (\<lambda>b.
       Inr \<lparr>rs_bytes = b, rs_entries = binding_metadata entries\<rparr>)"
| "render_lines_document (EnvironmentDocument entries) = Inl (wrong_document ''binding entries'')"

fun render_document :: "surface_format \<Rightarrow> resolved_document \<Rightarrow> surface_failure + rendered_surface" where
  "render_document DotenvFormat d = render_dotenv_document d"
| "render_document DirenvFormat d = render_direnv_document d"
| "render_document IniFormat d = render_ini_document d"
| "render_document LinesFormat d = render_lines_document d"

section \<open>Content sources\<close>

datatype content_source = StoreSource ustring | LiteralSource bytes | CommandSource "ustring list"

datatype storage_disposition = EncryptedReference | InlinePlaintext | Computed

fun disposition_of :: "content_source \<Rightarrow> storage_disposition" where
  "disposition_of (StoreSource secret_id) = EncryptedReference"
| "disposition_of (LiteralSource b) = InlinePlaintext"
| "disposition_of (CommandSource argv) = Computed"

fun source_exact_size :: "content_source \<Rightarrow> nat option" where
  "source_exact_size (LiteralSource b) = Some (length b)"
| "source_exact_size s = None"

record source_ctx =
  sc_virtual_path :: ustring
  sc_request_uid :: nat
  sc_request_pid :: int
  sc_operation :: operation

record pinned_version =
  pv_secret_id :: ustring
  pv_version :: nat

datatype pinned_content =
    PinnedStoreContent ustring pinned_version
  | PinnedLiteral bytes
  | PinnedCommand "ustring list" source_ctx

record source_snapshot =
  ssn_bytes :: bytes
  ssn_pinned :: "pinned_version option"

fun pinned_version_of :: "pinned_content \<Rightarrow> pinned_version option" where
  "pinned_version_of (PinnedStoreContent secret_id pinned) = Some pinned"
| "pinned_version_of (PinnedLiteral b) = None"
| "pinned_version_of (PinnedCommand argv ctx) = None"

fun pin :: "store_world \<Rightarrow> source_ctx \<Rightarrow> content_source \<Rightarrow> surface_failure + pinned_content" where
  "pin w ctx (StoreSource secret_id) =
     (case store_record w secret_id of
        Inl e \<Rightarrow> Inl (CoreFailed ''store'')
      | Inr None \<Rightarrow> Inl (CoreFailed ''secret was not found'')
      | Inr (Some r) \<Rightarrow>
          Inr (PinnedStoreContent secret_id \<lparr>pv_secret_id = secret_id, pv_version = sr_current_version r\<rparr>))"
| "pin w ctx (LiteralSource b) = Inr (PinnedLiteral b)"
| "pin w ctx (CommandSource argv) = Inr (PinnedCommand argv ctx)"

type_synonym command_runner = "ustring list \<Rightarrow> source_ctx \<Rightarrow> string + bytes"

fun read_pinned :: "store_world \<Rightarrow> command_runner \<Rightarrow> pinned_content \<Rightarrow> surface_failure + source_snapshot" where
  "read_pinned w run (PinnedStoreContent secret_id pinned) =
     and_then (map_err (\<lambda>_. CoreFailed ''store'') (get_version w secret_id (pv_version pinned))) (\<lambda>b.
       Inr \<lparr>ssn_bytes = b, ssn_pinned = Some pinned\<rparr>)"
| "read_pinned w run (PinnedLiteral b) = Inr \<lparr>ssn_bytes = b, ssn_pinned = None\<rparr>"
| "read_pinned w run (PinnedCommand argv ctx) =
     and_then (map_err CoreFailed (if argv = [] then Inl ''empty command argv'' else run argv ctx)) (\<lambda>b.
       Inr \<lparr>ssn_bytes = b, ssn_pinned = None\<rparr>)"

definition parse_secret_id :: "store_packages \<Rightarrow> ustring \<Rightarrow> surface_failure + ustring" where
  "parse_secret_id pk secret_id = ok_or (sp_parse_uuid pk secret_id) (StoreFailed (StoreInvalid ''invalid secret id''))"

fun compile_source :: "store_packages \<Rightarrow> resource_source \<Rightarrow> surface_failure + content_source" where
  "compile_source pk (SecretRef secret_id managed) = and_then (parse_secret_id pk secret_id) (\<lambda>i. Inr (StoreSource i))"
| "compile_source pk (LiteralValue value) = Inr (LiteralSource (utf8 value))"
| "compile_source pk (CommandArgv argv) = Inr (CommandSource argv)"
| "compile_source pk SocketSource =
     Inl (SurfaceFailed (IncompatibleResource (lit ''<resource-source>'') ''socket source is not byte content''))"
| "compile_source pk (SshAccessSource spec) =
     Inl (SurfaceFailed (IncompatibleResource (lit ''<resource-source>'') ''SSH access source is not byte content''))"

section \<open>Access plans\<close>

datatype surface_backing = ComposedBacking surface_format | EnvFileDirectBacking ustring ustring

record access_plan =
  ap_surface :: surface
  ap_backing :: surface_backing
  ap_semantic_revision :: string
  ap_snapshot :: catalog_snapshot

definition surface_backing_of :: "catalog_snapshot \<Rightarrow> surface \<Rightarrow> surface_backing option" where
  "surface_backing_of cat s =
     (case srf_kind s of
        FileSurface (Composed format) \<Rightarrow> Some (ComposedBacking format)
      | FileSurface EnvFileDirect \<Rightarrow>
          (case srf_input s of
             ResourceInput resource_id \<Rightarrow>
               (case find (\<lambda>r. res_id r = resource_id) (cat_resources cat) of
                  None \<Rightarrow> None
                | Some r \<Rightarrow>
                    (case res_source r of
                       SecretRef secret_id _ \<Rightarrow> Some (EnvFileDirectBacking resource_id secret_id)
                     | _ \<Rightarrow> None))
           | _ \<Rightarrow> None)
      | UnixSocket \<Rightarrow> None)"

type_synonym revision_of = "catalog_snapshot \<Rightarrow> ustring \<Rightarrow> catalog_error + string"

definition surface_plan :: "revision_of \<Rightarrow> catalog_snapshot \<Rightarrow> surface \<Rightarrow> (ustring \<times> access_plan) option" where
  "surface_plan revision cat s =
     (case surface_backing_of cat s of
        None \<Rightarrow> None
      | Some backing \<Rightarrow>
          (case revision cat (srf_id s) of
             Inl _ \<Rightarrow> None
           | Inr r \<Rightarrow> Some (srf_id s, \<lparr>ap_surface = s, ap_backing = backing, ap_semantic_revision = r, ap_snapshot = cat\<rparr>)))"

definition file_surfaces :: "revision_of \<Rightarrow> catalog_snapshot \<Rightarrow> ustring \<Rightarrow> access_plan option" where
  "file_surfaces revision cat = collect_map (List.map_filter (surface_plan revision cat) (cat_surfaces cat))"

record surface_registry =
  reg_surfaces :: "ustring \<Rightarrow> access_plan option"

definition registry_from_snapshot :: "revision_of \<Rightarrow> catalog_snapshot \<Rightarrow> surface_registry" where
  "registry_from_snapshot revision cat = \<lparr>reg_surfaces = file_surfaces revision cat\<rparr>"

definition registry_replace :: "revision_of \<Rightarrow> catalog_snapshot \<Rightarrow> surface_registry \<Rightarrow> surface_registry" where
  "registry_replace revision cat reg = reg\<lparr>reg_surfaces := file_surfaces revision cat\<rparr>"

definition registry_get :: "surface_registry \<Rightarrow> ustring \<Rightarrow> access_plan option" where
  "registry_get reg surface_id = reg_surfaces reg surface_id"

section \<open>Resolving resources\<close>

record frozen_version =
  fv_resource_id :: ustring
  fv_secret_id :: ustring
  fv_version :: nat

record surface_snapshot =
  sn_bytes :: bytes
  sn_versions :: "frozen_version list"
  sn_entries :: "resolved_entry_meta list"

fun with_resource_id :: "ustring \<Rightarrow> surface_failure \<Rightarrow> surface_failure" where
  "with_resource_id resource_id (SurfaceFailed (IncompatibleResource _ reason)) =
     SurfaceFailed (IncompatibleResource resource_id reason)"
| "with_resource_id resource_id e = e"

definition compile_resource ::
    "store_packages \<Rightarrow> catalog_snapshot \<Rightarrow> ustring \<Rightarrow> surface_failure + (resource \<times> content_source)" where
  "compile_resource pk cat resource_id =
     and_then (ok_or (resources_by_id cat resource_id) (SurfaceFailed (NotFoundError ''resource'' resource_id))) (\<lambda>r.
     and_then (map_err (with_resource_id (res_id r)) (compile_source pk (res_source r))) (\<lambda>source.
       if disposition_of source = Computed
       then Inl (SurfaceFailed (IncompatibleResource (res_id r) ''source cannot be decoded by a file projection''))
       else Inr (r, source)))"

fun first_occurrences :: "ustring set \<Rightarrow> ustring list \<Rightarrow> ustring list" where
  "first_occurrences seen [] = []"
| "first_occurrences seen (x # xs) =
     (if x \<in> seen then first_occurrences seen xs else x # first_occurrences (insert x seen) xs)"

definition projection_ctx :: "ustring \<Rightarrow> source_ctx" where
  "projection_ctx virtual_path =
     \<lparr>sc_virtual_path = virtual_path, sc_request_uid = 0, sc_request_pid = 0, sc_operation = Read\<rparr>"

text \<open>The store at the moment of each call of the resolver.\<close>

type_synonym store_times = "nat \<Rightarrow> store_world"

fun pin_all ::
    "store_times \<Rightarrow> nat \<Rightarrow> source_ctx \<Rightarrow> (resource \<times> content_source) list \<Rightarrow> surface_failure + (resource \<times> pinned_content) list" where
  "pin_all store t ctx [] = Inr []"
| "pin_all store t ctx ((r, source) # rest) =
     and_then (pin (store t) ctx source) (\<lambda>content.
     and_then (pin_all store (Suc t) ctx rest) (\<lambda>pinned. Inr ((r, content) # pinned)))"

definition frozen_versions :: "(resource \<times> pinned_content) list \<Rightarrow> frozen_version list" where
  "frozen_versions pinned =
     List.map_filter (\<lambda>(r, content). map_option (\<lambda>v. \<lparr>fv_resource_id = res_id r, fv_secret_id = pv_secret_id v,
       fv_version = pv_version v\<rparr>) (pinned_version_of content)) pinned"

type_synonym decoded_resources = "(ustring, decoded_entry list) hash_map"

fun read_all ::
    "store_times \<Rightarrow> nat \<Rightarrow> command_runner \<Rightarrow> (resource \<times> pinned_content) list \<Rightarrow> decoded_resources \<Rightarrow> surface_failure + decoded_resources" where
  "read_all store t run [] decoded = Inr decoded"
| "read_all store t run ((r, content) # rest) decoded =
     and_then (read_pinned (store t) run content) (\<lambda>snapshot.
     and_then (decode_resource r (ssn_bytes snapshot)) (\<lambda>entries.
       read_all store (Suc t) run rest (hm_insert (res_id r) entries decoded)))"

definition resolve_resources ::
    "store_times \<Rightarrow> nat \<Rightarrow> command_runner \<Rightarrow> catalog_snapshot \<Rightarrow> ustring list \<Rightarrow> ustring \<Rightarrow>
      surface_failure + (decoded_resources \<times> frozen_version list)" where
  "resolve_resources store t run cat resource_ids virtual_path =
     and_then (try_map (compile_resource (sw_packages (store t)) cat) (first_occurrences {} resource_ids)) (\<lambda>compiled.
     and_then (pin_all store t (projection_ctx virtual_path) compiled) (\<lambda>pinned.
     and_then (read_all store (t + length pinned) run pinned []) (\<lambda>decoded.
       Inr (decoded, frozen_versions pinned))))"

section \<open>Documents\<close>

definition environment_entry :: "decoded_resources \<Rightarrow> resolved_export \<Rightarrow> surface_failure + resolved_environment_entry" where
  "environment_entry decoded ex =
     and_then (ok_or (Option.bind (hm_get decoded (re_resource_id ex)) (find (\<lambda>e. de_address e = re_address ex)))
       (SurfaceFailed (MissingKey (re_resource_id ex) (re_address ex)))) (\<lambda>e.
       Inr \<lparr>ree_export_key = re_key ex, ree_source_address = re_address ex, ree_binding_id = re_binding_id ex,
         ree_resource_id = re_resource_id ex, ree_value = de_value e\<rparr>)"

definition resolve_environment_document ::
    "store_times \<Rightarrow> nat \<Rightarrow> command_runner \<Rightarrow> catalog_snapshot \<Rightarrow> ustring \<Rightarrow>
      surface_failure + (resolved_document \<times> frozen_version list)" where
  "resolve_environment_document store t run cat surface_id =
     and_then (map_err CatalogFailed (resolve_catalog_surface cat surface_id)) (\<lambda>exports.
     and_then (resolve_resources store t run cat (map re_resource_id exports) surface_id) (\<lambda>(decoded, versions).
     and_then (try_map (environment_entry decoded) exports) (\<lambda>entries.
       Inr (EnvironmentDocument entries, versions))))"

definition validate_binding_input :: "format_spec \<Rightarrow> binding \<Rightarrow> resource \<Rightarrow> surface_failure + unit" where
  "validate_binding_input spec b r =
     (if (case fsp_input spec of
            EnvironmentProjection \<Rightarrow> False
          | StructuredEntries required_kind required_shape required_codec stored_only \<Rightarrow>
              res_kind r = required_kind \<and> res_shape r = required_shape \<and> res_codec r = required_codec \<and>
              (fsp_allow_key_override spec \<or> bnd_key_override b = None) \<and> (\<not> stored_only \<or> is_secret_ref (res_source r))
          | KeylessScalars required_codec allow_literal \<Rightarrow>
              res_shape r = Scalar \<and> res_codec r = required_codec \<and>
              (case res_entries r of
                 [e] \<Rightarrow> es_key e = None \<and> (fsp_allow_key_override spec \<or> bnd_key_override b = None) \<and>
                   selection_contains (bnd_selection b) (es_address e)
               | _ \<Rightarrow> False) \<and>
              (is_secret_ref (res_source r) \<or> is_literal_source (res_source r) \<and> allow_literal))
      then Inr ()
      else Inl (SurfaceFailed (IncompatibleResource (res_id r) ''binding does not satisfy the surface format input contract'')))"

text \<open>One step of the loop over the binding identifiers: a binding that takes part, or none when it is disabled.\<close>

definition surface_binding ::
    "catalog_snapshot \<Rightarrow> environment \<Rightarrow> format_spec \<Rightarrow> ustring \<Rightarrow> surface_failure + binding option" where
  "surface_binding cat e spec binding_id =
     and_then (ok_or (find (\<lambda>b. bnd_id b = binding_id) (cat_bindings cat)) (SurfaceFailed (NotFoundError ''binding'' binding_id))) (\<lambda>b.
       if \<not> (bnd_project_id b = env_project_id e \<and> scope_applies (Some (env_id e)) (bnd_scope b))
       then Inl (SurfaceFailed (IncompatibleResource (bnd_resource_id b) ''binding does not apply to this surface''))
       else if \<not> bnd_enabled b then Inr None
       else
         and_then (ok_or (resources_by_id cat (bnd_resource_id b)) (SurfaceFailed (NotFoundError ''resource'' (bnd_resource_id b)))) (\<lambda>r.
         and_then (validate_binding_input spec b r) (\<lambda>_. Inr (Some b))))"

definition binding_entries ::
    "catalog_snapshot \<Rightarrow> decoded_resources \<Rightarrow> binding \<Rightarrow> surface_failure + resolved_binding_entry list" where
  "binding_entries cat decoded b =
     and_then (ok_or (resources_by_id cat (bnd_resource_id b)) (SurfaceFailed (NotFoundError ''resource'' (bnd_resource_id b)))) (\<lambda>r.
     and_then (ok_or (hm_get decoded (res_id r)) (SurfaceFailed (NotFoundError ''decoded resource'' (res_id r)))) (\<lambda>entries.
       Inr (map (\<lambda>e. \<lparr>rbe_address = de_address e, rbe_key = de_key e, rbe_section = de_section e, rbe_binding_id = bnd_id b,
              rbe_resource_id = res_id r, rbe_value = de_value e\<rparr>)
            (filter (\<lambda>e. selection_contains (bnd_selection b) (de_address e)) entries))))"

definition resolve_binding_document ::
    "store_times \<Rightarrow> nat \<Rightarrow> command_runner \<Rightarrow> catalog_snapshot \<Rightarrow> surface \<Rightarrow> format_spec \<Rightarrow>
      surface_failure + (resolved_document \<times> frozen_version list)" where
  "resolve_binding_document store t run cat s spec =
     and_then (ok_or (find_environment cat (srf_environment_id s))
         (SurfaceFailed (NotFoundError ''environment'' (srf_environment_id s)))) (\<lambda>e.
       (case srf_input s of
          BindingsInput binding_ids \<Rightarrow>
            and_then (try_map (surface_binding cat e spec) binding_ids) (\<lambda>taken.
            (let bindings = sort_key binding_order (List.map_filter id taken)
             in and_then (resolve_resources store t run cat (map bnd_resource_id bindings) (srf_id s)) (\<lambda>(decoded, versions).
                and_then (try_map (binding_entries cat decoded) bindings) (\<lambda>entries.
                  Inr (BindingsDocument (concat entries), versions)))))
        | _ \<Rightarrow> Inl (SurfaceFailed (IncompatibleResource (lit ''<surface-input>'')
                 ''composed file surface requires explicit binding input''))))"

definition resolve_document ::
    "store_times \<Rightarrow> nat \<Rightarrow> command_runner \<Rightarrow> catalog_snapshot \<Rightarrow> surface \<Rightarrow> surface_format \<Rightarrow>
      surface_failure + (resolved_document \<times> frozen_version list)" where
  "resolve_document store t run cat s format =
     (case fsp_input (format_spec_of format) of
        EnvironmentProjection \<Rightarrow> resolve_environment_document store t run cat (srf_id s)
      | _ \<Rightarrow> resolve_binding_document store t run cat s (format_spec_of format))"

definition render_from_snapshot ::
    "store_times \<Rightarrow> nat \<Rightarrow> command_runner \<Rightarrow> catalog_snapshot \<Rightarrow> ustring \<Rightarrow> surface_failure + surface_snapshot" where
  "render_from_snapshot store t run cat surface_id =
     and_then (ok_or (find_surface cat surface_id) (SurfaceFailed (NotFoundError ''surface'' surface_id))) (\<lambda>s.
       (case srf_kind s of
          FileSurface (Composed format) \<Rightarrow>
            and_then (resolve_document store t run cat s format) (\<lambda>(document, versions).
            and_then (render_document format document) (\<lambda>rendered.
              Inr \<lparr>sn_bytes = rs_bytes rendered, sn_versions = versions, sn_entries = rs_entries rendered\<rparr>))
        | _ \<Rightarrow> Inl (SurfaceFailed (UnsupportedSurface surface_id))))"

definition render_access_plan ::
    "store_times \<Rightarrow> nat \<Rightarrow> command_runner \<Rightarrow> access_plan \<Rightarrow> surface_failure + surface_snapshot" where
  "render_access_plan store t run plan = render_from_snapshot store t run (ap_snapshot plan) (srf_id (ap_surface plan))"

record surface_dependency =
  sd_key :: ustring
  sd_binding_id :: ustring
  sd_resource_id :: ustring
  sd_secret_id :: "ustring option"
  sd_version :: "nat option"

definition audit_dependencies :: "surface_snapshot \<Rightarrow> surface_dependency list" where
  "audit_dependencies snapshot =
     (let versions = collect_map (map (\<lambda>v. (fv_resource_id v, v)) (sn_versions snapshot))
      in map (\<lambda>e. \<lparr>sd_key = rem_audit_key e, sd_binding_id = rem_binding_id e, sd_resource_id = rem_resource_id e,
           sd_secret_id = map_option fv_secret_id (versions (rem_resource_id e)),
           sd_version = map_option fv_version (versions (rem_resource_id e))\<rparr>) (sn_entries snapshot))"

section \<open>Committed writes\<close>

definition feeds_lines :: "catalog_snapshot \<Rightarrow> resource \<Rightarrow> bool" where
  "feeds_lines cat r \<longleftrightarrow>
     (let line_binding_ids = concat (List.map_filter (\<lambda>s.
            if srf_kind s = FileSurface (Composed LinesFormat)
            then (case srf_input s of BindingsInput ids \<Rightarrow> Some ids | _ \<Rightarrow> None) else None) (cat_surfaces cat))
      in list_ex (\<lambda>b. bnd_resource_id b = res_id r \<and> bnd_id b \<in> set line_binding_ids) (cat_bindings cat))"

definition references_secret :: "ustring \<Rightarrow> resource \<Rightarrow> bool" where
  "references_secret secret_id r = (case res_source r of SecretRef referenced _ \<Rightarrow> referenced = secret_id | _ \<Rightarrow> False)"

definition validate_resource_bytes :: "catalog_snapshot \<Rightarrow> bytes \<Rightarrow> resource \<Rightarrow> surface_failure + unit" where
  "validate_resource_bytes cat b r =
     and_then (decode_resource r b) (\<lambda>decoded.
       if feeds_lines cat r
       then
         (case decoded of
            [] \<Rightarrow> Inl (SurfaceFailed (MissingKey (res_id r) (case res_entries r of e # _ \<Rightarrow> es_address e | [] \<Rightarrow> lit ''value'')))
          | first # _ \<Rightarrow>
              and_then (map_err SurfaceFailed (render_lines_refs [(res_id r, de_value first)])) (\<lambda>_. Inr ()))
       else Inr ())"

definition validate_secret_bytes :: "catalog_snapshot \<Rightarrow> ustring \<Rightarrow> bytes \<Rightarrow> surface_failure + unit" where
  "validate_secret_bytes cat secret_id b =
     try_each (validate_resource_bytes cat b) (filter (references_secret secret_id) (cat_resources cat))"

text \<open>The gate admits one mutation at a time; observers that are gone are dropped, the others are told of a commit.\<close>

record coordinator =
  mc_observers :: "nat list"
  mc_notified :: "nat list"

definition observe :: "nat \<Rightarrow> coordinator \<Rightarrow> coordinator" where
  "observe observer c = c\<lparr>mc_observers := mc_observers c @ [observer]\<rparr>"

definition notify_committed :: "(nat \<Rightarrow> bool) \<Rightarrow> coordinator \<Rightarrow> coordinator" where
  "notify_committed alive c =
     c\<lparr>mc_observers := filter alive (mc_observers c), mc_notified := mc_notified c @ filter alive (mc_observers c)\<rparr>"

definition run_committed ::
    "(nat \<Rightarrow> bool) \<Rightarrow> (store_world \<Rightarrow> store_world \<times> (surface_failure + 'a)) \<Rightarrow> coordinator \<Rightarrow> store_world \<Rightarrow>
      (coordinator \<times> store_world) \<times> (surface_failure + 'a)" where
  "run_committed alive operation c w =
     (case operation w of
        (w', r) \<Rightarrow> ((if is_ok r then notify_committed alive c else c, w'), r))"

definition commit_secret_version ::
    "(catalog_error + catalog_snapshot) option \<Rightarrow> (nat \<Rightarrow> bool) \<Rightarrow> ustring \<Rightarrow> bytes \<Rightarrow> coordinator \<Rightarrow> store_world \<Rightarrow>
      (coordinator \<times> store_world) \<times> (surface_failure + nat)" where
  "commit_secret_version catalog alive secret_id b =
     run_committed alive (\<lambda>w.
       (case (case catalog of
                None \<Rightarrow> Inr ()
              | Some snapshot \<Rightarrow> and_then (map_err CatalogFailed snapshot) (\<lambda>cat. validate_secret_bytes cat secret_id b)) of
          Inl e \<Rightarrow> (w, Inl e)
        | Inr _ \<Rightarrow> (case append_version secret_id b w of (w', r) \<Rightarrow> (w', map_err StoreFailed r))))"

section \<open>Directly linked env files\<close>

record direct_snapshot =
  ds_bytes :: bytes
  ds_resource_id :: ustring
  ds_secret_id :: ustring
  ds_version :: nat
  ds_keys :: "ustring list"

record direct_commit =
  dc_resource_id :: ustring
  dc_secret_id :: ustring
  dc_version :: nat

definition direct_env_file_target :: "catalog_snapshot \<Rightarrow> ustring \<Rightarrow> surface_failure + (resource \<times> ustring)" where
  "direct_env_file_target cat surface_id =
     and_then (ok_or (find_surface cat surface_id) (SurfaceFailed (NotFoundError ''surface'' surface_id))) (\<lambda>s.
       if srf_kind s \<noteq> FileSurface EnvFileDirect then Inl (SurfaceFailed (UnsupportedSurface surface_id))
       else
         (case srf_input s of
            ResourceInput resource_id \<Rightarrow>
              and_then (ok_or (find (\<lambda>r. res_id r = resource_id) (cat_resources cat))
                  (SurfaceFailed (NotFoundError ''resource'' resource_id))) (\<lambda>r.
                (case res_source r of
                   SecretRef secret_id _ \<Rightarrow> Inr (r, secret_id)
                 | _ \<Rightarrow> Inl (SurfaceFailed (IncompatibleResource (res_id r) ''direct EnvFile must reference a stored secret''))))
          | _ \<Rightarrow> Inl (SurfaceFailed (IncompatibleResource (lit ''<surface-input>'')
                   ''env_file_direct surface requires one resource input''))))"

definition validate_direct_env_file :: "resource \<Rightarrow> bytes \<Rightarrow> surface_failure + ustring list" where
  "validate_direct_env_file r b =
     (if \<not> cc_raw_writeback (codec_capabilities_of (res_codec r))
      then Inl (SurfaceFailed (IncompatibleResource (res_id r) ''codec does not support raw writeback''))
      else and_then (decode_resource r b) (\<lambda>decoded. Inr (List.map_filter de_key decoded)))"

definition read_direct_env_file_from_snapshot ::
    "store_times \<Rightarrow> nat \<Rightarrow> catalog_snapshot \<Rightarrow> ustring \<Rightarrow> surface_failure + direct_snapshot" where
  "read_direct_env_file_from_snapshot store t cat surface_id =
     and_then (direct_env_file_target cat surface_id) (\<lambda>(r, secret_id).
     and_then (parse_secret_id (sw_packages (store t)) secret_id) (\<lambda>i.
     and_then (map_err StoreFailed (store_record (store t) i)) (\<lambda>found.
     and_then (ok_or found (SurfaceFailed (NotFoundError ''secret'' secret_id))) (\<lambda>rec.
     and_then (map_err StoreFailed (get_version (store (Suc t)) i (sr_current_version rec))) (\<lambda>plaintext.
     and_then (validate_direct_env_file r plaintext) (\<lambda>keys.
       Inr \<lparr>ds_bytes = plaintext, ds_resource_id = res_id r, ds_secret_id = secret_id,
         ds_version = sr_current_version rec, ds_keys = keys\<rparr>))))))"

definition direct_audit_dependencies :: "ustring \<Rightarrow> direct_snapshot \<Rightarrow> surface_dependency list" where
  "direct_audit_dependencies surface_id d =
     map (\<lambda>key. \<lparr>sd_key = key, sd_binding_id = lit ''direct:'' @ surface_id, sd_resource_id = ds_resource_id d,
       sd_secret_id = Some (ds_secret_id d), sd_version = Some (ds_version d)\<rparr>) (ds_keys d)"

text \<open>The plan of the open names the target, the catalog of the commit decides what the bytes must satisfy.\<close>

definition commit_direct_env_file_plan ::
    "catalog_error + catalog_snapshot \<Rightarrow> (nat \<Rightarrow> bool) \<Rightarrow> access_plan \<Rightarrow> bytes \<Rightarrow> coordinator \<Rightarrow> store_world \<Rightarrow>
      (coordinator \<times> store_world) \<times> (surface_failure + direct_commit)" where
  "commit_direct_env_file_plan catalog alive plan b c w =
     (case and_then (direct_env_file_target (ap_snapshot plan) (srf_id (ap_surface plan))) (\<lambda>(r, secret_id).
           and_then (validate_direct_env_file r b) (\<lambda>_.
           and_then (parse_secret_id (sw_packages w) secret_id) (\<lambda>i. Inr (r, secret_id, i)))) of
        Inl e \<Rightarrow> ((c, w), Inl e)
      | Inr (r, secret_id, i) \<Rightarrow>
          (case commit_secret_version (Some catalog) alive i b c w of
             (cw, Inl e) \<Rightarrow> (cw, Inl e)
           | (cw, Inr version) \<Rightarrow>
               (cw, Inr \<lparr>dc_resource_id = res_id r, dc_secret_id = secret_id, dc_version = version\<rparr>)))"

definition commit_direct_env_file ::
    "catalog_error + catalog_snapshot \<Rightarrow> catalog_error + catalog_snapshot \<Rightarrow> (nat \<Rightarrow> bool) \<Rightarrow> ustring \<Rightarrow> bytes \<Rightarrow> coordinator \<Rightarrow> store_world \<Rightarrow>
      (coordinator \<times> store_world) \<times> (surface_failure + direct_commit)" where
  "commit_direct_env_file snapshot catalog alive surface_id b c w =
     (case and_then (map_err CatalogFailed snapshot) (\<lambda>cat.
           and_then (direct_env_file_target cat surface_id) (\<lambda>(r, secret_id).
           and_then (parse_secret_id (sw_packages w) secret_id) (\<lambda>i. Inr (r, secret_id, i)))) of
        Inl e \<Rightarrow> ((c, w), Inl e)
      | Inr (r, secret_id, i) \<Rightarrow>
          (case commit_secret_version (Some catalog) alive i b c w of
             (cw, Inl e) \<Rightarrow> (cw, Inl e)
           | (cw, Inr version) \<Rightarrow>
               (cw, Inr \<lparr>dc_resource_id = res_id r, dc_secret_id = secret_id, dc_version = version\<rparr>)))"

end
