(* ===== verification/Surface_Roundtrips.thy ===== *)
theory Surface_Roundtrips
  imports Surface_Formats
begin

text \<open>
  What the formats of the surfaces guarantee: what is rendered is what a reader of the format gets, value by
  value, whatever characters the values hold; a rendered surface stays within its bound; and where the
  INI renderer lets an entry through that no reader gets back.
\<close>

section \<open>Characters\<close>

lemma env_key_char:
  assumes "valid_env_key key" "c \<in> set key"
  shows "c = UNDERSCORE \<or> is_ascii_alphanumeric c"
  using assms by (cases key) (auto simp: valid_env_key_def list_all_iff is_ascii_alphanumeric_def)

lemma alphanumeric_bounds: "is_ascii_alphanumeric c \<Longrightarrow> 48 \<le> c \<and> c \<le> 122 \<and> c \<noteq> 59 \<and> c \<noteq> 61 \<and> c \<noteq> 91 \<and> c \<noteq> 92"
  by (auto simp: is_ascii_alphanumeric_def is_ascii_alphabetic_def)

lemma printable_not_whitespace: "33 \<le> c \<Longrightarrow> c < 128 \<Longrightarrow> \<not> is_whitespace c"
  by (simp add: is_whitespace_def)

lemma env_key_props:
  assumes "valid_env_key key"
  shows "key \<noteq> []" "c \<in> set key \<Longrightarrow> 48 \<le> c \<and> c \<le> 122 \<and> c \<noteq> 61 \<and> c \<noteq> 59 \<and> c \<noteq> 91 \<and> c \<noteq> 92"
    "trim key = key"
proof -
  show n: "key \<noteq> []" using assms by (auto simp: valid_env_key_def)
  show c: "c \<in> set key \<Longrightarrow> 48 \<le> c \<and> c \<le> 122 \<and> c \<noteq> 61 \<and> c \<noteq> 59 \<and> c \<noteq> 91 \<and> c \<noteq> 92" for c
    using env_key_char [OF assms, of c] alphanumeric_bounds by auto
  have "\<not> is_whitespace (hd key)" "\<not> is_whitespace (last key)"
    using c [OF hd_in_set [OF n]] c [OF last_in_set [OF n]] by (intro printable_not_whitespace; linarith)+
  then show "trim key = key" by (simp add: trim_id)
qed

lemma safe_char: "is_safe_unquoted c \<Longrightarrow> 37 \<le> c \<and> c \<le> 122 \<and> c \<noteq> 39 \<and> c \<noteq> 61"
  using alphanumeric_bounds [of c] by (auto simp: is_safe_unquoted_def)

lemma scalar_ascii: "c < 128 \<Longrightarrow> scalar_value c"
  by (simp add: scalar_value_def)

section \<open>Dotenv\<close>

lemma push_value_append: "push_value output value = output @ push_value [] value"
  by (simp add: push_value_def)

lemma push_value_safe: "v \<noteq> [] \<and> list_all is_safe_unquoted v \<Longrightarrow> push_value [] v = v"
  by (simp add: push_value_def)

lemma push_value_quoted:
  "\<not> (v \<noteq> [] \<and> list_all is_safe_unquoted v) \<Longrightarrow> push_value [] v = DQUOTE # concat (map escape_char v) @ [DQUOTE]"
  by (auto simp: push_value_def)

lemma escape_char_cases:
  "escape_char c \<noteq> [] \<and> (\<forall>d \<in> set (escape_char c). d \<noteq> LF \<and> d \<noteq> CR \<and> (scalar_value c \<longrightarrow> scalar_value d))"
  by (auto simp: escape_char_def scalar_ascii)

lemma parse_double_quoted_escape:
  "parse_double_quoted value (escape_char c @ rest) line = parse_double_quoted (value @ [c]) rest line"
  by (auto simp: escape_char_def unescape_def)

lemma parse_double_quoted_rendered:
  "parse_double_quoted value (concat (map escape_char v) @ [DQUOTE]) line = Inr (value @ v)"
proof (induction v arbitrary: "value")
  case Nil
  then show ?case by (simp add: ensure_quote_suffix_def trim_id)
next
  case (Cons c v)
  then show ?case by (simp add: parse_double_quoted_escape)
qed

lemma cut_comment_id: "HASH \<notin> set t \<Longrightarrow> cut_comment b t = t"
  by (induction t arbitrary: b) auto

lemma strip_prefix_single: "strip_prefix [c] t = (case t of [] \<Rightarrow> None | d # r \<Rightarrow> if d = c then Some r else None)"
  by (cases t) (auto simp: strip_prefix_def)

lemma parse_value_rendered: "parse_value (push_value [] v) line = Inr v"
proof (cases "v \<noteq> [] \<and> list_all is_safe_unquoted v")
  case True
  then have c: "37 \<le> c \<and> c \<le> 122 \<and> c \<noteq> 39" if "c \<in> set v" for c
    using safe_char that by (auto simp: list_all_iff)
  obtain d r where v: "v = d # r" using True by (cases v) auto
  have "HASH \<notin> set v" using c [of HASH] by auto
  moreover have "\<not> is_whitespace (last v)" using c [of "last v"] True by (intro printable_not_whitespace) auto
  ultimately have "trim_end (cut_comment False v) = v" by (simp add: cut_comment_id trim_end_id)
  then show ?thesis
    using c [of d] push_value_safe [OF True] by (simp add: parse_value_def strip_prefix_single v)
next
  case False
  then show ?thesis
    by (simp add: parse_value_def push_value_quoted strip_prefix_single parse_double_quoted_rendered)
qed

lemma rendered_value_props:
  "push_value [] v \<noteq> []" "\<not> is_whitespace (hd (push_value [] v))" "\<not> is_whitespace (last (push_value [] v))"
  "last (push_value [] v) \<noteq> CR" "LF \<notin> set (push_value [] v)"
  "list_all scalar_value v \<Longrightarrow> list_all scalar_value (push_value [] v)"
proof -
  have "push_value [] v \<noteq> [] \<and> \<not> is_whitespace (hd (push_value [] v)) \<and> \<not> is_whitespace (last (push_value [] v)) \<and>
    last (push_value [] v) \<noteq> CR \<and> LF \<notin> set (push_value [] v)"
  proof (cases "v \<noteq> [] \<and> list_all is_safe_unquoted v")
    case True
    then have c: "37 \<le> c \<and> c \<le> 122" if "c \<in> set v" for c using safe_char that by (auto simp: list_all_iff)
    have "\<not> is_whitespace (hd v)" "\<not> is_whitespace (last v)" "last v \<noteq> CR"
      using c [of "hd v"] c [of "last v"] printable_not_whitespace [of "hd v"] printable_not_whitespace [of "last v"] True
      by auto
    with c [of LF] True show ?thesis by (auto simp: push_value_safe)
  next
    case False
    then show ?thesis using escape_char_cases by (simp add: push_value_quoted is_whitespace_def) blast
  qed
  then show "push_value [] v \<noteq> []" "\<not> is_whitespace (hd (push_value [] v))" "\<not> is_whitespace (last (push_value [] v))"
    "last (push_value [] v) \<noteq> CR" "LF \<notin> set (push_value [] v)" by blast+
  show "list_all scalar_value v \<Longrightarrow> list_all scalar_value (push_value [] v)"
    using escape_char_cases by (auto simp: push_value_def list_all_iff scalar_ascii)
qed

definition dotenv_line :: "ustring \<times> ustring \<Rightarrow> ustring" where
  "dotenv_line kv = fst kv @ [EQUALS] @ push_value [] (snd kv)"

lemma render_dotenv_loop_Inr:
  assumes "render_dotenv_loop out kvs = Inr t"
  shows "t = out @ concat (map (\<lambda>kv. dotenv_line kv @ [LF]) kvs) \<and> list_all (\<lambda>kv. valid_env_key (fst kv)) kvs \<and>
    (utf8_len out \<le> DOTENV_MAX_SIZE \<longrightarrow> utf8_len t \<le> DOTENV_MAX_SIZE)"
  using assms
proof (induction kvs arbitrary: out)
  case Nil
  then show ?case by simp
next
  case (Cons kv kvs)
  obtain k v where kv: "kv = (k, v)" by (cases kv)
  show ?case
    using Cons.IH [of "push_value (out @ k @ [EQUALS]) v @ [LF]"] Cons.prems
    by (auto simp: kv dotenv_line_def Let_def push_value_append [of "out @ k @ [EQUALS]"] split: if_splits)
qed

lemma no_export_prefix:
  assumes "valid_env_key k"
  shows "strip_prefix (lit ''export '') (k @ EQUALS # w) = None"
proof (rule ccontr)
  assume "\<not> ?thesis"
  then obtain r where e: "k @ EQUALS # w = lit ''export '' @ r"
    by (metis append_take_drop_id option.distinct(1) strip_prefix_def)
  have sp: "32 \<in> set (lit ''export '')" "EQUALS \<notin> set (lit ''export '')" by simp_all
  have "32 \<notin> set k" using env_key_props(2) [OF assms, of 32] by auto
  moreover have "EQUALS \<in> set (lit ''export '')" if "k @ EQUALS # x = lit ''export ''" for x
    using that by (metis in_set_conv_decomp)
  ultimately show False using sp e by (auto simp del: lit_simps simp: append_eq_append_conv2 Cons_eq_append_conv)
qed

lemma dotenv_line_props:
  assumes "valid_env_key k"
  shows "LF \<notin> set (dotenv_line (k, v))" "last (dotenv_line (k, v)) \<noteq> CR" "trim (dotenv_line (k, v)) = dotenv_line (k, v)"
    "\<not> starts_with HASH (dotenv_line (k, v))" "dotenv_line (k, v) \<noteq> []"
    "strip_export (dotenv_line (k, v)) = dotenv_line (k, v)"
    "split_at (\<lambda>c. c = EQUALS) (dotenv_line (k, v)) = Some (k, push_value [] v)"
proof -
  note k = env_key_props [OF assms]
  have h: "hd k \<in> set k" "hd (k @ xs) = hd k" for xs using k(1) by simp_all
  have "\<not> is_whitespace (hd k)" using k(2) [OF h(1)] by (intro printable_not_whitespace) auto
  then show "trim (dotenv_line (k, v)) = dotenv_line (k, v)"
    using rendered_value_props(1,3) [of v] by (intro trim_id) (simp add: dotenv_line_def h(2))
  show "LF \<notin> set (dotenv_line (k, v))" using k(2) [of LF] rendered_value_props(5) [of v] by (auto simp: dotenv_line_def)
  show "last (dotenv_line (k, v)) \<noteq> CR" using rendered_value_props(1,4) [of v] by (simp add: dotenv_line_def)
  show "\<not> starts_with HASH (dotenv_line (k, v))" using k(2) [OF h(1)] by (simp add: dotenv_line_def starts_with_def h(2))
  show "dotenv_line (k, v) \<noteq> []" by (simp add: dotenv_line_def)
  show "strip_export (dotenv_line (k, v)) = dotenv_line (k, v)"
    using no_export_prefix [OF assms] by (simp add: strip_export_def dotenv_line_def)
  show "split_at (\<lambda>c. c = EQUALS) (dotenv_line (k, v)) = Some (k, push_value [] v)"
    using k(2) by (auto simp: dotenv_line_def intro!: split_at_append)
qed

lemma parse_dotenv_lines_rendered:
  assumes "list_all (\<lambda>kv. valid_env_key (fst kv)) kvs" "distinct (map fst kvs)" "set (map fst kvs) \<inter> fst ` set first_lines = {}"
  shows "parse_dotenv_lines n first_lines values (map dotenv_line kvs) =
    Inr (values @ map (\<lambda>(k, v). \<lparr>pde_key = k, pde_value = v\<rparr>) kvs)"
  using assms
proof (induction kvs arbitrary: n first_lines "values")
  case Nil
  then show ?case by simp
next
  case (Cons kv kvs)
  obtain k v where kv: "kv = (k, v)" by (cases kv)
  with Cons.prems have k: "valid_env_key k" by simp
  note line = dotenv_line_props [OF k, of v]
  have "map_of first_lines k = None" using Cons.prems(3) by (auto simp: kv map_of_eq_None_iff)
  moreover have "trim_start (push_value [] v) = push_value [] v" using rendered_value_props(2) [of v] by (simp add: trim_start_id)
  moreover have "parse_dotenv_lines (n + 1) ((k, n + 1) # first_lines) (values @ [\<lparr>pde_key = k, pde_value = v\<rparr>]) (map dotenv_line kvs) =
      Inr ((values @ [\<lparr>pde_key = k, pde_value = v\<rparr>]) @ map (\<lambda>(k, v). \<lparr>pde_key = k, pde_value = v\<rparr>) kvs)"
    using Cons.prems by (intro Cons.IH) (auto simp: kv)
  ultimately show ?case
    by (simp add: kv Let_def line(3-7) k env_key_props(3) [OF k] parse_value_rendered)
qed

lemma str_lines_concat:
  assumes "\<And>l. l \<in> set ls \<Longrightarrow> LF \<notin> set l \<and> (l = [] \<or> last l \<noteq> CR)"
  shows "str_lines (concat (map (\<lambda>l. l @ [LF]) ls)) = ls"
  using assms by (induction ls) (auto simp: str_lines_line)

lemma parse_rendered_dotenv:
  assumes "render_dotenv_loop [] kvs = Inr t" "distinct (map fst kvs)"
  shows "parse_dotenv t = Inr (map (\<lambda>(k, v). \<lparr>pde_key = k, pde_value = v\<rparr>) kvs)"
proof -
  from render_dotenv_loop_Inr [OF assms(1)]
  have t: "t = concat (map (\<lambda>l. l @ [LF]) (map dotenv_line kvs))" and valid: "list_all (\<lambda>kv. valid_env_key (fst kv)) kvs"
    by (simp_all add: comp_def)
  have "str_lines t = map dotenv_line kvs"
    unfolding t using valid dotenv_line_props(1,2) by (intro str_lines_concat) (fastforce simp: list_all_iff)
  then show ?thesis
    using parse_dotenv_lines_rendered [OF valid assms(2), of "[]" 0 "[]"] by (simp add: parse_dotenv_def)
qed

lemma rendered_dotenv_scalar:
  assumes "render_dotenv_loop [] kvs = Inr t" "list_all (\<lambda>kv. list_all scalar_value (snd kv)) kvs"
  shows "list_all scalar_value t"
proof -
  have "list_all scalar_value k" if "valid_env_key k" for k
    using env_key_props(2) [OF that] by (fastforce simp: list_all_iff scalar_value_def)
  then have "list_all scalar_value (dotenv_line kv @ [LF])" if "kv \<in> set kvs" for kv
    using that assms(2) render_dotenv_loop_Inr [OF assms(1)] rendered_value_props(6) [of "snd kv"]
    by (auto simp: dotenv_line_def list_all_iff scalar_ascii)
  then show ?thesis using render_dotenv_loop_Inr [OF assms(1)] by (auto simp: list_all_iff scalar_ascii)
qed

section \<open>Direnv\<close>

text \<open>A reader of a shell word that accepts only what the shell takes literally: quoted text and escaped
  characters, up to the end of the line.\<close>

lemma split_at_length: "split_at P t = Some (q, r) \<Longrightarrow> length r < length t"
proof -
  assume "split_at P t = Some (q, r)"
  then obtain d where "dropWhile (\<lambda>c. \<not> P c) t = d # r" by (auto simp: split_at_def split: list.splits)
  then have "length (d # r) \<le> length t" by (metis length_dropWhile_le)
  then show ?thesis by simp
qed

function sh_word :: "ustring \<Rightarrow> ustring \<Rightarrow> (ustring \<times> ustring) option" where
  "sh_word w t =
     (case t of
        [] \<Rightarrow> None
      | c # t \<Rightarrow>
          if c = SQUOTE
          then (case split_at (\<lambda>c. c = SQUOTE) t of None \<Rightarrow> None | Some (q, r) \<Rightarrow> sh_word (w @ q) r)
          else if c = BACKSLASH
          then (case t of [] \<Rightarrow> None | d # r \<Rightarrow> if d = LF then None else sh_word (w @ [d]) r)
          else if c = LF then Some (w, t)
          else None)"
  by pat_completeness auto
termination
  by (relation "measure (\<lambda>(w, t). length t)") (auto dest: split_at_length)

declare sh_word.simps [simp del]

lemma sh_word_length: "sh_word w t = Some (v, r) \<Longrightarrow> length r < length t"
proof (induction w t rule: sh_word.induct)
  case (1 w t)
  from "1.prems" show ?case
    by (subst (asm) sh_word.simps)
      (fastforce dest: "1.IH" split_at_length split: list.splits if_splits option.splits)
qed

function sh_exports :: "ustring \<Rightarrow> (ustring \<times> ustring) list option" where
  "sh_exports t =
     (if t = [] then Some []
      else
        (case strip_prefix (lit ''export '') t of
           None \<Rightarrow> None
         | Some r \<Rightarrow>
        (case split_at (\<lambda>c. c = EQUALS) r of
           None \<Rightarrow> None
         | Some (k, r') \<Rightarrow>
        (case sh_word [] r' of
           None \<Rightarrow> None
         | Some (v, r'') \<Rightarrow> map_option (\<lambda>kvs. (k, v) # kvs) (sh_exports r'')))))"
  by pat_completeness auto
termination
  by (relation "measure length")
    (auto simp: strip_prefix_def dest!: sh_word_length split_at_length split: if_splits)

declare sh_exports.simps [simp del]

lemma split_char_nonempty [simp]: "split_char d t \<noteq> []"
  by (cases t) (auto split: list.splits)

lemma single_quoted_simps [simp]:
  "single_quoted [] = []"
  "single_quoted (c # v) =
     (if c = SQUOTE then [SQUOTE, BACKSLASH, SQUOTE, SQUOTE] @ single_quoted v else c # single_quoted v)"
  by (cases "split_char SQUOTE v"; simp add: single_quoted_def)+

lemma sh_word_quoted:
  "SQUOTE \<notin> set q \<Longrightarrow>
   sh_word w (SQUOTE # q @ single_quoted v @ SQUOTE # LF # rest) = Some (w @ q @ v, rest)"
proof (induction v arbitrary: w q)
  case Nil
  then have "split_at (\<lambda>c. c = SQUOTE) (q @ SQUOTE # LF # rest) = Some (q, LF # rest)" by (auto intro!: split_at_append)
  then show ?case by (simp add: sh_word.simps [of w] sh_word.simps [of "w @ q"])
next
  case (Cons c v)
  show ?case
  proof (cases "c = SQUOTE")
    case True
    let ?r = "BACKSLASH # SQUOTE # SQUOTE # single_quoted v @ SQUOTE # LF # rest"
    have "split_at (\<lambda>c. c = SQUOTE) (q @ SQUOTE # ?r) = Some (q, ?r)" using Cons.prems by (auto intro!: split_at_append)
    then show ?thesis
      using Cons.IH [of "[]" "w @ q @ [SQUOTE]"] True by (simp add: sh_word.simps [of w] sh_word.simps [of "w @ q"])
  next
    case False
    then show ?thesis using Cons.IH [of "q @ [c]" w] Cons.prems by simp
  qed
qed

definition direnv_line :: "ustring \<times> ustring \<Rightarrow> ustring" where
  "direnv_line kv = lit ''export '' @ fst kv @ [EQUALS, SQUOTE] @ single_quoted (snd kv) @ [SQUOTE, LF]"

lemma render_direnv_loop_Inr:
  assumes "render_direnv_loop out kvs = Inr t"
  shows "t = out @ concat (map direnv_line kvs) \<and> list_all (\<lambda>kv. valid_env_key (fst kv)) kvs \<and>
    (utf8_len out \<le> DIRENV_MAX_SIZE \<longrightarrow> utf8_len t \<le> DIRENV_MAX_SIZE)"
  using assms
proof (induction kvs arbitrary: out)
  case Nil
  then show ?case by simp
next
  case (Cons kv kvs)
  obtain k v where kv: "kv = (k, v)" by (cases kv)
  show ?case
    using Cons.IH [of "out @ direnv_line kv"] Cons.prems
    by (auto simp: kv direnv_line_def Let_def simp del: lit_simps split: if_splits)
qed

lemma sh_exports_rendered:
  assumes "list_all (\<lambda>kv. valid_env_key (fst kv)) kvs"
  shows "sh_exports (concat (map direnv_line kvs)) = Some kvs"
  using assms
proof (induction kvs)
  case Nil
  then show ?case by (simp add: sh_exports.simps)
next
  case (Cons kv kvs)
  obtain k v where kv: "kv = (k, v)" by (cases kv)
  let ?rest = "concat (map direnv_line kvs)"
  let ?w = "SQUOTE # single_quoted v @ SQUOTE # LF # ?rest"
  have e: "concat (map direnv_line (kv # kvs)) = lit ''export '' @ k @ EQUALS # ?w"
    by (simp add: kv direnv_line_def del: lit_simps)
  have "EQUALS \<notin> set k" using env_key_props(2) [of k EQUALS] Cons.prems by (auto simp: kv)
  then have "split_at (\<lambda>c. c = EQUALS) (k @ EQUALS # ?w) = Some (k, ?w)" by (auto intro!: split_at_append)
  then show ?case
    using Cons sh_word_quoted [of "[]" "[]" v ?rest] unfolding e
    by (subst sh_exports.simps) (simp add: kv del: lit_simps)
qed

section \<open>Lines\<close>

lemma render_lines_loop_Inr:
  assumes "render_lines_loop out vs = Inr t"
  shows "t = out @ concat (map (\<lambda>l. l @ [LF]) (map snd vs)) \<and>
    list_all (\<lambda>v. LF \<notin> set (snd v) \<and> CR \<notin> set (snd v) \<and> NUL \<notin> set (snd v)) vs \<and>
    (utf8_len out \<le> LINES_MAX_SIZE \<longrightarrow> utf8_len t \<le> LINES_MAX_SIZE)"
  using assms
proof (induction vs arbitrary: out)
  case Nil
  then show ?case by simp
next
  case (Cons v vs)
  obtain r x where v: "v = (r, x)" by (cases v)
  show ?case
    using Cons.IH [of "out @ x @ [LF]"] Cons.prems
    by (auto simp: v Let_def list_ex_iff split: if_splits)
qed

lemma rendered_lines:
  assumes "render_lines_loop [] vs = Inr t"
  shows "str_lines t = map snd vs"
proof -
  note r = render_lines_loop_Inr [OF assms]
  then have "str_lines (concat (map (\<lambda>l. l @ [LF]) (map snd vs))) = map snd vs"
    by (intro str_lines_concat) (auto simp: list_all_iff, metis last_in_set snd_conv)
  with r show ?thesis by simp
qed

section \<open>INI\<close>

text \<open>The lines of a rendered document, and the entries a reader of the format can give back: the key is not taken
  for a comment or a header, and the value has no white space at its ends.\<close>

type_synonym ini_entry = "ustring option \<times> ustring \<times> ustring"

fun ini_lines :: "bool \<Rightarrow> ustring option \<Rightarrow> ini_entry list \<Rightarrow> ustring list" where
  "ini_lines fresh a [] = []"
| "ini_lines fresh a ((s, k, v) # es) =
     (case s of
        None \<Rightarrow> []
      | Some n \<Rightarrow> if a \<noteq> s then (if fresh then [] else [[]]) @ [[LBRACKET] @ n @ [RBRACKET]] else [])
     @ [k @ lit '' = '' @ v] @ ini_lines False (if s = None then a else s) es"

definition valid_ini_entry :: "ini_entry \<Rightarrow> bool" where
  "valid_ini_entry e \<longleftrightarrow> validate_render_entry (fst e) (fst (snd e)) (snd (snd e)) = Inr ()"

definition readable_ini_entry :: "ini_entry \<Rightarrow> bool" where
  "readable_ini_entry e \<longleftrightarrow> hd (fst (snd e)) \<notin> {LBRACKET, HASH, SEMICOLON} \<and> trim (snd (snd e)) = snd (snd e)"

definition commented_ini_entry :: "ini_entry \<Rightarrow> bool" where
  "commented_ini_entry e \<longleftrightarrow> hd (fst (snd e)) \<in> {HASH, SEMICOLON}"

text \<open>The characters an entry may hold so that its line keeps its shape.\<close>

definition ini_characters :: "ini_entry \<Rightarrow> bool" where
  "ini_characters e \<longleftrightarrow>
     (\<forall>n. fst e = Some n \<longrightarrow> n \<noteq> [] \<and> trim n = n \<and> set n \<inter> {RBRACKET, LF, CR, NUL} = {}) \<and>
     fst (snd e) \<noteq> [] \<and> trim (fst (snd e)) = fst (snd e) \<and> set (fst (snd e)) \<inter> {EQUALS, COLON, LF, CR, NUL} = {} \<and>
     set (snd (snd e)) \<inter> {LF, CR, NUL} = {}"

definition ini_identity :: "ini_entry \<Rightarrow> ustring option \<times> ustring" where
  "ini_identity e = (fst e, fst (snd e))"

definition ini_entry_of :: "ini_entry \<Rightarrow> parsed_ini_entry" where
  "ini_entry_of e = \<lparr>pie_address = entry_address (fst e) (fst (snd e)), pie_section = fst e, pie_key = fst (snd e),
     pie_value = snd (snd e)\<rparr>"

lemma contains_any_Inr: "\<not> contains_any cs t \<longleftrightarrow> set cs \<inter> set t = {}"
  by (auto simp: contains_any_def list_ex_iff)

lemma valid_ini_entry_iff:
  "valid_ini_entry (s, k, v) \<longleftrightarrow>
     (\<forall>n. s = Some n \<longrightarrow> n \<noteq> [] \<and> trim n = n \<and> set [RBRACKET, LF, CR, NUL] \<inter> set n = {}) \<and>
     k \<noteq> [] \<and> trim k = k \<and> set [EQUALS, COLON, LF, CR, NUL] \<inter> set k = {} \<and> set [LF, CR, NUL] \<inter> set v = {}"
  unfolding valid_ini_entry_def validate_render_entry_def contains_any_Inr [symmetric]
  by (auto split: option.splits)

lemma ini_characters_valid: "valid_ini_entry e = ini_characters e"
proof -
  obtain s k v where e: "e = (s, k, v)" by (metis surj_pair)
  show ?thesis unfolding e valid_ini_entry_iff by (auto simp: ini_characters_def)
qed

lemma check_render_entries_Inr:
  "check_render_entries ids es = Inr () \<longleftrightarrow>
     list_all valid_ini_entry es \<and> distinct (map ini_identity es) \<and> ids \<inter> ini_identity ` set es = {}"
proof (induction es arbitrary: ids)
  case Nil
  then show ?case by simp
next
  case (Cons e es)
  obtain s k v where e: "e = (s, k, v)" by (metis surj_pair)
  show ?case
    by (cases "validate_render_entry s k v") (auto simp: e valid_ini_entry_def ini_identity_def Cons.IH)
qed

lemma render_ini_loop_lines:
  assumes "render_ini_loop out a em es = Inr t"
  shows "t = out @ concat (map (\<lambda>l. l @ [LF]) (ini_lines (out = []) a es)) \<and>
    (utf8_len out \<le> INI_MAX_SIZE \<longrightarrow> utf8_len t \<le> INI_MAX_SIZE)"
  using assms
proof (induction es arbitrary: out a em)
  case Nil
  then show ?case by simp
next
  case (Cons e es)
  obtain s k v where e: "e = (s, k, v)" by (metis surj_pair)
  let ?o = "out @ section_header out a s @ k @ lit '' = '' @ v @ [LF]"
  have "?o \<noteq> []" by simp
  then show ?case
    using Cons.IH [of ?o "if s = None then a else s" "em \<or> s \<noteq> None"] Cons.prems
    by (auto simp: e Let_def section_header_def simp del: lit_simps split: if_splits option.splits)
qed

lemma render_ini_loop_no_panic:
  assumes "em \<longrightarrow> list_all (\<lambda>e. fst e \<noteq> None) es"
    and "\<exists>rs ss. es = rs @ ss \<and> list_all (\<lambda>e. fst e = None) rs \<and> list_all (\<lambda>e. fst e \<noteq> None) ss"
  shows "render_ini_loop out a em es \<noteq> Inl (Inl m)"
  using assms
proof (induction es arbitrary: out a em)
  case Nil
  then show ?case by simp
next
  case (Cons e es)
  obtain s k v where e: "e = (s, k, v)" by (metis surj_pair)
  let ?o = "out @ section_header out a s @ k @ lit '' = '' @ v @ [LF]"
  from Cons.prems(2) obtain rs ss where r: "e # es = rs @ ss" "list_all (\<lambda>e. fst e = None) rs" "list_all (\<lambda>e. fst e \<noteq> None) ss"
    by blast
  have "render_ini_loop ?o (if s = None then a else s) (em \<or> s \<noteq> None) es \<noteq> Inl (Inl m)"
  proof (rule Cons.IH)
    show "em \<or> s \<noteq> None \<longrightarrow> list_all (\<lambda>e. fst e \<noteq> None) es"
      using Cons.prems(1) r by (cases rs) (auto simp: e)
    show "\<exists>rs ss. es = rs @ ss \<and> list_all (\<lambda>e. fst e = None) rs \<and> list_all (\<lambda>e. fst e \<noteq> None) ss"
    proof (cases rs)
      case Nil
      with r show ?thesis by (intro exI [of _ "[]"] exI [of _ es]) (cases ss; simp)
    next
      case (Cons x xs)
      with r show ?thesis by auto
    qed
  qed
  then show ?case using Cons.prems(1) by (auto simp: e Let_def simp del: lit_simps)
qed

lemma trim_space_after: "trim k = k \<Longrightarrow> k \<noteq> [] \<Longrightarrow> trim (k @ [32]) = k"
proof -
  assume k: "trim k = k" "k \<noteq> []"
  then have "\<not> is_whitespace (last k)" using trim_ends [of k] by simp
  with k have "trim_end k = k" by (simp add: trim_end_id)
  moreover have "trim_end (k @ [32]) = trim_end k" by (simp add: trim_end_def is_whitespace_def)
  ultimately show ?thesis using k(1) by (simp add: trim_def)
qed

lemma trim_space_before: "trim v = v \<Longrightarrow> trim (32 # v) = v"
proof (cases "v = []")
  case True
  then show ?thesis by (simp add: trim_def trim_start_def trim_end_def is_whitespace_def)
next
  case False
  assume v: "trim v = v"
  with False have "\<not> is_whitespace (last v)" "\<not> is_whitespace (hd v)" using trim_ends [of v] by simp_all
  with False have "trim_end (32 # v) = 32 # v" "trim_start (32 # v) = v"
    by (simp_all add: trim_end_id trim_start_def is_whitespace_def [of 32]) (metis dropWhile_eq_self_iff)
  then show ?thesis by (simp add: trim_def)
qed

lemma ini_line_ends:
  assumes "valid_ini_entry (s, k, v)"
  shows "LF \<notin> set (k @ lit '' = '' @ v)" "last (k @ lit '' = '' @ v) \<noteq> CR"
proof -
  have k: "LF \<notin> set k" and v: "LF \<notin> set v" "CR \<notin> set v" using assms [unfolded valid_ini_entry_iff] by auto
  show "LF \<notin> set (k @ lit '' = '' @ v)" using k v by simp
  have "v \<noteq> [] \<Longrightarrow> last v \<noteq> CR" using v(2) by (metis last_in_set)
  then show "last (k @ lit '' = '' @ v) \<noteq> CR" by auto
qed

lemma ini_entry_line:
  assumes "valid_ini_entry (s, k, v)" "readable_ini_entry (s, k, v)"
  shows "\<not> ini_skips (trim (k @ lit '' = '' @ v))" "\<not> starts_with LBRACKET (trim (k @ lit '' = '' @ v))"
    "\<exists>before after. split_at (\<lambda>c. c = EQUALS \<or> c = COLON) (trim (k @ lit '' = '' @ v)) = Some (before, after) \<and>
       trim before = k \<and> trim after = v"
proof -
  note valid = assms(1) [unfolded valid_ini_entry_iff]
  have k: "k \<noteq> []" "trim k = k" "EQUALS \<notin> set k" "COLON \<notin> set k"
    using valid by auto
  have tv: "trim v = v" and hk: "hd k \<noteq> LBRACKET" "hd k \<noteq> HASH" "hd k \<noteq> SEMICOLON"
    using assms(2) by (simp_all add: readable_ini_entry_def)
  have wk: "\<not> is_whitespace (hd k)" using trim_ends [of k] k by simp
  have t: "trim (k @ lit '' = '' @ v) = (if v = [] then k @ [32, EQUALS] else k @ [32, EQUALS, 32] @ v)"
  proof (cases "v = []")
    case True
    have "trim_end (k @ [32, EQUALS, 32]) = k @ [32, EQUALS]"
      by (simp add: trim_end_def is_whitespace_def)
    then show ?thesis using True k(1) wk by (simp add: trim_def trim_start_id)
  next
    case False
    then have "\<not> is_whitespace (last v)" using trim_ends [of v] tv by simp
    with False k(1) wk show ?thesis by (simp add: trim_id)
  qed
  show "\<not> ini_skips (trim (k @ lit '' = '' @ v))" "\<not> starts_with LBRACKET (trim (k @ lit '' = '' @ v))"
    unfolding t using k(1) hk by (simp_all add: ini_skips_def starts_with_def)
  have sp: "split_at (\<lambda>c. c = EQUALS \<or> c = COLON) ((k @ [32]) @ EQUALS # r) = Some (k @ [32], r)" for r
    using k by (intro split_at_append) auto
  show "\<exists>before after. split_at (\<lambda>c. c = EQUALS \<or> c = COLON) (trim (k @ lit '' = '' @ v)) = Some (before, after) \<and>
       trim before = k \<and> trim after = v"
    using sp [of "[]"] sp [of "32 # v"] trim_space_after [OF k(2,1)] trim_space_before [OF tv] tv
    unfolding t by (cases "v = []") auto
qed

lemma ini_header_line:
  assumes "valid_ini_entry (Some n, k, v)"
  shows "LF \<notin> set ([LBRACKET] @ n @ [RBRACKET])" "trim ([LBRACKET] @ n @ [RBRACKET]) = [LBRACKET] @ n @ [RBRACKET]"
    "\<not> ini_skips ([LBRACKET] @ n @ [RBRACKET])" "starts_with LBRACKET ([LBRACKET] @ n @ [RBRACKET])"
    "parse_section_header ([LBRACKET] @ n @ [RBRACKET]) i = Inr n"
proof -
  have n: "n \<noteq> []" "trim n = n" "RBRACKET \<notin> set n" "LF \<notin> set n" using assms unfolding valid_ini_entry_iff by auto
  show "LF \<notin> set ([LBRACKET] @ n @ [RBRACKET])" using n by simp
  show "trim ([LBRACKET] @ n @ [RBRACKET]) = [LBRACKET] @ n @ [RBRACKET]" by (intro trim_id) (simp add: is_whitespace_def)
  show "\<not> ini_skips ([LBRACKET] @ n @ [RBRACKET])" "starts_with LBRACKET ([LBRACKET] @ n @ [RBRACKET])"
    by (simp_all add: ini_skips_def starts_with_def)
  have "split_at (\<lambda>c. c = RBRACKET) ((LBRACKET # n) @ RBRACKET # []) = Some (LBRACKET # n, [])"
    using n by (intro split_at_append) auto
  then show "parse_section_header ([LBRACKET] @ n @ [RBRACKET]) i = Inr n"
    using n by (simp add: parse_section_header_def trim_id)
qed

lemma parse_ini_entry:
  assumes "valid_ini_entry (s, k, v)" "readable_ini_entry (s, k, v)" "map_of first_lines (s, k) = None"
  shows "parse_ini_lines n s first_lines es ((k @ lit '' = '' @ v) # ls) =
    parse_ini_lines (n + 1) s (((s, k), n + 1) # first_lines) (es @ [ini_entry_of (s, k, v)]) ls"
proof -
  from ini_entry_line(3) [OF assms(1,2)] obtain b a where
    "split_at (\<lambda>c. c = EQUALS \<or> c = COLON) (trim (k @ lit '' = '' @ v)) = Some (b, a)" "trim b = k" "trim a = v" by blast
  moreover have "k \<noteq> []" using assms(1) unfolding valid_ini_entry_iff by simp
  ultimately show ?thesis
    using ini_entry_line(1,2) [OF assms(1,2)] assms(3) by (simp add: Let_def ini_entry_of_def del: lit_simps)
qed

lemma parse_ini_comment:
  assumes "valid_ini_entry (s, k, v)" "commented_ini_entry (s, k, v)"
  shows "parse_ini_lines n a first_lines es ((k @ lit '' = '' @ v) # ls) = parse_ini_lines (n + 1) a first_lines es ls"
proof -
  let ?l = "k @ lit '' = '' @ v"
  have k: "k \<noteq> []" using assms(1) [unfolded valid_ini_entry_iff] by auto
  have hd: "hd k = HASH \<or> hd k = SEMICOLON" using assms(2) by (simp add: commented_ini_entry_def)
  then have "\<not> is_whitespace (hd k)" by (auto simp: is_whitespace_def)
  obtain b where b: "trim_end ?l = k @ b"
  proof -
    have "dropWhile is_whitespace (rev v @ [32, EQUALS, 32] @ rev k) = dropWhile is_whitespace (rev v @ [32, EQUALS]) @ 32 # rev k"
      using dropWhile_append1 [of EQUALS "rev v @ [32, EQUALS]" is_whitespace "32 # rev k"] by (simp add: is_whitespace_def)
    then show thesis using that [of "32 # rev (dropWhile is_whitespace (rev v @ [32, EQUALS]))"] by (simp add: trim_end_def)
  qed
  have "trim ?l = k @ b" using b k \<open>\<not> is_whitespace (hd k)\<close> by (simp add: trim_def trim_start_id)
  then have "ini_skips (trim ?l)" using hd k by (auto simp: ini_skips_def starts_with_def)
  then show ?thesis by (simp add: Let_def del: lit_simps)
qed

lemma readable_not_commented: "readable_ini_entry e \<Longrightarrow> \<not> commented_ini_entry e"
  by (auto simp: readable_ini_entry_def commented_ini_entry_def)

lemma parse_ini_header:
  assumes "valid_ini_entry (Some n, k, v)"
  shows "parse_ini_lines i s first_lines es (([LBRACKET] @ n @ [RBRACKET]) # ls) = parse_ini_lines (i + 1) (Some n) first_lines es ls"
  using ini_header_line [OF assms] by (simp add: Let_def)

lemma parse_ini_blank: "parse_ini_lines i s first_lines es ([] # ls) = parse_ini_lines (i + 1) s first_lines es ls"
  by (simp add: Let_def trim_id ini_skips_def)

lemma parse_ini_lines_rendered:
  assumes "list_all valid_ini_entry es" "list_all (\<lambda>e. commented_ini_entry e \<or> readable_ini_entry e) es" "distinct (map ini_identity es)"
    and "fst ` set first_lines \<inter> ini_identity ` set es = {}"
    and "\<exists>rs ss. es = rs @ ss \<and> list_all (\<lambda>e. fst e = None) rs \<and> list_all (\<lambda>e. fst e \<noteq> None) ss \<and> (a \<noteq> None \<longrightarrow> rs = [])"
  shows "parse_ini_lines n a first_lines acc (ini_lines fresh a es) =
    Inr (acc @ map ini_entry_of (filter (\<lambda>e. \<not> commented_ini_entry e) es))"
  using assms
proof (induction es arbitrary: n a first_lines acc fresh)
  case Nil
  then show ?case by simp
next
  case (Cons e es)
  obtain s k v where e: "e = (s, k, v)" by (metis surj_pair)
  have valid: "valid_ini_entry (s, k, v)" and legible: "commented_ini_entry (s, k, v) \<or> readable_ini_entry (s, k, v)"
    using Cons.prems by (simp_all add: e)
  from Cons.prems(5) obtain rs ss where r: "e # es = rs @ ss" "list_all (\<lambda>e. fst e = None) rs" "list_all (\<lambda>e. fst e \<noteq> None) ss"
    "a \<noteq> None \<longrightarrow> rs = []" by blast
  have a: "s = None \<Longrightarrow> a = None" using r by (cases rs) (auto simp: e)
  have m: "map_of first_lines (s, k) = None" using Cons.prems(4) by (auto simp: e ini_identity_def map_of_eq_None_iff)
  have split: "\<exists>rs ss. es = rs @ ss \<and> list_all (\<lambda>e. fst e = None) rs \<and> list_all (\<lambda>e. fst e \<noteq> None) ss \<and> (s \<noteq> None \<longrightarrow> rs = [])"
  proof (cases rs)
    case Nil
    with r show ?thesis by (intro exI [of _ "[]"] exI [of _ es]) (cases ss; simp)
  next
    case (Cons x xs)
    with r e show ?thesis by (intro exI [of _ xs] exI [of _ ss]) auto
  qed
  let ?seen = "\<lambda>i. if commented_ini_entry e then first_lines else ((s, k), i + 1) # first_lines"
  let ?acc = "if commented_ini_entry e then acc else acc @ [ini_entry_of e]"
  have rest: "parse_ini_lines (i + 1) s (?seen i) ?acc (ini_lines False s es) =
      Inr (acc @ map ini_entry_of (filter (\<lambda>e. \<not> commented_ini_entry e) (e # es)))" for i
  proof -
    have "fst ` set (?seen i) \<inter> ini_identity ` set es = {}"
      using Cons.prems(3,4) by (auto simp: e ini_identity_def)
    with Cons.prems(1-3) have "parse_ini_lines (i + 1) s (?seen i) ?acc (ini_lines False s es) =
        Inr (?acc @ map ini_entry_of (filter (\<lambda>e. \<not> commented_ini_entry e) es))"
      by (intro Cons.IH [OF _ _ _ _ split]) simp_all
    then show ?thesis by simp
  qed
  have step: "parse_ini_lines i s first_lines acc ((k @ lit '' = '' @ v) # ini_lines False s es) =
      parse_ini_lines (i + 1) s (?seen i) ?acc (ini_lines False s es)" for i
    using legible parse_ini_comment [OF valid] parse_ini_entry [OF valid _ m] readable_not_commented [of e]
    by (auto simp: e simp del: lit_simps parse_ini_lines.simps)
  show ?case
  proof (cases s)
    case None
    with a have "a = None" by simp
    with None step [of n] show ?thesis unfolding rest by (simp add: e del: parse_ini_lines.simps lit_simps)
  next
    case (Some m)
    note header = parse_ini_header [OF valid [unfolded Some]]
    show ?thesis
    proof (cases "a = s")
      case True
      with Some step [of n] show ?thesis unfolding rest by (simp add: e del: parse_ini_lines.simps lit_simps)
    next
      case False
      show ?thesis
        using Some False step [of "n + 1"] step [of "n + 2"] header parse_ini_blank
        unfolding rest by (simp add: e del: parse_ini_lines.simps lit_simps)
    qed
  qed
qed

lemma ini_lines_props:
  assumes "list_all valid_ini_entry es" "l \<in> set (ini_lines fresh a es)"
  shows "LF \<notin> set l \<and> (l = [] \<or> last l \<noteq> CR)"
  using assms
proof (induction es arbitrary: fresh a)
  case Nil
  then show ?case by simp
next
  case (Cons e es)
  obtain s k v where e: "e = (s, k, v)" by (metis surj_pair)
  consider "l = []" | n where "s = Some n" "l = [LBRACKET] @ n @ [RBRACKET]" | "l = k @ lit '' = '' @ v"
    | b where "l \<in> set (ini_lines False b es)"
    using Cons.prems(2) by (auto simp: e simp del: lit_simps split: option.splits if_splits)
  then show ?case
    using Cons ini_line_ends [of s k v] ini_header_line(1) [of _ k v]
    by cases (auto simp: e simp del: lit_simps)
qed

lemma roots_first_props:
  "set (roots_first es) = set es" "distinct (map ini_identity es) \<Longrightarrow> distinct (map ini_identity (roots_first es))"
  "list_all P (roots_first es) = list_all P es"
  "\<exists>rs ss. roots_first es = rs @ ss \<and> list_all (\<lambda>e. fst e = None) rs \<and> list_all (\<lambda>e. fst e \<noteq> None) ss"
proof -
  show set: "set (roots_first es) = set es" by (auto simp: roots_first_def)
  then show "list_all P (roots_first es) = list_all P es" by (simp add: list_all_iff)
  show "distinct (map ini_identity es) \<Longrightarrow> distinct (map ini_identity (roots_first es))"
    by (auto simp: roots_first_def distinct_map inj_on_def ini_identity_def)
  show "\<exists>rs ss. roots_first es = rs @ ss \<and> list_all (\<lambda>e. fst e = None) rs \<and> list_all (\<lambda>e. fst e \<noteq> None) ss"
    unfolding roots_first_def by (intro exI conjI) (auto simp: list_all_iff)
qed

lemma parse_rendered_ini:
  assumes "check_render_entries {} es = Inr ()" "render_ini_loop [] None False (roots_first es) = Inr t"
    "list_all (\<lambda>e. commented_ini_entry e \<or> readable_ini_entry e) es"
  shows "parse_ini t = Inr (map ini_entry_of (filter (\<lambda>e. \<not> commented_ini_entry e) (roots_first es)))"
proof -
  from assms(1) have valid: "list_all valid_ini_entry (roots_first es)" and d: "distinct (map ini_identity (roots_first es))"
    by (simp_all add: check_render_entries_Inr roots_first_props)
  have legible: "list_all (\<lambda>e. commented_ini_entry e \<or> readable_ini_entry e) (roots_first es)"
    using assms(3) by (simp add: roots_first_props)
  have "t = concat (map (\<lambda>l. l @ [LF]) (ini_lines True None (roots_first es)))"
    using render_ini_loop_lines [OF assms(2)] by simp
  moreover have "str_lines (concat (map (\<lambda>l. l @ [LF]) (ini_lines True None (roots_first es)))) = ini_lines True None (roots_first es)"
    using ini_lines_props [OF valid] by (rule str_lines_concat)
  ultimately show ?thesis
    using parse_ini_lines_rendered [OF valid legible d, of "[]" None 0 "[]" True] roots_first_props(4) [of es]
    by (simp add: parse_ini_def)
qed

lemma rendered_ini_scalar:
  assumes "list_all (\<lambda>(s, k, v). list_all scalar_value (case s of None \<Rightarrow> [] | Some n \<Rightarrow> n) \<and> list_all scalar_value k \<and>
      list_all scalar_value v) es" "l \<in> set (ini_lines fresh a es)" "c \<in> set l"
  shows "scalar_value c"
  using assms
proof (induction es arbitrary: fresh a)
  case (Cons e es)
  obtain s k v where e: "e = (s, k, v)" by (metis surj_pair)
  show ?case
    using Cons.prems Cons.IH by (cases s) (auto simp: e list_all_iff scalar_ascii split: if_splits)
qed simp

text \<open>What a successful rendering is read back as.\<close>

lemma rendered_ini_read:
  assumes "render_ini_refs es = Inr bs" "list_all (\<lambda>e. commented_ini_entry e \<or> readable_ini_entry e) es"
    and "list_all (\<lambda>(s, k, v). list_all scalar_value (case s of None \<Rightarrow> [] | Some n \<Rightarrow> n) \<and> list_all scalar_value k \<and>
      list_all scalar_value v) es"
  shows "length bs \<le> INI_MAX_SIZE \<and> (\<exists>t. from_utf8 bs = Some t \<and>
    parse_ini t = Inr (map ini_entry_of (filter (\<lambda>e. \<not> commented_ini_entry e) (roots_first es))))"
proof -
  from assms(1) obtain t where c: "check_render_entries {} es = Inr ()"
    and t: "render_ini_loop [] None False (roots_first es) = Inr t" "bs = utf8 t"
    by (auto simp: render_ini_refs_def and_then_eq_Inr split: sum.splits)
  note lines = render_ini_loop_lines [OF t(1)]
  have "scalar_value c" if "l \<in> set (ini_lines True None (roots_first es))" "c \<in> set l" for l c
    using rendered_ini_scalar [OF _ that] assms(3) by (simp add: roots_first_props(3))
  then have "list_all scalar_value t" using lines by (auto simp: list_all_iff scalar_ascii)
  then have "from_utf8 bs = Some t" using t(2) by (simp add: from_utf8_utf8)
  moreover have "length bs \<le> INI_MAX_SIZE" using lines t(2) by (auto simp: utf8_len_def)
  ultimately show ?thesis using parse_rendered_ini [OF c t(1) assms(2)] by blast
qed

lemma render_ini_loop_error: "render_ini_loop out a em es = Inl (Inr e) \<Longrightarrow> e = TooLarge INI_MAX_SIZE"
  by (induction out a em es rule: render_ini_loop.induct) (auto simp: Let_def split: if_splits)

lemma render_ini_refs_error:
  assumes "render_ini_refs es = Inl f" "check_render_entries {} es = Inr ()"
  shows "f = Inr (TooLarge INI_MAX_SIZE)"
  using assms render_ini_loop_no_panic [of False "roots_first es" "[]" None] roots_first_props(4) [of es] render_ini_loop_error
  by (cases f) (fastforce simp: render_ini_refs_def and_then_eq_Inl)+

section \<open>Properties\<close>

text \<open>(C36) Dotenv files are read back exactly. What the renderer produces for any list of variables with
  distinct names, whatever characters the values hold (quotes, backslashes, dollars, line breaks, comment
  signs and white space included), is UTF-8 within the size bound and the parser reads exactly the same
  list from it, in order.\<close>

theorem dotenv_roundtrip:
  assumes "render_dotenv kvs = Inr bs" "distinct (map fst kvs)"
    and "list_all (\<lambda>kv. list_all scalar_value (snd kv)) kvs"
  shows "length bs \<le> DOTENV_MAX_SIZE \<and>
    (\<exists>t. from_utf8 bs = Some t \<and> parse_dotenv t = Inr (map (\<lambda>(k, v). \<lparr>pde_key = k, pde_value = v\<rparr>) kvs))"
proof -
  from assms(1) obtain t where t: "render_dotenv_loop [] kvs = Inr t" "bs = utf8 t"
    by (auto simp: render_dotenv_def render_dotenv_refs_def and_then_eq_Inr)
  then have "length bs \<le> DOTENV_MAX_SIZE" using render_dotenv_loop_Inr [OF t(1)] by (auto simp: utf8_len_def)
  then show ?thesis
    using from_utf8_utf8 [OF rendered_dotenv_scalar [OF t(1) assms(3)]] parse_rendered_dotenv [OF t(1) assms(2)] t(2) by blast
qed

theorem dotenv_roundtrip_witness:
  "\<exists>bs t. render_dotenv [(lit ''A'', [34, 10, 92, 36, 233]), (lit ''B'', lit '' # x'')] = Inr bs \<and> from_utf8 bs = Some t \<and>
     parse_dotenv t = Inr [\<lparr>pde_key = lit ''A'', pde_value = [34, 10, 92, 36, 233]\<rparr>, \<lparr>pde_key = lit ''B'', pde_value = lit '' # x''\<rparr>]"
proof -
  let ?kvs = "[(lit ''A'', [34, 10, 92, 36, 233]), (lit ''B'', lit '' # x'')]"
  have "is_ok (render_dotenv ?kvs)"
    by (simp add: render_dotenv_def render_dotenv_refs_def valid_env_key_def is_ascii_alphabetic_def push_value_def escape_char_def
        is_safe_unquoted_def is_ascii_alphanumeric_def utf8_len_def utf8_char_def DOTENV_MAX_SIZE_def)
  then obtain bs where bs: "render_dotenv ?kvs = Inr bs" by (auto simp: is_ok_iff)
  from dotenv_roundtrip [OF bs] show ?thesis using bs by (auto simp: scalar_value_def)
qed

text \<open>Direnv assignments are inert. The shell text produced for any variables reads back as exactly these
  assignments in a reader that fails on every character the shell would interpret: no value can end its
  quotes, start a command or an expansion, or touch another variable.\<close>

theorem direnv_inert:
  assumes "render_direnv_refs kvs = Inr bs" "list_all (\<lambda>kv. list_all scalar_value (snd kv)) kvs"
  shows "length bs \<le> DIRENV_MAX_SIZE \<and> (\<exists>t. from_utf8 bs = Some t \<and> sh_exports t = Some kvs)"
proof -
  from assms(1) obtain t where t: "render_direnv_loop [] kvs = Inr t" "bs = utf8 t"
    by (auto simp: render_direnv_refs_def and_then_eq_Inr)
  note r = render_direnv_loop_Inr [OF t(1)]
  have "list_all scalar_value k" if "valid_env_key k" for k
    using env_key_props(2) [OF that] by (fastforce simp: list_all_iff scalar_value_def)
  moreover have "list_all scalar_value v \<Longrightarrow> list_all scalar_value (single_quoted v)" for v
    by (induction v) (simp_all add: scalar_ascii)
  moreover have "list_all scalar_value (lit ''export '')" by (simp add: scalar_ascii)
  ultimately have "list_all scalar_value (direnv_line kv)" if "kv \<in> set kvs" for kv
    using that r assms(2) by (simp add: direnv_line_def list_all_iff scalar_ascii del: lit_simps) blast
  then have "list_all scalar_value t" using r by (auto simp: list_all_iff)
  then have "from_utf8 bs = Some t" using t(2) by (simp add: from_utf8_utf8)
  moreover have "sh_exports t = Some kvs" using r sh_exports_rendered [of kvs] by simp
  moreover have "length bs \<le> DIRENV_MAX_SIZE" using r t(2) by (auto simp: utf8_len_def)
  ultimately show ?thesis by blast
qed

theorem direnv_inert_witness:
  "\<exists>bs t. render_direnv_refs [(lit ''A'', [39, 59, 36, 40, 39, 10])] = Inr bs \<and> from_utf8 bs = Some t \<and>
     sh_exports t = Some [(lit ''A'', [39, 59, 36, 40, 39, 10])]"
proof -
  have "is_ok (render_direnv_refs [(lit ''A'', [39, 59, 36, 40, 39, 10])])"
    by (simp add: render_direnv_refs_def valid_env_key_def is_ascii_alphabetic_def utf8_len_def utf8_char_def DIRENV_MAX_SIZE_def)
  then obtain bs where bs: "render_direnv_refs [(lit ''A'', [39, 59, 36, 40, 39, 10])] = Inr bs" by (auto simp: is_ok_iff)
  from direnv_inert [OF bs] show ?thesis using bs by (auto simp: scalar_value_def)
qed

text \<open>(C37) INI documents are read back exactly, for every entry the format can carry: what the renderer accepts is
  parsed back as the same entries with their sections, root entries first, whatever the order and mixture of
  sections it was given; keys that begin like a comment or a header and values with white space at their
  ends are the only ones excluded. The panic of the renderer on a root entry behind a section does not occur.\<close>

theorem ini_roundtrip:
  assumes "render_ini_refs es = r" "list_all readable_ini_entry es"
    and "list_all (\<lambda>(s, k, v). list_all scalar_value (case s of None \<Rightarrow> [] | Some n \<Rightarrow> n) \<and> list_all scalar_value k \<and>
      list_all scalar_value v) es"
  shows "case r of
      Inr bs \<Rightarrow> length bs \<le> INI_MAX_SIZE \<and>
        (\<exists>t. from_utf8 bs = Some t \<and> parse_ini t = Inr (map ini_entry_of (roots_first es)))
    | Inl (Inr e) \<Rightarrow> True
    | Inl (Inl panic) \<Rightarrow> False"
proof (cases r)
  case (Inl f)
  then show ?thesis
    using assms(1) render_ini_loop_no_panic [of False "roots_first es" "[]" None] roots_first_props(4) [of es]
    by (cases f) (auto simp: render_ini_refs_def and_then_eq_Inl split: sum.splits)
next
  case (Inr bs)
  have "filter (\<lambda>e. \<not> commented_ini_entry e) (roots_first es) = roots_first es"
    using assms(2) by (auto simp: filter_id_conv roots_first_props(1) list_all_iff dest: readable_not_commented)
  moreover have "list_all (\<lambda>e. commented_ini_entry e \<or> readable_ini_entry e) es" using assms(2) by (simp add: list_all_iff)
  ultimately show ?thesis using Inr rendered_ini_read [of es bs] assms(1,3) by simp
qed

theorem ini_roundtrip_witness:
  "\<exists>bs t. render_ini_refs [(Some (lit ''s''), lit ''k'', lit ''x=1''), (None, lit ''r'', [])] = Inr bs \<and> from_utf8 bs = Some t \<and>
     parse_ini t = Inr (map ini_entry_of [(None, lit ''r'', []), (Some (lit ''s''), lit ''k'', lit ''x=1'')])"
proof -
  let ?es = "[(Some (lit ''s''), lit ''k'', lit ''x=1''), (None, lit ''r'', [])]"
  have trims: "trim (lit ''s'') = lit ''s''" "trim (lit ''k'') = lit ''k''" "trim (lit ''r'') = lit ''r''" "trim (lit ''x=1'') = lit ''x=1''" "trim [] = []"
    by (simp_all add: trim_id is_whitespace_def)
  have "is_ok (render_ini_refs ?es)"
    using trims by (simp add: render_ini_refs_def validate_render_entry_def contains_any_def roots_first_def section_header_def
        utf8_len_def utf8_char_def INI_MAX_SIZE_def)
  then obtain bs where bs: "render_ini_refs ?es = Inr bs" by (auto simp: is_ok_iff)
  have "list_all readable_ini_entry ?es" using trims by (simp add: readable_ini_entry_def)
  from ini_roundtrip [OF bs this] show ?thesis using bs by (auto simp: scalar_value_def roots_first_def)
qed

text \<open>(C38) The INI renderer loses entries without a word. Take any document whose names and values hold no
  character that breaks a line, a header or a separator, with distinct entries, in which every entry is
  readable or has a key that begins with a comment sign. The renderer objects to none of its entries (the size of
  the whole is its only possible complaint), and the program's own INI parser reads back exactly the
  entries whose key does not begin with a comment sign: the others are gone, in every section.\<close>

theorem ini_projection_loses_entry:
  assumes "list_all ini_characters es" "distinct (map ini_identity es)"
    and "list_all (\<lambda>e. commented_ini_entry e \<or> readable_ini_entry e) es"
    and "list_all (\<lambda>(s, k, v). list_all scalar_value (case s of None \<Rightarrow> [] | Some n \<Rightarrow> n) \<and> list_all scalar_value k \<and>
      list_all scalar_value v) es"
  shows "case render_ini_refs es of
      Inr bs \<Rightarrow> (\<exists>t. from_utf8 bs = Some t \<and>
        parse_ini t = Inr (map ini_entry_of (filter (\<lambda>e. \<not> commented_ini_entry e) (roots_first es))))
    | Inl f \<Rightarrow> f = Inr (TooLarge INI_MAX_SIZE)"
proof (cases "render_ini_refs es")
  case (Inl f)
  have "check_render_entries {} es = Inr ()"
    using assms(1,2) by (simp add: check_render_entries_Inr list_all_iff ini_characters_valid)
  with Inl render_ini_refs_error show ?thesis by simp
next
  case (Inr bs)
  with rendered_ini_read [OF _ assms(3,4)] show ?thesis by simp
qed

theorem ini_projection_loses_entry_witness:
  "\<exists>bs t. render_ini_refs [(None, lit '';token'', lit ''x''), (Some (lit ''s''), lit ''k'', lit ''y'')] = Inr bs \<and>
     from_utf8 bs = Some t \<and> parse_ini t = Inr [ini_entry_of (Some (lit ''s''), lit ''k'', lit ''y'')]"
proof -
  let ?es = "[(None, lit '';token'', lit ''x''), (Some (lit ''s''), lit ''k'', lit ''y'')]"
  have trims: "trim (lit '';token'') = lit '';token''" "trim (lit ''s'') = lit ''s''" "trim (lit ''k'') = lit ''k''"
    "trim (lit ''y'') = lit ''y''"
    by (simp_all add: trim_id is_whitespace_def)
  have "is_ok (render_ini_refs ?es)"
    using trims by (simp add: render_ini_refs_def validate_render_entry_def contains_any_def roots_first_def section_header_def
        utf8_len_def utf8_char_def INI_MAX_SIZE_def)
  then obtain bs where bs: "render_ini_refs ?es = Inr bs" by (auto simp: is_ok_iff)
  have "list_all ini_characters ?es" "distinct (map ini_identity ?es)"
    "list_all (\<lambda>e. commented_ini_entry e \<or> readable_ini_entry e) ?es"
    "filter (\<lambda>e. \<not> commented_ini_entry e) (roots_first ?es) = [(Some (lit ''s''), lit ''k'', lit ''y'')]"
    using trims by (simp_all add: ini_characters_def ini_identity_def commented_ini_entry_def readable_ini_entry_def roots_first_def)
  with ini_projection_loses_entry [of ?es] bs show ?thesis by (auto simp: scalar_value_def)
qed

text \<open>Line surfaces keep their framing: the rendered bytes are within the bound and their lines are exactly
  the given values, in order; a value with a line break or a NUL byte is refused.\<close>

theorem lines_roundtrip:
  assumes "list_all (\<lambda>v. list_all scalar_value (snd v)) vs"
  shows "case render_lines_refs vs of
      Inr bs \<Rightarrow> length bs \<le> LINES_MAX_SIZE \<and> (\<exists>t. from_utf8 bs = Some t \<and> str_lines t = map snd vs)
    | Inl e \<Rightarrow> e = TooLarge LINES_MAX_SIZE \<or>
        (\<exists>(r, v) \<in> set vs. e = InvalidLineValue r \<and> (LF \<in> set v \<or> CR \<in> set v \<or> NUL \<in> set v))"
proof (cases "render_lines_refs vs")
  case (Inl e)
  have "render_lines_loop out vs = Inl e \<Longrightarrow> e = TooLarge LINES_MAX_SIZE \<or>
      (\<exists>(r, v) \<in> set vs. e = InvalidLineValue r \<and> (LF \<in> set v \<or> CR \<in> set v \<or> NUL \<in> set v))" for out
    by (induction vs arbitrary: out) (fastforce simp: Let_def list_ex_iff split: if_splits)+
  then show ?thesis using Inl by (auto simp: render_lines_refs_def and_then_eq_Inl)
next
  case (Inr bs)
  then obtain t where t: "render_lines_loop [] vs = Inr t" "bs = utf8 t" by (auto simp: render_lines_refs_def and_then_eq_Inr)
  note r = render_lines_loop_Inr [OF t(1)]
  have "list_all scalar_value t" using r assms by (auto simp: list_all_iff scalar_ascii)
  then have "from_utf8 bs = Some t" using t(2) by (simp add: from_utf8_utf8)
  moreover have "length bs \<le> LINES_MAX_SIZE" using r t(2) by (auto simp: utf8_len_def)
  ultimately show ?thesis using Inr rendered_lines [OF t(1)] by simp
qed

theorem lines_roundtrip_witness:
  "\<exists>bs t. render_lines_refs [(lit ''r'', lit ''a:b''), (lit ''s'', [])] = Inr bs \<and> from_utf8 bs = Some t \<and> str_lines t = [lit ''a:b'', []]"
proof -
  let ?vs = "[(lit ''r'', lit ''a:b''), (lit ''s'', [])]"
  have "is_ok (render_lines_refs ?vs)" by (simp add: render_lines_refs_def utf8_len_def utf8_char_def LINES_MAX_SIZE_def)
  then obtain bs where "render_lines_refs ?vs = Inr bs" by (auto simp: is_ok_iff)
  with lines_roundtrip [of ?vs] show ?thesis by (auto simp: scalar_value_def)
qed

end
