(* ===== verification/Surface_Access.thy ===== *)
theory Surface_Access
  imports Surface_Resolver Surface_Roundtrips Catalog_Validation
begin

text \<open>
  What an access to a surface returns: the bytes are fixed by the catalog snapshot and the frozen versions the
  snapshot lists, whatever other clients do to the store meanwhile; plans of the same semantic revision return the
  same; the size announced for a format is never exceeded; a committed write still satisfies every resource.
\<close>

section \<open>Congruences\<close>

lemma try_map_cong: "(\<And>x. x \<in> set xs \<Longrightarrow> f x = g x) \<Longrightarrow> try_map f xs = try_map g xs"
  by (induction xs) (simp_all cong: sum.case_cong)

lemma try_fold_cong: "(\<And>s x. x \<in> set xs \<Longrightarrow> f s x = g s x) \<Longrightarrow> try_fold f s xs = try_fold g s xs"
  by (induction xs arbitrary: s) (auto split: sum.splits)

lemma try_fold_invariant:
  assumes "try_fold f s xs = Inr s'" and "P s" and step: "\<And>s x s1. x \<in> set xs \<Longrightarrow> P s \<Longrightarrow> f s x = Inr s1 \<Longrightarrow> P s1"
  shows "P s'"
  using assms
proof (induction xs arbitrary: s)
  case (Cons x xs)
  then obtain s1 where "f s x = Inr s1" "try_fold f s1 xs = Inr s'" by (auto split: sum.splits)
  moreover from this Cons.prems (2) Cons.prems (3) [of x s s1] have "P s1" by simp
  ultimately show ?case using Cons.IH [of s1] Cons.prems (3) by auto
qed simp

lemma and_then_cong: "r = r' \<Longrightarrow> (\<And>x. r' = Inr x \<Longrightarrow> f x = g x) \<Longrightarrow> and_then r f = and_then r' g"
  by (cases r') simp_all

lemma sort_key_unique:
  assumes "set xs = set ys" and "distinct xs" and "distinct ys" and "inj_on f (set xs)"
  shows "sort_key f xs = sort_key f ys"
proof -
  have sorted: "map f (sort_key f xs) = map f (sort_key f ys)"
    using assms by (intro sorted_distinct_set_unique) (auto simp: distinct_map)
  have "inj_on f (set (sort_key f xs) \<union> set (sort_key f ys))" using assms by simp
  with sorted show ?thesis by (rule map_inj_on)
qed

lemma list_all2_both:
  "list_all2 P xs ys \<Longrightarrow> list_all2 Q xs ys \<Longrightarrow> x \<in> set xs \<Longrightarrow> \<exists>y \<in> set ys. P x y \<and> Q x y"
  by (induction rule: list_all2_induct) auto

section \<open>Reading at the versions that were pinned\<close>

text \<open>Every moment of the store follows the ones before by mutations that keep the secrets of \<open>K\<close>.\<close>

definition store_history_ok :: "ustring set \<Rightarrow> store_times \<Rightarrow> bool" where
  "store_history_ok K store \<longleftrightarrow> store_inv K (store 0) \<and> (\<forall>t. (store_step K)\<^sup>*\<^sup>* (store t) (store (Suc t)))"

lemma history_steps:
  assumes "store_history_ok K store" and "t \<le> u"
  shows "(store_step K)\<^sup>*\<^sup>* (store t) (store u)"
  using assms (2)
proof (induction u rule: dec_induct)
  case (step n)
  with assms (1) show ?case by (auto simp: store_history_ok_def intro: rtranclp_trans)
qed simp

lemma history_reads_agree:
  assumes h: "store_history_ok K store" and "get_version (store t) i n = Inr b" "get_version (store u) i n = Inr c" "i \<in> K"
  shows "b = c"
proof -
  have inv: "store_inv K (store x)" for x
    using age_dir.inv_steps history_steps [OF h, of 0 x] h by (simp add: store_history_ok_def)
  show ?thesis
    using assms (2,3,4) age_dir.reads_agree [OF history_steps [OF h] inv] by (metis linorder_le_cases)
qed

lemma history_packages:
  assumes "store_history_ok K store"
  shows "sw_packages (store t) = sw_packages (store 0)"
proof -
  have "store_packages_ok (sw_packages (store 0))" using assms by (simp add: store_history_ok_def store_inv_def)
  have "(store_step K)\<^sup>*\<^sup>* w w' \<Longrightarrow> store_packages_ok (sw_packages w) \<Longrightarrow> sw_packages w' = sw_packages w" for w w'
    by (induction rule: rtranclp_induct) (use store_step_packages in fastforce)+
  with history_steps [OF assms] \<open>store_packages_ok _\<close> show ?thesis by blast
qed

fun frozen_content :: "content_source \<Rightarrow> pinned_content \<Rightarrow> bool" where
  "frozen_content (StoreSource i) c \<longleftrightarrow> (\<exists>n. c = PinnedStoreContent i \<lparr>pv_secret_id = i, pv_version = n\<rparr>)"
| "frozen_content (LiteralSource b) c \<longleftrightarrow> c = PinnedLiteral b"
| "frozen_content (CommandSource argv) c \<longleftrightarrow> (\<exists>ctx. c = PinnedCommand argv ctx)"

lemma pin_frozen: "pin w ctx s = Inr c \<Longrightarrow> frozen_content s c"
  by (cases s) (auto split: sum.splits option.splits)

lemma frozen_secret:
  "p \<in> set ps \<Longrightarrow> snd p = PinnedStoreContent i pv \<Longrightarrow> pv_secret_id pv = i \<Longrightarrow> i \<in> fv_secret_id ` set (frozen_versions ps)"
  by (induction ps) (auto simp: frozen_versions_def List.map_filter_def)

lemma pin_all_frozen:
  "pin_all store t ctx xs = Inr ps \<Longrightarrow> list_all2 (\<lambda>x p. fst p = fst x \<and> frozen_content (snd x) (snd p)) xs ps"
proof (induction xs arbitrary: t ps)
  case (Cons x xs)
  then show ?case by (cases x) (auto simp: and_then_eq_Inr dest: pin_frozen)
qed simp

text \<open>Two pinnings of the same sources that froze the same versions are the same.\<close>

lemma same_frozen:
  assumes "list_all2 (\<lambda>x p. fst p = fst x \<and> frozen_content (snd x) (snd p)) xs ps"
    and "list_all2 (\<lambda>x p. fst p = fst x \<and> frozen_content (snd x) (snd p)) xs qs"
    and "\<forall>x \<in> set xs. disposition_of (snd x) \<noteq> Computed" and "frozen_versions ps = frozen_versions qs"
  shows "ps = qs"
  using assms
proof (induction xs arbitrary: ps qs)
  case (Cons x xs)
  then obtain p ps' q qs' where pq: "ps = p # ps'" "qs = q # qs'" by (auto simp: list_all2_Cons1)
  obtain r s where x: "x = (r, s)" by (cases x)
  from Cons.prems pq x have p: "frozen_content s (snd p)" "fst p = r" and q: "frozen_content s (snd q)" "fst q = r"
    and comp: "disposition_of s \<noteq> Computed" by auto
  from p q comp Cons.prems (4) pq have "p = q" "frozen_versions ps' = frozen_versions qs'"
    by (cases s; cases p; cases q; auto simp: frozen_versions_def List.map_filter_def)+
  with Cons pq show ?case by simp
qed simp

lemma read_all_same:
  assumes h: "store_history_ok K store" and "\<forall>p \<in> set ps. (\<forall>i pv. snd p = PinnedStoreContent i pv \<longrightarrow> i \<in> K) \<and> (\<forall>argv ctx. snd p \<noteq> PinnedCommand argv ctx)"
    and "read_all store t run ps d = Inr d1" and "read_all store u run' ps d = Inr d2"
  shows "d1 = d2"
  using assms (2-)
proof (induction ps arbitrary: t u d)
  case (Cons p ps)
  obtain r c where p: "p = (r, c)" by (cases p)
  from Cons.prems p obtain s1 e1 s2 e2 where
    r1: "read_pinned (store t) run c = Inr s1" "decode_resource r (ssn_bytes s1) = Inr e1"
      "read_all store (Suc t) run ps (hm_insert (res_id r) e1 d) = Inr d1"
    and r2: "read_pinned (store u) run' c = Inr s2" "decode_resource r (ssn_bytes s2) = Inr e2"
      "read_all store (Suc u) run' ps (hm_insert (res_id r) e2 d) = Inr d2"
    by (auto simp: and_then_eq_Inr)
  have "ssn_bytes s1 = ssn_bytes s2"
  proof (cases c)
    case (PinnedStoreContent i v)
    with Cons.prems (1) p have "i \<in> K" by auto
    with PinnedStoreContent r1 (1) r2 (1) history_reads_agree [OF h] show ?thesis by (fastforce simp: and_then_eq_Inr)
  next
    case (PinnedLiteral b)
    with r1 (1) r2 (1) show ?thesis by auto
  next
    case (PinnedCommand argv ctx)
    with Cons.prems (1) p show ?thesis by auto
  qed
  with r1 r2 have "e1 = e2" by simp
  with Cons.IH [of "Suc t" "hm_insert (res_id r) e1 d" "Suc u"] Cons.prems (1) r1 (3) r2 (3) show ?case by simp
qed simp

lemma resolve_resources_same:
  assumes h: "store_history_ok K store" and K: "fv_secret_id ` set vs \<subseteq> K"
    and r1: "resolve_resources store t run cat ids path = Inr (d1, vs)"
    and r2: "resolve_resources store u run' cat ids path = Inr (d2, vs)"
  shows "d1 = d2"
proof -
  obtain cs1 ps1 where c1: "try_map (compile_resource (sw_packages (store t)) cat) (first_occurrences {} ids) = Inr cs1"
    and p1: "pin_all store t (projection_ctx path) cs1 = Inr ps1"
    and d1: "read_all store (t + length ps1) run ps1 [] = Inr d1" "vs = frozen_versions ps1"
    using r1 by (auto simp: resolve_resources_def and_then_eq_Inr)
  obtain cs2 ps2 where c2: "try_map (compile_resource (sw_packages (store u)) cat) (first_occurrences {} ids) = Inr cs2"
    and p2: "pin_all store u (projection_ctx path) cs2 = Inr ps2"
    and d2: "read_all store (u + length ps2) run' ps2 [] = Inr d2" "vs = frozen_versions ps2"
    using r2 by (auto simp: resolve_resources_def and_then_eq_Inr)
  have "sw_packages (store t) = sw_packages (store u)" using history_packages [OF h, of t] history_packages [OF h, of u] by simp
  then have cs: "cs2 = cs1" using c1 c2 by simp
  have stored: "\<forall>x \<in> set cs1. disposition_of (snd x) \<noteq> Computed"
  proof
    fix x assume "x \<in> set cs1"
    with c1 [unfolded try_map_Inr] obtain i where "compile_resource (sw_packages (store t)) cat i = Inr x"
      by (auto dest: list_all2_right)
    then show "disposition_of (snd x) \<noteq> Computed" by (auto simp: compile_resource_def and_then_eq_Inr split: if_splits)
  qed
  have ps: "ps1 = ps2"
    using same_frozen [OF pin_all_frozen [OF p1] pin_all_frozen [OF p2 [unfolded cs]] stored] d1 (2) d2 (2) by simp
  have "\<forall>p \<in> set ps1. (\<forall>i pv. snd p = PinnedStoreContent i pv \<longrightarrow> i \<in> K) \<and> (\<forall>argv ctx. snd p \<noteq> PinnedCommand argv ctx)"
  proof (intro ballI conjI allI impI)
    fix p assume p: "p \<in> set ps1"
    from list_all2_right [OF pin_all_frozen [OF p1] this] obtain x where x: "x \<in> set cs1" "frozen_content (snd x) (snd p)" by blast
    with stored show "snd p \<noteq> PinnedCommand argv ctx" for argv ctx by (cases "snd x") auto
    fix i pv assume i: "snd p = PinnedStoreContent i pv"
    with x(2) have "pv_secret_id pv = i" by (cases "snd x") auto
    with p i have "i \<in> fv_secret_id ` set (frozen_versions ps1)" by (rule frozen_secret)
    with K d1(2) show "i \<in> K" by blast
  qed
  from read_all_same [OF h this] d1 d2 ps show ?thesis by blast
qed

lemma environment_document_same:
  assumes h: "store_history_ok K store" and K: "fv_secret_id ` set vs \<subseteq> K"
    and r1: "resolve_environment_document store t run cat i = Inr (d1, vs)"
    and r2: "resolve_environment_document store u run' cat i = Inr (d2, vs)"
  shows "d1 = d2"
proof -
  obtain ex c1 e1 where ex: "resolve_catalog_surface cat i = Inr ex"
    and c1: "resolve_resources store t run cat (map re_resource_id ex) i = Inr (c1, vs)"
    and e1: "try_map (environment_entry c1) ex = Inr e1" "d1 = EnvironmentDocument e1"
    using r1 by (auto simp: resolve_environment_document_def and_then_eq_Inr)
  obtain c2 e2 where c2: "resolve_resources store u run' cat (map re_resource_id ex) i = Inr (c2, vs)"
    and e2: "try_map (environment_entry c2) ex = Inr e2" "d2 = EnvironmentDocument e2"
    using r2 ex by (auto simp: resolve_environment_document_def and_then_eq_Inr)
  from resolve_resources_same [OF h K c1 c2] e1 e2 show ?thesis by simp
qed

lemma binding_document_same:
  assumes h: "store_history_ok K store" and K: "fv_secret_id ` set vs \<subseteq> K"
    and r1: "resolve_binding_document store t run cat s spec = Inr (d1, vs)"
    and r2: "resolve_binding_document store u run' cat s spec = Inr (d2, vs)"
  shows "d1 = d2"
proof -
  obtain e ids bs c1 e1 where e: "find_environment cat (srf_environment_id s) = Some e" "srf_input s = BindingsInput ids"
    and bs: "try_map (surface_binding cat e spec) ids = Inr bs"
    and c1: "resolve_resources store t run cat (map bnd_resource_id (sort_key binding_order (List.map_filter id bs))) (srf_id s) = Inr (c1, vs)"
    and e1: "try_map (binding_entries cat c1) (sort_key binding_order (List.map_filter id bs)) = Inr e1" "d1 = BindingsDocument (concat e1)"
    using r1 by (cases "srf_input s") (auto simp: resolve_binding_document_def and_then_eq_Inr Let_def)
  obtain c2 e2 where
    c2: "resolve_resources store u run' cat (map bnd_resource_id (sort_key binding_order (List.map_filter id bs))) (srf_id s) = Inr (c2, vs)"
    and e2: "try_map (binding_entries cat c2) (sort_key binding_order (List.map_filter id bs)) = Inr e2" "d2 = BindingsDocument (concat e2)"
    using r2 e bs by (auto simp: resolve_binding_document_def and_then_eq_Inr Let_def)
  from resolve_resources_same [OF h K c1 c2] e1 e2 show ?thesis by simp
qed

lemma resolve_document_same:
  assumes h: "store_history_ok K store" and K: "fv_secret_id ` set vs \<subseteq> K"
    and r1: "resolve_document store t run cat s format = Inr (d1, vs)"
    and r2: "resolve_document store u run' cat s format = Inr (d2, vs)"
  shows "d1 = d2"
proof (cases "fsp_input (format_spec_of format) = EnvironmentProjection")
  case True
  with r1 r2 show ?thesis by (auto simp: resolve_document_def intro: environment_document_same [OF h K])
next
  case False
  with r1 r2 show ?thesis
    by (cases "fsp_input (format_spec_of format)") (auto simp: resolve_document_def intro: binding_document_same [OF h K])
qed

lemma render_from_snapshot_Inr:
  assumes "render_from_snapshot store t run cat i = Inr a"
  obtains s format d r where "find_surface cat i = Some s" and "srf_kind s = FileSurface (Composed format)"
    and "resolve_document store t run cat s format = Inr (d, sn_versions a)" and "render_document format d = Inr r"
    and "sn_bytes a = rs_bytes r" and "sn_entries a = rs_entries r"
proof -
  obtain s where s: "find_surface cat i = Some s" using assms by (auto simp: render_from_snapshot_def and_then_eq_Inr)
  obtain format where f: "srf_kind s = FileSurface (Composed format)"
    using assms s by (cases "srf_kind s" rule: composed_format.cases) (auto simp: render_from_snapshot_def)
  show ?thesis using assms s f that by (auto simp: render_from_snapshot_def and_then_eq_Inr)
qed

text \<open>
  (C15) What a surface returned is identified by the versions it lists: two accesses to a surface under the same
  catalog snapshot that froze the same versions return the same bytes and entries, at whatever moments they ran,
  whatever other clients do to the store before, between the calls of the resolver and after, and whatever commands
  would print, as long as the secrets of the listed versions are not deleted or removed, nor given a blank environment
  or an empty version identifier (a secret deleted and registered again may number other bytes as version 1).
\<close>

theorem frozen_versions_determine_bytes:
  assumes "store_history_ok K store" and "fv_secret_id ` set (sn_versions a) \<subseteq> K"
    and "render_from_snapshot store t run cat surface_id = Inr a"
    and "render_from_snapshot store u run' cat surface_id = Inr b"
    and "sn_versions a = sn_versions b"
  shows "a = b"
proof -
  from assms (3) obtain s format d r where a: "find_surface cat surface_id = Some s" "srf_kind s = FileSurface (Composed format)"
    "resolve_document store t run cat s format = Inr (d, sn_versions a)" "render_document format d = Inr r"
    "sn_bytes a = rs_bytes r" "sn_entries a = rs_entries r"
    by (rule render_from_snapshot_Inr)
  from assms (4) a (1,2) obtain d' r' where b: "resolve_document store u run' cat s format = Inr (d', sn_versions b)"
    "render_document format d' = Inr r'" "sn_bytes b = rs_bytes r'" "sn_entries b = rs_entries r'"
    by (auto elim!: render_from_snapshot_Inr)
  from resolve_document_same [OF assms (1,2) a (3)] b (1) assms (5) have "d = d'" by simp
  with a b assms (5) show ?thesis by simp
qed


section \<open>The announced size\<close>

lemma render_document_size:
  assumes "render_document format d = Inr r"
  shows "length (rs_bytes r) \<le> renderer_max_size format"
proof (cases format)
  case DotenvFormat
  then show ?thesis using assms
    by (cases d) (auto simp: and_then_eq_Inr render_dotenv_refs_def utf8_len_def dest!: render_dotenv_loop_Inr)
next
  case DirenvFormat
  then show ?thesis using assms
    by (cases d) (auto simp: and_then_eq_Inr render_direnv_refs_def utf8_len_def dest!: render_direnv_loop_Inr)
next
  case IniFormat
  with assms obtain vs where "render_ini_refs vs = Inr (rs_bytes r)"
    by (cases d) (auto simp: and_then_eq_Inr Let_def)
  then obtain out where "render_ini_loop [] None False (roots_first vs) = Inr out" "rs_bytes r = utf8 out"
    by (cases "check_render_entries {} vs") (auto simp: render_ini_refs_def and_then_eq_Inr)
  with IniFormat show ?thesis by (auto simp: utf8_len_def dest!: render_ini_loop_lines)
next
  case LinesFormat
  then show ?thesis using assms
    by (cases d) (auto simp: and_then_eq_Inr render_lines_refs_def utf8_len_def dest!: render_lines_loop_Inr)
qed

text \<open>A surface that renders has a composed format, and its bytes never exceed the size the file system announces
  for that format.
\<close>

theorem rendered_within_announced_size:
  assumes "render_from_snapshot store t run cat surface_id = Inr a"
  shows "\<exists>s format. find_surface cat surface_id = Some s \<and> srf_kind s = FileSurface (Composed format) \<and>
    length (sn_bytes a) \<le> renderer_max_size format"
  using assms by (auto elim!: render_from_snapshot_Inr dest: render_document_size)

section \<open>The semantic revision\<close>

definition unique_ids :: "catalog_snapshot \<Rightarrow> bool" where
  "unique_ids cat \<longleftrightarrow> distinct (map bnd_id (cat_bindings cat)) \<and> distinct (map res_id (cat_resources cat))"

text \<open>Two snapshots that mean the same for a surface.\<close>

definition agree_on :: "catalog_snapshot \<Rightarrow> catalog_snapshot \<Rightarrow> ustring \<Rightarrow> bool" where
  "agree_on cat cat' surface_id \<longleftrightarrow>
     (\<exists>m. surface_meaning_of cat surface_id = Inr m \<and> surface_meaning_of cat' surface_id = Inr m)"

lemma collect_map_find:
  assumes "distinct (map f xs)"
  shows "collect_map (map (\<lambda>x. (f x, x)) xs) k = find (\<lambda>x. f x = k) xs"
proof (cases "\<exists>x \<in> set xs. f x = k")
  case True
  then obtain x where "x \<in> set xs" "f x = k" by blast
  with collect_map_distinct [OF assms] find_distinct [OF assms] show ?thesis by metis
next
  case False
  then have "find (\<lambda>x. f x = k) xs = None" by (auto simp: find_None_iff)
  moreover have "collect_map (map (\<lambda>x. (f x, x)) xs) k = None"
    using False by (auto simp: collect_map_def map_of_eq_None_iff)
  ultimately show ?thesis by simp
qed

lemma find_binding_mem:
  assumes "unique_ids cat"
  shows "find_binding cat i = Inr b \<longleftrightarrow> b \<in> set (cat_bindings cat) \<and> bnd_id b = i"
  using assms find_distinct [of bnd_id "cat_bindings cat" b]
  by (auto simp: find_binding_def unique_ids_def find_Some_iff)

lemma meaning_facts:
  assumes "agree_on cat cat' i"
  obtains s e where "find_surface cat i = Some s" and "find_surface cat' i = Some s"
    and "find_environment cat (srf_environment_id s) = Some e" and "find_environment cat' (srf_environment_id s) = Some e"
    and "\<And>b. b \<in> set (unwrap_or (input_binding_ids (srf_input s)) []) \<Longrightarrow>
      \<exists>x. find_binding cat b = Inr x \<and> find_binding cat' b = Inr x \<and> (\<exists>r. find_resource cat (bnd_resource_id x) = Inr r \<and> find_resource cat' (bnd_resource_id x) = Inr r)"
proof -
  from assms obtain m where m: "surface_meaning_of cat i = Inr m" and m': "surface_meaning_of cat' i = Inr m"
    by (auto simp: agree_on_def)
  let ?ids = "unwrap_or (input_binding_ids (srf_input (sm_surface m))) []"
  let ?rids = "sorted_list_of_set (set (map bnd_resource_id (sm_bindings m)) \<union>
    (case srf_input (sm_surface m) of ResourceInput r \<Rightarrow> {r} | _ \<Rightarrow> {}))"
  have facts: "find_surface c i = Some (sm_surface m)" "find_environment c (srf_environment_id (sm_surface m)) = Some (sm_environment m)"
    "list_all2 (\<lambda>b x. find_binding c b = Inr x) ?ids (sm_bindings m)"
    "list_all2 (\<lambda>r x. find_resource c r = Inr x) ?rids (sm_resources m)"
    if "surface_meaning_of c i = Inr m" for c
    using that by (auto simp: surface_meaning_of_def and_then_eq_Inr Let_def try_map_Inr)
  have fin: "finite (set (map bnd_resource_id (sm_bindings m)) \<union> (case srf_input (sm_surface m) of ResourceInput r \<Rightarrow> {r} | _ \<Rightarrow> {}))"
    by (auto split: surface_input.splits)
  show ?thesis
  proof (rule that [OF facts (1) [OF m] facts (1) [OF m'] facts (2) [OF m] facts (2) [OF m']])
    fix b assume "b \<in> set ?ids"
    from list_all2_both [OF facts (3) [OF m] facts (3) [OF m'] this]
    obtain x where x: "x \<in> set (sm_bindings m)" "find_binding cat b = Inr x" "find_binding cat' b = Inr x" by blast
    then have "bnd_resource_id x \<in> set ?rids" using fin by simp
    from list_all2_both [OF facts (4) [OF m] facts (4) [OF m'] this] x (2,3)
    show "\<exists>x. find_binding cat b = Inr x \<and> find_binding cat' b = Inr x \<and>
        (\<exists>r. find_resource cat (bnd_resource_id x) = Inr r \<and> find_resource cat' (bnd_resource_id x) = Inr r)"
      by blast
  qed
qed

text \<open>The bindings of a surface look the same in both snapshots.\<close>

definition same_binding :: "catalog_snapshot \<Rightarrow> catalog_snapshot \<Rightarrow> ustring \<Rightarrow> bool" where
  "same_binding cat cat' i \<longleftrightarrow>
     (\<exists>b r. find_binding cat i = Inr b \<and> find_binding cat' i = Inr b \<and>
        resources_by_id cat (bnd_resource_id b) = Some r \<and> resources_by_id cat' (bnd_resource_id b) = Some r)"

lemma applying_bindings_same:
  assumes u: "unique_ids cat" "unique_ids cat'" and same: "\<And>i. i \<in> ids \<Longrightarrow> same_binding cat cat' i"
  shows "applying_bindings cat p e (Some ids) = applying_bindings cat' p e (Some ids)"
  unfolding applying_bindings_def
proof (rule sort_key_unique)
  have "b \<in> set (cat_bindings cat) \<longleftrightarrow> b \<in> set (cat_bindings cat')" if "bnd_id b \<in> ids" for b
  proof -
    from same [OF that] obtain b0 where "find_binding cat (bnd_id b) = Inr b0" "find_binding cat' (bnd_id b) = Inr b0"
      by (auto simp: same_binding_def)
    with find_binding_mem [OF u (1), of "bnd_id b" b] find_binding_mem [OF u (2), of "bnd_id b" b] show ?thesis by simp
  qed
  then show "set (filter (binding_applies p e (Some ids)) (cat_bindings cat)) = set (filter (binding_applies p e (Some ids)) (cat_bindings cat'))"
    by (auto simp: binding_applies_def)
  show "distinct (filter (binding_applies p e (Some ids)) (cat_bindings cat))" "distinct (filter (binding_applies p e (Some ids)) (cat_bindings cat'))"
    using u by (auto simp: unique_ids_def distinct_map)
  show "inj_on binding_order (set (filter (binding_applies p e (Some ids)) (cat_bindings cat)))"
    using u (1) unfolding unique_ids_def distinct_map inj_on_def binding_order_def by simp
qed

lemma resolve_exports_same:
  assumes u: "unique_ids cat" "unique_ids cat'" and same: "\<And>i. i \<in> ids \<Longrightarrow> same_binding cat cat' i"
  shows "resolve_exports cat p e (Some ids) = resolve_exports cat' p e (Some ids)"
proof -
  have "export_binding cat st b = export_binding cat' st b" if "b \<in> set (applying_bindings cat p e (Some ids))" for st b
  proof -
    from that have "b \<in> set (cat_bindings cat)" "bnd_id b \<in> ids" by (auto simp: applying_bindings_def binding_applies_def)
    with same [OF this (2)] find_binding_mem [OF u (1), of "bnd_id b" b] show ?thesis
      by (auto simp: same_binding_def export_binding_def get_resource_def)
  qed
  then have "try_fold (export_binding cat) st (applying_bindings cat p e (Some ids)) =
      try_fold (export_binding cat') st (applying_bindings cat p e (Some ids))" for st
    by (rule try_fold_cong)
  then show ?thesis
    using applying_bindings_same [OF assms] by (simp add: resolve_exports_def applying_bindings_def)
qed

lemma export_resources:
  assumes "resolve_exports cat p e included = Inr exports" and "x \<in> set exports"
  shows "\<exists>b \<in> set (applying_bindings cat p e included). re_resource_id x = bnd_resource_id b"
proof -
  let ?P = "\<lambda>st. \<forall>x \<in> set (fst st). \<exists>b \<in> set (applying_bindings cat p e included). re_resource_id x = bnd_resource_id b"
  obtain k where fold: "try_fold (export_binding cat) ([], \<lambda>_. None) (applying_bindings cat p e included) = Inr (exports, k)"
    using assms (1) by (auto simp: resolve_exports_def applying_bindings_def and_then_eq_Inr)
  have "?P (exports, k)"
  proof (rule try_fold_invariant [OF fold])
    fix st b st1
    assume b: "b \<in> set (applying_bindings cat p e included)" and st: "?P st" and run: "export_binding cat st b = Inr st1"
    then obtain r where r: "resources_by_id cat (bnd_resource_id b) = Some r"
      and inner: "try_fold (export_entry b r) st (selected_entries b r) = Inr st1"
      by (auto simp: export_binding_def get_resource_def and_then_eq_Inr)
    have id: "res_id r = bnd_resource_id b"
      using r by (auto simp: resources_by_id_def collect_map_def dest!: map_of_SomeD)
    show "?P st1"
    proof (rule try_fold_invariant [where P = ?P, OF inner st])
      fix st x st1 assume st: "?P st" and "export_entry b r st x = Inr st1"
      moreover obtain exs k where "st = (exs, k)" by (cases st)
      ultimately have "set (fst st1) \<subseteq> {y. re_resource_id y = res_id r} \<union> set (fst st)"
        by (auto simp: export_entry_def export_of_def Let_def split: option.splits prod.splits if_splits
            dest!: set_update_subset_insert [THEN subsetD])
      with st b id show "?P st1" by fastforce
    qed
  qed simp
  with assms (2) show ?thesis by simp
qed


lemma resolve_resources_cong:
  assumes "\<And>i. i \<in> set ids \<Longrightarrow> resources_by_id cat i = resources_by_id cat' i"
  shows "resolve_resources store t run cat ids path = resolve_resources store t run cat' ids path"
proof -
  have sub: "set (first_occurrences seen ids) \<subseteq> set ids" for seen
    by (induction seen ids rule: first_occurrences.induct) auto
  have "try_map (compile_resource pk cat) (first_occurrences {} ids) = try_map (compile_resource pk cat') (first_occurrences {} ids)" for pk
  proof (rule try_map_cong)
    fix x assume "x \<in> set (first_occurrences {} ids)"
    with sub assms have "resources_by_id cat x = resources_by_id cat' x" by blast
    then show "compile_resource pk cat x = compile_resource pk cat' x" by (simp add: compile_resource_def)
  qed
  then show ?thesis by (simp add: resolve_resources_def)
qed

lemma environment_document_cong:
  assumes u: "unique_ids cat" "unique_ids cat'" and s: "find_surface cat i = Some s" "find_surface cat' i = Some s"
    and e: "find_environment cat (srf_environment_id s) = Some e" "find_environment cat' (srf_environment_id s) = Some e"
    and same: "\<And>b. b \<in> set (unwrap_or (input_binding_ids (srf_input s)) []) \<Longrightarrow> same_binding cat cat' b"
  shows "resolve_environment_document store t run cat i = resolve_environment_document store t run cat' i"
proof -
  have exports: "resolve_catalog_surface cat i = resolve_catalog_surface cat' i"
    using s e same by (cases "srf_input s") (auto simp: resolve_catalog_surface_def intro!: resolve_exports_same [OF u])
  have "resources_by_id cat (re_resource_id x) = resources_by_id cat' (re_resource_id x)"
    if ex: "resolve_catalog_surface cat i = Inr exports" and x: "x \<in> set exports" for exports x
  proof -
    from ex s e obtain ids where ids: "srf_input s = BindingsInput ids"
      "resolve_exports cat (env_project_id e) (Some (env_id e)) (Some (set ids)) = Inr exports"
      by (auto simp: resolve_catalog_surface_def split: if_splits surface_input.splits)
    from export_resources [OF ids (2) x] obtain b where b: "b \<in> set (cat_bindings cat)" "bnd_id b \<in> set ids" "re_resource_id x = bnd_resource_id b"
      by (auto simp: applying_bindings_def binding_applies_def)
    with same [of "bnd_id b"] ids (1) find_binding_mem [OF u (1), of "bnd_id b" b] show ?thesis by (auto simp: same_binding_def)
  qed
  then show ?thesis
    unfolding resolve_environment_document_def exports [symmetric]
    by (intro and_then_cong refl) (auto intro!: resolve_resources_cong)
qed

lemma surface_binding_same:
  "same_binding cat cat' b \<Longrightarrow> surface_binding cat e spec b = surface_binding cat' e spec b"
  by (auto simp: same_binding_def surface_binding_def find_binding_def)

lemma surface_binding_Some:
  "surface_binding cat e spec i = Inr (Some b) \<Longrightarrow> find_binding cat i = Inr b"
  by (auto simp: surface_binding_def find_binding_def and_then_eq_Inr split: if_splits)

lemma binding_document_cong:
  assumes e: "find_environment cat (srf_environment_id s) = Some e" "find_environment cat' (srf_environment_id s) = Some e"
    and same: "\<And>b. b \<in> set (unwrap_or (input_binding_ids (srf_input s)) []) \<Longrightarrow> same_binding cat cat' b"
  shows "resolve_binding_document store t run cat s spec = resolve_binding_document store t run cat' s spec"
proof (cases "srf_input s")
  case (BindingsInput ids)
  have taken: "try_map (surface_binding cat e spec) ids = try_map (surface_binding cat' e spec) ids"
    using same BindingsInput by (intro try_map_cong surface_binding_same) simp
  have res: "resources_by_id cat (bnd_resource_id b) = resources_by_id cat' (bnd_resource_id b)"
    if "try_map (surface_binding cat e spec) ids = Inr bs" and "b \<in> set (List.map_filter id bs)" for bs b
  proof -
    from that (2) have "Some b \<in> set bs" by (auto simp: List.map_filter_def)
    with that (1) obtain i where i: "i \<in> set ids" "surface_binding cat e spec i = Inr (Some b)"
      unfolding try_map_Inr by (auto dest: list_all2_right)
    with same [of i] BindingsInput surface_binding_Some [OF i (2)] show ?thesis by (auto simp: same_binding_def)
  qed
  have "resolve_resources store t run cat (map bnd_resource_id (sort_key binding_order (List.map_filter id bs))) (srf_id s) =
      resolve_resources store t run cat' (map bnd_resource_id (sort_key binding_order (List.map_filter id bs))) (srf_id s)"
    "try_map (binding_entries cat d) (sort_key binding_order (List.map_filter id bs)) =
      try_map (binding_entries cat' d) (sort_key binding_order (List.map_filter id bs))"
    if "try_map (surface_binding cat e spec) ids = Inr bs" for bs d
    using res [OF that] by (auto intro!: resolve_resources_cong try_map_cong simp: binding_entries_def)
  then show ?thesis
    using e BindingsInput by (simp add: resolve_binding_document_def taken [symmetric] Let_def cong: and_then_cong)
qed (use e in \<open>simp_all add: resolve_binding_document_def\<close>)

lemma render_agree:
  assumes u: "unique_ids cat" "unique_ids cat'" and agree: "agree_on cat cat' i"
  shows "render_from_snapshot store t run cat i = render_from_snapshot store t run cat' i"
proof -
  obtain s e where s: "find_surface cat i = Some s" "find_surface cat' i = Some s"
    and e: "find_environment cat (srf_environment_id s) = Some e" "find_environment cat' (srf_environment_id s) = Some e"
    and bs: "\<And>b. b \<in> set (unwrap_or (input_binding_ids (srf_input s)) []) \<Longrightarrow>
      \<exists>x. find_binding cat b = Inr x \<and> find_binding cat' b = Inr x \<and> (\<exists>r. find_resource cat (bnd_resource_id x) = Inr r \<and> find_resource cat' (bnd_resource_id x) = Inr r)"
    by (rule meaning_facts [OF agree]) blast
  have same: "same_binding cat cat' b" if "b \<in> set (unwrap_or (input_binding_ids (srf_input s)) [])" for b
    using bs [OF that] u by (fastforce simp: same_binding_def find_resource_def resources_by_id_def unique_ids_def collect_map_find)
  have i: "srf_id s = i" using s (1) by (auto simp: find_surface_def find_Some_iff)
  have "resolve_document store t run cat s format = resolve_document store t run cat' s format" for format
    using environment_document_cong [OF u s e same] binding_document_cong [OF e same] i
    by (cases "fsp_input (format_spec_of format)") (simp_all add: resolve_document_def)
  then show ?thesis by (simp add: render_from_snapshot_def s split: surface_kind.split file_backing.split)
qed

lemma registry_plan:
  assumes "registry_get (registry_from_snapshot revision cat) i = Some p"
  shows "ap_snapshot p = cat \<and> srf_id (ap_surface p) = i \<and> revision cat i = Inr (ap_semantic_revision p)"
proof -
  from assms have "(i, p) \<in> set (List.map_filter (surface_plan revision cat) (cat_surfaces cat))"
    by (auto simp: registry_get_def registry_from_snapshot_def file_surfaces_def collect_map_def dest!: map_of_SomeD)
  then show ?thesis by (auto simp: List.map_filter_def surface_plan_def split: option.splits sum.splits)
qed


text \<open>
  (C14) What was approved is what is read: two access plans of a surface with the same semantic revision, taken
  from two versions of the catalog (with unique identifiers, as its keys ensure), return the same bytes, versions,
  entries or error from every state of the store, whatever else differs between the catalogs. The revision is a
  digest, so the meanings of this surface in the two catalogs must not collide in their encoding.
\<close>

theorem same_revision_same_content:
  assumes u: "unique_ids cat" "unique_ids cat'"
    and p: "registry_get (registry_from_snapshot (catalog_surface_semantic_revision to_vec sha256) cat) i = Some p"
    and p': "registry_get (registry_from_snapshot (catalog_surface_semantic_revision to_vec sha256) cat') i = Some p'"
    and rev: "ap_semantic_revision p = ap_semantic_revision p'"
    and no_collision: "\<And>m m' c c'. surface_meaning_of cat i = Inr m \<Longrightarrow> surface_meaning_of cat' i = Inr m' \<Longrightarrow>
      to_vec m = Some c \<Longrightarrow> to_vec m' = Some c' \<Longrightarrow> to_hex (sha256 c) = to_hex (sha256 c') \<Longrightarrow> m = m'"
  shows "render_access_plan store t run p = render_access_plan store t run p'"
proof -
  note plan = registry_plan [OF p] and plan' = registry_plan [OF p']
  from plan obtain m c where m: "surface_meaning_of cat i = Inr m" "to_vec m = Some c" "to_hex (sha256 c) = ap_semantic_revision p"
    by (auto simp: catalog_surface_semantic_revision_def and_then_eq_Inr)
  from plan' obtain m' c' where m': "surface_meaning_of cat' i = Inr m'" "to_vec m' = Some c'" "to_hex (sha256 c') = ap_semantic_revision p'"
    by (auto simp: catalog_surface_semantic_revision_def and_then_eq_Inr)
  from no_collision [OF m (1) m' (1) m (2) m' (2)] m m' rev have "agree_on cat cat' i" by (auto simp: agree_on_def)
  from render_agree [OF u this] plan plan' show ?thesis by (simp add: render_access_plan_def)
qed

section \<open>Committed writes\<close>

lemma decode_keeps_addresses:
  assumes "decode_resource r b = Inr d" and "res_shape r = KeyValueSet"
  shows "mset (map de_address d) = mset (map es_address (res_entries r))"
proof -
  from assms obtain e where e: "d = map (\<lambda>x. x\<lparr>de_key := Option.bind (collect_map (map (\<lambda>e. (es_address e, es_key e)) (res_entries r)) (de_address x)) id\<rparr>) e"
    and same: "sort (schema_of_specs (res_entries r)) = sort (schema_of_decoded e)"
    by (auto simp: decode_resource_def and_then_eq_Inr Let_def same_schema_def split: if_splits)
  from arg_cong [OF same, of mset] have "mset (schema_of_specs (res_entries r)) = mset (schema_of_decoded e)" by simp
  from arg_cong [OF this, of "image_mset fst"] show ?thesis
    by (simp add: e schema_of_specs_def schema_of_decoded_def comp_def image_mset.compositionality flip: mset_map)
qed

lemma commit_cases:
  assumes "commit_secret_version (Some (Inr cat)) alive i b c w = ((c', w'), r)"
  shows "(\<exists>e. validate_secret_bytes cat i b = Inl e \<and> r = Inl e \<and> w' = w \<and> c' = c) \<or>
    validate_secret_bytes cat i b = Inr () \<and> (\<exists>q. append_version i b w = (w', q) \<and> r = map_err StoreFailed q \<and>
      c' = (if is_ok q then notify_committed alive c else c))"
  using assms
  by (cases "append_version i b w"; cases "validate_secret_bytes cat i b"; cases "snd (append_version i b w)")
    (auto simp: commit_secret_version_def run_committed_def is_ok_iff)

lemma validated_decodes:
  assumes "validate_secret_bytes cat i b = Inr ()" and "x \<in> set (cat_resources cat)" and "references_secret i x"
  shows "\<exists>d. decode_resource x b = Inr d \<and>
    (res_shape x = KeyValueSet \<longrightarrow> mset (map de_address d) = mset (map es_address (res_entries x)))"
proof -
  from assms have "validate_resource_bytes cat b x = Inr ()" by (simp add: validate_secret_bytes_def try_each_Inr)
  then obtain d where "decode_resource x b = Inr d" by (auto simp: validate_resource_bytes_def and_then_eq_Inr)
  with decode_keeps_addresses show ?thesis by blast
qed


section \<open>A sample surface\<close>

text \<open>One lines file over one stored secret, in a store whose secret has one version.\<close>

definition sample_resource :: resource where
  "sample_resource = \<lparr>res_id = [114], res_name = [114], res_kind = SecretKind, res_shape = Scalar, res_codec = OpaqueCodec,
     res_default_env_key = None, res_entries = [\<lparr>es_address = [118], es_label = [118], es_key = None, es_sensitive = True\<rparr>],
     res_source = SecretRef [65] [], res_enforcement = Prompt, res_metadata = empty_metadata,
     res_origin = \<lparr>ro_kind = ManualOrigin, ro_sources = []\<rparr>\<rparr>"

definition sample_surface :: surface where
  "sample_surface = \<lparr>srf_id = [115], srf_environment_id = [101], srf_name = [115], srf_kind = FileSurface (Composed LinesFormat),
     srf_path = None, srf_input = BindingsInput [[98]], srf_enforcement = Prompt, srf_position = 0\<rparr>"

definition sample_project :: project where
  "sample_project = \<lparr>prj_id = [112], prj_name = [112], prj_path = ''/p'', prj_default_environment_id = None\<rparr>"

definition sample_environment :: environment where
  "sample_environment = \<lparr>env_id = [101], env_project_id = [112], env_name = [101], env_position = 0\<rparr>"

definition sample_binding :: binding where
  "sample_binding = binding_default\<lparr>bnd_id := [98], bnd_project_id := [112], bnd_resource_id := [114]\<rparr>"

definition sample_catalog :: "project list \<Rightarrow> catalog_snapshot" where
  "sample_catalog others = \<lparr>cat_projects = sample_project # others, cat_checkouts = [], cat_environments = [sample_environment],
     cat_resources = [sample_resource], cat_endpoints = [], cat_bindings = [sample_binding], cat_surfaces = [sample_surface]\<rparr>"

lemma sample_fields:
  "cat_projects (sample_catalog others) = sample_project # others" "cat_environments (sample_catalog others) = [sample_environment]"
  "cat_resources (sample_catalog others) = [sample_resource]" "cat_bindings (sample_catalog others) = [sample_binding]"
  "cat_surfaces (sample_catalog others) = [sample_surface]" "cat_endpoints (sample_catalog others) = []"
  by (simp_all add: sample_catalog_def)

lemma sample_kind: "srf_kind sample_surface = FileSurface (Composed LinesFormat)" "srf_id sample_surface = [115]"
  by (simp_all add: sample_surface_def)

lemma sample_source: "res_source sample_resource = SecretRef [65] []"
  by (simp add: sample_resource_def)

definition sample_store :: store_times where
  "sample_store t = example_after None"

lemma sample_history: "store_history_ok K sample_store"
  by (simp add: store_history_ok_def sample_store_def example_after_inv)

lemma sample_record: "\<exists>r. store_record (example_after None) [65] = Inr (Some r) \<and> sr_current_version r = 1"
proof -
  have "sw_integrity (example_after None) = None" by (simp add: example_after_def touch_def example_store_def)
  then show ?thesis
    by (simp add: store_record_def read_verified_heads_def example_after_heads record_from_heads_def find_version_def
      with_row_def example_heads_def example_row_def)
qed

lemma sample_parse: "sp_parse_uuid (sw_packages (example_after None)) [65] = Some [65]"
  by (simp add: example_after_def touch_def example_store_def example_store_packages_def)

lemma sample_decode: "decode_resource sample_resource [7] = Inr [\<lparr>de_address = [118], de_section = None, de_key = None, de_value = [7]\<rparr>]"
  by (simp add: decode_resource_def sample_resource_def decode_source_def opaque_decode_def)

lemma sample_render:
  "render_from_snapshot sample_store t run (sample_catalog others) [115] =
     Inr \<lparr>sn_bytes = [7, 10], sn_versions = [\<lparr>fv_resource_id = [114], fv_secret_id = [65], fv_version = 1\<rparr>],
       sn_entries = [\<lparr>rem_audit_key = [118], rem_binding_id = [98], rem_resource_id = [114]\<rparr>]\<rparr>"
proof -
  obtain r where r: "store_record (example_after None) [65] = Inr (Some r)" "sr_current_version r = 1"
    using sample_record by blast
  have by_id: "resources_by_id (sample_catalog others) [114] = Some sample_resource"
    by (simp add: resources_by_id_def collect_map_def sample_catalog_def sample_resource_def)
  have surf: "find_surface (sample_catalog others) [115] = Some sample_surface"
    by (simp add: find_surface_def sample_catalog_def sample_surface_def)
  have bind: "surface_binding (sample_catalog others) sample_environment (format_spec_of LinesFormat) [98] = Inr (Some sample_binding)"
    using by_id by (simp add: surface_binding_def sample_fields sample_binding_def sample_environment_def binding_default_def scope_applies_def
      validate_binding_input_def sample_resource_def selection_contains_def)
  have res: "resolve_resources sample_store t run (sample_catalog others) [[114]] [115] =
      Inr ([([114], [\<lparr>de_address = [118], de_section = None, de_key = None, de_value = [7]\<rparr>])],
        [\<lparr>fv_resource_id = [114], fv_secret_id = [65], fv_version = 1\<rparr>])"
    using r sample_decode example_after_get [of None]
    by (simp add: resolve_resources_def sample_store_def compile_resource_def by_id parse_secret_id_def sample_parse
      frozen_versions_def List.map_filter_def hm_insert_def sample_source)
       (simp add: sample_resource_def)
  have ent: "binding_entries (sample_catalog others) [([114], [\<lparr>de_address = [118], de_section = None, de_key = None, de_value = [7]\<rparr>])]
      sample_binding = Inr [\<lparr>rbe_address = [118], rbe_key = None, rbe_section = None, rbe_binding_id = [98], rbe_resource_id = [114], rbe_value = [7]\<rparr>]"
    using by_id by (simp add: binding_entries_def sample_binding_def binding_default_def sample_resource_def hm_get_def selection_contains_def)
  have doc: "resolve_document sample_store t run (sample_catalog others) sample_surface LinesFormat =
      Inr (BindingsDocument [\<lparr>rbe_address = [118], rbe_key = None, rbe_section = None, rbe_binding_id = [98], rbe_resource_id = [114], rbe_value = [7]\<rparr>],
        [\<lparr>fv_resource_id = [114], fv_secret_id = [65], fv_version = 1\<rparr>])"
    using bind res ent
    by (simp add: resolve_document_def resolve_binding_document_def sample_surface_def find_environment_def sample_fields sample_environment_def
      List.map_filter_def)
       (simp add: sample_binding_def binding_default_def)
  show ?thesis
    by (simp add: render_from_snapshot_def surf doc sample_kind render_lines_refs_def binding_metadata_def utf8_char_def utf8_len_def
      LINES_MAX_SIZE_def)
qed

lemma sample_unique: "unique_ids (sample_catalog others)"
  by (simp add: unique_ids_def sample_fields)

lemma sample_meaning:
  "surface_meaning_of (sample_catalog others) [115] =
     Inr \<lparr>sm_surface = sample_surface, sm_environment = sample_environment, sm_project = sample_project,
       sm_bindings = [sample_binding], sm_resources = [sample_resource], sm_endpoints = []\<rparr>"
  by (simp add: surface_meaning_of_def find_surface_def sample_fields sample_surface_def find_environment_def sample_environment_def
      sample_project_def find_binding_def sample_binding_def binding_default_def find_resource_def sample_resource_def List.map_filter_def)

theorem frozen_versions_determine_bytes_witness:
  "\<exists>a. render_from_snapshot sample_store 0 (\<lambda>_ _. Inl []) (sample_catalog []) [115] = Inr a \<and>
     render_from_snapshot sample_store 5 (\<lambda>_ _. Inr [1]) (sample_catalog []) [115] = Inr a"
  using frozen_versions_determine_bytes [OF sample_history [of UNIV] subset_UNIV sample_render sample_render] by (simp add: sample_render)

theorem rendered_within_announced_size_witness:
  "length [7, 10 :: nat] \<le> renderer_max_size LinesFormat"
  using rendered_within_announced_size [OF sample_render [of 0 "\<lambda>_ _. Inl []" "[]"]]
  by (simp add: find_surface_def sample_fields sample_kind del: renderer_max_size.simps)

theorem same_revision_same_content_witness:
  "\<exists>p p'. registry_get (registry_from_snapshot (catalog_surface_semantic_revision (\<lambda>_. Some []) id) (sample_catalog [])) [115] = Some p \<and>
     registry_get (registry_from_snapshot (catalog_surface_semantic_revision (\<lambda>_. Some []) id) (sample_catalog [sample_project\<lparr>prj_id := [113]\<rparr>])) [115] = Some p' \<and>
     p \<noteq> p' \<and> render_access_plan sample_store 0 (\<lambda>_ _. Inl []) p = render_access_plan sample_store 0 (\<lambda>_ _. Inl []) p'"
proof -
  let ?rev = "catalog_surface_semantic_revision (\<lambda>_. Some []) id"
  have plan: "registry_get (registry_from_snapshot ?rev (sample_catalog others)) [115] =
      Some \<lparr>ap_surface = sample_surface, ap_backing = ComposedBacking LinesFormat, ap_semantic_revision = [], ap_snapshot = sample_catalog others\<rparr>" for others
    by (simp add: registry_get_def registry_from_snapshot_def file_surfaces_def collect_map_def sample_fields List.map_filter_def
      surface_plan_def surface_backing_of_def sample_kind catalog_surface_semantic_revision_def sample_meaning to_hex_def)
  have "render_access_plan sample_store 0 (\<lambda>_ _. Inl []) \<lparr>ap_surface = sample_surface, ap_backing = ComposedBacking LinesFormat,
      ap_semantic_revision = [], ap_snapshot = sample_catalog []\<rparr> =
    render_access_plan sample_store 0 (\<lambda>_ _. Inl []) \<lparr>ap_surface = sample_surface, ap_backing = ComposedBacking LinesFormat,
      ap_semantic_revision = [], ap_snapshot = sample_catalog [sample_project\<lparr>prj_id := [113]\<rparr>]\<rparr>"
    by (rule same_revision_same_content [OF sample_unique sample_unique plan plan]) (simp_all add: sample_meaning)
  with plan [of "[]"] plan [of "[sample_project\<lparr>prj_id := [113]\<rparr>]"] show ?thesis by (simp add: sample_catalog_def)
qed


end
