(* ===== verification/Revision_Records.thy ===== *)
theory Revision_Records
  imports Managed_Policy Catalog_Domain
begin

text \<open>
  \<open>floria-replication/src/record.rs\<close>: encrypted entity revisions, the commits that group them, and the
  \<open>RevisionSet\<close> that reports heads, pending revisions and the readiness of a commit. A \<open>BTreeMap\<close> is an
  association list with increasing keys, a \<open>BTreeSet\<close> a set that is listed in increasing order;
  \<open>is_uuid\<close> stands for \<open>uuid::Uuid::parse_str(..).is_ok()\<close>. The two depth-first walks are total functions:
  their termination is proved here, from the fact that no call forgets a visited id.
\<close>

section \<open>Vocabulary\<close>

datatype record_error =
    UnsupportedFormat nat
  | InvalidUuid string ustring
  | EmptyCiphertext
  | InvalidKeyGeneration
  | SelfParent ustring
  | DuplicateParent ustring ustring
  | InvalidObjectDigest ustring
  | DuplicateObject ustring ustring
  | RevisionCollision ustring
  | ParentEntityMismatch ustring ustring ustring ustring
  | Cycle ustring
  | EmptyCommit
  | EmptyCommitCiphertext
  | DuplicateCommitRevision ustring ustring
  | CommitDuplicateEntity ustring ustring
  | RevisionCommitMismatch ustring ustring ustring
  | RevisionMissingFromCommit ustring ustring
  | CommitCollision ustring
  | CommitCycle ustring
  | RecordPanic string

definition RECORD_FORMAT_VERSION :: nat where "RECORD_FORMAT_VERSION = 2"

record immutable_object_ref =
  io_digest :: ustring
  io_ciphertext_size :: nat

record entity_revision =
  er_format_version :: nat
  er_entity_id :: ustring
  er_revision_id :: ustring
  er_commit_id :: ustring
  er_key_generation :: nat
  er_parents :: "ustring list"
  er_ciphertext :: bytes
  er_object_refs :: "immutable_object_ref list"

record revision_commit =
  rc_format_version :: nat
  rc_commit_id :: ustring
  rc_key_generation :: nat
  rc_revision_ids :: "ustring list"
  rc_ciphertext :: bytes

datatype commit_state =
    ReadyCommit
  | PendingCommit (missing_revisions: "ustring list") (missing_commits: "ustring list")
where
  "missing_revisions ReadyCommit = []"
| "missing_commits ReadyCommit = []"

fun is_ready :: "commit_state \<Rightarrow> bool" where
  "is_ready ReadyCommit = True"
| "is_ready (PendingCommit _ _) = False"

datatype insert_result = Inserted | AlreadyPresent

record pending_revision =
  pr_entity_id :: ustring
  pr_revision_id :: ustring
  pr_missing_parents :: "ustring list"

record revision_analysis =
  ra_heads :: "(ustring \<times> ustring list) list"
  ra_pending :: "pending_revision list"

type_synonym 'v btree = "(ustring \<times> 'v) list"

type_synonym revision_set = "entity_revision btree"

section \<open>Validation and canonical form\<close>

definition validate_uuid :: "(ustring \<Rightarrow> bool) \<Rightarrow> string \<Rightarrow> ustring \<Rightarrow> record_error + unit" where
  "validate_uuid is_uuid field v = (if is_uuid v then Inr () else Inl (InvalidUuid field v))"

definition lowercase_hex_byte :: "nat \<Rightarrow> bool" where
  "lowercase_hex_byte b \<longleftrightarrow> (48 \<le> b \<and> b \<le> 57) \<or> (97 \<le> b \<and> b \<le> 102)"

definition is_sha256_text :: "ustring \<Rightarrow> bool" where
  "is_sha256_text s \<longleftrightarrow> length (utf8 s) = 64 \<and> list_all lowercase_hex_byte (utf8 s)"

definition validate_object_ref :: "immutable_object_ref \<Rightarrow> record_error + unit" where
  "validate_object_ref r =
     (if is_sha256_text (io_digest r) then Inr () else Inl (InvalidObjectDigest (io_digest r)))"

definition new_object_ref :: "ustring \<Rightarrow> nat \<Rightarrow> record_error + immutable_object_ref" where
  "new_object_ref digest ciphertext_size =
     (let r = \<lparr>io_digest = digest, io_ciphertext_size = ciphertext_size\<rparr>
      in and_then (validate_object_ref r) (\<lambda>_. Inr r))"

definition canonicalize_revision :: "entity_revision \<Rightarrow> entity_revision" where
  "canonicalize_revision r =
     r\<lparr>er_parents := sort (er_parents r),
       er_object_refs := sort_key (\<lambda>x. (io_digest x, io_ciphertext_size x)) (er_object_refs r)\<rparr>"

fun check_parents ::
    "(ustring \<Rightarrow> bool) \<Rightarrow> ustring \<Rightarrow> ustring set \<Rightarrow> ustring list \<Rightarrow> record_error + unit" where
  "check_parents is_uuid rid seen [] = Inr ()"
| "check_parents is_uuid rid seen (p # ps) =
     and_then (validate_uuid is_uuid ''parent revision_id'' p) (\<lambda>_.
       if p = rid then Inl (SelfParent rid)
       else if p \<in> seen then Inl (DuplicateParent rid p)
       else check_parents is_uuid rid (insert p seen) ps)"

fun check_objects ::
    "ustring \<Rightarrow> ustring set \<Rightarrow> immutable_object_ref list \<Rightarrow> record_error + unit" where
  "check_objects rid seen [] = Inr ()"
| "check_objects rid seen (x # xs) =
     and_then (validate_object_ref x) (\<lambda>_.
       if io_digest x \<in> seen then Inl (DuplicateObject rid (io_digest x))
       else check_objects rid (insert (io_digest x) seen) xs)"

definition validate_revision :: "(ustring \<Rightarrow> bool) \<Rightarrow> entity_revision \<Rightarrow> record_error + unit" where
  "validate_revision is_uuid r =
     (if er_format_version r \<noteq> RECORD_FORMAT_VERSION then Inl (UnsupportedFormat (er_format_version r))
      else
        and_then (validate_uuid is_uuid ''entity_id'' (er_entity_id r)) (\<lambda>_.
        and_then (validate_uuid is_uuid ''revision_id'' (er_revision_id r)) (\<lambda>_.
        and_then (validate_uuid is_uuid ''commit_id'' (er_commit_id r)) (\<lambda>_.
        if er_key_generation r = 0 then Inl InvalidKeyGeneration
        else if er_ciphertext r = [] then Inl EmptyCiphertext
        else
          and_then (check_parents is_uuid (er_revision_id r) {} (er_parents r)) (\<lambda>_.
            check_objects (er_revision_id r) {} (er_object_refs r))))))"

definition new_revision ::
    "(ustring \<Rightarrow> bool) \<Rightarrow> ustring \<Rightarrow> ustring \<Rightarrow> ustring \<Rightarrow> nat \<Rightarrow> ustring list \<Rightarrow> bytes \<Rightarrow>
      immutable_object_ref list \<Rightarrow> record_error + entity_revision" where
  "new_revision is_uuid entity_id revision_id commit_id key_generation parents ciphertext object_refs =
     (let r = canonicalize_revision
            \<lparr>er_format_version = RECORD_FORMAT_VERSION, er_entity_id = entity_id,
             er_revision_id = revision_id, er_commit_id = commit_id,
             er_key_generation = key_generation, er_parents = parents, er_ciphertext = ciphertext,
             er_object_refs = object_refs\<rparr>
      in and_then (validate_revision is_uuid r) (\<lambda>_. Inr r))"

definition canonicalize_commit :: "revision_commit \<Rightarrow> revision_commit" where
  "canonicalize_commit c = c\<lparr>rc_revision_ids := sort (rc_revision_ids c)\<rparr>"

fun check_members ::
    "(ustring \<Rightarrow> bool) \<Rightarrow> ustring \<Rightarrow> ustring set \<Rightarrow> ustring list \<Rightarrow> record_error + unit" where
  "check_members is_uuid cid seen [] = Inr ()"
| "check_members is_uuid cid seen (r # rs) =
     and_then (validate_uuid is_uuid ''commit revision_id'' r) (\<lambda>_.
       if r \<in> seen then Inl (DuplicateCommitRevision cid r)
       else check_members is_uuid cid (insert r seen) rs)"

definition validate_commit :: "(ustring \<Rightarrow> bool) \<Rightarrow> revision_commit \<Rightarrow> record_error + unit" where
  "validate_commit is_uuid c =
     (if rc_format_version c \<noteq> RECORD_FORMAT_VERSION then Inl (UnsupportedFormat (rc_format_version c))
      else
        and_then (validate_uuid is_uuid ''commit_id'' (rc_commit_id c)) (\<lambda>_.
        if rc_key_generation c = 0 then Inl InvalidKeyGeneration
        else if rc_revision_ids c = [] then Inl EmptyCommit
        else if rc_ciphertext c = [] then Inl EmptyCommitCiphertext
        else check_members is_uuid (rc_commit_id c) {} (rc_revision_ids c)))"

definition new_commit ::
    "(ustring \<Rightarrow> bool) \<Rightarrow> ustring \<Rightarrow> nat \<Rightarrow> ustring list \<Rightarrow> bytes \<Rightarrow> record_error + revision_commit" where
  "new_commit is_uuid commit_id key_generation revision_ids ciphertext =
     (let c = canonicalize_commit
            \<lparr>rc_format_version = RECORD_FORMAT_VERSION, rc_commit_id = commit_id,
             rc_key_generation = key_generation, rc_revision_ids = revision_ids,
             rc_ciphertext = ciphertext\<rparr>
      in and_then (validate_commit is_uuid c) (\<lambda>_. Inr c))"

section \<open>Sorted maps\<close>

abbreviation btree_insert :: "ustring \<Rightarrow> 'v \<Rightarrow> 'v btree \<Rightarrow> 'v btree" where
  "btree_insert k v m \<equiv> btree_modify k (\<lambda>_. v) v m"

definition btree_ok :: "'v btree \<Rightarrow> bool" where
  "btree_ok m \<longleftrightarrow> sorted_wrt (<) (map fst m)"

lemma btree_ok_Nil [simp]: "btree_ok []"
  by (simp add: btree_ok_def)

lemma btree_ok_modify [simp]: "btree_ok m \<Longrightarrow> btree_ok (btree_modify k f d m)"
  by (simp add: btree_ok_def sorted_btree_modify)

lemma map_of_modify [simp]:
  "btree_ok m \<Longrightarrow> map_of (btree_modify k f d m) k' =
     (if k' = k then Some (case map_of m k of None \<Rightarrow> d | Some v \<Rightarrow> f v) else map_of m k')"
  by (simp add: btree_ok_def map_of_btree_modify)

lemma btree_ok_distinct: "btree_ok m \<Longrightarrow> distinct (map fst m)"
  by (auto simp: btree_ok_def strict_sorted_iff)

lemma btree_mem_iff: "btree_ok m \<Longrightarrow> (k, v) \<in> set m \<longleftrightarrow> map_of m k = Some v"
  by (simp add: btree_ok_distinct)

text \<open>A sorted map is determined by its lookups.\<close>

lemma btree_rebuild: "btree_ok m \<Longrightarrow> map (\<lambda>k. (k, the (map_of m k))) (map fst m) = m"
  unfolding list.map_comp by (rule map_idI) (auto simp: btree_mem_iff)

lemma btree_ext:
  assumes "btree_ok m" "btree_ok m'" "map_of m = map_of m'"
  shows "m = m'"
proof -
  have "set (map fst m) = set (map fst m')"
    using assms(3) by (metis dom_map_of_conv_image_fst set_map)
  then have "map fst m = map fst m'"
    using assms(1,2) by (intro strict_sorted_equal) (simp_all add: btree_ok_def)
  then show ?thesis
    using assms by (metis btree_rebuild)
qed

section \<open>RevisionSet\<close>

definition revision_set_insert ::
    "(ustring \<Rightarrow> bool) \<Rightarrow> entity_revision \<Rightarrow> revision_set \<Rightarrow> record_error + (insert_result \<times> revision_set)" where
  "revision_set_insert is_uuid revision s =
     (let r = canonicalize_revision revision
      in and_then (validate_revision is_uuid r) (\<lambda>_.
           case map_of s (er_revision_id r) of
             Some existing \<Rightarrow>
               if existing = r then Inr (AlreadyPresent, s)
               else Inl (RevisionCollision (er_revision_id r))
           | None \<Rightarrow> Inr (Inserted, btree_insert (er_revision_id r) r s)))"

text \<open>\<open>visit_revision\<close>, with the loop over the parents as a function of its own. A failed walk drops the
  visits, so they are returned on success only; indexing an unknown revision panics.\<close>

datatype visit = Visiting | Complete | Pending "ustring set"

function visit_revision ::
    "revision_set \<Rightarrow> ustring \<Rightarrow> visit btree \<Rightarrow> record_error + (visit \<times> visit btree)"
  and visit_parents ::
    "revision_set \<Rightarrow> entity_revision \<Rightarrow> ustring list \<Rightarrow> ustring set \<Rightarrow> visit btree \<Rightarrow>
      record_error + (ustring set \<times> visit btree)" where
  "visit_revision revisions revision_id visits =
     (case map_of visits revision_id of
        Some Visiting \<Rightarrow> Inl (Cycle revision_id)
      | Some v \<Rightarrow> Inr (v, visits)
      | None \<Rightarrow>
          (case map_of revisions revision_id of
             None \<Rightarrow> Inl (RecordPanic ''no entry found for key'')
           | Some revision \<Rightarrow>
               (case visit_parents revisions revision (er_parents revision) {}
                       (btree_insert revision_id Visiting visits) of
                  Inl e \<Rightarrow> Inl e
                | Inr (missing, visits) \<Rightarrow>
                    (let v = (if missing = {} then Complete else Pending missing)
                     in Inr (v, btree_insert revision_id v visits)))))"
| "visit_parents revisions revision [] missing visits = Inr (missing, visits)"
| "visit_parents revisions revision (parent_id # parents) missing visits =
     (case map_of revisions parent_id of
        None \<Rightarrow> visit_parents revisions revision parents (insert parent_id missing) visits
      | Some parent \<Rightarrow>
          if er_entity_id parent \<noteq> er_entity_id revision
          then Inl (ParentEntityMismatch (er_revision_id revision) (er_entity_id revision)
                 (er_revision_id parent) (er_entity_id parent))
          else
            (case visit_revision revisions parent_id visits of
               Inl e \<Rightarrow> Inl e
             | Inr (Complete, visits) \<Rightarrow> visit_parents revisions revision parents missing visits
             | Inr (Pending parent_missing, visits) \<Rightarrow> visit_parents revisions revision parents (missing \<union> parent_missing) visits
             | Inr (Visiting, _) \<Rightarrow> Inl (RecordPanic ''visiting revisions return a cycle error'')))"
  by pat_completeness auto

text \<open>No call forgets a visited id; with it the number of known ids that are not visited yet never grows
  along the walk, and shrinks whenever a revision is entered.\<close>

definition keys_of :: "'v btree \<Rightarrow> ustring set" where
  "keys_of m = fst ` set m"

lemma keys_of_modify [simp]: "keys_of (btree_modify k f d m) = insert k (keys_of m)"
  using keys_btree_modify [of k f d m] by (simp add: keys_of_def)

lemma keys_of_iff: "k \<in> keys_of m \<longleftrightarrow> map_of m k \<noteq> None"
  by (simp add: keys_of_def map_of_eq_None_iff)

lemma finite_keys_of [simp]: "finite (keys_of m)"
  by (simp add: keys_of_def)

lemma visited_kept:
  "visit_revision_visit_parents_dom (Inl (revisions, rid, visits)) \<Longrightarrow>
     visit_revision revisions rid visits = Inr (v, visits') \<Longrightarrow> keys_of visits \<subseteq> keys_of visits'"
  "visit_revision_visit_parents_dom (Inr (revisions, r, ps, missing, visits)) \<Longrightarrow>
     visit_parents revisions r ps missing visits = Inr (m, visits') \<Longrightarrow> keys_of visits \<subseteq> keys_of visits'"
proof (induction revisions rid visits and revisions r ps missing visits
    arbitrary: v visits' and m visits' rule: visit_revision_visit_parents.pinduct)
  case (1 revisions rid visits)
  from 1(1,3) show ?case
    by (auto simp: visit_revision.psimps Let_def split: option.splits visit.splits sum.splits prod.splits
        dest!: 1(2))
next
  case (2 revisions revision missing visits)
  then show ?case by (simp add: visit_parents.psimps)
next
  case (3 revisions revision parent_id parents missing visits)
  from 3(1,6) show ?case
    by (auto simp: visit_parents.psimps split: option.splits if_splits visit.splits sum.splits prod.splits
        dest: 3(2-5))
qed

definition unvisited :: "'a btree \<Rightarrow> 'b btree \<Rightarrow> nat" where
  "unvisited known visits = card (keys_of known - keys_of visits)"

lemma unvisited_mono: "keys_of visits \<subseteq> keys_of visits' \<Longrightarrow> unvisited known visits' \<le> unvisited known visits"
  unfolding unvisited_def by (rule card_mono) auto

lemma unvisited_shrinks:
  "keys_of visits \<subseteq> keys_of visits' \<Longrightarrow> unvisited known visits' \<noteq> unvisited known visits \<Longrightarrow>
   unvisited known visits' < unvisited known visits"
  using unvisited_mono [of visits visits' known] by linarith

lemma unvisited_enter:
  assumes "map_of visits k = None" "map_of known k = Some x"
  shows "unvisited known (btree_modify k f d visits) < unvisited known visits"
proof -
  have "k \<in> keys_of known - keys_of visits"
    using assms by (simp add: keys_of_iff)
  then have "keys_of known - keys_of (btree_modify k f d visits) \<subset> keys_of known - keys_of visits"
    by auto
  then show ?thesis
    unfolding unvisited_def by (intro psubset_card_mono) auto
qed

termination visit_revision
proof (relation "measures [
    \<lambda>x. case x of Inl (known, _, visits) \<Rightarrow> unvisited known visits
         | Inr (known, _, _, _, visits) \<Rightarrow> unvisited known visits,
    \<lambda>x. case x of Inl _ \<Rightarrow> 0 | Inr (_, _, ps, _, _) \<Rightarrow> Suc (length ps)]", goal_cases)
qed (auto simp: unvisited_enter dest!: visited_kept(1) intro: unvisited_shrinks)

declare visit_revision.simps [simp del]

section \<open>Heads and pending revisions\<close>

definition index_revision :: "revision_set \<Rightarrow> ustring \<Rightarrow> record_error + entity_revision" where
  "index_revision revisions rid = ok_or (map_of revisions rid) (RecordPanic ''no entry found for key'')"

definition visit_all :: "revision_set \<Rightarrow> record_error + visit btree" where
  "visit_all revisions =
     try_fold (\<lambda>visits rid. and_then (visit_revision revisions rid visits) (\<lambda>(_, visits). Inr visits))
       [] (map fst revisions)"

definition complete_ids :: "visit btree \<Rightarrow> ustring list" where
  "complete_ids visits = map fst (filter (\<lambda>(_, v). v = Complete) visits)"

definition note_head ::
    "revision_set \<Rightarrow> ustring set btree \<Rightarrow> ustring \<Rightarrow> record_error + ustring set btree" where
  "note_head revisions heads rid =
     and_then (index_revision revisions rid) (\<lambda>r.
       Inr (btree_modify (er_entity_id r) (insert rid) {rid} heads))"

definition drop_superseded ::
    "revision_set \<Rightarrow> ustring set \<Rightarrow> ustring set btree \<Rightarrow> ustring \<Rightarrow> record_error + ustring set btree" where
  "drop_superseded revisions complete heads rid =
     and_then (index_revision revisions rid) (\<lambda>r.
       Inr (foldl (\<lambda>heads p. if p \<in> complete then btree_modify (er_entity_id r) (\<lambda>h. h - {p}) {} heads else heads)
              heads (er_parents r)))"

definition pending_entry :: "revision_set \<Rightarrow> ustring \<times> ustring set \<Rightarrow> record_error + pending_revision" where
  "pending_entry revisions = (\<lambda>(rid, missing).
     and_then (index_revision revisions rid) (\<lambda>r.
       Inr \<lparr>pr_entity_id = er_entity_id r, pr_revision_id = rid,
             pr_missing_parents = sorted_list_of_set missing\<rparr>))"

fun pending_of :: "ustring \<times> visit \<Rightarrow> (ustring \<times> ustring set) option" where
  "pending_of (rid, Pending missing) = Some (rid, missing)"
| "pending_of (rid, Complete) = None"
| "pending_of (rid, Visiting) = None"

definition analyze :: "revision_set \<Rightarrow> record_error + revision_analysis" where
  "analyze revisions =
     and_then (visit_all revisions) (\<lambda>visits.
     let complete = complete_ids visits in
     and_then (try_fold (note_head revisions) [] complete) (\<lambda>heads.
     and_then (try_fold (drop_superseded revisions (set complete)) heads complete) (\<lambda>heads.
     and_then (try_map (pending_entry revisions) (List.map_filter pending_of visits)) (\<lambda>pending.
       Inr \<lparr>ra_heads = map (\<lambda>(e, ids). (e, sorted_list_of_set ids)) heads, ra_pending = pending\<rparr>))))"

definition heads_for :: "revision_analysis \<Rightarrow> ustring \<Rightarrow> ustring list" where
  "heads_for a entity_id = unwrap_or (map_of (ra_heads a) entity_id) []"

definition has_conflict :: "revision_analysis \<Rightarrow> ustring \<Rightarrow> bool" where
  "has_conflict a entity_id \<longleftrightarrow> 1 < length (heads_for a entity_id)"

section \<open>Readiness of a commit\<close>

record missing_records =
  mr_revisions :: "ustring set"
  mr_commits :: "ustring set"

definition no_missing :: missing_records where
  "no_missing = \<lparr>mr_revisions = {}, mr_commits = {}\<rparr>"

definition merge_missing :: "missing_records \<Rightarrow> missing_records \<Rightarrow> missing_records" where
  "merge_missing a b =
     \<lparr>mr_revisions = mr_revisions a \<union> mr_revisions b, mr_commits = mr_commits a \<union> mr_commits b\<rparr>"

datatype commit_visit = CommitVisiting | CommitComplete | CommitPending missing_records

type_synonym commit_visits = "commit_visit btree"

function visit_commit ::
    "revision_set \<Rightarrow> revision_commit btree \<Rightarrow> ustring \<Rightarrow> commit_visits \<Rightarrow>
      record_error + (missing_records \<times> commit_visits)"
  and visit_members ::
    "revision_set \<Rightarrow> revision_commit btree \<Rightarrow> ustring \<Rightarrow> ustring list \<Rightarrow> ustring set \<Rightarrow> missing_records \<Rightarrow>
      commit_visits \<Rightarrow> record_error + (missing_records \<times> commit_visits)"
  and visit_member_parents ::
    "revision_set \<Rightarrow> revision_commit btree \<Rightarrow> entity_revision \<Rightarrow> ustring list \<Rightarrow> missing_records \<Rightarrow>
      commit_visits \<Rightarrow> record_error + (missing_records \<times> commit_visits)" where
  "visit_commit revisions commits commit_id visits =
     (case map_of visits commit_id of
        Some CommitVisiting \<Rightarrow> Inl (CommitCycle commit_id)
      | Some CommitComplete \<Rightarrow> Inr (no_missing, visits)
      | Some (CommitPending missing) \<Rightarrow> Inr (missing, visits)
      | None \<Rightarrow>
          (case map_of commits commit_id of
             None \<Rightarrow> Inl (RecordPanic ''only known commits are visited'')
           | Some commit \<Rightarrow>
               (case visit_members revisions commits commit_id (rc_revision_ids commit) {} no_missing
                       (btree_insert commit_id CommitVisiting visits) of
                  Inl e \<Rightarrow> Inl e
                | Inr (missing, visits) \<Rightarrow>
                    (let v = (if mr_revisions missing = {} \<and> mr_commits missing = {} then CommitComplete
                              else CommitPending missing)
                     in Inr (missing, btree_insert commit_id v visits)))))"
| "visit_members revisions commits commit_id [] entities missing visits = Inr (missing, visits)"
| "visit_members revisions commits commit_id (revision_id # rest) entities missing visits =
     (case map_of revisions revision_id of
        None \<Rightarrow>
          visit_members revisions commits commit_id rest entities
            (missing\<lparr>mr_revisions := insert revision_id (mr_revisions missing)\<rparr>) visits
      | Some revision \<Rightarrow>
          if er_commit_id revision \<noteq> commit_id
          then Inl (RevisionCommitMismatch revision_id (er_commit_id revision) commit_id)
          else if er_entity_id revision \<in> entities
          then Inl (CommitDuplicateEntity commit_id (er_entity_id revision))
          else
            (case visit_member_parents revisions commits revision (er_parents revision) missing visits of
               Inl e \<Rightarrow> Inl e
             | Inr (missing, visits) \<Rightarrow>
                 visit_members revisions commits commit_id rest (insert (er_entity_id revision) entities)
                   missing visits))"
| "visit_member_parents revisions commits revision [] missing visits = Inr (missing, visits)"
| "visit_member_parents revisions commits revision (parent_id # parents) missing visits =
     (case map_of revisions parent_id of
        None \<Rightarrow>
          visit_member_parents revisions commits revision parents
            (missing\<lparr>mr_revisions := insert parent_id (mr_revisions missing)\<rparr>) visits
      | Some parent \<Rightarrow>
          if er_entity_id parent \<noteq> er_entity_id revision
          then Inl (ParentEntityMismatch (er_revision_id revision) (er_entity_id revision)
                 (er_revision_id parent) (er_entity_id parent))
          else
            (case map_of commits (er_commit_id parent) of
               None \<Rightarrow>
                 visit_member_parents revisions commits revision parents
                   (missing\<lparr>mr_commits := insert (er_commit_id parent) (mr_commits missing)\<rparr>) visits
             | Some parent_commit \<Rightarrow>
                 if parent_id \<notin> set (rc_revision_ids parent_commit)
                 then Inl (RevisionMissingFromCommit parent_id (er_commit_id parent))
                 else
                   (case visit_commit revisions commits (er_commit_id parent) visits of
                      Inl e \<Rightarrow> Inl e
                    | Inr (parent_missing, visits) \<Rightarrow>
                        visit_member_parents revisions commits revision parents
                          (merge_missing missing parent_missing) visits)))"
  by pat_completeness auto

lemma commits_visited_kept:
  "visit_commit_visit_members_visit_member_parents_dom (Inl (revisions, commits, cid, visits)) \<Longrightarrow>
     visit_commit revisions commits cid visits = Inr (m, visits') \<Longrightarrow> keys_of visits \<subseteq> keys_of visits'"
  "visit_commit_visit_members_visit_member_parents_dom
       (Inr (Inl (revisions, commits, cid, ids, es, missing, visits))) \<Longrightarrow>
     visit_members revisions commits cid ids es missing visits = Inr (m, visits') \<Longrightarrow>
     keys_of visits \<subseteq> keys_of visits'"
  "visit_commit_visit_members_visit_member_parents_dom
       (Inr (Inr (revisions, commits, r, ps, missing, visits))) \<Longrightarrow>
     visit_member_parents revisions commits r ps missing visits = Inr (m, visits') \<Longrightarrow>
     keys_of visits \<subseteq> keys_of visits'"
proof (induction revisions commits cid visits and revisions commits cid ids es missing visits
    and revisions commits r ps missing visits
    arbitrary: m visits' and m visits' and m visits'
    rule: visit_commit_visit_members_visit_member_parents.pinduct)
  case (1 revisions commits cid visits)
  from 1(1,3) show ?case
    by (auto simp: visit_commit.psimps Let_def split: option.splits commit_visit.splits sum.splits prod.splits
        dest!: 1(2))
next
  case (3 revisions commits cid rid rest entities missing visits)
  show ?case
  proof (cases "map_of revisions rid")
    case None
    with 3(1,2,5) show ?thesis by (simp add: visit_members.psimps)
  next
    case (Some r)
    with 3(1,5) obtain m1 v1 where own: "\<not> er_commit_id r \<noteq> cid" "er_entity_id r \<notin> entities"
      and "visit_member_parents revisions commits r (er_parents r) missing visits = Inr (m1, v1)"
        "visit_members revisions commits cid rest (insert (er_entity_id r) entities) m1 v1 = Inr (m, visits')"
      by (auto simp: visit_members.psimps split: if_splits sum.splits prod.splits)
    with 3(3) [OF Some own] 3(4) [OF Some own] show ?thesis by blast
  qed
next
  case (5 revisions commits revision parent_id parents missing visits)
  from 5(1,6) show ?case
    by (auto simp: visit_member_parents.psimps split: option.splits if_splits sum.splits prod.splits
        dest: 5(2-5))
qed (simp_all add: visit_members.psimps visit_member_parents.psimps)

termination visit_commit
proof (relation "measures [
    \<lambda>x. case x of Inl (_, known, _, visits) \<Rightarrow> unvisited known visits
         | Inr (Inl (_, known, _, _, _, _, visits)) \<Rightarrow> unvisited known visits
         | Inr (Inr (_, known, _, _, _, visits)) \<Rightarrow> unvisited known visits,
    \<lambda>x. case x of Inl _ \<Rightarrow> 0 | Inr (Inl _) \<Rightarrow> 2 | Inr (Inr _) \<Rightarrow> 1,
    \<lambda>x. case x of Inl _ \<Rightarrow> 0 | Inr (Inl (_, _, _, ids, _, _, _)) \<Rightarrow> length ids
         | Inr (Inr (_, _, _, ps, _, _)) \<Rightarrow> length ps]", goal_cases)
qed (auto simp: unvisited_enter dest!: commits_visited_kept(1,3) intro: unvisited_shrinks)

declare visit_commit.simps [simp del]

definition add_known_commit ::
    "(ustring \<Rightarrow> bool) \<Rightarrow> revision_commit btree \<Rightarrow> revision_commit \<Rightarrow> record_error + revision_commit btree" where
  "add_known_commit is_uuid commits known =
     and_then (validate_commit is_uuid known) (\<lambda>_.
       case map_of commits (rc_commit_id known) of
         Some existing \<Rightarrow> if existing = known then Inr commits else Inl (CommitCollision (rc_commit_id known))
       | None \<Rightarrow> Inr (btree_insert (rc_commit_id known) known commits))"

definition commits_by_id ::
    "(ustring \<Rightarrow> bool) \<Rightarrow> revision_commit \<Rightarrow> revision_commit list \<Rightarrow> record_error + revision_commit btree" where
  "commits_by_id is_uuid commit known_commits =
     try_fold (add_known_commit is_uuid) [(rc_commit_id commit, commit)] known_commits"

definition commit_readiness ::
    "(ustring \<Rightarrow> bool) \<Rightarrow> revision_set \<Rightarrow> revision_commit \<Rightarrow> revision_commit list \<Rightarrow>
      record_error + commit_state" where
  "commit_readiness is_uuid s commit known_commits =
     and_then (validate_commit is_uuid commit) (\<lambda>_.
     and_then (commits_by_id is_uuid commit known_commits) (\<lambda>commits.
     and_then (visit_commit s commits (rc_commit_id commit) []) (\<lambda>(missing, _).
       if mr_revisions missing = {} \<and> mr_commits missing = {} then Inr ReadyCommit
       else Inr (PendingCommit (sorted_list_of_set (mr_revisions missing))
                  (sorted_list_of_set (mr_commits missing))))))"

end
