(* ===== verification/Revision_Graph.thy ===== *)
theory Revision_Graph
  imports Revision_Records
begin

text \<open>
  What the walks of \<open>Revision_Records\<close> compute. The parents of the known revisions form a graph; the
  missing ancestors of a revision are the unknown ids it reaches. \<open>analyze\<close> succeeds exactly on graphs
  without cycles and without parents in another entity, and reports as heads the complete revisions that
  no complete revision supersedes; \<open>commit_readiness\<close> reports every record missing from the transactions a
  commit builds on.
\<close>

section \<open>The graph of parents\<close>

definition parent_edges :: "revision_set \<Rightarrow> (ustring \<times> ustring) set" where
  "parent_edges s = {(c, p). \<exists>r. map_of s c = Some r \<and> p \<in> set (er_parents r)}"

definition missing_ancestors :: "revision_set \<Rightarrow> ustring \<Rightarrow> ustring set" where
  "missing_ancestors s rid = {p. (rid, p) \<in> (parent_edges s)\<^sup>+ \<and> map_of s p = None}"

definition parents_in_entity :: "revision_set \<Rightarrow> ustring \<Rightarrow> bool" where
  "parents_in_entity s c \<longleftrightarrow>
     (\<forall>r p q. map_of s c = Some r \<longrightarrow> p \<in> set (er_parents r) \<longrightarrow> map_of s p = Some q \<longrightarrow>
        er_entity_id q = er_entity_id r)"

definition visit_of :: "revision_set \<Rightarrow> ustring \<Rightarrow> visit" where
  "visit_of s rid = (if missing_ancestors s rid = {} then Complete else Pending (missing_ancestors s rid))"

lemma edges_of_known:
  "map_of s c = Some r \<Longrightarrow> (c, p) \<in> parent_edges s \<longleftrightarrow> p \<in> set (er_parents r)"
  by (simp add: parent_edges_def)

lemma edge_from_known: "(c, p) \<in> parent_edges s \<Longrightarrow> c \<in> keys_of s"
  by (auto simp: parent_edges_def keys_of_iff)

lemma missing_of_unknown: "map_of s c = None \<Longrightarrow> missing_ancestors s c = {}"
  by (auto simp: missing_ancestors_def parent_edges_def dest: tranclD)

lemma missing_ancestors_step:
  assumes "map_of s c = Some r"
  shows "missing_ancestors s c =
    (\<Union>p \<in> set (er_parents r). if map_of s p = None then {p} else missing_ancestors s p)"
proof -
  have "(c, x) \<in> (parent_edges s)\<^sup>+ \<longleftrightarrow>
      (\<exists>p \<in> set (er_parents r). p = x \<or> (p, x) \<in> (parent_edges s)\<^sup>+)" for x
    using edges_of_known [OF assms]
    by (subst trancl_unfold_left) (auto simp: relcomp_unfold rtrancl_eq_or_trancl)
  moreover have "(p = x \<or> (p, x) \<in> (parent_edges s)\<^sup>+) \<and> map_of s x = None \<longleftrightarrow>
      x \<in> (if map_of s p = None then {p} else missing_ancestors s p)" for p x
    using missing_of_unknown [of s p] by (cases "map_of s p") (auto simp: missing_ancestors_def)
  ultimately show ?thesis
    unfolding set_eq_iff UN_iff by (simp only: missing_ancestors_def mem_Collect_eq) blast
qed

section \<open>The invariant of the walk\<close>

definition finished :: "visit btree \<Rightarrow> ustring set" where
  "finished visits = {rid. \<exists>v. map_of visits rid = Some v \<and> v \<noteq> Visiting}"

definition on_stack :: "visit btree \<Rightarrow> ustring set" where
  "on_stack visits = {rid. map_of visits rid = Some Visiting}"

definition edges_within :: "revision_set \<Rightarrow> ustring set \<Rightarrow> (ustring \<times> ustring) set" where
  "edges_within s F = {(c, p) \<in> parent_edges s. c \<in> F}"

definition walk_ok :: "revision_set \<Rightarrow> visit btree \<Rightarrow> bool" where
  "walk_ok s visits \<longleftrightarrow>
     btree_ok visits \<and> keys_of visits \<subseteq> keys_of s \<and>
     (\<forall>rid \<in> finished visits. map_of visits rid = Some (visit_of s rid)) \<and>
     (\<forall>(c, p) \<in> edges_within s (finished visits). p \<in> keys_of s \<longrightarrow> p \<in> finished visits) \<and>
     acyclic (edges_within s (finished visits)) \<and>
     (\<forall>c \<in> finished visits. parents_in_entity s c)"

lemma visit_of_finished [simp]: "visit_of s rid \<noteq> Visiting"
  by (simp add: visit_of_def)

lemma finished_insert:
  "btree_ok visits \<Longrightarrow> finished (btree_insert rid v visits) =
     (if v = Visiting then finished visits - {rid} else insert rid (finished visits))"
  by (auto simp: finished_def split: option.splits)

lemma on_stack_insert:
  "btree_ok visits \<Longrightarrow> on_stack (btree_insert rid v visits) =
     (if v = Visiting then insert rid (on_stack visits) else on_stack visits - {rid})"
  by (auto simp: on_stack_def split: option.splits)

text \<open>A node without incoming edges lies on no cycle.\<close>

lemma acyclic_add_source:
  assumes "acyclic R" "\<And>a b. (a, b) \<in> R' \<Longrightarrow> b \<noteq> x" "\<And>a b. (a, b) \<in> R' \<Longrightarrow> a \<noteq> x \<Longrightarrow> (a, b) \<in> R"
  shows "acyclic R'"
proof (rule acyclicI, rule allI, rule notI)
  fix a
  assume cycle: "(a, a) \<in> R'\<^sup>+"
  have "a \<noteq> x"
    using cycle assms(2) by (metis tranclD2)
  have "(a, b) \<in> R\<^sup>+ \<and> b \<noteq> x" if "(a, b) \<in> R'\<^sup>+" for b
    using that
  proof induction
    case (base b)
    then show ?case using assms(2,3) \<open>a \<noteq> x\<close> by blast
  next
    case (step b c)
    then show ?case using assms(2,3) by (blast intro: trancl_into_trancl)
  qed
  with cycle assms(1) show False by (auto simp: acyclic_def)
qed

lemma walk_ok_enter:
  assumes "walk_ok s visits" "map_of visits rid = None" "rid \<in> keys_of s"
  shows "walk_ok s (btree_insert rid Visiting visits)" "finished (btree_insert rid Visiting visits) = finished visits"
proof -
  have ok: "btree_ok visits" and new: "rid \<notin> finished visits"
    using assms by (auto simp: walk_ok_def finished_def)
  then show fin: "finished (btree_insert rid Visiting visits) = finished visits"
    by (simp add: finished_insert)
  show "walk_ok s (btree_insert rid Visiting visits)"
    using assms ok new unfolding walk_ok_def fin by auto
qed

lemma walk_ok_leave:
  assumes "walk_ok s visits" "rid \<in> on_stack visits" "map_of s rid = Some r"
    and "\<forall>p \<in> set (er_parents r). p \<in> keys_of s \<longrightarrow> p \<in> finished visits" "parents_in_entity s rid"
  shows "walk_ok s (btree_insert rid (visit_of s rid) visits)"
proof -
  let ?F = "finished visits"
  have ok: "btree_ok visits" and new: "rid \<notin> ?F"
    using assms(1,2) by (auto simp: walk_ok_def finished_def on_stack_def)
  have fin: "finished (btree_insert rid (visit_of s rid) visits) = insert rid ?F"
    using ok by (simp add: finished_insert)
  have known: "rid \<in> keys_of s"
    using assms(3) by (simp add: keys_of_iff)
  have closed: "p \<in> ?F" if "(c, p) \<in> edges_within s (insert rid ?F)" "p \<in> keys_of s" for c p
    using that assms(1,3,4) by (fastforce simp: walk_ok_def edges_within_def edges_of_known)
  have "acyclic (edges_within s (insert rid ?F))"
  proof (rule acyclic_add_source [of "edges_within s ?F" _ rid])
    show "acyclic (edges_within s ?F)" using assms(1) by (simp add: walk_ok_def)
    show "b \<noteq> rid" if "(a, b) \<in> edges_within s (insert rid ?F)" for a b
      using closed [OF that] known new by blast
  qed (simp add: edges_within_def)
  moreover have "\<forall>i \<in> insert rid ?F. map_of (btree_insert rid (visit_of s rid) visits) i = Some (visit_of s i)"
    using assms(1) ok by (simp add: walk_ok_def split: option.split)
  moreover have "\<forall>c \<in> insert rid ?F. parents_in_entity s c"
    using assms(1,5) by (simp add: walk_ok_def)
  moreover have "keys_of (btree_insert rid (visit_of s rid) visits) \<subseteq> keys_of s"
    using assms(1) known by (simp add: walk_ok_def)
  ultimately show ?thesis
    unfolding walk_ok_def fin using closed ok by auto
qed

lemma visit_revision_correct:
  "walk_ok s visits \<Longrightarrow> rid \<in> keys_of s \<Longrightarrow> visit_revision s rid visits = Inr (v, visits') \<Longrightarrow>
     v = visit_of s rid \<and> walk_ok s visits' \<and> rid \<in> finished visits' \<and>
     finished visits \<subseteq> finished visits' \<and> on_stack visits' = on_stack visits"
  "walk_ok s visits \<Longrightarrow> visit_parents s r ps missing visits = Inr (m, visits') \<Longrightarrow>
     m = missing \<union> (\<Union>p \<in> set ps. if map_of s p = None then {p} else missing_ancestors s p) \<and>
     walk_ok s visits' \<and> (\<forall>p \<in> set ps. p \<in> keys_of s \<longrightarrow> p \<in> finished visits') \<and>
     (\<forall>p \<in> set ps. \<forall>q. map_of s p = Some q \<longrightarrow> er_entity_id q = er_entity_id r) \<and>
     finished visits \<subseteq> finished visits' \<and> on_stack visits' = on_stack visits"
proof (induction s rid visits and s r ps missing visits arbitrary: v visits' and m visits'
    rule: visit_revision_visit_parents.induct)
  case (1 s rid visits)
  note outcome = 1(4) [unfolded visit_revision.simps [of s rid visits]]
  show ?case
  proof (cases "map_of visits rid")
    case (Some w)
    with outcome have "v = w" "visits' = visits" "w \<noteq> Visiting" by (auto split: visit.splits)
    moreover from this Some have "rid \<in> finished visits" by (simp add: finished_def)
    moreover from this Some 1(2) have "w = visit_of s rid" by (auto simp: walk_ok_def)
    ultimately show ?thesis using 1(2) by simp
  next
    case None
    let ?entered = "btree_insert rid Visiting visits"
    from 1(3) obtain r where r: "map_of s rid = Some r" by (auto simp: keys_of_iff)
    from None r outcome obtain missing visits1 where
      inner: "visit_parents s r (er_parents r) {} ?entered = Inr (missing, visits1)"
      and v: "v = (if missing = {} then Complete else Pending missing)" "visits' = btree_insert rid v visits1"
      by (auto simp: Let_def split: sum.splits)
    have IH: "missing = missing_ancestors s rid" "walk_ok s visits1"
      "\<forall>p \<in> set (er_parents r). p \<in> keys_of s \<longrightarrow> p \<in> finished visits1"
      "\<forall>p \<in> set (er_parents r). \<forall>q. map_of s p = Some q \<longrightarrow> er_entity_id q = er_entity_id r"
      "finished visits \<subseteq> finished visits1" "on_stack visits1 = on_stack ?entered"
      using 1(1) [OF None r walk_ok_enter(1) [OF 1(2) None 1(3)] inner]
        walk_ok_enter(2) [OF 1(2) None 1(3)] missing_ancestors_step [OF r] by auto
    have ok: "btree_ok visits" "btree_ok visits1" using 1(2) IH(2) by (auto simp: walk_ok_def)
    have stack: "on_stack visits1 = insert rid (on_stack visits)" "rid \<notin> on_stack visits"
      using IH(6) ok None by (simp add: on_stack_insert, simp add: on_stack_def)
    have v_of: "v = visit_of s rid" using v(1) IH(1) by (simp add: visit_of_def)
    have "parents_in_entity s rid" using IH(4) r by (simp add: parents_in_entity_def)
    with IH(2,3) stack r have "walk_ok s visits'"
      unfolding v(2) v_of by (intro walk_ok_leave) auto
    with v_of v(2) IH(5) ok stack show ?thesis
      by (auto simp: finished_insert on_stack_insert)
  qed
next
  case (3 s r p ps missing visits)
  note outcome = 3(6) [unfolded visit_parents.simps(2) [of s r p ps missing visits]]
  show ?case
  proof (cases "map_of s p")
    case None
    with 3(1) [OF None 3(5)] outcome show ?thesis by (auto simp: keys_of_iff)
  next
    case (Some q)
    with outcome obtain v1 visits1 where same: "\<not> er_entity_id q \<noteq> er_entity_id r"
      and inner: "visit_revision s p visits = Inr (v1, visits1)"
      by (auto split: if_splits sum.splits)
    have known: "p \<in> keys_of s" using Some by (simp add: keys_of_iff)
    note IH = 3(2) [OF Some same 3(5) known inner]
    then have v1: "v1 = visit_of s p" "walk_ok s visits1" by blast+
    show ?thesis
    proof (cases "missing_ancestors s p = {}")
      case True
      with v1 have c: "v1 = Complete" by (simp add: visit_of_def)
      with outcome Some same inner
      have "visit_parents s r ps missing visits1 = Inr (m, visits')" by simp
      from 3(3) [OF Some same inner [unfolded c] refl refl v1(2) this] IH True Some same
      show ?thesis by auto
    next
      case False
      with v1 have c: "v1 = Pending (missing_ancestors s p)" by (simp add: visit_of_def)
      with outcome Some same inner
      have "visit_parents s r ps (missing \<union> missing_ancestors s p) visits1 = Inr (m, visits')" by simp
      from 3(4) [OF Some same inner [unfolded c] refl refl v1(2) this] IH Some same
      show ?thesis by auto
    qed
  qed
qed auto

section \<open>Errors of the walk\<close>

definition graph_error :: "revision_set \<Rightarrow> record_error \<Rightarrow> bool" where
  "graph_error s e \<longleftrightarrow>
     (\<exists>x. e = Cycle x \<and> (x, x) \<in> (parent_edges s)\<^sup>+) \<or>
     (\<exists>c r p q. map_of s c = Some r \<and> p \<in> set (er_parents r) \<and> map_of s p = Some q \<and>
        er_entity_id q \<noteq> er_entity_id r \<and>
        e = ParentEntityMismatch (er_revision_id r) (er_entity_id r) (er_revision_id q) (er_entity_id q))"

lemma graph_error_bad: "graph_error s e \<Longrightarrow> \<not> (acyclic (parent_edges s) \<and> (\<forall>c. parents_in_entity s c))"
  by (auto simp: graph_error_def acyclic_def parents_in_entity_def)

lemma visit_revision_error:
  "walk_ok s visits \<Longrightarrow> rid \<in> keys_of s \<Longrightarrow> \<forall>y \<in> on_stack visits. (y, rid) \<in> (parent_edges s)\<^sup>+ \<Longrightarrow>
     visit_revision s rid visits = Inl e \<Longrightarrow> graph_error s e"
  "walk_ok s visits \<Longrightarrow> map_of s c = Some r \<Longrightarrow> set ps \<subseteq> set (er_parents r) \<Longrightarrow>
     \<forall>y \<in> on_stack visits. (y, c) \<in> (parent_edges s)\<^sup>* \<Longrightarrow>
     visit_parents s r ps missing visits = Inl e \<Longrightarrow> graph_error s e"
proof (induction s rid visits and s r ps missing visits arbitrary: e and c e
    rule: visit_revision_visit_parents.induct)
  case (1 s rid visits)
  note outcome = 1(5) [unfolded visit_revision.simps [of s rid visits]]
  show ?case
  proof (cases "map_of visits rid")
    case (Some w)
    with outcome have "e = Cycle rid" "rid \<in> on_stack visits" by (auto simp: on_stack_def split: visit.splits)
    with 1(4) show ?thesis by (auto simp: graph_error_def)
  next
    case None
    from 1(3) obtain r where r: "map_of s rid = Some r" by (auto simp: keys_of_iff)
    with None outcome have inner:
      "visit_parents s r (er_parents r) {} (btree_insert rid Visiting visits) = Inl e"
      by (auto simp: Let_def split: sum.splits)
    have "\<forall>y \<in> on_stack (btree_insert rid Visiting visits). (y, rid) \<in> (parent_edges s)\<^sup>*"
      using 1(2,4) by (auto simp: walk_ok_def on_stack_insert intro: trancl_into_rtrancl)
    with 1(1) [OF None r walk_ok_enter(1) [OF 1(2) None 1(3)] r order_refl _ inner]
    show ?thesis by blast
  qed
next
  case (3 s r p ps missing visits)
  note outcome = 3(9) [unfolded visit_parents.simps(2) [of s r p ps missing visits]]
  have ps: "set ps \<subseteq> set (er_parents r)" and p: "p \<in> set (er_parents r)" using 3(7) by auto
  show ?case
  proof (cases "map_of s p")
    case None
    with 3(1) [OF None 3(5,6) ps 3(8)] outcome show ?thesis by auto
  next
    case (Some q)
    have known: "p \<in> keys_of s" using Some by (simp add: keys_of_iff)
    have reach: "\<forall>y \<in> on_stack visits. (y, p) \<in> (parent_edges s)\<^sup>+"
      using 3(8) edges_of_known [OF 3(6)] p by (blast intro: rtrancl_into_trancl1)
    show ?thesis
    proof (cases "er_entity_id q = er_entity_id r")
      case False
      with outcome Some have
        "e = ParentEntityMismatch (er_revision_id r) (er_entity_id r) (er_revision_id q) (er_entity_id q)" by simp
      with False Some 3(6) p show ?thesis unfolding graph_error_def by blast
    next
      case True
      then have same: "\<not> er_entity_id q \<noteq> er_entity_id r" by simp
      show ?thesis
      proof (cases "visit_revision s p visits")
        case (Inl e')
        with outcome Some True have "e' = e" by simp
        with 3(2) [OF Some same 3(5) known reach] Inl show ?thesis by simp
      next
        case (Inr y)
        then obtain v visits1 where inner: "visit_revision s p visits = Inr (v, visits1)" by (cases y) auto
        note found = visit_revision_correct(1) [OF 3(5) known inner]
        then have stack: "walk_ok s visits1" "\<forall>y \<in> on_stack visits1. (y, c) \<in> (parent_edges s)\<^sup>*"
          using 3(8) by auto
        show ?thesis
        proof (cases v)
          case Visiting
          with found visit_of_finished [of s p] show ?thesis by metis
        next
          case Complete
          with outcome Some True inner have "visit_parents s r ps missing visits1 = Inl e" by simp
          from 3(3) [OF Some same inner [unfolded Complete] refl refl stack(1) 3(6) ps stack(2) this]
          show ?thesis .
        next
          case (Pending m)
          with outcome Some True inner have "visit_parents s r ps (missing \<union> m) visits1 = Inl e" by simp
          from 3(4) [OF Some same inner [unfolded Pending] refl refl stack(1) 3(6) ps stack(2) this]
          show ?thesis .
        qed
      qed
    qed
  qed
qed auto

section \<open>Every revision is visited\<close>

lemma walk_ok_Nil: "walk_ok s []"
  by (simp add: walk_ok_def finished_def edges_within_def keys_of_def acyclic_def)

lemma on_stack_Nil [simp]: "on_stack [] = {}"
  by (simp add: on_stack_def)

lemma visit_each:
  assumes "walk_ok s visits" "on_stack visits = {}" "set ids \<subseteq> keys_of s"
  shows "(case try_fold (\<lambda>visits rid. and_then (visit_revision s rid visits) (\<lambda>(_, visits). Inr visits)) visits ids of
      Inl e \<Rightarrow> graph_error s e
    | Inr visits' \<Rightarrow> walk_ok s visits' \<and> on_stack visits' = {} \<and> finished visits \<union> set ids \<subseteq> finished visits')"
  using assms
proof (induction ids arbitrary: visits)
  case (Cons rid ids)
  then have known: "rid \<in> keys_of s" by simp
  show ?case
  proof (cases "visit_revision s rid visits")
    case (Inl e)
    with visit_revision_error(1) [OF Cons.prems(1) known _ Inl] Cons.prems(2) show ?thesis by simp
  next
    case (Inr y)
    then obtain v visits1 where inner: "visit_revision s rid visits = Inr (v, visits1)" by (cases y) auto
    have "walk_ok s visits1" "on_stack visits1 = {}" "insert rid (finished visits) \<subseteq> finished visits1"
      using visit_revision_correct(1) [OF Cons.prems(1) known inner] Cons.prems(2) by auto
    with Cons.IH [of visits1] Cons.prems(3) inner show ?thesis
      by (auto split: sum.splits)
  qed
qed simp

lemma visit_all_outcome:
  "(case visit_all s of
      Inl e \<Rightarrow> graph_error s e
    | Inr visits \<Rightarrow> walk_ok s visits \<and> finished visits = keys_of s \<and> on_stack visits = {})"
proof -
  have "finished visits \<subseteq> keys_of s" if "walk_ok s visits" for visits
    using that by (auto simp: walk_ok_def finished_def keys_of_iff)
  then show ?thesis
    using visit_each [OF walk_ok_Nil [of s] on_stack_Nil, of "map fst s"]
    by (fastforce simp: visit_all_def keys_of_def split: sum.splits)
qed

lemma visit_all_sound:
  assumes "visit_all s = Inr visits"
  shows "acyclic (parent_edges s)" "\<forall>c. parents_in_entity s c"
    "map_of visits rid = (if rid \<in> keys_of s then Some (visit_of s rid) else None)" "btree_ok visits"
proof -
  have ok: "walk_ok s visits" and fin: "finished visits = keys_of s"
    using visit_all_outcome [of s] assms by simp_all
  have "edges_within s (keys_of s) = parent_edges s"
    by (auto simp: edges_within_def dest: edge_from_known)
  then show "acyclic (parent_edges s)" using ok fin by (simp add: walk_ok_def)
  have "parents_in_entity s c" if "c \<notin> keys_of s" for c
    using that by (simp add: parents_in_entity_def keys_of_iff)
  moreover have "parents_in_entity s c" if "c \<in> keys_of s" for c
    using that ok fin by (simp add: walk_ok_def)
  ultimately show "\<forall>c. parents_in_entity s c" by blast
  show "btree_ok visits" using ok by (simp add: walk_ok_def)
  show "map_of visits rid = (if rid \<in> keys_of s then Some (visit_of s rid) else None)"
    using ok fin by (auto simp: walk_ok_def keys_of_iff)
qed

lemma visit_all_returns:
  "(\<exists>visits. visit_all s = Inr visits) \<longleftrightarrow> acyclic (parent_edges s) \<and> (\<forall>c. parents_in_entity s c)"
  using visit_all_outcome [of s] visit_all_sound(1,2) [of s] graph_error_bad [of s]
  by (cases "visit_all s") auto

section \<open>Heads\<close>

definition entity_of :: "revision_set \<Rightarrow> ustring \<Rightarrow> ustring" where
  "entity_of s rid = er_entity_id (the (map_of s rid))"

definition complete_in :: "revision_set \<Rightarrow> ustring set" where
  "complete_in s = {rid \<in> keys_of s. missing_ancestors s rid = {}}"

text \<open>The reference definition of a head: a revision with its whole ancestry that no other revision with its
  whole ancestry names as a parent.\<close>

definition current_heads :: "revision_set \<Rightarrow> ustring \<Rightarrow> ustring set" where
  "current_heads s e =
     {rid \<in> complete_in s. entity_of s rid = e \<and> (\<forall>c \<in> complete_in s. (c, rid) \<notin> parent_edges s)}"

definition add_ids :: "ustring set \<Rightarrow> ustring set option \<Rightarrow> ustring set option" where
  "add_ids new old = (if new = {} then old else Some (new \<union> unwrap_or old {}))"

lemma note_heads:
  "btree_ok h0 \<Longrightarrow> set ids \<subseteq> keys_of s \<Longrightarrow> \<exists>h. try_fold (note_head s) h0 ids = Inr h \<and> btree_ok h \<and>
     (\<forall>e. map_of h e = add_ids {rid \<in> set ids. entity_of s rid = e} (map_of h0 e))"
proof (induction ids arbitrary: h0)
  case (Cons rid ids)
  obtain r where r: "map_of s rid = Some r" using Cons.prems(2) by (auto simp: keys_of_iff)
  let ?h = "btree_modify (er_entity_id r) (insert rid) {rid} h0"
  have step: "note_head s h0 rid = Inr ?h" using r by (simp add: note_head_def index_revision_def)
  have e: "er_entity_id r = entity_of s rid" using r by (simp add: entity_of_def)
  have "{i \<in> set (rid # ids). entity_of s i = e} =
      (if entity_of s rid = e then {rid} else {}) \<union> {i \<in> set ids. entity_of s i = e}" for e
    by auto
  with Cons.IH [of ?h] Cons.prems step e show ?case
    by (auto simp: add_ids_def split: option.split)
qed (simp add: add_ids_def)

lemma drop_parents:
  "btree_ok h0 \<Longrightarrow> e \<in> keys_of h0 \<Longrightarrow>
   let h = foldl (\<lambda>h p. if p \<in> C then btree_modify e (\<lambda>x. x - {p}) {} h else h) h0 ps in
     btree_ok h \<and> (\<forall>e'. map_of h e' = (if e' = e then map_option (\<lambda>x. x - (C \<inter> set ps)) (map_of h0 e) else map_of h0 e'))"
proof (induction ps arbitrary: h0)
  case (Cons p ps)
  show ?case
  proof (cases "p \<in> C")
    case True
    obtain x where "map_of h0 e = Some x" using Cons.prems(2) by (auto simp: keys_of_iff)
    moreover have "x - {p} - C \<inter> set ps = x - C \<inter> set (p # ps)" using True by auto
    ultimately show ?thesis
      using Cons.IH [of "btree_modify e (\<lambda>x. x - {p}) {} h0"] Cons.prems True by (simp add: Let_def)
  next
    case False
    then have "C \<inter> set (p # ps) = C \<inter> set ps" by auto
    with False Cons.IH [of h0] Cons.prems show ?thesis by (simp add: Let_def)
  qed
qed (auto simp: Let_def option.map_ident)

lemma drop_all_superseded:
  "btree_ok h0 \<Longrightarrow> set ids \<subseteq> keys_of s \<Longrightarrow> entity_of s ` set ids \<subseteq> keys_of h0 \<Longrightarrow>
   \<exists>h. try_fold (drop_superseded s C) h0 ids = Inr h \<and> btree_ok h \<and>
     (\<forall>e. map_of h e =
        map_option (\<lambda>x. x - {p \<in> C. \<exists>c \<in> set ids. entity_of s c = e \<and> (c, p) \<in> parent_edges s}) (map_of h0 e))"
proof (induction ids arbitrary: h0)
  case (Cons rid ids)
  obtain r where r: "map_of s rid = Some r" using Cons.prems(2) by (auto simp: keys_of_iff)
  define h where "h = foldl (\<lambda>h p. if p \<in> C then btree_modify (er_entity_id r) (\<lambda>x. x - {p}) {} h else h) h0 (er_parents r)"
  have step: "drop_superseded s C h0 rid = Inr h" using r by (simp add: drop_superseded_def index_revision_def h_def)
  have e: "er_entity_id r = entity_of s rid" using r by (simp add: entity_of_def)
  have h: "btree_ok h" "map_of h e' = (if e' = entity_of s rid then map_option (\<lambda>x. x - (C \<inter> set (er_parents r))) (map_of h0 e')
      else map_of h0 e')" for e'
    using drop_parents [of h0 "er_entity_id r" C "er_parents r"] Cons.prems e by (auto simp: Let_def h_def)
  have "keys_of h = keys_of h0" using h(2) by (auto simp: keys_of_iff split: if_splits)
  with Cons.IH [of h] Cons.prems h(1) obtain h' where
    h': "try_fold (drop_superseded s C) h ids = Inr h'" "btree_ok h'"
      "\<And>e. map_of h' e =
         map_option (\<lambda>x. x - {p \<in> C. \<exists>c \<in> set ids. entity_of s c = e \<and> (c, p) \<in> parent_edges s}) (map_of h e)"
    by auto
  have "map_of h' e' =
      map_option (\<lambda>x. x - {p \<in> C. \<exists>c \<in> set (rid # ids). entity_of s c = e' \<and> (c, p) \<in> parent_edges s}) (map_of h0 e')" for e'
    unfolding h'(3) h(2) by (cases "map_of h0 e'") (auto simp: edges_of_known [OF r])
  with step h'(1,2) show ?case by auto
qed (simp add: option.map_ident)

lemma complete_ids_set:
  assumes "visit_all s = Inr visits"
  shows "set (complete_ids visits) = complete_in s" "set (complete_ids visits) \<subseteq> keys_of s"
proof -
  note visits = visit_all_sound [OF assms]
  have "(rid, Complete) \<in> set visits \<longleftrightarrow> rid \<in> complete_in s" for rid
    using visits(3) [of rid] by (auto simp: btree_mem_iff [OF visits(4)] complete_in_def visit_of_def)
  then show "set (complete_ids visits) = complete_in s" by (force simp: complete_ids_def)
  then show "set (complete_ids visits) \<subseteq> keys_of s" by (auto simp: complete_in_def)
qed

lemma keys_of_visits:
  assumes "visit_all s = Inr visits" "btree_ok s"
  shows "map fst visits = map fst s"
proof (rule strict_sorted_equal)
  show "sorted_wrt (<) (map fst visits)" "sorted_wrt (<) (map fst s)"
    using assms visit_all_sound(4) by (simp_all add: btree_ok_def)
  have "keys_of visits = keys_of s"
    using visit_all_sound(3) [OF assms(1)] by (auto simp: keys_of_iff split: if_splits)
  then show "set (map fst visits) = set (map fst s)" by (simp add: keys_of_def)
qed

definition pending_row :: "revision_set \<Rightarrow> ustring \<Rightarrow> pending_revision" where
  "pending_row s rid =
     \<lparr>pr_entity_id = entity_of s rid, pr_revision_id = rid,
      pr_missing_parents = sorted_list_of_set (missing_ancestors s rid)\<rparr>"

lemma pending_rows:
  assumes "visit_all s = Inr visits" "btree_ok s"
  shows "try_map (pending_entry s) (List.map_filter pending_of visits) =
    Inr (map (pending_row s) (filter (\<lambda>rid. missing_ancestors s rid \<noteq> {}) (map fst s)))"
proof -
  have "try_map (pending_entry s) (List.map_filter pending_of m) =
      Inr (map (pending_row s) (filter (\<lambda>rid. missing_ancestors s rid \<noteq> {}) (map fst m)))"
    if "\<forall>(rid, v) \<in> set m. rid \<in> keys_of s \<and> v = visit_of s rid" for m
    using that
  proof (induction m)
    case (Cons x m)
    obtain rid v where x: "x = (rid, v)" by (cases x)
    with Cons.prems obtain r where "map_of s rid = Some r" "v = visit_of s rid" by (auto simp: keys_of_iff)
    with Cons x show ?case
      by (auto simp: visit_of_def List.map_filter_simps pending_entry_def index_revision_def pending_row_def
          entity_of_def split: if_splits)
  qed (simp add: List.map_filter_simps)
  moreover have "\<forall>(rid, v) \<in> set visits. rid \<in> keys_of s \<and> v = visit_of s rid"
    using visit_all_sound(3,4) [OF assms(1)] by (auto simp: btree_mem_iff split: if_splits)
  ultimately show ?thesis unfolding keys_of_visits [OF assms, symmetric] by blast
qed

lemma map_of_map_values: "map_of (map (\<lambda>(k, v). (k, f v)) m) k = map_option f (map_of m k)"
  by (induction m) auto

lemma analyze_outcome:
  assumes "btree_ok s"
  shows "(case analyze s of
      Inl e \<Rightarrow> graph_error s e
    | Inr a \<Rightarrow> acyclic (parent_edges s) \<and> (\<forall>c. parents_in_entity s c) \<and>
        ra_pending a = map (pending_row s) (filter (\<lambda>rid. missing_ancestors s rid \<noteq> {}) (map fst s)) \<and>
        sorted_wrt (<) (map fst (ra_heads a)) \<and>
        (\<forall>e. map_of (ra_heads a) e =
           (if e \<in> entity_of s ` complete_in s then Some (sorted_list_of_set (current_heads s e)) else None)))"
proof (cases "visit_all s")
  case (Inl e)
  with visit_all_outcome [of s] show ?thesis by (simp add: analyze_def)
next
  case (Inr visits)
  note visits = visit_all_sound [OF Inr] and ids = complete_ids_set [OF Inr]
  obtain h1 where h1: "try_fold (note_head s) [] (complete_ids visits) = Inr h1" "btree_ok h1"
    "\<And>e. map_of h1 e = add_ids {rid \<in> complete_in s. entity_of s rid = e} None"
    using note_heads [of "[]" "complete_ids visits" s] ids by auto
  have "entity_of s ` complete_in s \<subseteq> keys_of h1"
    using h1(3) by (auto simp: keys_of_iff add_ids_def)
  then obtain h2 where h2: "try_fold (drop_superseded s (complete_in s)) h1 (complete_ids visits) = Inr h2" "btree_ok h2"
    "\<And>e. map_of h2 e = map_option (\<lambda>x. x - {p \<in> complete_in s.
        \<exists>c \<in> complete_in s. entity_of s c = e \<and> (c, p) \<in> parent_edges s}) (map_of h1 e)"
    using drop_all_superseded [of h1 "complete_ids visits" s "complete_in s"] ids h1(2) by auto
  have same: "entity_of s c = entity_of s p" if "(c, p) \<in> parent_edges s" "p \<in> complete_in s" for c p
    using that visits(2) by (auto simp: parent_edges_def parents_in_entity_def entity_of_def complete_in_def keys_of_iff)
  then have "{rid \<in> complete_in s. entity_of s rid = e} -
        {p \<in> complete_in s. \<exists>c \<in> complete_in s. entity_of s c = e \<and> (c, p) \<in> parent_edges s} = current_heads s e" for e
    by (auto simp: current_heads_def)
  then have "map_of h2 e = (if e \<in> entity_of s ` complete_in s then Some (current_heads s e) else None)" for e
    unfolding h2(3) h1(3) by (auto simp: add_ids_def)
  moreover have "sorted_wrt (<) (map fst (map (\<lambda>(e, ids). (e, sorted_list_of_set ids)) h2))"
    using h2(2) by (simp add: btree_ok_def case_prod_beta comp_def)
  ultimately show ?thesis
    using Inr h1(1) h2(1) pending_rows [OF Inr assms] visits(1,2) ids(1)
    by (simp add: analyze_def Let_def map_of_map_values)
qed

end
