(* ===== verification/Commit_Readiness.thy ===== *)
theory Commit_Readiness
  imports Revision_Graph
begin

text \<open>
  What \<open>RevisionSet::commit_readiness\<close> computes. A commit builds on the commits that own the parents of its
  member revisions; its readiness lists every revision and every commit missing from that history.
\<close>

section \<open>The history of a commit\<close>

definition commit_edges :: "revision_set \<Rightarrow> revision_commit btree \<Rightarrow> (ustring \<times> ustring) set" where
  "commit_edges s commits =
     {(c, er_commit_id q) | c m rid r p q.
        map_of commits c = Some m \<and> rid \<in> set (rc_revision_ids m) \<and> map_of s rid = Some r \<and>
        p \<in> set (er_parents r) \<and> map_of s p = Some q \<and> er_commit_id q \<in> keys_of commits}"

text \<open>What the members of one commit, and their parents, leave missing.\<close>

definition lacking_revisions :: "revision_set \<Rightarrow> revision_commit btree \<Rightarrow> ustring \<Rightarrow> ustring set" where
  "lacking_revisions s commits c =
     {x. \<exists>m. map_of commits c = Some m \<and> map_of s x = None \<and>
        (x \<in> set (rc_revision_ids m) \<or>
         (\<exists>rid r. rid \<in> set (rc_revision_ids m) \<and> map_of s rid = Some r \<and> x \<in> set (er_parents r)))}"

definition lacking_commits :: "revision_set \<Rightarrow> revision_commit btree \<Rightarrow> ustring \<Rightarrow> ustring set" where
  "lacking_commits s commits c =
     {er_commit_id q | m rid r p q.
        map_of commits c = Some m \<and> rid \<in> set (rc_revision_ids m) \<and> map_of s rid = Some r \<and>
        p \<in> set (er_parents r) \<and> map_of s p = Some q \<and> er_commit_id q \<notin> keys_of commits}"

definition history :: "revision_set \<Rightarrow> revision_commit btree \<Rightarrow> ustring \<Rightarrow> ustring set" where
  "history s commits c = {c'. (c, c') \<in> (commit_edges s commits)\<^sup>*}"

definition history_lacks :: "revision_set \<Rightarrow> revision_commit btree \<Rightarrow> ustring \<Rightarrow> missing_records" where
  "history_lacks s commits c =
     \<lparr>mr_revisions = \<Union> (lacking_revisions s commits ` history s commits c),
      mr_commits = \<Union> (lacking_commits s commits ` history s commits c)\<rparr>"

definition parent_lacks :: "revision_set \<Rightarrow> revision_commit btree \<Rightarrow> ustring \<Rightarrow> missing_records" where
  "parent_lacks s commits p =
     (case map_of s p of
        None \<Rightarrow> \<lparr>mr_revisions = {p}, mr_commits = {}\<rparr>
      | Some q \<Rightarrow>
          if er_commit_id q \<in> keys_of commits then history_lacks s commits (er_commit_id q)
          else \<lparr>mr_revisions = {}, mr_commits = {er_commit_id q}\<rparr>)"

definition join_missing :: "missing_records list \<Rightarrow> missing_records" where
  "join_missing ms = foldr merge_missing ms no_missing"

definition member_lacks :: "revision_set \<Rightarrow> revision_commit btree \<Rightarrow> ustring \<Rightarrow> missing_records" where
  "member_lacks s commits rid =
     (case map_of s rid of
        None \<Rightarrow> \<lparr>mr_revisions = {rid}, mr_commits = {}\<rparr>
      | Some r \<Rightarrow> join_missing (map (parent_lacks s commits) (er_parents r)))"

lemma merge_missing_simps [simp]:
  "mr_revisions (merge_missing a b) = mr_revisions a \<union> mr_revisions b"
  "mr_commits (merge_missing a b) = mr_commits a \<union> mr_commits b"
  "merge_missing no_missing a = a" "merge_missing a no_missing = a"
  by (simp_all add: merge_missing_def no_missing_def)

lemma merge_missing_assoc: "merge_missing (merge_missing a b) c = merge_missing a (merge_missing b c)"
  by (simp add: merge_missing_def Un_assoc)

lemma join_missing_simps [simp]:
  "join_missing [] = no_missing"
  "join_missing (m # ms) = merge_missing m (join_missing ms)"
  "mr_revisions (join_missing ms) = \<Union> (mr_revisions ` set ms)"
  "mr_commits (join_missing ms) = \<Union> (mr_commits ` set ms)"
  by (simp_all add: join_missing_def, induction ms) (simp_all add: no_missing_def, induction ms, simp_all)

lemma history_unfold:
  "history s commits c = insert c (\<Union>c' \<in> {c'. (c, c') \<in> commit_edges s commits}. history s commits c')"
  by (auto simp: history_def intro: converse_rtrancl_into_rtrancl elim: converse_rtranclE)

lemma parent_lacks_iff:
  "x \<in> mr_revisions (parent_lacks s commits p) \<longleftrightarrow>
     map_of s p = None \<and> x = p \<or>
     (\<exists>q. map_of s p = Some q \<and> er_commit_id q \<in> keys_of commits \<and>
        x \<in> mr_revisions (history_lacks s commits (er_commit_id q)))"
  "x \<in> mr_commits (parent_lacks s commits p) \<longleftrightarrow>
     (\<exists>q. map_of s p = Some q \<and>
        (er_commit_id q \<notin> keys_of commits \<and> x = er_commit_id q \<or>
         er_commit_id q \<in> keys_of commits \<and> x \<in> mr_commits (history_lacks s commits (er_commit_id q))))"
  by (auto simp: parent_lacks_def split: option.split)

lemma member_lacks_iff:
  "x \<in> mr_revisions (member_lacks s commits rid) \<longleftrightarrow>
     map_of s rid = None \<and> x = rid \<or>
     (\<exists>r. map_of s rid = Some r \<and> (\<exists>p \<in> set (er_parents r). x \<in> mr_revisions (parent_lacks s commits p)))"
  "x \<in> mr_commits (member_lacks s commits rid) \<longleftrightarrow>
     (\<exists>r. map_of s rid = Some r \<and> (\<exists>p \<in> set (er_parents r). x \<in> mr_commits (parent_lacks s commits p)))"
  by (auto simp: member_lacks_def split: option.split)

lemma history_lacks_unfold:
  "mr_revisions (history_lacks s commits c) = lacking_revisions s commits c \<union>
      (\<Union>c' \<in> {c'. (c, c') \<in> commit_edges s commits}. mr_revisions (history_lacks s commits c'))"
  "mr_commits (history_lacks s commits c) = lacking_commits s commits c \<union>
      (\<Union>c' \<in> {c'. (c, c') \<in> commit_edges s commits}. mr_commits (history_lacks s commits c'))"
  by (subst history_lacks_def, subst history_unfold, simp add: history_lacks_def)+

lemma commit_edge_iff:
  "map_of commits c = Some m \<Longrightarrow> (c, c') \<in> commit_edges s commits \<longleftrightarrow>
     (\<exists>rid \<in> set (rc_revision_ids m). \<exists>r. map_of s rid = Some r \<and> (\<exists>p \<in> set (er_parents r).
        \<exists>q. map_of s p = Some q \<and> c' = er_commit_id q \<and> c' \<in> keys_of commits))"
  unfolding commit_edges_def by auto

lemma lacking_iff:
  assumes "map_of commits c = Some m"
  shows "x \<in> lacking_revisions s commits c \<longleftrightarrow> map_of s x = None \<and>
      (\<exists>rid \<in> set (rc_revision_ids m). x = rid \<or> (\<exists>r. map_of s rid = Some r \<and> x \<in> set (er_parents r)))"
    "x \<in> lacking_commits s commits c \<longleftrightarrow> x \<notin> keys_of commits \<and>
      (\<exists>rid \<in> set (rc_revision_ids m). \<exists>r. map_of s rid = Some r \<and> (\<exists>p \<in> set (er_parents r).
         \<exists>q. map_of s p = Some q \<and> x = er_commit_id q))"
  using assms unfolding lacking_revisions_def lacking_commits_def by auto

lemma history_lacks_step:
  assumes "map_of commits c = Some m"
  shows "history_lacks s commits c = join_missing (map (member_lacks s commits) (rc_revision_ids m))"
proof (rule missing_records.equality)
  let ?join = "join_missing (map (member_lacks s commits) (rc_revision_ids m))"
  have "x \<in> mr_revisions (history_lacks s commits c) \<longleftrightarrow> x \<in> mr_revisions ?join" for x
    unfolding history_lacks_unfold(1) [of s commits c] Un_iff UN_iff mem_Collect_eq
      commit_edge_iff [OF assms] lacking_iff(1) [OF assms] join_missing_simps set_map image_image
      member_lacks_iff(1) parent_lacks_iff(1)
    by blast
  then show "mr_revisions (history_lacks s commits c) = mr_revisions ?join" by blast
  have "x \<in> mr_commits (history_lacks s commits c) \<longleftrightarrow> x \<in> mr_commits ?join" for x
    unfolding history_lacks_unfold(2) [of s commits c] Un_iff UN_iff mem_Collect_eq
      commit_edge_iff [OF assms] lacking_iff(2) [OF assms] join_missing_simps set_map image_image
      member_lacks_iff(2) parent_lacks_iff(2)
    by blast
  then show "mr_commits (history_lacks s commits c) = mr_commits ?join" by blast
qed simp

section \<open>The walk over commits\<close>

text \<open>The checks a walk makes at one commit: its known members name it, belong to different entities, and
  have parents in their own entity that the parents' commits list.\<close>

definition parent_checked :: "revision_set \<Rightarrow> revision_commit btree \<Rightarrow> entity_revision \<Rightarrow> ustring \<Rightarrow> bool" where
  "parent_checked s commits r p \<longleftrightarrow>
     (\<forall>q. map_of s p = Some q \<longrightarrow> er_entity_id q = er_entity_id r \<and>
        (\<forall>m. map_of commits (er_commit_id q) = Some m \<longrightarrow> p \<in> set (rc_revision_ids m)))"

definition members_checked :: "revision_set \<Rightarrow> revision_commit btree \<Rightarrow> ustring \<Rightarrow> ustring list \<Rightarrow> bool" where
  "members_checked s commits c ids \<longleftrightarrow>
     (\<forall>rid \<in> set ids. \<forall>r. map_of s rid = Some r \<longrightarrow>
        er_commit_id r = c \<and> (\<forall>p \<in> set (er_parents r). parent_checked s commits r p)) \<and>
     distinct (map (entity_of s) (filter (\<lambda>rid. rid \<in> keys_of s) ids))"

definition commit_checked :: "revision_set \<Rightarrow> revision_commit btree \<Rightarrow> ustring \<Rightarrow> bool" where
  "commit_checked s commits c \<longleftrightarrow>
     (\<exists>m. map_of commits c = Some m \<and> members_checked s commits c (rc_revision_ids m))"

definition commits_finished :: "commit_visits \<Rightarrow> ustring set" where
  "commits_finished visits = {c. \<exists>v. map_of visits c = Some v \<and> v \<noteq> CommitVisiting}"

definition commit_visit_of :: "missing_records \<Rightarrow> commit_visit" where
  "commit_visit_of m = (if mr_revisions m = {} \<and> mr_commits m = {} then CommitComplete else CommitPending m)"

definition commit_walk_ok :: "revision_set \<Rightarrow> revision_commit btree \<Rightarrow> commit_visits \<Rightarrow> bool" where
  "commit_walk_ok s commits visits \<longleftrightarrow>
     btree_ok visits \<and>
     (\<forall>c \<in> commits_finished visits.
        map_of visits c = Some (commit_visit_of (history_lacks s commits c)) \<and> commit_checked s commits c \<and>
        (\<forall>c'. (c, c') \<in> commit_edges s commits \<longrightarrow> c' \<in> commits_finished visits))"

lemma commit_visit_of_simps [simp]: "commit_visit_of m \<noteq> CommitVisiting"
  by (simp add: commit_visit_of_def)

lemma no_missing_iff: "m = no_missing \<longleftrightarrow> mr_revisions m = {} \<and> mr_commits m = {}"
  by (cases m) (simp add: no_missing_def)

lemma commits_finished_insert:
  "btree_ok visits \<Longrightarrow> commits_finished (btree_insert c v visits) =
     (if v = CommitVisiting then commits_finished visits - {c} else insert c (commits_finished visits))"
  by (auto simp: commits_finished_def split: option.splits)

lemma commit_walk_enter:
  assumes "commit_walk_ok s commits visits" "map_of visits c = None"
  shows "commit_walk_ok s commits (btree_insert c CommitVisiting visits)"
    "commits_finished (btree_insert c CommitVisiting visits) = commits_finished visits"
proof -
  have ok: "btree_ok visits" and new: "c \<notin> commits_finished visits"
    using assms by (auto simp: commit_walk_ok_def commits_finished_def)
  then show fin: "commits_finished (btree_insert c CommitVisiting visits) = commits_finished visits"
    by (simp add: commits_finished_insert)
  show "commit_walk_ok s commits (btree_insert c CommitVisiting visits)"
    using assms(1) ok new unfolding commit_walk_ok_def fin by auto
qed

lemma commit_walk_leave:
  assumes "commit_walk_ok s commits visits" "commit_checked s commits c"
    and "\<forall>c'. (c, c') \<in> commit_edges s commits \<longrightarrow> c' \<in> commits_finished visits"
  shows "commit_walk_ok s commits (btree_insert c (commit_visit_of (history_lacks s commits c)) visits)"
    "commits_finished (btree_insert c (commit_visit_of (history_lacks s commits c)) visits) =
       insert c (commits_finished visits)"
proof -
  have ok: "btree_ok visits" using assms(1) by (simp add: commit_walk_ok_def)
  then show fin: "commits_finished (btree_insert c (commit_visit_of (history_lacks s commits c)) visits) =
       insert c (commits_finished visits)"
    by (simp add: commits_finished_insert)
  show "commit_walk_ok s commits (btree_insert c (commit_visit_of (history_lacks s commits c)) visits)"
    using assms ok unfolding commit_walk_ok_def fin by (auto split: option.split)
qed

lemma members_checked_Cons:
  assumes "map_of s rid = Some r" "er_commit_id r = c" "\<forall>p \<in> set (er_parents r). parent_checked s commits r p"
    and "members_checked s commits c ids" "\<forall>x \<in> set ids. x \<in> keys_of s \<longrightarrow> entity_of s x \<noteq> er_entity_id r"
  shows "members_checked s commits c (rid # ids)"
proof -
  have "er_entity_id r \<notin> entity_of s ` {x \<in> set ids. x \<in> keys_of s}" using assms(5) by (rule contrapos_pn) (elim imageE, auto)
  moreover have "rid \<in> keys_of s" "entity_of s rid = er_entity_id r"
    using assms(1) by (simp_all add: keys_of_iff entity_of_def)
  ultimately show ?thesis
    using assms(1-4) by (simp add: members_checked_def)
qed

text \<open>What a successful walk returns, for a commit, for members of a commit and for parents of a member.\<close>

definition commit_result ::
    "revision_set \<Rightarrow> revision_commit btree \<Rightarrow> ustring \<Rightarrow> commit_visits \<Rightarrow> missing_records \<Rightarrow> commit_visits \<Rightarrow> bool" where
  "commit_result s commits cid visits m visits' \<longleftrightarrow>
     m = history_lacks s commits cid \<and> commit_walk_ok s commits visits' \<and> cid \<in> commits_finished visits' \<and>
     commits_finished visits \<subseteq> commits_finished visits'"

definition members_result ::
    "revision_set \<Rightarrow> revision_commit btree \<Rightarrow> ustring \<Rightarrow> ustring list \<Rightarrow> ustring set \<Rightarrow> missing_records \<Rightarrow> commit_visits \<Rightarrow>
      missing_records \<Rightarrow> commit_visits \<Rightarrow> bool" where
  "members_result s commits cid ids es missing visits m visits' \<longleftrightarrow>
     m = merge_missing missing (join_missing (map (member_lacks s commits) ids)) \<and>
     commit_walk_ok s commits visits' \<and> commits_finished visits \<subseteq> commits_finished visits' \<and>
     members_checked s commits cid ids \<and> (\<forall>rid \<in> set ids. rid \<in> keys_of s \<longrightarrow> entity_of s rid \<notin> es) \<and>
     (\<forall>rid \<in> set ids. \<forall>r p q. map_of s rid = Some r \<longrightarrow> p \<in> set (er_parents r) \<longrightarrow> map_of s p = Some q \<longrightarrow>
        er_commit_id q \<in> keys_of commits \<longrightarrow> er_commit_id q \<in> commits_finished visits')"

definition parents_result ::
    "revision_set \<Rightarrow> revision_commit btree \<Rightarrow> entity_revision \<Rightarrow> ustring list \<Rightarrow> missing_records \<Rightarrow> commit_visits \<Rightarrow>
      missing_records \<Rightarrow> commit_visits \<Rightarrow> bool" where
  "parents_result s commits r ps missing visits m visits' \<longleftrightarrow>
     m = merge_missing missing (join_missing (map (parent_lacks s commits) ps)) \<and>
     commit_walk_ok s commits visits' \<and> commits_finished visits \<subseteq> commits_finished visits' \<and>
     (\<forall>p \<in> set ps. parent_checked s commits r p) \<and>
     (\<forall>p \<in> set ps. \<forall>q. map_of s p = Some q \<longrightarrow> er_commit_id q \<in> keys_of commits \<longrightarrow>
        er_commit_id q \<in> commits_finished visits')"

lemma visited_commit_result:
  assumes "commit_walk_ok s commits visits" "map_of visits cid = Some w"
    and "visit_commit s commits cid visits = Inr (m, visits')"
  shows "commit_result s commits cid visits m visits'"
proof -
  from assms(2,3) have w: "visits' = visits" "w \<noteq> CommitVisiting" "w = CommitComplete \<and> m = no_missing \<or> w = CommitPending m"
    unfolding visit_commit.simps [of s commits cid visits] by (auto split: commit_visit.splits)
  with assms(2) have "cid \<in> commits_finished visits" by (simp add: commits_finished_def)
  moreover from this assms(1,2) have "w = commit_visit_of (history_lacks s commits cid)"
    by (auto simp: commit_walk_ok_def)
  ultimately show ?thesis
    using assms(1) w by (auto simp: commit_result_def commit_visit_of_def no_missing_iff split: if_splits)
qed

lemma entered_commit_result:
  assumes "commit_walk_ok s commits visits" "map_of visits cid = None" "map_of commits cid = Some c"
    and "members_result s commits cid (rc_revision_ids c) {} no_missing (btree_insert cid CommitVisiting visits) m visits1"
  shows "commit_result s commits cid visits m (btree_insert cid (commit_visit_of m) visits1)"
proof -
  note entered = commit_walk_enter [OF assms(1,2)]
  note inner = assms(4) [unfolded members_result_def]
  from inner have m: "m = history_lacks s commits cid" by (simp add: history_lacks_step [OF assms(3)])
  have checked: "commit_checked s commits cid" using inner assms(3) by (auto simp: commit_checked_def)
  have "\<forall>c'. (cid, c') \<in> commit_edges s commits \<longrightarrow> c' \<in> commits_finished visits1"
    unfolding commit_edge_iff [OF assms(3)] using inner by blast
  from commit_walk_leave [OF _ checked this] inner show ?thesis
    unfolding commit_result_def m entered(2) by auto
qed

lemma member_result_Cons:
  assumes r: "map_of s rid = Some r" "er_commit_id r = cid" "er_entity_id r \<notin> entities"
    and parents: "parents_result s commits r (er_parents r) missing visits m1 v1"
    and others: "members_result s commits cid rest (insert (er_entity_id r) entities) m1 v1 m visits'"
  shows "members_result s commits cid (rid # rest) entities missing visits m visits'"
proof -
  note parents = parents [unfolded parents_result_def] and others = others [unfolded members_result_def]
  have e: "entity_of s rid = er_entity_id r" "rid \<in> keys_of s" using r(1) by (simp_all add: entity_of_def keys_of_iff)
  have "members_checked s commits cid (rid # rest)"
    by (rule members_checked_Cons [OF r(1)]) (use parents others r in auto)
  moreover have "m = merge_missing missing (join_missing (map (member_lacks s commits) (rid # rest)))"
    using parents others r(1) by (simp add: member_lacks_def merge_missing_assoc)
  moreover have "\<forall>x \<in> set (rid # rest). x \<in> keys_of s \<longrightarrow> entity_of s x \<notin> entities"
    using others r e by auto
  moreover have "\<forall>x \<in> set (rid # rest). \<forall>r p q. map_of s x = Some r \<longrightarrow> p \<in> set (er_parents r) \<longrightarrow>
      map_of s p = Some q \<longrightarrow> er_commit_id q \<in> keys_of commits \<longrightarrow> er_commit_id q \<in> commits_finished visits'"
    using parents others r(1) by (metis (no_types, lifting) option.inject set_ConsD subsetD)
  ultimately show ?thesis using parents others unfolding members_result_def by blast
qed

lemma parents_result_Cons:
  assumes q: "map_of s p = Some q" "er_entity_id q = er_entity_id r" "map_of commits (er_commit_id q) = Some m0"
      "p \<in> set (rc_revision_ids m0)"
    and owner: "commit_result s commits (er_commit_id q) visits m1 v1"
    and others: "parents_result s commits r ps (merge_missing missing m1) v1 m visits'"
  shows "parents_result s commits r (p # ps) missing visits m visits'"
proof -
  note owner = owner [unfolded commit_result_def] and others = others [unfolded parents_result_def]
  have "er_commit_id q \<in> keys_of commits" using q(3) by (simp add: keys_of_iff)
  then have "parent_lacks s commits p = m1" using owner q(1) by (simp add: parent_lacks_def)
  moreover have "parent_checked s commits r p" using q by (simp add: parent_checked_def)
  ultimately show ?thesis
    using owner others q(1) unfolding parents_result_def by (auto simp: merge_missing_assoc)
qed

lemma visit_commit_correct:
  "commit_walk_ok s commits visits \<Longrightarrow> cid \<in> keys_of commits \<Longrightarrow>
     visit_commit s commits cid visits = Inr (m, visits') \<Longrightarrow> commit_result s commits cid visits m visits'"
  "commit_walk_ok s commits visits \<Longrightarrow> visit_members s commits cid ids es missing visits = Inr (m, visits') \<Longrightarrow>
     members_result s commits cid ids es missing visits m visits'"
  "commit_walk_ok s commits visits \<Longrightarrow> visit_member_parents s commits r ps missing visits = Inr (m, visits') \<Longrightarrow>
     parents_result s commits r ps missing visits m visits'"
proof (induction s commits cid visits and s commits cid ids es missing visits
    and s commits r ps missing visits arbitrary: m visits' and m visits' and m visits'
    rule: visit_commit_visit_members_visit_member_parents.induct)
  case (1 s commits cid visits)
  show ?case
  proof (cases "map_of visits cid")
    case None
    from 1(3) obtain c where c: "map_of commits cid = Some c" by (auto simp: keys_of_iff)
    from None c 1(4) obtain visits1 where
      inner: "visit_members s commits cid (rc_revision_ids c) {} no_missing (btree_insert cid CommitVisiting visits) = Inr (m, visits1)"
      and visits': "visits' = btree_insert cid (commit_visit_of m) visits1"
      by (auto simp: visit_commit.simps [of s commits cid visits] Let_def commit_visit_of_def split: sum.splits)
    show ?thesis unfolding visits'
      by (rule entered_commit_result [OF 1(2) None c 1(1) [OF None c commit_walk_enter(1) [OF 1(2) None] inner]])
  qed (rule visited_commit_result [OF 1(2) _ 1(4)])
next
  case (3 s commits cid rid rest entities missing visits)
  show ?case
  proof (cases "map_of s rid")
    case None
    have "rid \<notin> keys_of s" using None by (simp add: keys_of_iff)
    with 3(1) [OF None 3(4)] 3(5) None show ?thesis
      by (auto simp: members_result_def member_lacks_def members_checked_def merge_missing_def)
  next
    case (Some r)
    with 3(5) obtain m1 v1 where own: "\<not> er_commit_id r \<noteq> cid" "er_entity_id r \<notin> entities"
      and inner: "visit_member_parents s commits r (er_parents r) missing visits = Inr (m1, v1)"
      and rest: "visit_members s commits cid rest (insert (er_entity_id r) entities) m1 v1 = Inr (m, visits')"
      by (auto split: if_splits sum.splits)
    note parents = 3(2) [OF Some own 3(4) inner]
    then have "commit_walk_ok s commits v1" by (simp add: parents_result_def)
    from 3(3) [OF Some own inner refl this rest] show ?thesis
      using Some own parents by (blast intro: member_result_Cons)
  qed
next
  case (5 s commits r p ps missing visits)
  show ?case
  proof (cases "map_of s p")
    case None
    with 5(1) [OF None 5(5)] 5(6) show ?thesis
      by (auto simp: parents_result_def parent_lacks_def parent_checked_def merge_missing_def)
  next
    case q: (Some q)
    with 5(6) have same: "\<not> er_entity_id q \<noteq> er_entity_id r" by (auto split: if_splits)
    show ?thesis
    proof (cases "map_of commits (er_commit_id q)")
      case None
      have "er_commit_id q \<notin> keys_of commits" using None by (simp add: keys_of_iff)
      with 5(2) [OF q same None 5(5)] 5(6) q same None show ?thesis
        by (auto simp: parents_result_def parent_lacks_def parent_checked_def merge_missing_def)
    next
      case owner: (Some m0)
      with 5(6) q same obtain m1 v1 where listed: "\<not> p \<notin> set (rc_revision_ids m0)"
        and inner: "visit_commit s commits (er_commit_id q) visits = Inr (m1, v1)"
        and rest: "visit_member_parents s commits r ps (merge_missing missing m1) v1 = Inr (m, visits')"
        by (auto split: if_splits sum.splits)
      have known: "er_commit_id q \<in> keys_of commits" using owner by (simp add: keys_of_iff)
      note commit = 5(3) [OF q same owner listed 5(5) known inner]
      then have "commit_walk_ok s commits v1" by (simp add: commit_result_def)
      from 5(4) [OF q same owner listed inner refl this rest] show ?thesis
        using q same owner listed commit by (blast intro: parents_result_Cons)
    qed
  qed
qed (auto simp: members_result_def parents_result_def members_checked_def)

section \<open>Readiness\<close>

lemma commits_by_id_fold:
  "try_fold (add_known_commit is_uuid) m known = Inr commits \<Longrightarrow> btree_ok m \<Longrightarrow>
     \<forall>x k. map_of m x = Some k \<longrightarrow> rc_commit_id k = x \<Longrightarrow>
   btree_ok commits \<and> (\<forall>x k. map_of commits x = Some k \<longleftrightarrow>
     rc_commit_id k = x \<and> (map_of m x = Some k \<or> k \<in> set known))"
proof (induction known arbitrary: m)
  case (Cons k ks)
  from Cons.prems(1) obtain m1 where step: "add_known_commit is_uuid m k = Inr m1"
    and rest: "try_fold (add_known_commit is_uuid) m1 ks = Inr commits"
    by (auto simp: and_then_eq_Inr split: sum.splits)
  have m1: "btree_ok m1 \<and> (\<forall>x j. map_of m1 x = Some j \<longleftrightarrow> rc_commit_id j = x \<and> (map_of m x = Some j \<or> j = k))"
  proof (cases "map_of m (rc_commit_id k)")
    case None
    with step have "m1 = btree_insert (rc_commit_id k) k m"
      by (simp add: add_known_commit_def and_then_eq_Inr)
    with None Cons.prems(2,3) show ?thesis by auto
  next
    case (Some j)
    with step have "m1 = m" "j = k" by (simp_all add: add_known_commit_def and_then_eq_Inr split: if_splits)
    with Some Cons.prems(2,3) show ?thesis by auto
  qed
  then have own: "\<forall>x j. map_of m1 x = Some j \<longrightarrow> rc_commit_id j = x" by blast
  note all = Cons.IH [OF rest conjunct1 [OF m1] own]
  have "map_of commits x = Some j \<longleftrightarrow> rc_commit_id j = x \<and> (map_of m x = Some j \<or> j \<in> set (k # ks))" for x j
    using conjunct2 [OF all, rule_format, of x j] conjunct2 [OF m1, rule_format, of x j] by auto
  with all show ?case by blast
qed auto

lemma commits_by_id_table:
  assumes "commits_by_id is_uuid c known = Inr commits"
  shows "btree_ok commits" "map_of commits x = Some k \<longleftrightarrow> rc_commit_id k = x \<and> k \<in> insert c (set known)"
proof -
  have "try_fold (add_known_commit is_uuid) [(rc_commit_id c, c)] known = Inr commits"
    using assms by (simp add: commits_by_id_def)
  moreover have "btree_ok [(rc_commit_id c, c)]" by (simp add: btree_ok_def)
  moreover have "\<forall>x k. map_of [(rc_commit_id c, c)] x = Some k \<longrightarrow> rc_commit_id k = x" by simp
  ultimately have table: "btree_ok commits \<and> (\<forall>x k. map_of commits x = Some k \<longleftrightarrow>
      rc_commit_id k = x \<and> (map_of [(rc_commit_id c, c)] x = Some k \<or> k \<in> set known))"
    by (rule commits_by_id_fold)
  then show "btree_ok commits" by (rule conjunct1)
  have "map_of commits x = Some k \<longleftrightarrow> rc_commit_id k = x \<and> (map_of [(rc_commit_id c, c)] x = Some k \<or> k \<in> set known)"
    using table by blast
  then show "map_of commits x = Some k \<longleftrightarrow> rc_commit_id k = x \<and> k \<in> insert c (set known)"
    by (auto split: if_splits)
qed

text \<open>The table of a list of commits does not depend on which of them the readiness is asked for.\<close>

lemma commits_by_id_same:
  assumes "commits_by_id is_uuid c known = Inr commits" "commits_by_id is_uuid c' known = Inr commits'"
    and "c \<in> set known" "c' \<in> set known"
  shows "commits = commits'"
proof (rule btree_ext)
  show "btree_ok commits" "btree_ok commits'" using assms(1,2) commits_by_id_table(1) by blast+
  show "map_of commits = map_of commits'"
  proof
    fix x
    have "map_of commits x = Some k \<longleftrightarrow> map_of commits' x = Some k" for k
      unfolding commits_by_id_table(2) [OF assms(1)] commits_by_id_table(2) [OF assms(2)]
      using assms(3,4) by (simp add: insert_absorb)
    then show "map_of commits x = map_of commits' x" by (cases "map_of commits' x") auto
  qed
qed

lemma history_finished:
  assumes "commit_walk_ok s commits visits" "c \<in> commits_finished visits" "c' \<in> history s commits c"
  shows "c' \<in> commits_finished visits"
  using assms(3,2) assms(1) unfolding history_def mem_Collect_eq
  by (induction rule: rtrancl_induct) (auto simp: commit_walk_ok_def)

lemma commit_walk_Nil: "commit_walk_ok s commits []"
  by (simp add: commit_walk_ok_def commits_finished_def)

definition readiness_of :: "missing_records \<Rightarrow> commit_state" where
  "readiness_of m =
     (if m = no_missing then ReadyCommit
      else PendingCommit (sorted_list_of_set (mr_revisions m)) (sorted_list_of_set (mr_commits m)))"

lemma readiness_of_simps [simp]:
  "missing_revisions (readiness_of m) = sorted_list_of_set (mr_revisions m)"
  "missing_commits (readiness_of m) = sorted_list_of_set (mr_commits m)"
  "is_ready (readiness_of m) \<longleftrightarrow> m = no_missing"
  by (simp_all add: readiness_of_def no_missing_def)

lemma commit_readiness_walk:
  "commit_readiness is_uuid s commit known_commits =
     and_then (validate_commit is_uuid commit) (\<lambda>_.
     and_then (commits_by_id is_uuid commit known_commits) (\<lambda>commits.
     and_then (visit_commit s commits (rc_commit_id commit) []) (\<lambda>(missing, _). Inr (readiness_of missing))))"
  unfolding commit_readiness_def readiness_of_def no_missing_iff if_distrib [of Inr] ..

lemma commit_readiness_outcome:
  assumes "commit_readiness is_uuid s c known = Inr R"
  obtains commits where "commits_by_id is_uuid c known = Inr commits"
    "\<forall>c' \<in> history s commits (rc_commit_id c). commit_checked s commits c'"
    "missing_revisions R = sorted_list_of_set (mr_revisions (history_lacks s commits (rc_commit_id c)))"
    "missing_commits R = sorted_list_of_set (mr_commits (history_lacks s commits (rc_commit_id c)))"
    "is_ready R \<longleftrightarrow> history_lacks s commits (rc_commit_id c) = no_missing"
proof -
  let ?c = "rc_commit_id c"
  from assms obtain commits m visits where commits: "commits_by_id is_uuid c known = Inr commits"
    and walk: "visit_commit s commits ?c [] = Inr (m, visits)"
    and R: "R = readiness_of m"
    by (auto simp: commit_readiness_walk and_then_eq_Inr)
  have "?c \<in> keys_of commits"
    using commits_by_id_table(2) [OF commits, of ?c c] by (simp add: keys_of_iff)
  note found = visit_commit_correct(1) [OF commit_walk_Nil this walk, unfolded commit_result_def]
  show thesis
  proof (rule that [OF commits])
    show "\<forall>c' \<in> history s commits ?c. commit_checked s commits c'"
    proof
      fix c'
      assume "c' \<in> history s commits ?c"
      with found have "c' \<in> commits_finished visits" using history_finished by blast
      with found show "commit_checked s commits c'" by (simp add: commit_walk_ok_def)
    qed
  qed (use found R in simp_all)
qed

text \<open>A transaction without gaps: every commit of the history is known and holds all its members, which name
  it and whose parents are known and listed by the commit they name.\<close>

definition transaction_complete :: "revision_set \<Rightarrow> revision_commit btree \<Rightarrow> ustring \<Rightarrow> bool" where
  "transaction_complete s commits c \<longleftrightarrow>
     (\<exists>m. map_of commits c = Some m \<and>
        (\<forall>rid \<in> set (rc_revision_ids m). \<exists>r. map_of s rid = Some r \<and> er_commit_id r = c \<and>
           (\<forall>p \<in> set (er_parents r). \<exists>q n. map_of s p = Some q \<and> er_entity_id q = er_entity_id r \<and>
              map_of commits (er_commit_id q) = Some n \<and> p \<in> set (rc_revision_ids n))))"

lemma checked_without_gaps:
  assumes "commit_checked s commits c" "lacking_revisions s commits c = {}" "lacking_commits s commits c = {}"
  shows "transaction_complete s commits c"
proof -
  obtain m where m: "map_of commits c = Some m" "members_checked s commits c (rc_revision_ids m)"
    using assms(1) by (auto simp: commit_checked_def)
  note none = assms(2,3) [unfolded set_eq_iff empty_iff lacking_iff [OF m(1)]]
  have "\<exists>r. map_of s rid = Some r \<and> er_commit_id r = c \<and>
      (\<forall>p \<in> set (er_parents r). \<exists>q n. map_of s p = Some q \<and> er_entity_id q = er_entity_id r \<and>
         map_of commits (er_commit_id q) = Some n \<and> p \<in> set (rc_revision_ids n))"
    if rid: "rid \<in> set (rc_revision_ids m)" for rid
  proof -
    have "map_of s rid \<noteq> None" using spec [OF none(1), of rid] rid by auto
    then obtain r where r: "map_of s rid = Some r" by blast
    have own: "er_commit_id r = c" "\<forall>p \<in> set (er_parents r). parent_checked s commits r p"
      using m(2) rid r by (auto simp: members_checked_def)
    have "\<exists>q n. map_of s p = Some q \<and> er_entity_id q = er_entity_id r \<and>
        map_of commits (er_commit_id q) = Some n \<and> p \<in> set (rc_revision_ids n)" if p: "p \<in> set (er_parents r)" for p
    proof -
      have "map_of s p \<noteq> None" using spec [OF none(1), of p] rid r p by auto
      then obtain q where q: "map_of s p = Some q" by blast
      have "er_commit_id q \<in> keys_of commits" using spec [OF none(2), of "er_commit_id q"] rid r p q by blast
      then obtain n where "map_of commits (er_commit_id q) = Some n" by (auto simp: keys_of_iff)
      with own(2) p q show ?thesis by (auto simp: parent_checked_def)
    qed
    with r own(1) show ?thesis by blast
  qed
  with m(1) show ?thesis by (auto simp: transaction_complete_def)
qed

lemma ready_history:
  assumes "history_lacks s commits c = no_missing" "c' \<in> history s commits c"
  shows "lacking_revisions s commits c' = {}" "lacking_commits s commits c' = {}"
  using assms by (auto simp: no_missing_iff history_lacks_def)

end
