(* ===== verification/Record_Journal.thy ===== *)
theory Record_Journal
  imports Commit_Readiness Integrity
begin

text \<open>
  \<open>floria-replication/src/record_journal.rs\<close>: the authenticated journal of encrypted records. The SQLite
  tables are sorted maps from their primary keys to the remaining columns; a transaction is a function
  from the tables to new tables and is dropped when it fails. The snapshot of all tables must equal the
  document the state authenticator of \<open>Integrity\<close> holds in the sidecar before anything is read or
  written. The JSON of the columns, SHA-256 and UUID parsing are parameters; \<open>jw_commits\<close> scripts how
  SQLite finishes each transaction. A record error the code renders into the text of \<open>Invalid\<close> is kept as
  the value \<open>RepRecord\<close>. SQLite's own read and write errors are not modelled, nor are the
  creation of directories and the move of a journal from the layout without vault ids.
\<close>

section \<open>Data\<close>

datatype replication_error =
    RepInvalid string
  | RepRecord record_error
  | RepIntegrity integrity_error
  | RepJson
  | RepSqlite
  | ProjectionConflict "ustring list"

text \<open>One value of the expected heads: the plural form, or one of the shapes of older journals. For an
  array the decoded list of strings, if it is one.\<close>

datatype head_value = HeadNull | HeadString ustring | HeadArray "ustring list option" | HeadOther

record schema_object =
  so_kind :: string
  so_name :: string
  so_table_name :: string
  so_sql :: string

record journal_packages =
  jp_is_uuid :: "ustring \<Rightarrow> bool"
  jp_sha256 :: "bytes \<Rightarrow> bytes"
  jp_revision_json :: "entity_revision \<Rightarrow> bytes"
  jp_parse_revision :: "bytes \<Rightarrow> entity_revision option"
  jp_commit_json :: "revision_commit \<Rightarrow> bytes"
  jp_parse_commit :: "bytes \<Rightarrow> revision_commit option"
  jp_heads_json :: "ustring list btree \<Rightarrow> bytes"
  jp_parse_heads :: "bytes \<Rightarrow> head_value btree option"
  jp_projection_json :: "ustring btree \<Rightarrow> bytes"
  jp_parse_projection :: "bytes \<Rightarrow> ustring btree option"
  jp_schema :: "schema_object list"

record outbound_commit =
  ob_commit :: revision_commit
  ob_revisions :: "entity_revision list"
  ob_expected_heads :: "ustring list btree"
  ob_created_at :: ustring

record inbound_commit =
  ib_commit :: revision_commit
  ib_readiness :: commit_state
  ib_received_at :: ustring

record projection_batch =
  pj_commits :: "revision_commit list"
  pj_revisions :: "entity_revision list"
  pj_head_revision_ids :: "ustring list"

record conflict_head =
  ch_revision :: entity_revision
  ch_commit :: revision_commit

record pending_projection =
  pp_plan_id :: ustring
  pp_document :: bytes
  pp_head_revisions :: "ustring btree"
  pp_prepared_at :: ustring

record projection_checkpoint =
  pc_plan_id :: ustring
  pc_head_revisions :: "ustring btree"
  pc_applied_at :: ustring

datatype projection_preparation = Prepared | AlreadyPrepared | AlreadyApplied

record journal_status =
  js_outbound_transactions :: nat
  js_inbound_transactions :: nat
  js_pending_transactions :: nat
  js_conflicting_entities :: nat
  js_projection_pending :: bool

record journal_snapshot =
  sn_schema_version :: int
  sn_schema :: "schema_object list"
  sn_revisions :: "entity_revision list"
  sn_commits :: "revision_commit list"
  sn_outbound :: "outbound_commit list"
  sn_inbound :: "inbound_commit list"
  sn_pending_projection :: "pending_projection option"
  sn_projection_checkpoint :: "projection_checkpoint option"

text \<open>The tables: a revision row holds the entity id and the envelope, an outbox row the expected heads and
  the creation time, the intent and the checkpoint rows the columns after \<open>singleton\<close>.\<close>

record journal_db =
  db_user_version :: int
  db_schema :: "schema_object list"
  db_revisions :: "(ustring \<times> bytes) btree"
  db_commits :: "bytes btree"
  db_outbox :: "(bytes \<times> ustring) btree"
  db_inbox :: "ustring btree"
  db_intent :: "(ustring \<times> bytes \<times> bytes \<times> ustring) option"
  db_checkpoint :: "(ustring \<times> bytes \<times> ustring) option"

record journal_world =
  jw_packages :: journal_packages
  jw_db :: journal_db
  jw_auth :: "journal_snapshot auth_world"
  jw_sidecar :: string
  jw_domain :: string
  jw_status_cache :: "journal_status option"
  jw_commits :: "effect list"

type_synonym 'a journal_tx = "journal_db \<Rightarrow> replication_error + ('a \<times> journal_db)"

type_synonym 'a journal_op = "journal_world \<Rightarrow> journal_world \<times> (replication_error + 'a)"

definition SCHEMA_VERSION :: int where "SCHEMA_VERSION = 3"

definition MAX_PROJECTION_DOCUMENT_BYTES :: nat where
  "MAX_PROJECTION_DOCUMENT_BYTES = 64 * 1024 * 1024"

section \<open>Checks\<close>

definition require_uuid :: "journal_packages \<Rightarrow> ustring \<Rightarrow> replication_error + unit" where
  "require_uuid pk v = (if jp_is_uuid pk v then Inr () else Inl (RepInvalid ''is not a UUID''))"

definition require_plan_id :: "ustring \<Rightarrow> replication_error + unit" where
  "require_plan_id v =
     (if is_sha256_text v then Inr ()
      else Inl (RepInvalid ''projection plan id is not a lowercase SHA-256 digest''))"

definition require_projection_document :: "bytes \<Rightarrow> replication_error + unit" where
  "require_projection_document document =
     (if document = [] \<or> length document > MAX_PROJECTION_DOCUMENT_BYTES
      then Inl (RepInvalid ''projection document size'') else Inr ())"

definition require_projection_identity ::
    "journal_packages \<Rightarrow> ustring \<Rightarrow> bytes \<Rightarrow> replication_error + unit" where
  "require_projection_identity pk plan_id document =
     and_then (require_plan_id plan_id) (\<lambda>_.
     and_then (require_projection_document document) (\<lambda>_.
       if lit (to_hex (jp_sha256 pk document)) \<noteq> plan_id
       then Inl (RepInvalid ''projection plan id does not match its document'') else Inr ()))"

definition validate_projection_heads ::
    "journal_packages \<Rightarrow> ustring btree \<Rightarrow> replication_error + unit" where
  "validate_projection_heads pk =
     try_each (\<lambda>(entity_id, revision_id). and_then (require_uuid pk entity_id) (\<lambda>_. require_uuid pk revision_id))"

definition require_time :: "ustring \<Rightarrow> replication_error + ustring" where
  "require_time v = (if trim v = [] then Inl (RepInvalid ''cannot be empty'') else Inr v)"

definition validate_pending_projection ::
    "journal_packages \<Rightarrow> pending_projection \<Rightarrow> replication_error + unit" where
  "validate_pending_projection pk p =
     and_then (require_projection_identity pk (pp_plan_id p) (pp_document p)) (\<lambda>_.
     and_then (validate_projection_heads pk (pp_head_revisions p)) (\<lambda>_.
     and_then (require_time (pp_prepared_at p)) (\<lambda>_. Inr ())))"

definition validate_projection_checkpoint ::
    "journal_packages \<Rightarrow> projection_checkpoint \<Rightarrow> replication_error + unit" where
  "validate_projection_checkpoint pk c =
     and_then (require_plan_id (pc_plan_id c)) (\<lambda>_.
     and_then (validate_projection_heads pk (pc_head_revisions c)) (\<lambda>_.
     and_then (require_time (pc_applied_at c)) (\<lambda>_. Inr ())))"

section \<open>Canonical records\<close>

definition revision_set_from ::
    "journal_packages \<Rightarrow> entity_revision list \<Rightarrow> replication_error + revision_set" where
  "revision_set_from pk =
     try_fold (\<lambda>s r. map_err RepRecord (and_then (revision_set_insert (jp_is_uuid pk) r s) (\<lambda>(_, s). Inr s))) []"

definition canonical_revision :: "journal_packages \<Rightarrow> entity_revision \<Rightarrow> replication_error + entity_revision" where
  "canonical_revision pk revision =
     and_then (map_err RepRecord (revision_set_insert (jp_is_uuid pk) revision [])) (\<lambda>(_, s).
       ok_or (map_of s (er_revision_id revision)) (RepRecord (RecordPanic ''inserted revision is present'')))"

definition add_canonical ::
    "('r \<Rightarrow> ustring) \<Rightarrow> string \<Rightarrow> 'r btree \<Rightarrow> 'r \<Rightarrow> replication_error + 'r btree" where
  "add_canonical id_of reused by_id r =
     (case map_of by_id (id_of r) of
        Some existing \<Rightarrow> if existing = r then Inr by_id else Inl (RepInvalid reused)
      | None \<Rightarrow> Inr (btree_insert (id_of r) r by_id))"

definition canonical_revisions ::
    "journal_packages \<Rightarrow> entity_revision list \<Rightarrow> replication_error + entity_revision list" where
  "canonical_revisions pk revisions =
     and_then (try_fold (\<lambda>by_id r. and_then (canonical_revision pk r)
         (add_canonical er_revision_id ''revision id was reused for different content'' by_id)) [] revisions)
       (\<lambda>by_id. Inr (map snd by_id))"

definition canonical_commit :: "journal_packages \<Rightarrow> revision_commit \<Rightarrow> replication_error + revision_commit" where
  "canonical_commit pk commit =
     (let c = canonicalize_commit commit
      in and_then (map_err RepRecord (validate_commit (jp_is_uuid pk) c)) (\<lambda>_. Inr c))"

definition canonical_commits ::
    "journal_packages \<Rightarrow> revision_commit list \<Rightarrow> replication_error + revision_commit list" where
  "canonical_commits pk manifests =
     and_then (try_fold (\<lambda>by_id c. and_then (canonical_commit pk c)
         (add_canonical rc_commit_id ''commit id was reused for different content'' by_id)) [] manifests)
       (\<lambda>by_id. Inr (map snd by_id))"

fun check_expected ::
    "journal_packages \<Rightarrow> entity_revision \<Rightarrow> ustring list \<Rightarrow> replication_error + unit" where
  "check_expected pk r [] = Inr ()"
| "check_expected pk r (e # es) =
     and_then (require_uuid pk e) (\<lambda>_.
       if e \<notin> set (er_parents r) then Inl (RepInvalid ''expected head is not a parent of revision'')
       else check_expected pk r es)"

fun check_complete_members ::
    "journal_packages \<Rightarrow> revision_commit \<Rightarrow> ustring list btree \<Rightarrow> ustring set \<Rightarrow> entity_revision list \<Rightarrow>
      replication_error + ustring set" where
  "check_complete_members pk c expected_heads entities [] = Inr entities"
| "check_complete_members pk c expected_heads entities (r # rs) =
     (if er_commit_id r \<noteq> rc_commit_id c then Inl (RepInvalid ''revision declares another commit'')
      else if er_entity_id r \<in> entities
      then Inl (RepInvalid ''commit contains more than one revision for entity'')
      else
        and_then (ok_or (map_of expected_heads (er_entity_id r))
            (RepInvalid ''commit has no expected head for entity'')) (\<lambda>expected.
        and_then (check_expected pk r expected) (\<lambda>_.
          if set expected \<noteq> set (er_parents r)
          then Inl (RepInvalid ''revision expected heads do not exactly match its parents'')
          else check_complete_members pk c expected_heads (insert (er_entity_id r) entities) rs)))"

definition validate_complete_commit ::
    "journal_packages \<Rightarrow> revision_commit \<Rightarrow> entity_revision list \<Rightarrow> ustring list btree \<Rightarrow>
      replication_error + unit" where
  "validate_complete_commit pk c revisions expected_heads =
     (if set (rc_revision_ids c) \<noteq> er_revision_id ` set revisions
      then Inl (RepInvalid ''commit members do not match its supplied revisions'')
      else
        and_then (check_complete_members pk c expected_heads {} revisions) (\<lambda>entities.
          if card entities \<noteq> length expected_heads
          then Inl (RepInvalid ''commit expected heads name entities outside the transaction'')
          else Inr ()))"

section \<open>Reading the tables\<close>

definition decode_revision :: "journal_packages \<Rightarrow> bytes \<Rightarrow> replication_error + entity_revision" where
  "decode_revision pk envelope =
     and_then (ok_or (jp_parse_revision pk envelope) RepJson) (canonical_revision pk)"

definition decode_commit :: "journal_packages \<Rightarrow> bytes \<Rightarrow> replication_error + revision_commit" where
  "decode_commit pk manifest =
     and_then (ok_or (jp_parse_commit pk manifest) RepJson) (canonical_commit pk)"

definition revisions_from :: "journal_packages \<Rightarrow> journal_db \<Rightarrow> replication_error + entity_revision list" where
  "revisions_from pk db =
     try_map (\<lambda>(revision_id, entity_id, envelope).
       and_then (decode_revision pk envelope) (\<lambda>r.
         if er_revision_id r \<noteq> revision_id \<or> er_entity_id r \<noteq> entity_id
         then Inl (RepInvalid ''record revision index does not match envelope'') else Inr r)) (db_revisions db)"

definition revision_by_id ::
    "journal_packages \<Rightarrow> journal_db \<Rightarrow> ustring \<Rightarrow> replication_error + entity_revision option" where
  "revision_by_id pk db revision_id =
     (case map_of (db_revisions db) revision_id of
        None \<Rightarrow> Inr None
      | Some (_, envelope) \<Rightarrow> and_then (decode_revision pk envelope) (\<lambda>r. Inr (Some r)))"

definition commits_from :: "journal_packages \<Rightarrow> journal_db \<Rightarrow> replication_error + revision_commit list" where
  "commits_from pk db =
     try_map (\<lambda>(commit_id, manifest).
       and_then (decode_commit pk manifest) (\<lambda>c.
         if rc_commit_id c \<noteq> commit_id
         then Inl (RepInvalid ''record commit index does not match manifest'') else Inr c)) (db_commits db)"

definition commit_by_id ::
    "journal_packages \<Rightarrow> journal_db \<Rightarrow> ustring \<Rightarrow> replication_error + revision_commit option" where
  "commit_by_id pk db commit_id =
     (case map_of (db_commits db) commit_id of
        None \<Rightarrow> Inr None
      | Some manifest \<Rightarrow> and_then (decode_commit pk manifest) (\<lambda>c. Inr (Some c)))"

definition revisions_for_commit ::
    "journal_packages \<Rightarrow> journal_db \<Rightarrow> revision_commit \<Rightarrow> replication_error + entity_revision list" where
  "revisions_for_commit pk db c =
     try_map (\<lambda>rid. and_then (revision_by_id pk db rid) (\<lambda>r.
       ok_or r (RepInvalid ''commit revision is missing''))) (rc_revision_ids c)"

definition normalize_expected_heads :: "head_value btree \<Rightarrow> replication_error + ustring list btree" where
  "normalize_expected_heads =
     try_map (\<lambda>(entity_id, v).
       case v of
         HeadNull \<Rightarrow> Inr (entity_id, [])
       | HeadString head \<Rightarrow> Inr (entity_id, [head])
       | HeadArray heads \<Rightarrow> and_then (ok_or heads RepJson) (\<lambda>heads. Inr (entity_id, heads))
       | HeadOther \<Rightarrow> Inl (RepInvalid ''outbox expected heads have an invalid shape''))"

definition decode_expected_heads :: "journal_packages \<Rightarrow> bytes \<Rightarrow> replication_error + ustring list btree" where
  "decode_expected_heads pk document =
     and_then (ok_or (jp_parse_heads pk document) RepJson) normalize_expected_heads"

definition outbound_from :: "journal_packages \<Rightarrow> journal_db \<Rightarrow> replication_error + outbound_commit list" where
  "outbound_from pk db =
     try_map (\<lambda>(commit_id, heads_json, created_at).
       and_then (commit_by_id pk db commit_id) (\<lambda>found.
       and_then (ok_or found (RepInvalid ''outbox commit is missing'')) (\<lambda>c.
       and_then (revisions_for_commit pk db c) (\<lambda>revisions.
       and_then (decode_expected_heads pk heads_json) (\<lambda>heads.
         Inr \<lparr>ob_commit = c, ob_revisions = revisions, ob_expected_heads = heads, ob_created_at = created_at\<rparr>)))))
     (sort_key (\<lambda>(commit_id, _, created_at). (created_at, commit_id)) (db_outbox db))"

definition outbound_by_id ::
    "journal_packages \<Rightarrow> journal_db \<Rightarrow> ustring \<Rightarrow> replication_error + outbound_commit option" where
  "outbound_by_id pk db commit_id =
     and_then (outbound_from pk db) (\<lambda>items. Inr (find (\<lambda>i. rc_commit_id (ob_commit i) = commit_id) items))"

definition readiness_in ::
    "journal_packages \<Rightarrow> revision_set \<Rightarrow> revision_commit list \<Rightarrow> revision_commit \<Rightarrow>
      replication_error + commit_state" where
  "readiness_in pk s manifests c = map_err RepRecord (commit_readiness (jp_is_uuid pk) s c manifests)"

definition inbound_from :: "journal_packages \<Rightarrow> journal_db \<Rightarrow> replication_error + inbound_commit list" where
  "inbound_from pk db =
     and_then (revisions_from pk db) (\<lambda>revisions.
     and_then (revision_set_from pk revisions) (\<lambda>s.
     and_then (commits_from pk db) (\<lambda>manifests.
       try_map (\<lambda>(commit_id, received_at).
         and_then (commit_by_id pk db commit_id) (\<lambda>found.
         and_then (ok_or found (RepInvalid ''inbox commit is missing'')) (\<lambda>c.
         and_then (readiness_in pk s manifests c) (\<lambda>readiness.
           Inr \<lparr>ib_commit = c, ib_readiness = readiness, ib_received_at = received_at\<rparr>))))
       (sort_key (\<lambda>(commit_id, received_at). (received_at, commit_id)) (db_inbox db)))))"

definition inbound_by_id ::
    "journal_packages \<Rightarrow> journal_db \<Rightarrow> ustring \<Rightarrow> replication_error + inbound_commit option" where
  "inbound_by_id pk db commit_id =
     and_then (inbound_from pk db) (\<lambda>items. Inr (find (\<lambda>i. rc_commit_id (ib_commit i) = commit_id) items))"

definition pending_projection_from ::
    "journal_packages \<Rightarrow> journal_db \<Rightarrow> replication_error + pending_projection option" where
  "pending_projection_from pk db =
     (case db_intent db of
        None \<Rightarrow> Inr None
      | Some (plan_id, document, heads_json, prepared_at) \<Rightarrow>
          and_then (ok_or (jp_parse_projection pk heads_json) RepJson) (\<lambda>heads.
            Inr (Some \<lparr>pp_plan_id = plan_id, pp_document = document, pp_head_revisions = heads,
                        pp_prepared_at = prepared_at\<rparr>)))"

definition projection_checkpoint_from ::
    "journal_packages \<Rightarrow> journal_db \<Rightarrow> replication_error + projection_checkpoint option" where
  "projection_checkpoint_from pk db =
     (case db_checkpoint db of
        None \<Rightarrow> Inr None
      | Some (plan_id, heads_json, applied_at) \<Rightarrow>
          and_then (ok_or (jp_parse_projection pk heads_json) RepJson) (\<lambda>heads.
            Inr (Some \<lparr>pc_plan_id = plan_id, pc_head_revisions = heads, pc_applied_at = applied_at\<rparr>)))"

definition security_snapshot_from :: "journal_packages \<Rightarrow> journal_db \<Rightarrow> replication_error + journal_snapshot" where
  "security_snapshot_from pk db =
     (if db_user_version db \<noteq> SCHEMA_VERSION then Inl (RepInvalid ''record journal schema version'')
      else if \<exists>x \<in> set (db_schema db). so_kind x = ''trigger'' \<or> so_kind x = ''view''
      then Inl (RepInvalid ''record journal contains unsupported schema object'')
      else
        and_then (revisions_from pk db) (\<lambda>revisions.
        and_then (commits_from pk db) (\<lambda>manifests.
        and_then (outbound_from pk db) (\<lambda>outbound.
        and_then (inbound_from pk db) (\<lambda>inbound.
        and_then (pending_projection_from pk db) (\<lambda>pending.
        and_then (projection_checkpoint_from pk db) (\<lambda>checkpoint.
          Inr \<lparr>sn_schema_version = db_user_version db, sn_schema = db_schema db, sn_revisions = revisions,
                sn_commits = manifests, sn_outbound = outbound, sn_inbound = inbound,
                sn_pending_projection = pending, sn_projection_checkpoint = checkpoint\<rparr>)))))))"

section \<open>The snapshot\<close>

definition check_outbound_item ::
    "journal_packages \<Rightarrow> revision_set \<Rightarrow> journal_snapshot \<Rightarrow> outbound_commit \<Rightarrow> replication_error + unit" where
  "check_outbound_item pk s n item =
     (if ob_commit item \<notin> set (sn_commits n)
      then Inl (RepInvalid ''outbox commit is missing from immutable history'')
      else
        and_then (validate_complete_commit pk (ob_commit item) (ob_revisions item) (ob_expected_heads item)) (\<lambda>_.
        and_then (readiness_in pk s (sn_commits n) (ob_commit item)) (\<lambda>readiness.
          if \<not> is_ready readiness then Inl (RepInvalid ''outbox commit is missing immutable ancestry'')
          else Inr ())))"

definition check_inbound_item ::
    "journal_packages \<Rightarrow> revision_set \<Rightarrow> journal_snapshot \<Rightarrow> inbound_commit \<Rightarrow> replication_error + unit" where
  "check_inbound_item pk s n item =
     (if ib_commit item \<notin> set (sn_commits n)
      then Inl (RepInvalid ''inbox commit is missing from immutable history'')
      else
        and_then (readiness_in pk s (sn_commits n) (ib_commit item)) (\<lambda>expected.
          if expected \<noteq> ib_readiness item
          then Inl (RepInvalid ''inbox commit readiness does not match immutable history'')
          else Inr ()))"

definition validate_snapshot :: "journal_packages \<Rightarrow> journal_snapshot \<Rightarrow> replication_error + unit" where
  "validate_snapshot pk n =
     and_then (revision_set_from pk (sn_revisions n)) (\<lambda>s.
     and_then (map_err RepRecord (analyze s)) (\<lambda>_.
     and_then (try_each (\<lambda>c. and_then (readiness_in pk s (sn_commits n) c) (\<lambda>_. Inr ())) (sn_commits n)) (\<lambda>_.
     and_then (try_each (check_outbound_item pk s n) (sn_outbound n)) (\<lambda>_.
     and_then (try_each (check_inbound_item pk s n) (sn_inbound n)) (\<lambda>_.
     and_then (case sn_pending_projection n of None \<Rightarrow> Inr () | Some p \<Rightarrow> validate_pending_projection pk p) (\<lambda>_.
       case sn_projection_checkpoint n of None \<Rightarrow> Inr () | Some c \<Rightarrow> validate_projection_checkpoint pk c))))))"

definition analysis_from ::
    "journal_packages \<Rightarrow> entity_revision list \<Rightarrow> replication_error + revision_analysis" where
  "analysis_from pk revisions =
     and_then (revision_set_from pk revisions) (\<lambda>s. map_err RepRecord (analyze s))"

text \<open>The commits that are ready, with the member ids they contribute.\<close>

definition note_ready ::
    "journal_packages \<Rightarrow> revision_set \<Rightarrow> revision_commit list \<Rightarrow> revision_commit list \<times> ustring set \<Rightarrow>
      revision_commit \<Rightarrow> replication_error + (revision_commit list \<times> ustring set)" where
  "note_ready pk s known = (\<lambda>(ready, ids) c.
     and_then (readiness_in pk s known c) (\<lambda>readiness.
       Inr (if is_ready readiness then (ready @ [c], ids \<union> set (rc_revision_ids c)) else (ready, ids))))"

definition eligible_records_from ::
    "journal_packages \<Rightarrow> journal_snapshot \<Rightarrow>
      replication_error + (revision_commit list \<times> entity_revision list \<times> revision_analysis)" where
  "eligible_records_from pk n =
     and_then (revision_set_from pk (sn_revisions n)) (\<lambda>s.
     and_then (try_fold (note_ready pk s (sn_commits n)) ([], {}) (sn_commits n)) (\<lambda>(ready, ids).
       let revisions = filter (\<lambda>r. er_revision_id r \<in> ids) (sn_revisions n) in
       and_then (analysis_from pk revisions) (\<lambda>a.
         if ra_pending a \<noteq> []
         then Inl (RepInvalid ''committed projection history contains missing ancestry'')
         else Inr (ready, revisions, a))))"

definition projection_records_from ::
    "journal_packages \<Rightarrow> journal_snapshot \<Rightarrow> replication_error + projection_batch" where
  "projection_records_from pk n =
     and_then (eligible_records_from pk n) (\<lambda>(ready, revisions, a).
       let conflicts = map fst (filter (\<lambda>(_, heads). length heads > 1) (ra_heads a)) in
       if conflicts \<noteq> [] then Inl (ProjectionConflict conflicts)
       else Inr \<lparr>pj_commits = ready, pj_revisions = revisions,
                  pj_head_revision_ids = concat (map snd (ra_heads a))\<rparr>)"

definition pending_transaction_count_from :: "journal_snapshot \<Rightarrow> nat" where
  "pending_transaction_count_from n =
     card (set (filter (\<lambda>cid. cid \<notin> rc_commit_id ` set (sn_commits n)) (map er_commit_id (sn_revisions n))) \<union>
           set (map (\<lambda>i. rc_commit_id (ib_commit i)) (filter (\<lambda>i. \<not> is_ready (ib_readiness i)) (sn_inbound n))))"

definition conflict_heads_of ::
    "revision_commit btree \<Rightarrow> entity_revision btree \<Rightarrow> ustring list \<Rightarrow> replication_error + conflict_head list" where
  "conflict_heads_of commits_map revisions_map =
     try_map (\<lambda>rid.
       and_then (ok_or (map_of revisions_map rid) (RepInvalid ''conflict head revision is missing'')) (\<lambda>r.
       and_then (ok_or (map_of commits_map (er_commit_id r))
           (RepInvalid ''conflict head revision has no owning commit'')) (\<lambda>c.
         Inr \<lparr>ch_revision = r, ch_commit = c\<rparr>)))"

definition index_by :: "('r \<Rightarrow> ustring) \<Rightarrow> 'r list \<Rightarrow> 'r btree" where
  "index_by id_of rs = foldl (\<lambda>m r. btree_insert (id_of r) r m) [] rs"

definition conflicting_heads_from ::
    "journal_packages \<Rightarrow> journal_snapshot \<Rightarrow> replication_error + conflict_head list btree" where
  "conflicting_heads_from pk n =
     and_then (eligible_records_from pk n) (\<lambda>(ready, revisions, a).
       try_map (\<lambda>(entity_id, head_ids).
           and_then (conflict_heads_of (index_by rc_commit_id ready) (index_by er_revision_id revisions) head_ids)
             (\<lambda>heads. Inr (entity_id, heads)))
         (filter (\<lambda>(_, head_ids). \<not> length head_ids \<le> 1) (ra_heads a)))"

section \<open>Transactions\<close>

definition verify_snapshot :: "journal_snapshot \<Rightarrow> nat journal_op" where
  "verify_snapshot current w =
     (case state_load (jw_auth w) (jw_sidecar w) (jw_domain w) of
        (a, loaded) \<Rightarrow>
          (w\<lparr>jw_auth := a\<rparr>,
           and_then (map_err RepIntegrity loaded) (\<lambda>l.
           and_then (ok_or (ls_value l) (RepInvalid ''authenticated record journal snapshot is missing'')) (\<lambda>v.
             if v \<noteq> current
             then Inl (RepInvalid ''record journal changed outside its authenticated transaction boundary'')
             else Inr (ls_generation l)))))"

definition with_read :: "(journal_snapshot \<Rightarrow> replication_error + 'a) \<Rightarrow> 'a journal_op" where
  "with_read operation w =
     (case security_snapshot_from (jw_packages w) (jw_db w) of
        Inl e \<Rightarrow> (w, Inl e)
      | Inr current \<Rightarrow>
          (case verify_snapshot current w of
             (w, Inl e) \<Rightarrow> (w, Inl e)
           | (w, Inr _) \<Rightarrow> (w, operation current)))"

text \<open>The end of the SQLite transaction: nothing is stored, or all of it; the caller may see an error in
  either case.\<close>

definition finish_transaction :: "journal_db \<Rightarrow> 'a \<Rightarrow> 'a journal_op" where
  "finish_transaction db result w =
     (let w0 = w\<lparr>jw_commits := tl (jw_commits w)\<rparr>
      in case (case jw_commits w of [] \<Rightarrow> Done | f # _ \<Rightarrow> f) of
           Done \<Rightarrow> (w0\<lparr>jw_db := db, jw_status_cache := None\<rparr>, Inr result)
         | FailedBefore \<Rightarrow> (w0, Inl RepSqlite)
         | FailedAfter \<Rightarrow> (w0\<lparr>jw_db := db\<rparr>, Inl RepSqlite))"

definition with_mutation :: "'a journal_tx \<Rightarrow> 'a journal_op" where
  "with_mutation operation w =
     (case security_snapshot_from (jw_packages w) (jw_db w) of
        Inl e \<Rightarrow> (w, Inl e)
      | Inr current \<Rightarrow>
     (case verify_snapshot current w of
        (w, Inl e) \<Rightarrow> (w, Inl e)
      | (w, Inr generation) \<Rightarrow>
     (case operation (jw_db w) of
        Inl e \<Rightarrow> (w, Inl e)
      | Inr (result, db) \<Rightarrow>
     (case security_snapshot_from (jw_packages w) db of
        Inl e \<Rightarrow> (w, Inl e)
      | Inr after \<Rightarrow>
     (case validate_snapshot (jw_packages w) after of
        Inl e \<Rightarrow> (w, Inl e)
      | Inr _ \<Rightarrow>
     (case state_persist (jw_auth w) (jw_sidecar w) (jw_domain w) generation after of
        (a, Inl e) \<Rightarrow> (w\<lparr>jw_auth := a\<rparr>, Inl (RepIntegrity e))
      | (a, Inr _) \<Rightarrow> finish_transaction db result (w\<lparr>jw_auth := a\<rparr>)))))))"

definition store_revision :: "journal_packages \<Rightarrow> journal_db \<Rightarrow> entity_revision \<Rightarrow> replication_error + journal_db" where
  "store_revision pk db r =
     (case map_of (db_revisions db) (er_revision_id r) of
        None \<Rightarrow> Inr (db\<lparr>db_revisions :=
            btree_insert (er_revision_id r) (er_entity_id r, jp_revision_json pk r) (db_revisions db)\<rparr>)
      | Some _ \<Rightarrow>
          and_then (revision_by_id pk db (er_revision_id r)) (\<lambda>found.
          and_then (ok_or found (RepInvalid ''record revision row disappeared'')) (\<lambda>existing.
            if existing \<noteq> r then Inl (RepInvalid ''revision id was reused for different content'')
            else Inr db)))"

definition store_commit :: "journal_packages \<Rightarrow> journal_db \<Rightarrow> revision_commit \<Rightarrow> replication_error + journal_db" where
  "store_commit pk db c =
     (case map_of (db_commits db) (rc_commit_id c) of
        None \<Rightarrow> Inr (db\<lparr>db_commits := btree_insert (rc_commit_id c) (jp_commit_json pk c) (db_commits db)\<rparr>)
      | Some _ \<Rightarrow>
          and_then (commit_by_id pk db (rc_commit_id c)) (\<lambda>found.
          and_then (ok_or found (RepInvalid ''record commit row disappeared'')) (\<lambda>existing.
            if existing \<noteq> c then Inl (RepInvalid ''commit id was reused for different content'')
            else Inr db)))"

section \<open>Queues\<close>

definition queue_tx ::
    "journal_packages \<Rightarrow> revision_commit \<Rightarrow> entity_revision list \<Rightarrow> ustring list btree \<Rightarrow> ustring \<Rightarrow> unit journal_tx" where
  "queue_tx pk c revisions expected_heads created_at db =
     and_then (try_fold (store_revision pk) db revisions) (\<lambda>db.
     and_then (store_commit pk db c) (\<lambda>db.
       case map_of (db_outbox db) (rc_commit_id c) of
         None \<Rightarrow> Inr ((), db\<lparr>db_outbox :=
             btree_insert (rc_commit_id c) (jp_heads_json pk expected_heads, created_at) (db_outbox db)\<rparr>)
       | Some _ \<Rightarrow>
           and_then (outbound_by_id pk db (rc_commit_id c)) (\<lambda>found.
           and_then (ok_or found (RepInvalid ''record outbox row disappeared'')) (\<lambda>existing.
             if existing \<noteq> \<lparr>ob_commit = c, ob_revisions = revisions, ob_expected_heads = expected_heads,
                             ob_created_at = created_at\<rparr>
             then Inl (RepInvalid ''outbound commit is already queued with different delivery state'')
             else Inr ((), db)))))"

definition queue_outbound ::
    "revision_commit \<Rightarrow> entity_revision list \<Rightarrow> ustring list btree \<Rightarrow> ustring \<Rightarrow> unit journal_op" where
  "queue_outbound commit revisions expected_heads created_at w =
     (let pk = jw_packages w in
      case and_then (canonical_commit pk commit) (\<lambda>c.
           and_then (canonical_revisions pk revisions) (\<lambda>rs.
           and_then (validate_complete_commit pk c rs expected_heads) (\<lambda>_.
           and_then (require_time created_at) (\<lambda>at. Inr (c, rs, at))))) of
        Inl e \<Rightarrow> (w, Inl e)
      | Inr (c, rs, at) \<Rightarrow> with_mutation (queue_tx pk c rs expected_heads at) w)"

definition receive_commit ::
    "journal_packages \<Rightarrow> ustring \<Rightarrow> journal_db \<Rightarrow> revision_commit \<Rightarrow> replication_error + journal_db" where
  "receive_commit pk received_at db c =
     and_then (store_commit pk db c) (\<lambda>db.
       Inr (db\<lparr>db_inbox := btree_modify (rc_commit_id c) (\<lambda>at. at) received_at (db_inbox db)\<rparr>))"

definition receive_tx ::
    "journal_packages \<Rightarrow> revision_commit list \<Rightarrow> entity_revision list \<Rightarrow> ustring \<Rightarrow> unit journal_tx" where
  "receive_tx pk cs revisions received_at db =
     and_then (try_fold (store_revision pk) db revisions) (\<lambda>db.
     and_then (try_fold (receive_commit pk received_at) db cs) (\<lambda>db. Inr ((), db)))"

definition receive_inbound :: "revision_commit list \<Rightarrow> entity_revision list \<Rightarrow> ustring \<Rightarrow> unit journal_op" where
  "receive_inbound cs revisions received_at w =
     (let pk = jw_packages w in
      case and_then (canonical_commits pk cs) (\<lambda>cs.
           and_then (canonical_revisions pk revisions) (\<lambda>rs.
           and_then (require_time received_at) (\<lambda>at. Inr (cs, rs, at)))) of
        Inl e \<Rightarrow> (w, Inl e)
      | Inr (cs, rs, at) \<Rightarrow> with_mutation (receive_tx pk cs rs at) w)"

definition delete_outbox :: "ustring \<Rightarrow> journal_db \<Rightarrow> nat \<times> journal_db" where
  "delete_outbox cid db =
     (length (filter (\<lambda>row. fst row = cid) (db_outbox db)),
      db\<lparr>db_outbox := filter (\<lambda>row. fst row \<noteq> cid) (db_outbox db)\<rparr>)"

definition delete_inbox :: "ustring \<Rightarrow> journal_db \<Rightarrow> nat \<times> journal_db" where
  "delete_inbox cid db =
     (length (filter (\<lambda>row. fst row = cid) (db_inbox db)),
      db\<lparr>db_inbox := filter (\<lambda>row. fst row \<noteq> cid) (db_inbox db)\<rparr>)"

definition delete_each :: "(ustring \<Rightarrow> journal_db \<Rightarrow> nat \<times> journal_db) \<Rightarrow> ustring list \<Rightarrow> nat journal_tx" where
  "delete_each delete ids db =
     Inr (foldl (\<lambda>(settled, db) cid. case delete cid db of (k, db) \<Rightarrow> (settled + k, db)) (0, db) ids)"

definition settle_outbound :: "ustring \<Rightarrow> bool journal_op" where
  "settle_outbound cid w =
     (case require_uuid (jw_packages w) cid of
        Inl e \<Rightarrow> (w, Inl e)
      | Inr _ \<Rightarrow> with_mutation (\<lambda>db. case delete_outbox cid db of (k, db) \<Rightarrow> Inr (k \<noteq> 0, db)) w)"

text \<open>The ids of a batch come from a \<open>BTreeSet\<close>, in increasing order.\<close>

definition settle_outbound_batch :: "ustring set \<Rightarrow> nat journal_op" where
  "settle_outbound_batch ids w =
     (let pk = jw_packages w; ids = sorted_list_of_set ids in
      if ids = [] then (w, Inr 0)
      else case try_each (require_uuid pk) ids of
        Inl e \<Rightarrow> (w, Inl e)
      | Inr _ \<Rightarrow> with_mutation (\<lambda>db.
          and_then (try_each (\<lambda>cid. and_then (commit_by_id pk db cid) (\<lambda>found.
              if found = None then Inl (RepInvalid ''cannot settle unknown commit'') else Inr ())) ids) (\<lambda>_.
            delete_each delete_outbox ids db)) w)"

definition settle_inbound :: "ustring \<Rightarrow> bool journal_op" where
  "settle_inbound cid w =
     (let pk = jw_packages w in
      case require_uuid pk cid of
        Inl e \<Rightarrow> (w, Inl e)
      | Inr _ \<Rightarrow> with_mutation (\<lambda>db.
          and_then (inbound_by_id pk db cid) (\<lambda>item.
            if (case item of None \<Rightarrow> False | Some i \<Rightarrow> \<not> is_ready (ib_readiness i))
            then Inl (RepInvalid ''inbound commit is still missing revisions'')
            else (case delete_inbox cid db of (k, db) \<Rightarrow> Inr (k \<noteq> 0, db)))) w)"

definition settle_inbound_batch :: "ustring set \<Rightarrow> nat journal_op" where
  "settle_inbound_batch ids w =
     (let pk = jw_packages w; ids = sorted_list_of_set ids in
      if ids = [] then (w, Inr 0)
      else case try_each (require_uuid pk) ids of
        Inl e \<Rightarrow> (w, Inl e)
      | Inr _ \<Rightarrow> with_mutation (\<lambda>db.
          and_then (try_each (\<lambda>cid. and_then (inbound_by_id pk db cid) (\<lambda>found.
              and_then (ok_or found (RepInvalid ''cannot settle inbound commit because it is not pending'')) (\<lambda>i.
                if \<not> is_ready (ib_readiness i)
                then Inl (RepInvalid ''inbound commit is still missing revisions'') else Inr ()))) ids) (\<lambda>_.
            delete_each delete_inbox ids db)) w)"

definition outbound :: "outbound_commit list journal_op" where
  "outbound = with_read (\<lambda>n. Inr (sn_outbound n))"

definition inbound :: "inbound_commit list journal_op" where
  "inbound = with_read (\<lambda>n. Inr (sn_inbound n))"

definition ready_inbound :: "inbound_commit list journal_op" where
  "ready_inbound = with_read (\<lambda>n. Inr (filter (\<lambda>i. is_ready (ib_readiness i)) (sn_inbound n)))"

definition pending_transactions :: "nat journal_op" where
  "pending_transactions = with_read (\<lambda>n. Inr (pending_transaction_count_from n))"

definition status_of :: "journal_packages \<Rightarrow> journal_snapshot \<Rightarrow> replication_error + journal_status" where
  "status_of pk n =
     and_then (case projection_records_from pk n of
                 Inr _ \<Rightarrow> Inr 0
               | Inl (ProjectionConflict ids) \<Rightarrow> Inr (length ids)
               | Inl e \<Rightarrow> Inl e) (\<lambda>conflicting.
       Inr \<lparr>js_outbound_transactions = length (sn_outbound n), js_inbound_transactions = length (sn_inbound n),
             js_pending_transactions = pending_transaction_count_from n,
             js_conflicting_entities = conflicting,
             js_projection_pending = (sn_pending_projection n \<noteq> None)\<rparr>)"

definition journal_status_op :: "journal_status journal_op" where
  "journal_status_op w =
     (case jw_status_cache w of
        Some st \<Rightarrow> (w, Inr st)
      | None \<Rightarrow>
          (case with_read (status_of (jw_packages w)) w of
             (w, Inl e) \<Rightarrow> (w, Inl e)
           | (w, Inr st) \<Rightarrow> (w\<lparr>jw_status_cache := Some st\<rparr>, Inr st)))"

definition analysis :: "revision_analysis journal_op" where
  "analysis w = with_read (\<lambda>n. analysis_from (jw_packages w) (sn_revisions n)) w"

definition projection_records :: "projection_batch journal_op" where
  "projection_records w = with_read (projection_records_from (jw_packages w)) w"

definition conflicting_heads :: "conflict_head list btree journal_op" where
  "conflicting_heads w = with_read (conflicting_heads_from (jw_packages w)) w"

section \<open>Projections\<close>

definition prepare_tx ::
    "journal_packages \<Rightarrow> ustring \<Rightarrow> bytes \<Rightarrow> ustring btree \<Rightarrow> ustring \<Rightarrow> projection_preparation journal_tx" where
  "prepare_tx pk plan_id document head_revisions prepared_at db =
     and_then (projection_checkpoint_from pk db) (\<lambda>checkpoint.
       let same_heads = (case checkpoint of None \<Rightarrow> False | Some c \<Rightarrow> pc_head_revisions c = head_revisions) in
       if same_heads \<and> pc_plan_id (the checkpoint) = plan_id then Inr (AlreadyApplied, db)
       else if same_heads then Inl (RepInvalid ''projection heads already have a different completed plan'')
       else
         and_then (pending_projection_from pk db) (\<lambda>pending.
           case pending of
             Some p \<Rightarrow>
               if pp_plan_id p = plan_id \<and> pp_document p = document \<and> pp_head_revisions p = head_revisions
               then Inr (AlreadyPrepared, db)
               else Inl (RepInvalid ''projection must finish before preparing'')
           | None \<Rightarrow>
               Inr (Prepared, db\<lparr>db_intent :=
                 Some (plan_id, document, jp_projection_json pk head_revisions, prepared_at)\<rparr>)))"

definition prepare_projection ::
    "ustring \<Rightarrow> bytes \<Rightarrow> ustring btree \<Rightarrow> ustring \<Rightarrow> projection_preparation journal_op" where
  "prepare_projection plan_id document head_revisions prepared_at w =
     (let pk = jw_packages w in
      case and_then (require_projection_identity pk plan_id document) (\<lambda>_.
           and_then (validate_projection_heads pk head_revisions) (\<lambda>_. require_time prepared_at)) of
        Inl e \<Rightarrow> (w, Inl e)
      | Inr at \<Rightarrow> with_mutation (prepare_tx pk plan_id document head_revisions at) w)"

definition complete_tx ::
    "journal_packages \<Rightarrow> ustring \<Rightarrow> ustring btree \<Rightarrow> ustring \<Rightarrow> bool journal_tx" where
  "complete_tx pk plan_id head_revisions applied_at db =
     and_then (pending_projection_from pk db) (\<lambda>pending.
       case pending of
         None \<Rightarrow>
           and_then (projection_checkpoint_from pk db) (\<lambda>checkpoint.
             case checkpoint of
               Some c \<Rightarrow>
                 if pc_plan_id c = plan_id \<and> pc_head_revisions c = head_revisions then Inr (False, db)
                 else Inl (RepInvalid ''projection has no matching durable intent'')
             | None \<Rightarrow> Inl (RepInvalid ''projection has no matching durable intent''))
       | Some p \<Rightarrow>
           if pp_plan_id p \<noteq> plan_id \<or> pp_head_revisions p \<noteq> head_revisions
           then Inl (RepInvalid ''projection does not match pending projection'')
           else Inr (True, db\<lparr>db_checkpoint := Some (plan_id, jp_projection_json pk head_revisions, applied_at),
                               db_intent := None\<rparr>))"

definition complete_projection :: "ustring \<Rightarrow> ustring btree \<Rightarrow> ustring \<Rightarrow> bool journal_op" where
  "complete_projection plan_id head_revisions applied_at w =
     (let pk = jw_packages w in
      case and_then (require_plan_id plan_id) (\<lambda>_.
           and_then (validate_projection_heads pk head_revisions) (\<lambda>_. require_time applied_at)) of
        Inl e \<Rightarrow> (w, Inl e)
      | Inr at \<Rightarrow> with_mutation (complete_tx pk plan_id head_revisions at) w)"

definition read_pending_projection :: "pending_projection option journal_op" where
  "read_pending_projection = with_read (\<lambda>n. Inr (sn_pending_projection n))"

definition read_projection_checkpoint :: "projection_checkpoint option journal_op" where
  "read_projection_checkpoint = with_read (\<lambda>n. Inr (sn_projection_checkpoint n))"

section \<open>Opening\<close>

text \<open>An existing file is given by whether it is regular, and its permission bits.\<close>

definition create_private_database_file :: "(bool \<times> nat) option \<Rightarrow> replication_error + bool" where
  "create_private_database_file file =
     (case file of
        None \<Rightarrow> Inr True
      | Some (regular, mode) \<Rightarrow>
          if \<not> regular then Inl (RepInvalid ''record journal must be a regular file'')
          else if mode mod 64 \<noteq> 0 then Inl (RepInvalid ''record journal must be private'')
          else Inr False)"

definition blank_db :: journal_db where
  "blank_db = \<lparr>db_user_version = 0, db_schema = [], db_revisions = [], db_commits = [], db_outbox = [],
     db_inbox = [], db_intent = None, db_checkpoint = None\<rparr>"

definition initialize_or_require_schema ::
    "journal_packages \<Rightarrow> bool \<Rightarrow> journal_db \<Rightarrow> replication_error + journal_db" where
  "initialize_or_require_schema pk created db =
     (if created \<and> db_user_version db = 0
      then Inr (db\<lparr>db_user_version := SCHEMA_VERSION, db_schema := jp_schema pk\<rparr>)
      else if db_user_version db \<noteq> SCHEMA_VERSION then Inl (RepInvalid ''record journal schema version'')
      else Inr db)"

definition INTEGRITY_DOMAIN_PREFIX :: string where
  "INTEGRITY_DOMAIN_PREFIX = ''sync-record-journal''"

definition authenticate_journal :: "bool \<Rightarrow> journal_snapshot \<Rightarrow> unit journal_op" where
  "authenticate_journal created current w =
     (case state_load (jw_auth w) (jw_sidecar w) (jw_domain w) of
        (a, Inl e) \<Rightarrow> (w\<lparr>jw_auth := a\<rparr>, Inl (RepIntegrity e))
      | (a, Inr loaded) \<Rightarrow>
          (let w = w\<lparr>jw_auth := a\<rparr> in
           case ls_value loaded of
             Some v \<Rightarrow>
               if v = current then (w, Inr ())
               else (w, Inl (RepInvalid ''record journal does not match its authenticated snapshot''))
           | None \<Rightarrow>
               if created \<and> ls_generation loaded = 0
               then (case state_persist (jw_auth w) (jw_sidecar w) (jw_domain w) 0 current of
                       (a, Inl e) \<Rightarrow> (w\<lparr>jw_auth := a\<rparr>, Inl (RepIntegrity e))
                     | (a, Inr _) \<Rightarrow> (w\<lparr>jw_auth := a\<rparr>, Inr ()))
               else if ls_generation loaded = 0
               then (w, Inl (RepInvalid
                 ''refusing to adopt an existing record journal without an authenticated snapshot''))
               else (w, Inl (RepInvalid ''record journal sidecar is missing''))))"

definition journal_open :: "(bool \<times> nat) option \<Rightarrow> string \<Rightarrow> unit journal_op" where
  "journal_open file vault_id w =
     (let pk = jw_packages w in
      case and_then (require_uuid pk (lit vault_id)) (\<lambda>_. create_private_database_file file) of
        Inl e \<Rightarrow> (w, Inl e)
      | Inr created \<Rightarrow>
     (case initialize_or_require_schema pk created (if created then blank_db else jw_db w) of
        Inl e \<Rightarrow> (w\<lparr>jw_db := (if created then blank_db else jw_db w)\<rparr>, Inl e)
      | Inr db \<Rightarrow>
          (let w = w\<lparr>jw_db := db, jw_domain := INTEGRITY_DOMAIN_PREFIX @ '':'' @ vault_id,
                     jw_status_cache := None\<rparr> in
           case and_then (security_snapshot_from pk db) (\<lambda>current.
                and_then (validate_snapshot pk current) (\<lambda>_. Inr current)) of
             Inl e \<Rightarrow> (w, Inl e)
           | Inr current \<Rightarrow> authenticate_journal created current w)))"

end
