(* ===== verification/Journal_Example.thy ===== *)
theory Journal_Example
  imports Record_Journal
begin

text \<open>
  A small journal for the witnesses: two devices created the same entity, so it has two heads. The JSON
  of the columns is replaced by length-prefixed lists, which are read back exactly.
\<close>

section \<open>A codec\<close>

fun pack :: "nat list list \<Rightarrow> nat list" where
  "pack [] = []"
| "pack (x # xs) = length x # x @ pack xs"

function unpack :: "nat list \<Rightarrow> nat list list" where
  "unpack [] = []"
| "unpack (n # b) = take n b # unpack (drop n b)"
  by pat_completeness auto

termination unpack
  by (relation "measure length") auto

lemma unpack_pack [simp]: "unpack (pack xs) = xs"
  by (induction xs) simp_all

fun pair_up :: "nat list list \<Rightarrow> immutable_object_ref list" where
  "pair_up (d # [n] # rest) = \<lparr>io_digest = d, io_ciphertext_size = n\<rparr> # pair_up rest"
| "pair_up _ = []"

definition example_revision_json :: "entity_revision \<Rightarrow> bytes" where
  "example_revision_json r =
     pack ([er_format_version r] # er_entity_id r # er_revision_id r # er_commit_id r # [er_key_generation r] #
           er_ciphertext r # [length (er_parents r)] #
           er_parents r @ concat (map (\<lambda>x. [io_digest x, [io_ciphertext_size x]]) (er_object_refs r)))"

definition example_parse_revision :: "bytes \<Rightarrow> entity_revision option" where
  "example_parse_revision b =
     (case unpack b of
        [f] # e # r # c # [k] # ct # [n] # rest \<Rightarrow>
          Some \<lparr>er_format_version = f, er_entity_id = e, er_revision_id = r, er_commit_id = c,
                er_key_generation = k, er_parents = take n rest, er_ciphertext = ct,
                er_object_refs = pair_up (drop n rest)\<rparr>
      | _ \<Rightarrow> None)"

definition example_commit_json :: "revision_commit \<Rightarrow> bytes" where
  "example_commit_json c =
     pack ([rc_format_version c] # rc_commit_id c # [rc_key_generation c] # rc_ciphertext c # rc_revision_ids c)"

definition example_parse_commit :: "bytes \<Rightarrow> revision_commit option" where
  "example_parse_commit b =
     (case unpack b of
        [f] # c # [k] # ct # ids \<Rightarrow>
          Some \<lparr>rc_format_version = f, rc_commit_id = c, rc_key_generation = k, rc_revision_ids = ids,
                rc_ciphertext = ct\<rparr>
      | _ \<Rightarrow> None)"

definition example_journal_packages :: journal_packages where
  "example_journal_packages =
     \<lparr>jp_is_uuid = (\<lambda>_. True), jp_sha256 = (\<lambda>b. b),
      jp_revision_json = example_revision_json, jp_parse_revision = example_parse_revision,
      jp_commit_json = example_commit_json, jp_parse_commit = example_parse_commit,
      jp_heads_json = (\<lambda>h. pack (map (\<lambda>(e, ids). pack (e # ids)) h)),
      jp_parse_heads = (\<lambda>b. Some (map (\<lambda>x. (hd (unpack x), HeadArray (Some (tl (unpack x))))) (unpack b))),
      jp_projection_json = (\<lambda>h. pack (map (\<lambda>(e, r). pack [e, r]) h)),
      jp_parse_projection = (\<lambda>b. Some (map (\<lambda>x. (hd (unpack x), hd (tl (unpack x)))) (unpack b))),
      jp_schema = []\<rparr>"

lemma pair_up_concat [simp]:
  "pair_up (concat (map (\<lambda>x. [io_digest x, [io_ciphertext_size x]]) xs)) = xs"
  by (induction xs) simp_all

lemma example_revision_roundtrip [simp]: "example_parse_revision (example_revision_json r) = Some r"
  by (simp add: example_parse_revision_def example_revision_json_def)

lemma example_commit_roundtrip [simp]: "example_parse_commit (example_commit_json c) = Some c"
  by (simp add: example_parse_commit_def example_commit_json_def)

lemma example_packages_simps [simp]:
  "jp_is_uuid example_journal_packages x" "jp_schema example_journal_packages = []"
  "jp_parse_revision example_journal_packages (jp_revision_json example_journal_packages r) = Some r"
  "jp_parse_commit example_journal_packages (jp_commit_json example_journal_packages c) = Some c"
  "jp_parse_heads example_journal_packages (jp_heads_json example_journal_packages h) =
     Some (map (\<lambda>(e, ids). (e, HeadArray (Some ids))) h)"
  "jp_parse_projection example_journal_packages (jp_projection_json example_journal_packages p) = Some p"
  by (simp_all add: example_journal_packages_def comp_def case_prod_beta map_idI)

section \<open>Two heads\<close>

definition example_revision :: "ustring \<Rightarrow> ustring \<Rightarrow> ustring list \<Rightarrow> entity_revision" where
  "example_revision rid cid parents =
     \<lparr>er_format_version = RECORD_FORMAT_VERSION, er_entity_id = [1], er_revision_id = rid, er_commit_id = cid,
      er_key_generation = 1, er_parents = parents, er_ciphertext = [0], er_object_refs = []\<rparr>"

definition example_commit :: "ustring \<Rightarrow> ustring \<Rightarrow> revision_commit" where
  "example_commit cid rid =
     \<lparr>rc_format_version = RECORD_FORMAT_VERSION, rc_commit_id = cid, rc_key_generation = 1,
      rc_revision_ids = [rid], rc_ciphertext = [0]\<rparr>"

definition example_db :: journal_db where
  "example_db =
     blank_db\<lparr>db_user_version := SCHEMA_VERSION,
       db_revisions :=
         [([10], [1], jp_revision_json example_journal_packages (example_revision [10] [20] [])),
          ([11], [1], jp_revision_json example_journal_packages (example_revision [11] [21] []))],
       db_commits :=
         [([20], jp_commit_json example_journal_packages (example_commit [20] [10])),
          ([21], jp_commit_json example_journal_packages (example_commit [21] [11]))]\<rparr>"

definition example_snapshot :: journal_snapshot where
  "example_snapshot =
     \<lparr>sn_schema_version = SCHEMA_VERSION, sn_schema = [],
      sn_revisions = [example_revision [10] [20] [], example_revision [11] [21] []],
      sn_commits = [example_commit [20] [10], example_commit [21] [11]],
      sn_outbound = [], sn_inbound = [], sn_pending_projection = None, sn_projection_checkpoint = None\<rparr>"

lemma example_fields [simp]:
  "er_revision_id (example_revision rid cid ps) = rid" "er_entity_id (example_revision rid cid ps) = [1]"
  "er_commit_id (example_revision rid cid ps) = cid" "er_parents (example_revision rid cid ps) = ps"
  "rc_commit_id (example_commit cid rid) = cid" "rc_revision_ids (example_commit cid rid) = [rid]"
  by (simp_all add: example_revision_def example_commit_def)

lemmas example_record_simps =
  canonical_revision_def canonical_commit_def canonicalize_revision_def canonicalize_commit_def
  validate_revision_def validate_commit_def validate_uuid_def revision_set_insert_def Let_def
  example_revision_def example_commit_def

lemma example_canonical [simp]:
  "canonical_revision example_journal_packages (example_revision rid cid []) = Inr (example_revision rid cid [])"
  "canonical_commit example_journal_packages (example_commit cid rid) = Inr (example_commit cid rid)"
  by (simp_all add: example_record_simps)

definition example_revision_set :: revision_set where
  "example_revision_set = [([10], example_revision [10] [20] []), ([11], example_revision [11] [21] [])]"

lemma example_set:
  "revision_set_from example_journal_packages [example_revision [10] [20] [], example_revision [11] [21] []] =
     Inr example_revision_set"
  by (simp add: revision_set_from_def revision_set_insert_def Let_def validate_revision_def
      validate_uuid_def canonicalize_revision_def example_revision_set_def example_revision_def)

lemma example_security_snapshot: "security_snapshot_from example_journal_packages example_db = Inr example_snapshot"
  by (simp add: security_snapshot_from_def example_db_def blank_db_def revisions_from_def decode_revision_def
      commits_from_def decode_commit_def outbound_from_def inbound_from_def pending_projection_from_def
      projection_checkpoint_from_def example_snapshot_def example_set)

definition example_analysis :: revision_analysis where
  "example_analysis = \<lparr>ra_heads = [([1], [[10], [11]])], ra_pending = []\<rparr>"

lemma example_analyze: "analyze example_revision_set = Inr example_analysis"
  by (simp add: analyze_def example_revision_set_def visit_all_def visit_revision.simps Let_def complete_ids_def
      note_head_def index_revision_def drop_superseded_def pending_entry_def example_analysis_def)

lemma example_readiness:
  "readiness_in example_journal_packages example_revision_set (sn_commits example_snapshot) (example_commit [20] [10]) = Inr ReadyCommit"
  "readiness_in example_journal_packages example_revision_set (sn_commits example_snapshot) (example_commit [21] [11]) = Inr ReadyCommit"
  by (simp_all add: readiness_in_def commit_readiness_def commits_by_id_def add_known_commit_def validate_commit_def
      validate_uuid_def example_snapshot_def example_revision_set_def visit_commit.simps no_missing_def
      example_commit_def)

lemma example_valid: "validate_snapshot example_journal_packages example_snapshot = Inr ()"
  using example_analyze example_readiness
  by (simp add: validate_snapshot_def example_snapshot_def example_set)

lemma example_eligible:
  "eligible_records_from example_journal_packages example_snapshot =
     Inr (sn_commits example_snapshot, sn_revisions example_snapshot, example_analysis)"
  using example_analyze example_readiness
  by (simp add: eligible_records_from_def analysis_from_def note_ready_def Let_def example_snapshot_def example_set)
    (simp add: example_analysis_def)

section \<open>A queued merge\<close>

definition merge_revision :: entity_revision where
  "merge_revision = example_revision [12] [22] [[10], [11]]"

definition merge_commit :: revision_commit where
  "merge_commit = example_commit [22] [12]"

definition merge_heads :: "ustring list btree" where
  "merge_heads = [([1], [[10], [11]])]"

definition merged_db :: journal_db where
  "merged_db = example_db\<lparr>
     db_revisions := db_revisions example_db @ [([12], [1], jp_revision_json example_journal_packages merge_revision)],
     db_commits := db_commits example_db @ [([22], jp_commit_json example_journal_packages merge_commit)],
     db_outbox := [([22], jp_heads_json example_journal_packages merge_heads, [50])]\<rparr>"

definition merged_snapshot :: journal_snapshot where
  "merged_snapshot = example_snapshot\<lparr>
     sn_revisions := sn_revisions example_snapshot @ [merge_revision],
     sn_commits := sn_commits example_snapshot @ [merge_commit],
     sn_outbound := [\<lparr>ob_commit = merge_commit, ob_revisions = [merge_revision],
       ob_expected_heads = merge_heads, ob_created_at = [50]\<rparr>]\<rparr>"

definition merged_set :: revision_set where
  "merged_set = example_revision_set @ [([12], merge_revision)]"

lemma merge_canonical [simp]:
  "canonicalize_revision merge_revision = merge_revision"
  "canonical_revision example_journal_packages merge_revision = Inr merge_revision"
  "canonical_commit example_journal_packages merge_commit = Inr merge_commit"
  "canonical_revisions example_journal_packages [merge_revision] = Inr [merge_revision]"
  by (simp_all add: merge_revision_def merge_commit_def example_record_simps canonical_revisions_def
      add_canonical_def)

lemma merge_fields [simp]:
  "er_revision_id merge_revision = [12]" "er_entity_id merge_revision = [1]" "er_commit_id merge_revision = [22]"
  "er_parents merge_revision = [[10], [11]]" "rc_commit_id merge_commit = [22]" "rc_revision_ids merge_commit = [[12]]"
  by (simp_all add: merge_revision_def merge_commit_def)

lemma merge_complete: "validate_complete_commit example_journal_packages merge_commit [merge_revision] merge_heads = Inr ()"
  by (simp add: validate_complete_commit_def merge_heads_def require_uuid_def)

lemma merge_tx: "queue_tx example_journal_packages merge_commit [merge_revision] merge_heads [50] example_db = Inr ((), merged_db)"
  by (simp add: queue_tx_def store_revision_def store_commit_def merged_db_def example_db_def blank_db_def)

lemma merged_set: "revision_set_from example_journal_packages (sn_revisions merged_snapshot) = Inr merged_set"
proof -
  have "revision_set_insert is_uuid merge_revision example_revision_set = Inr (Inserted, merged_set)"
    if "\<And>x. is_uuid x" for is_uuid
    using that by (simp add: revision_set_insert_def Let_def validate_revision_def validate_uuid_def
        example_revision_set_def merged_set_def) (simp add: merge_revision_def example_revision_def)
  moreover have "sn_revisions merged_snapshot = [example_revision [10] [20] [], example_revision [11] [21] []] @ [merge_revision]"
    by (simp add: merged_snapshot_def example_snapshot_def)
  ultimately show ?thesis
    using example_set unfolding revision_set_from_def by (simp only: try_fold_append) simp
qed

lemma merged_security_snapshot: "security_snapshot_from example_journal_packages merged_db = Inr merged_snapshot"
  using merged_set
  by (simp add: security_snapshot_from_def merged_db_def example_db_def blank_db_def revisions_from_def decode_revision_def
      commits_from_def decode_commit_def outbound_from_def inbound_from_def pending_projection_from_def
      projection_checkpoint_from_def merged_snapshot_def example_snapshot_def commit_by_id_def
      revisions_for_commit_def revision_by_id_def decode_expected_heads_def normalize_expected_heads_def merge_heads_def)

lemma merged_commits: "sn_commits merged_snapshot = [example_commit [20] [10], example_commit [21] [11], merge_commit]"
  by (simp add: merged_snapshot_def example_snapshot_def)

lemma merged_readiness:
  "readiness_in example_journal_packages merged_set (sn_commits merged_snapshot) (example_commit [20] [10]) = Inr ReadyCommit"
  "readiness_in example_journal_packages merged_set (sn_commits merged_snapshot) (example_commit [21] [11]) = Inr ReadyCommit"
  "readiness_in example_journal_packages merged_set (sn_commits merged_snapshot) merge_commit = Inr ReadyCommit"
  unfolding merged_commits
  by (simp_all add: readiness_in_def commit_readiness_def commits_by_id_def add_known_commit_def validate_commit_def
      validate_uuid_def merged_set_def example_revision_set_def
      visit_commit.simps no_missing_def merge_commit_def example_commit_def merge_missing_def)

lemma merged_analyze: "\<exists>a. analyze merged_set = Inr a"
  by (simp add: analyze_def merged_set_def example_revision_set_def visit_all_def visit_revision.simps Let_def
      complete_ids_def note_head_def index_revision_def drop_superseded_def pending_entry_def)

lemma merged_valid: "validate_snapshot example_journal_packages merged_snapshot = Inr ()"
proof -
  obtain a where a: "analyze merged_set = Inr a" using merged_analyze by blast
  have rest: "sn_outbound merged_snapshot = [\<lparr>ob_commit = merge_commit, ob_revisions = [merge_revision],
       ob_expected_heads = merge_heads, ob_created_at = [50]\<rparr>]" "sn_inbound merged_snapshot = []"
    "sn_pending_projection merged_snapshot = None" "sn_projection_checkpoint merged_snapshot = None"
    by (simp_all add: merged_snapshot_def example_snapshot_def)
  show ?thesis
    using merged_readiness merge_complete
    by (simp add: validate_snapshot_def merged_set a rest check_outbound_item_def merged_commits)
qed

section \<open>A received revision\<close>

text \<open>The merge revision arrives from elsewhere, before its commit.\<close>

definition received_db :: journal_db where
  "received_db = example_db\<lparr>
     db_revisions := db_revisions example_db @ [([12], [1], jp_revision_json example_journal_packages merge_revision)]\<rparr>"

definition received_snapshot :: journal_snapshot where
  "received_snapshot = example_snapshot\<lparr>sn_revisions := sn_revisions example_snapshot @ [merge_revision]\<rparr>"

lemma received_revisions: "sn_revisions received_snapshot = sn_revisions merged_snapshot"
  by (simp add: received_snapshot_def merged_snapshot_def)

lemma received_security_snapshot: "security_snapshot_from example_journal_packages received_db = Inr received_snapshot"
  using merged_set
  by (simp add: security_snapshot_from_def received_db_def example_db_def blank_db_def revisions_from_def decode_revision_def
      commits_from_def decode_commit_def outbound_from_def inbound_from_def pending_projection_from_def
      projection_checkpoint_from_def received_snapshot_def merged_snapshot_def example_snapshot_def)

lemma received_valid: "validate_snapshot example_journal_packages received_snapshot = Inr ()"
proof -
  obtain a where a: "analyze merged_set = Inr a" using merged_analyze by blast
  have cs: "sn_commits received_snapshot = [example_commit [20] [10], example_commit [21] [11]]"
    by (simp add: received_snapshot_def example_snapshot_def)
  have ready: "readiness_in example_journal_packages merged_set (sn_commits received_snapshot) (example_commit [20] [10]) = Inr ReadyCommit"
    "readiness_in example_journal_packages merged_set (sn_commits received_snapshot) (example_commit [21] [11]) = Inr ReadyCommit"
    unfolding cs
    by (simp_all add: readiness_in_def commit_readiness_def commits_by_id_def add_known_commit_def validate_commit_def
        validate_uuid_def merged_set_def example_revision_set_def visit_commit.simps no_missing_def example_commit_def)
  show ?thesis
    using ready merged_set
    by (simp add: validate_snapshot_def received_revisions a cs) (simp add: received_snapshot_def example_snapshot_def)
qed

lemma received_tx:
  "receive_tx example_journal_packages [] [merge_revision] received_at example_db = Inr ((), received_db)"
  "receive_tx example_journal_packages [] [example_revision [10] [20] []] received_at example_db = Inr ((), example_db)"
  "receive_tx example_journal_packages [] [example_revision [11] [21] [], merge_revision] received_at example_db = Inr ((), received_db)"
  by (simp_all add: receive_tx_def store_revision_def revision_by_id_def decode_revision_def received_db_def
      example_db_def blank_db_def)

lemma received_canonical:
  "canonical_revisions example_journal_packages [example_revision [10] [20] []] = Inr [example_revision [10] [20] []]"
  "canonical_revisions example_journal_packages [merge_revision, example_revision [11] [21] []] =
     Inr [example_revision [11] [21] [], merge_revision]"
  by (simp_all add: canonical_revisions_def add_canonical_def)

section \<open>The journal\<close>

definition example_snapshots :: "journal_snapshot list" where
  "example_snapshots = [example_snapshot, merged_snapshot, received_snapshot]"

definition example_auth_start :: "journal_snapshot auth_world" where
  "example_auth_start =
     \<lparr>aw_packages = example_packages, aw_key = [7],
      aw_ser = (\<lambda>n. if n = example_snapshot then Some [0] else if n = merged_snapshot then Some [1]
                    else if n = received_snapshot then Some [2] else None),
      aw_de = (\<lambda>b. if b = [0] then Some example_snapshot else if b = [1] then Some merged_snapshot
                    else if b = [2] then Some received_snapshot else None),
      aw_files = (\<lambda>_. None), aw_checkpoints = (\<lambda>_. None), aw_faults = []\<rparr>"

definition example_journal_auth :: "journal_snapshot auth_world" where
  "example_journal_auth = fst (state_persist example_auth_start ''/s/j'' ''sync-record-journal:v'' 0 example_snapshot)"

definition journal_at :: "journal_snapshot auth_world \<Rightarrow> journal_db \<Rightarrow> effect list \<Rightarrow> journal_world" where
  "journal_at a db fs =
     \<lparr>jw_packages = example_journal_packages, jw_db = db, jw_auth = a,
      jw_sidecar = ''/s/j'', jw_domain = ''sync-record-journal:v'', jw_status_cache = None, jw_commits = fs\<rparr>"

definition example_journal :: "effect list \<Rightarrow> journal_world" where
  "example_journal fs = journal_at example_journal_auth example_db fs"

definition sealed_at :: "journal_snapshot auth_world \<Rightarrow> nat \<Rightarrow> journal_snapshot \<Rightarrow> bool" where
  "sealed_at a g n \<longleftrightarrow>
     codec_ok a \<and> aw_faults a = [] \<and> holds_state a ''/s/j'' ''sync-record-journal:v'' g n \<and>
     (\<forall>m \<in> set example_snapshots. \<exists>b. aw_ser a m = Some b)"

lemmas persist_eval =
  state_persist_def persist_next_def Let_def next_fault_def pop_fault_def
  no_fault_def checkpoint_load_def checked_add_u64_def write_private_atomic_def checkpoint_store_def
  path_parent_def path_body_def trim_back_def has_root_def body_string_def keep_head_def redundant_def

lemma example_sealed: "sealed_at example_journal_auth 1 example_snapshot"
proof -
  let ?a = example_auth_start
  have ok: "codec_ok ?a"
    by (auto simp: codec_ok_def packages_ok_def example_packages_def comp_def example_auth_start_def split: if_splits)
  have p: "snd (state_persist ?a ''/s/j'' ''sync-record-journal:v'' 0 example_snapshot) = Inr 1"
    "aw_faults (fst (state_persist ?a ''/s/j'' ''sync-record-journal:v'' 0 example_snapshot)) = []"
    by (simp_all add: persist_eval example_auth_start_def)
  have "holds_state example_journal_auth ''/s/j'' ''sync-record-journal:v'' 1 example_snapshot"
    using authenticator.persist_holds p(1) unfolding example_journal_auth_def by (metis prod.collapse)
  moreover have "\<forall>m \<in> set example_snapshots. \<exists>b. aw_ser example_journal_auth m = Some b"
    using state_persist_same [of ?a "''/s/j''" "''sync-record-journal:v''" 0 example_snapshot]
    by (auto simp: example_journal_auth_def same_authority_def example_auth_start_def example_snapshots_def)
  ultimately show ?thesis
    using authenticator.persist_trusted [OF ok] p(2) by (simp add: sealed_at_def example_journal_auth_def)
qed

lemma sealed_persist:
  assumes "sealed_at a g n" "g < 10" "m \<in> set example_snapshots"
  obtains a' where "state_persist (pop_fault a) ''/s/j'' ''sync-record-journal:v'' g m = (a', Inr (g + 1))" "sealed_at a' (g + 1) m"
proof -
  let ?p = "state_persist (pop_fault a) ''/s/j'' ''sync-record-journal:v'' g m"
  from assms(1) obtain ck where ck: "aw_checkpoints a ''sync-record-journal:v'' = Some ck" "ck_generation ck = g"
    by (auto simp: sealed_at_def holds_state_def commits_def)
  obtain b where b: "aw_ser a m = Some b" using assms(1,3) by (auto simp: sealed_at_def)
  have p: "snd ?p = Inr (g + 1)" "aw_faults (fst ?p) = []"
    using assms(1,2) ck b by (simp_all add: persist_eval sealed_at_def)
  have "codec_ok (fst ?p)" using assms(1) by (intro authenticator.persist_trusted) (simp add: sealed_at_def)
  moreover have "holds_state (fst ?p) ''/s/j'' ''sync-record-journal:v'' (g + 1) m"
    using authenticator.persist_holds p(1) by (metis prod.collapse)
  moreover have "aw_ser (fst ?p) = aw_ser a"
    using state_persist_same [of "pop_fault a"] by (simp add: same_authority_def)
  ultimately have "sealed_at (fst ?p) (g + 1) m" using p(2) assms(1) by (simp add: sealed_at_def)
  with p(1) show thesis using that by (metis prod.collapse)
qed

lemma sealed_mutation:
  assumes "sealed_at a g n" "g < 10" "m \<in> set example_snapshots"
    and "security_snapshot_from example_journal_packages db = Inr n" "op db = Inr (x, db')"
    and "security_snapshot_from example_journal_packages db' = Inr m" "validate_snapshot example_journal_packages m = Inr ()"
  obtains a' where "sealed_at a' (g + 1) m"
    "with_mutation op (journal_at a db fs) = finish_transaction db' x (journal_at a' db fs)"
proof -
  obtain a' where a': "state_persist (pop_fault a) ''/s/j'' ''sync-record-journal:v'' g m = (a', Inr (g + 1))" "sealed_at a' (g + 1) m"
    using sealed_persist [OF assms(1-3)] .
  have "next_fault a = no_fault" using assms(1) by (simp add: sealed_at_def next_fault_def)
  then have "state_load a ''/s/j'' ''sync-record-journal:v'' = (pop_fault a, Inr \<lparr>ls_value = Some n, ls_generation = g\<rparr>)"
    using holds_state_load [of a "''/s/j''" "''sync-record-journal:v''" g n] assms(1)
    by (simp add: sealed_at_def) (simp add: no_fault_def)
  with assms(4-7) a' show thesis
    using that [of a'] by (simp add: with_mutation_def journal_at_def verify_snapshot_def)
qed

lemma example_queue:
  obtains a where "sealed_at a 2 merged_snapshot"
    "queue_outbound merge_commit [merge_revision] merge_heads [50] (example_journal fs) =
       finish_transaction merged_db () (journal_at a example_db fs)"
proof -
  obtain a where "sealed_at a (1 + 1) merged_snapshot"
    "with_mutation (queue_tx example_journal_packages merge_commit [merge_revision] merge_heads [50])
      (example_journal fs) = finish_transaction merged_db () (journal_at a example_db fs)"
    unfolding example_journal_def
    using sealed_mutation [where op = "queue_tx example_journal_packages merge_commit [merge_revision] merge_heads [50]",
        OF example_sealed _ _ example_security_snapshot merge_tx merged_security_snapshot merged_valid]
    by (auto simp: example_snapshots_def)
  then show thesis
    using that [of a]
    by (simp add: queue_outbound_def Let_def merge_complete require_time_def trim_def trim_start_def trim_end_def
        is_whitespace_def example_journal_def journal_at_def numeral_2_eq_2)
qed

end
