(* ===== verification/Journal_History.thy ===== *)
theory Journal_History
  imports Journal_Example
begin

text \<open>
  What the journal's validation buys. The records of ready commits are closed under parents, so the
  projection of a validated journal is never blocked by its own history; the tables the journal ends up
  with do not depend on the order in which records arrive; and a merge of all heads of an entity leaves
  it as the only head.
\<close>

section \<open>Revision sets\<close>

lemma canonicalize_revision_simps [simp]:
  "er_revision_id (canonicalize_revision r) = er_revision_id r"
  "er_entity_id (canonicalize_revision r) = er_entity_id r"
  "er_commit_id (canonicalize_revision r) = er_commit_id r"
  "set (er_parents (canonicalize_revision r)) = set (er_parents r)"
  by (simp_all add: canonicalize_revision_def)

lemma canonicalize_revision_idem [simp]:
  "canonicalize_revision (canonicalize_revision r) = canonicalize_revision r"
  by (simp add: canonicalize_revision_def sort_key_id_if_sorted)

text \<open>Revisions with one id have one content.\<close>

definition consistent :: "entity_revision \<Rightarrow> entity_revision \<Rightarrow> bool" where
  "consistent r x \<longleftrightarrow> (er_revision_id r = er_revision_id x \<longrightarrow> canonicalize_revision r = canonicalize_revision x)"

abbreviation agrees :: "entity_revision set \<Rightarrow> entity_revision \<Rightarrow> bool" where
  "agrees R x \<equiv> \<forall>r \<in> R. consistent r x"

definition insertable :: "journal_packages \<Rightarrow> entity_revision list \<Rightarrow> bool" where
  "insertable pk rs \<longleftrightarrow>
     (\<forall>r \<in> set rs. validate_revision (jp_is_uuid pk) (canonicalize_revision r) = Inr () \<and> agrees (set rs) r)"

definition holds_exactly :: "revision_set \<Rightarrow> entity_revision set \<Rightarrow> bool" where
  "holds_exactly s R \<longleftrightarrow> btree_ok s \<and>
     (\<forall>x r. map_of s x = Some r \<longleftrightarrow> er_revision_id r = x \<and> r \<in> canonicalize_revision ` R)"

lemma consistent_sym: "consistent r x \<Longrightarrow> consistent x r"
  by (simp add: consistent_def)

lemma consistent_refl: "consistent r r"
  by (simp add: consistent_def)

lemma insertable_Cons:
  "insertable pk (r # rs) \<longleftrightarrow>
     validate_revision (jp_is_uuid pk) (canonicalize_revision r) = Inr () \<and> (\<forall>x \<in> set rs. consistent r x) \<and>
     insertable pk rs"
  unfolding insertable_def using consistent_sym consistent_refl by (simp add: ball_conj_distrib) blast

lemma insert_cases:
  assumes "validate_revision is_uuid (canonicalize_revision r) = Inr ()"
  shows "and_then (revision_set_insert is_uuid r s) (\<lambda>(_, s). Inr s) =
    (case map_of s (er_revision_id r) of
       None \<Rightarrow> Inr (btree_insert (er_revision_id r) (canonicalize_revision r) s)
     | Some q \<Rightarrow> if q = canonicalize_revision r then Inr s else Inl (RevisionCollision (er_revision_id r)))"
  using assms by (simp add: revision_set_insert_def Let_def split: option.split)

lemma insert_outcome:
  assumes "holds_exactly s R"
  shows "(case and_then (revision_set_insert is_uuid r s) (\<lambda>(_, s). Inr s) of
      Inl e \<Rightarrow> validate_revision is_uuid (canonicalize_revision r) \<noteq> Inr () \<or> \<not> agrees R r
    | Inr s' \<Rightarrow> validate_revision is_uuid (canonicalize_revision r) = Inr () \<and> agrees R r \<and>
        holds_exactly s' (insert r R))"
proof (cases "validate_revision is_uuid (canonicalize_revision r)")
  case (Inl e)
  then show ?thesis by (simp add: revision_set_insert_def Let_def)
next
  case (Inr u)
  then have valid: "validate_revision is_uuid (canonicalize_revision r) = Inr ()" by simp
  let ?c = "canonicalize_revision r"
  have ok: "btree_ok s" and table: "\<And>x q. map_of s x = Some q \<longleftrightarrow> er_revision_id q = x \<and> q \<in> canonicalize_revision ` R"
    using assms by (auto simp: holds_exactly_def)
  show ?thesis
  proof (cases "map_of s (er_revision_id r)")
    case None
    have absent: "er_revision_id r' \<noteq> er_revision_id r" if "r' \<in> R" for r'
      using table [of "er_revision_id r" "canonicalize_revision r'"] None that by auto
    have "map_of (btree_insert (er_revision_id r) ?c s) x = Some q \<longleftrightarrow>
        er_revision_id q = x \<and> q \<in> canonicalize_revision ` insert r R" for x q
      using ok None table [of x q] absent by auto
    then have "holds_exactly (btree_insert (er_revision_id r) ?c s) (insert r R)"
      using ok by (simp add: holds_exactly_def)
    moreover have "agrees R r" using absent by (auto simp: consistent_def)
    ultimately show ?thesis
      unfolding insert_cases [OF valid] None using Inr by simp
  next
    case (Some q)
    then obtain r' where r': "r' \<in> R" "q = canonicalize_revision r'" "er_revision_id r' = er_revision_id r"
      using table [of "er_revision_id r" q] by auto
    have unique: "canonicalize_revision x = q" if "x \<in> R" "er_revision_id x = er_revision_id r" for x
      using table [of "er_revision_id r" "canonicalize_revision x"] that Some by auto
    show ?thesis
    proof (cases "q = ?c")
      case True
      then have "?c \<in> canonicalize_revision ` R" using r' by (metis image_eqI)
      then have "canonicalize_revision ` insert r R = canonicalize_revision ` R" by (simp add: insert_absorb)
      with assms have "holds_exactly s (insert r R)" unfolding holds_exactly_def by metis
      moreover have "agrees R r" using unique True by (auto simp: consistent_def)
      ultimately show ?thesis
        unfolding insert_cases [OF valid] Some using Inr True by simp
    next
      case False
      with r' have "\<not> agrees R r" by (auto simp: consistent_def)
      with False show ?thesis unfolding insert_cases [OF valid] Some by simp
    qed
  qed
qed

lemma revision_set_fold:
  assumes "holds_exactly s R"
  shows "(case try_fold (\<lambda>s r. map_err RepRecord (and_then (revision_set_insert (jp_is_uuid pk) r s) (\<lambda>(_, s). Inr s))) s rs of
      Inl e \<Rightarrow> \<not> (insertable pk rs \<and> (\<forall>r \<in> set rs. agrees R r))
    | Inr s' \<Rightarrow> insertable pk rs \<and> (\<forall>r \<in> set rs. agrees R r) \<and> holds_exactly s' (set rs \<union> R))"
  using assms
proof (induction rs arbitrary: s R)
  case (Cons r rs)
  note first = insert_outcome [OF Cons.prems, of "jp_is_uuid pk" r]
  show ?case
  proof (cases "and_then (revision_set_insert (jp_is_uuid pk) r s) (\<lambda>(_, s). Inr s)")
    case (Inl e)
    with first show ?thesis by (auto simp: insertable_Cons)
  next
    case (Inr s1)
    with first have step: "validate_revision (jp_is_uuid pk) (canonicalize_revision r) = Inr ()"
      "agrees R r" "holds_exactly s1 (insert r R)" by auto
    have "set rs \<union> insert r R = set (r # rs) \<union> R" by simp
    with Cons.IH [OF step(3)] Inr step(1,2) show ?thesis
      by (auto simp: insertable_Cons split: sum.splits)
  qed
qed (simp add: insertable_def)

lemma holds_exactly_Nil: "holds_exactly [] {}"
  by (simp add: holds_exactly_def)

lemma revision_set_from_iff: "(\<exists>s. revision_set_from pk rs = Inr s) \<longleftrightarrow> insertable pk rs"
  using revision_set_fold [OF holds_exactly_Nil, of pk rs]
  by (cases "revision_set_from pk rs") (auto simp: revision_set_from_def)

lemma revision_set_from_holds: "revision_set_from pk rs = Inr s \<Longrightarrow> holds_exactly s (set rs)"
  using revision_set_fold [OF holds_exactly_Nil, of pk rs] by (simp add: revision_set_from_def)

lemma insertable_subset: "insertable pk rs \<Longrightarrow> set rs' \<subseteq> set rs \<Longrightarrow> insertable pk rs'"
  unfolding insertable_def by blast

lemma sub_revision_set:
  assumes "revision_set_from pk rs = Inr s" "set rs' \<subseteq> set rs"
  obtains s' where "revision_set_from pk rs' = Inr s'" "map_of s' \<subseteq>\<^sub>m map_of s" "btree_ok s'"
    "\<And>x. x \<in> keys_of s' \<longleftrightarrow> x \<in> er_revision_id ` set rs'"
proof -
  have "insertable pk rs'"
    using assms revision_set_from_iff insertable_subset by blast
  then obtain s' where s': "revision_set_from pk rs' = Inr s'"
    using revision_set_from_iff by blast
  note h = revision_set_from_holds [OF assms(1)] and h' = revision_set_from_holds [OF s']
  have "map_of s x = Some r" if "map_of s' x = Some r" for x r
    using that h h' assms(2) by (auto simp: holds_exactly_def)
  then have "map_of s' \<subseteq>\<^sub>m map_of s" by (force simp: map_le_def)
  moreover have "x \<in> keys_of s' \<longleftrightarrow> x \<in> er_revision_id ` set rs'" for x
  proof -
    have "x \<in> keys_of s' \<longleftrightarrow> (\<exists>r. er_revision_id r = x \<and> r \<in> canonicalize_revision ` set rs')"
      using h' unfolding holds_exactly_def keys_of_iff by simp
    also have "\<dots> \<longleftrightarrow> x \<in> er_revision_id ` canonicalize_revision ` set rs'" by auto
    finally show ?thesis by (simp add: image_image)
  qed
  ultimately show thesis
    using that s' h' by (simp add: holds_exactly_def)
qed

section \<open>Validated snapshots\<close>

lemma closed_complete:
  assumes "\<And>c r p. map_of s c = Some r \<Longrightarrow> p \<in> set (er_parents r) \<Longrightarrow> p \<in> keys_of s"
  shows "missing_ancestors s rid = {}"
proof -
  have "p \<in> keys_of s" if "(rid, p) \<in> (parent_edges s)\<^sup>+" for p
    using that assms by (induction rule: trancl_induct) (auto simp: parent_edges_def)
  then show ?thesis by (auto simp: missing_ancestors_def keys_of_iff)
qed

lemma analyze_sub:
  assumes "analyze s = Inr a" "btree_ok s" "btree_ok s'" "map_of s' \<subseteq>\<^sub>m map_of s"
  obtains a' where "analyze s' = Inr a'"
proof -
  have sub: "map_of s c = Some r" if "map_of s' c = Some r" for c r
    using assms(4) that by (metis domI map_le_def)
  have "acyclic (parent_edges s)" "\<forall>c. parents_in_entity s c"
    using analyze_outcome [OF assms(2)] assms(1) by simp_all
  moreover have "parent_edges s' \<subseteq> parent_edges s" using sub by (auto simp: parent_edges_def)
  ultimately have "acyclic (parent_edges s')" "\<forall>c. parents_in_entity s' c"
    using sub unfolding parents_in_entity_def by (blast intro: acyclic_subset)+
  then have "\<not> graph_error s' e" for e using graph_error_bad by blast
  then show thesis
    using analyze_outcome [OF assms(3)] that by (cases "analyze s'") auto
qed

definition ready_in :: "journal_packages \<Rightarrow> revision_set \<Rightarrow> revision_commit list \<Rightarrow> revision_commit \<Rightarrow> bool" where
  "ready_in pk s known c \<longleftrightarrow> readiness_in pk s known c = Inr ReadyCommit"

lemma is_ready_iff: "is_ready R \<longleftrightarrow> R = ReadyCommit"
  by (cases R) simp_all

lemma note_ready_fold:
  "\<forall>c \<in> set cs. \<exists>R. readiness_in pk s known c = Inr R \<Longrightarrow>
   try_fold (note_ready pk s known) (ready, ids) cs =
     Inr (ready @ filter (ready_in pk s known) cs,
          ids \<union> (\<Union>c \<in> set (filter (ready_in pk s known) cs). set (rc_revision_ids c)))"
proof (induction cs arbitrary: ready ids)
  case (Cons c cs)
  then obtain R where "readiness_in pk s known c = Inr R" by auto
  with Cons show ?case
    by (auto simp: note_ready_def ready_in_def is_ready_iff Un_assoc)
qed simp

lemma validated_snapshot:
  assumes "validate_snapshot pk n = Inr ()"
  obtains s a where "revision_set_from pk (sn_revisions n) = Inr s" "analyze s = Inr a"
    "\<forall>c \<in> set (sn_commits n). \<exists>R. readiness_in pk s (sn_commits n) c = Inr R"
    "\<forall>i \<in> set (sn_outbound n). ob_commit i \<in> set (sn_commits n) \<and> ready_in pk s (sn_commits n) (ob_commit i)"
proof -
  from assms obtain s a where s: "revision_set_from pk (sn_revisions n) = Inr s" "analyze s = Inr a"
    and each: "try_each (\<lambda>c. and_then (readiness_in pk s (sn_commits n) c) (\<lambda>_. Inr ())) (sn_commits n) = Inr ()"
    and out: "try_each (check_outbound_item pk s n) (sn_outbound n) = Inr ()"
    by (auto simp: validate_snapshot_def and_then_eq_Inr)
  have "\<forall>i \<in> set (sn_outbound n). ob_commit i \<in> set (sn_commits n) \<and> ready_in pk s (sn_commits n) (ob_commit i)"
    using out by (auto simp: try_each_Inr check_outbound_item_def ready_in_def and_then_eq_Inr is_ready_iff
        split: if_splits)
  moreover have "\<forall>c \<in> set (sn_commits n). \<exists>R. readiness_in pk s (sn_commits n) c = Inr R"
    using each by (auto simp: try_each_Inr and_then_eq_Inr)
  ultimately show thesis using that s by blast
qed

text \<open>A commit on which a ready commit builds is ready.\<close>

lemma ready_closed:
  assumes "\<forall>c \<in> set known. \<exists>R. readiness_in pk s known c = Inr R"
    and "c \<in> set known" "ready_in pk s known c"
    and "rid \<in> set (rc_revision_ids c)"
  obtains r where "map_of s rid = Some r" "er_commit_id r = rc_commit_id c"
    "\<forall>p \<in> set (er_parents r). \<exists>q k. map_of s p = Some q \<and> k \<in> set known \<and> rc_commit_id k = er_commit_id q \<and>
       ready_in pk s known k \<and> p \<in> set (rc_revision_ids k)"
proof -
  let ?c = "rc_commit_id c"
  from assms(3) obtain commits where commits: "commits_by_id (jp_is_uuid pk) c known = Inr commits"
    and checked: "\<forall>c' \<in> history s commits ?c. commit_checked s commits c'"
    and no_gap: "history_lacks s commits ?c = no_missing"
    by (auto simp: ready_in_def readiness_in_def elim: commit_readiness_outcome)
  note table = commits_by_id_table(2) [OF commits]
  have own: "?c \<in> history s commits ?c" by (simp add: history_def)
  have "transaction_complete s commits ?c"
    using checked own ready_history [OF no_gap own] checked_without_gaps by blast
  moreover have "map_of commits ?c = Some c" using table [of ?c c] by simp
  ultimately obtain r where r: "map_of s rid = Some r" "er_commit_id r = ?c"
    and parents: "\<And>p. p \<in> set (er_parents r) \<Longrightarrow> \<exists>q k. map_of s p = Some q \<and> er_entity_id q = er_entity_id r \<and>
      map_of commits (er_commit_id q) = Some k \<and> p \<in> set (rc_revision_ids k)"
    using assms(4) by (auto simp: transaction_complete_def)
  have "\<exists>q k. map_of s p = Some q \<and> k \<in> set known \<and> rc_commit_id k = er_commit_id q \<and>
      ready_in pk s known k \<and> p \<in> set (rc_revision_ids k)" if p: "p \<in> set (er_parents r)" for p
  proof -
    from parents [OF p] obtain q k where q: "map_of s p = Some q" and k: "map_of commits (er_commit_id q) = Some k"
      and listed: "p \<in> set (rc_revision_ids k)" by blast
    have k': "k \<in> set known" "rc_commit_id k = er_commit_id q"
      using k table [of "er_commit_id q" k] assms(2) by auto
    have "(?c, rc_commit_id k) \<in> commit_edges s commits"
      unfolding commit_edge_iff [OF \<open>map_of commits ?c = Some c\<close>] k'(2)
      using assms(4) r(1) p q k by (auto simp: keys_of_iff)
    then have sub: "history s commits (rc_commit_id k) \<subseteq> history s commits ?c"
      using history_unfold [of s commits ?c] by blast
    obtain R where R: "commit_readiness (jp_is_uuid pk) s k known = Inr R"
      using assms(1) k'(1) by (auto simp: readiness_in_def)
    obtain commits' where commits': "commits_by_id (jp_is_uuid pk) k known = Inr commits'"
      and ready: "is_ready R \<longleftrightarrow> history_lacks s commits' (rc_commit_id k) = no_missing"
      using commit_readiness_outcome [OF R] by metis
    have "commits' = commits" using commits_by_id_same [OF commits' commits k'(1) assms(2)] .
    with ready no_gap sub have "is_ready R"
      unfolding no_missing_iff history_lacks_def by auto
    with R have "ready_in pk s known k" by (simp add: ready_in_def readiness_in_def is_ready_iff)
    with q k' listed show ?thesis by blast
  qed
  with r show thesis using that by blast
qed

lemma eligible_outcome:
  assumes "validate_snapshot pk n = Inr ()"
  obtains s s' a ready rs where "revision_set_from pk (sn_revisions n) = Inr s"
    "ready = filter (ready_in pk s (sn_commits n)) (sn_commits n)"
    "rs = filter (\<lambda>r. \<exists>c \<in> set (sn_commits n). ready_in pk s (sn_commits n) c \<and> er_revision_id r \<in> set (rc_revision_ids c))
       (sn_revisions n)"
    "eligible_records_from pk n = Inr (ready, rs, a)"
    "revision_set_from pk rs = Inr s'" "analyze s' = Inr a" "\<And>rid. missing_ancestors s' rid = {}"
proof -
  obtain s a0 where s: "revision_set_from pk (sn_revisions n) = Inr s" "analyze s = Inr a0"
    and each: "\<forall>c \<in> set (sn_commits n). \<exists>R. readiness_in pk s (sn_commits n) c = Inr R"
    using validated_snapshot [OF assms] by metis
  let ?known = "sn_commits n"
  define rs where "rs = filter (\<lambda>r. \<exists>c \<in> set ?known. ready_in pk s ?known c \<and> er_revision_id r \<in> set (rc_revision_ids c))
    (sn_revisions n)"
  have ok: "btree_ok s" and held: "\<And>x r. map_of s x = Some r \<longleftrightarrow> er_revision_id r = x \<and> r \<in> canonicalize_revision ` set (sn_revisions n)"
    using revision_set_from_holds [OF s(1)] by (auto simp: holds_exactly_def)
  obtain s' where s': "revision_set_from pk rs = Inr s'" "map_of s' \<subseteq>\<^sub>m map_of s" "btree_ok s'"
    "\<And>x. x \<in> keys_of s' \<longleftrightarrow> x \<in> er_revision_id ` set rs"
    using sub_revision_set [OF s(1), of rs] by (auto simp: rs_def)
  obtain a where a: "analyze s' = Inr a" using analyze_sub [OF s(2) ok s'(3,2)] .
  have closed: "p \<in> keys_of s'" if "map_of s' x = Some r" "p \<in> set (er_parents r)" for x r p
  proof -
    have "x \<in> er_revision_id ` set rs" using that(1) s'(4) [of x] by (simp add: keys_of_iff)
    then obtain c where c: "c \<in> set ?known" "ready_in pk s ?known c" "x \<in> set (rc_revision_ids c)"
      by (auto simp: rs_def)
    have "map_of s x = Some r" using that(1) s'(2) by (metis domI map_le_def)
    with ready_closed [OF each c] that(2) obtain q k where q: "map_of s p = Some q" "k \<in> set ?known"
      "ready_in pk s ?known k" "p \<in> set (rc_revision_ids k)"
      by (metis option.inject)
    from q(1) held obtain r0 where "r0 \<in> set (sn_revisions n)" "er_revision_id r0 = p" by auto
    with q have "p \<in> er_revision_id ` set rs" by (auto simp: rs_def)
    then show ?thesis by (simp add: s'(4))
  qed
  have complete: "missing_ancestors s' rid = {}" for rid
    by (rule closed_complete) (rule closed)
  have "ra_pending a = []" using analyze_outcome [OF s'(3)] a complete by simp
  moreover have "try_fold (note_ready pk s ?known) ([], {}) ?known =
      Inr (filter (ready_in pk s ?known) ?known,
        \<Union>c \<in> set (filter (ready_in pk s ?known) ?known). set (rc_revision_ids c))"
    using note_ready_fold [OF each, of "[]" "{}"] by simp
  moreover have "filter (\<lambda>r. er_revision_id r \<in> (\<Union>c \<in> set (filter (ready_in pk s ?known) ?known). set (rc_revision_ids c)))
      (sn_revisions n) = rs"
    unfolding rs_def by (rule filter_cong) auto
  ultimately have "eligible_records_from pk n = Inr (filter (ready_in pk s ?known) ?known, rs, a)"
    using s(1) s'(1) a by (simp add: eligible_records_from_def analysis_from_def Let_def)
  then show thesis by (rule that [OF s(1) HOL.refl rs_def _ s'(1) a complete])
qed

section \<open>Immutable rows\<close>

text \<open>What the packages promise: parsing gives back what was written.\<close>

definition journal_codec_ok :: "journal_packages \<Rightarrow> bool" where
  "journal_codec_ok pk \<longleftrightarrow>
     (\<forall>r. jp_parse_revision pk (jp_revision_json pk r) = Some r) \<and>
     (\<forall>c. jp_parse_commit pk (jp_commit_json pk c) = Some c) \<and>
     (\<forall>h. jp_parse_heads pk (jp_heads_json pk h) = Some (map (\<lambda>(e, ids). (e, HeadArray (Some ids))) h)) \<and>
     (\<forall>h. jp_parse_projection pk (jp_projection_json pk h) = Some h)"

text \<open>\<open>T'\<close> is \<open>T\<close> with rows for the records \<open>R\<close>: no row changes, every record can be read back, and each new
  row is the encoding of one of the records.\<close>

definition rows_added ::
    "('r \<Rightarrow> ustring) \<Rightarrow> ('r \<Rightarrow> 'row) \<Rightarrow> ('row \<Rightarrow> replication_error + 'r) \<Rightarrow> 'row btree \<Rightarrow> 'r set \<Rightarrow> 'row btree \<Rightarrow> bool" where
  "rows_added id_of row decode T R T' \<longleftrightarrow>
     btree_ok T' \<and> map_of T \<subseteq>\<^sub>m map_of T' \<and>
     (\<forall>r \<in> R. \<exists>x. map_of T' (id_of r) = Some x \<and> decode x = Inr r) \<and>
     (\<forall>k x. map_of T k = None \<longrightarrow> map_of T' k = Some x \<longrightarrow> (\<exists>r \<in> R. id_of r = k \<and> x = row r))"

lemma rows_added_refl: "btree_ok T \<Longrightarrow> rows_added id_of row decode T {} T"
  by (simp add: rows_added_def)

lemma rows_added_trans:
  assumes "rows_added id_of row decode T R T1" "rows_added id_of row decode T1 R' T2"
  shows "rows_added id_of row decode T (R \<union> R') T2"
proof -
  have keep: "map_of T2 k = Some x" if "map_of T1 k = Some x" for k x
    using assms(2) that by (metis domI map_le_def rows_added_def)
  have "\<exists>x. map_of T2 (id_of r) = Some x \<and> decode x = Inr r" if "r \<in> R \<union> R'" for r
    using assms that keep unfolding rows_added_def by blast
  moreover have "\<exists>r \<in> R \<union> R'. id_of r = k \<and> x = row r" if "map_of T k = None" "map_of T2 k = Some x" for k x
  proof (cases "map_of T1 k")
    case None
    then show ?thesis using assms(2) that(2) unfolding rows_added_def by blast
  next
    case (Some y)
    then have "x = y" using keep that(2) by simp
    then show ?thesis using assms(1) that(1) Some unfolding rows_added_def by blast
  qed
  ultimately show ?thesis
    using assms map_le_trans [of "map_of T" "map_of T1" "map_of T2"] unfolding rows_added_def by blast
qed

text \<open>A table of immutable rows: storing a record adds its row, or finds a row that reads as the record.\<close>

locale immutable_rows =
  fixes id_of :: "'r \<Rightarrow> ustring"
    and valid :: "journal_packages \<Rightarrow> 'r \<Rightarrow> bool"
    and row :: "journal_packages \<Rightarrow> 'r \<Rightarrow> 'row"
    and decode :: "journal_packages \<Rightarrow> 'row \<Rightarrow> replication_error + 'r"
    and table :: "journal_db \<Rightarrow> 'row btree"
    and store :: "journal_packages \<Rightarrow> journal_db \<Rightarrow> 'r \<Rightarrow> replication_error + journal_db"
  assumes inserted: "store pk db r = Inr db' \<Longrightarrow> map_of (table db) (id_of r) = None \<Longrightarrow>
      table db' = btree_insert (id_of r) (row pk r) (table db)"
    and kept: "store pk db r = Inr db' \<Longrightarrow> map_of (table db) (id_of r) = Some x \<Longrightarrow>
      table db' = table db \<and> decode pk x = Inr r"
    and decode_row: "journal_codec_ok pk \<Longrightarrow> valid pk r \<Longrightarrow> decode pk (row pk r) = Inr r"
begin

lemma store_adds:
  assumes "journal_codec_ok pk" "valid pk r" "btree_ok (table db)" "store pk db r = Inr db'"
  shows "rows_added id_of (row pk) (decode pk) (table db) {r} (table db')"
proof (cases "map_of (table db) (id_of r)")
  case None
  have new: "table db' = btree_insert (id_of r) (row pk r) (table db)" by (rule inserted [OF assms(4) None])
  have "map_of (table db) \<subseteq>\<^sub>m map_of (table db')"
    using None assms(3) by (auto simp: new map_le_def)
  with None assms(3) decode_row [OF assms(1,2)] show ?thesis
    by (auto simp: rows_added_def new split: if_splits)
next
  case (Some x)
  with kept [OF assms(4) Some] assms(3) show ?thesis by (auto simp: rows_added_def)
qed

lemma store_all_adds:
  "journal_codec_ok pk \<Longrightarrow> \<forall>r \<in> set rs. valid pk r \<Longrightarrow> btree_ok (table db) \<Longrightarrow>
   try_fold (store pk) db rs = Inr db' \<Longrightarrow>
   rows_added id_of (row pk) (decode pk) (table db) (set rs) (table db')"
proof (induction rs arbitrary: db)
  case (Cons r rs)
  then obtain db1 where db1: "store pk db r = Inr db1" "try_fold (store pk) db1 rs = Inr db'"
    by (auto split: sum.splits)
  have step: "rows_added id_of (row pk) (decode pk) (table db) {r} (table db1)"
    using Cons.prems db1 by (intro store_adds) simp_all
  then have "btree_ok (table db1)" by (simp add: rows_added_def)
  then have "rows_added id_of (row pk) (decode pk) (table db1) (set rs) (table db')"
    using Cons.IH [of db1] Cons.prems(1,2) db1(2) by simp
  with rows_added_trans [OF step this] show ?case by simp
qed (simp add: rows_added_refl)

lemma rows_determined:
  assumes "journal_codec_ok pk" "\<forall>r \<in> R. valid pk r"
    and "rows_added id_of (row pk) (decode pk) T R T1" "rows_added id_of (row pk) (decode pk) T R T2"
  shows "T1 = T2"
proof (rule btree_ext)
  show "btree_ok T1" "btree_ok T2" using assms(3,4) by (auto simp: rows_added_def)
  have same: "map_of T' k = Some x"
    if added: "rows_added id_of (row pk) (decode pk) T R T'" "rows_added id_of (row pk) (decode pk) T R T''"
      and x: "map_of T'' k = Some x" for T' T'' k x
  proof (cases "map_of T k")
    case None
    then obtain r where r: "r \<in> R" "id_of r = k" "x = row pk r"
      using added(2) x unfolding rows_added_def by blast
    then obtain y where y: "map_of T' k = Some y" "decode pk y = Inr r"
      using added(1) unfolding rows_added_def by blast
    then obtain r' where "r' \<in> R" "y = row pk r'"
      using added(1) None unfolding rows_added_def by blast
    then have "r' = r" using y(2) decode_row [OF assms(1)] assms(2) by simp
    with r(3) \<open>y = row pk r'\<close> y(1) show ?thesis by simp
  next
    case (Some y)
    then have "map_of T' k = Some y" "map_of T'' k = Some y"
      using added unfolding rows_added_def by (metis domI map_le_def)+
    with x show ?thesis by simp
  qed
  show "map_of T1 = map_of T2"
  proof
    fix k
    show "map_of T1 k = map_of T2 k"
      using same [OF assms(3,4), of k] same [OF assms(4,3), of k]
      by (cases "map_of T1 k"; cases "map_of T2 k") auto
  qed
qed

end

lemma canonical_revision_iff:
  "canonical_revision pk r = Inr r' \<longleftrightarrow>
     validate_revision (jp_is_uuid pk) (canonicalize_revision r) = Inr () \<and> r' = canonicalize_revision r"
  by (auto simp: canonical_revision_def revision_set_insert_def Let_def and_then_eq_Inr)

lemma canonical_commit_iff:
  "canonical_commit pk c = Inr c' \<longleftrightarrow>
     validate_commit (jp_is_uuid pk) (canonicalize_commit c) = Inr () \<and> c' = canonicalize_commit c"
  by (auto simp: canonical_commit_def Let_def and_then_eq_Inr)

interpretation revision_rows: immutable_rows er_revision_id "\<lambda>pk r. canonical_revision pk r = Inr r"
  "\<lambda>pk r. (er_entity_id r, jp_revision_json pk r)" "\<lambda>pk (_, envelope). decode_revision pk envelope"
  db_revisions store_revision
  by unfold_locales
    (auto simp: store_revision_def revision_by_id_def decode_revision_def journal_codec_ok_def and_then_eq_Inr
      split: option.splits if_splits)

interpretation commit_rows: immutable_rows rc_commit_id "\<lambda>pk c. canonical_commit pk c = Inr c"
  jp_commit_json decode_commit db_commits "\<lambda>pk. receive_commit pk received_at" for received_at
  by unfold_locales
    (auto simp: receive_commit_def store_commit_def commit_by_id_def decode_commit_def journal_codec_ok_def
      and_then_eq_Inr split: option.splits if_splits)

section \<open>Arrival order\<close>

lemma index_canonical:
  assumes "\<And>r r'. canonical r = Inr r' \<longleftrightarrow> good r \<and> r' = canon r"
    and "try_fold (\<lambda>m r. and_then (canonical r) (add_canonical id_of reused m)) m rs = Inr m'" "btree_ok m"
  shows "btree_ok m' \<and> snd ` set m' = snd ` set m \<union> canon ` set rs \<and> (\<forall>r \<in> set rs. good r)"
  using assms(2,3)
proof (induction rs arbitrary: m)
  case (Cons r rs)
  then obtain m1 where step: "and_then (canonical r) (add_canonical id_of reused m) = Inr m1"
    and rest: "try_fold (\<lambda>m r. and_then (canonical r) (add_canonical id_of reused m)) m1 rs = Inr m'"
    by (auto split: sum.splits)
  then have good: "good r" and add: "add_canonical id_of reused m (canon r) = Inr m1"
    by (auto simp: and_then_eq_Inr assms(1))
  have "btree_ok m1 \<and> snd ` set m1 = insert (canon r) (snd ` set m)"
  proof (cases "map_of m (id_of (canon r))")
    case None
    then have m1: "m1 = btree_insert (id_of (canon r)) (canon r) m" using add by (simp add: add_canonical_def)
    have ok: "btree_ok m1" using m1 Cons.prems(2) by simp
    have "map_of m1 k = Some v \<longleftrightarrow> (k, v) = (id_of (canon r), canon r) \<or> map_of m k = Some v" for k v
      using None Cons.prems(2) by (auto simp: m1)
    then have "(k, v) \<in> set m1 \<longleftrightarrow> (k, v) = (id_of (canon r), canon r) \<or> (k, v) \<in> set m" for k v
      unfolding btree_mem_iff [OF ok] btree_mem_iff [OF Cons.prems(2)] .
    then have "set m1 = insert (id_of (canon r), canon r) (set m)" by auto
    with ok show ?thesis by simp
  next
    case (Some v)
    with add have m1: "m1 = m" "v = canon r" by (auto simp: add_canonical_def split: if_splits)
    from Some have "canon r \<in> snd ` set m" unfolding m1(2) by (force dest: map_of_SomeD)
    with m1 Cons.prems(2) show ?thesis by (simp add: insert_absorb)
  qed
  with Cons.IH [OF rest] good show ?case by auto
qed simp

lemma canonical_revisions_set:
  assumes "canonical_revisions pk raw = Inr rs"
  shows "set rs = canonicalize_revision ` set raw" "\<forall>r \<in> set rs. canonical_revision pk r = Inr r"
proof -
  from assms obtain m where m: "try_fold (\<lambda>m r. and_then (canonical_revision pk r)
      (add_canonical er_revision_id ''revision id was reused for different content'' m)) [] raw = Inr m" "rs = map snd m"
    by (auto simp: canonical_revisions_def and_then_eq_Inr)
  note index_canonical [OF canonical_revision_iff m(1)]
  with m(2) show "set rs = canonicalize_revision ` set raw" "\<forall>r \<in> set rs. canonical_revision pk r = Inr r"
    by (auto simp: canonical_revision_iff)
qed

lemma canonicalize_commit_idem [simp]: "canonicalize_commit (canonicalize_commit c) = canonicalize_commit c"
  by (simp add: canonicalize_commit_def sort_key_id_if_sorted)

lemma canonical_commits_set:
  assumes "canonical_commits pk raw = Inr cs"
  shows "set cs = canonicalize_commit ` set raw" "\<forall>c \<in> set cs. canonical_commit pk c = Inr c"
proof -
  from assms obtain m where m: "try_fold (\<lambda>m c. and_then (canonical_commit pk c)
      (add_canonical rc_commit_id ''commit id was reused for different content'' m)) [] raw = Inr m" "cs = map snd m"
    by (auto simp: canonical_commits_def and_then_eq_Inr)
  note index_canonical [OF canonical_commit_iff m(1)]
  with m(2) show "set cs = canonicalize_commit ` set raw" "\<forall>c \<in> set cs. canonical_commit pk c = Inr c"
    by (auto simp: canonical_commit_iff)
qed

lemma verify_snapshot_frame:
  "verify_snapshot n w = (w', r) \<Longrightarrow> jw_db w' = jw_db w \<and> jw_packages w' = jw_packages w \<and>
     jw_sidecar w' = jw_sidecar w \<and> jw_domain w' = jw_domain w \<and> jw_commits w' = jw_commits w"
  by (auto simp: verify_snapshot_def split: prod.splits)

lemma mutation_outcome:
  assumes "with_mutation op w = (w', Inr x)"
  obtains db n where "op (jw_db w) = Inr (x, db)" "jw_db w' = db" "jw_packages w' = jw_packages w"
    "security_snapshot_from (jw_packages w) db = Inr n" "validate_snapshot (jw_packages w) n = Inr ()"
  using assms verify_snapshot_frame
  by (fastforce simp: with_mutation_def finish_transaction_def Let_def split: sum.splits prod.splits list.splits effect.splits)

text \<open>Batches of records, each received in one call.\<close>

fun receive_batches ::
    "(revision_commit list \<times> entity_revision list \<times> ustring) list \<Rightarrow> unit journal_op" where
  "receive_batches [] w = (w, Inr ())"
| "receive_batches ((cs, rs, received_at) # bs) w =
     (case receive_inbound cs rs received_at w of
        (w, Inl e) \<Rightarrow> (w, Inl e)
      | (w, Inr _) \<Rightarrow> receive_batches bs w)"

definition batch_commits :: "(revision_commit list \<times> entity_revision list \<times> ustring) list \<Rightarrow> revision_commit set" where
  "batch_commits bs = (\<Union>(cs, _, _) \<in> set bs. set cs)"

definition batch_revisions :: "(revision_commit list \<times> entity_revision list \<times> ustring) list \<Rightarrow> entity_revision set" where
  "batch_revisions bs = (\<Union>(_, rs, _) \<in> set bs. set rs)"

abbreviation revision_rows_added ::
    "journal_packages \<Rightarrow> journal_db \<Rightarrow> entity_revision set \<Rightarrow> journal_db \<Rightarrow> bool" where
  "revision_rows_added pk db R db' \<equiv>
     rows_added er_revision_id (\<lambda>r. (er_entity_id r, jp_revision_json pk r))
       (\<lambda>(_, envelope). decode_revision pk envelope) (db_revisions db) R (db_revisions db')"

abbreviation commit_rows_added ::
    "journal_packages \<Rightarrow> journal_db \<Rightarrow> revision_commit set \<Rightarrow> journal_db \<Rightarrow> bool" where
  "commit_rows_added pk db C db' \<equiv>
     rows_added rc_commit_id (jp_commit_json pk) (decode_commit pk) (db_commits db) C (db_commits db')"

lemma store_revision_frame: "store_revision pk db r = Inr db' \<Longrightarrow> db_commits db' = db_commits db \<and> db_outbox db' = db_outbox db"
  by (auto simp: store_revision_def and_then_eq_Inr split: option.splits if_splits)

lemma store_commit_frame: "store_commit pk db c = Inr db' \<Longrightarrow> db_revisions db' = db_revisions db \<and> db_outbox db' = db_outbox db"
  by (auto simp: store_commit_def and_then_eq_Inr split: option.splits if_splits)

lemma try_fold_frame:
  "try_fold f s xs = Inr s' \<Longrightarrow> (\<And>s x s'. f s x = Inr s' \<Longrightarrow> g s' = g s) \<Longrightarrow> g s' = g s"
  by (induction xs arbitrary: s) (auto split: sum.splits)

lemma receive_tx_adds:
  assumes "journal_codec_ok pk" "btree_ok (db_revisions db)" "btree_ok (db_commits db)"
    and "\<forall>r \<in> set rs. canonical_revision pk r = Inr r" "\<forall>c \<in> set cs. canonical_commit pk c = Inr c"
    and "receive_tx pk cs rs received_at db = Inr ((), db')"
  shows "revision_rows_added pk db (set rs) db'" "commit_rows_added pk db (set cs) db'"
proof -
  from assms(6) obtain db1 where db1: "try_fold (store_revision pk) db rs = Inr db1"
    and db': "try_fold (receive_commit pk received_at) db1 cs = Inr db'"
    by (auto simp: receive_tx_def and_then_eq_Inr)
  have commits: "db_commits db1 = db_commits db"
    by (rule try_fold_frame [OF db1]) (simp add: store_revision_frame)
  have revisions: "db_revisions db' = db_revisions db1"
    by (rule try_fold_frame [OF db']) (auto simp: receive_commit_def and_then_eq_Inr dest: store_commit_frame)
  show "revision_rows_added pk db (set rs) db'"
    using revision_rows.store_all_adds [OF assms(1,4,2) db1] unfolding revisions .
  show "commit_rows_added pk db (set cs) db'"
    using commit_rows.store_all_adds [OF assms(1,5) _ db'] assms(3) unfolding commits .
qed

lemma receive_batches_adds:
  assumes "journal_codec_ok (jw_packages w)" "btree_ok (db_revisions (jw_db w))" "btree_ok (db_commits (jw_db w))"
    and "receive_batches bs w = (w', Inr ())"
  shows "jw_packages w' = jw_packages w \<and>
    revision_rows_added (jw_packages w) (jw_db w) (canonicalize_revision ` batch_revisions bs) (jw_db w') \<and>
    commit_rows_added (jw_packages w) (jw_db w) (canonicalize_commit ` batch_commits bs) (jw_db w') \<and>
    (\<forall>r \<in> canonicalize_revision ` batch_revisions bs. canonical_revision (jw_packages w) r = Inr r) \<and>
    (\<forall>c \<in> canonicalize_commit ` batch_commits bs. canonical_commit (jw_packages w) c = Inr c)"
  using assms
proof (induction bs arbitrary: w)
  case Nil
  then show ?case by (simp add: batch_revisions_def batch_commits_def rows_added_refl)
next
  case (Cons b bs)
  obtain raw_cs raw_rs at where b: "b = (raw_cs, raw_rs, at)" by (cases b)
  let ?pk = "jw_packages w"
  from Cons.prems(4) obtain w1 where first: "receive_inbound raw_cs raw_rs at w = (w1, Inr ())"
    and rest: "receive_batches bs w1 = (w', Inr ())"
    by (auto simp: b split: prod.splits sum.splits)
  from first obtain cs rs where cs: "canonical_commits ?pk raw_cs = Inr cs" and rs: "canonical_revisions ?pk raw_rs = Inr rs"
    and tx: "with_mutation (receive_tx ?pk cs rs at) w = (w1, Inr ())"
    by (auto simp: receive_inbound_def Let_def and_then_eq_Inr require_time_def split: sum.splits if_splits)
  obtain db where db: "receive_tx ?pk cs rs at (jw_db w) = Inr ((), db)" "jw_db w1 = db" "jw_packages w1 = ?pk"
    using mutation_outcome [OF tx] by blast
  note c_set = canonical_commits_set [OF cs] and r_set = canonical_revisions_set [OF rs]
  note added = receive_tx_adds [OF Cons.prems(1-3) r_set(2) c_set(2) db(1), folded db(2)]
  then have "btree_ok (db_revisions (jw_db w1))" "btree_ok (db_commits (jw_db w1))"
    by (simp_all add: rows_added_def)
  note IH = Cons.IH [of w1, unfolded db(3), OF Cons.prems(1) this rest]
  have "batch_revisions (b # bs) = set raw_rs \<union> batch_revisions bs" "batch_commits (b # bs) = set raw_cs \<union> batch_commits bs"
    by (simp_all add: b batch_revisions_def batch_commits_def)
  with IH rows_added_trans [OF added(1)] rows_added_trans [OF added(2)] r_set c_set show ?case
    by (simp add: image_Un ball_Un)
qed

lemma snapshot_records:
  "security_snapshot_from pk db = Inr n \<Longrightarrow> revisions_from pk db = Inr (sn_revisions n) \<and> commits_from pk db = Inr (sn_commits n)"
  by (auto simp: security_snapshot_from_def and_then_eq_Inr split: if_splits)

text \<open>(C22) The order in which records arrive does not matter. Two devices whose journals hold the same records
  receive the same further revisions and commits, in whatever batches, order and repetition; when both
  accept all of them, their tables of immutable revisions and commits are equal, and so is every
  projection computed from them.\<close>

theorem arrival_order_irrelevant:
  assumes "journal_codec_ok pk" "jw_packages w = pk" "jw_packages v = pk"
    and "db_revisions (jw_db v) = db_revisions (jw_db w)" "db_commits (jw_db v) = db_commits (jw_db w)"
    and "btree_ok (db_revisions (jw_db w))" "btree_ok (db_commits (jw_db w))"
    and "batch_revisions bs = batch_revisions bs'" "batch_commits bs = batch_commits bs'"
    and "receive_batches bs w = (w', Inr ())" "receive_batches bs' v = (v', Inr ())"
  shows "db_revisions (jw_db w') = db_revisions (jw_db v') \<and> db_commits (jw_db w') = db_commits (jw_db v') \<and>
    (\<forall>n m. security_snapshot_from pk (jw_db w') = Inr n \<longrightarrow> security_snapshot_from pk (jw_db v') = Inr m \<longrightarrow>
       projection_records_from pk n = projection_records_from pk m)"
proof -
  let ?R = "canonicalize_revision ` batch_revisions bs" and ?C = "canonicalize_commit ` batch_commits bs"
  note run = receive_batches_adds [of w bs w', unfolded assms(2), OF assms(1,6,7,10)]
  note run' = receive_batches_adds [of v bs' v', unfolded assms(3-5), OF assms(1,6,7,11), folded assms(8,9)]
  have revisions: "db_revisions (jw_db w') = db_revisions (jw_db v')"
    using run run' by (intro revision_rows.rows_determined [OF assms(1), where R = ?R and T = "db_revisions (jw_db w)"]) auto
  have commits: "db_commits (jw_db w') = db_commits (jw_db v')"
    using run run' by (intro commit_rows.rows_determined [OF assms(1), where R = ?C and T = "db_commits (jw_db w)"]) auto
  have "projection_records_from pk n = projection_records_from pk m"
    if n: "security_snapshot_from pk (jw_db w') = Inr n" and m: "security_snapshot_from pk (jw_db v') = Inr m" for n m
  proof -
    have "revisions_from pk (jw_db w') = revisions_from pk (jw_db v')" "commits_from pk (jw_db w') = commits_from pk (jw_db v')"
      using revisions commits by (simp_all add: revisions_from_def commits_from_def)
    with snapshot_records [OF n] snapshot_records [OF m]
    have "sn_revisions n = sn_revisions m" "sn_commits n = sn_commits m" by auto
    then show ?thesis by (simp add: projection_records_from_def eligible_records_from_def)
  qed
  with revisions commits show ?thesis by blast
qed

lemma example_codec: "journal_codec_ok example_journal_packages"
  by (simp add: journal_codec_ok_def)

lemma example_receive:
  assumes "sealed_at a g n" "g < 10" "m \<in> set example_snapshots"
    and "security_snapshot_from example_journal_packages db = Inr n"
    and "canonical_revisions example_journal_packages raw = Inr rs"
    and "receive_tx example_journal_packages [] rs [50] db = Inr ((), db')"
    and "security_snapshot_from example_journal_packages db' = Inr m" "validate_snapshot example_journal_packages m = Inr ()"
  obtains a' where "sealed_at a' (g + 1) m"
    "receive_inbound [] raw [50] (journal_at a db []) = (journal_at a' db' [], Inr ())"
proof -
  obtain a' where a': "sealed_at a' (g + 1) m"
    "with_mutation (receive_tx example_journal_packages [] rs [50]) (journal_at a db []) =
       finish_transaction db' () (journal_at a' db [])"
    using sealed_mutation [where op = "receive_tx example_journal_packages [] rs [50]", OF assms(1-4,6-8)] by metis
  moreover have "receive_inbound [] raw [50] (journal_at a db []) =
      with_mutation (receive_tx example_journal_packages [] rs [50]) (journal_at a db [])"
    using assms(5) by (simp add: receive_inbound_def Let_def journal_at_def canonical_commits_def require_time_def
        trim_def trim_start_def trim_end_def is_whitespace_def)
  ultimately show thesis using that by (simp add: finish_transaction_def journal_at_def)
qed

lemma received_again:
  "receive_tx example_journal_packages [] [example_revision [10] [20] []] received_at received_db = Inr ((), received_db)"
  by (simp add: receive_tx_def store_revision_def revision_by_id_def decode_revision_def received_db_def
      example_db_def blank_db_def)

lemma example_orders:
  "\<exists>w'. receive_batches [([], [example_revision [10] [20] []], [50]), ([], [merge_revision, example_revision [11] [21] []], [50])]
     (example_journal []) = (w', Inr ())"
  "\<exists>w'. receive_batches [([], [merge_revision, example_revision [11] [21] []], [50]), ([], [example_revision [10] [20] []], [50])]
     (example_journal []) = (w', Inr ())"
proof -
  have known: "received_snapshot \<in> set example_snapshots" "example_snapshot \<in> set example_snapshots"
    by (simp_all add: example_snapshots_def)
  obtain a where a: "sealed_at a (1 + 1) example_snapshot"
    "receive_inbound [] [example_revision [10] [20] []] [50] (example_journal []) = (journal_at a example_db [], Inr ())"
    using example_receive [OF example_sealed _ known(2) example_security_snapshot received_canonical(1) received_tx(2)
        example_security_snapshot example_valid] unfolding example_journal_def by auto
  obtain b where "receive_inbound [] [merge_revision, example_revision [11] [21] []] [50] (journal_at a example_db []) =
      (journal_at b received_db [], Inr ())"
    using example_receive [OF a(1) _ known(1) example_security_snapshot received_canonical(2) received_tx(3)
        received_security_snapshot received_valid] by auto
  with a(2) show "\<exists>w'. receive_batches [([], [example_revision [10] [20] []], [50]), ([], [merge_revision, example_revision [11] [21] []], [50])]
     (example_journal []) = (w', Inr ())" by simp
  obtain c where c: "sealed_at c (1 + 1) received_snapshot"
    "receive_inbound [] [merge_revision, example_revision [11] [21] []] [50] (example_journal []) = (journal_at c received_db [], Inr ())"
    using example_receive [OF example_sealed _ known(1) example_security_snapshot received_canonical(2) received_tx(3)
        received_security_snapshot received_valid] unfolding example_journal_def by auto
  obtain d where "receive_inbound [] [example_revision [10] [20] []] [50] (journal_at c received_db []) =
      (journal_at d received_db [], Inr ())"
    using example_receive [OF c(1) _ known(1) received_security_snapshot received_canonical(1) received_again
        received_security_snapshot received_valid] by auto
  with c(2) show "\<exists>w'. receive_batches [([], [merge_revision, example_revision [11] [21] []], [50]), ([], [example_revision [10] [20] []], [50])]
     (example_journal []) = (w', Inr ())" by simp
qed

theorem arrival_order_irrelevant_witness:
  "\<exists>w' v'. receive_batches [([], [example_revision [10] [20] []], [50]), ([], [merge_revision, example_revision [11] [21] []], [50])]
       (example_journal []) = (w', Inr ()) \<and>
     receive_batches [([], [merge_revision, example_revision [11] [21] []], [50]), ([], [example_revision [10] [20] []], [50])]
       (example_journal []) = (v', Inr ()) \<and>
     db_revisions (jw_db w') = db_revisions (jw_db v')"
proof -
  let ?bs = "[([], [example_revision [10] [20] []], [50]), ([], [merge_revision, example_revision [11] [21] []], [50])]"
  let ?bs' = "[([], [merge_revision, example_revision [11] [21] []], [50]), ([], [example_revision [10] [20] []], [50])]"
  obtain w' v' where runs: "receive_batches ?bs (example_journal []) = (w', Inr ())" "receive_batches ?bs' (example_journal []) = (v', Inr ())"
    using example_orders by blast
  have j: "jw_packages (example_journal []) = example_journal_packages" by (simp add: example_journal_def journal_at_def)
  have ok: "btree_ok (db_revisions (jw_db (example_journal [])))" "btree_ok (db_commits (jw_db (example_journal [])))"
    by (simp_all add: example_journal_def journal_at_def example_db_def blank_db_def btree_ok_def)
  have same: "batch_revisions ?bs = batch_revisions ?bs'" "batch_commits ?bs = batch_commits ?bs'"
    by (auto simp: batch_revisions_def batch_commits_def)
  from arrival_order_irrelevant [OF example_codec j j HOL.refl HOL.refl ok same runs] runs show ?thesis by blast
qed

end
