(* ===== verification/Journal_Merge.thy ===== *)
theory Journal_Merge
  imports Journal_History
begin

text \<open>
  Resolving a conflict. A transaction queued by this device that names every head of an entity as a parent
  leaves its revision as the only head of that entity and changes no other entity, because a fresh
  revision and a fresh commit change the readiness of no commit known before.
\<close>

section \<open>Fresh records change no readiness\<close>

definition fresh_records ::
    "revision_set \<Rightarrow> revision_commit btree \<Rightarrow> ustring \<Rightarrow> ustring \<Rightarrow> bool" where
  "fresh_records s cs rid cid \<longleftrightarrow>
     rid \<notin> keys_of s \<and> cid \<notin> keys_of cs \<and>
     (\<forall>x m. map_of cs x = Some m \<longrightarrow> rid \<notin> set (rc_revision_ids m)) \<and>
     (\<forall>x q. map_of s x = Some q \<longrightarrow> rid \<notin> set (er_parents q) \<and> er_commit_id q \<noteq> cid)"

lemma history_lacks_extend:
  assumes "fresh_records s cs rid cid"
    and "map_of s' = (map_of s)(rid \<mapsto> r)" "map_of cs' = (map_of cs)(cid \<mapsto> c)"
    and "x \<in> keys_of cs"
  shows "history_lacks s' cs' x = history_lacks s cs x"
proof -
  have at: "map_of cs' x = map_of cs x" "lacking_revisions s' cs' x = lacking_revisions s cs x"
    "lacking_commits s' cs' x = lacking_commits s cs x"
    "\<And>y. (x, y) \<in> commit_edges s' cs' \<longleftrightarrow> (x, y) \<in> commit_edges s cs" if known: "x \<in> keys_of cs" for x
  proof -
    obtain m where m: "map_of cs x = Some m" using known by (auto simp: keys_of_iff)
    then have m': "map_of cs' x = Some m" using assms(1,3) by (auto simp: fresh_records_def keys_of_iff)
    then show "map_of cs' x = map_of cs x" using m by simp
    have members: "map_of s' i = map_of s i" if "i \<in> set (rc_revision_ids m)" for i
      using that assms(1,2) m by (auto simp: fresh_records_def)
    have parents: "map_of s' p = map_of s p" if "map_of s i = Some q" "p \<in> set (er_parents q)" for i q p
      using that assms(1,2) by (auto simp: fresh_records_def)
    have owners: "er_commit_id q \<in> keys_of cs' \<longleftrightarrow> er_commit_id q \<in> keys_of cs" if "map_of s i = Some q" for i q
      using that assms(1,3) by (auto simp: fresh_records_def keys_of_iff)
    have unknown: "map_of s' y = None \<longleftrightarrow> map_of s y = None" if "y \<noteq> rid" for y
      using that assms(2) by simp
    have "y \<noteq> rid" if "i \<in> set (rc_revision_ids m)" "y = i \<or> (\<exists>q. map_of s i = Some q \<and> y \<in> set (er_parents q))" for i y
      using that assms(1) m by (auto simp: fresh_records_def)
    then show "lacking_revisions s' cs' x = lacking_revisions s cs x"
      unfolding set_eq_iff lacking_iff(1) [OF m] lacking_iff(1) [OF m'] using members unknown by metis
    show "lacking_commits s' cs' x = lacking_commits s cs x"
      unfolding set_eq_iff lacking_iff(2) [OF m] lacking_iff(2) [OF m'] using members parents owners by metis
    show "\<And>y. (x, y) \<in> commit_edges s' cs' \<longleftrightarrow> (x, y) \<in> commit_edges s cs"
      unfolding commit_edge_iff [OF m] commit_edge_iff [OF m'] using members parents owners by metis
  qed
  have stays: "y \<in> keys_of cs" if "(x, y) \<in> (commit_edges s cs)\<^sup>*" for y
    using that assms(4) by (induction rule: rtrancl_induct) (auto simp: commit_edges_def)
  have "(x, y) \<in> (commit_edges s' cs')\<^sup>* \<and> y \<in> keys_of cs \<longleftrightarrow> (x, y) \<in> (commit_edges s cs)\<^sup>*" for y
  proof
    show "(x, y) \<in> (commit_edges s cs)\<^sup>*" if "(x, y) \<in> (commit_edges s' cs')\<^sup>* \<and> y \<in> keys_of cs"
      using conjunct1 [OF that]
    proof (induction rule: rtrancl_induct)
      case (step y z)
      then show ?case using at(4) [OF stays] by (blast intro: rtrancl_into_rtrancl)
    qed simp
    show "(x, y) \<in> (commit_edges s' cs')\<^sup>* \<and> y \<in> keys_of cs" if "(x, y) \<in> (commit_edges s cs)\<^sup>*"
      using that
    proof (induction rule: rtrancl_induct)
      case base
      then show ?case using assms(4) by simp
    next
      case (step y z)
      then show ?case using at(4) [of y] stays by (blast intro: rtrancl_into_rtrancl)
    qed
  qed
  moreover have "(x, y) \<in> (commit_edges s' cs')\<^sup>* \<Longrightarrow> y \<in> keys_of cs" for y
    by (induction rule: rtrancl_induct) (use assms(4) at(4) stays in \<open>auto simp: commit_edges_def\<close>)
  ultimately have "history s' cs' x = history s cs x" by (auto simp: history_def)
  moreover have "y \<in> keys_of cs" if "y \<in> history s cs x" for y using that stays by (simp add: history_def)
  ultimately show ?thesis using at(2,3) by (simp add: history_lacks_def)
qed

section \<open>Heads after a merge\<close>

lemma heads_for_current:
  assumes "analyze s = Inr a" "btree_ok s"
  shows "heads_for a e = sorted_list_of_set (current_heads s e)"
proof -
  have "current_heads s e = {}" if "e \<notin> entity_of s ` complete_in s" using that by (auto simp: current_heads_def)
  then show ?thesis
    using analyze_outcome [OF assms(2)] assms(1) by (auto simp: heads_for_def)
qed

lemma finite_current_heads [simp]: "finite (current_heads s e)"
  by (rule finite_subset [of _ "keys_of s"]) (auto simp: current_heads_def complete_in_def)

lemma heads_after_merge:
  assumes "\<And>x. missing_ancestors s x = {}" "\<And>x. missing_ancestors s' x = {}"
    and "map_of s' = (map_of s)(rid \<mapsto> r)" "rid \<notin> keys_of s"
    and "\<And>x q. map_of s x = Some q \<Longrightarrow> rid \<notin> set (er_parents q)"
    and "set (er_parents r) = current_heads s (er_entity_id r)"
  shows "current_heads s' e = (if e = er_entity_id r then {rid} else current_heads s e)"
proof -
  have keys: "keys_of s' = insert rid (keys_of s)" using assms(3) by (auto simp: keys_of_iff split: if_splits)
  have all: "complete_in s = keys_of s" "complete_in s' = keys_of s'" using assms(1,2) by (auto simp: complete_in_def)
  have entity: "entity_of s' x = (if x = rid then er_entity_id r else entity_of s x)" for x
    using assms(3) by (simp add: entity_of_def)
  have edges: "(c, x) \<in> parent_edges s' \<longleftrightarrow> (if c = rid then x \<in> set (er_parents r) else (c, x) \<in> parent_edges s)" for c x
    using assms(3) by (simp add: parent_edges_def)
  have old: "current_heads s e' \<subseteq> keys_of s" for e' by (auto simp: current_heads_def complete_in_def)
  have "rid \<notin> set (er_parents r)" using assms(4,6) old by blast
  then have no_child: "(c, rid) \<notin> parent_edges s'" for c
    unfolding edges using assms(5) by (auto simp: parent_edges_def)
  have head_iff: "x \<in> current_heads s' e \<longleftrightarrow>
      (x = rid \<and> e = er_entity_id r) \<or> (x \<noteq> rid \<and> x \<in> current_heads s e \<and> x \<notin> set (er_parents r))" for x
  proof (cases "x = rid")
    case True
    with no_child show ?thesis by (auto simp: current_heads_def [of s'] all keys entity)
  next
    case False
    have "c \<noteq> rid" if "c \<in> keys_of s" for c using that assms(4) by blast
    then have "(\<forall>c \<in> insert rid (keys_of s). (c, x) \<notin> parent_edges s') \<longleftrightarrow>
        x \<notin> set (er_parents r) \<and> (\<forall>c \<in> keys_of s. (c, x) \<notin> parent_edges s)"
      by (simp add: edges)
    with False show ?thesis by (auto simp: current_heads_def [of s'] current_heads_def [of s e] all keys entity)
  qed
  have elsewhere: "x \<notin> set (er_parents r)" if "x \<in> current_heads s e" "e \<noteq> er_entity_id r" for x
    using that assms(6) by (auto simp: current_heads_def)
  have "rid \<notin> current_heads s e" using old assms(4) by blast
  show ?thesis
  proof (cases "e = er_entity_id r")
    case True
    then have "x \<in> current_heads s' e \<longleftrightarrow> x = rid" for x using head_iff [of x] assms(6) by simp
    with True show ?thesis by auto
  next
    case False
    then have "x \<in> current_heads s' e \<longleftrightarrow> x \<in> current_heads s e" for x
      using head_iff [of x] elsewhere [of x] \<open>rid \<notin> current_heads s e\<close> by metis
    with False show ?thesis by auto
  qed
qed

section \<open>The tables after a queued merge\<close>

lemma list_all2_decode:
  assumes "list_all2 (\<lambda>row r. f row = Inr r) rows rs"
  shows "r \<in> set rs \<longleftrightarrow> (\<exists>row \<in> set rows. f row = Inr r)"
  using list_all2_left [OF assms] list_all2_right [OF assms] by fastforce

lemma revisions_from_set:
  assumes "revisions_from pk db = Inr rs" "btree_ok (db_revisions db)"
  shows "r \<in> set rs \<longleftrightarrow> (\<exists>k row. map_of (db_revisions db) k = Some row \<and> decode_revision pk (snd row) = Inr r)"
    "\<forall>r \<in> set rs. canonicalize_revision r = r"
proof -
  have rows: "list_all2 (\<lambda>row r. decode_revision pk (snd (snd row)) = Inr r) (db_revisions db) rs"
    using assms(1) unfolding revisions_from_def try_map_Inr
    by (rule list_all2_mono) (auto simp: and_then_eq_Inr split: if_splits)
  then have "r \<in> set rs \<longleftrightarrow> (\<exists>row \<in> set (db_revisions db). decode_revision pk (snd (snd row)) = Inr r)" for r
    by (rule list_all2_decode)
  then show mem: "r \<in> set rs \<longleftrightarrow> (\<exists>k row. map_of (db_revisions db) k = Some row \<and> decode_revision pk (snd row) = Inr r)" for r
    unfolding btree_mem_iff [OF assms(2), symmetric] by force
  show "\<forall>r \<in> set rs. canonicalize_revision r = r"
    using mem by (auto simp: decode_revision_def and_then_eq_Inr canonical_revision_iff)
qed

lemma commits_from_set:
  assumes "commits_from pk db = Inr cs" "btree_ok (db_commits db)"
  shows "c \<in> set cs \<longleftrightarrow> (\<exists>k m. map_of (db_commits db) k = Some m \<and> decode_commit pk m = Inr c)"
proof -
  have rows: "list_all2 (\<lambda>row c. decode_commit pk (snd row) = Inr c) (db_commits db) cs"
    using assms(1) unfolding commits_from_def try_map_Inr
    by (rule list_all2_mono) (auto simp: and_then_eq_Inr split: if_splits)
  then have "c \<in> set cs \<longleftrightarrow> (\<exists>row \<in> set (db_commits db). decode_commit pk (snd row) = Inr c)"
    by (rule list_all2_decode)
  then show ?thesis unfolding btree_mem_iff [OF assms(2), symmetric] by force
qed

lemma sorted_sn:
  assumes "revisions_from pk db = Inr rs" "btree_ok (db_revisions db)"
  shows "map er_revision_id rs = map fst (db_revisions db)"
proof -
  have "list_all2 (\<lambda>row r. er_revision_id r = fst row) (db_revisions db) rs"
    using assms(1) unfolding revisions_from_def try_map_Inr
    by (rule list_all2_mono) (auto simp: and_then_eq_Inr split: if_splits)
  then show ?thesis by (induction rule: list_all2_induct) auto
qed

definition journal_ok :: "journal_db \<Rightarrow> bool" where
  "journal_ok db \<longleftrightarrow> btree_ok (db_revisions db) \<and> btree_ok (db_commits db) \<and> btree_ok (db_outbox db)"

lemma queued_rows:
  assumes "journal_codec_ok pk" "journal_ok db" "canonical_revision pk r = Inr r" "canonical_commit pk c = Inr c"
    and "queue_tx pk c [r] heads at db = Inr ((), db')"
    and "map_of (db_revisions db) (er_revision_id r) = None" "map_of (db_commits db) (rc_commit_id c) = None"
  shows "db_revisions db' = btree_insert (er_revision_id r) (er_entity_id r, jp_revision_json pk r) (db_revisions db)"
    "db_commits db' = btree_insert (rc_commit_id c) (jp_commit_json pk c) (db_commits db)"
    "rc_commit_id c \<in> keys_of (db_outbox db')" "journal_ok db'"
  using assms
  by (auto simp: queue_tx_def and_then_eq_Inr store_revision_def store_commit_def journal_ok_def keys_of_iff
      split: option.splits if_splits sum.splits)

lemma outbound_listed:
  assumes "outbound_from pk db = Inr items" "cid \<in> keys_of (db_outbox db)"
    and "map_of (db_commits db) cid = Some m" "decode_commit pk m = Inr c"
  shows "\<exists>i \<in> set items. ob_commit i = c"
proof -
  obtain row where row: "row \<in> set (db_outbox db)" "fst row = cid" using assms(2) by (auto simp: keys_of_def)
  have all: "list_all2 (\<lambda>row i. fst row = cid \<longrightarrow> ob_commit i = c)
      (sort_key (\<lambda>(commit_id, _, created_at). (created_at, commit_id)) (db_outbox db)) items"
    using assms(1) unfolding outbound_from_def try_map_Inr
    by (rule list_all2_mono) (use assms(3,4) in \<open>auto simp: and_then_eq_Inr commit_by_id_def split: option.splits\<close>)
  have "row \<in> set (sort_key (\<lambda>(commit_id, _, created_at). (created_at, commit_id)) (db_outbox db))"
    using row(1) by simp
  from list_all2_left [OF all this] row(2) show ?thesis by blast
qed

section \<open>Resolving a conflict\<close>

definition unused_ids :: "journal_snapshot \<Rightarrow> ustring \<Rightarrow> ustring \<Rightarrow> bool" where
  "unused_ids n rid cid \<longleftrightarrow>
     (\<forall>q \<in> set (sn_revisions n). er_revision_id q \<noteq> rid \<and> rid \<notin> set (er_parents q) \<and> er_commit_id q \<noteq> cid) \<and>
     (\<forall>m \<in> set (sn_commits n). rc_commit_id m \<noteq> cid \<and> rid \<notin> set (rc_revision_ids m))"

lemma ready_iff_lacks:
  assumes "readiness_in pk s known m = Inr R" "m \<in> set known"
  obtains cs where "\<And>x k. map_of cs x = Some k \<longleftrightarrow> rc_commit_id k = x \<and> k \<in> set known"
    "ready_in pk s known m \<longleftrightarrow> history_lacks s cs (rc_commit_id m) = no_missing"
proof -
  have R: "commit_readiness (jp_is_uuid pk) s m known = Inr R" using assms(1) by (simp add: readiness_in_def)
  then obtain cs where "commits_by_id (jp_is_uuid pk) m known = Inr cs"
    "is_ready R \<longleftrightarrow> history_lacks s cs (rc_commit_id m) = no_missing"
    by (rule commit_readiness_outcome) blast
  with that [of cs] commits_by_id_table(2) [of "jp_is_uuid pk" m known cs] assms show thesis
    by (simp add: ready_in_def is_ready_iff insert_absorb)
qed

text \<open>The revisions and the commits of \<open>n'\<close> are those of \<open>n\<close> and one fresh one of each.\<close>

definition one_added :: "journal_snapshot \<Rightarrow> entity_revision \<Rightarrow> revision_commit \<Rightarrow> journal_snapshot \<Rightarrow> bool" where
  "one_added n r c n' \<longleftrightarrow>
     set (sn_revisions n') = insert r (set (sn_revisions n)) \<and> set (sn_commits n') = insert c (set (sn_commits n)) \<and>
     (\<forall>q \<in> set (sn_revisions n'). canonicalize_revision q = q) \<and>
     unused_ids n (er_revision_id r) (rc_commit_id c) \<and> er_revision_id r \<notin> set (er_parents r)"

lemma extended_sets:
  assumes "revision_set_from pk rs = Inr s" "revision_set_from pk rs' = Inr s'"
    and "set rs' = insert r (set rs)" "\<forall>q \<in> set rs'. canonicalize_revision q = q"
    and "\<forall>q \<in> set rs. er_revision_id q \<noteq> er_revision_id r"
  shows "map_of s' = (map_of s)(er_revision_id r \<mapsto> r)"
    "map_of s x = Some q \<longleftrightarrow> er_revision_id q = x \<and> q \<in> set rs" "er_revision_id r \<notin> keys_of s"
proof -
  have canon: "canonicalize_revision ` set rs' = set rs'" "canonicalize_revision ` set rs = set rs"
    using assms(3,4) by (auto simp: image_iff)
  have s: "map_of s x = Some q \<longleftrightarrow> er_revision_id q = x \<and> q \<in> set rs" for x q
    using revision_set_from_holds [OF assms(1)] unfolding holds_exactly_def canon by blast
  have s': "map_of s' x = Some q \<longleftrightarrow> er_revision_id q = x \<and> q \<in> set rs'" for x q
    using revision_set_from_holds [OF assms(2)] unfolding holds_exactly_def canon by blast
  show "map_of s x = Some q \<longleftrightarrow> er_revision_id q = x \<and> q \<in> set rs" by (rule s)
  show "er_revision_id r \<notin> keys_of s" using s assms(5) by (auto simp: keys_of_iff)
  show "map_of s' = (map_of s)(er_revision_id r \<mapsto> r)"
  proof
    fix x
    have "map_of s' x = Some q \<longleftrightarrow> ((map_of s)(er_revision_id r \<mapsto> r)) x = Some q" for q
      unfolding s' fun_upd_apply using s [of x q] assms(3,5) by auto
    then show "map_of s' x = ((map_of s)(er_revision_id r \<mapsto> r)) x"
      by (cases "((map_of s)(er_revision_id r \<mapsto> r)) x") auto
  qed
qed

lemma ready_unchanged:
  assumes "one_added n r c n'" "m \<in> set (sn_commits n)"
    and "revision_set_from pk (sn_revisions n) = Inr s" "revision_set_from pk (sn_revisions n') = Inr s'"
    and "readiness_in pk s (sn_commits n) m = Inr R" "readiness_in pk s' (sn_commits n') m = Inr R'"
  shows "ready_in pk s' (sn_commits n') m \<longleftrightarrow> ready_in pk s (sn_commits n) m"
proof -
  have m': "m \<in> set (sn_commits n')" using assms(1,2) by (simp add: one_added_def)
  obtain cs where cs: "\<And>x k. map_of cs x = Some k \<longleftrightarrow> rc_commit_id k = x \<and> k \<in> set (sn_commits n)"
    and ready: "ready_in pk s (sn_commits n) m \<longleftrightarrow> history_lacks s cs (rc_commit_id m) = no_missing"
    using ready_iff_lacks [OF assms(5,2)] by blast
  obtain cs' where cs': "\<And>x k. map_of cs' x = Some k \<longleftrightarrow> rc_commit_id k = x \<and> k \<in> set (sn_commits n')"
    and ready': "ready_in pk s' (sn_commits n') m \<longleftrightarrow> history_lacks s' cs' (rc_commit_id m) = no_missing"
    using ready_iff_lacks [OF assms(6) m'] by blast
  have unused: "unused_ids n (er_revision_id r) (rc_commit_id c)" using assms(1) by (simp add: one_added_def)
  note sets = extended_sets [OF assms(3,4), of r]
  have s: "map_of s' = (map_of s)(er_revision_id r \<mapsto> r)" "er_revision_id r \<notin> keys_of s"
    "\<And>x q. map_of s x = Some q \<Longrightarrow> q \<in> set (sn_revisions n)"
    using sets assms(1) unused by (auto simp: one_added_def unused_ids_def)
  have "map_of cs' = (map_of cs)(rc_commit_id c \<mapsto> c)"
  proof
    fix x
    have "map_of cs' x = Some k \<longleftrightarrow> ((map_of cs)(rc_commit_id c \<mapsto> c)) x = Some k" for k
      unfolding cs' fun_upd_apply using cs [of x k] assms(1) unused by (auto simp: one_added_def unused_ids_def)
    then show "map_of cs' x = ((map_of cs)(rc_commit_id c \<mapsto> c)) x"
      by (cases "((map_of cs)(rc_commit_id c \<mapsto> c)) x") auto
  qed
  moreover have "fresh_records s cs (er_revision_id r) (rc_commit_id c)"
    unfolding fresh_records_def keys_of_iff [of _ cs] using s(2,3) cs unused by (force simp: unused_ids_def)
  moreover have "rc_commit_id m \<in> keys_of cs" using cs [of "rc_commit_id m" m] assms(2) by (simp add: keys_of_iff)
  ultimately have "history_lacks s' cs' (rc_commit_id m) = history_lacks s cs (rc_commit_id m)"
    using history_lacks_extend s(1) by blast
  with ready ready' show ?thesis by simp
qed

lemma heads_after_one_added:
  assumes "one_added n r c n'" "validate_snapshot pk n = Inr ()" "validate_snapshot pk n' = Inr ()"
    and "rc_revision_ids c = [er_revision_id r]" "c \<in> ob_commit ` set (sn_outbound n')"
    and "eligible_records_from pk n = Inr (ready, rs, a)"
    and "set (er_parents r) = set (heads_for a (er_entity_id r))"
  shows "\<exists>ready' rs' a'. eligible_records_from pk n' = Inr (ready', rs', a') \<and>
    (\<forall>e. heads_for a' e = (if e = er_entity_id r then [er_revision_id r] else heads_for a e))"
proof -
  let ?rid = "er_revision_id r"
  obtain s t a0 ready0 rs0 where s: "revision_set_from pk (sn_revisions n) = Inr s"
    and "ready0 = filter (ready_in pk s (sn_commits n)) (sn_commits n)"
    and rs0: "rs0 = filter (\<lambda>q. \<exists>k \<in> set (sn_commits n). ready_in pk s (sn_commits n) k \<and> er_revision_id q \<in> set (rc_revision_ids k)) (sn_revisions n)"
    and e0: "eligible_records_from pk n = Inr (ready0, rs0, a0)"
    and t0: "revision_set_from pk rs0 = Inr t" "analyze t = Inr a0" "\<And>x. missing_ancestors t x = {}"
    by (rule eligible_outcome [OF assms(2)]) (rule that)
  have "rs0 = rs" "a0 = a" using e0 assms(6) by simp_all
  note rs = rs0 [unfolded this] and t = t0 [unfolded this]
  obtain s' t' a' ready' rs' where s': "revision_set_from pk (sn_revisions n') = Inr s'"
    and "ready' = filter (ready_in pk s' (sn_commits n')) (sn_commits n')"
    and rs': "rs' = filter (\<lambda>q. \<exists>k \<in> set (sn_commits n'). ready_in pk s' (sn_commits n') k \<and> er_revision_id q \<in> set (rc_revision_ids k)) (sn_revisions n')"
    and e': "eligible_records_from pk n' = Inr (ready', rs', a')"
    and t': "revision_set_from pk rs' = Inr t'" "analyze t' = Inr a'" "\<And>x. missing_ancestors t' x = {}"
    by (rule eligible_outcome [OF assms(3)]) (rule that)
  have each: "\<forall>k \<in> set (sn_commits n). \<exists>R. readiness_in pk s (sn_commits n) k = Inr R"
    "\<forall>k \<in> set (sn_commits n'). \<exists>R. readiness_in pk s' (sn_commits n') k = Inr R" "ready_in pk s' (sn_commits n') c"
    using validated_snapshot [OF assms(2)] validated_snapshot [OF assms(3)] s s' assms(5) by (metis (no_types, lifting) imageE sum.inject(2))+
  have sets: "set (sn_revisions n') = insert r (set (sn_revisions n))" "set (sn_commits n') = insert c (set (sn_commits n))"
    and canon: "\<forall>q \<in> set (sn_revisions n'). canonicalize_revision q = q"
    and unused: "unused_ids n ?rid (rc_commit_id c)" using assms(1) by (auto simp: one_added_def)
  have same: "ready_in pk s' (sn_commits n') k \<longleftrightarrow> ready_in pk s (sn_commits n) k" if "k \<in> set (sn_commits n)" for k
    using ready_unchanged [OF assms(1) that s s'] each(1,2) that sets by blast
  have "set rs' = insert r (set rs)"
    unfolding rs rs' set_filter sets using same each(3) assms(4) unused by (auto simp: unused_ids_def)
  note ext = extended_sets [OF t(1) t'(1) this]
  have old: "\<forall>q \<in> set rs. q \<in> set (sn_revisions n)" and canon': "\<forall>q \<in> set rs'. canonicalize_revision q = q"
    using canon by (auto simp: rs rs')
  have others: "\<forall>q \<in> set rs. er_revision_id q \<noteq> ?rid" using old unused by (auto simp: unused_ids_def)
  have ok: "btree_ok t" "btree_ok t'"
    using revision_set_from_holds t(1) t'(1) by (auto simp: holds_exactly_def)
  have "set (er_parents r) = current_heads t (er_entity_id r)"
    using assms(7) heads_for_current [OF t(2) ok(1)] by simp
  moreover have "?rid \<notin> set (er_parents q)" if "map_of t x = Some q" for x q
    using that ext(2) [OF canon' others, of x q] old unused by (auto simp: unused_ids_def)
  ultimately have "current_heads t' e = (if e = er_entity_id r then {?rid} else current_heads t e)" for e
    using heads_after_merge [OF t(3) t'(3) ext(1) [OF canon' others] ext(3) [OF canon' others]] by blast
  then show ?thesis
    using e' heads_for_current [OF t(2) ok(1)] heads_for_current [OF t'(2) ok(2)] by auto
qed

lemma parents_not_self: "check_parents is_uuid rid seen ps = Inr () \<Longrightarrow> rid \<notin> set ps"
  by (induction ps arbitrary: seen) (auto simp: and_then_eq_Inr split: if_splits)

lemma no_self_parent: "canonical_revision pk r = Inr r \<Longrightarrow> er_revision_id r \<notin> set (er_parents r)"
  by (auto simp: canonical_revision_iff validate_revision_def and_then_eq_Inr split: if_splits
      dest!: parents_not_self)

lemma decoded_insert:
  assumes "btree_ok T" "map_of T k0 = None"
  shows "(\<exists>k row. map_of (btree_insert k0 row0 T) k = Some row \<and> P row) \<longleftrightarrow>
    P row0 \<or> (\<exists>k row. map_of T k = Some row \<and> P row)"
  using assms by simp (metis option.distinct(1))

lemma distinct_members: "check_members is_uuid cid seen ids = Inr () \<Longrightarrow> distinct ids \<and> set ids \<inter> seen = {}"
  by (induction ids arbitrary: seen) (auto simp: and_then_eq_Inr split: if_splits)

lemma distinct_singleton_set: "distinct xs \<Longrightarrow> set xs = {x} \<Longrightarrow> xs = [x]"
  by (cases xs) (auto simp: subset_singleton_iff)

lemma commit_keys:
  assumes "commits_from pk db = Inr cs"
  shows "map rc_commit_id cs = map fst (db_commits db)"
proof -
  have "list_all2 (\<lambda>row c. rc_commit_id c = fst row) (db_commits db) cs"
    using assms unfolding commits_from_def try_map_Inr
    by (rule list_all2_mono) (auto simp: and_then_eq_Inr split: if_splits)
  then show ?thesis by (induction rule: list_all2_induct) auto
qed

lemma canonical_single:
  "canonical_revisions pk [r] = Inr rs \<Longrightarrow>
     rs = [canonicalize_revision r] \<and> canonical_revision pk (canonicalize_revision r) = Inr (canonicalize_revision r)"
  by (auto simp: canonical_revisions_def and_then_eq_Inr add_canonical_def canonical_revision_iff split: sum.splits)

lemma queued_snapshot:
  assumes "journal_codec_ok pk" "jw_packages w = pk" "journal_ok (jw_db w)"
    and "security_snapshot_from pk (jw_db w) = Inr n" "unused_ids n (er_revision_id r) (rc_commit_id c)"
    and "queue_outbound c [r] expected at w = (w', Inr ())"
  obtains n' where "security_snapshot_from pk (jw_db w') = Inr n'" "validate_snapshot pk n' = Inr ()"
    "one_added n (canonicalize_revision r) (canonicalize_commit c) n'"
    "rc_revision_ids (canonicalize_commit c) = [er_revision_id r]"
    "canonicalize_commit c \<in> ob_commit ` set (sn_outbound n')"
proof -
  let ?r = "canonicalize_revision r" and ?c = "canonicalize_commit c"
  have c_id: "rc_commit_id ?c = rc_commit_id c" by (simp add: canonicalize_commit_def)
  from assms(6) obtain rs where c: "canonical_commit pk c = Inr ?c" and rs: "canonical_revisions pk [r] = Inr rs"
    and whole: "validate_complete_commit pk ?c rs expected = Inr ()"
    and tx: "with_mutation (queue_tx pk ?c rs expected at) w = (w', Inr ())"
    by (auto simp: queue_outbound_def Let_def and_then_eq_Inr require_time_def assms(2) canonical_commit_iff
        split: sum.splits if_splits)
  have r: "rs = [?r]" "canonical_revision pk ?r = Inr ?r" using canonical_single [OF rs] by simp_all
  have c': "canonical_commit pk ?c = Inr ?c" using c by (simp add: canonical_commit_iff)
  obtain db n' where db: "queue_tx pk ?c [?r] expected at (jw_db w) = Inr ((), db)" "jw_db w' = db"
    and n': "security_snapshot_from pk db = Inr n'" "validate_snapshot pk n' = Inr ()"
    using mutation_outcome [OF tx] r(1) assms(2) by metis
  note old = snapshot_records [OF assms(4)] and new = snapshot_records [OF n'(1)]
  have ok: "btree_ok (db_revisions (jw_db w))" "btree_ok (db_commits (jw_db w))" using assms(3) by (simp_all add: journal_ok_def)
  have "er_revision_id r \<notin> set (map er_revision_id (sn_revisions n))" "rc_commit_id c \<notin> set (map rc_commit_id (sn_commits n))"
    using assms(5) by (auto simp: unused_ids_def)
  then have absent: "map_of (db_revisions (jw_db w)) (er_revision_id ?r) = None" "map_of (db_commits (jw_db w)) (rc_commit_id ?c) = None"
    unfolding sorted_sn [OF conjunct1 [OF old] ok(1)] commit_keys [OF conjunct2 [OF old]]
    by (simp_all add: map_of_eq_None_iff c_id)
  note rows = queued_rows [OF assms(1,3) r(2) c' db(1) absent]
  have ok': "btree_ok (db_revisions db)" "btree_ok (db_commits db)" using rows(4) by (simp_all add: journal_ok_def)
  have decode: "decode_revision pk (jp_revision_json pk ?r) = Inr ?r" "decode_commit pk (jp_commit_json pk ?c) = Inr ?c"
    using assms(1) r(2) c' by (simp_all add: decode_revision_def decode_commit_def journal_codec_ok_def)
  have revisions: "q \<in> set (sn_revisions n') \<longleftrightarrow> q \<in> insert ?r (set (sn_revisions n))" for q
    unfolding revisions_from_set(1) [OF conjunct1 [OF new] ok'(1)] insert_iff revisions_from_set(1) [OF conjunct1 [OF old] ok(1)]
      rows(1) decoded_insert [OF ok(1) absent(1)] using decode(1) by auto
  have commits: "k \<in> set (sn_commits n') \<longleftrightarrow> k \<in> insert ?c (set (sn_commits n))" for k
    unfolding commits_from_set [OF conjunct2 [OF new] ok'(2)] insert_iff commits_from_set [OF conjunct2 [OF old] ok(2)]
      rows(2) decoded_insert [OF ok(2) absent(2)] using decode(2) by auto
  have "set (sn_revisions n') = insert ?r (set (sn_revisions n))" "set (sn_commits n') = insert ?c (set (sn_commits n))"
    by (rule set_eqI, rule revisions, rule set_eqI, rule commits)
  then have "one_added n ?r ?c n'"
    using revisions_from_set(2) [OF conjunct1 [OF new] ok'(1)] assms(5) no_self_parent [OF r(2)] unfolding one_added_def c_id
    by simp
  moreover have "rc_revision_ids ?c = [er_revision_id r]"
  proof -
    have "set (rc_revision_ids ?c) = {er_revision_id r}"
      using whole by (simp add: validate_complete_commit_def r(1) split: if_splits)
    moreover have "distinct (rc_revision_ids ?c)"
      using c distinct_members by (auto simp: canonical_commit_iff validate_commit_def and_then_eq_Inr split: if_splits)
    ultimately show ?thesis by (metis distinct_singleton_set)
  qed
  moreover have "?c \<in> ob_commit ` set (sn_outbound n')"
  proof -
    have "outbound_from pk db = Inr (sn_outbound n')"
      using n'(1) by (auto simp: security_snapshot_from_def and_then_eq_Inr split: if_splits)
    moreover have "map_of (db_commits db) (rc_commit_id ?c) = Some (jp_commit_json pk ?c)"
      using rows(2) absent(2) ok(2) by simp
    ultimately obtain i where "i \<in> set (sn_outbound n')" "ob_commit i = ?c"
      using outbound_listed [OF _ rows(3) _ decode(2)] by blast
    then show ?thesis by (metis image_eqI)
  qed
  ultimately show thesis using that n' db(2) by blast
qed

text \<open>(C21) Resolving a conflict leaves one head. In a journal whose snapshot is valid, when this device queues a
  commit with one revision, under ids used nowhere before, whose parents are exactly the current heads of
  its entity, then that revision is afterwards the only head of the entity, and the heads of every other
  entity are what they were.\<close>

theorem merge_leaves_one_head:
  assumes "journal_codec_ok pk" "jw_packages w = pk" "journal_ok (jw_db w)"
    and "security_snapshot_from pk (jw_db w) = Inr n" "validate_snapshot pk n = Inr ()"
    and "eligible_records_from pk n = Inr (ready, rs, a)"
    and "unused_ids n (er_revision_id r) (rc_commit_id c)"
    and "set (er_parents r) = set (heads_for a (er_entity_id r))"
    and "queue_outbound c [r] expected at w = (w', Inr ())"
  shows "\<exists>n' ready' rs' a'. security_snapshot_from pk (jw_db w') = Inr n' \<and>
    eligible_records_from pk n' = Inr (ready', rs', a') \<and>
    heads_for a' (er_entity_id r) = [er_revision_id r] \<and> \<not> has_conflict a' (er_entity_id r) \<and>
    (\<forall>e. e \<noteq> er_entity_id r \<longrightarrow> heads_for a' e = heads_for a e)"
proof -
  obtain n' where n': "security_snapshot_from pk (jw_db w') = Inr n'" "validate_snapshot pk n' = Inr ()"
    "one_added n (canonicalize_revision r) (canonicalize_commit c) n'"
    "rc_revision_ids (canonicalize_commit c) = [er_revision_id r]"
    "canonicalize_commit c \<in> ob_commit ` set (sn_outbound n')"
    using queued_snapshot [OF assms(1-4,7,9)] by blast
  have "set (er_parents (canonicalize_revision r)) = set (heads_for a (er_entity_id (canonicalize_revision r)))"
    using assms(8) by simp
  with heads_after_one_added [OF n'(3) assms(5) n'(2) _ n'(5) assms(6)] n'(1,4) show ?thesis
    by (auto simp: has_conflict_def)
qed

theorem merge_leaves_one_head_witness:
  "heads_for example_analysis [1] = [[10], [11]] \<and>
   (\<exists>w' n' ready rs a. queue_outbound merge_commit [merge_revision] merge_heads [50] (example_journal []) = (w', Inr ()) \<and>
      security_snapshot_from example_journal_packages (jw_db w') = Inr n' \<and>
      eligible_records_from example_journal_packages n' = Inr (ready, rs, a) \<and> heads_for a [1] = [[12]])"
proof -
  obtain a where "queue_outbound merge_commit [merge_revision] merge_heads [50] (example_journal []) =
      finish_transaction merged_db () (journal_at a example_db [])"
    using example_queue by metis
  then obtain w' where w': "queue_outbound merge_commit [merge_revision] merge_heads [50] (example_journal []) = (w', Inr ())"
    by (simp add: finish_transaction_def journal_at_def)
  have j: "jw_packages (example_journal []) = example_journal_packages" "jw_db (example_journal []) = example_db"
    by (simp_all add: example_journal_def journal_at_def)
  have heads: "heads_for example_analysis [1] = [[10], [11]]" by (simp add: heads_for_def example_analysis_def)
  have "journal_ok example_db" by (simp add: journal_ok_def example_db_def blank_db_def btree_ok_def)
  moreover have "unused_ids example_snapshot (er_revision_id merge_revision) (rc_commit_id merge_commit)"
    by (simp add: unused_ids_def example_snapshot_def)
  moreover have "set (er_parents merge_revision) = set (heads_for example_analysis (er_entity_id merge_revision))"
    unfolding merge_fields heads by simp
  ultimately show ?thesis
    using merge_leaves_one_head [OF example_codec _ _ _ example_valid example_eligible _ _ w'] example_security_snapshot heads w'
    unfolding j merge_fields by blast
qed

end
