(* ===== verification/Revision_Properties.thy ===== *)
theory Revision_Properties
  imports Journal_Merge
begin

text \<open>
  The properties of the revision graph and of the readiness of commits, stated over the operations of
  \<open>RevisionSet\<close> and of the journal.
\<close>

section \<open>Heads and cycles\<close>

lemma revision_set_ok: "revision_set_from pk rs = Inr s \<Longrightarrow> btree_ok s"
  using revision_set_from_holds by (auto simp: holds_exactly_def)

text \<open>(C26) The analysis of a revision set always ends. Whatever revisions were inserted, the recursive
  walk over their parents returns: with heads and pending revisions exactly when no revision is its own
  ancestor and every known parent belongs to the entity of its child, and otherwise with an error that
  names a revision on a cycle, or a child and parent of different entities. It never panics.\<close>

theorem analyze_always_ends:
  assumes "revision_set_from pk rs = Inr s"
  shows "((\<exists>a. analyze s = Inr a) \<longleftrightarrow> acyclic (parent_edges s) \<and> (\<forall>c. parents_in_entity s c)) \<and>
    (\<forall>e. analyze s = Inl e \<longrightarrow> graph_error s e)"
  using analyze_outcome [OF revision_set_ok [OF assms]] graph_error_bad [of s]
  by (cases "analyze s") auto

definition looping_revisions :: "entity_revision list" where
  "looping_revisions = [example_revision [10] [20] [[11]], example_revision [11] [21] [[10]]]"

lemma looping_set:
  "revision_set_from example_journal_packages looping_revisions =
     Inr [([10], example_revision [10] [20] [[11]]), ([11], example_revision [11] [21] [[10]])]"
  by (simp add: looping_revisions_def revision_set_from_def revision_set_insert_def Let_def validate_revision_def
      validate_uuid_def canonicalize_revision_def example_revision_def)

theorem analyze_always_ends_witness:
  "analyze [([10], example_revision [10] [20] [[11]]), ([11], example_revision [11] [21] [[10]])] = Inl (Cycle [10]) \<and>
   graph_error [([10], example_revision [10] [20] [[11]]), ([11], example_revision [11] [21] [[10]])] (Cycle [10])"
proof -
  have "analyze [([10], example_revision [10] [20] [[11]]), ([11], example_revision [11] [21] [[10]])] = Inl (Cycle [10])"
    by (simp add: analyze_def visit_all_def visit_revision.simps)
  with analyze_always_ends [OF looping_set] show ?thesis by blast
qed

lemma finite_parent_edges: "finite (parent_edges s)"
proof (rule finite_subset)
  show "parent_edges s \<subseteq> (\<Union>c \<in> keys_of s. {c} \<times> set (er_parents (the (map_of s c))))"
    by (force simp: parent_edges_def keys_of_iff)
qed simp

lemma some_head:
  assumes "acyclic (parent_edges s)" "\<forall>c. parents_in_entity s c" "e \<in> entity_of s ` complete_in s"
  shows "current_heads s e \<noteq> {}"
proof -
  let ?Q = "{x \<in> complete_in s. entity_of s x = e}"
  obtain q where "q \<in> ?Q" using assms(3) by auto
  moreover have "wf (parent_edges s)" by (rule finite_acyclic_wf [OF finite_parent_edges assms(1)])
  ultimately obtain z where z: "z \<in> ?Q" "\<And>y. (y, z) \<in> parent_edges s \<Longrightarrow> y \<notin> ?Q"
    by (meson wfE_min)
  have "(c, z) \<notin> parent_edges s" if c: "c \<in> complete_in s" for c
  proof
    assume edge: "(c, z) \<in> parent_edges s"
    then have "entity_of s z = entity_of s c"
      using assms(2) z(1) by (auto simp: parent_edges_def parents_in_entity_def entity_of_def complete_in_def keys_of_iff)
    with z edge c show False by auto
  qed
  with z(1) show ?thesis by (auto simp: current_heads_def)
qed

text \<open>(C25) Heads and pending revisions are the specified ones. The heads reported for an entity are, in
  increasing order, its revisions whose whole ancestry is known and that no other revision with known
  ancestry names as a parent; an entity with any such revision has at least one head. The pending
  revisions are exactly those with an unknown ancestor, each listed with all its unknown ancestors.\<close>

theorem analysis_reports_heads:
  assumes "revision_set_from pk rs = Inr s" "analyze s = Inr a"
  shows "heads_for a e = sorted_list_of_set (current_heads s e) \<and>
    (e \<in> entity_of s ` complete_in s \<longrightarrow> heads_for a e \<noteq> []) \<and>
    ra_pending a = map (pending_row s) (filter (\<lambda>rid. missing_ancestors s rid \<noteq> {}) (map fst s))"
proof -
  note ok = revision_set_ok [OF assms(1)]
  have graph: "acyclic (parent_edges s)" "\<forall>c. parents_in_entity s c"
    and pending: "ra_pending a = map (pending_row s) (filter (\<lambda>rid. missing_ancestors s rid \<noteq> {}) (map fst s))"
    using analyze_outcome [OF ok] assms(2) by simp_all
  note heads = heads_for_current [OF assms(2) ok, of e]
  have "heads_for a e \<noteq> []" if "e \<in> entity_of s ` complete_in s"
    using some_head [OF graph that] unfolding heads by (simp add: sorted_list_of_set_eq_Nil_iff)
  with heads pending show ?thesis by blast
qed

theorem analysis_reports_heads_witness:
  "heads_for example_analysis [1] = sorted_list_of_set (current_heads example_revision_set [1]) \<and>
   current_heads example_revision_set [1] = {[10], [11]}"
proof -
  have "heads_for example_analysis [1] = sorted_list_of_set (current_heads example_revision_set [1])"
    using analysis_reports_heads [OF example_set example_analyze] by blast
  moreover have "heads_for example_analysis [1] = [[10], [11]]" by (simp add: heads_for_def example_analysis_def)
  ultimately show ?thesis
    using set_sorted_list_of_set [OF finite_current_heads, of example_revision_set "[1]"] by simp
qed

section \<open>Readiness\<close>

lemma complete_without_gaps:
  "transaction_complete s cs c \<Longrightarrow> lacking_revisions s cs c = {} \<and> lacking_commits s cs c = {}"
  unfolding transaction_complete_def lacking_revisions_def lacking_commits_def keys_of_iff by fastforce

text \<open>(C24) A ready commit lacks nothing. \<open>commit_readiness\<close> reports as missing exactly the revisions and
  commits absent from the history of the commit, its own members included; the commit is ready exactly
  when every commit of that history is known, holds all its members, and every parent of a member is
  known and listed by the commit it names.\<close>

theorem readiness_is_complete_history:
  assumes "commit_readiness is_uuid s c known = Inr R" "commits_by_id is_uuid c known = Inr cs"
  shows "missing_revisions R = sorted_list_of_set (\<Union> (lacking_revisions s cs ` history s cs (rc_commit_id c))) \<and>
    missing_commits R = sorted_list_of_set (\<Union> (lacking_commits s cs ` history s cs (rc_commit_id c))) \<and>
    (is_ready R \<longleftrightarrow> (\<forall>c' \<in> history s cs (rc_commit_id c). transaction_complete s cs c'))"
proof -
  obtain cs' where cs': "commits_by_id is_uuid c known = Inr cs'"
    and checked: "\<forall>c' \<in> history s cs' (rc_commit_id c). commit_checked s cs' c'"
    and lacks: "missing_revisions R = sorted_list_of_set (mr_revisions (history_lacks s cs' (rc_commit_id c)))"
      "missing_commits R = sorted_list_of_set (mr_commits (history_lacks s cs' (rc_commit_id c)))"
      "is_ready R \<longleftrightarrow> history_lacks s cs' (rc_commit_id c) = no_missing"
    by (rule commit_readiness_outcome [OF assms(1)])
  have same: "cs' = cs" using cs' assms(2) by simp
  have "is_ready R \<longleftrightarrow> (\<forall>c' \<in> history s cs (rc_commit_id c). transaction_complete s cs c')"
  proof
    assume "is_ready R"
    then have none: "history_lacks s cs (rc_commit_id c) = no_missing" using lacks(3) unfolding same by simp
    show "\<forall>c' \<in> history s cs (rc_commit_id c). transaction_complete s cs c'"
    proof
      fix c' assume c': "c' \<in> history s cs (rc_commit_id c)"
      from c' checked have "commit_checked s cs c'" unfolding same by simp
      then show "transaction_complete s cs c'"
        using ready_history [OF none c'] by (rule checked_without_gaps)
    qed
  next
    assume "\<forall>c' \<in> history s cs (rc_commit_id c). transaction_complete s cs c'"
    then show "is_ready R"
      unfolding lacks(3) same no_missing_iff history_lacks_def using complete_without_gaps by auto
  qed
  with lacks(1,2) show ?thesis unfolding same history_lacks_def by simp
qed

theorem readiness_is_complete_history_witness:
  "\<exists>cs. commits_by_id (jp_is_uuid example_journal_packages) merge_commit (sn_commits merged_snapshot) = Inr cs \<and>
     (\<forall>c' \<in> history merged_set cs [22]. transaction_complete merged_set cs c')"
proof -
  have ready: "commit_readiness (jp_is_uuid example_journal_packages) merged_set merge_commit (sn_commits merged_snapshot) = Inr ReadyCommit"
    using merged_readiness(3) by (simp add: readiness_in_def)
  then obtain cs where cs: "commits_by_id (jp_is_uuid example_journal_packages) merge_commit (sn_commits merged_snapshot) = Inr cs"
    by (auto simp: commit_readiness_def and_then_eq_Inr)
  with readiness_is_complete_history [OF ready cs] show ?thesis by simp
qed

section \<open>Projection\<close>

text \<open>(C23) A valid journal is never blocked by its own history. When the snapshot of the journal passes
  validation, the records eligible for projection can be selected: the analysis of the revisions of ready
  commits succeeds, none of them lacks an ancestor, and every parent of an eligible revision is eligible.
  The error for committed history with missing ancestry is unreachable.\<close>

theorem valid_journal_projects:
  assumes "validate_snapshot pk n = Inr ()"
  shows "\<exists>ready rs a. eligible_records_from pk n = Inr (ready, rs, a) \<and> ra_pending a = [] \<and>
    (\<forall>r \<in> set rs. \<forall>p \<in> set (er_parents r). p \<in> er_revision_id ` set rs)"
proof -
  obtain s t a ready rs where "revision_set_from pk (sn_revisions n) = Inr s"
    and "ready = filter (ready_in pk s (sn_commits n)) (sn_commits n)"
    and "rs = filter (\<lambda>r. \<exists>c \<in> set (sn_commits n). ready_in pk s (sn_commits n) c \<and> er_revision_id r \<in> set (rc_revision_ids c))
      (sn_revisions n)"
    and e: "eligible_records_from pk n = Inr (ready, rs, a)"
    and t: "revision_set_from pk rs = Inr t" "analyze t = Inr a" "\<And>x. missing_ancestors t x = {}"
    by (rule eligible_outcome [OF assms]) (rule that)
  have held: "\<And>x q. map_of t x = Some q \<longleftrightarrow> er_revision_id q = x \<and> q \<in> canonicalize_revision ` set rs"
    using revision_set_from_holds [OF t(1)] unfolding holds_exactly_def by blast
  have "p \<in> er_revision_id ` set rs" if r: "r \<in> set rs" and p: "p \<in> set (er_parents r)" for r p
  proof -
    have c: "map_of t (er_revision_id r) = Some (canonicalize_revision r)" using r by (simp add: held)
    with p have "(er_revision_id r, p) \<in> parent_edges t" by (auto simp: parent_edges_def)
    then have "map_of t p \<noteq> None" using t(3) [of "er_revision_id r"] by (auto simp: missing_ancestors_def)
    then obtain q where "er_revision_id q = p" "q \<in> canonicalize_revision ` set rs" using held by blast
    then show ?thesis by auto
  qed
  moreover have "ra_pending a = []"
    using analyze_outcome [OF revision_set_ok [OF t(1)]] t(2,3) by simp
  ultimately show ?thesis using e by blast
qed

theorem valid_journal_projects_witness:
  "\<exists>ready rs a. eligible_records_from example_journal_packages merged_snapshot = Inr (ready, rs, a) \<and> ra_pending a = []"
  using valid_journal_projects [OF merged_valid] by blast

end
