(* ===== verification/Journal_Faults.thy ===== *)
theory Journal_Faults
  imports Journal_History
begin

text \<open>
  What happens when SQLite does not store a transaction whose snapshot was already sealed: the sidecar
  is ahead of the tables, and no transaction, verified read or opening accepts it.
\<close>

section \<open>A journal behind its sidecar\<close>

definition journal_behind :: "journal_world \<Rightarrow> bool" where
  "journal_behind w \<longleftrightarrow> codec_ok (jw_auth w) \<and>
     (\<exists>g sealed. holds_state (jw_auth w) (jw_sidecar w) (jw_domain w) g sealed \<and>
        security_snapshot_from (jw_packages w) (jw_db w) \<noteq> Inr sealed)"

lemma behind_load:
  assumes "journal_behind w" "state_load (jw_auth w) (jw_sidecar w) (jw_domain w) = (a, Inr l)"
  obtains sealed where "ls_value l = Some sealed"
    "security_snapshot_from (jw_packages w) (jw_db w) \<noteq> Inr sealed"
  using assms authenticator.load_holds unfolding journal_behind_def by fastforce

lemma behind_verify:
  assumes "journal_behind w" "security_snapshot_from (jw_packages w) (jw_db w) = Inr n"
  shows "\<not> is_ok (snd (verify_snapshot n w))"
proof (cases "state_load (jw_auth w) (jw_sidecar w) (jw_domain w)")
  case (Pair a r)
  show ?thesis
  proof (cases r)
    case (Inl e)
    with Pair show ?thesis by (simp add: verify_snapshot_def)
  next
    case (Inr l)
    with Pair behind_load [OF assms(1)] assms(2) show ?thesis
      by (fastforce simp: verify_snapshot_def)
  qed
qed

lemma behind_refuses:
  assumes "journal_behind w"
  shows "\<not> is_ok (snd (with_read f w))" "\<not> is_ok (snd (with_mutation op w))"
  using behind_verify [OF assms]
  by (fastforce simp: with_read_def with_mutation_def is_ok_iff split: sum.splits prod.splits)+

lemma snapshot_commits: "security_snapshot_from pk db = Inr n \<Longrightarrow> length (sn_commits n) = length (db_commits db)"
  by (auto simp: security_snapshot_from_def commits_from_def and_then_eq_Inr try_map_Inr split: if_splits
      dest!: list_all2_lengthD)

text \<open>Opening fails too: on the file as it is, and on a new one if the sealed snapshot has any commit.\<close>

lemma behind_open:
  assumes "journal_behind w" "jw_domain w = INTEGRITY_DOMAIN_PREFIX @ '':'' @ vault_id"
    and "file = None \<Longrightarrow> holds_state (jw_auth w) (jw_sidecar w) (jw_domain w) g sealed \<and> sn_commits sealed \<noteq> []"
  shows "\<not> is_ok (snd (journal_open file vault_id w))"
proof
  let ?pk = "jw_packages w"
  assume "is_ok (snd (journal_open file vault_id w))"
  then obtain created db n where created: "create_private_database_file file = Inr created"
    and db: "initialize_or_require_schema ?pk created (if created then blank_db else jw_db w) = Inr db"
    and n: "security_snapshot_from ?pk db = Inr n"
    and ok: "is_ok (snd (authenticate_journal created n (w\<lparr>jw_db := db,
      jw_domain := INTEGRITY_DOMAIN_PREFIX @ '':'' @ vault_id, jw_status_cache := None\<rparr>)))"
    by (auto simp: journal_open_def Let_def and_then_eq_Inr split: sum.splits)
  obtain a l where l: "state_load (jw_auth w) (jw_sidecar w) (jw_domain w) = (a, Inr l)"
    using ok assms(2) by (auto simp: authenticate_journal_def split: prod.splits sum.splits)
  obtain v where v: "ls_value l = Some v" "security_snapshot_from ?pk (jw_db w) \<noteq> Inr v"
    using behind_load [OF assms(1) l] by metis
  have eq: "v = n" using ok l v assms(2) by (auto simp: authenticate_journal_def Let_def split: if_splits)
  show False
  proof (cases created)
    case False
    then have "db = jw_db w" using db by (auto simp: initialize_or_require_schema_def split: if_splits)
    with v n eq show False by simp
  next
    case True
    with created have "file = None" by (auto simp: create_private_database_file_def split: option.splits if_splits)
    with assms(3) have sealed: "holds_state (jw_auth w) (jw_sidecar w) (jw_domain w) g sealed" "sn_commits sealed \<noteq> []" by simp_all
    have "codec_ok (jw_auth w)" using assms(1) by (simp add: journal_behind_def)
    with sealed(1) l v have "v = sealed" using authenticator.load_holds by fastforce
    moreover have "sn_commits n = []"
      using snapshot_commits [OF n] db True by (auto simp: initialize_or_require_schema_def blank_db_def split: if_splits)
    ultimately show False using sealed(2) eq by simp
  qed
qed

section \<open>A transaction that is sealed and not stored\<close>

lemma unfinished_mutation:
  assumes "with_mutation op w = (w', r)" "jw_commits w = FailedBefore # fs" "jw_commits w' = fs" "codec_ok (jw_auth w)"
  obtains x db n g where "op (jw_db w) = Inr (x, db)" "security_snapshot_from (jw_packages w) db = Inr n"
    "holds_state (jw_auth w') (jw_sidecar w') (jw_domain w') g n" "codec_ok (jw_auth w')" "r = Inl RepSqlite"
    "jw_db w' = jw_db w" "jw_packages w' = jw_packages w" "jw_domain w' = jw_domain w"
proof -
  have moved: "jw_commits w' \<noteq> jw_commits w" using assms(2,3) by simp
  obtain current where current: "security_snapshot_from (jw_packages w) (jw_db w) = Inr current"
    using assms(1) moved by (auto simp: with_mutation_def split: sum.splits)
  obtain w1 generation where v: "verify_snapshot current w = (w1, Inr generation)"
    using assms(1) moved verify_snapshot_frame
    by (fastforce simp: with_mutation_def current split: sum.splits prod.splits)
  note frame = verify_snapshot_frame [OF v]
  have ok: "codec_ok (jw_auth w1)"
    using v authenticator.load_trusted [OF assms(4), of "jw_sidecar w" "jw_domain w"]
    by (auto simp: verify_snapshot_def split: prod.splits)
  obtain x db n where tx: "op (jw_db w) = Inr (x, db)" "security_snapshot_from (jw_packages w) db = Inr n"
    "validate_snapshot (jw_packages w) n = Inr ()"
    using assms(1) moved frame by (fastforce simp: with_mutation_def current v split: sum.splits prod.splits)
  obtain a g where p: "state_persist (jw_auth w1) (jw_sidecar w1) (jw_domain w1) generation n = (a, Inr g)"
    using assms(1) moved frame tx by (fastforce simp: with_mutation_def current v split: sum.splits prod.splits)
  have "(w', r) = (w1\<lparr>jw_auth := a, jw_commits := fs\<rparr>, Inl RepSqlite)"
    using assms(1,2) frame tx p by (simp add: with_mutation_def current v finish_transaction_def)
  moreover have "holds_state a (jw_sidecar w1) (jw_domain w1) g n" "codec_ok a"
    using authenticator.persist_holds [OF p] authenticator.persist_trusted [OF ok] p by (metis fst_conv)+
  ultimately show thesis using that tx frame by simp
qed



end
