(* ===== verification/Spec2Isabelle.thy ===== *)
theory Spec2Isabelle
  imports Prompt_Flights File_Sessions Audit_Properties Store_Authenticity Surface_Access Revision_Properties Journal_Faults
begin

text \<open>
  Floria is a macOS daemon that shows secrets and configuration as ordinary files. A read or write of a
  file below the mount is attributed to a process, decided by a policy, recorded in an audit log and, when
  allowed, served from an encrypted store of immutable versions. This development models the Rust crates
  that carry this logic and proves what they promise. Paths below are relative to \<open>src/crates\<close>.

  \<^bold>\<open>How the parts interact.\<close> The file system (\<open>floria-fs\<close>) turns kernel requests into reads of snapshots and
  writes to buffers. Before content is generated it asks the policy agent (\<open>floria-agent\<close>), which evaluates
  the rules (\<open>floria-core/src/rules.rs\<close>, extended by the catalog's policy through \<open>managed_rules.rs\<close>), the policy
  mode, the remembered decisions and, over a socket, the user. Content comes from the secret store
  (\<open>floria-store\<close>) directly or through a surface (\<open>floria-surface\<close>), which resolves catalog records
  (\<open>floria-catalog\<close>) into pinned versions and renders them. Policy mode, remembered decisions, audit checkpoints,
  the head documents of the store and the replication journal are all files authenticated by the state
  authenticator (\<open>floria-integrity\<close>) against a checkpoint in the Keychain. Devices exchange encrypted revisions
  and commits (\<open>floria-replication\<close>), which the journal keeps and the projection turns into catalog and store
  contents.

  \<^bold>\<open>Conventions.\<close> A \<open>Result\<close> is a sum with the error on the left; a panic is an error value too, so that its
  absence can be stated. Fixed-width integers are natural numbers or integers with the wrap-around, saturation
  or overflow check of the source written out. A \<open>HashMap\<close> is a function or an association list whose order
  stands for the unspecified iteration order, a \<open>BTreeMap\<close> a list sorted by key. Clocks, entropy and
  identities of processes are arguments. Paths are byte strings (\<open>string\<close>), Rust text is a list of Unicode
  scalar values (\<open>ustring\<close>); of formatted error messages only the constant text is kept. Packages (hashes,
  ciphers, JSON, glob patterns, UUIDs, SQLite) are records of functions passed as parameters; what is relied
  on is a named hypothesis (\<open>packages_ok\<close>, \<open>codec_ok\<close>, \<open>globset_ok\<close>, \<open>json_ok\<close>, \<open>payload_ok\<close>, \<open>store_packages_ok\<close>,
  \<open>journal_codec_ok\<close>), and each witness instantiates them with concrete functions. Operations on files take a
  script of faults, so a theorem over all scripts covers a failure before or after the effect of every scripted
  call (writes everywhere, reads where a failed read matters). Mutex-protected operations are single steps; where the code releases a lock in
  between, the threads are step relations. Recursions over graphs (\<open>visit_revision\<close>, \<open>visit_commit\<close>) and
  loops are total functions with termination proofs; no definition uses fuel.

  \<^bold>\<open>Vocabulary.\<close>
  \<^item> \<open>Floria_Prelude\<close>: results, machine arithmetic, association lists, stable sorting.
  \<^item> \<open>Rust_Path\<close>, \<open>Rust_Text\<close>: the parts of \<open>std::path\<close> and of \<open>str\<close> the program uses, UTF-8 included.

  \<^bold>\<open>Policy.\<close>
  \<^item> \<open>Rules\<close> (\<open>floria-core\<close>: \<open>identity.rs\<close>, \<open>authz.rs\<close>, \<open>rules.rs\<close>): identities, requests, rules, \<open>decide\<close> and the
    walk to the repository root. The decision is that of the first applicable rule of highest priority.
  \<^item> \<open>Managed_Policy\<close> (\<open>managed_rules.rs\<close>): rules synthesised from catalog items; normalization merges items
    of one object to the strictest level.
  \<^item> \<open>Policy_Mode\<close> (\<open>policy_mode.rs\<close>): timed audit-only override. It is over at its deadline whatever
    restarts, faults and rewritten files happen.
  \<^item> \<open>Grant_Cache\<close> (\<open>grant_cache.rs\<close>): remembered decisions with lifetimes and persistence; the locale
    \<open>decision_cache\<close> is the contract the agent uses, interpreted on the cache. A running daemon answers
    no timed decision 26 hours later.
  \<^item> \<open>Agent_Socket\<close> (\<open>protocol.rs\<close>, \<open>socket.rs\<close>): framing and the server's threads as a step relation; a
    prompt gets only the answer to its own request.
  \<^item> \<open>Agent\<close>, \<open>Prompt_Flights\<close> (\<open>agent.rs\<close>): the complete verdict of \<open>authorize\<close>, the administrative operations,
    and the interleavings of concurrent prompts for one key with cache clearing and generations.

  \<^bold>\<open>Authenticated state and audit.\<close>
  \<^item> \<open>Integrity\<close> (\<open>floria-integrity/src/lib.rs\<close>): load, persist, recovery and detached tags over a file and a
    checkpoint that may each fail. The locale \<open>state_port\<close> is what clients rely on; no rollback after a
    persist, and a load returns only what the checkpoint commits to.
  \<^item> \<open>Audit_Log\<close> (\<open>floria-core/src/audit.rs\<close>): rows, hash chain, verification, checkpoint worker, history
    readers. \<open>Audit_Chain\<close> says what a verified file is, \<open>Audit_Runs\<close> follows writes, reads, the worker,
    faults and restarts as steps over an authority given by the locales \<open>audit_port\<close> and \<open>audit_port_init\<close>;
    \<open>Audit_Authority\<close> (\<open>floria/src/main.rs\<close>) is the daemon's authority and interprets them;
    \<open>Audit_Properties\<close> states the results: exact history, tamper evidence, recovery after a crash, closing on
    failure, and the empty chain accepted when the file is removed.

  \<^bold>\<open>Files.\<close>
  \<^item> \<open>File_Sessions\<close> (\<open>floria-core\<close>: \<open>snapshot.rs\<close>, \<open>writebuf.rs\<close>; \<open>floria-fs\<close>: \<open>read_session.rs\<close> and the data handlers
    of \<open>lib.rs\<close>): the three tables and the handlers; the locale \<open>handle_table\<close> is interpreted on both kinds
    of handles. A reader gets its own frozen snapshot, the content of a write buffer is private to its process
    (\<open>getattr\<close> shows its length), a clean buffer is the newest committed version.

  \<^bold>\<open>Catalog, store and surfaces.\<close>
  \<^item> \<open>Catalog_Domain\<close>, \<open>Catalog_Resolve\<close>, \<open>Catalog_Validation\<close> (\<open>domain.rs\<close>, \<open>catalog/snapshot.rs\<close>,
    \<open>catalog/validation.rs\<close>): records, resolution of environments against a reference definition, semantic
    revisions, validation of snapshots and what a validated surface can be resolved to.
  \<^item> \<open>Secret_Store\<close> (\<open>floria-store/src/store.rs\<close>, publication of objects in \<open>vault.rs\<close>): every mutation and read.
    \<open>Store_Versions\<close> and \<open>Store_Properties\<close> (locale \<open>version_store\<close>) show versions that are immutable
    while their secret exists (whatever happens to the others, \<open>store_step\<close>), appended content that reads back and retries that apply once; \<open>Store_Authenticity\<close> shows that a store that differs from its
    sealed snapshot stops.
  \<^item> \<open>Surface_Formats\<close>, \<open>Surface_Roundtrips\<close> (\<open>dotenv.rs\<close>, \<open>direnv.rs\<close>, \<open>ini.rs\<close>, \<open>lines.rs\<close>): parsers, renderers and
    their round trips.
  \<^item> \<open>Surface_Resolver\<close>, \<open>Surface_Access\<close> (\<open>codec.rs\<close>, \<open>render.rs\<close>, \<open>registry.rs\<close>, \<open>resolver.rs\<close>, \<open>mutation.rs\<close>, \<open>source.rs\<close>):
    from a plan to bytes. The store of other clients moves on between any two calls (\<open>store_times\<close>); the
    bytes are fixed by the frozen versions all the same.

  \<^bold>\<open>Replication\<close> (\<open>floria-replication/src/record.rs\<close>, \<open>record_journal.rs\<close>).
  \<^item> \<open>Revision_Records\<close>: revisions, commits, validation, the analysis of heads and the readiness of commits.
    \<open>Revision_Graph\<close> and \<open>Commit_Readiness\<close> specify both on the parent graph and prove the recursive walks
    with their shared memory of visits correct.
  \<^item> \<open>Record_Journal\<close>: tables, snapshots, transactions, queues, projections, opening. \<open>Journal_Example\<close> is the
    concrete journal of the witnesses. \<open>Journal_History\<close> (locale \<open>immutable_rows\<close>, interpreted on the tables of
    revisions and of commits) shows that arrival order does not matter, \<open>Journal_Merge\<close> that a merge leaves one
    head, \<open>Journal_Faults\<close> what a lost SQLite commit does, \<open>Revision_Properties\<close> the results on heads, readiness
    and projection.

  The section below holds the property that spans catalog policy, rules, agent and prompt.

  \<^bold>\<open>Not modelled.\<close> System calls behind process identity, code signatures and the mount (\<open>floria-platform\<close>,
  \<open>macos_mount.rs\<close>, \<open>tree.rs\<close>); key material and encryption (\<open>device.rs\<close>, \<open>keys.rs\<close>, \<open>record_crypto.rs\<close>), which are
  parameters; SQL of the catalog; the Keychain behind the checkpoint store; the SSH agent; discovery
  heuristics; backup archives; links in projects; the control service and the command line, which dispatch to
  the operations modelled here; the replication engine around the journal (bundles, transport, conflict
  choices, the move of journals from the old layout); the Swift application, whose answers are inputs.
\<close>

section \<open>Protected secrets, end to end\<close>

text \<open>What a changed policy leaves of the agent: other rules, and no remembered decision unless it is the first.\<close>

lemma replaced_agent_kept:
  assumes "replace_managed_policy a items = Inr a'" "sa_managed_items a \<noteq> Some (normalize_managed_policy items)"
    and "managed_rules (sa_globs a) (normalize_managed_policy items) = Inr rules"
  shows "sa_globs a' = sa_globs a" "sa_rules a' = with_additional (sa_base_rules a) rules"
    "request_repo a' req = request_repo a req" "request_key a' req level = request_key a req level"
    "mode_in_force a' c = mode_in_force a c"
    "remembered a' c key = (if sa_managed_items a = None then remembered a c key else None)"
proof -
  let ?b = "a\<lparr>sa_rules := with_additional (sa_base_rules a) rules, sa_managed_items := Some (normalize_managed_policy items)\<rparr>"
  have a': "a' = (if sa_managed_items a = None then ?b else agent_clear_cache (bump_generation ?b))"
    using assms by (auto simp: replace_managed_policy_def Let_def)
  show "sa_globs a' = sa_globs a" "sa_rules a' = with_additional (sa_base_rules a) rules"
    "request_repo a' req = request_repo a req" "request_key a' req level = request_key a req level"
    "mode_in_force a' c = mode_in_force a c"
    "remembered a' c key = (if sa_managed_items a = None then remembered a c key else None)"
    by (simp_all add: a' remembered_cleared)
      (simp_all add: a' agent_clear_cache_def bump_generation_def case_prod_beta request_repo_def request_key_def
        mode_in_force_def)
qed

text \<open>(C1) Who may read or write a managed secret after the catalog's policy changed. The level asked of
  \<open>secrets/<id>\<close> is the catalog's strictest level for it, unless a configured rule of at least the
  managed priority applies to the request, in which case the configured rules alone decide. Deny and
  Allow are final. Under Prompt and Touch ID the access is allowed in audit-only mode; otherwise it is
  allowed exactly when the user allows it at the prompt, and no decision given under an earlier policy
  is used. Only when there was no earlier policy (the first one since the daemon started) does a
  decision remembered for this request and level answer in place of the user. The \<open>globset\<close> package is
  assumed to match an escaped path exactly, and item identifiers to hold no character special to it.\<close>

theorem new_policy_needs_user:
  assumes "globset_ok (sa_globs a)" "plain_items items" "sa_base_rules a = rule_set_new base"
    and "replace_managed_policy a items = Inr a'" "sa_managed_items a \<noteq> Some (normalize_managed_policy items)"
    and "Secret sid \<in> set (objects_of items)"
    and "req_path req = SECRETS_DIR @ ''/'' @ sid" "req_operation req \<noteq> Sign"
  shows "is_allowed (snd (authorize a' c today req result)) \<longleftrightarrow>
    (case secret_level (sa_globs a) base items sid (rule_request_of req (request_repo a req)) of
       Allow \<Rightarrow> True
     | Deny \<Rightarrow> False
     | level \<Rightarrow>
         mode_in_force a c = AuditOnly \<or>
         (case if sa_managed_items a = None then remembered a c (request_key a req level) else None of
            Some allowed \<Rightarrow> allowed
          | None \<Rightarrow> user_allowed result))"
proof -
  let ?q = "rule_request_of req (request_repo a req)"
  have q: "rq_path ?q = SECRETS_DIR @ ''/'' @ sid" "rq_operation ?q \<noteq> Sign"
    using assms(7,8) by (simp_all add: rule_request_of_def)
  obtain rules where mr: "managed_rules (sa_globs a) (normalize_managed_policy items) = Inr rules"
    and d: "fst (decide (sa_globs a) (with_additional (sa_base_rules a) rules) ?q) =
      secret_level (sa_globs a) base items sid ?q"
    using managed_secret_level [OF assms(1,2,6) q, of base] assms(3) by auto
  note kept = replaced_agent_kept [OF assms(4,5) mr]
  have "configured a' req = secret_level (sa_globs a) base items sid ?q"
    using d kept by (simp add: configured_def)
  then show ?thesis
    by (simp only: authorize_allowed_iff kept)
qed

definition governed_agent :: agent where
  "governed_agent = example_agent\<lparr>sa_managed_items := Some []\<rparr>"

theorem new_policy_needs_user_witness:
  "\<exists>a'. replace_managed_policy governed_agent [\<lparr>mp_object = Secret ''a'', mp_enforcement = TouchId\<rparr>] = Inr a' \<and>
     \<not> is_allowed (snd (authorize a' clock0 0 example_auth_request Timeout))"
proof -
  let ?items = "[\<lparr>mp_object = Secret ''a'', mp_enforcement = TouchId\<rparr>]"
  have n: "normalize_managed_policy ?items = ?items"
    by (simp add: normalize_managed_policy_def merge_item_def)
  have g: "globset_ok (sa_globs governed_agent)" by (simp add: governed_agent_def example_agent_def witness_globs_ok)
  have p: "plain_items ?items" by (simp add: plain_items_def plain_id_def)
  obtain rules where "managed_rules (sa_globs governed_agent) (normalize_managed_policy ?items) = Inr rules"
    using managed_secret_level [OF g p, of "''a''" "example_request (SECRETS_DIR @ ''/'' @ ''a'') Read" "[]"]
    by (auto simp: objects_of_def example_request_def)
  then obtain a' where a': "replace_managed_policy governed_agent ?items = Inr a'"
    by (simp add: replace_managed_policy_def n governed_agent_def Let_def)
  have "is_allowed (snd (authorize a' clock0 0 example_auth_request Timeout)) \<longleftrightarrow> user_allowed Timeout"
    by (subst new_policy_needs_user [OF g p _ a', of "[]" "''a''"])
      (simp_all add: n governed_agent_def example_agent_def objects_of_def secret_level_def outranked_def
        required_level_def levels_of_def example_auth_request_def SECRETS_DIR_def mode_in_force_def
        example_mode_state_def is_expired_def policy_mode_status_default_def)
  with a' show ?thesis by (simp add: user_allowed_def)
qed

end
